(* ===== verification/Prelude.thy ===== *)
theory Prelude
  imports Main "HOL-Library.AList" "HOL-Library.Sublist" "HOL-Library.Multiset"
begin

text \<open>
  What the components share: results of fallible code, the state-and-exception
  computations that model asynchronous code run to completion, JavaScript's strings,
  maps and stable sort, and the lemmas on them that every component theory uses.

  Strings are lists of \<open>char\<close>, read as the code points U+0000 to U+00FF (Latin-1), so
  the length of a string is the number of its UTF-16 code units, as in JavaScript; texts
  with code points above U+00FF are outside the model. A JavaScript \<open>Map\<close> is an
  association list in insertion order: \<open>AList.update\<close> keeps the position of a key
  that is present and appends a new one, exactly as \<open>Map.prototype.set\<close> does.
\<close>

named_theorems monad_defs "unfolding the combinators of computations"
named_theorems valid_rules "Hoare rules for computations"

section \<open>Results and computations\<close>

text \<open>
  An awaited call either returns or throws, and in both cases leaves a state behind.
  \<open>bindE\<close> is \<open>await\<close> followed by the rest of the body, \<open>catchE\<close> a \<open>catch\<close> block.
\<close>

type_synonym ('w, 'e, 'a) comp = "'w \<Rightarrow> ('e + 'a) \<times> 'w"

definition returnE :: "'a \<Rightarrow> ('w, 'e, 'a) comp" where
  "returnE x w = (Inr x, w)"

definition throwE :: "'e \<Rightarrow> ('w, 'e, 'a) comp" where
  "throwE e w = (Inl e, w)"

definition bindE :: "('w, 'e, 'a) comp \<Rightarrow> ('a \<Rightarrow> ('w, 'e, 'b) comp) \<Rightarrow> ('w, 'e, 'b) comp" where
  "bindE m f w = (case m w of (Inl e, w') \<Rightarrow> (Inl e, w') | (Inr x, w') \<Rightarrow> f x w')"

definition catchE :: "('w, 'e, 'a) comp \<Rightarrow> ('e \<Rightarrow> ('w, 'f, 'a) comp) \<Rightarrow> ('w, 'f, 'a) comp" where
  "catchE m h w = (case m w of (Inl e, w') \<Rightarrow> h e w' | (Inr x, w') \<Rightarrow> (Inr x, w'))"

definition getsE :: "('w \<Rightarrow> 'a) \<Rightarrow> ('w, 'e, 'a) comp" where
  "getsE f w = (Inr (f w), w)"

definition modifyE :: "('w \<Rightarrow> 'w) \<Rightarrow> ('w, 'e, unit) comp" where
  "modifyE f w = (Inr (), f w)"

text \<open>\<open>try m finally c\<close>: the cleanup runs on both paths and its own exception wins.\<close>

definition finallyE :: "('w, 'e, 'a) comp \<Rightarrow> ('w, 'e, unit) comp \<Rightarrow> ('w, 'e, 'a) comp" where
  "finallyE m c w =
     (case m w of (r, w') \<Rightarrow> (case c w' of (Inl e, w'') \<Rightarrow> (Inl e, w'') | (Inr _, w'') \<Rightarrow> (r, w'')))"

lemmas [monad_defs] =
  returnE_def throwE_def bindE_def catchE_def getsE_def modifyE_def finallyE_def

fun mapE :: "('a \<Rightarrow> ('w, 'e, 'b) comp) \<Rightarrow> 'a list \<Rightarrow> ('w, 'e, 'b list) comp" where
  "mapE f [] = returnE []"
| "mapE f (x # xs) = bindE (f x) (\<lambda>y. bindE (mapE f xs) (\<lambda>ys. returnE (y # ys)))"

lemma bindE_returnE [simp]: "bindE (returnE x) f = f x"
  by (rule ext) (simp add: monad_defs)

lemma bindE_throwE [simp]: "bindE (throwE e) f = throwE e"
  by (rule ext) (simp add: monad_defs)

lemma bindE_assoc: "bindE (bindE m f) g = bindE m (\<lambda>x. bindE (f x) g)"
  by (rule ext) (auto simp: monad_defs split: prod.splits sum.splits)

lemma returnE_Inr: "returnE x n = (Inr y, n') \<longleftrightarrow> y = x \<and> n' = n"
  by (auto simp: returnE_def)

lemma throwE_Inr: "throwE e n \<noteq> (Inr x, n')"
  by (simp add: throwE_def)

lemma bindE_Inr_iff:
  "bindE m f w = (Inr y, w') \<longleftrightarrow> (\<exists>x v. m w = (Inr x, v) \<and> f x v = (Inr y, w'))"
  by (auto simp: bindE_def split: prod.splits sum.splits)

lemma bindE_Inl_iff:
  "bindE m f w = (Inl e, w') \<longleftrightarrow>
     m w = (Inl e, w') \<or> (\<exists>x v. m w = (Inr x, v) \<and> f x v = (Inl e, w'))"
  by (auto simp: bindE_def split: prod.splits sum.splits)

subsection \<open>Hoare triples for computations\<close>

text \<open>
  \<open>validE P m Q R\<close>: started where \<open>P\<close> holds, \<open>m\<close> returns a value and state in \<open>Q\<close>
  or throws an exception and state in \<open>R\<close>. Computations are total functions, so this is
  total correctness.
\<close>

definition validE ::
  "('w \<Rightarrow> bool) \<Rightarrow> ('w, 'e, 'a) comp \<Rightarrow> ('a \<Rightarrow> 'w \<Rightarrow> bool) \<Rightarrow> ('e \<Rightarrow> 'w \<Rightarrow> bool) \<Rightarrow> bool" where
  "validE P m Q R \<longleftrightarrow>
     (\<forall>w. P w \<longrightarrow> (case m w of (Inr x, w') \<Rightarrow> Q x w' | (Inl e, w') \<Rightarrow> R e w'))"

lemma validE_I:
  assumes "\<And>w x w'. P w \<Longrightarrow> m w = (Inr x, w') \<Longrightarrow> Q x w'"
    and "\<And>w e w'. P w \<Longrightarrow> m w = (Inl e, w') \<Longrightarrow> R e w'"
  shows "validE P m Q R"
  using assms by (auto simp: validE_def split: prod.splits sum.splits)

lemma validE_D_Inr: "validE P m Q R \<Longrightarrow> P w \<Longrightarrow> m w = (Inr x, w') \<Longrightarrow> Q x w'"
  by (force simp: validE_def)

lemma validE_D_Inl: "validE P m Q R \<Longrightarrow> P w \<Longrightarrow> m w = (Inl e, w') \<Longrightarrow> R e w'"
  by (force simp: validE_def)

lemma validE_return [valid_rules]: "validE (Q x) (returnE x) Q R"
  by (simp add: validE_def monad_defs)

lemma validE_throw [valid_rules]: "validE (R e) (throwE e) Q R"
  by (simp add: validE_def monad_defs)

lemma validE_bind [valid_rules]:
  assumes "validE P m Q' R" and "\<And>x. validE (Q' x) (f x) Q R"
  shows "validE P (bindE m f) Q R"
proof (rule validE_I)
  fix w x w' assume P: "P w" and b: "bindE m f w = (Inr x, w')"
  from b obtain y v where "m w = (Inr y, v)" and "f y v = (Inr x, w')"
    by (auto simp: bindE_Inr_iff)
  with P assms show "Q x w'" by (blast dest: validE_D_Inr)
next
  fix w e w' assume P: "P w" and b: "bindE m f w = (Inl e, w')"
  from b show "R e w'"
    unfolding bindE_Inl_iff
    using P assms by (blast dest: validE_D_Inr validE_D_Inl)
qed

lemma validE_catch [valid_rules]:
  assumes "validE P m Q R'" and "\<And>e. validE (R' e) (h e) Q R"
  shows "validE P (catchE m h) Q R"
  unfolding validE_def
proof (intro allI impI)
  fix w assume P: "P w"
  obtain r w' where m: "m w = (r, w')" by (cases "m w")
  show "case catchE m h w of (Inr x, w') \<Rightarrow> Q x w' | (Inl e, w') \<Rightarrow> R e w'"
  proof (cases r)
    case (Inl e)
    with m P assms(1) have "R' e w'" by (blast dest: validE_D_Inl)
    with assms(2) [of e] m Inl show ?thesis by (simp add: validE_def catchE_def)
  next
    case (Inr x)
    with m P assms(1) show ?thesis by (auto simp: catchE_def dest: validE_D_Inr)
  qed
qed

lemma validE_weaken:
  assumes "validE P' m Q' R'" and "\<And>w. P w \<Longrightarrow> P' w"
    and "\<And>x w. Q' x w \<Longrightarrow> Q x w" and "\<And>e w. R' e w \<Longrightarrow> R e w"
  shows "validE P m Q R"
  by (rule validE_I) (use assms in \<open>blast dest: validE_D_Inr validE_D_Inl\<close>)+

text \<open>A computation that keeps \<open>P\<close> on every path, and a loop of such computations.\<close>

abbreviation keepsE :: "('w \<Rightarrow> bool) \<Rightarrow> ('w, 'e, 'a) comp \<Rightarrow> bool" where
  "keepsE P m \<equiv> validE P m (\<lambda>_. P) (\<lambda>_. P)"

lemma keepsE_bind: "keepsE P m \<Longrightarrow> (\<And>y. keepsE P (f y)) \<Longrightarrow> keepsE P (bindE m f)"
  by (rule validE_bind)

lemma keepsE_return: "keepsE P (returnE y)"
  by (simp add: validE_def returnE_def)

lemma keepsE_throw: "keepsE P (throwE e)"
  by (simp add: validE_def throwE_def)

lemma keepsE_D: "keepsE P m \<Longrightarrow> P w \<Longrightarrow> m w = (r, w') \<Longrightarrow> P w'"
  by (cases r) (auto dest: validE_D_Inr validE_D_Inl)

lemma keepsE_mapE: "(\<And>x. x \<in> set xs \<Longrightarrow> keepsE P (f x)) \<Longrightarrow> keepsE P (mapE f xs)"
  by (induction xs) (auto intro!: validE_bind validE_return)

section \<open>JavaScript values\<close>

text \<open>
  A \<open>number\<close>, as far as the code tells numbers apart: an integer, or a value for which
  \<open>Number.isInteger\<close> is false (a fraction, \<open>NaN\<close> or an infinity).
\<close>

datatype js_number = JInt int | JNonInt

fun isInteger :: "js_number \<Rightarrow> bool" where
  "isInteger (JInt _) = True"
| "isInteger JNonInt = False"

subsection \<open>Characters\<close>

definition char_code :: "char \<Rightarrow> nat" where
  "char_code c = of_char c"

definition in_range :: "nat \<Rightarrow> nat \<Rightarrow> char \<Rightarrow> bool" where
  "in_range lo hi c \<longleftrightarrow> lo \<le> char_code c \<and> char_code c \<le> hi"

definition is_digit :: "char \<Rightarrow> bool" where
  "is_digit = in_range 48 57"

definition is_ascii_upper :: "char \<Rightarrow> bool" where
  "is_ascii_upper = in_range 65 90"

definition is_ascii_lower :: "char \<Rightarrow> bool" where
  "is_ascii_lower = in_range 97 122"

definition is_alnum :: "char \<Rightarrow> bool" where
  "is_alnum c \<longleftrightarrow> is_digit c \<or> is_ascii_upper c \<or> is_ascii_lower c"

text \<open>The regular expressions' \<open>\w\<close> and \<open>\s\<close>; \<open>\s\<close> is also what \<open>trim\<close> removes.\<close>

definition is_word :: "char \<Rightarrow> bool" where
  "is_word c \<longleftrightarrow> is_alnum c \<or> c = CHR ''_''"

definition is_space :: "char \<Rightarrow> bool" where
  "is_space c \<longleftrightarrow> in_range 9 13 c \<or> char_code c = 32 \<or> char_code c = 160"

definition lower_char :: "char \<Rightarrow> char" where
  "lower_char c =
     (if in_range 65 90 c \<or> in_range 192 222 c \<and> char_code c \<noteq> 215 then char_of (char_code c + 32) else c)"

lemma char_code_lt [simp]: "char_code c < 256"
proof -
  have "(of_char c :: nat) mod 256 < 256" by simp
  then show ?thesis by (simp add: char_code_def)
qed

lemma char_code_char_of [simp]: "char_code (char_of n) = n mod 256"
  by (simp add: char_code_def)

lemma char_code_eq_iff: "char_code c = char_code d \<longleftrightarrow> c = d"
  by (simp add: char_code_def)

lemma char_of_char_code [simp]: "char_of (char_code c) = c"
  by (simp add: char_code_def)

lemma lower_char_idem [simp]: "lower_char (lower_char c) = lower_char c"
  by (auto simp: lower_char_def in_range_def)

text \<open>The classes on the bits of a character, for evaluation.\<close>

lemma lower_char_code [code]:
  "lower_char (Char b0 b1 b2 b3 b4 b5 b6 b7) =
     (if b6 \<and> \<not> b5 \<and> (if b7 then \<not> (b0 \<and> b1 \<and> b2 \<and> b4)
        else (b0 \<or> b1 \<or> b2 \<or> b3 \<or> b4) \<and> \<not> (b4 \<and> b3 \<and> (b2 \<or> b1 \<and> b0)))
      then Char b0 b1 b2 b3 b4 True b6 b7 else Char b0 b1 b2 b3 b4 b5 b6 b7)"
  by (cases b0; cases b1; cases b2; cases b3; cases b4; cases b5; cases b6; cases b7;
      simp add: lower_char_def in_range_def char_code_def char_of_def bit_0 bit_Suc_0_iff)

lemma is_digit_code [code]: "is_digit (Char b0 b1 b2 b3 b4 b5 b6 b7) = (\<not> b7 \<and> \<not> b6 \<and> b5 \<and> b4 \<and> \<not> (b3 \<and> (b2 \<or> b1)))"
  by (cases b0; cases b1; cases b2; cases b3; cases b4; cases b5; cases b6; cases b7;
      simp add: is_digit_def in_range_def char_code_def)

lemma is_ascii_upper_code [code]: "is_ascii_upper (Char b0 b1 b2 b3 b4 b5 b6 b7) = (\<not> b7 \<and> b6 \<and> \<not> b5 \<and> (b0 \<or> b1 \<or> b2 \<or> b3 \<or> b4) \<and> \<not> (b4 \<and> b3 \<and> (b2 \<or> b1 \<and> b0)))"
  by (cases b0; cases b1; cases b2; cases b3; cases b4; cases b5; cases b6; cases b7;
      simp add: is_ascii_upper_def in_range_def char_code_def)

lemma is_ascii_lower_code [code]: "is_ascii_lower (Char b0 b1 b2 b3 b4 b5 b6 b7) = (\<not> b7 \<and> b6 \<and> b5 \<and> (b0 \<or> b1 \<or> b2 \<or> b3 \<or> b4) \<and> \<not> (b4 \<and> b3 \<and> (b2 \<or> b1 \<and> b0)))"
  by (cases b0; cases b1; cases b2; cases b3; cases b4; cases b5; cases b6; cases b7;
      simp add: is_ascii_lower_def in_range_def char_code_def)

lemma is_space_code [code]: "is_space (Char b0 b1 b2 b3 b4 b5 b6 b7) =
  (\<not> b6 \<and> \<not> b4 \<and> (if b5 then \<not> b3 \<and> \<not> b2 \<and> \<not> b1 \<and> \<not> b0 else \<not> b7 \<and> b3 \<and> (if b2 then \<not> b1 else b0 \<or> b1)))"
  by (cases b0; cases b1; cases b2; cases b3; cases b4; cases b5; cases b6; cases b7;
      simp add: is_space_def in_range_def char_code_def)

subsection \<open>Strings\<close>

definition to_lower :: "string \<Rightarrow> string" where
  "to_lower = map lower_char"

definition trim_start :: "string \<Rightarrow> string" where
  "trim_start = dropWhile is_space"

definition trim_end :: "string \<Rightarrow> string" where
  "trim_end s = rev (dropWhile is_space (rev s))"

definition trim :: "string \<Rightarrow> string" where
  "trim s = trim_end (trim_start s)"

text \<open>\<open>s.split(sep)\<close> for a one-character separator, and \<open>xs.join(sep)\<close>.\<close>

fun split_on :: "char \<Rightarrow> string \<Rightarrow> string list" where
  "split_on c [] = [[]]"
| "split_on c (x # xs) =
     (if x = c then [] # split_on c xs
      else (case split_on c xs of [] \<Rightarrow> [[x]] | y # ys \<Rightarrow> (x # y) # ys))"

fun join :: "string \<Rightarrow> string list \<Rightarrow> string" where
  "join sep [] = []"
| "join sep [x] = x"
| "join sep (x # y # ys) = x @ sep @ join sep (y # ys)"

definition starts_with :: "string \<Rightarrow> string \<Rightarrow> bool" where
  "starts_with p s \<longleftrightarrow> take (length p) s = p"

fun index_of :: "string \<Rightarrow> string \<Rightarrow> nat option" where
  "index_of p [] = (if p = [] then Some 0 else None)"
| "index_of p (x # xs) =
     (if starts_with p (x # xs) then Some 0 else map_option Suc (index_of p xs))"

fun last_index_of :: "string \<Rightarrow> string \<Rightarrow> nat option" where
  "last_index_of p [] = (if p = [] then Some 0 else None)"
| "last_index_of p (x # xs) =
     (case last_index_of p xs of
        Some i \<Rightarrow> Some (Suc i)
      | None \<Rightarrow> if starts_with p (x # xs) then Some 0 else None)"

definition contains :: "string \<Rightarrow> string \<Rightarrow> bool" where
  "contains p s \<longleftrightarrow> index_of p s \<noteq> None"

text \<open>\<open>String(n)\<close> of an integer.\<close>

fun dec :: "nat \<Rightarrow> string" where
  "dec n = (if n < 10 then [char_of (48 + n)] else dec (n div 10) @ [char_of (48 + n mod 10)])"

declare dec.simps [simp del]

definition string_of_int :: "int \<Rightarrow> string" where
  "string_of_int i = (if i < 0 then CHR ''-'' # dec (nat (- i)) else dec (nat i))"

lemma to_lower_idem [simp]: "to_lower (to_lower s) = to_lower s"
  by (simp add: to_lower_def)

lemma to_lower_append [simp]: "to_lower (s @ t) = to_lower s @ to_lower t"
  by (simp add: to_lower_def)

lemma length_to_lower [simp]: "length (to_lower s) = length s"
  by (simp add: to_lower_def)

lemma split_on_ne [simp]: "split_on c s \<noteq> []"
  by (induction s) (auto split: list.splits)

lemma split_on_no_sep: "c \<notin> set s \<Longrightarrow> split_on c s = [s]"
  by (induction s) auto

lemma split_on_append: "c \<notin> set s \<Longrightarrow> split_on c (s @ c # t) = s # split_on c t"
  by (induction s) auto

lemma split_on_parts: "x \<in> set (split_on c s) \<Longrightarrow> c \<notin> set x"
  by (induction s arbitrary: x) (auto split: list.splits if_splits)

lemma join_Cons: "xs \<noteq> [] \<Longrightarrow> join sep (x # xs) = x @ sep @ join sep xs"
  by (cases xs) auto

lemma join_append: "xs \<noteq> [] \<Longrightarrow> ys \<noteq> [] \<Longrightarrow> join sep (xs @ ys) = join sep xs @ sep @ join sep ys"
proof (induction xs)
  case Nil
  then show ?case by simp
next
  case (Cons x xs)
  then show ?case by (cases "xs = []") (simp_all add: join_Cons)
qed

lemma join_free: "(\<And>x. x \<in> set xs \<Longrightarrow> c \<notin> set x) \<Longrightarrow> c \<notin> set sep \<Longrightarrow> c \<notin> set (join sep xs)"
  by (induction sep xs rule: join.induct) auto

lemma split_on_join:
  "xs \<noteq> [] \<Longrightarrow> (\<And>x. x \<in> set xs \<Longrightarrow> c \<notin> set x) \<Longrightarrow> split_on c (join [c] xs) = xs"
proof (induction xs)
  case Nil
  then show ?case by simp
next
  case (Cons x xs)
  show ?case
  proof (cases "xs = []")
    case True
    with Cons.prems show ?thesis by (simp add: split_on_no_sep)
  next
    case False
    with Cons show ?thesis by (simp add: join_Cons split_on_append)
  qed
qed

lemma join_split_on: "join [c] (split_on c s) = s"
proof (induction s)
  case Nil
  then show ?case by simp
next
  case (Cons x xs)
  show ?case
  proof (cases "x = c")
    case True
    with Cons show ?thesis by (simp add: join_Cons)
  next
    case False
    obtain y ys where yys: "split_on c xs = y # ys" by (cases "split_on c xs") auto
    with Cons False show ?thesis by (cases ys) auto
  qed
qed

lemma split_on_sep: "split_on c (s @ c # t) = split_on c s @ split_on c t"
proof (induction s)
  case Nil
  then show ?case by simp
next
  case (Cons x s)
  then show ?case by (cases "split_on c s") auto
qed

lemma starts_with_append [simp]: "starts_with p (p @ s)"
  by (simp add: starts_with_def)

lemma starts_with_iff: "starts_with p s \<longleftrightarrow> (\<exists>t. s = p @ t)"
  by (metis append_eq_conv_conj starts_with_def)

lemma index_of_Some: "index_of p s = Some i \<Longrightarrow> \<exists>t. s = take i s @ p @ t \<and> i \<le> length s"
proof (induction s arbitrary: i)
  case Nil
  then show ?case by (auto split: if_splits)
next
  case (Cons x xs)
  show ?case
  proof (cases "starts_with p (x # xs)")
    case True
    with Cons.prems show ?thesis by (auto simp: starts_with_iff)
  next
    case False
    with Cons.prems obtain j where "index_of p xs = Some j" and i: "i = Suc j" by auto
    from Cons.IH [OF this(1)] show ?thesis by (auto simp: i)
  qed
qed

lemma index_of_None: "index_of p s = None \<longleftrightarrow> (\<nexists>u v. s = u @ p @ v)"
proof (induction s)
  case Nil
  then show ?case by simp
next
  case (Cons x xs)
  show ?case
  proof (cases "starts_with p (x # xs)")
    case True
    then have "\<exists>u v. x # xs = u @ p @ v" by (metis append_Nil starts_with_iff)
    with True show ?thesis by (simp del: append_assoc)
  next
    case False
    have "(\<exists>u v. x # xs = u @ p @ v) \<longleftrightarrow> (\<exists>u v. xs = u @ p @ v)" (is "?l \<longleftrightarrow> ?r")
    proof
      assume ?l
      then obtain u v where uv: "x # xs = u @ p @ v" by blast
      show ?r
      proof (cases u)
        case Nil
        with uv False show ?thesis by (auto simp: starts_with_iff)
      next
        case (Cons a u')
        with uv show ?thesis by auto
      qed
    next
      assume ?r
      then show ?l by (metis append_Cons)
    qed
    with Cons.IH False show ?thesis by simp
  qed
qed

lemma contains_iff: "contains p s \<longleftrightarrow> (\<exists>u v. s = u @ p @ v)"
  using index_of_None [of p s] by (auto simp: contains_def)

lemma last_index_of_None: "last_index_of p s = None \<longleftrightarrow> index_of p s = None"
  by (induction s) (auto split: option.splits)

text \<open>The last occurrence is at \<open>i\<close> when the pattern is there and nowhere later.\<close>

lemma last_index_of_append:
  assumes "last_index_of p (tl (p @ s)) = None" and "p \<noteq> []"
  shows "last_index_of p (b @ p @ s) = Some (length b)"
proof (induction b)
  case Nil
  from assms obtain x p' where p: "p = x # p'" by (cases p) auto
  have "starts_with p (x # p' @ s)" by (simp add: starts_with_iff p)
  with assms show ?case by (simp add: p)
next
  case (Cons y b)
  then show ?case by simp
qed

lemma dec_digits: "d \<in> set (dec n) \<Longrightarrow> is_digit d"
proof (induction n arbitrary: d rule: dec.induct)
  case (1 n)
  then show ?case
    by (subst (asm) dec.simps) (auto simp: is_digit_def in_range_def split: if_splits)
qed

lemma dec_ne [simp]: "dec n \<noteq> []"
  by (subst dec.simps) simp

lemma is_digit_not_space: "is_digit c \<Longrightarrow> \<not> is_space c"
  by (auto simp: is_digit_def is_space_def in_range_def)

lemma trim_id: "(\<And>c. c \<in> set s \<Longrightarrow> \<not> is_space c) \<Longrightarrow> trim s = s"
proof -
  have dw: "dropWhile is_space t = t" if "\<And>c. c \<in> set t \<Longrightarrow> \<not> is_space c" for t
    using that by (cases t) auto
  assume "\<And>c. c \<in> set s \<Longrightarrow> \<not> is_space c"
  then show ?thesis using dw [of s] dw [of "rev s"]
    by (simp add: trim_def trim_start_def trim_end_def)
qed

lemma trim_snoc: "is_space c \<Longrightarrow> trim (s @ [c]) = trim s"
  by (cases "\<forall>x \<in> set s. is_space x")
    (auto simp: trim_def trim_start_def trim_end_def dropWhile_append dest: set_dropWhileD)

section \<open>Stable sort\<close>

text \<open>
  \<open>Array.prototype.sort\<close> is stable, so its result is determined by a comparator that is a
  total preorder. \<open>le x y\<close> stands for \<open>compare(x, y) <= 0\<close>.
\<close>

fun sort_ins :: "('a \<Rightarrow> 'a \<Rightarrow> bool) \<Rightarrow> 'a \<Rightarrow> 'a list \<Rightarrow> 'a list" where
  "sort_ins le x [] = [x]"
| "sort_ins le x (y # ys) = (if le x y then x # y # ys else y # sort_ins le x ys)"

definition js_sort :: "('a \<Rightarrow> 'a \<Rightarrow> bool) \<Rightarrow> 'a list \<Rightarrow> 'a list" where
  "js_sort le xs = foldr (sort_ins le) xs []"

lemma js_sort_simps [simp]:
  "js_sort le [] = []"
  "js_sort le (x # xs) = sort_ins le x (js_sort le xs)"
  by (simp_all add: js_sort_def)

lemma mset_sort_ins [simp]: "mset (sort_ins le x xs) = add_mset x (mset xs)"
  by (induction xs) auto

lemma mset_js_sort [simp]: "mset (js_sort le xs) = mset xs"
  by (induction xs) auto

lemma set_js_sort [simp]: "set (js_sort le xs) = set xs"
  by (metis mset_js_sort set_mset_mset)

lemma length_js_sort [simp]: "length (js_sort le xs) = length xs"
  by (metis mset_js_sort size_mset)

locale comparator =
  fixes le :: "'a \<Rightarrow> 'a \<Rightarrow> bool"
  assumes le_total: "le x y \<or> le y x"
    and le_trans: "le x y \<Longrightarrow> le y z \<Longrightarrow> le x z"
begin

lemma sorted_sort_ins: "sorted_wrt le xs \<Longrightarrow> sorted_wrt le (sort_ins le x xs)"
proof (induction xs)
  case Nil
  then show ?case by simp
next
  case (Cons y ys)
  have *: "z \<in> set (sort_ins le x ys) \<longleftrightarrow> z = x \<or> z \<in> set ys" for z
    by (metis insert_iff set_mset_add_mset_insert set_mset_mset mset_sort_ins)
  show ?case
  proof (cases "le x y")
    case True
    with Cons.prems show ?thesis by (auto intro: le_trans)
  next
    case False
    with le_total have "le y x" by blast
    with False Cons show ?thesis by (auto simp: *)
  qed
qed

lemma sorted_sort: "sorted_wrt le (js_sort le xs)"
  by (induction xs) (auto intro: sorted_sort_ins)

text \<open>A list in strict order is the only sorted arrangement of its elements.\<close>

lemma sorted_unique:
  "sorted_wrt (\<lambda>x y. le x y \<and> \<not> le y x) ys \<Longrightarrow> sorted_wrt le xs \<Longrightarrow> mset xs = mset ys \<Longrightarrow> xs = ys"
proof (induction ys arbitrary: xs)
  case Nil
  then show ?case by simp
next
  case (Cons y ys)
  then obtain x xs' where xs: "xs = x # xs'" by (cases xs) auto
  have sets: "set xs = set (y # ys)" using Cons.prems(3) by (metis set_mset_mset)
  have "x = y"
  proof (rule ccontr)
    assume "x \<noteq> y"
    with sets xs have "x \<in> set ys" "y \<in> set xs'" by auto
    with Cons.prems(1,2) xs show False by auto
  qed
  with Cons xs show ?case by auto
qed

lemma sort_unique:
  "sorted_wrt (\<lambda>x y. le x y \<and> \<not> le y x) ys \<Longrightarrow> mset xs = mset ys \<Longrightarrow> js_sort le xs = ys"
  by (rule sorted_unique) (simp_all add: sorted_sort)

lemma sort_sorted: "sorted_wrt le xs \<Longrightarrow> js_sort le xs = xs"
proof (induction xs)
  case Nil
  then show ?case by simp
next
  case (Cons x xs)
  then show ?case by (cases xs) auto
qed

end

text \<open>
  A compare function, as \<open>sort\<close> takes it: the sign is antisymmetric and \<open>at most 0\<close> is
  transitive. Keys, \<open>localeCompare\<close> and the chaining of them with \<open>||\<close> are such functions.
\<close>

definition compare_ok :: "('a \<Rightarrow> 'a \<Rightarrow> int) \<Rightarrow> bool" where
  "compare_ok c \<longleftrightarrow>
     (\<forall>x y. 0 < c x y \<longleftrightarrow> c y x < 0) \<and> (\<forall>x y z. c x y \<le> 0 \<longrightarrow> c y z \<le> 0 \<longrightarrow> c x z \<le> 0)"

definition or_else :: "('a \<Rightarrow> 'a \<Rightarrow> int) \<Rightarrow> ('a \<Rightarrow> 'a \<Rightarrow> int) \<Rightarrow> 'a \<Rightarrow> 'a \<Rightarrow> int" where
  "or_else f g x y = (if f x y \<noteq> 0 then f x y else g x y)"

lemma compare_flip: "compare_ok c \<Longrightarrow> 0 < c x y \<longleftrightarrow> c y x < 0"
  by (auto simp: compare_ok_def)

lemma compare_trans: "compare_ok c \<Longrightarrow> c x y \<le> 0 \<Longrightarrow> c y z \<le> 0 \<Longrightarrow> c x z \<le> 0"
  by (auto simp: compare_ok_def)

lemma compare_zero: "compare_ok c \<Longrightarrow> c x y = 0 \<Longrightarrow> c y x = 0"
  using compare_flip [of c x y] compare_flip [of c y x] by auto

lemma compare_trans_less:
  assumes c: "compare_ok c" and "c x y \<le> 0" and "c y z \<le> 0" and "c x y < 0 \<or> c y z < 0"
  shows "c x z < 0"
proof (rule ccontr)
  assume "\<not> c x z < 0"
  with compare_trans [OF c assms(2,3)] have "c x z = 0" by simp
  then have "c z x \<le> 0" using compare_zero [OF c] by simp
  then have "c y x \<le> 0" "c z y \<le> 0"
    using compare_trans [OF c assms(3)] compare_trans [OF c _ assms(2)] by auto
  with assms(4) compare_flip [OF c] show False by (metis not_le)
qed

lemma compare_key: "compare_ok (\<lambda>x y. k x - k y)"
  by (auto simp: compare_ok_def)

lemma compare_on: "compare_ok c \<Longrightarrow> compare_ok (\<lambda>x y. c (k x) (k y))"
  unfolding compare_ok_def by blast

lemma compare_or_else:
  assumes f: "compare_ok f" and g: "compare_ok g"
  shows "compare_ok (or_else f g)"
  unfolding compare_ok_def
proof (intro conjI allI impI)
  fix x y z
  show "0 < or_else f g x y \<longleftrightarrow> or_else f g y x < 0"
    using compare_flip [OF f, of x y] compare_flip [OF g, of x y] compare_zero [OF f, of x y] compare_zero [OF f, of y x]
    by (auto simp: or_else_def)
  assume "or_else f g x y \<le> 0" and "or_else f g y z \<le> 0"
  then show "or_else f g x z \<le> 0"
    using compare_trans [OF f, of x y z] compare_trans_less [OF f, of x y z] compare_trans [OF g, of x y z]
    by (auto simp: or_else_def split: if_splits)
qed

lemma compare_comparator:
  assumes "compare_ok c"
  shows "comparator (\<lambda>x y. c x y \<le> 0)"
proof
  fix x y z
  show "c x y \<le> 0 \<or> c y x \<le> 0" using compare_flip [OF assms, of x y] by linarith
  show "c x y \<le> 0 \<Longrightarrow> c y z \<le> 0 \<Longrightarrow> c x z \<le> 0" by (rule compare_trans [OF assms])
qed

text \<open>Only the comparisons of the elements matter.\<close>

lemma sort_ins_cong:
  "(\<And>y. y \<in> set xs \<Longrightarrow> le x y = le' x y) \<Longrightarrow> sort_ins le x xs = sort_ins le' x xs"
  by (induction xs) auto

lemma js_sort_cong:
  "(\<And>x y. x \<in> set xs \<Longrightarrow> y \<in> set xs \<Longrightarrow> le x y = le' x y) \<Longrightarrow> js_sort le xs = js_sort le' xs"
proof (induction xs)
  case Nil
  then show ?case by simp
next
  case (Cons x xs)
  then have "js_sort le xs = js_sort le' xs" by simp
  moreover have "sort_ins le x (js_sort le' xs) = sort_ins le' x (js_sort le' xs)"
    using Cons.prems by (intro sort_ins_cong) auto
  ultimately show ?case by simp
qed

lemma sorted_by_key:
  fixes key :: "'a \<Rightarrow> int"
  assumes "\<And>x y. x \<in> set xs \<Longrightarrow> y \<in> set xs \<Longrightarrow> le x y \<longleftrightarrow> key x \<le> key y"
  shows "sorted_wrt (\<lambda>x y. key x \<le> key y) (js_sort le xs)"
proof -
  have c: "comparator (\<lambda>x y. key x \<le> key y)" by unfold_locales auto
  have "js_sort le xs = js_sort (\<lambda>x y. key x \<le> key y) xs" using assms by (rule js_sort_cong)
  then show ?thesis by (simp add: comparator.sorted_sort [OF c])
qed

section \<open>Searching a list\<close>

lemma find_SomeD: "find P xs = Some x \<Longrightarrow> x \<in> set xs \<and> P x"
  by (induction xs) (auto split: if_splits)

lemma last_take: "0 < n \<Longrightarrow> n \<le> length xs \<Longrightarrow> last (take n xs) = xs ! (n - 1)"
  by (subst last_conv_nth) (auto simp: min_absorb2)

text \<open>Where a list of other elements ends, what starts with a given element is in the rest.\<close>

lemma append_eq_later: "xs @ ys = us @ z # vs \<Longrightarrow> z \<notin> set xs \<Longrightarrow> \<exists>us'. ys = us' @ z # vs"
proof (induction xs arbitrary: us)
  case Nil
  then show ?case by auto
next
  case (Cons x xs)
  then show ?case by (cases us) auto
qed

section \<open>Append-only outputs\<close>

text \<open>
  A component whose output only ever grows at its end: one step extends it, so every later
  output has every earlier one as a prefix.
\<close>

locale append_only =
  fixes step :: "'e \<Rightarrow> 's \<Rightarrow> 's"
    and out :: "'s \<Rightarrow> 'a list"
  assumes step_extends: "prefix (out s) (out (step e s))"
begin

lemma run_extends: "prefix (out s) (out (fold step es s))"
proof (induction es arbitrary: s)
  case Nil
  then show ?case by simp
next
  case (Cons e es)
  from step_extends Cons [of "step e s"] show ?case by (auto intro: prefix_order.trans)
qed

lemma earlier_prefix: "prefix (out (fold step es s)) (out (fold step (es @ es') s))"
  using run_extends [of "fold step es s" es'] by simp

end

section \<open>Maps in insertion order\<close>

lemma update_new: "map_of m k = None \<Longrightarrow> AList.update k v m = m @ [(k, v)]"
  by (induction m) (auto split: if_splits)

lemma map_of_update [simp]: "map_of (AList.update k v m) = (map_of m)(k \<mapsto> v)"
  by (rule update_conv')


section \<open>Sets in insertion order\<close>

text \<open>A JavaScript \<open>Set\<close> is the list of its elements; \<open>add\<close> keeps the place of one that is there.\<close>

definition set_add :: "'a \<Rightarrow> 'a list \<Rightarrow> 'a list" where
  "set_add x xs = (if x \<in> set xs then xs else xs @ [x])"

lemma set_fold_add: "set (fold (\<lambda>d. set_add (f d)) ds xs) = set xs \<union> f ` set ds"
  by (induction ds arbitrary: xs) (auto simp: set_add_def)

lemma prefix_fold_add: "prefix xs (fold (\<lambda>d. set_add (f d)) ds xs)"
proof (induction ds arbitrary: xs)
  case Nil
  then show ?case by simp
next
  case (Cons d ds)
  have "prefix xs (set_add (f d) xs)" by (simp add: set_add_def)
  with Cons [of "set_add (f d) xs"] show ?case by (auto intro: prefix_order.trans)
qed

lemma distinct_fold_add: "distinct xs \<Longrightarrow> distinct (fold (\<lambda>d. set_add (f d)) ds xs)"
  by (induction ds arbitrary: xs) (auto simp: set_add_def)

section \<open>The order of strings\<close>

text \<open>The default order of \<open>sort\<close>: by code units, a prefix first.\<close>

fun str_le :: "string \<Rightarrow> string \<Rightarrow> bool" where
  "str_le [] t = True"
| "str_le (c # s) [] = False"
| "str_le (c # s) (d # t) = (char_code c < char_code d \<or> c = d \<and> str_le s t)"

lemma str_le_total: "str_le s t \<or> str_le t s"
  by (induction s t rule: str_le.induct) (auto simp: char_code_eq_iff [symmetric])

lemma str_le_trans: "str_le s t \<Longrightarrow> str_le t u \<Longrightarrow> str_le s u"
proof (induction s t arbitrary: u rule: str_le.induct)
  case (3 c s d t)
  then show ?case by (cases u) auto
qed auto

lemma str_le_Nil [simp]: "str_le t [] \<longleftrightarrow> t = []"
  by (cases t) auto

lemma str_le_antisym: "str_le s t \<Longrightarrow> str_le t s \<Longrightarrow> s = t"
  by (induction s t rule: str_le.induct) auto

interpretation str: comparator str_le
  by unfold_locales (fact str_le_total, fact str_le_trans)

text \<open>Sorting a set of strings gives one list, whatever the order of insertion.\<close>

lemma sort_strings_canonical:
  assumes "distinct xs" and "distinct ys" and "set xs = set ys"
  shows "js_sort str_le xs = js_sort str_le ys"
proof (rule str.sorted_unique [OF _ str.sorted_sort])
  show "mset (js_sort str_le xs) = mset (js_sort str_le ys)"
    using assms by (simp add: set_eq_iff_mset_eq_distinct)
  have d: "distinct (js_sort str_le ys)"
    by (metis assms(2) mset_eq_imp_distinct_iff mset_js_sort)
  have "sorted_wrt (\<lambda>x y. str_le x y \<and> x \<noteq> y) (js_sort str_le ys)"
    using str.sorted_sort [of ys] d by (induction "js_sort str_le ys" arbitrary: ys)
      (auto simp: sorted_wrt_iff_nth_less distinct_conv_nth)
  then show "sorted_wrt (\<lambda>x y. str_le x y \<and> \<not> str_le y x) (js_sort str_le ys)"
    by (rule sorted_wrt_mono_rel [rotated]) (auto dest: str_le_antisym)
qed

end
