(* ===== verification/Allocation_Store.thy ===== *)
theory Allocation_Store
  imports Prelude
begin

text \<open>
  The hub's durable record of sidecar allocations, \<open>createAllocationStateStore\<close> of
  \<open>apps/hub/src/provisioners/process.ts\<close>: the in-memory map, the state file it is kept
  in, the atomic write of that file, and the three operations the provisioner calls.
  \<open>runExclusive\<close> chains every operation behind the previous one whether that one
  returned or threw, so a run of the store is a sequence of operations (\<open>runExclusive\<close>
  below); the clock reading an operation takes is an argument of it.

  The lemmas show the store's contract: the fencing order on generations and states, the
  frame of each operation, agreement of memory and disk, and recovery after a restart.
\<close>

section \<open>Records and the state file\<close>

datatype desired_state = Ensured | Destroyed

record allocation_record =
  allocationId :: string
  sidecarId :: string
  generation :: int
  desiredState :: desired_state
  externalRef :: "string option"
  updatedAt :: string

text \<open>
  What the file's schema asks of a record beside its types: the strings are not empty and
  the generation is not negative.
\<close>

definition record_ok :: "allocation_record \<Rightarrow> bool" where
  "record_ok r \<longleftrightarrow>
     allocationId r \<noteq> [] \<and> sidecarId r \<noteq> [] \<and> 0 \<le> generation r \<and> updatedAt r \<noteq> []"

text \<open>
  What reading the state file can find, as \<open>initialize\<close> tells the cases apart: text that
  is not JSON, JSON of another shape, or records, which the schema still has to accept.
  \<open>None\<close> for the file is \<open>ENOENT\<close>.
\<close>

datatype state_file = NotJson | BadShape | Records "allocation_record list"

text \<open>The exceptions the store throws, each with what its message names.\<close>

datatype store_error =
    IoError string
  | ReadFailed
  | InvalidJson
  | InvalidState
  | DuplicateRecord string

section \<open>Atomic replacement of a file\<close>

text \<open>
  The directory that holds the state file: the file and the temporary file of a write in
  progress, with \<open>None\<close> inside for one that was created but not written. \<open>fails\<close> says
  which system calls fail, so a theorem for every \<open>fails\<close> covers every point at which a
  write can break off.
\<close>

datatype io_step =
    MakeDir | ReadState | OpenTemp | WriteTemp | SyncTemp | CloseTemp | RenameTemp
  | OpenDir | SyncDir | CloseDir | UnlinkTemp

record 'c volume =
  target :: "'c option"
  temp :: "'c option option"

type_synonym faults = "io_step \<Rightarrow> bool"

definition io :: "faults \<Rightarrow> io_step \<Rightarrow> ('c volume \<Rightarrow> 'c volume) \<Rightarrow> ('c volume, store_error, unit) comp" where
  "io fails s eff = (if fails s then throwE (IoError ''io'') else modifyE eff)"

text \<open>
  \<open>writeFileAtomic\<close>: the temporary file is created exclusively, written and synced, then
  renamed over the file, and the directory synced. On any exception after \<open>mkdir\<close> the
  temporary file is unlinked as far as possible and the exception rethrown. A failed
  \<open>unlink\<close> (also of a name the rename already took away) is ignored.
\<close>

definition writeFileAtomic :: "faults \<Rightarrow> 'c \<Rightarrow> ('c volume, store_error, unit) comp" where
  "writeFileAtomic fails contents =
     bindE (io fails MakeDir id) (\<lambda>_.
     catchE
       (bindE (io fails OpenTemp (\<lambda>v. v\<lparr>temp := Some None\<rparr>)) (\<lambda>_.
        bindE (finallyE
                 (bindE (io fails WriteTemp (\<lambda>v. v\<lparr>temp := Some (Some contents)\<rparr>)) (\<lambda>_.
                  io fails SyncTemp id))
                 (io fails CloseTemp id)) (\<lambda>_.
        bindE (io fails RenameTemp (\<lambda>v. v\<lparr>target := Some contents, temp := None\<rparr>)) (\<lambda>_.
        bindE (io fails OpenDir id) (\<lambda>_.
        finallyE (io fails SyncDir id) (io fails CloseDir id))))))
       (\<lambda>cause.
          bindE (modifyE (\<lambda>v. if fails UnlinkTemp then v else v\<lparr>temp := None\<rparr>)) (\<lambda>_.
          throwE cause)))"

lemmas write_defs = writeFileAtomic_def io_def monad_defs

text \<open>Old or new contents, whatever fails, and never part of the new ones.\<close>

lemma writeFileAtomic_old_or_new:
  "writeFileAtomic fails c v = (r, v') \<Longrightarrow> target v' = target v \<or> target v' = Some c"
  by (auto simp: write_defs split: if_splits)

lemma writeFileAtomic_ok:
  "writeFileAtomic fails c v = (Inr x, v') \<Longrightarrow> target v' = Some c \<and> temp v' = None"
  by (auto simp: write_defs split: if_splits)

lemma writeFileAtomic_cleans_up:
  "writeFileAtomic fails c v = (r, v') \<Longrightarrow> temp v = None \<Longrightarrow> \<not> fails UnlinkTemp \<Longrightarrow> temp v' = None"
  by (auto simp: write_defs split: if_splits)

lemma writeFileAtomic_no_faults:
  "writeFileAtomic (\<lambda>_. False) c v = (Inr (), v\<lparr>target := Some c, temp := None\<rparr>)"
  by (simp add: write_defs)

lemma writeFileAtomic_error_kind: "writeFileAtomic fails c v = (Inl e, v') \<Longrightarrow> \<exists>m. e = IoError m"
  by (auto simp: write_defs split: if_splits)

section \<open>The store\<close>

record alloc_store =
  records :: "(string \<times> allocation_record) list"
  initialized :: bool
  vol :: "state_file volume"

definition new_store :: "state_file volume \<Rightarrow> alloc_store" where
  "new_store v = \<lparr>records = [], initialized = False, vol = v\<rparr>"

text \<open>
  The loop of \<open>initialize\<close> over the parsed records. A duplicate throws in the middle of it,
  and the records set so far stay in the map.
\<close>

fun load_records ::
  "allocation_record list \<Rightarrow> (string \<times> allocation_record) list
     \<Rightarrow> string option \<times> (string \<times> allocation_record) list" where
  "load_records [] m = (None, m)"
| "load_records (r # rs) m =
     (if map_of m (allocationId r) \<noteq> None then (Some (allocationId r), m)
      else load_records rs (AList.update (allocationId r) r m))"

definition initialize :: "faults \<Rightarrow> (alloc_store, store_error, unit) comp" where
  "initialize fails s =
     (if initialized s then (Inr (), s)
      else if fails MakeDir then (Inl (IoError ''io''), s)
      else if fails ReadState then (Inl ReadFailed, s)
      else
        (case target (vol s) of
           None \<Rightarrow> (Inr (), s\<lparr>initialized := True\<rparr>)
         | Some NotJson \<Rightarrow> (Inl InvalidJson, s)
         | Some BadShape \<Rightarrow> (Inl InvalidState, s)
         | Some (Records rs) \<Rightarrow>
             (if \<not> list_all record_ok rs then (Inl InvalidState, s)
              else
                (case load_records rs (records s) of
                   (Some dup, m) \<Rightarrow> (Inl (DuplicateRecord dup), s\<lparr>records := m\<rparr>)
                 | (None, m) \<Rightarrow> (Inr (), s\<lparr>records := m, initialized := True\<rparr>)))))"

definition persist ::
  "faults \<Rightarrow> (string \<times> allocation_record) list \<Rightarrow> (alloc_store, store_error, unit) comp" where
  "persist fails m s =
     (case writeFileAtomic fails (Records (map snd m)) (vol s) of (r, v) \<Rightarrow> (r, s\<lparr>vol := v\<rparr>))"

text \<open>The last lines of each operation: persist the copy with the record, then set it.\<close>

definition commit ::
  "faults \<Rightarrow> string \<Rightarrow> allocation_record \<Rightarrow> (alloc_store, store_error, unit) comp" where
  "commit fails k r =
     bindE (getsE (\<lambda>s. AList.update k r (records s))) (\<lambda>m.
     bindE (persist fails m) (\<lambda>_.
     modifyE (\<lambda>s. s\<lparr>records := AList.update k r (records s)\<rparr>)))"

datatype reject_code = StaleGeneration | GenerationDestroyed | RequestConflict

datatype observe_result =
    Observed allocation_record
  | ORejected reject_code string

definition conflict_message :: "string \<Rightarrow> string" where
  "conflict_message a = ''Allocation '' @ a @ '' is already bound to another sidecar''"

definition stale_message :: "int \<Rightarrow> int \<Rightarrow> string" where
  "stale_message g g' =
     ''Generation '' @ string_of_int g @ '' is older than '' @ string_of_int g'"

definition destroyed_message :: "int \<Rightarrow> string" where
  "destroyed_message g = ''Generation '' @ string_of_int g @ '' has already been destroyed''"

definition observeEnsure ::
  "faults \<Rightarrow> string \<Rightarrow> string \<Rightarrow> string \<Rightarrow> int \<Rightarrow> (alloc_store, store_error, observe_result) comp" where
  "observeEnsure fails now a sid g =
     bindE (initialize fails) (\<lambda>_.
     bindE (getsE (\<lambda>s. map_of (records s) a)) (\<lambda>existing.
     let record = \<lparr>allocationId = a, sidecarId = sid, generation = g,
           desiredState = Ensured, externalRef = None, updatedAt = now\<rparr>;
         store = bindE (commit fails a record) (\<lambda>_. returnE (Observed record))
     in case existing of
          None \<Rightarrow> store
        | Some e \<Rightarrow>
            if sidecarId e \<noteq> sid then returnE (ORejected RequestConflict (conflict_message a))
            else if g < generation e
            then returnE (ORejected StaleGeneration (stale_message g (generation e)))
            else if generation e = g then
              (if desiredState e = Destroyed
               then returnE (ORejected GenerationDestroyed (destroyed_message g))
               else returnE (Observed e))
            else store))"

definition observeDestroy ::
  "faults \<Rightarrow> string \<Rightarrow> string \<Rightarrow> string \<Rightarrow> int \<Rightarrow> (alloc_store, store_error, observe_result) comp" where
  "observeDestroy fails now a sid g =
     bindE (initialize fails) (\<lambda>_.
     bindE (getsE (\<lambda>s. map_of (records s) a)) (\<lambda>existing.
     let record = \<lparr>allocationId = a, sidecarId = sid, generation = g,
           desiredState = Destroyed,
           externalRef = (case existing of None \<Rightarrow> None | Some e \<Rightarrow> externalRef e),
           updatedAt = now\<rparr>;
         store = bindE (commit fails a record) (\<lambda>_. returnE (Observed record))
     in case existing of
          None \<Rightarrow> store
        | Some e \<Rightarrow>
            if sidecarId e \<noteq> sid then returnE (ORejected RequestConflict (conflict_message a))
            else if g < generation e
            then returnE (ORejected StaleGeneration (stale_message g (generation e)))
            else if generation e = g \<and> desiredState e = Destroyed then returnE (Observed e)
            else store))"

definition recordUnit ::
  "faults \<Rightarrow> string \<Rightarrow> string \<Rightarrow> int \<Rightarrow> string \<Rightarrow> (alloc_store, store_error, bool) comp" where
  "recordUnit fails now a g ref =
     bindE (initialize fails) (\<lambda>_.
     bindE (getsE (\<lambda>s. map_of (records s) a)) (\<lambda>existing.
     case existing of
       None \<Rightarrow> returnE False
     | Some e \<Rightarrow>
         if generation e \<noteq> g \<or> desiredState e \<noteq> Ensured then returnE False
         else bindE (commit fails a (e\<lparr>externalRef := Some ref, updatedAt := now\<rparr>)) (\<lambda>_.
              returnE True)))"

section \<open>Runs of the store\<close>

datatype store_op =
    ObserveEnsure string string int
  | ObserveDestroy string string int
  | RecordUnit string int string

text \<open>
  What the requests' schema promises of the arguments, and the clock of its reading: no
  string is empty and no generation negative. A record built from other arguments would be
  written, and refused when the file is read again.
\<close>

definition args_ok :: "string \<Rightarrow> string \<Rightarrow> string \<Rightarrow> int \<Rightarrow> bool" where
  "args_ok now a sid g \<longleftrightarrow> now \<noteq> [] \<and> a \<noteq> [] \<and> sid \<noteq> [] \<and> 0 \<le> g"

fun op_ok :: "string \<Rightarrow> store_op \<Rightarrow> bool" where
  "op_ok now (ObserveEnsure a sid g) = args_ok now a sid g"
| "op_ok now (ObserveDestroy a sid g) = args_ok now a sid g"
| "op_ok now (RecordUnit a g ref) = (now \<noteq> [])"

datatype outcome = Observation observe_result | Recorded bool

fun run_op :: "faults \<Rightarrow> string \<Rightarrow> store_op \<Rightarrow> (alloc_store, store_error, outcome) comp" where
  "run_op fails now (ObserveEnsure a sid g) =
     bindE (observeEnsure fails now a sid g) (\<lambda>r. returnE (Observation r))"
| "run_op fails now (ObserveDestroy a sid g) =
     bindE (observeDestroy fails now a sid g) (\<lambda>r. returnE (Observation r))"
| "run_op fails now (RecordUnit a g ref) =
     bindE (recordUnit fails now a g ref) (\<lambda>b. returnE (Recorded b))"

text \<open>
  \<open>runExclusive\<close>: each operation starts when the one before it has settled, with a result
  or an exception, and its own result goes to its own caller.
\<close>

fun runExclusive ::
  "(faults \<times> string \<times> store_op) list \<Rightarrow> alloc_store \<Rightarrow> (store_error + outcome) list \<times> alloc_store" where
  "runExclusive [] s = ([], s)"
| "runExclusive ((fails, now, op) # ops) s =
     (case run_op fails now op s of (r, s') \<Rightarrow>
       (case runExclusive ops s' of (rs, s'') \<Rightarrow> (r # rs, s'')))"

text \<open>A hub's life: calls of the store, and restarts that keep only the disk.\<close>

datatype hub_event = Call faults string store_op | Restart

fun hub_step :: "hub_event \<Rightarrow> alloc_store \<Rightarrow> alloc_store" where
  "hub_step (Call fails now op) s = snd (run_op fails now op s)"
| "hub_step Restart s = new_store ((vol s)\<lparr>temp := None\<rparr>)"

fun event_ok :: "hub_event \<Rightarrow> bool" where
  "event_ok (Call fails now op) = op_ok now op"
| "event_ok Restart = True"

fun hub_run :: "hub_event list \<Rightarrow> alloc_store \<Rightarrow> alloc_store" where
  "hub_run [] s = s"
| "hub_run (e # es) s = hub_run es (hub_step e s)"

section \<open>The fencing order\<close>

text \<open>
  What may follow a record of an allocation: the same sidecar, a later generation, or the
  same generation without coming back from destroyed.
\<close>

definition advances :: "allocation_record \<Rightarrow> allocation_record \<Rightarrow> bool" where
  "advances e r \<longleftrightarrow>
     allocationId r = allocationId e \<and> sidecarId r = sidecarId e \<and>
     (generation e < generation r \<or>
      generation e = generation r \<and> (desiredState e = Destroyed \<longrightarrow> desiredState r = Destroyed))"

definition extends ::
  "(string \<Rightarrow> allocation_record option) \<Rightarrow> (string \<Rightarrow> allocation_record option) \<Rightarrow> bool" where
  "extends m m' \<longleftrightarrow> (\<forall>k e. m k = Some e \<longrightarrow> (\<exists>r. m' k = Some r \<and> advances e r))"

lemma advances_refl [simp]: "advances e e"
  by (simp add: advances_def)

lemma advances_trans: "advances e r \<Longrightarrow> advances r t \<Longrightarrow> advances e t"
  by (auto simp: advances_def)

lemma extends_refl [simp]: "extends m m"
  by (auto simp: extends_def)

lemma extends_trans: "extends m m' \<Longrightarrow> extends m' m'' \<Longrightarrow> extends m m''"
  unfolding extends_def by (blast intro: advances_trans)

lemma extendsD: "extends m m' \<Longrightarrow> m k = Some e \<Longrightarrow> m' k = Some r \<Longrightarrow> advances e r"
  by (fastforce simp: extends_def)

lemma extends_empty [simp]: "extends (\<lambda>_. None) m"
  by (simp add: extends_def)

lemma extends_upd:
  "(\<And>e. m k = Some e \<Longrightarrow> advances e r) \<Longrightarrow> extends m (m(k \<mapsto> r))"
  by (auto simp: extends_def)

section \<open>The store's invariant\<close>

definition by_id :: "allocation_record list \<Rightarrow> (string \<times> allocation_record) list" where
  "by_id = map (\<lambda>r. (allocationId r, r))"

definition disk_records :: "alloc_store \<Rightarrow> (string \<times> allocation_record) list" where
  "disk_records s = (case target (vol s) of Some (Records rs) \<Rightarrow> by_id rs | _ \<Rightarrow> [])"

text \<open>What the store knows: its map, or what loading the file would give it.\<close>

definition known :: "alloc_store \<Rightarrow> string \<Rightarrow> allocation_record option" where
  "known s = map_of (if initialized s then records s else disk_records s)"

definition keyed :: "(string \<times> allocation_record) list \<Rightarrow> bool" where
  "keyed m \<longleftrightarrow> distinct (map fst m) \<and> (\<forall>p \<in> set m. allocationId (snd p) = fst p \<and> record_ok (snd p))"

definition disk_ok :: "state_file volume \<Rightarrow> bool" where
  "disk_ok v \<longleftrightarrow>
     (case target v of None \<Rightarrow> True | Some (Records rs) \<Rightarrow>
        distinct (map allocationId rs) \<and> list_all record_ok rs | _ \<Rightarrow> False)"

definition store_inv :: "alloc_store \<Rightarrow> bool" where
  "store_inv s \<longleftrightarrow>
     disk_ok (vol s) \<and> keyed (records s) \<and> (\<not> initialized s \<longrightarrow> records s = []) \<and>
     extends (map_of (records s)) (map_of (disk_records s))"

lemma keyed_Nil [simp]: "keyed []"
  by (simp add: keyed_def)

lemma keyed_by_id:
  "distinct (map allocationId rs) \<Longrightarrow> list_all record_ok rs \<Longrightarrow> keyed (by_id rs)"
  by (auto simp: keyed_def by_id_def comp_def list_all_iff)

lemma by_id_keyed: "keyed m \<Longrightarrow> by_id (map snd m) = m"
  by (induction m) (auto simp: keyed_def by_id_def)

lemma keyed_id: "keyed m \<Longrightarrow> map_of m k = Some r \<Longrightarrow> allocationId r = k \<and> record_ok r"
  by (fastforce simp: keyed_def dest: map_of_SomeD)

lemma keyed_update:
  assumes "keyed m" and "allocationId r = k" and "record_ok r"
  shows "keyed (AList.update k r m)"
proof -
  have "allocationId (snd p) = fst p \<and> record_ok (snd p)" if "p \<in> set (AList.update k r m)" for p
    using that assms unfolding keyed_def
    by (induction m) (auto split: if_splits)
  with assms show ?thesis by (simp add: keyed_def distinct_update)
qed

lemma load_records_distinct:
  assumes "distinct (map allocationId rs)"
    and "\<And>r. r \<in> set rs \<Longrightarrow> map_of m (allocationId r) = None"
  shows "load_records rs m = (None, m @ by_id rs)"
  using assms
proof (induction rs arbitrary: m)
  case Nil
  then show ?case by (simp add: by_id_def)
next
  case (Cons r rs)
  then have new: "map_of m (allocationId r) = None" by simp
  have "load_records rs (m @ [(allocationId r, r)]) = (None, (m @ [(allocationId r, r)]) @ by_id rs)"
  proof (rule Cons.IH)
    show "distinct (map allocationId rs)" using Cons.prems by simp
    fix t assume t: "t \<in> set rs"
    then have "allocationId t \<noteq> allocationId r" using Cons.prems(1) by (metis distinct.simps(2) image_eqI list.set_map list.simps(9))
    with t Cons.prems(2) [of t] show "map_of (m @ [(allocationId r, r)]) (allocationId t) = None"
      by (simp add: map_add_def)
  qed
  with new show ?case by (simp add: update_new by_id_def)
qed

text \<open>Under the invariant \<open>initialize\<close> only ever fails by the file system, and loads the disk.\<close>

lemma initialize_inv:
  assumes "store_inv s" and "initialize fails s = (r, s')"
  shows "store_inv s'" and "known s' = known s" and "vol s' = vol s"
    and "r = Inr () \<Longrightarrow> initialized s'"
    and "initialized s \<Longrightarrow> s' = s \<and> r = Inr ()"
proof -
  have load: "load_records rs [] = (None, by_id rs)" if "distinct (map allocationId rs)" for rs
    using load_records_distinct [of rs "[]"] that by simp
  show "store_inv s'" "known s' = known s" "vol s' = vol s"
    "r = Inr () \<Longrightarrow> initialized s'" "initialized s \<Longrightarrow> s' = s \<and> r = Inr ()"
    using assms
    by (auto simp: initialize_def store_inv_def known_def disk_ok_def disk_records_def load
        keyed_by_id split: if_splits option.splits state_file.splits)
qed

lemma disk_records_Some: "target (vol s) = Some (Records rs) \<Longrightarrow> disk_records s = by_id rs"
  by (simp add: disk_records_def)

text \<open>Writing the map's records makes the disk hold exactly the map.\<close>

lemma written_disk:
  assumes "keyed m" and "target (vol s) = Some (Records (map snd m))"
  shows "disk_records s = m" and "disk_ok (vol s)"
proof -
  from assms show "disk_records s = m" by (simp add: disk_records_Some by_id_keyed)
  from assms(1) have "map (allocationId \<circ> snd) m = map fst m"
    by (auto simp: keyed_def)
  moreover from assms(1) have "list_all record_ok (map snd m)"
    by (auto simp: keyed_def list_all_iff)
  ultimately show "disk_ok (vol s)" using assms by (simp add: disk_ok_def keyed_def del: map_eq_conv)
qed

lemma commit_inv:
  assumes inv: "store_inv s" and ini: "initialized s" and id: "allocationId r = k" and ok: "record_ok r"
    and adv: "\<And>e. known s k = Some e \<Longrightarrow> advances e r"
    and com: "commit fails k r s = (res, s')"
  shows "store_inv s'" and "initialized s'"
    and "res = Inr () \<Longrightarrow> known s' = (known s)(k \<mapsto> r) \<and> disk_records s' = records s'"
    and "res \<noteq> Inr () \<Longrightarrow> records s' = records s \<and> known s' = known s"
proof -
  define m where "m = AList.update k r (records s)"
  obtain res' v where w: "writeFileAtomic fails (Records (map snd m)) (vol s) = (res', v)"
    by (cases "writeFileAtomic fails (Records (map snd m)) (vol s)")
  from inv id ok have km: "keyed m" by (simp add: m_def store_inv_def keyed_update)
  from w have old_new: "target v = target (vol s) \<or> target v = Some (Records (map snd m))"
    by (rule writeFileAtomic_old_or_new)
  have known_s: "known s = map_of (records s)" using ini by (simp add: known_def)
  have ext: "extends (map_of (records s)) (map_of m)"
    unfolding m_def map_of_update by (rule extends_upd) (use adv known_s in simp)
  show "store_inv s'" "initialized s'"
    "res = Inr () \<Longrightarrow> known s' = (known s)(k \<mapsto> r) \<and> disk_records s' = records s'"
    "res \<noteq> Inr () \<Longrightarrow> records s' = records s \<and> known s' = known s"
  proof -
    show "store_inv s'"
    proof (cases res')
      case (Inl e)
      with com w have s': "s' = s\<lparr>vol := v\<rparr>"
        by (simp add: commit_def persist_def m_def monad_defs)
      from old_new show ?thesis
      proof
        assume "target v = target (vol s)"
        with inv s' show ?thesis by (simp add: store_inv_def disk_ok_def disk_records_def)
      next
        assume "target v = Some (Records (map snd m))"
        with km s' have "disk_records s' = m" "disk_ok (vol s')"
          using written_disk [of m s'] by auto
        with inv ini s' ext show ?thesis by (simp add: store_inv_def)
      qed
    next
      case (Inr u)
      with com w have s': "s' = s\<lparr>vol := v, records := m\<rparr>"
        by (simp add: commit_def persist_def m_def monad_defs)
      from w Inr have "target v = Some (Records (map snd m))"
        by (auto dest: writeFileAtomic_ok)
      with km s' have "disk_records s' = m" "disk_ok (vol s')"
        using written_disk [of m s'] by auto
      with km ini s' show ?thesis by (simp add: store_inv_def)
    qed
    show "initialized s'"
      using com w ini by (auto simp: commit_def persist_def m_def monad_defs split: sum.splits)
    show "known s' = (known s)(k \<mapsto> r) \<and> disk_records s' = records s'" if "res = Inr ()"
    proof -
      from that com w have s': "s' = s\<lparr>vol := v, records := m\<rparr>" and "res' = Inr ()"
        by (auto simp: commit_def persist_def m_def monad_defs split: sum.splits)
      with w have "target v = Some (Records (map snd m))" by (auto dest: writeFileAtomic_ok)
      with km s' have "disk_records s' = m" using written_disk [of m s'] by auto
      with s' ini show ?thesis by (simp add: known_def m_def)
    qed
    show "records s' = records s \<and> known s' = known s" if "res \<noteq> Inr ()"
      using that com w ini
      by (auto simp: commit_def persist_def m_def monad_defs known_def split: sum.splits)
  qed
qed

section \<open>The operations\<close>

text \<open>
  What every operation keeps, with any file-system faults: the invariant, and all the store
  knew, up to the fencing order.
\<close>

definition safe_op :: "(alloc_store, store_error, 'a) comp \<Rightarrow> bool" where
  "safe_op m \<longleftrightarrow>
     (\<forall>s r s'. store_inv s \<longrightarrow> m s = (r, s') \<longrightarrow> store_inv s' \<and> extends (known s) (known s'))"

lemma safe_opD:
  assumes "safe_op m" and "store_inv s" and "m s = (r, s')"
  shows "store_inv s'" and "extends (known s) (known s')"
  using assms by (auto simp: safe_op_def)

text \<open>
  Each operation is \<open>initialize\<close>, a lookup, and a decision that either leaves the store
  alone or commits a record that advances the one found.
\<close>

definition decided ::
  "faults \<Rightarrow> string \<Rightarrow> (allocation_record option \<Rightarrow> 'a + allocation_record \<times> (allocation_record \<Rightarrow> 'a))
     \<Rightarrow> (alloc_store, store_error, 'a) comp" where
  "decided fails a d =
     bindE (initialize fails) (\<lambda>_.
     bindE (getsE (\<lambda>s. map_of (records s) a)) (\<lambda>existing.
     case d existing of
       Inl x \<Rightarrow> returnE x
     | Inr (r, f) \<Rightarrow> bindE (commit fails a r) (\<lambda>_. returnE (f r))))"

definition ensure_decision ::
  "string \<Rightarrow> string \<Rightarrow> string \<Rightarrow> int \<Rightarrow> allocation_record option
     \<Rightarrow> observe_result + allocation_record \<times> (allocation_record \<Rightarrow> observe_result)" where
  "ensure_decision now a sid g existing =
     (let new = Inr (\<lparr>allocationId = a, sidecarId = sid, generation = g, desiredState = Ensured,
            externalRef = None, updatedAt = now\<rparr>, Observed)
      in case existing of
           None \<Rightarrow> new
         | Some e \<Rightarrow>
             if sidecarId e \<noteq> sid then Inl (ORejected RequestConflict (conflict_message a))
             else if g < generation e
             then Inl (ORejected StaleGeneration (stale_message g (generation e)))
             else if generation e = g then
               (if desiredState e = Destroyed
                then Inl (ORejected GenerationDestroyed (destroyed_message g))
                else Inl (Observed e))
             else new)"

definition destroy_decision ::
  "string \<Rightarrow> string \<Rightarrow> string \<Rightarrow> int \<Rightarrow> allocation_record option
     \<Rightarrow> observe_result + allocation_record \<times> (allocation_record \<Rightarrow> observe_result)" where
  "destroy_decision now a sid g existing =
     (let new = Inr (\<lparr>allocationId = a, sidecarId = sid, generation = g, desiredState = Destroyed,
            externalRef = (case existing of None \<Rightarrow> None | Some e \<Rightarrow> externalRef e),
            updatedAt = now\<rparr>, Observed)
      in case existing of
           None \<Rightarrow> new
         | Some e \<Rightarrow>
             if sidecarId e \<noteq> sid then Inl (ORejected RequestConflict (conflict_message a))
             else if g < generation e
             then Inl (ORejected StaleGeneration (stale_message g (generation e)))
             else if generation e = g \<and> desiredState e = Destroyed then Inl (Observed e)
             else new)"

definition unit_decision ::
  "string \<Rightarrow> int \<Rightarrow> string \<Rightarrow> allocation_record option
     \<Rightarrow> bool + allocation_record \<times> (allocation_record \<Rightarrow> bool)" where
  "unit_decision now g ref existing =
     (case existing of
        None \<Rightarrow> Inl False
      | Some e \<Rightarrow>
          if generation e \<noteq> g \<or> desiredState e \<noteq> Ensured then Inl False
          else Inr (e\<lparr>externalRef := Some ref, updatedAt := now\<rparr>, \<lambda>_. True))"

lemmas decision_defs = ensure_decision_def destroy_decision_def unit_decision_def

lemma observeEnsure_decided: "observeEnsure fails now a sid g = decided fails a (ensure_decision now a sid g)"
  unfolding observeEnsure_def decided_def ensure_decision_def Let_def
  by (intro arg_cong2 [where f = bindE] ext refl) (auto split: option.splits)

lemma observeDestroy_decided:
  "observeDestroy fails now a sid g = decided fails a (destroy_decision now a sid g)"
  unfolding observeDestroy_def decided_def destroy_decision_def Let_def
  by (intro arg_cong2 [where f = bindE] ext refl) (auto split: option.splits)

lemma recordUnit_decided: "recordUnit fails now a g ref = decided fails a (unit_decision now g ref)"
  unfolding recordUnit_def decided_def unit_decision_def
  by (intro arg_cong2 [where f = bindE] ext refl) (auto split: option.splits)

lemma decision_advances:
  "ensure_decision now a sid g (Some e) = Inr (r, f) \<Longrightarrow> args_ok now a sid g \<Longrightarrow> allocationId e = a \<Longrightarrow>
     advances e r \<and> record_ok r"
  "destroy_decision now a sid g (Some e) = Inr (r, f) \<Longrightarrow> args_ok now a sid g \<Longrightarrow> allocationId e = a \<Longrightarrow>
     advances e r \<and> record_ok r"
  "unit_decision now g ref (Some e) = Inr (r, h) \<Longrightarrow> now \<noteq> [] \<Longrightarrow> record_ok e \<Longrightarrow>
     advances e r \<and> record_ok r"
  by (auto simp: decision_defs advances_def args_ok_def record_ok_def Let_def split: if_splits)

lemma decision_id:
  "ensure_decision now a sid g None = Inr (r, f) \<Longrightarrow> args_ok now a sid g \<Longrightarrow>
     allocationId r = a \<and> record_ok r"
  "destroy_decision now a sid g None = Inr (r, f) \<Longrightarrow> args_ok now a sid g \<Longrightarrow>
     allocationId r = a \<and> record_ok r"
  "unit_decision now g ref None = Inl False"
  by (auto simp: decision_defs args_ok_def record_ok_def Let_def)

text \<open>The four outcomes of a decided operation.\<close>

lemma decided_cases:
  assumes "store_inv s" and "decided fails a d s = (res, s')"
    and adv: "\<And>e r f. known s a = Some e \<Longrightarrow> d (Some e) = Inr (r, f) \<Longrightarrow>
      advances e r \<and> allocationId r = a \<and> record_ok r"
    and id0: "\<And>r f. d None = Inr (r, f) \<Longrightarrow> allocationId r = a \<and> record_ok r"
  shows "store_inv s' \<and>
    ((\<exists>e. res = Inl e \<and> known s' = known s \<and> records s' \<in> {records s, disk_records s}) \<or>
     (\<exists>x. res = Inr x \<and> d (known s a) = Inl x \<and> known s' = known s \<and> initialized s') \<or>
     (\<exists>r f. res = Inr (f r) \<and> d (known s a) = Inr (r, f) \<and> initialized s' \<and>
        known s' = (known s)(a \<mapsto> r) \<and> disk_records s' = records s'))"
proof -
  obtain ri s1 where i: "initialize fails s = (ri, s1)" by (cases "initialize fails s")
  note ii = initialize_inv [OF assms(1) i]
  show ?thesis
  proof (cases ri)
    case (Inl e)
    with assms(2) i have "res = Inl e" "s' = s1" by (simp_all add: decided_def monad_defs)
    moreover have "records s1 \<in> {records s, disk_records s}"
      using i Inl assms(1)
      by (auto simp: initialize_def store_inv_def disk_ok_def split: if_splits option.splits state_file.splits)
        (simp add: load_records_distinct)
    ultimately show ?thesis using ii by auto
  next
    case (Inr u)
    with ii have ini: "initialized s1" by simp
    have lookup: "map_of (records s1) a = known s a"
      using ii(2) ini by (simp add: known_def fun_eq_iff)
    show ?thesis
    proof (cases "d (known s a)")
      case (Inl x)
      with assms(2) i Inr lookup have "res = Inr x" "s' = s1"
        by (simp_all add: decided_def monad_defs)
      with ii ini Inl show ?thesis by auto
    next
      case Inr2: (Inr p)
      obtain r f where p: "p = (r, f)" by (cases p)
      obtain rc s2 where c: "commit fails a r s1 = (rc, s2)" by (cases "commit fails a r s1")
      have "allocationId r = a" and "advances e r" if "known s1 a = Some e" for e
        using adv id0 Inr2 p ii(2) that by (metis option.exhaust)+
      moreover have "allocationId r = a" and "record_ok r"
        using adv id0 Inr2 p by (metis option.exhaust)+
      ultimately have ci: "store_inv s2" "initialized s2"
        "rc = Inr () \<Longrightarrow> known s2 = (known s1)(a \<mapsto> r) \<and> disk_records s2 = records s2"
        "rc \<noteq> Inr () \<Longrightarrow> records s2 = records s1 \<and> known s2 = known s1"
        using commit_inv [OF ii(1) ini _ _ _ c] by auto
      show ?thesis
      proof (cases rc)
        case (Inl e)
        with assms(2) i Inr lookup Inr2 p c have "res = Inl e" "s' = s2"
          by (simp_all add: decided_def monad_defs)
        moreover have "records s1 \<in> {records s, disk_records s}"
          using i Inr assms(1)
          by (auto simp: initialize_def store_inv_def disk_ok_def disk_records_def
              load_records_distinct split: if_splits option.splits state_file.splits)
        ultimately show ?thesis using ci ii Inl by auto
      next
        case Inr3: (Inr u')
        with assms(2) i Inr lookup Inr2 p c have "res = Inr (f r)" "s' = s2"
          by (simp_all add: decided_def monad_defs)
        with ci ii Inr2 p Inr3 show ?thesis by auto
      qed
    qed
  qed
qed

definition settles ::
  "(allocation_record option \<Rightarrow> 'a + allocation_record \<times> (allocation_record \<Rightarrow> 'a)) \<Rightarrow> string
     \<Rightarrow> alloc_store \<Rightarrow> store_error + 'a \<Rightarrow> alloc_store \<Rightarrow> bool" where
  "settles d a s res s' \<longleftrightarrow>
     store_inv s' \<and> extends (known s) (known s') \<and>
     (case res of
        Inl e \<Rightarrow> known s' = known s
      | Inr x \<Rightarrow> initialized s' \<and>
          (d (known s a) = Inl x \<and> known s' = known s \<or>
           (\<exists>r f. x = f r \<and> d (known s a) = Inr (r, f) \<and> known s' = (known s)(a \<mapsto> r) \<and>
              disk_records s' = records s')))"

lemma decided_settles:
  assumes inv: "store_inv s" and run: "decided fails a d s = (res, s')"
    and adv: "\<And>e r f. d (Some e) = Inr (r, f) \<Longrightarrow> allocationId e = a \<Longrightarrow> record_ok e \<Longrightarrow>
      advances e r \<and> record_ok r"
    and id0: "\<And>r f. d None = Inr (r, f) \<Longrightarrow> allocationId r = a \<and> record_ok r"
  shows "settles d a s res s'"
proof -
  have key: "keyed (disk_records s)" and "keyed (records s)"
    using inv by (auto simp: store_inv_def disk_ok_def disk_records_def keyed_by_id
        split: option.splits state_file.splits)
  then have id: "allocationId e = a \<and> record_ok e" if "known s a = Some e" for e
    using that by (auto simp: known_def dest: keyed_id split: if_splits)
  have c: "store_inv s' \<and>
    ((\<exists>e. res = Inl e \<and> known s' = known s \<and> records s' \<in> {records s, disk_records s}) \<or>
     (\<exists>x. res = Inr x \<and> d (known s a) = Inl x \<and> known s' = known s \<and> initialized s') \<or>
     (\<exists>r f. res = Inr (f r) \<and> d (known s a) = Inr (r, f) \<and> initialized s' \<and>
        known s' = (known s)(a \<mapsto> r) \<and> disk_records s' = records s'))"
  proof (rule decided_cases [OF inv run])
    fix e r f assume "known s a = Some e" and "d (Some e) = Inr (r, f)"
    with adv id show "advances e r \<and> allocationId r = a \<and> record_ok r" by (auto simp: advances_def)
  qed (rule id0)
  have ext: "extends (known s) ((known s)(a \<mapsto> r))" if "d (known s a) = Inr (r, f)" for r f
    using that adv id by (intro extends_upd) auto
  from c ext show ?thesis by (auto simp: settles_def)
qed

lemma ensure_settles:
  "store_inv s \<Longrightarrow> args_ok now a sid g \<Longrightarrow> observeEnsure fails now a sid g s = (res, s') \<Longrightarrow>
     settles (ensure_decision now a sid g) a s res s'"
  unfolding observeEnsure_decided
  by (rule decided_settles) (auto dest: decision_advances(1,2) decision_id(1,2))

lemma destroy_settles:
  "store_inv s \<Longrightarrow> args_ok now a sid g \<Longrightarrow> observeDestroy fails now a sid g s = (res, s') \<Longrightarrow>
     settles (destroy_decision now a sid g) a s res s'"
  unfolding observeDestroy_decided
  by (rule decided_settles) (auto dest: decision_advances(1,2) decision_id(1,2))

lemma unit_settles:
  "store_inv s \<Longrightarrow> now \<noteq> [] \<Longrightarrow> recordUnit fails now a g ref s = (res, s') \<Longrightarrow>
     settles (unit_decision now g ref) a s res s'"
  unfolding recordUnit_decided
  by (rule decided_settles) (auto dest: decision_advances(3) simp: decision_id(3))

lemma settles_safe: "settles d a s res s' \<Longrightarrow> store_inv s' \<and> extends (known s) (known s')"
  by (simp add: settles_def)

section \<open>The contract the provisioner relies on\<close>

text \<open>
  \<open>AllocationStateStore\<close> is an interface of the program: the provisioner takes any store.
  \<open>view\<close> is what the store answers from; \<open>'c\<close> is what a call depends on beside its
  arguments (the clock and the file system's behaviour).
\<close>

locale allocation_state_store =
  fixes ensure :: "'c \<Rightarrow> string \<Rightarrow> string \<Rightarrow> int \<Rightarrow> ('s, 'e, observe_result) comp"
    and destroy :: "'c \<Rightarrow> string \<Rightarrow> string \<Rightarrow> int \<Rightarrow> ('s, 'e, observe_result) comp"
    and record_unit :: "'c \<Rightarrow> string \<Rightarrow> int \<Rightarrow> string \<Rightarrow> ('s, 'e, bool) comp"
    and inv :: "'s \<Rightarrow> bool"
    and view :: "'s \<Rightarrow> string \<Rightarrow> allocation_record option"
    and ok :: "'c \<Rightarrow> string \<Rightarrow> string \<Rightarrow> int \<Rightarrow> bool"
    and clock_ok :: "'c \<Rightarrow> bool"
  assumes ensure_safe: "inv s \<Longrightarrow> ok c a sid g \<Longrightarrow> ensure c a sid g s = (res, s') \<Longrightarrow> inv s' \<and> extends (view s) (view s')"
    and destroy_safe: "inv s \<Longrightarrow> ok c a sid g \<Longrightarrow> destroy c a sid g s = (res, s') \<Longrightarrow> inv s' \<and> extends (view s) (view s')"
    and unit_safe: "inv s \<Longrightarrow> clock_ok c \<Longrightarrow> record_unit c a g ref s = (b, s') \<Longrightarrow> inv s' \<and> extends (view s) (view s')"
    and ensure_observed: "inv s \<Longrightarrow> ok c a sid g \<Longrightarrow> ensure c a sid g s = (Inr (Observed r), s') \<Longrightarrow>
      view s' a = Some r \<and> sidecarId r = sid \<and> generation r = g \<and> desiredState r = Ensured"
    and destroy_observed: "inv s \<Longrightarrow> ok c a sid g \<Longrightarrow> destroy c a sid g s = (Inr (Observed r), s') \<Longrightarrow>
      view s' a = Some r \<and> sidecarId r = sid \<and> generation r = g \<and> desiredState r = Destroyed"
    and unit_recorded: "inv s \<Longrightarrow> clock_ok c \<Longrightarrow> record_unit c a g ref s = (Inr True, s') \<Longrightarrow>
      \<exists>r. view s' a = Some r \<and> generation r = g \<and> desiredState r = Ensured \<and> externalRef r = Some ref"
begin

inductive reaches :: "'s \<Rightarrow> 's \<Rightarrow> bool" where
  reaches_refl: "reaches s s"
| reaches_ensure: "reaches s t \<Longrightarrow> ok c a sid g \<Longrightarrow> ensure c a sid g t = (r, u) \<Longrightarrow> reaches s u"
| reaches_destroy: "reaches s t \<Longrightarrow> ok c a sid g \<Longrightarrow> destroy c a sid g t = (r, u) \<Longrightarrow> reaches s u"
| reaches_unit: "reaches s t \<Longrightarrow> clock_ok c \<Longrightarrow> record_unit c a g ref t = (b, u) \<Longrightarrow> reaches s u"

lemma reaches_safe: "reaches s t \<Longrightarrow> inv s \<Longrightarrow> inv t \<and> extends (view s) (view t)"
  by (induction rule: reaches.induct)
    (auto dest: ensure_safe destroy_safe unit_safe intro: extends_trans)

text \<open>An extension of what was known when a destroy was observed refuses its generation.\<close>

lemma fenced:
  assumes s: "inv s" "ok c a sid g" "destroy c a sid g s = (Inr (Observed r), s1)"
    and t: "inv t" "extends (view s1) (view t)"
    and e: "ok c' a sid' g'" "ensure c' a sid' g' t = (Inr (Observed r'), t')"
  shows "g < g' \<and> sid' = sid"
proof -
  from destroy_observed [OF s] have r: "view s1 a = Some r" "sidecarId r = sid"
    "generation r = g" "desiredState r = Destroyed" by auto
  from ensure_observed [OF t(1) e] have r': "view t' a = Some r'" "sidecarId r' = sid'"
    "generation r' = g'" "desiredState r' = Ensured" by auto
  from ensure_safe [OF t(1) e] t(2) have "extends (view s1) (view t')"
    by (blast intro: extends_trans)
  from this r(1) r'(1) have "advances r r'" by (rule extendsD)
  with r r' show ?thesis by (auto simp: advances_def)
qed

lemma superseded_unit_not_recorded:
  assumes s: "inv s" "ok c a sid g" "ensure c a sid g s = (Inr (Observed r), s1)"
    and t: "inv t" "extends (view s1) (view t)"
    and u: "clock_ok c'" "record_unit c' a g' ref t = (Inr True, t')"
  shows "g \<le> g'"
proof -
  from ensure_observed [OF s] have r: "view s1 a = Some r" "generation r = g" by auto
  from unit_recorded [OF t(1) u] obtain r' where r': "view t' a = Some r'" "generation r' = g'"
    by auto
  from unit_safe [OF t(1) u] t(2) have "extends (view s1) (view t')"
    by (blast intro: extends_trans)
  from this r(1) r'(1) have "advances r r'" by (rule extendsD)
  with r r' show ?thesis by (auto simp: advances_def)
qed

end

lemma ensure_Observed:
  "store_inv s \<Longrightarrow> args_ok now a sid g \<Longrightarrow> observeEnsure fails now a sid g s = (Inr (Observed r), s') \<Longrightarrow>
     known s' a = Some r \<and> sidecarId r = sid \<and> generation r = g \<and> desiredState r = Ensured"
  using ensure_settles [of s now a sid g fails "Inr (Observed r)" s']
  by (cases "known s a"; cases "desiredState r")
    (auto simp: settles_def ensure_decision_def Let_def split: if_splits)

lemma destroy_Observed:
  "store_inv s \<Longrightarrow> args_ok now a sid g \<Longrightarrow> observeDestroy fails now a sid g s = (Inr (Observed r), s') \<Longrightarrow>
     known s' a = Some r \<and> sidecarId r = sid \<and> generation r = g \<and> desiredState r = Destroyed"
  using destroy_settles [of s now a sid g fails "Inr (Observed r)" s']
  by (cases "known s a") (auto simp: settles_def destroy_decision_def Let_def split: if_splits)

lemma unit_Recorded:
  "store_inv s \<Longrightarrow> now \<noteq> [] \<Longrightarrow> recordUnit fails now a g ref s = (Inr True, s') \<Longrightarrow>
     \<exists>r. known s' a = Some r \<and> generation r = g \<and> desiredState r = Ensured \<and> externalRef r = Some ref"
  using unit_settles [of s now fails a g ref "Inr True" s']
  by (cases "known s a") (auto simp: settles_def unit_decision_def split: if_splits)

interpretation process_store: allocation_state_store
  "\<lambda>(fails, now). observeEnsure fails now" "\<lambda>(fails, now). observeDestroy fails now"
  "\<lambda>(fails, now). recordUnit fails now" store_inv known
  "\<lambda>(fails, now). args_ok now" "\<lambda>(fails, now). now \<noteq> []"
proof (unfold_locales, goal_cases)
  case (1 s c a sid g r s')
  then show ?case by (cases c) (auto dest: ensure_settles settles_safe)
next
  case (2 s c a sid g r s')
  then show ?case by (cases c) (auto dest: destroy_settles settles_safe)
next
  case (3 s c a g ref b s')
  then show ?case by (cases c) (auto dest: unit_settles settles_safe)
next
  case (4 s c a sid g r s')
  then show ?case by (cases c) (auto dest: ensure_Observed)
next
  case (5 s c a sid g r s')
  then show ?case by (cases c) (auto dest: destroy_Observed)
next
  case (6 s c a g ref s')
  then show ?case by (cases c) (auto dest: unit_Recorded)
qed

section \<open>The store's life\<close>

lemma run_op_safe:
  assumes "store_inv s" and "op_ok now op"
  shows "store_inv (snd (run_op fails now op s)) \<and>
    extends (known s) (known (snd (run_op fails now op s)))"
proof (cases op)
  case (ObserveEnsure a sid g)
  with assms ensure_settles [of s now a sid g fails] show ?thesis
    by (cases "observeEnsure fails now a sid g s")
      (auto simp: monad_defs dest!: settles_safe split: sum.splits)
next
  case (ObserveDestroy a sid g)
  with assms destroy_settles [of s now a sid g fails] show ?thesis
    by (cases "observeDestroy fails now a sid g s")
      (auto simp: monad_defs dest!: settles_safe split: sum.splits)
next
  case (RecordUnit a g ref)
  with assms unit_settles [of s now fails a g ref] show ?thesis
    by (cases "recordUnit fails now a g ref s")
      (auto simp: monad_defs dest!: settles_safe split: sum.splits)
qed

lemma restart_safe:
  assumes "store_inv s"
  shows "store_inv (hub_step Restart s) \<and> extends (known s) (known (hub_step Restart s))"
proof -
  have "disk_records (hub_step Restart s) = disk_records s"
    by (simp add: new_store_def disk_records_def)
  with assms show ?thesis
    by (auto simp: new_store_def known_def store_inv_def disk_ok_def)
qed

lemma hub_run_safe:
  "store_inv s \<Longrightarrow> list_all event_ok es \<Longrightarrow> store_inv (hub_run es s) \<and> extends (known s) (known (hub_run es s))"
proof (induction es arbitrary: s)
  case Nil
  then show ?case by simp
next
  case (Cons e es)
  have "store_inv (hub_step e s) \<and> extends (known s) (known (hub_step e s))"
    using Cons.prems run_op_safe restart_safe by (cases e) auto
  with Cons show ?case by (auto intro: extends_trans)
qed

lemma store_inv_new: "disk_ok v \<Longrightarrow> store_inv (new_store v)"
  by (simp add: store_inv_def new_store_def)

section \<open>The specification the store implements\<close>

text \<open>
  What a caller sees of the store, without files: a map from allocations to records, and
  each operation an atomic decision on it.
\<close>

definition spec_decided ::
  "string \<Rightarrow> (allocation_record option \<Rightarrow> 'a + allocation_record \<times> (allocation_record \<Rightarrow> 'a))
     \<Rightarrow> (string \<Rightarrow> allocation_record option) \<Rightarrow> 'a \<times> (string \<Rightarrow> allocation_record option)" where
  "spec_decided a d m = (case d (m a) of Inl x \<Rightarrow> (x, m) | Inr (r, f) \<Rightarrow> (f r, m(a \<mapsto> r)))"

fun spec_op ::
  "string \<Rightarrow> store_op \<Rightarrow> (string \<Rightarrow> allocation_record option)
     \<Rightarrow> outcome \<times> (string \<Rightarrow> allocation_record option)" where
  "spec_op now (ObserveEnsure a sid g) m = map_prod Observation id (spec_decided a (ensure_decision now a sid g) m)"
| "spec_op now (ObserveDestroy a sid g) m = map_prod Observation id (spec_decided a (destroy_decision now a sid g) m)"
| "spec_op now (RecordUnit a g ref) m = map_prod Recorded id (spec_decided a (unit_decision now g ref) m)"

lemma settles_spec:
  "settles d a s (Inr x) s' \<Longrightarrow> spec_decided a d (known s) = (x, known s')"
  by (auto simp: settles_def spec_decided_def)

lemma settles_error: "settles d a s (Inl e) s' \<Longrightarrow> known s' = known s"
  by (simp add: settles_def)

text \<open>Without faults no operation throws.\<close>

lemma initialize_no_faults:
  "store_inv s \<Longrightarrow> \<exists>s'. initialize (\<lambda>_. False) s = (Inr (), s')"
  by (auto simp: initialize_def store_inv_def disk_ok_def load_records_distinct
      split: option.splits state_file.splits)

lemma decided_no_faults:
  assumes "store_inv s"
  shows "\<exists>x s'. decided (\<lambda>_. False) a d s = (Inr x, s')"
proof -
  obtain s' where "initialize (\<lambda>_. False) s = (Inr (), s')"
    using initialize_no_faults [OF assms] by blast
  then show ?thesis
    by (auto simp: decided_def commit_def persist_def writeFileAtomic_no_faults monad_defs
        split: sum.splits prod.splits)
qed

section \<open>Properties\<close>

text \<open>
  C2. Destroying an allocation fences every earlier start of it. Once
  \<open>observeDestroy\<close> at generation \<open>g\<close> was acknowledged, no later \<open>observeEnsure\<close> of the
  allocation is observed unless it has a later generation and the same sidecar: not after
  any other calls, whatever file-system calls failed in them, and not after restarts that
  lose the store's memory.
\<close>

theorem destroy_fences_ensure:
  assumes "store_inv s" and "args_ok now a sid g" and "args_ok now' a sid' g'" and "list_all event_ok es"
    and "observeDestroy fails now a sid g s = (Inr (Observed r), s1)"
    and "observeEnsure fails' now' a sid' g' (hub_run es s1) = (Inr (Observed r'), s2)"
  shows "g < g' \<and> sid' = sid"
proof -
  from assms(1,2,5) have "store_inv s1"
    by (blast dest: destroy_settles settles_safe)
  then have "store_inv (hub_run es s1)" "extends (known s1) (known (hub_run es s1))"
    using hub_run_safe assms(4) by auto
  then show ?thesis
    using process_store.fenced [of s "(fails, now)" a sid g r s1 "hub_run es s1" "(fails', now')"]
      assms by auto
qed

text \<open>The witness: ensure generation 1, destroy it, restart, ensure generation 2.\<close>

theorem destroy_fences_ensure_witness:
  "(1::int) < 2 \<and> ''s'' = ''s''"
proof -
  let ?ok = "\<lambda>_. False"
  let ?init = "new_store \<lparr>target = None, temp = None\<rparr>"
  let ?gone = "\<lparr>allocationId = ''a'', sidecarId = ''s'', generation = 1, desiredState = Destroyed,
    externalRef = None, updatedAt = ''t2''\<rparr>"
  let ?new = "\<lparr>allocationId = ''a'', sidecarId = ''s'', generation = 2, desiredState = Ensured,
    externalRef = None, updatedAt = ''t3''\<rparr>"
  let ?up = "hub_step (Call ?ok ''t1'' (ObserveEnsure ''a'' ''s'' 1)) ?init"
  let ?dead = "snd (observeDestroy ?ok ''t2'' ''a'' ''s'' 1 ?up)"
  let ?again = "snd (observeEnsure ?ok ''t3'' ''a'' ''s'' 2 (hub_run [Restart] ?dead))"
  have 0: "store_inv ?init" by (rule store_inv_new) (simp add: disk_ok_def)
  have 1: "store_inv ?up"
    using run_op_safe [OF 0, of "''t1''" "ObserveEnsure ''a'' ''s'' 1" ?ok]
    by (simp add: args_ok_def del: run_op.simps)
  have 2: "observeDestroy ?ok ''t2'' ''a'' ''s'' 1 ?up = (Inr (Observed ?gone), ?dead)"
    by (simp add: observeDestroy_def observeEnsure_def initialize_def new_store_def commit_def
        persist_def writeFileAtomic_no_faults monad_defs Let_def)
  have 3: "observeEnsure ?ok ''t3'' ''a'' ''s'' 2 (hub_run [Restart] ?dead) = (Inr (Observed ?new), ?again)"
    by (simp add: observeDestroy_def observeEnsure_def initialize_def new_store_def commit_def
        persist_def writeFileAtomic_no_faults monad_defs record_ok_def Let_def)
  show ?thesis
    by (rule destroy_fences_ensure [OF 1 _ _ _ 2 3]) (simp_all add: args_ok_def)
qed

text \<open>
  C16. Nothing acknowledged is lost. Over any sequence of calls and restarts, with any
  file-system calls failing, the store's invariant holds and every allocation it knew is
  still known, under the same sidecar and with a record no earlier in the fencing order.
\<close>

theorem hub_run_durable:
  assumes "store_inv s" and "list_all event_ok es"
  shows "store_inv (hub_run es s) \<and> extends (known s) (known (hub_run es s))"
  using hub_run_safe [OF assms] .

theorem hub_run_durable_witness:
  "store_inv (hub_run [Call (\<lambda>x. x = SyncDir) ''t'' (ObserveEnsure ''a'' ''s'' 1), Restart]
     (new_store \<lparr>target = None, temp = None\<rparr>))"
proof -
  have "store_inv (new_store \<lparr>target = None, temp = None\<rparr>)"
    by (rule store_inv_new) (simp add: disk_ok_def)
  then show ?thesis
    by (rule hub_run_durable [THEN conjunct1]) (simp add: args_ok_def)
qed

text \<open>
  C4. Refinement: seen through what it knows, the store is the atomic map of the
  specification. An operation that returns answers what the specification answers and moves
  to its state; one that throws changes nothing a caller can see; and without file-system
  faults every operation returns.
\<close>

theorem store_refines_spec:
  assumes "store_inv s" and "op_ok now op" and "run_op fails now op s = (res, s')"
  shows "store_inv s' \<and>
    (case res of Inl e \<Rightarrow> known s' = known s | Inr out \<Rightarrow> spec_op now op (known s) = (out, known s')) \<and>
    (fails = (\<lambda>_. False) \<longrightarrow> (\<exists>out. res = Inr out))"
proof -
  note inv = run_op_safe [OF assms(1,2), of fails] and ok = decided_no_faults [OF assms(1)]
  show ?thesis
  proof (cases op)
    case (ObserveEnsure a sid g)
    with assms inv ok [of a "ensure_decision now a sid g"] ensure_settles [of s now a sid g fails]
    show ?thesis
      by (cases "observeEnsure fails now a sid g s")
        (auto simp: bindE_def returnE_def observeEnsure_decided dest: settles_error settles_spec
          split: sum.splits)
  next
    case (ObserveDestroy a sid g)
    with assms inv ok [of a "destroy_decision now a sid g"] destroy_settles [of s now a sid g fails]
    show ?thesis
      by (cases "observeDestroy fails now a sid g s")
        (auto simp: bindE_def returnE_def observeDestroy_decided dest: settles_error settles_spec
          split: sum.splits)
  next
    case (RecordUnit a g ref)
    with assms inv ok [of a "unit_decision now g ref"] unit_settles [of s now fails a g ref]
    show ?thesis
      by (cases "recordUnit fails now a g ref s")
        (auto simp: bindE_def returnE_def recordUnit_decided dest: settles_error settles_spec
          split: sum.splits)
  qed
qed

theorem store_refines_spec_witness:
  "\<exists>out. fst (run_op (\<lambda>_. False) ''t'' (ObserveEnsure ''a'' ''s'' 1)
     (new_store \<lparr>target = None, temp = None\<rparr>)) = Inr out"
proof -
  have "store_inv (new_store \<lparr>target = None, temp = None\<rparr>)"
    by (rule store_inv_new) (simp add: disk_ok_def)
  from store_refines_spec [OF this _ prod.collapse [symmetric],
      of "''t''" "ObserveEnsure ''a'' ''s'' 1" "\<lambda>_. False"]
  show ?thesis by (simp add: args_ok_def del: run_op.simps)
qed

text \<open>
  Also shown. The state file is replaced atomically: whichever of the system calls fail, the file
  afterwards holds the old contents or the new ones, it holds the new ones when the write
  returns, and no temporary file is left behind unless unlinking it failed.
\<close>

theorem writeFileAtomic_atomic:
  assumes "writeFileAtomic fails c v = (r, v')"
  shows "(target v' = target v \<or> target v' = Some c) \<and>
    (r = Inr () \<longrightarrow> target v' = Some c) \<and>
    (temp v = None \<longrightarrow> fails UnlinkTemp \<or> temp v' = None)"
proof (intro conjI impI)
  show "target v' = target v \<or> target v' = Some c"
    by (rule writeFileAtomic_old_or_new [OF assms])
  show "target v' = Some c" if "r = Inr ()"
    using writeFileAtomic_ok [of fails c v "()" v'] assms that by simp
  show "fails UnlinkTemp \<or> temp v' = None" if "temp v = None"
    using writeFileAtomic_cleans_up [OF assms that] by (cases "fails UnlinkTemp") auto
qed

theorem writeFileAtomic_atomic_witness:
  "target (snd (writeFileAtomic (\<lambda>x. x = SyncDir) ''new'' \<lparr>target = Some ''old'', temp = None\<rparr>))
     \<in> {Some ''old'', Some ''new''}"
  using writeFileAtomic_atomic [OF prod.collapse [symmetric],
      of "\<lambda>x. x = SyncDir" "''new''" "\<lparr>target = Some ''old'', temp = None\<rparr>"]
  by simp

end
