(* ===== verification/Js_Number.thy ===== *)
theory Js_Number
  imports Prelude
begin

text \<open>
  \<open>Number(text)\<close>: surrounding white space is ignored, the empty text is 0, a text is read
  as a hexadecimal, octal or binary literal with its prefix, or as a decimal literal with
  sign, fraction and exponent, and anything else is \<open>NaN\<close>. The value is exact: rounding to
  a double, which moves literals beyond 15 significant digits, is outside the model.
\<close>

section \<open>Digits\<close>

definition digit_value :: "char \<Rightarrow> nat" where
  "digit_value c =
     (if is_digit c then char_code c - 48
      else if is_ascii_upper c then char_code c - 55
      else if is_ascii_lower c then char_code c - 87
      else 36)"

definition digits_value :: "nat \<Rightarrow> string \<Rightarrow> nat" where
  "digits_value b = foldl (\<lambda>n c. b * n + digit_value c) 0"

definition radix_literal :: "nat \<Rightarrow> string \<Rightarrow> js_number" where
  "radix_literal b ds =
     (if ds \<noteq> [] \<and> list_all (\<lambda>c. digit_value c < b) ds then JInt (int (digits_value b ds)) else JNonInt)"

section \<open>Decimal literals\<close>

definition scaled :: "nat \<Rightarrow> int \<Rightarrow> js_number" where
  "scaled m e =
     (if 0 \<le> e then JInt (int m * 10 ^ nat e)
      else if m mod 10 ^ nat (- e) = 0 then JInt (int (m div 10 ^ nat (- e)))
      else JNonInt)"

fun signed :: "string \<Rightarrow> bool \<times> string" where
  "signed (c # s) = (if c = CHR ''-'' then (True, s) else if c = CHR ''+'' then (False, s) else (False, c # s))"
| "signed [] = (False, [])"

text \<open>The exponent part, which has to end the text: \<open>None\<close> where it is malformed.\<close>

fun exponent :: "string \<Rightarrow> int option" where
  "exponent [] = Some 0"
| "exponent (c # s) =
     (if c = CHR ''e'' \<or> c = CHR ''E'' then
        (case signed s of (neg, ds) \<Rightarrow>
           if ds \<noteq> [] \<and> list_all is_digit ds
           then Some (if neg then - int (digits_value 10 ds) else int (digits_value 10 ds))
           else None)
      else None)"

definition unsigned_decimal :: "string \<Rightarrow> js_number" where
  "unsigned_decimal s =
     (let ip = takeWhile is_digit s;
          r = dropWhile is_digit s;
          dot = (r \<noteq> [] \<and> hd r = CHR ''.'');
          fp = (if dot then takeWhile is_digit (tl r) else []);
          rest = (if dot then dropWhile is_digit (tl r) else r)
      in if ip @ fp = [] then JNonInt
         else (case exponent rest of
                 None \<Rightarrow> JNonInt
               | Some e \<Rightarrow> scaled (digits_value 10 (ip @ fp)) (e - int (length fp))))"

fun negate :: "js_number \<Rightarrow> js_number" where
  "negate (JInt i) = JInt (- i)"
| "negate JNonInt = JNonInt"

definition js_Number :: "string \<Rightarrow> js_number" where
  "js_Number text =
     (let t = trim text in
      if t = [] then JInt 0
      else if t \<noteq> [] \<and> hd t = CHR ''0'' \<and> tl t \<noteq> [] \<and> hd (tl t) \<in> {CHR ''x'', CHR ''X''}
      then radix_literal 16 (drop 2 t)
      else if hd t = CHR ''0'' \<and> tl t \<noteq> [] \<and> hd (tl t) \<in> {CHR ''o'', CHR ''O''}
      then radix_literal 8 (drop 2 t)
      else if hd t = CHR ''0'' \<and> tl t \<noteq> [] \<and> hd (tl t) \<in> {CHR ''b'', CHR ''B''}
      then radix_literal 2 (drop 2 t)
      else (case signed t of (neg, body) \<Rightarrow>
              if neg then negate (unsigned_decimal body) else unsigned_decimal body))"

section \<open>Reading what \<open>String\<close> wrote\<close>

lemma digits_value_snoc: "digits_value b (ds @ [c]) = b * digits_value b ds + digit_value c"
  by (simp add: digits_value_def)

lemma digit_value_dec: "n < 10 \<Longrightarrow> digit_value (char_of (48 + n)) = n"
  by (simp add: digit_value_def is_digit_def in_range_def)

lemma digits_value_dec [simp]: "digits_value 10 (dec n) = n"
proof (induction n rule: dec.induct)
  case (1 n)
  show ?case
  proof (cases "n < 10")
    case True
    then show ?thesis by (subst dec.simps) (simp add: digits_value_def digit_value_dec)
  next
    case False
    have "digits_value 10 (dec n) = 10 * digits_value 10 (dec (n div 10)) + digit_value (char_of (48 + n mod 10))"
      using False by (subst dec.simps) (simp add: digits_value_snoc)
    also have "\<dots> = 10 * (n div 10) + n mod 10"
      using 1 False digit_value_dec [of "n mod 10"] by simp
    finally show ?thesis by simp
  qed
qed

lemma all_digits_dec: "list_all is_digit (dec n)"
  by (auto simp: list_all_iff dec_digits)

lemma unsigned_decimal_digits:
  assumes "ds \<noteq> []" and "list_all is_digit ds"
  shows "unsigned_decimal ds = JInt (int (digits_value 10 ds))"
proof -
  from assms(2) have tw: "takeWhile is_digit ds = ds" and dw: "dropWhile is_digit ds = []"
    by (auto simp: list_all_iff)
  from assms(1) show ?thesis unfolding unsigned_decimal_def Let_def tw dw by (simp add: scaled_def)
qed

lemma is_digit_letters [simp]:
  "\<not> is_digit CHR ''x''" "\<not> is_digit CHR ''X''" "\<not> is_digit CHR ''o''" "\<not> is_digit CHR ''O''"
  "\<not> is_digit CHR ''b''" "\<not> is_digit CHR ''B''" "\<not> is_digit CHR ''-''" "\<not> is_digit CHR ''+''"
  "\<not> is_digit CHR '':''"
  by (simp_all add: is_digit_def in_range_def char_code_def)

lemma js_Number_digits:
  assumes "ds \<noteq> []" and d: "list_all is_digit ds"
  shows "js_Number ds = JInt (int (digits_value 10 ds))"
proof -
  from d have t: "trim ds = ds" by (auto intro!: trim_id simp: list_all_iff is_digit_not_space)
  have prefix: "c \<in> set ds \<Longrightarrow> \<not> is_digit c \<Longrightarrow> False" for c
    using d by (auto simp: list_all_iff)
  have second: "hd (tl ds) \<notin> {c. \<not> is_digit c}" if "tl ds \<noteq> []"
    using that d by (cases ds; cases "tl ds") auto
  have "signed ds = (False, ds)"
    using assms by (cases ds) auto
  with assms(1) t second show ?thesis
    by (auto simp: js_Number_def Let_def unsigned_decimal_digits d)
qed

lemma js_Number_dec [simp]: "js_Number (dec n) = JInt (int n)"
  by (simp add: js_Number_digits all_digits_dec)

lemma js_Number_nonneg: "0 \<le> i \<Longrightarrow> js_Number (string_of_int i) = JInt i"
  by (simp add: string_of_int_def)

text \<open>A line holding the number reads as the number.\<close>

lemma js_Number_line: "0 \<le> i \<Longrightarrow> js_Number (trim (string_of_int i @ [CHR 0x0A])) = JInt i"
proof -
  assume i: "0 \<le> i"
  then have "trim (string_of_int i) = string_of_int i"
    by (intro trim_id) (auto simp: string_of_int_def dest: dec_digits is_digit_not_space)
  moreover have "is_space (CHR 0x0A)"
    by (simp add: is_space_def in_range_def char_code_def)
  ultimately show ?thesis using i by (simp add: trim_snoc js_Number_nonneg)
qed

end
