(* ===== verification/Process_Provisioner.thy ===== *)
theory Process_Provisioner
  imports Allocation_Store Js_Number
begin

text \<open>
  \<open>createProcessSidecarProvisioner\<close> of \<open>apps/hub/src/provisioners/process.ts\<close>: one sidecar
  process per allocation and generation, found again through pid files, started by \<open>ensure\<close>
  and stopped by \<open>destroy\<close>, in front of the allocation store.

  The host is explicit state: the processes with the time each exits, the unit directories
  with their pid files, the clock, and the store. What the kernel decides is in \<open>env\<close>: the
  pid of a new process, how long a process takes to exit after \<open>SIGTERM\<close>, how late a timer
  fires, and which calls fail at which time.
\<close>

section \<open>The host\<close>

datatype errno = ESRCH | EPERM | ENOENT | ENOTEMPTY | EEXIST | OtherErrno string

text \<open>\<open>Prov\<close> is a \<open>ProvisionerOperationError\<close>: its code, message and whether to retry.\<close>

datatype exn =
    Prov string string bool
  | Sys errno
  | StoreExn store_error

record proc =
  owned :: bool
  exits :: "int option"

text \<open>
  A directory under the allocations directory: its entries in the order \<open>readdir\<close> lists
  them, each with the text of the pid file in it, if there is one.
\<close>

type_synonym dir_entries = "(string \<times> string option) list"

record host =
  procs :: "(int \<times> proc) list"
  clock :: int
  dirs :: "(string \<times> dir_entries) list"
  store :: alloc_store

datatype sys_call =
    MkdirUnit string | SpawnUnit | WritePid string | ReadDir string | ReadPid string
  | RemoveUnit string | RemoveDir string

record env =
  allocationsDir :: string
  sidecarEntryPath :: string
  new_pid :: "host \<Rightarrow> int"
  term_delay :: "int \<Rightarrow> nat option"
  late :: "int \<Rightarrow> nat"
  sys_fails :: "int \<Rightarrow> sys_call \<Rightarrow> errno option"
  store_faults :: faults
  toISOString :: "int \<Rightarrow> string"
  hub_env :: "string \<Rightarrow> string option"
  credential_key :: string
  describe :: "exn \<Rightarrow> string"
  refId :: "exn \<Rightarrow> string"

definition sys :: "env \<Rightarrow> sys_call \<Rightarrow> (host, exn, 'a) comp \<Rightarrow> (host, exn, 'a) comp" where
  "sys env c m h = (case sys_fails env (clock h) c of Some e \<Rightarrow> (Inl (Sys e), h) | None \<Rightarrow> m h)"

definition with_store :: "(alloc_store, store_error, 'a) comp \<Rightarrow> (host, exn, 'a) comp" where
  "with_store m h =
     (case m (store h) of
        (Inl e, s) \<Rightarrow> (Inl (StoreExn e), h\<lparr>store := s\<rparr>)
      | (Inr x, s) \<Rightarrow> (Inr x, h\<lparr>store := s\<rparr>))"

section \<open>The process runner\<close>

definition running :: "host \<Rightarrow> int \<Rightarrow> bool" where
  "running h pid \<longleftrightarrow>
     (case map_of (procs h) pid of
        None \<Rightarrow> False
      | Some p \<Rightarrow> (case exits p of None \<Rightarrow> True | Some t \<Rightarrow> clock h < t))"

text \<open>\<open>kill(pid, 0)\<close>, and what \<open>isAlive\<close> makes of its error.\<close>

definition kill_error :: "host \<Rightarrow> int \<Rightarrow> errno option" where
  "kill_error h pid =
     (if \<not> running h pid then Some ESRCH
      else if owned (the (map_of (procs h) pid)) then None
      else Some EPERM)"

definition isAlive :: "int \<Rightarrow> (host, exn, bool) comp" where
  "isAlive pid h =
     (case kill_error h pid of
        None \<Rightarrow> (Inr True, h)
      | Some ESRCH \<Rightarrow> (Inr False, h)
      | Some EPERM \<Rightarrow> (Inr True, h)
      | Some e \<Rightarrow> (Inl (Sys e), h))"

datatype signal = SIGTERM | SIGKILL

definition exit_by :: "int \<Rightarrow> proc \<Rightarrow> proc" where
  "exit_by t p = p\<lparr>exits := Some (case exits p of None \<Rightarrow> t | Some t' \<Rightarrow> min t t')\<rparr>"

fun signal_effect :: "env \<Rightarrow> signal \<Rightarrow> int \<Rightarrow> int \<Rightarrow> proc \<Rightarrow> proc" where
  "signal_effect env SIGKILL t pid p = exit_by t p"
| "signal_effect env SIGTERM t pid p =
     (case term_delay env pid of None \<Rightarrow> p | Some d \<Rightarrow> exit_by (t + int d) p)"

definition send_signal :: "env \<Rightarrow> int \<Rightarrow> signal \<Rightarrow> (host, exn, unit) comp" where
  "send_signal env pid sg h =
     (case kill_error h pid of
        Some e \<Rightarrow> (Inl (Sys e), h)
      | None \<Rightarrow>
          (Inr (), h\<lparr>procs := AList.update pid
             (signal_effect env sg (clock h) pid (the (map_of (procs h) pid))) (procs h)\<rparr>))"

definition spawn :: "env \<Rightarrow> (host, exn, int) comp" where
  "spawn env = sys env SpawnUnit (\<lambda>h.
     (Inr (new_pid env h),
      h\<lparr>procs := AList.update (new_pid env h) \<lparr>owned = True, exits = None\<rparr> (procs h)\<rparr>))"

subsection \<open>Terminating a process\<close>

definition TERMINATION_GRACE_MS :: int where "TERMINATION_GRACE_MS = 5000"
definition TERMINATION_POLL_MS :: int where "TERMINATION_POLL_MS = 100"

text \<open>A timer fires no earlier than asked; \<open>late\<close> says how much later.\<close>

definition sleep_poll :: "env \<Rightarrow> host \<Rightarrow> host" where
  "sleep_poll env h = h\<lparr>clock := clock h + TERMINATION_POLL_MS + int (late env (clock h))\<rparr>"

function await_exit :: "env \<Rightarrow> int \<Rightarrow> int \<Rightarrow> host \<Rightarrow> host" where
  "await_exit env pid deadline h =
     (if running h pid \<and> clock h < deadline
      then await_exit env pid deadline (sleep_poll env h) else h)"
  by pat_completeness auto
termination
  by (relation "measure (\<lambda>(env, pid, deadline, h). nat (deadline - clock h))")
    (auto simp: sleep_poll_def TERMINATION_POLL_MS_def)

declare await_exit.simps [simp del]

definition terminate_unit :: "env \<Rightarrow> int \<Rightarrow> (host, exn, unit) comp" where
  "terminate_unit env pid =
     bindE (isAlive pid) (\<lambda>up.
     if \<not> up then returnE ()
     else
       bindE (send_signal env pid SIGTERM) (\<lambda>_.
       bindE (getsE clock) (\<lambda>start.
       bindE (modifyE (await_exit env pid (start + TERMINATION_GRACE_MS))) (\<lambda>_.
       bindE (isAlive pid) (\<lambda>still.
       if still then send_signal env pid SIGKILL else returnE ())))))"

section \<open>Names and references\<close>

definition is_allocation_char :: "char \<Rightarrow> bool" where
  "is_allocation_char c \<longleftrightarrow> is_word c \<or> c = CHR ''.'' \<or> c = CHR ''-''"

definition valid_allocation_id :: "string \<Rightarrow> bool" where
  "valid_allocation_id a \<longleftrightarrow> a \<noteq> [] \<and> list_all is_allocation_char a"

definition UNIT_DIR_PREFIX :: string where "UNIT_DIR_PREFIX = ''gen-''"

definition externalRefOf :: "string \<Rightarrow> int \<Rightarrow> int \<Rightarrow> string" where
  "externalRefOf a g pid = a @ '':'' @ string_of_int g @ '':'' @ string_of_int pid"

definition parseExternalRef :: "string \<Rightarrow> (string \<times> int \<times> int) option" where
  "parseExternalRef ref =
     (case split_on CHR '':'' ref of
        [a, gt, pt] \<Rightarrow>
          (if a = [] then None
           else
             (case js_Number gt of
                JNonInt \<Rightarrow> None
              | JInt g \<Rightarrow>
                  if g < 0 then None
                  else (case js_Number pt of
                          JNonInt \<Rightarrow> None
                        | JInt pid \<Rightarrow> if pid \<le> 0 then None else Some (a, g, pid))))
      | _ \<Rightarrow> None)"

definition generationOf :: "string \<Rightarrow> int option" where
  "generationOf entry =
     (if starts_with UNIT_DIR_PREFIX entry
      then (case js_Number (drop (length UNIT_DIR_PREFIX) entry) of
              JInt g \<Rightarrow> if g > 0 then Some g else None
            | JNonInt \<Rightarrow> None)
      else None)"

text \<open>
  \<open>resolve(dir, name)\<close> for an absolute \<open>dir\<close> and a name without a slash: the two relative
  names that the pattern of an allocation id lets through do not name a child.
\<close>

definition parent_dir :: "string \<Rightarrow> string" where
  "parent_dir d = rev (tl (dropWhile (\<lambda>c. c \<noteq> CHR ''/'') (rev d)))"

definition resolve_name :: "string \<Rightarrow> string \<Rightarrow> string" where
  "resolve_name d n =
     (if n = ''.'' then d else if n = ''..'' then parent_dir d else d @ ''/'' @ n)"

text \<open>\<open>JSON.stringify\<close> of a string.\<close>

definition hex_digit :: "nat \<Rightarrow> char" where
  "hex_digit n = char_of (if n < 10 then 48 + n else 87 + n)"

definition json_escape :: "char \<Rightarrow> string" where
  "json_escape c =
     (if c = CHR 0x22 then [CHR 0x5C, CHR 0x22]
      else if c = CHR 0x5C then [CHR 0x5C, CHR 0x5C]
      else if char_code c = 8 then [CHR 0x5C, CHR ''b'']
      else if char_code c = 9 then [CHR 0x5C, CHR ''t'']
      else if char_code c = 10 then [CHR 0x5C, CHR ''n'']
      else if char_code c = 12 then [CHR 0x5C, CHR ''f'']
      else if char_code c = 13 then [CHR 0x5C, CHR ''r'']
      else if char_code c < 32
      then [CHR 0x5C, CHR ''u'', CHR ''0'', CHR ''0'', hex_digit (char_code c div 16), hex_digit (char_code c mod 16)]
      else [c])"

definition json_quote :: "string \<Rightarrow> string" where
  "json_quote s = [CHR 0x22] @ concat (map json_escape s) @ [CHR 0x22]"

definition allocationDirOf :: "env \<Rightarrow> string \<Rightarrow> exn + string" where
  "allocationDirOf env a =
     (if \<not> valid_allocation_id a
      then Inl (Prov ''invalid_allocation_id''
        (''allocationId '' @ json_quote a @ '' is not a valid directory name'') False)
      else Inr (resolve_name (allocationsDir env) a))"

definition unit_name :: "int \<Rightarrow> string" where
  "unit_name g = UNIT_DIR_PREFIX @ string_of_int g"

text \<open>A path in the code is a pair here, the allocation's directory and the unit's name in it.\<close>

definition unitDirOf :: "env \<Rightarrow> string \<Rightarrow> int \<Rightarrow> exn + string \<times> string" where
  "unitDirOf env a g =
     (case allocationDirOf env a of Inl e \<Rightarrow> Inl e | Inr d \<Rightarrow> Inr (d, unit_name g))"

definition lift_result :: "exn + 'a \<Rightarrow> (host, exn, 'a) comp" where
  "lift_result r = (case r of Inl e \<Rightarrow> throwE e | Inr x \<Rightarrow> returnE x)"

definition operationalFailure :: "env \<Rightarrow> exn \<Rightarrow> string \<Rightarrow> string \<Rightarrow> exn" where
  "operationalFailure env e code message =
     (case e of
        Prov _ _ _ \<Rightarrow> e
      | _ \<Rightarrow> Prov code (message @ '': '' @ describe env e @ '' ('' @ refId env e @ '')'') True)"

definition or_fail :: "env \<Rightarrow> string \<Rightarrow> string \<Rightarrow> (host, exn, 'a) comp \<Rightarrow> (host, exn, 'a) comp" where
  "or_fail env code message m = catchE m (\<lambda>e. throwE (operationalFailure env e code message))"


section \<open>Units on disk\<close>

definition entries :: "host \<Rightarrow> string \<Rightarrow> dir_entries option" where
  "entries h d = map_of (dirs h) d"

definition set_entry :: "string \<Rightarrow> string \<Rightarrow> string option \<Rightarrow> host \<Rightarrow> host" where
  "set_entry d n v h =
     h\<lparr>dirs := AList.update d
        (AList.update n v (case entries h d of None \<Rightarrow> [] | Some es \<Rightarrow> es)) (dirs h)\<rparr>"

text \<open>\<open>mkdir\<close> with \<open>recursive\<close> leaves what is there alone.\<close>

definition make_unit_dir :: "string \<Rightarrow> string \<Rightarrow> host \<Rightarrow> host" where
  "make_unit_dir d n h =
     (case entries h d of
        None \<Rightarrow> set_entry d n None h
      | Some es \<Rightarrow> (case map_of es n of None \<Rightarrow> set_entry d n None h | Some _ \<Rightarrow> h))"

text \<open>\<open>rm\<close> with \<open>recursive\<close> and \<open>force\<close>, and the plain \<open>rmdir\<close> of the allocation's directory.\<close>

definition remove_unit_dir :: "string \<Rightarrow> string \<Rightarrow> host \<Rightarrow> host" where
  "remove_unit_dir d n h =
     (case entries h d of
        None \<Rightarrow> h
      | Some es \<Rightarrow> h\<lparr>dirs := AList.update d (AList.delete n es) (dirs h)\<rparr>)"

definition rmdir :: "env \<Rightarrow> string \<Rightarrow> (host, exn, unit) comp" where
  "rmdir env d = sys env (RemoveDir d) (\<lambda>h.
     (case entries h d of
        None \<Rightarrow> (Inl (Sys ENOENT), h)
      | Some [] \<Rightarrow> (Inr (), h\<lparr>dirs := AList.delete d (dirs h)\<rparr>)
      | Some _ \<Rightarrow> (Inl (Sys ENOTEMPTY), h)))"

definition ignoreNonEmptyOrMissing :: "exn \<Rightarrow> (host, exn, unit) comp" where
  "ignoreNonEmptyOrMissing e =
     (if e \<in> {Sys ENOTEMPTY, Sys EEXIST, Sys ENOENT} then returnE () else throwE e)"

definition readPidFile :: "env \<Rightarrow> string \<Rightarrow> string \<Rightarrow> (host, exn, int option) comp" where
  "readPidFile env d n h =
     (case (case sys_fails env (clock h) (ReadPid (d @ ''/'' @ n)) of
              Some e \<Rightarrow> Inl e
            | None \<Rightarrow> (case Option.bind (entries h d) (\<lambda>es. Option.bind (map_of es n) id) of
                None \<Rightarrow> Inl ENOENT | Some raw \<Rightarrow> Inr raw)) of
        Inl ENOENT \<Rightarrow> (Inr None, h)
      | Inl e \<Rightarrow>
          (Inl (operationalFailure env (Sys e) ''pid_file_read_failed''
             (''unable to read the pid file under '' @ d @ ''/'' @ n)), h)
      | Inr raw \<Rightarrow>
          (Inr (case js_Number (trim raw) of
                  JInt pid \<Rightarrow> if pid > 0 then Some pid else None
                | JNonInt \<Rightarrow> None), h))"

section \<open>Starting, stopping and finding units\<close>

record ensure_request =
  rAllocationId :: string
  rSidecarId :: string
  rGeneration :: js_number
  rToken :: string
  rHubWebSocketUrl :: string

record destroy_request =
  dAllocationId :: string
  dSidecarId :: string
  dGeneration :: js_number
  dExternalRef :: "string option"

text \<open>The environment of a sidecar, in the order the object literal has its keys.\<close>

definition sidecarEnvFor ::
  "env \<Rightarrow> ensure_request \<Rightarrow> string \<Rightarrow> exn + (string \<times> string) list" where
  "sidecarEnvFor env r dataDir =
     (case hub_env env ''PATH'' of
        None \<Rightarrow> Inl (Prov ''missing_path'' ''the hub process has no PATH to forward; a spawned sidecar cannot resolve its runtime'' False)
      | Some path \<Rightarrow>
          if path = [] then Inl (Prov ''missing_path'' ''the hub process has no PATH to forward; a spawned sidecar cannot resolve its runtime'' False)
          else
            Inr ([(''SIDECAR_DATA_DIR'', dataDir), (''HUB_WS_URL'', rHubWebSocketUrl r),
                  (''SIDECAR_ID'', rSidecarId r), (''SIDECAR_TOKEN'', rToken r),
                  (''SIDECAR_CREDENTIAL_ENCRYPTION_KEY'', credential_key env), (''PATH'', path)]
               @ concat (map (\<lambda>k. case hub_env env k of None \<Rightarrow> [] | Some v \<Rightarrow> [(k, v)])
                   [''HOME'', ''TMPDIR'', ''SIDECAR_ADAPTER_MANIFEST''])))"

definition startUnit :: "env \<Rightarrow> ensure_request \<Rightarrow> int \<Rightarrow> (host, exn, string) comp" where
  "startUnit env r g =
     bindE (lift_result (unitDirOf env (rAllocationId r) g)) (\<lambda>(d, n).
     bindE (lift_result (sidecarEnvFor env r (d @ ''/'' @ n @ ''/data''))) (\<lambda>_.
     bindE (or_fail env ''allocation_dir_failed'' (''unable to create unit directory '' @ d @ ''/'' @ n)
       (sys env (MkdirUnit (d @ ''/'' @ n)) (modifyE (make_unit_dir d n)))) (\<lambda>_.
     bindE (or_fail env ''sidecar_spawn_failed'' (''unable to spawn '' @ sidecarEntryPath env) (spawn env)) (\<lambda>pid.
     bindE
       (catchE (sys env (WritePid (d @ ''/'' @ n))
          (modifyE (set_entry d n (Some (string_of_int pid @ [CHR 0x0A])))))
        (\<lambda>e. bindE (terminate_unit env pid) (\<lambda>_.
          throwE (operationalFailure env e ''pid_file_write_failed''
            (''unable to record pid '' @ string_of_int pid @ '' for allocation '' @ rAllocationId r))))) (\<lambda>_.
     returnE (externalRefOf (rAllocationId r) g pid))))))"

definition clean_unit :: "env \<Rightarrow> string \<Rightarrow> int \<Rightarrow> (host, exn, unit) comp" where
  "clean_unit env a g =
     bindE (lift_result (unitDirOf env a g)) (\<lambda>(d, n).
     or_fail env ''allocation_dir_cleanup_failed'' (''unable to remove unit directory '' @ d @ ''/'' @ n)
       (bindE (sys env (RemoveUnit (d @ ''/'' @ n)) (modifyE (remove_unit_dir d n))) (\<lambda>_.
        catchE (bindE (lift_result (allocationDirOf env a)) (rmdir env)) ignoreNonEmptyOrMissing)))"

definition stopUnit :: "env \<Rightarrow> string \<Rightarrow> (host, exn, unit) comp" where
  "stopUnit env ref =
     (case parseExternalRef ref of
        None \<Rightarrow> throwE (Prov ''invalid_external_ref''
          (''external ref '' @ json_quote ref @ '' is not <allocationId>:<generation>:<pid>'') False)
      | Some (a, g, pid) \<Rightarrow>
          bindE (or_fail env ''sidecar_terminate_failed'' (''unable to terminate pid '' @ string_of_int pid)
            (terminate_unit env pid)) (\<lambda>_.
          clean_unit env a g))"

text \<open>The loop over the directory's entries.\<close>

fun collect_units :: "env \<Rightarrow> string \<Rightarrow> string \<Rightarrow> string list \<Rightarrow> (host, exn, string list) comp" where
  "collect_units env a d [] = returnE []"
| "collect_units env a d (n # ns) =
     (case generationOf n of
        None \<Rightarrow> collect_units env a d ns
      | Some g \<Rightarrow>
          bindE (readPidFile env d n) (\<lambda>pid.
          case pid of
            None \<Rightarrow> collect_units env a d ns
          | Some p \<Rightarrow>
              bindE (isAlive p) (\<lambda>up.
              bindE (collect_units env a d ns) (\<lambda>refs.
              returnE (if up then externalRefOf a g p # refs else refs)))))"

definition findUnitsByAllocation :: "env \<Rightarrow> string \<Rightarrow> (host, exn, string list) comp" where
  "findUnitsByAllocation env a =
     bindE (lift_result (allocationDirOf env a)) (\<lambda>d.
     bindE (\<lambda>h. (case sys_fails env (clock h) (ReadDir d) of
          Some ENOENT \<Rightarrow> (Inr [], h)
        | Some e \<Rightarrow> (Inl (operationalFailure env (Sys e) ''allocation_dir_read_failed''
            (''unable to list units under '' @ d)), h)
        | None \<Rightarrow> (Inr (case entries h d of None \<Rightarrow> [] | Some es \<Rightarrow> map fst es), h))) (\<lambda>names.
     collect_units env a d names))"

fun stop_each :: "env \<Rightarrow> string list \<Rightarrow> (host, exn, unit) comp" where
  "stop_each env [] = returnE ()"
| "stop_each env (r # rs) =
     bindE (catchE (stopUnit env r) (\<lambda>_. returnE ())) (\<lambda>_. stop_each env rs)"

definition sweepObsoleteUnits :: "env \<Rightarrow> string \<Rightarrow> string \<Rightarrow> (host, exn, unit) comp" where
  "sweepObsoleteUnits env a keep =
     bindE (findUnitsByAllocation env a) (\<lambda>refs.
     stop_each env (filter (\<lambda>r. r \<noteq> keep) refs))"

section \<open>ensure and destroy\<close>

datatype ensure_result =
    Accepted string
  | ERejected string string bool

datatype destroy_result =
    CleanupConfirmed
  | DRejected string string bool

definition validateEnsureRequest :: "ensure_request \<Rightarrow> string option" where
  "validateEnsureRequest r =
     (if rAllocationId r = [] then Some ''allocationId must not be empty''
      else if rSidecarId r = [] then Some ''sidecarId must not be empty''
      else if rToken r = [] then Some ''token must not be empty''
      else if rHubWebSocketUrl r = [] then Some ''hubWebSocketUrl must not be empty''
      else (case rGeneration r of
              JInt g \<Rightarrow> if g < 0 then Some ''generation must be a non-negative integer'' else None
            | JNonInt \<Rightarrow> Some ''generation must be a non-negative integer''))"

definition validateDestroyRequest :: "destroy_request \<Rightarrow> string option" where
  "validateDestroyRequest r =
     (if dAllocationId r = [] then Some ''allocationId must not be empty''
      else if dSidecarId r = [] then Some ''sidecarId must not be empty''
      else (case dGeneration r of
              JInt g \<Rightarrow> if g < 0 then Some ''generation must be a non-negative integer'' else None
            | JNonInt \<Rightarrow> Some ''generation must be a non-negative integer''))"

fun int_of :: "js_number \<Rightarrow> int" where
  "int_of (JInt i) = i"
| "int_of JNonInt = 0"

fun reject_text :: "reject_code \<Rightarrow> string" where
  "reject_text StaleGeneration = ''stale_generation''"
| "reject_text GenerationDestroyed = ''generation_destroyed''"
| "reject_text RequestConflict = ''request_conflict''"

fun classify :: "env \<Rightarrow> exn \<Rightarrow> string \<Rightarrow> string \<times> string \<times> bool" where
  "classify env (Prov code msg retry) dflt = (code, msg, retry)"
| "classify env e dflt = (dflt, describe env e, True)"

text \<open>
  The three stretches of \<open>ensureOnce\<close> between which other calls can run: the observation,
  the start, and the recording with the sweep. \<open>None\<close> is a unit still to be started.
\<close>

definition observe_unit :: "env \<Rightarrow> ensure_request \<Rightarrow> (host, exn, ensure_result option) comp" where
  "observe_unit env r =
     (case validateEnsureRequest r of
        Some msg \<Rightarrow> returnE (Some (ERejected ''invalid_ensure_request'' msg False))
      | None \<Rightarrow>
          bindE (getsE (\<lambda>h. toISOString env (clock h))) (\<lambda>now.
          bindE (with_store (observeEnsure (store_faults env) now (rAllocationId r) (rSidecarId r)
            (int_of (rGeneration r)))) (\<lambda>observation.
          case observation of
            ORejected code msg \<Rightarrow> returnE (Some (ERejected (reject_text code) msg False))
          | Observed record \<Rightarrow>
              (case externalRef record of
                 None \<Rightarrow> returnE None
               | Some ref \<Rightarrow>
                   bindE (sweepObsoleteUnits env (rAllocationId r) ref) (\<lambda>_.
                   returnE (Some (Accepted ref)))))))"

definition start_unit :: "env \<Rightarrow> ensure_request \<Rightarrow> (host, exn, ensure_result + string) comp" where
  "start_unit env r =
     catchE (bindE (startUnit env r (int_of (rGeneration r))) (\<lambda>ref. returnE (Inr ref)))
       (\<lambda>e. case classify env e ''start_unit_failed'' of (code, msg, retry) \<Rightarrow>
          returnE (Inl (ERejected code msg retry)))"

definition record_unit :: "env \<Rightarrow> ensure_request \<Rightarrow> string \<Rightarrow> (host, exn, ensure_result) comp" where
  "record_unit env r ref =
     bindE (getsE (\<lambda>h. toISOString env (clock h))) (\<lambda>now.
     bindE (with_store (recordUnit (store_faults env) now (rAllocationId r) (int_of (rGeneration r)) ref)) (\<lambda>recorded.
     if \<not> recorded then
       bindE (stopUnit env ref) (\<lambda>_.
       returnE (ERejected ''stale_generation''
         (''Generation '' @ string_of_int (int_of (rGeneration r)) @ '' was superseded while the unit was starting'')
         False))
     else
       bindE (sweepObsoleteUnits env (rAllocationId r) ref) (\<lambda>_.
       returnE (Accepted ref))))"

text \<open>\<open>meanwhile\<close> is what other calls do to the host between the start and the recording.\<close>

definition ensureOnce :: "env \<Rightarrow> (host \<Rightarrow> host) \<Rightarrow> ensure_request \<Rightarrow> (host, exn, ensure_result) comp" where
  "ensureOnce env meanwhile r =
     bindE (observe_unit env r) (\<lambda>observed.
     case observed of
       Some answer \<Rightarrow> returnE answer
     | None \<Rightarrow>
         bindE (start_unit env r) (\<lambda>started.
         case started of
           Inl answer \<Rightarrow> returnE answer
         | Inr ref \<Rightarrow> bindE (modifyE meanwhile) (\<lambda>_. record_unit env r ref)))"

fun stop_all :: "env \<Rightarrow> string list \<Rightarrow> (host, exn, destroy_result option) comp" where
  "stop_all env [] = returnE None"
| "stop_all env (r # rs) =
     bindE (catchE (bindE (stopUnit env r) (\<lambda>_. returnE None))
       (\<lambda>e. case classify env e ''destroy_unit_failed'' of (code, msg, retry) \<Rightarrow>
          returnE (Some (DRejected code msg retry)))) (\<lambda>answer.
     case answer of Some d \<Rightarrow> returnE (Some d) | None \<Rightarrow> stop_all env rs)"

text \<open>The references go through a \<open>Set\<close>, which keeps the first of equal ones.\<close>

definition js_set :: "'a list \<Rightarrow> 'a list" where
  "js_set xs = rev (remdups (rev xs))"

definition destroy_unit :: "env \<Rightarrow> destroy_request \<Rightarrow> (host, exn, destroy_result) comp" where
  "destroy_unit env r =
     (case validateDestroyRequest r of
        Some msg \<Rightarrow> returnE (DRejected ''invalid_destroy_request'' msg False)
      | None \<Rightarrow>
          bindE (getsE (\<lambda>h. toISOString env (clock h))) (\<lambda>now.
          bindE (with_store (observeDestroy (store_faults env) now (dAllocationId r) (dSidecarId r)
            (int_of (dGeneration r)))) (\<lambda>observation.
          case observation of
            ORejected code msg \<Rightarrow> returnE (DRejected (reject_text code) msg False)
          | Observed record \<Rightarrow>
              bindE (case dExternalRef r of
                       Some ref \<Rightarrow> returnE [ref]
                     | None \<Rightarrow>
                         (case externalRef record of
                            Some ref \<Rightarrow> returnE [ref]
                          | None \<Rightarrow> findUnitsByAllocation env (dAllocationId r))) (\<lambda>refs.
              bindE (stop_all env (js_set refs)) (\<lambda>failed.
              returnE (case failed of Some d \<Rightarrow> d | None \<Rightarrow> CleanupConfirmed))))))"


section \<open>What stopping never does\<close>

text \<open>
  \<open>calm\<close> is what every step other than starting a unit and calling the store keeps: time
  does not run back, the store is not touched, and no process comes up.
\<close>

definition calm :: "host \<Rightarrow> host \<Rightarrow> bool" where
  "calm h h' \<longleftrightarrow> clock h \<le> clock h' \<and> store h' = store h \<and>
     (\<forall>p. running h' p \<longrightarrow> running h p) \<and>
     (\<forall>p. map_option owned (map_of (procs h') p) = map_option owned (map_of (procs h) p))"

definition calmE :: "(host, exn, 'a) comp \<Rightarrow> bool" where
  "calmE m \<longleftrightarrow> (\<forall>h r h'. m h = (r, h') \<longrightarrow> calm h h')"

named_theorems calm_rules "computations that start nothing"

lemma calm_refl [simp]: "calm h h"
  by (simp add: calm_def)

lemma calm_trans: "calm h h' \<Longrightarrow> calm h' h'' \<Longrightarrow> calm h h''"
  by (auto simp: calm_def)

lemma calmE_D: "calmE m \<Longrightarrow> m h = (r, h') \<Longrightarrow> calm h h'"
  by (simp add: calmE_def)

lemma calm_not_running: "calm h h' \<Longrightarrow> \<not> running h p \<Longrightarrow> \<not> running h' p"
  by (auto simp: calm_def)

lemma calmE_return [calm_rules]: "calmE (returnE x)"
  by (simp add: calmE_def monad_defs)

lemma calmE_throw [calm_rules]: "calmE (throwE e)"
  by (simp add: calmE_def monad_defs)

lemma calmE_gets [calm_rules]: "calmE (getsE f)"
  by (simp add: calmE_def monad_defs)

lemma calmE_bind [calm_rules]:
  assumes "calmE m" and "\<And>x. calmE (f x)"
  shows "calmE (bindE m f)"
  unfolding calmE_def
proof (intro allI impI)
  fix h r h' assume run: "bindE m f h = (r, h')"
  obtain r1 h1 where 1: "m h = (r1, h1)" by (cases "m h")
  with assms(1) have "calm h h1" by (blast dest: calmE_D)
  moreover have "calm h1 h'"
    using run 1 assms(2) by (cases r1) (auto simp: bindE_def dest: calmE_D)
  ultimately show "calm h h'" by (rule calm_trans)
qed

lemma calmE_catch [calm_rules]:
  assumes "calmE m" and "\<And>e. calmE (f e)"
  shows "calmE (catchE m f)"
  unfolding calmE_def
proof (intro allI impI)
  fix h r h' assume run: "catchE m f h = (r, h')"
  obtain r1 h1 where 1: "m h = (r1, h1)" by (cases "m h")
  with assms(1) have "calm h h1" by (blast dest: calmE_D)
  moreover have "calm h1 h'"
    using run 1 assms(2) by (cases r1) (auto simp: catchE_def dest: calmE_D)
  ultimately show "calm h h'" by (rule calm_trans)
qed

lemma calmE_if [calm_rules]: "(b \<Longrightarrow> calmE m) \<Longrightarrow> (\<not> b \<Longrightarrow> calmE n) \<Longrightarrow> calmE (if b then m else n)"
  by simp

lemma calmE_option [calm_rules]:
  "calmE m \<Longrightarrow> (\<And>x. calmE (f x)) \<Longrightarrow> calmE (case v of None \<Rightarrow> m | Some x \<Rightarrow> f x)"
  by (cases v) auto

lemma calmE_prod [calm_rules]: "(\<And>x y. calmE (f x y)) \<Longrightarrow> calmE (case v of (x, y) \<Rightarrow> f x y)"
  by (cases v) auto

lemma calmE_sys [calm_rules]: "calmE m \<Longrightarrow> calmE (sys env c m)"
  by (auto simp: calmE_def sys_def split: option.splits)

lemma calmE_lift [calm_rules]: "calmE (lift_result r)"
  by (cases r) (auto simp: lift_result_def intro: calm_rules)

lemma or_fail_Inr: "or_fail env c msg m h = (Inr x, h') \<longleftrightarrow> m h = (Inr x, h')"
  by (auto simp: or_fail_def catchE_def throwE_def split: prod.splits sum.splits)

lemma calmE_or_fail [calm_rules]: "calmE m \<Longrightarrow> calmE (or_fail env c msg m)"
  by (auto simp: or_fail_def intro: calm_rules)

lemma calmE_modify: "(\<And>h. calm h (f h)) \<Longrightarrow> calmE (modifyE f)"
  by (auto simp: calmE_def monad_defs)

lemma isAlive_running: "isAlive p h = (Inr (running h p), h)"
  by (auto simp: isAlive_def kill_error_def)

lemma calmE_isAlive [calm_rules]: "calmE (isAlive p)"
  by (simp add: calmE_def isAlive_running)

lemma calm_dirs [simp]: "calm h (h\<lparr>dirs := ds\<rparr>)"
  by (simp add: calm_def running_def split: option.splits)

lemma calmE_dirs [calm_rules]:
  "calmE (modifyE (make_unit_dir d n))" "calmE (modifyE (set_entry d n v))"
  "calmE (modifyE (remove_unit_dir d n))"
  by (auto intro!: calmE_modify simp: make_unit_dir_def set_entry_def remove_unit_dir_def split: option.splits)

lemma calmE_rmdir [calm_rules]: "calmE (rmdir env d)"
  unfolding rmdir_def
  by (rule calmE_sys) (auto simp: calmE_def split: option.splits list.splits)

lemma calm_signal:
  assumes "map_of (procs h) pid = Some p" and "running h pid"
  shows "calm h (h\<lparr>procs := AList.update pid (signal_effect env sg (clock h) pid p) (procs h)\<rparr>)"
  using assms by (cases sg) (auto simp: calm_def running_def exit_by_def split: option.splits)


text \<open>Waiting lets time pass; the deadline and the lateness of timers bound how much.\<close>

lemma calm_sleep: "calm h (sleep_poll env h)"
  by (auto simp: calm_def running_def sleep_poll_def TERMINATION_POLL_MS_def split: option.splits)

lemma await_exit_calm: "calm h (await_exit env pid deadline h)"
proof (induction env pid deadline h rule: await_exit.induct)
  case (1 env pid deadline h)
  then show ?case
    by (subst await_exit.simps) (auto intro: calm_trans calm_sleep)
qed

lemma await_exit_done:
  "\<not> (running (await_exit env pid deadline h) pid \<and> clock (await_exit env pid deadline h) < deadline)"
proof (induction env pid deadline h rule: await_exit.induct)
  case (1 env pid deadline h)
  then show ?case by (subst (1 2) await_exit.simps) auto
qed

lemma await_exit_bound:
  assumes "\<And>t. late env t \<le> M"
  shows "clock (await_exit env pid deadline h)
    \<le> max (clock h) (deadline + TERMINATION_POLL_MS + int M)"
  using assms
proof (induction env pid deadline h rule: await_exit.induct)
  case (1 env pid deadline h)
  have "int (late env (clock h)) \<le> int M" by (simp add: 1)
  with 1 show ?case by (subst await_exit.simps) (auto simp: sleep_poll_def)
qed

lemma await_exit_procs: "procs (await_exit env pid deadline h) = procs h"
  by (induction env pid deadline h rule: await_exit.induct)
    (subst await_exit.simps, auto simp: sleep_poll_def)


lemma kill_error_None: "kill_error h pid = None \<longleftrightarrow> (\<exists>p. map_of (procs h) pid = Some p \<and> owned p \<and> running h pid)"
  by (auto simp: kill_error_def running_def split: option.splits)

lemma calmE_signal [calm_rules]: "calmE (send_signal env pid sg)"
  unfolding calmE_def send_signal_def
  by (auto split: option.splits simp: kill_error_None intro: calm_signal)

lemma calmE_terminate [calm_rules]: "calmE (terminate_unit env pid)"
  unfolding terminate_unit_def
  by (intro calm_rules calmE_modify await_exit_calm)

lemma calmE_ignore [calm_rules]: "calmE (ignoreNonEmptyOrMissing e)"
  unfolding ignoreNonEmptyOrMissing_def by (intro calm_rules)

lemma calmE_clean_unit [calm_rules]: "calmE (clean_unit env a g)"
  unfolding clean_unit_def by (intro calm_rules)

lemma calmE_stopUnit [calm_rules]: "calmE (stopUnit env ref)"
  unfolding stopUnit_def by (intro calm_rules)

lemma readPidFile_same: "readPidFile env d n h = (r, h') \<Longrightarrow> h' = h"
  by (auto simp: readPidFile_def split: sum.splits errno.splits)

lemma calmE_readPidFile [calm_rules]: "calmE (readPidFile env d n)"
  by (auto simp: calmE_def dest: readPidFile_same)

lemma collect_units_same: "collect_units env a d ns h = (r, h') \<Longrightarrow> h' = h"
  by (induction env a d ns arbitrary: r h' rule: collect_units.induct)
    (auto simp: monad_defs isAlive_running dest: readPidFile_same
      split: option.splits prod.splits sum.splits)

lemma findUnits_same: "findUnitsByAllocation env a h = (r, h') \<Longrightarrow> h' = h"
  by (auto simp: findUnitsByAllocation_def lift_result_def monad_defs
      dest: collect_units_same split: option.splits prod.splits sum.splits errno.splits)

lemma calmE_findUnits [calm_rules]: "calmE (findUnitsByAllocation env a)"
  by (auto simp: calmE_def dest: findUnits_same)

lemma calmE_stop_each [calm_rules]: "calmE (stop_each env refs)"
  by (induction refs) (simp_all add: calm_rules)

lemma calmE_sweep [calm_rules]: "calmE (sweepObsoleteUnits env a keep)"
  unfolding sweepObsoleteUnits_def by (intro calm_rules)

lemma calmE_stop_all [calm_rules]: "calmE (stop_all env refs)"
proof (induction refs)
  case Nil
  then show ?case by (simp add: calm_rules)
next
  case (Cons r rs)
  then show ?case unfolding stop_all.simps by (intro calm_rules)
qed

subsection \<open>What stopping does\<close>

text \<open>
  Terminating a process that exists and is the hub's own always succeeds; whenever it
  succeeds the process is gone, and no other process was touched.
\<close>

lemma await_exit_dirs: "dirs (await_exit env pid deadline h) = dirs h"
  by (induction env pid deadline h rule: await_exit.induct)
    (subst await_exit.simps, auto simp: sleep_poll_def)

lemma terminate_run:
  assumes "running h pid" and "map_of (procs h) pid = Some p" and "owned p"
  obtains h1 where
    "h1 = await_exit env pid (clock h + TERMINATION_GRACE_MS)
       (h\<lparr>procs := AList.update pid (signal_effect env SIGTERM (clock h) pid p) (procs h)\<rparr>)"
    and "map_of (procs h1) pid = Some (signal_effect env SIGTERM (clock h) pid p)"
    and "terminate_unit env pid h =
      (if running h1 pid
       then (Inr (), h1\<lparr>procs := AList.update pid
          (exit_by (clock h1) (signal_effect env SIGTERM (clock h) pid p)) (procs h1)\<rparr>)
       else (Inr (), h1))"
proof -
  let ?p = "signal_effect env SIGTERM (clock h) pid p"
  let ?h = "h\<lparr>procs := AList.update pid ?p (procs h)\<rparr>"
  let ?w = "await_exit env pid (clock h + TERMINATION_GRACE_MS) ?h"
  have own: "owned ?p" using assms(3) by (simp add: exit_by_def split: option.splits)
  have lookup: "map_of (procs ?w) pid = Some ?p" by (simp add: await_exit_procs)
  have sig: "send_signal env pid SIGTERM h = (Inr (), ?h)"
    using assms by (simp add: send_signal_def kill_error_def)
  have "terminate_unit env pid h =
      (if running ?w pid
       then (Inr (), ?w\<lparr>procs := AList.update pid (exit_by (clock ?w) ?p) (procs ?w)\<rparr>)
       else (Inr (), ?w))"
    using assms own lookup
    by (simp add: terminate_unit_def bindE_def isAlive_running sig getsE_def modifyE_def returnE_def)
      (simp add: send_signal_def kill_error_def)
  with lookup show ?thesis by (blast intro: that)
qed

lemma killed_not_running: "\<not> running (h\<lparr>procs := AList.update pid (exit_by (clock h) q) ps\<rparr>) pid"
  by (simp add: running_def exit_by_def split: option.splits)

lemma terminate_result:
  assumes "terminate_unit env pid h = (r, h')"
  shows "r = Inr () \<Longrightarrow> \<not> running h' pid"
    and "running h pid \<Longrightarrow> owned (the (map_of (procs h) pid)) \<Longrightarrow> r = Inr ()"
    and "\<not> running h pid \<Longrightarrow> r = Inr () \<and> h' = h"
    and "p \<noteq> pid \<Longrightarrow> map_of (procs h') p = map_of (procs h) p"
    and "dirs h' = dirs h"
    and "(\<And>t. late env t \<le> M) \<Longrightarrow>
      clock h' \<le> clock h + TERMINATION_GRACE_MS + TERMINATION_POLL_MS + int M"
proof -
  have "(r = Inr () \<longrightarrow> \<not> running h' pid) \<and>
    (running h pid \<longrightarrow> owned (the (map_of (procs h) pid)) \<longrightarrow> r = Inr ()) \<and>
    (\<not> running h pid \<longrightarrow> r = Inr () \<and> h' = h) \<and>
    (p \<noteq> pid \<longrightarrow> map_of (procs h') p = map_of (procs h) p) \<and> dirs h' = dirs h \<and>
    ((\<forall>t. late env t \<le> M) \<longrightarrow>
      clock h' \<le> clock h + TERMINATION_GRACE_MS + TERMINATION_POLL_MS + int M)"
  proof (cases "running h pid")
    case False
    with assms have "r = Inr ()" "h' = h"
      by (simp_all add: terminate_unit_def bindE_def isAlive_running returnE_def)
    with False show ?thesis by (simp add: TERMINATION_GRACE_MS_def TERMINATION_POLL_MS_def)
  next
    case up: True
    then obtain p0 where p0: "map_of (procs h) pid = Some p0" by (auto simp: running_def split: option.splits)
    show ?thesis
    proof (cases "owned p0")
      case False
      with up p0 assms have "h' = h" "r \<noteq> Inr ()"
        by (auto simp: terminate_unit_def bindE_def isAlive_running send_signal_def kill_error_def)
      with up p0 False show ?thesis by (simp add: TERMINATION_GRACE_MS_def TERMINATION_POLL_MS_def)
    next
      case True
      obtain h1 where h1: "h1 = await_exit env pid (clock h + TERMINATION_GRACE_MS)
          (h\<lparr>procs := AList.update pid (signal_effect env SIGTERM (clock h) pid p0) (procs h)\<rparr>)"
        and l: "map_of (procs h1) pid = Some (signal_effect env SIGTERM (clock h) pid p0)"
        and t: "terminate_unit env pid h =
          (if running h1 pid
           then (Inr (), h1\<lparr>procs := AList.update pid
              (exit_by (clock h1) (signal_effect env SIGTERM (clock h) pid p0)) (procs h1)\<rparr>)
           else (Inr (), h1))"
        using terminate_run [OF up p0 True] by blast
      have bound: "clock h1 \<le> clock h + TERMINATION_GRACE_MS + TERMINATION_POLL_MS + int M"
        if "\<forall>t. late env t \<le> M"
        using await_exit_bound [of env M pid "clock h + TERMINATION_GRACE_MS"
            "h\<lparr>procs := AList.update pid (signal_effect env SIGTERM (clock h) pid p0) (procs h)\<rparr>"] that
        unfolding h1 by (auto simp: TERMINATION_GRACE_MS_def TERMINATION_POLL_MS_def)
      have same: "dirs h1 = dirs h"
        "procs h1 = AList.update pid (signal_effect env SIGTERM (clock h) pid p0) (procs h)"
        by (simp_all add: h1 await_exit_dirs await_exit_procs)
      have res: "r = Inr ()" and eff: "dirs h' = dirs h1" "clock h' = clock h1"
          "p \<noteq> pid \<longrightarrow> map_of (procs h') p = map_of (procs h1) p"
        using t assms by (auto split: if_splits)
      have "\<not> running h' pid"
        using t assms killed_not_running [of pid h1]
        by (cases "running h1 pid") (auto simp del: signal_effect.simps)
      with up res eff same bound show ?thesis by simp
    qed
  qed
  then show "r = Inr () \<Longrightarrow> \<not> running h' pid"
    and "running h pid \<Longrightarrow> owned (the (map_of (procs h) pid)) \<Longrightarrow> r = Inr ()"
    and "\<not> running h pid \<Longrightarrow> r = Inr () \<and> h' = h"
    and "p \<noteq> pid \<Longrightarrow> map_of (procs h') p = map_of (procs h) p"
    and "dirs h' = dirs h"
    and "(\<And>t. late env t \<le> M) \<Longrightarrow>
      clock h' \<le> clock h + TERMINATION_GRACE_MS + TERMINATION_POLL_MS + int M"
    by blast+
qed

text \<open>A stop that returns has ended the process its reference names, by its own pid.\<close>

lemma stopUnit_ends:
  assumes "stopUnit env ref h = (Inr u, h')" and "parseExternalRef ref = Some (a, g, pid)"
  shows "\<not> running h' pid"
proof -
  obtain h1 where t: "terminate_unit env pid h = (Inr (), h1)" and rest: "clean_unit env a g h1 = (Inr u, h')"
    using assms by (auto simp: stopUnit_def bindE_Inr_iff or_fail_Inr)
  have "calm h1 h'" by (rule calmE_D [OF calmE_clean_unit rest])
  with terminate_result(1) [OF t] show ?thesis by (auto dest: calm_not_running)
qed

lemma stop_all_ends:
  assumes "stop_all env refs h = (Inr None, h')" and "ref \<in> set refs"
    and "parseExternalRef ref = Some (a, g, pid)"
  shows "\<not> running h' pid"
  using assms
proof (induction refs arbitrary: h)
  case Nil
  then show ?case by simp
next
  case (Cons r rs)
  from Cons.prems(1) obtain h1 where s: "stopUnit env r h = (Inr (), h1)"
    and rest: "stop_all env rs h1 = (Inr None, h')"
    by (auto simp: bindE_def catchE_def returnE_def split: prod.splits sum.splits option.splits)
  show ?case
  proof (cases "ref = r")
    case True
    with s Cons.prems(3) have "\<not> running h1 pid" by (auto dest: stopUnit_ends)
    moreover have "calm h1 h'" using rest by (rule calmE_D [rotated]) (rule calm_rules)
    ultimately show ?thesis by (auto dest: calm_not_running)
  next
    case False
    with Cons rest show ?thesis by simp
  qed
qed


section \<open>Concurrent calls of \<open>ensure\<close>\<close>

text \<open>
  Several \<open>ensure\<close> calls in progress: each is between two of its awaits. A call that finds
  another registered for its allocation waits for that one and then runs \<open>ensureOnce\<close>
  itself, without registering; a registered call unregisters when it settles.
\<close>

datatype call_state =
    CWaiting nat
  | CObserve
  | CStart
  | CRecord string
  | CDone "exn + ensure_result"

record system =
  host_of :: host
  inFlight :: "(string \<times> nat) list"
  calls :: "(ensure_request \<times> call_state) list"

definition ensure_call :: "ensure_request \<Rightarrow> system \<Rightarrow> system" where
  "ensure_call r s =
     (case map_of (inFlight s) (rAllocationId r) of
        Some i \<Rightarrow> s\<lparr>calls := calls s @ [(r, CWaiting i)]\<rparr>
      | None \<Rightarrow> s\<lparr>calls := calls s @ [(r, CObserve)],
                 inFlight := AList.update (rAllocationId r) (length (calls s)) (inFlight s)\<rparr>)"

definition set_call :: "nat \<Rightarrow> ensure_request \<Rightarrow> call_state \<Rightarrow> host \<Rightarrow> system \<Rightarrow> system" where
  "set_call i r c h s =
     s\<lparr>host_of := h, calls := (calls s)[i := (r, c)],
       inFlight := (case c of
          CDone _ \<Rightarrow> if map_of (inFlight s) (rAllocationId r) = Some i
                    then AList.delete (rAllocationId r) (inFlight s) else inFlight s
        | _ \<Rightarrow> inFlight s)\<rparr>"

definition call_next :: "env \<Rightarrow> (ensure_request \<times> call_state) list \<Rightarrow> ensure_request \<Rightarrow> call_state
    \<Rightarrow> host \<Rightarrow> call_state \<times> host" where
  "call_next env cs r c h =
     (case c of
        CWaiting j \<Rightarrow>
          (if j < length cs
           then (case snd (cs ! j) of
                   CDone (Inl e) \<Rightarrow> (CDone (Inl e), h)
                 | CDone (Inr _) \<Rightarrow> (CObserve, h)
                 | _ \<Rightarrow> (c, h))
           else (c, h))
      | CObserve \<Rightarrow>
          (case observe_unit env r h of
             (Inl e, h') \<Rightarrow> (CDone (Inl e), h')
           | (Inr (Some a), h') \<Rightarrow> (CDone (Inr a), h')
           | (Inr None, h') \<Rightarrow> (CStart, h'))
      | CStart \<Rightarrow>
          (case start_unit env r h of
             (Inl e, h') \<Rightarrow> (CDone (Inl e), h')
           | (Inr (Inl a), h') \<Rightarrow> (CDone (Inr a), h')
           | (Inr (Inr ref), h') \<Rightarrow> (CRecord ref, h'))
      | CRecord ref \<Rightarrow> (case record_unit env r ref h of (res, h') \<Rightarrow> (CDone res, h'))
      | CDone _ \<Rightarrow> (c, h))"

datatype sys_event = Call_Ensure ensure_request | Run nat | Tick nat

fun sys_step :: "env \<Rightarrow> sys_event \<Rightarrow> system \<Rightarrow> system" where
  "sys_step env (Call_Ensure r) s = ensure_call r s"
| "sys_step env (Run i) s =
     (if i < length (calls s)
      then (case calls s ! i of (r, c) \<Rightarrow>
        (case call_next env (calls s) r c (host_of s) of (c', h') \<Rightarrow> set_call i r c' h' s))
      else s)"
| "sys_step env (Tick n) s = s\<lparr>host_of := (host_of s)\<lparr>clock := clock (host_of s) + int n\<rparr>\<rparr>"

fun sys_run :: "env \<Rightarrow> sys_event list \<Rightarrow> system \<Rightarrow> system" where
  "sys_run env [] s = s"
| "sys_run env (e # es) s = sys_run env es (sys_step env e s)"

section \<open>Examples\<close>

text \<open>An environment in which nothing fails, and processes exit 40 ms after \<open>SIGTERM\<close>.\<close>

definition quiet_env :: env where
  "quiet_env =
     \<lparr>allocationsDir = ''/data/allocations'', sidecarEntryPath = ''/app/sidecar/index.ts'',
      new_pid = (\<lambda>h. 100 + int (length (procs h))), term_delay = (\<lambda>_. Some 40),
      late = (\<lambda>_. 0), sys_fails = (\<lambda>_ _. None), store_faults = (\<lambda>_. False),
      toISOString = string_of_int, hub_env = (\<lambda>k. if k = ''PATH'' then Some ''/bin'' else None),
      credential_key = ''key'', describe = (\<lambda>_. ''error''), refId = (\<lambda>_. ''ref'')\<rparr>"

definition fresh_host :: host where
  "fresh_host = \<lparr>procs = [], clock = 0, dirs = [], store = new_store \<lparr>target = None, temp = None\<rparr>\<rparr>"

definition example_request :: ensure_request where
  "example_request =
     \<lparr>rAllocationId = ''a'', rSidecarId = ''s'', rGeneration = JInt 1, rToken = ''t'',
      rHubWebSocketUrl = ''ws://hub''\<rparr>"

definition example_destroy :: destroy_request where
  "example_destroy =
     \<lparr>dAllocationId = ''a'', dSidecarId = ''s'', dGeneration = JInt 1, dExternalRef = None\<rparr>"


section \<open>Lemmas on ensure and destroy\<close>

lemma with_store_Inr:
  "with_store m h = (Inr x, h') \<longleftrightarrow> (\<exists>s. m (store h) = (Inr x, s) \<and> h' = h\<lparr>store := s\<rparr>)"
  by (auto simp: with_store_def split: prod.splits sum.splits)

lemma getsE_Inr [simp]: "getsE f h = (Inr x, h') \<longleftrightarrow> x = f h \<and> h' = h"
  by (auto simp: getsE_def)

declare returnE_Inr [simp] throwE_Inr [simp]

lemma modifyE_Inr [simp]: "modifyE f h = (Inr x, h') \<longleftrightarrow> h' = f h"
  by (auto simp: modifyE_def)

lemma validEnsure_args:
  assumes "validateEnsureRequest r = None" and "now \<noteq> []"
  shows "args_ok now (rAllocationId r) (rSidecarId r) (int_of (rGeneration r))"
  using assms by (auto simp: validateEnsureRequest_def args_ok_def split: if_splits js_number.splits)

lemma validDestroy_args:
  assumes "validateDestroyRequest r = None" and "now \<noteq> []"
  shows "args_ok now (dAllocationId r) (dSidecarId r) (int_of (dGeneration r))"
  using assms by (auto simp: validateDestroyRequest_def args_ok_def split: if_splits js_number.splits)

lemma no_colon_id: "valid_allocation_id a \<Longrightarrow> CHR '':'' \<notin> set a"
proof
  assume "valid_allocation_id a" and "CHR '':'' \<in> set a"
  then have "is_allocation_char CHR '':''" by (auto simp: valid_allocation_id_def list_all_iff)
  then show False
    by (simp add: is_allocation_char_def is_word_def is_alnum_def is_digit_def is_ascii_upper_def
        is_ascii_lower_def in_range_def char_code_def)
qed

lemma no_colon_int: "0 \<le> i \<Longrightarrow> CHR '':'' \<notin> set (string_of_int i)"
  by (auto simp: string_of_int_def dest: dec_digits)

lemma parse_externalRefOf:
  assumes "a \<noteq> []" and "CHR '':'' \<notin> set a" and "0 \<le> g" and "0 < pid"
  shows "parseExternalRef (externalRefOf a g pid) = Some (a, g, pid)"
proof -
  have "split_on CHR '':'' (externalRefOf a g pid) = [a, string_of_int g, string_of_int pid]"
    using assms by (simp add: externalRefOf_def split_on_append split_on_no_sep no_colon_int)
  with assms show ?thesis by (simp add: parseExternalRef_def js_Number_nonneg)
qed

lemma parse_Some:
  assumes "parseExternalRef ref = Some (a, g, pid)"
  shows "a \<noteq> [] \<and> CHR '':'' \<notin> set a \<and> 0 \<le> g \<and> 0 < pid"
proof -
  from assms obtain gt pt where "split_on CHR '':'' ref = [a, gt, pt]"
    and "a \<noteq> [] \<and> 0 \<le> g \<and> 0 < pid"
    by (auto simp: parseExternalRef_def split: list.splits if_splits js_number.splits)
  then show ?thesis using split_on_parts [of a "CHR '':''" ref] by simp
qed

text \<open>A unit that was started has a reference that names it.\<close>

lemma startUnit_ref:
  assumes "startUnit env r g h = (Inr ref, h')"
  shows "valid_allocation_id (rAllocationId r) \<and> (\<exists>h0. ref = externalRefOf (rAllocationId r) g (new_pid env h0))"
proof -
  from assms have "\<exists>x. unitDirOf env (rAllocationId r) g = Inr x"
    by (auto simp: startUnit_def bindE_Inr_iff lift_result_def split: sum.splits)
  then have "valid_allocation_id (rAllocationId r)"
    by (auto simp: unitDirOf_def allocationDirOf_def split: if_splits)
  moreover have "\<exists>h0. ref = externalRefOf (rAllocationId r) g (new_pid env h0)"
    using assms
    by (auto simp: startUnit_def bindE_Inr_iff or_fail_Inr spawn_def sys_def split: prod.splits option.splits)
  ultimately show ?thesis by simp
qed

lemma start_unit_ref:
  assumes "start_unit env r h = (Inr (Inr ref), h')"
  shows "\<exists>h0. startUnit env r (int_of (rGeneration r)) h = (Inr ref, h0)"
  using assms
  by (auto simp: start_unit_def catchE_def bindE_def returnE_def split: prod.splits sum.splits)

lemma sweep_store: "sweepObsoleteUnits env a ref h = (r, h') \<Longrightarrow> store h' = store h"
  using calmE_D [OF calmE_sweep] by (auto simp: calm_def)

lemma stopUnit_store: "stopUnit env ref h = (r, h') \<Longrightarrow> store h' = store h"
  using calmE_D [OF calmE_stopUnit] by (auto simp: calm_def)

text \<open>What the first step saw of the store, unless it refused.\<close>

abbreviation observing :: "env \<Rightarrow> ensure_request \<Rightarrow> host \<Rightarrow> (store_error + observe_result) \<times> alloc_store" where
  "observing env r h \<equiv> observeEnsure (store_faults env) (toISOString env (clock h)) (rAllocationId r)
     (rSidecarId r) (int_of (rGeneration r)) (store h)"

abbreviation destroying :: "env \<Rightarrow> destroy_request \<Rightarrow> host \<Rightarrow> (store_error + observe_result) \<times> alloc_store" where
  "destroying env r h \<equiv> observeDestroy (store_faults env) (toISOString env (clock h)) (dAllocationId r)
     (dSidecarId r) (int_of (dGeneration r)) (store h)"

lemma observe_unit_observed:
  assumes "observe_unit env r h = (Inr x, h')" and "x = None \<or> x = Some (Accepted ref)"
  shows "validateEnsureRequest r = None \<and> (\<exists>rec s. observing env r h = (Inr (Observed rec), s) \<and>
    store h' = s \<and> externalRef rec = (case x of None \<Rightarrow> None | Some _ \<Rightarrow> Some ref))"
proof -
  from assms have valid: "validateEnsureRequest r = None"
    by (auto simp: observe_unit_def split: option.splits)
  obtain obs s where o: "observing env r h = (obs, s)" by (cases "observing env r h")
  with assms valid show ?thesis
    by (cases obs)
      (auto simp: observe_unit_def bindE_def getsE_def with_store_def returnE_def
        dest: sweep_store split: observe_result.splits option.splits prod.splits sum.splits)
qed

lemma ensureOnce_accepted_observed:
  assumes "ensureOnce env meanwhile r h = (Inr (Accepted ref), h')"
  shows "validateEnsureRequest r = None \<and> (\<exists>rec s. observing env r h = (Inr (Observed rec), s))"
proof -
  from assms obtain x h1 where o: "observe_unit env r h = (Inr x, h1)"
    and rest: "(case x of Some answer \<Rightarrow> returnE answer
       | None \<Rightarrow> bindE (start_unit env r) (\<lambda>started. case started of Inl answer \<Rightarrow> returnE answer
           | Inr ref \<Rightarrow> bindE (modifyE meanwhile) (\<lambda>_. record_unit env r ref))) h1 = (Inr (Accepted ref), h')"
    unfolding ensureOnce_def bindE_Inr_iff by blast
  from rest have "x = None \<or> x = Some (Accepted ref)" by (cases x) auto
  with observe_unit_observed [OF o] show ?thesis by blast
qed

text \<open>The references a destroy stops.\<close>

definition destroy_refs :: "env \<Rightarrow> destroy_request \<Rightarrow> allocation_record \<Rightarrow> host \<Rightarrow> string list" where
  "destroy_refs env r rec h =
     (case dExternalRef r of
        Some ref \<Rightarrow> [ref]
      | None \<Rightarrow>
          (case externalRef rec of
             Some ref \<Rightarrow> [ref]
           | None \<Rightarrow> (case fst (findUnitsByAllocation env (dAllocationId r) h) of Inr refs \<Rightarrow> refs | Inl _ \<Rightarrow> [])))"

lemma stop_all_parses:
  "stop_all env refs h = (Inr None, h') \<Longrightarrow> ref \<in> set refs \<Longrightarrow> parseExternalRef ref \<noteq> None"
  by (induction refs arbitrary: h)
    (auto simp: bindE_def catchE_def stopUnit_def throwE_def returnE_def split: prod.splits sum.splits option.splits)

lemma stop_all_not_confirmed: "stop_all env refs h \<noteq> (Inr (Some CleanupConfirmed), h')"
proof (induction refs arbitrary: h)
  case Nil
  then show ?case by simp
next
  case (Cons r rs)
  obtain q h1 where "stopUnit env r h = (q, h1)" by (cases "stopUnit env r h")
  with Cons show ?case
    by (cases q; cases "classify env (projl q) ''destroy_unit_failed''")
      (simp_all add: bindE_def catchE_def returnE_def)
qed

lemma destroy_confirmed_observed:
  assumes "destroy_unit env r h = (Inr CleanupConfirmed, h')"
  shows "validateDestroyRequest r = None \<and> (\<exists>rec s. destroying env r h = (Inr (Observed rec), s) \<and>
    store h' = s \<and>
    stop_all env (js_set (destroy_refs env r rec (h\<lparr>store := s\<rparr>))) (h\<lparr>store := s\<rparr>) = (Inr None, h'))"
proof -
  from assms have valid: "validateDestroyRequest r = None"
    by (auto simp: destroy_unit_def split: option.splits)
  obtain obs s where o: "destroying env r h = (obs, s)" by (cases "destroying env r h")
  let ?h = "h\<lparr>store := s\<rparr>"
  from assms valid o obtain rec where obs: "obs = Inr (Observed rec)"
    by (auto simp: destroy_unit_def bindE_def getsE_def with_store_def returnE_def
        split: sum.splits observe_result.splits)
  have find: "findUnitsByAllocation env (dAllocationId r) ?h = (q, h'') \<Longrightarrow> h'' = ?h" for q h''
    by (rule findUnits_same)
  have stop: "stop_all env (js_set (destroy_refs env r rec ?h)) ?h = (Inr None, h')"
    using assms valid o obs find
    by (auto simp: destroy_unit_def bindE_def getsE_def with_store_def returnE_def destroy_refs_def
        split: sum.splits option.splits prod.splits destroy_result.splits
        dest!: stop_all_not_confirmed [THEN notE])
  then have "store h' = s" using calmE_D [OF calmE_stop_all stop] by (simp add: calm_def)
  with valid o obs stop show ?thesis by blast
qed


section \<open>Properties\<close>

text \<open>
  C1. A destroyed generation never comes back. Once \<open>destroy\<close> confirmed a generation,
  \<open>ensure\<close> accepts the allocation only at a later generation and for the same sidecar,
  after any other store calls and hub restarts, and whatever happens on the host between
  the steps of that \<open>ensure\<close>.
\<close>

theorem destroyed_never_restarts:
  assumes "store_inv (store h)" and "\<And>t. toISOString env t \<noteq> []" and "\<And>t. toISOString env' t \<noteq> []"
    and "list_all event_ok es"
    and "destroy_unit env d h = (Inr CleanupConfirmed, h1)"
    and "store h2 = hub_run es (store h1)" and "rAllocationId r = dAllocationId d"
    and "ensureOnce env' meanwhile r h2 = (Inr (Accepted ref), h3)"
  shows "int_of (dGeneration d) < int_of (rGeneration r) \<and> rSidecarId r = dSidecarId d"
proof -
  from destroy_confirmed_observed [OF assms(5)] obtain rec where vd: "validateDestroyRequest d = None"
    and d: "destroying env d h = (Inr (Observed rec), store h1)" by auto
  from ensureOnce_accepted_observed [OF assms(8)] obtain rec' s' where vr: "validateEnsureRequest r = None"
    and e: "observing env' r h2 = (Inr (Observed rec'), s')" by auto
  note ad = validDestroy_args [OF vd assms(2)] and ar = validEnsure_args [OF vr assms(3)]
  have inv: "store_inv (store h1)"
    using destroy_settles [OF assms(1) ad d] settles_safe by blast
  show ?thesis
    using process_store.fenced [of "store h" "(store_faults env, toISOString env (clock h))" "dAllocationId d"
        "dSidecarId d" "int_of (dGeneration d)" rec "store h1" "store h2"
        "(store_faults env', toISOString env' (clock h2))" "rSidecarId r" "int_of (rGeneration r)" rec' s']
      assms(1,4,6,7) d e ad ar hub_run_safe [OF inv assms(4)] by simp
qed

definition next_request :: ensure_request where
  "next_request = example_request\<lparr>rGeneration := JInt 2\<rparr>"

definition example_up :: host where
  "example_up = snd (ensureOnce quiet_env id example_request fresh_host)"

lemma store_inv_fresh: "store_inv (new_store \<lparr>target = None, temp = None\<rparr>)"
  by (rule store_inv_new) (simp add: disk_ok_def)

lemma store_inv_up: "store_inv (store example_up)"
proof -
  have "store example_up = hub_run [Call (\<lambda>_. False) ''0'' (ObserveEnsure ''a'' ''s'' 1),
      Call (\<lambda>_. False) ''0'' (RecordUnit ''a'' 1 ''a:1:100'')] (new_store \<lparr>target = None, temp = None\<rparr>)"
    by code_simp
  moreover have "store_inv \<dots>"
    by (rule hub_run_safe [OF store_inv_fresh, THEN conjunct1]) (simp add: args_ok_def)
  ultimately show ?thesis by simp
qed

lemma quiet_iso [simp]: "toISOString quiet_env t \<noteq> []"
  by (simp add: quiet_env_def string_of_int_def)

theorem destroyed_never_restarts_witness:
  "\<exists>h1 h2. destroy_unit quiet_env example_destroy example_up = (Inr CleanupConfirmed, h1) \<and>
     ensureOnce quiet_env id next_request h1 = (Inr (Accepted ''a:2:101''), h2) \<and>
     int_of (dGeneration example_destroy) < int_of (rGeneration next_request)"
proof -
  let ?down = "snd (destroy_unit quiet_env example_destroy example_up)"
  have d: "destroy_unit quiet_env example_destroy example_up = (Inr CleanupConfirmed, ?down)"
    by code_simp
  have e: "ensureOnce quiet_env id next_request ?down
      = (Inr (Accepted ''a:2:101''), snd (ensureOnce quiet_env id next_request ?down))"
    by code_simp
  have "int_of (dGeneration example_destroy) < int_of (rGeneration next_request) \<and>
    rSidecarId next_request = dSidecarId example_destroy"
    by (rule destroyed_never_restarts [OF store_inv_up quiet_iso quiet_iso _ d _ _ e, of "[]"])
      (simp_all add: example_request_def example_destroy_def next_request_def)
  with d e show ?thesis by blast
qed

text \<open>
  C3. A confirmed \<open>destroy\<close> has done its work: the allocation is recorded as destroyed at
  the request's generation, and no process named by the references the destroy had to stop
  is running. Those are the request's reference, else the recorded one, else every unit
  found on disk.
\<close>

theorem destroy_confirmed_stopped:
  assumes "store_inv (store h)" and "\<And>t. toISOString env t \<noteq> []"
    and "destroy_unit env d h = (Inr CleanupConfirmed, h')"
  shows "\<exists>rec. known (store h') (dAllocationId d) = Some rec \<and> desiredState rec = Destroyed \<and>
    generation rec = int_of (dGeneration d) \<and>
    (\<forall>ref \<in> set (destroy_refs env d rec (h\<lparr>store := store h'\<rparr>)).
       case parseExternalRef ref of None \<Rightarrow> False | Some (a, g, pid) \<Rightarrow> \<not> running h' pid)"
proof -
  from destroy_confirmed_observed [OF assms(3)] obtain rec where vd: "validateDestroyRequest d = None"
    and d: "destroying env d h = (Inr (Observed rec), store h')"
    and stop: "stop_all env (js_set (destroy_refs env d rec (h\<lparr>store := store h'\<rparr>)))
      (h\<lparr>store := store h'\<rparr>) = (Inr None, h')" by auto
  from destroy_Observed [OF assms(1) validDestroy_args [OF vd assms(2)] d]
  have "known (store h') (dAllocationId d) = Some rec" "desiredState rec = Destroyed"
    "generation rec = int_of (dGeneration d)" by auto
  moreover have "case parseExternalRef ref of None \<Rightarrow> False | Some (a, g, pid) \<Rightarrow> \<not> running h' pid"
    if "ref \<in> set (destroy_refs env d rec (h\<lparr>store := store h'\<rparr>))" for ref
  proof -
    from that have ref: "ref \<in> set (js_set (destroy_refs env d rec (h\<lparr>store := store h'\<rparr>)))"
      by (simp add: js_set_def)
    show ?thesis
      using stop_all_ends [OF stop ref] stop_all_parses [OF stop ref] by (auto split: option.splits prod.splits)
  qed
  ultimately show ?thesis by blast
qed

theorem destroy_confirmed_stopped_witness:
  "\<exists>rec. known (store (snd (destroy_unit quiet_env example_destroy example_up))) ''a'' = Some rec \<and>
     desiredState rec = Destroyed \<and> generation rec = 1"
proof -
  have d: "destroy_unit quiet_env example_destroy example_up
      = (Inr CleanupConfirmed, snd (destroy_unit quiet_env example_destroy example_up))"
    by code_simp
  from destroy_confirmed_stopped [OF store_inv_up quiet_iso d]
  show ?thesis by (auto simp: example_destroy_def)
qed


text \<open>
  The witness: a destroy runs between the start and the recording.
\<close>

definition example_observed :: host where
  "example_observed = snd (observe_unit quiet_env example_request fresh_host)"

definition example_started :: host where
  "example_started = snd (start_unit quiet_env example_request example_observed)"

definition example_fenced :: host where
  "example_fenced = snd (destroy_unit quiet_env example_destroy example_started)"


text \<open>
  C34. Termination is bounded and precise. \<open>terminate\<close> always ends; within the grace period
  plus one poll, and the lateness of timers; when it returns the process is not running; it
  always returns for a process that is gone or the hub's own; and it leaves every other
  process and all directories as they were.
\<close>

theorem terminate_bounded:
  assumes "terminate_unit env pid h = (r, h')" and "\<And>t. late env t \<le> M"
  shows "clock h' \<le> clock h + TERMINATION_GRACE_MS + TERMINATION_POLL_MS + int M \<and>
    (r = Inr () \<longrightarrow> \<not> running h' pid) \<and>
    (\<not> running h pid \<or> owned (the (map_of (procs h) pid)) \<longrightarrow> r = Inr ()) \<and>
    (p \<noteq> pid \<longrightarrow> map_of (procs h') p = map_of (procs h) p) \<and> dirs h' = dirs h"
  using terminate_result [OF assms(1)] assms(2) by blast

text \<open>The witness: a process that ignores \<open>SIGTERM\<close> is killed after the grace period.\<close>

theorem terminate_bounded_witness:
  "clock (snd (terminate_unit (quiet_env\<lparr>term_delay := \<lambda>_. None\<rparr>) 100 example_up)) \<le> 5100 \<and>
   \<not> running (snd (terminate_unit (quiet_env\<lparr>term_delay := \<lambda>_. None\<rparr>) 100 example_up)) 100"
proof -
  let ?env = "quiet_env\<lparr>term_delay := \<lambda>_. None\<rparr>"
  have run: "terminate_unit ?env 100 example_up = (Inr (), snd (terminate_unit ?env 100 example_up))"
    by code_simp
  have late: "late ?env t \<le> 0" for t by (simp add: quiet_env_def)
  have "clock example_up = 0" by code_simp
  with terminate_bounded [OF run late, of 0] show ?thesis
    by (simp add: TERMINATION_GRACE_MS_def TERMINATION_POLL_MS_def)
qed

text \<open>
  Also shown. References round-trip: the reference made for a unit of a valid allocation id reads
  back as that allocation, generation and pid, so a stop acts on exactly the unit that was
  started.
\<close>

theorem externalRef_roundtrip:
  assumes "valid_allocation_id a" and "0 \<le> g" and "0 < pid"
  shows "parseExternalRef (externalRefOf a g pid) = Some (a, g, pid)"
  using assms no_colon_id [OF assms(1)]
  by (intro parse_externalRefOf) (auto simp: valid_allocation_id_def)

theorem externalRef_roundtrip_witness:
  "parseExternalRef (externalRefOf ''alloc.1_x-2'' 0 4321) = Some (''alloc.1_x-2'', 0, 4321)"
proof -
  have "valid_allocation_id ''alloc.1_x-2''" by code_simp
  then show ?thesis by (rule externalRef_roundtrip) simp_all
qed

section \<open>What the code does not keep\<close>

text \<open>
  Three \<open>ensure\<close> calls of one allocation race, and the first one's spawn fails. The two
  that waited both run then: each starts a process in the same unit directory, the sweep
  after the first record stops the other's process and removes the directory, and the
  second record overwrites the reference. Both are accepted, the recorded unit is dead,
  and the process that lives is recorded nowhere and found by no later sweep.
\<close>

definition flaky_env :: env where
  "flaky_env = quiet_env\<lparr>sys_fails :=
     (\<lambda>t c. if t = 0 \<and> c = SpawnUnit then Some (OtherErrno ''EAGAIN'') else None)\<rparr>"

definition raced :: system where
  "raced = sys_run flaky_env
     [Call_Ensure example_request, Call_Ensure example_request, Call_Ensure example_request,
      Run 0, Run 0, Tick 1, Run 1, Run 2, Run 1, Run 2, Run 1, Run 2, Run 1, Run 2]
     \<lparr>host_of = fresh_host, inFlight = [], calls = []\<rparr>"

theorem raced_ensures_orphan_a_process:
  "map snd (drop 1 (calls raced)) = [CDone (Inr (Accepted ''a:1:100'')), CDone (Inr (Accepted ''a:1:101''))] \<and>
   map_option externalRef (map_of (records (store (host_of raced))) ''a'') = Some (Some ''a:1:101'') \<and>
   running (host_of raced) 100 \<and> \<not> running (host_of raced) 101 \<and>
   fst (findUnitsByAllocation flaky_env ''a'' (host_of raced)) = Inr []"
  by code_simp

text \<open>
  A pid file outlives its process. When the kernel gives the pid in the file of an older
  generation to the new unit, the sweep takes the new process for the old unit and kills
  it, and the ensure is accepted.
\<close>

definition recycled_host :: host where
  "recycled_host = example_up\<lparr>procs := [(100, \<lparr>owned = True, exits = Some 0\<rparr>)]\<rparr>"

definition recycling_env :: env where
  "recycling_env = quiet_env\<lparr>new_pid := (\<lambda>_. 100)\<rparr>"

theorem recycled_pid_kills_new_unit:
  "fst (ensureOnce recycling_env id next_request recycled_host) = Inr (Accepted ''a:2:100'') \<and>
   \<not> running (snd (ensureOnce recycling_env id next_request recycled_host)) 100"
  by code_simp

text \<open>Generation 0 is a valid generation to ensure, but no unit of it is ever found again.\<close>

theorem generation_zero_not_found: "generationOf (unit_name 0) = None"
  by code_simp

end
