(* ===== verification/Inference_Routes.thy ===== *)
theory Inference_Routes
  imports Prelude
begin

text \<open>
  The inference settings of the web app: which models are safe to offer in a chat picker
  (\<open>settings/inference/model-capability.ts\<close>, \<open>usable-model.ts\<close>), the rows of the effective
  route, the default model of a provider, and the priority patches that reorder a route
  (\<open>effective-list.ts\<close>, all under \<open>apps/web/src\<close>).

  A patch is what the code sends; \<open>apply_patches\<close> is the catalog's documented effect of
  it, the new priority of the offering. \<open>localeCompare\<close> is a parameter.
\<close>

section \<open>Model names\<close>

definition after_boundary :: "char list \<Rightarrow> string \<Rightarrow> string list" where
  "after_boundary seps s =
     s # map (\<lambda>i. drop (Suc i) s) (filter (\<lambda>i. s ! i \<in> set seps) [0..<length s])"

definition ends_token :: "string \<Rightarrow> bool" where
  "ends_token s \<longleftrightarrow> s = [] \<or> hd s \<in> {CHR ''-'', CHR ''_'', CHR '':''}"

definition isEmbeddingModelName :: "string \<Rightarrow> bool" where
  "isEmbeddingModelName name =
     list_ex (\<lambda>t. starts_with ''embed'' t \<or>
         list_ex (\<lambda>w. starts_with w t \<and> ends_token (drop (length w) t))
           [''minilm'', ''bge'', ''gte'', ''e5'', ''arctic-embed''])
       (after_boundary ''-_/'' (to_lower name))"

definition isGgufOrHuggingFacePath :: "string \<Rightarrow> bool" where
  "isGgufOrHuggingFacePath name \<longleftrightarrow>
     contains ''.gguf'' (to_lower name) \<or>
     list_ex (\<lambda>t. starts_with ''hf.co/'' t \<or> starts_with ''huggingface.co/'' t)
       (after_boundary ''/'' (to_lower name))"

definition isChatPickerModelName :: "string \<Rightarrow> bool" where
  "isChatPickerModelName name \<longleftrightarrow> \<not> isGgufOrHuggingFacePath name \<and> \<not> isEmbeddingModelName name"

definition isCompletionCapable :: "string list \<Rightarrow> string \<Rightarrow> bool" where
  "isCompletionCapable caps name =
     (if isGgufOrHuggingFacePath name then False
      else if caps \<noteq> [] then ''plain-text'' \<in> set caps
      else \<not> isEmbeddingModelName name)"

definition preferCompletionCapable ::
  "'a list \<Rightarrow> ('a \<Rightarrow> string list) \<Rightarrow> ('a \<Rightarrow> string) \<Rightarrow> 'a list" where
  "preferCompletionCapable xs caps name = filter (\<lambda>x. isCompletionCapable (caps x) (name x)) xs"

definition PROVIDER_DISPLAY_NAMES :: "(string \<times> string) list" where
  "PROVIDER_DISPLAY_NAMES =
     [(''anthropic'', ''Anthropic''), (''openai'', ''OpenAI''), (''google-genai'', ''Google''),
      (''xai'', ''xAI''), (''xai-oauth'', ''xAI (Grok OAuth)''), (''codex'', ''Codex''),
      (''openrouter'', ''OpenRouter''), (''opencode-zen'', ''Opencode Zen''), (''groq'', ''Groq''),
      (''deepseek'', ''DeepSeek''), (''mistral'', ''Mistral''), (''huggingface'', ''Hugging Face''),
      (''ollama'', ''Ollama (local)'')]"

text \<open>Own keys only: a slug such as \<open>constructor\<close>, which the object inherits, is outside the model.\<close>

definition providerDisplayName :: "string \<Rightarrow> string" where
  "providerDisplayName p = (case map_of PROVIDER_DISPLAY_NAMES p of None \<Rightarrow> p | Some n \<Rightarrow> n)"

section \<open>The resolved catalog\<close>

record offering =
  oOfferingId :: string
  oProviderId :: string
  oProviderName :: string
  oPlugin :: string
  oPriority :: int
  oCapabilities :: "string list"

record model_info =
  mId :: string
  mCanonicalName :: string
  mDisplayName :: "string option"
  mOfferings :: "offering list"

datatype provenance = SetHere | Inherited

record row =
  offeringId :: string
  modelId :: string
  canonicalName :: string
  modelDisplayName :: "string option"
  providerId :: string
  providerName :: string
  plugin :: string
  priority :: int
  prov :: provenance

definition hasUsableModel :: "model_info list \<Rightarrow> bool" where
  "hasUsableModel ms = list_ex (\<lambda>m. mOfferings m \<noteq> []) ms"

record candidate =
  cCanonicalName :: string
  cDisplayName :: "string option"
  cPriority :: int
  cCapabilities :: "string list"

definition provider_candidates :: "model_info list \<Rightarrow> string \<Rightarrow> candidate list" where
  "provider_candidates ms p =
     concat (map (\<lambda>m. map (\<lambda>f. \<lparr>cCanonicalName = mCanonicalName m, cDisplayName = mDisplayName m,
         cPriority = oPriority f, cCapabilities = oCapabilities f\<rparr>)
       (filter (\<lambda>f. oProviderName f = p) (mOfferings m))) ms)"

text \<open>The loop that keeps the first of the lowest priority.\<close>

fun pick_best :: "('a \<Rightarrow> int) \<Rightarrow> 'a option \<Rightarrow> 'a list \<Rightarrow> 'a option" where
  "pick_best f b [] = b"
| "pick_best f None (c # cs) = pick_best f (Some c) cs"
| "pick_best f (Some b) (c # cs) = pick_best f (Some (if f c < f b then c else b)) cs"

definition defaultModelForProvider :: "model_info list \<Rightarrow> string \<Rightarrow> (string \<times> string option) option" where
  "defaultModelForProvider ms p =
     map_option (\<lambda>c. (cCanonicalName c, cDisplayName c))
       (pick_best cPriority None (preferCompletionCapable (provider_candidates ms p) cCapabilities cCanonicalName))"

definition chatCapableModels :: "model_info list \<Rightarrow> model_info list" where
  "chatCapableModels ms =
     concat (map (\<lambda>m.
       let os = preferCompletionCapable (mOfferings m) oCapabilities (\<lambda>_. mCanonicalName m)
       in if os = [] then []
          else if length os = length (mOfferings m) then [m]
          else [m\<lparr>mOfferings := os\<rparr>]) ms)"

definition row_of :: "(string \<Rightarrow> bool) \<Rightarrow> model_info \<Rightarrow> offering \<Rightarrow> row" where
  "row_of own m f =
     \<lparr>offeringId = oOfferingId f, modelId = mId m, canonicalName = mCanonicalName m,
      modelDisplayName = mDisplayName m, providerId = oProviderId f, providerName = oProviderName f,
      plugin = oPlugin f, priority = oPriority f,
      prov = (if own (oOfferingId f) then SetHere else Inherited)\<rparr>"

definition buildEffectiveInferenceRows :: "model_info list \<Rightarrow> (string \<Rightarrow> bool) \<Rightarrow> row list" where
  "buildEffectiveInferenceRows ms own =
     concat (map (\<lambda>m. map (row_of own m) (mOfferings m)) (chatCapableModels ms))"

definition restrictedOfferings :: "('a \<Rightarrow> bool) \<Rightarrow> 'a list \<Rightarrow> 'a list" where
  "restrictedOfferings disabled os = filter disabled os"

fun rows_into :: "(string \<times> row list) list \<Rightarrow> row list \<Rightarrow> (string \<times> row list) list" where
  "rows_into m [] = m"
| "rows_into m (r # rs) =
     (case map_of m (modelId r) of
        None \<Rightarrow> rows_into (AList.update (modelId r) [r] m) rs
      | Some xs \<Rightarrow> rows_into (AList.update (modelId r) (xs @ [r]) m) rs)"

definition rowsByModel :: "row list \<Rightarrow> (string \<times> row list) list" where
  "rowsByModel rs = rows_into [] rs"

section \<open>Priority patches\<close>

type_synonym patch = "string \<times> int"

text \<open>\<open>route_le cmp\<close> is the comparator of the sort being at most 0.\<close>

definition route_compare :: "(string \<Rightarrow> string \<Rightarrow> int) \<Rightarrow> row \<Rightarrow> row \<Rightarrow> int" where
  "route_compare cmp =
     or_else (\<lambda>l r. priority l - priority r)
     (or_else (\<lambda>l r. cmp (canonicalName l) (canonicalName r))
     (or_else (\<lambda>l r. cmp (providerName l) (providerName r))
       (\<lambda>l r. cmp (offeringId l) (offeringId r))))"

definition route_le :: "(string \<Rightarrow> string \<Rightarrow> int) \<Rightarrow> row \<Rightarrow> row \<Rightarrow> bool" where
  "route_le cmp l r \<longleftrightarrow> route_compare cmp l r \<le> 0"

definition orderedGlobalInferenceRows :: "(string \<Rightarrow> string \<Rightarrow> int) \<Rightarrow> row list \<Rightarrow> row list" where
  "orderedGlobalInferenceRows cmp rs = js_sort (route_le cmp) rs"

datatype move = First | Up | Down

fun find_index :: "('a \<Rightarrow> bool) \<Rightarrow> 'a list \<Rightarrow> nat option" where
  "find_index P [] = None"
| "find_index P (x # xs) = (if P x then Some 0 else map_option Suc (find_index P xs))"

definition move_to :: "nat \<Rightarrow> nat \<Rightarrow> 'a list \<Rightarrow> 'a list" where
  "move_to i d xs =
     (let rest = take i xs @ drop (Suc i) xs in take d rest @ [xs ! i] @ drop d rest)"

definition destination :: "move \<Rightarrow> nat \<Rightarrow> int" where
  "destination mv i = (case mv of First \<Rightarrow> 0 | Up \<Rightarrow> int i - 1 | Down \<Rightarrow> int i + 1)"

definition min_priority :: "row list \<Rightarrow> int" where
  "min_priority rs = foldr (\<lambda>r m. min (priority r) m) (tl rs) (priority (hd rs))"

definition computeGlobalRoutePatches ::
  "(string \<Rightarrow> string \<Rightarrow> int) \<Rightarrow> row list \<Rightarrow> string \<Rightarrow> move \<Rightarrow> patch list option" where
  "computeGlobalRoutePatches cmp rs target mv =
     (let ordered = orderedGlobalInferenceRows cmp rs in
      if list_ex (\<lambda>r. prov r \<noteq> SetHere) ordered then None
      else if 1 < length (remdups (map canonicalName ordered)) then None
      else (case find_index (\<lambda>r. offeringId r = target) ordered of
              None \<Rightarrow> None
            | Some i \<Rightarrow>
                let d = destination mv i in
                if d < 0 \<or> d \<ge> int (length ordered) then Some []
                else
                  let nxt = move_to i (nat d) ordered; base = min_priority ordered in
                  Some (concat (map (\<lambda>j. if offeringId (ordered ! j) \<noteq> offeringId (nxt ! j)
                      then [(offeringId (nxt ! j), base + int j)] else []) [0..<length nxt]))))"

datatype step_dir = SUp | SDown

definition row_at :: "row list \<Rightarrow> int \<Rightarrow> row option" where
  "row_at rs i = (if 0 \<le> i \<and> i < int (length rs) then Some (rs ! nat i) else None)"

text \<open>The priorities of the earlier and the later row of a swapped pair, from the fixed neighbours'.\<close>

definition pair_priorities :: "int option \<Rightarrow> int option \<Rightarrow> int \<Rightarrow> int \<times> int" where
  "pair_priorities lower upper base =
     (case (lower, upper) of
        (Some l, Some u) \<Rightarrow>
          (if u - l \<ge> 3 then (l + 1, u - 1) else if u - l \<ge> 1 then (l, u) else (l, l + 1))
      | (Some l, None) \<Rightarrow> (l + 1, l + 2)
      | (None, Some u) \<Rightarrow> (u - 2, u - 1)
      | (None, None) \<Rightarrow> (base, base + 1))"

definition computeReorderPatches :: "row list \<Rightarrow> int \<Rightarrow> step_dir \<Rightarrow> (patch \<times> patch) option" where
  "computeReorderPatches rs i dir =
     (let other = (if dir = SUp then i - 1 else i + 1) in
      case (row_at rs i, row_at rs other) of
        (Some moved, Some neighbor) \<Rightarrow>
          if prov moved \<noteq> SetHere \<or> prov neighbor \<noteq> SetHere then None
          else
            let lo = map_option priority (row_at rs (min i other - 1));
                hi = map_option priority (row_at rs (max i other + 1));
                earlier = (if dir = SUp then moved else neighbor);
                later = (if dir = SUp then neighbor else moved)
            in case pair_priorities lo hi (min (priority moved) (priority neighbor)) of
                 (pe, pl) \<Rightarrow> Some ((offeringId earlier, pe), (offeringId later, pl))
      | _ \<Rightarrow> None)"

definition computeMakeDefaultPatches :: "row list \<Rightarrow> string \<Rightarrow> patch list option" where
  "computeMakeDefaultPatches rs target =
     (case find (\<lambda>r. offeringId r = target) rs of
        None \<Rightarrow> None
      | Some t \<Rightarrow>
          if prov t \<noteq> SetHere then None
          else
            let others = filter (\<lambda>r. offeringId r \<noteq> target) rs in
            if others = [] then Some []
            else if priority t < min_priority others then Some []
            else Some [(offeringId t, min_priority others - 1)])"

text \<open>The catalog's effect of the patches.\<close>

definition patched :: "patch list \<Rightarrow> string \<Rightarrow> int \<Rightarrow> int" where
  "patched ps oid p = (case map_of ps oid of None \<Rightarrow> p | Some q \<Rightarrow> q)"

definition apply_patches :: "patch list \<Rightarrow> row list \<Rightarrow> row list" where
  "apply_patches ps = map (\<lambda>r. r\<lparr>priority := patched ps (offeringId r) (priority r)\<rparr>)"

definition patch_catalog :: "patch list \<Rightarrow> model_info list \<Rightarrow> model_info list" where
  "patch_catalog ps = map (\<lambda>m. m\<lparr>mOfferings :=
     map (\<lambda>f. f\<lparr>oPriority := patched ps (oOfferingId f) (oPriority f)\<rparr>) (mOfferings m)\<rparr>)"


abbreviation completion_candidates :: "model_info list \<Rightarrow> string \<Rightarrow> candidate list" where
  "completion_candidates ms p \<equiv>
     preferCompletionCapable (provider_candidates ms p) cCapabilities cCanonicalName"

section \<open>The loop over candidates\<close>

lemma pick_best_map: "pick_best f (map_option g b) (map g xs) = map_option g (pick_best (\<lambda>x. f (g x)) b xs)"
proof (induction xs arbitrary: b)
  case Nil
  then show ?case by simp
next
  case (Cons x xs)
  have "map_option g b = None \<or> (\<exists>y. b = Some y)" by (cases b) auto
  then show ?case
  proof (cases b)
    case None
    with Cons [of "Some x"] show ?thesis by simp
  next
    case (Some y)
    with Cons [of "Some (if f (g x) < f (g y) then x else y)"] show ?thesis
      by (simp split: if_splits)
  qed
qed

lemma pick_best_Some:
  "\<exists>us c vs. b # cs = us @ c # vs \<and> pick_best f (Some b) cs = Some c \<and>
     (\<forall>x \<in> set us. f c < f x) \<and> (\<forall>x \<in> set vs. f c \<le> f x)"
proof (induction cs arbitrary: b rule: rev_induct)
  case Nil
  then show ?case by (intro exI [of _ "[]"]) simp
next
  case (snoc x xs)
  have app: "pick_best f (Some b) (xs @ [x]) =
      (case pick_best f (Some b) xs of None \<Rightarrow> Some x | Some c \<Rightarrow> Some (if f x < f c then x else c))" for b
    by (induction xs arbitrary: b) auto
  from snoc [of b] obtain us c vs where s: "b # xs = us @ c # vs" "pick_best f (Some b) xs = Some c"
    "\<forall>x \<in> set us. f c < f x" "\<forall>x \<in> set vs. f c \<le> f x" by auto
  show ?case
  proof (cases "f x < f c")
    case True
    have "\<forall>y \<in> set (b # xs). f x < f y"
      unfolding s(1) using s(3,4) True by auto
    with True s show ?thesis
      by (intro exI [of _ "b # xs"] exI [of _ x] exI [of _ "[]"]) (simp add: app)
  next
    case False
    with s show ?thesis
      by (intro exI [of _ us] exI [of _ c] exI [of _ "vs @ [x]"]) (simp add: app)
  qed
qed

lemma pick_best_unique:
  assumes "r \<in> set xs" and "\<And>x. x \<in> set xs \<Longrightarrow> x \<noteq> r \<Longrightarrow> f r < f x"
  shows "pick_best f None xs = Some r"
proof -
  from assms(1) obtain b cs where xs: "xs = b # cs" by (cases xs) auto
  from pick_best_Some [of b cs f] obtain us c vs where s: "xs = us @ c # vs"
    "pick_best f (Some b) cs = Some c" "\<forall>x \<in> set us. f c < f x" "\<forall>x \<in> set vs. f c \<le> f x"
    unfolding xs by blast
  have "c = r"
  proof (rule ccontr)
    assume "c \<noteq> r"
    with assms(2) [of c] s(1) have "f r < f c" by simp
    with s assms(1) \<open>c \<noteq> r\<close> show False by force
  qed
  have "pick_best f None xs = pick_best f (Some b) cs" by (simp add: xs)
  with s(2) \<open>c = r\<close> show ?thesis by simp
qed

section \<open>Rows and candidates\<close>

definition own_view :: "row \<Rightarrow> string \<times> string option \<times> int" where
  "own_view r = (canonicalName r, modelDisplayName r, priority r)"

definition cand_view :: "candidate \<Rightarrow> string \<times> string option \<times> int" where
  "cand_view c = (cCanonicalName c, cDisplayName c, cPriority c)"

abbreviation provider_rows :: "model_info list \<Rightarrow> (string \<Rightarrow> bool) \<Rightarrow> string \<Rightarrow> row list" where
  "provider_rows ms own p \<equiv> filter (\<lambda>r. providerName r = p) (buildEffectiveInferenceRows ms own)"

text \<open>The rows are the completion-capable offerings of every model, in the catalog's order.\<close>

lemma rows_eq:
  "buildEffectiveInferenceRows ms own =
     concat (map (\<lambda>m. map (row_of own m)
       (filter (\<lambda>f. isCompletionCapable (oCapabilities f) (mCanonicalName m)) (mOfferings m))) ms)"
proof (induction ms)
  case Nil
  then show ?case by (simp add: buildEffectiveInferenceRows_def chatCapableModels_def)
next
  case (Cons m ms)
  let ?P = "\<lambda>f. isCompletionCapable (oCapabilities f) (mCanonicalName m)"
  have same: "filter ?P (mOfferings m) = mOfferings m"
    if "length (filter ?P (mOfferings m)) = length (mOfferings m)"
    using that by (metis filter_id_conv length_filter_less less_irrefl)
  have row: "row_of own (m\<lparr>mOfferings := os\<rparr>) = row_of own m" for os
    by (rule ext) (simp add: row_of_def)
  from Cons same show ?case
    by (auto simp: buildEffectiveInferenceRows_def chatCapableModels_def preferCompletionCapable_def
        Let_def row)
qed

lemma views_eq:
  "map own_view (provider_rows ms own p) =
     map cand_view (preferCompletionCapable (provider_candidates ms p) cCapabilities cCanonicalName)"
proof (induction ms)
  case Nil
  then show ?case by (simp add: rows_eq preferCompletionCapable_def provider_candidates_def)
next
  case (Cons m ms)
  have "map own_view (filter (\<lambda>r. providerName r = p) (map (row_of own m)
      (filter (\<lambda>f. isCompletionCapable (oCapabilities f) (mCanonicalName m)) os))) =
    map cand_view (filter (\<lambda>c. isCompletionCapable (cCapabilities c) (cCanonicalName c))
      (map (\<lambda>f. \<lparr>cCanonicalName = mCanonicalName m, cDisplayName = mDisplayName m,
         cPriority = oPriority f, cCapabilities = oCapabilities f\<rparr>)
       (filter (\<lambda>f. oProviderName f = p) os)))" for os
    by (induction os) (auto simp: row_of_def own_view_def cand_view_def)
  with Cons show ?case
    by (simp add: rows_eq preferCompletionCapable_def provider_candidates_def)
qed

text \<open>So the default of a provider is the best of its rows.\<close>

lemma default_by_rows:
  "defaultModelForProvider ms p =
     map_option (\<lambda>r. (canonicalName r, modelDisplayName r)) (pick_best priority None (provider_rows ms own p))"
proof -
  let ?cs = "preferCompletionCapable (provider_candidates ms p) cCapabilities cCanonicalName"
  let ?key = "\<lambda>v :: string \<times> string option \<times> int. snd (snd v)"
  have "map_option cand_view (pick_best cPriority None ?cs)
      = map_option own_view (pick_best priority None (provider_rows ms own p))"
    using pick_best_map [of ?key cand_view None ?cs] pick_best_map [of ?key own_view None "provider_rows ms own p"]
      views_eq [of p ms own]
    by (simp add: cand_view_def own_view_def)
  then have "map_option (\<lambda>v. (fst v, fst (snd v))) (map_option cand_view (pick_best cPriority None ?cs))
      = map_option (\<lambda>v. (fst v, fst (snd v))) (map_option own_view (pick_best priority None (provider_rows ms own p)))"
    by simp
  then show ?thesis
    by (simp add: defaultModelForProvider_def option.map_comp comp_def cand_view_def own_view_def)
qed

lemma rows_patched:
  "buildEffectiveInferenceRows (patch_catalog ps ms) own = apply_patches ps (buildEffectiveInferenceRows ms own)"
proof (induction ms)
  case Nil
  then show ?case by (simp add: rows_eq patch_catalog_def apply_patches_def)
next
  case (Cons m ms)
  have "map (row_of own (m\<lparr>mOfferings := os'\<rparr>))
      (filter (\<lambda>f. isCompletionCapable (oCapabilities f) (mCanonicalName m))
        (map (\<lambda>f. f\<lparr>oPriority := patched ps (oOfferingId f) (oPriority f)\<rparr>) os)) =
    apply_patches ps (map (row_of own m)
      (filter (\<lambda>f. isCompletionCapable (oCapabilities f) (mCanonicalName m)) os))" for os os'
    by (induction os) (auto simp: row_of_def apply_patches_def)
  with Cons show ?case by (simp add: rows_eq patch_catalog_def apply_patches_def)
qed

lemma provider_rows_patched:
  "provider_rows (patch_catalog ps ms) own p = apply_patches ps (provider_rows ms own p)"
  by (simp add: rows_patched apply_patches_def filter_map comp_def)

lemma min_priority_le: "r \<in> set rs \<Longrightarrow> min_priority rs \<le> priority r"
proof (cases rs)
  case (Cons x xs)
  moreover have "foldr (\<lambda>r m. min (priority r) m) xs a \<le> a" for a
    by (induction xs) auto
  moreover have "q \<in> set xs \<Longrightarrow> foldr (\<lambda>r m. min (priority r) m) xs a \<le> priority q" for q a
    by (induction xs) auto
  ultimately show "r \<in> set rs \<Longrightarrow> ?thesis" by (auto simp: min_priority_def)
qed simp


section \<open>Moving a row in the route\<close>

lemma mset_move_to:
  assumes "i < length xs"
  shows "mset (move_to i d xs) = mset xs"
proof -
  define r where "r = take i xs @ drop (Suc i) xs"
  have "mset (take d r) + mset (drop d r) = mset r"
    by (metis append_take_drop_id mset_append)
  moreover have "mset xs = add_mset (xs ! i) (mset r)"
    by (subst id_take_nth_drop [OF assms]) (simp add: r_def)
  ultimately show ?thesis by (simp add: move_to_def r_def [symmetric])
qed

lemma length_move_to: "i < length xs \<Longrightarrow> length (move_to i d xs) = length xs"
  by (rule mset_eq_length) (rule mset_move_to)

lemma find_index_Some: "find_index P xs = Some i \<Longrightarrow> i < length xs \<and> P (xs ! i)"
  by (induction xs arbitrary: i) (auto split: if_splits)

lemma route_comparator:
  assumes "compare_ok cmp"
  shows "comparator (route_le cmp)"
  unfolding route_le_def route_compare_def
  by (rule compare_comparator [OF compare_or_else [OF compare_key [of priority]
    compare_or_else [OF compare_on [OF assms, of canonicalName]
    compare_or_else [OF compare_on [OF assms, of providerName] compare_on [OF assms, of offeringId]]]]])

section \<open>Properties\<close>

text \<open>
  Also shown. The default model of a provider is the model of the first offering of lowest priority
  among the provider's completion-capable offerings, and there is none exactly when there
  is no such offering.
\<close>

theorem defaultModelForProvider_best:
  "if completion_candidates ms p = [] then defaultModelForProvider ms p = None
   else \<exists>us c vs. completion_candidates ms p = us @ c # vs \<and>
     defaultModelForProvider ms p = Some (cCanonicalName c, cDisplayName c) \<and>
     list_all (\<lambda>x. cPriority c < cPriority x) us \<and> list_all (\<lambda>x. cPriority c \<le> cPriority x) vs"
proof (cases "completion_candidates ms p")
  case Nil
  then show ?thesis by (simp add: defaultModelForProvider_def)
next
  case (Cons b bs)
  obtain us c vs where s: "b # bs = us @ c # vs" "pick_best cPriority (Some b) bs = Some c"
    "\<forall>x \<in> set us. cPriority c < cPriority x" "\<forall>x \<in> set vs. cPriority c \<le> cPriority x"
    using pick_best_Some [of b bs cPriority] by blast
  have "defaultModelForProvider ms p = Some (cCanonicalName c, cDisplayName c)"
    unfolding defaultModelForProvider_def Cons using s(2) by simp
  with s have "\<exists>us c vs. b # bs = us @ c # vs \<and>
     defaultModelForProvider ms p = Some (cCanonicalName c, cDisplayName c) \<and>
     list_all (\<lambda>x. cPriority c < cPriority x) us \<and> list_all (\<lambda>x. cPriority c \<le> cPriority x) vs"
    unfolding list_all_iff by blast
  then show ?thesis unfolding Cons by (simp only: list.distinct if_False)
qed

text \<open>
  C21. Making an offering the default works: once the catalog has taken the patches, the
  provider's default model is the model of the chosen offering, whatever the priorities
  were, ties included.
\<close>

theorem make_default_wins:
  assumes "distinct (map offeringId (provider_rows ms own p))"
    and "computeMakeDefaultPatches (provider_rows ms own p) target = Some ps"
  shows "\<exists>r \<in> set (provider_rows ms own p). offeringId r = target \<and> prov r = SetHere \<and>
    defaultModelForProvider (patch_catalog ps ms) p = Some (canonicalName r, modelDisplayName r)"
proof -
  let ?rs = "provider_rows ms own p"
  let ?others = "filter (\<lambda>r. offeringId r \<noteq> target) ?rs"
  let ?q = "\<lambda>r. r\<lparr>priority := patched ps (offeringId r) (priority r)\<rparr>"
  from assms(2) obtain t where t: "find (\<lambda>r. offeringId r = target) ?rs = Some t"
    and own: "prov t = SetHere"
    by (auto simp: computeMakeDefaultPatches_def Let_def split: option.splits if_splits)
  from t have tin: "t \<in> set ?rs" and tid: "offeringId t = target"
    using find_SomeD [OF t] by blast+
  have ps: "ps = (if ?others = [] \<or> priority t < min_priority ?others then []
      else [(target, min_priority ?others - 1)])"
    using assms(2) t own tid by (auto simp: computeMakeDefaultPatches_def Let_def split: if_splits)
  have less: "priority (?q t) < priority (?q x)" if "x \<in> set ?rs" "x \<noteq> t" for x
  proof -
    have "offeringId x \<noteq> target"
      using that tin tid assms(1) by (auto simp: distinct_map inj_on_def)
    with that have x: "x \<in> set ?others" by simp
    then have "min_priority ?others \<le> priority x" by (rule min_priority_le)
    moreover have "?others \<noteq> []" using x by (metis length_pos_if_in_set less_irrefl list.size(3))
    ultimately
    show ?thesis using ps tid \<open>offeringId x \<noteq> target\<close> by (simp add: patched_def del: filter_filter filter_empty_conv)
  qed
  have "pick_best priority None (apply_patches ps ?rs) = Some (?q t)"
  proof (rule pick_best_unique)
    show "?q t \<in> set (apply_patches ps ?rs)" using tin by (auto simp: apply_patches_def)
    fix y assume "y \<in> set (apply_patches ps ?rs)" "y \<noteq> ?q t"
    then obtain x where "x \<in> set ?rs" "y = ?q x" "x \<noteq> t" by (auto simp: apply_patches_def)
    with less [of x] show "priority (?q t) < priority y" by simp
  qed
  then have "defaultModelForProvider (patch_catalog ps ms) p = Some (canonicalName t, modelDisplayName t)"
    by (subst default_by_rows [where own = own]) (simp add: provider_rows_patched del: filter_map)
  with tin tid own show ?thesis by blast
qed

definition example_offering :: "string \<Rightarrow> int \<Rightarrow> offering" where
  "example_offering oid n = \<lparr>oOfferingId = oid, oProviderId = ''p1'', oProviderName = ''openai'',
     oPlugin = ''openai'', oPriority = n, oCapabilities = [''plain-text'']\<rparr>"

definition example_catalog :: "model_info list" where
  "example_catalog =
     [\<lparr>mId = ''m1'', mCanonicalName = ''gpt-a'', mDisplayName = None, mOfferings = [example_offering ''o1'' 0]\<rparr>,
      \<lparr>mId = ''m2'', mCanonicalName = ''gpt-b'', mDisplayName = Some ''B'', mOfferings = [example_offering ''o2'' 0]\<rparr>]"

theorem make_default_wins_witness:
  "defaultModelForProvider example_catalog ''openai'' = Some (''gpt-a'', None) \<and>
   defaultModelForProvider (patch_catalog [(''o2'', -1)] example_catalog) ''openai'' = Some (''gpt-b'', Some ''B'')"
proof -
  have d: "distinct (map offeringId (provider_rows example_catalog (\<lambda>_. True) ''openai''))"
    and c: "computeMakeDefaultPatches (provider_rows example_catalog (\<lambda>_. True) ''openai'') ''o2'' = Some [(''o2'', -1)]"
    and a: "defaultModelForProvider example_catalog ''openai'' = Some (''gpt-a'', None)"
    and r: "map (\<lambda>r. (offeringId r, canonicalName r, modelDisplayName r)) (provider_rows example_catalog (\<lambda>_. True) ''openai'')
      = [(''o1'', ''gpt-a'', None), (''o2'', ''gpt-b'', Some ''B'')]"
    by code_simp+
  from make_default_wins [OF d c] obtain t where tin: "t \<in> set (provider_rows example_catalog (\<lambda>_. True) ''openai'')"
    and t: "offeringId t = ''o2''" "defaultModelForProvider (patch_catalog [(''o2'', -1)] example_catalog) ''openai''
      = Some (canonicalName t, modelDisplayName t)" by blast
  from imageI [OF tin, of "\<lambda>r. (offeringId r, canonicalName r, modelDisplayName r)"]
  have "(offeringId t, canonicalName t, modelDisplayName t)
      \<in> set (map (\<lambda>r. (offeringId r, canonicalName r, modelDisplayName r)) (provider_rows example_catalog (\<lambda>_. True) ''openai''))"
    by (simp only: set_map)
  with t a show ?thesis unfolding r by auto
qed


section \<open>Reordering\<close>

abbreviation by_priority :: "row list \<Rightarrow> bool" where
  "by_priority \<equiv> sorted_wrt (\<lambda>a b. priority a \<le> priority b)"

lemma row_at_nat: "row_at rs (int n) = (if drop n rs = [] then None else Some (hd (drop n rs)))"
  by (auto simp: row_at_def hd_drop_conv_nth)

lemma row_at_nth: "n < length rs \<Longrightarrow> row_at rs (int n) = Some (rs ! n)"
  by (simp add: row_at_def)

text \<open>The pair a reorder swaps, with what is before and after it.\<close>

lemma reorder_decomp:
  assumes "computeReorderPatches rs i dir = Some (e, l)"
  obtains us a b vs where "rs = us @ a # b # vs"
    and "prov a = SetHere" and "prov b = SetHere"
    and "i = int (length us) + (if dir = SUp then 1 else 0)"
    and "(e, l) = (let (pe, pl) = pair_priorities
        (if us = [] then None else Some (priority (last us)))
        (if vs = [] then None else Some (priority (hd vs))) (min (priority a) (priority b))
      in ((offeringId b, pe), (offeringId a, pl)))"
proof -
  let ?o = "if dir = SUp then i - 1 else i + 1"
  have r: "0 \<le> i" "i < int (length rs)" "0 \<le> ?o" "?o < int (length rs)"
    using assms by (auto simp: computeReorderPatches_def row_at_def Let_def split: if_splits option.splits)
  obtain j where j: "int j = min i ?o" using r by (metis min_def nonneg_int_cases)
  have io: "i = int (if dir = SUp then Suc j else j)" "?o = int (if dir = SUp then j else Suc j)"
    "min i ?o - 1 = int j - 1" "max i ?o + 1 = int (Suc (Suc j))"
    using j by (auto split: if_splits)
  have len: "Suc j < length rs" using r j by (auto split: if_splits)
  define us where "us = take j rs"
  define vs where "vs = drop (Suc (Suc j)) rs"
  have rs: "rs = us @ rs ! j # rs ! Suc j # vs"
    using len by (simp add: us_def vs_def Cons_nth_drop_Suc)
  have lo: "map_option priority (row_at rs (min i ?o - 1)) = (if us = [] then None else Some (priority (last us)))"
  proof (cases j)
    case 0
    then show ?thesis unfolding io(3) by (simp add: row_at_def us_def)
  next
    case (Suc k)
    then show ?thesis unfolding io(3)
      using len last_take [of j rs] row_at_nth [of k rs] by (auto simp: us_def)
  qed
  have hi: "map_option priority (row_at rs (max i ?o + 1)) = (if vs = [] then None else Some (priority (hd vs)))"
    unfolding io(4) row_at_nat vs_def by simp
  have ab: "row_at rs i = Some (if dir = SUp then rs ! Suc j else rs ! j)"
    "row_at rs ?o = Some (if dir = SUp then rs ! j else rs ! Suc j)"
    using row_at_nth [of "if dir = SUp then Suc j else j" rs] row_at_nth [of "if dir = SUp then j else Suc j" rs]
      len unfolding io(1) [symmetric] io(2) [symmetric] by (auto split: if_splits)
  show ?thesis
  proof (rule that [OF rs])
    show "prov (rs ! j) = SetHere" "prov (rs ! Suc j) = SetHere"
      using assms ab by (auto simp: computeReorderPatches_def Let_def split: if_splits)
    show "i = int (length us) + (if dir = SUp then 1 else 0)"
      using len io(1) by (simp add: us_def)
    show "(e, l) = (let (pe, pl) = pair_priorities
        (if us = [] then None else Some (priority (last us)))
        (if vs = [] then None else Some (priority (hd vs))) (min (priority (rs ! j)) (priority (rs ! Suc j)))
      in ((offeringId (rs ! Suc j), pe), (offeringId (rs ! j), pl)))"
      using assms unfolding computeReorderPatches_def Let_def ab lo hi
      by (cases "dir = SUp") (auto simp: min.commute split: if_splits prod.splits)
  qed
qed

text \<open>
  The new priorities keep the order, and do not leave the gap the neighbours give, when
  there is one.
\<close>

lemma pair_priorities_order: "pair_priorities lower upper base = (pe, pl) \<Longrightarrow>
    (\<forall>l u. lower = Some l \<longrightarrow> upper = Some u \<longrightarrow> l < u) \<Longrightarrow>
    pe < pl \<and> (\<forall>l. lower = Some l \<longrightarrow> l \<le> pe) \<and> (\<forall>u. upper = Some u \<longrightarrow> pl \<le> u)"
  by (auto simp: pair_priorities_def split: option.splits if_splits)

lemma apply_patches_id:
  "(\<And>r. r \<in> set rs \<Longrightarrow> map_of ps (offeringId r) = None) \<Longrightarrow> apply_patches ps rs = rs"
  by (induction rs) (auto simp: apply_patches_def patched_def)

lemma sorted_last: "by_priority us \<Longrightarrow> u \<in> set us \<Longrightarrow> priority u \<le> priority (last us)"
  by (induction us) auto

lemma sorted_hd: "by_priority vs \<Longrightarrow> v \<in> set vs \<Longrightarrow> priority (hd vs) \<le> priority v"
  by (cases vs) auto

text \<open>
  Also shown. Reordering swaps exactly the two rows it names. For a model's rows in priority order,
  the two patches put the moved row strictly before or after its neighbour, keep both rows
  between the rows around them, and so leave the list in priority order with only that pair
  swapped; provided the rows around the pair, where both exist, differ in priority.
\<close>

theorem reorder_swaps:
  assumes "distinct (map offeringId rs)" and "by_priority rs"
    and "computeReorderPatches rs i dir = Some (e, l)"
    and "\<And>x y. row_at rs (min i (if dir = SUp then i - 1 else i + 1) - 1) = Some x \<Longrightarrow>
      row_at rs (max i (if dir = SUp then i - 1 else i + 1) + 1) = Some y \<Longrightarrow> priority x < priority y"
  shows "\<exists>us a b vs. rs = us @ a # b # vs \<and> i = int (length us) + (if dir = SUp then 1 else 0) \<and>
    fst e = offeringId b \<and> fst l = offeringId a \<and> snd e < snd l \<and>
    by_priority (apply_patches [e, l] (us @ b # a # vs))"
proof -
  from assms(3) obtain us a b vs where rs: "rs = us @ a # b # vs"
    and i: "i = int (length us) + (if dir = SUp then 1 else 0)"
    and el: "(e, l) = (let (pe, pl) = pair_priorities
        (if us = [] then None else Some (priority (last us)))
        (if vs = [] then None else Some (priority (hd vs))) (min (priority a) (priority b))
      in ((offeringId b, pe), (offeringId a, pl)))"
    by (rule reorder_decomp) blast
  obtain pe pl where pp: "pair_priorities (if us = [] then None else Some (priority (last us)))
        (if vs = [] then None else Some (priority (hd vs))) (min (priority a) (priority b)) = (pe, pl)"
    by (cases "pair_priorities (if us = [] then None else Some (priority (last us)))
        (if vs = [] then None else Some (priority (hd vs))) (min (priority a) (priority b))")
  with el have e: "e = (offeringId b, pe)" and l: "l = (offeringId a, pl)" by auto
  have gap: "priority (last us) < priority (hd vs)" if ne: "us \<noteq> []" "vs \<noteq> []"
  proof (rule assms(4))
    have "min i (if dir = SUp then i - 1 else i + 1) - 1 = int (length us - 1)"
      using ne i by (auto simp: of_nat_diff Suc_leI)
    then show "row_at rs (min i (if dir = SUp then i - 1 else i + 1) - 1) = Some (last us)"
      using ne by (simp add: row_at_def rs nth_append last_conv_nth)
    have "max i (if dir = SUp then i - 1 else i + 1) + 1 = int (length us + 2)"
      using i by auto
    then show "row_at rs (max i (if dir = SUp then i - 1 else i + 1) + 1) = Some (hd vs)"
      using ne by (simp add: row_at_def rs nth_append hd_conv_nth)
  qed
  have ord: "pe < pl" "us \<noteq> [] \<Longrightarrow> priority (last us) \<le> pe" "vs \<noteq> [] \<Longrightarrow> pl \<le> priority (hd vs)"
    using pair_priorities_order [OF pp] gap by (auto split: if_splits)
  have ids: "apply_patches [e, l] us = us" "apply_patches [e, l] vs = vs"
    using assms(1) unfolding rs e l by (auto intro!: apply_patches_id simp: image_iff) metis+
  have ne: "offeringId a \<noteq> offeringId b" using assms(1) rs by auto
  have app: "apply_patches [e, l] (us @ b # a # vs) =
      us @ b\<lparr>priority := pe\<rparr> # a\<lparr>priority := pl\<rparr> # vs"
    using ids ne by (simp add: apply_patches_def patched_def e l)
  have us: "by_priority us" and vs: "by_priority vs"
    using assms(2) unfolding rs by (auto simp: sorted_wrt_append)
  have below: "priority u \<le> pe" if "u \<in> set us" for u
    using sorted_last [OF us that] ord(2) that by force
  have above: "pl \<le> priority v" if "v \<in> set vs" for v
    using sorted_hd [OF vs that] ord(3) that by force
  have "by_priority (us @ b\<lparr>priority := pe\<rparr> # a\<lparr>priority := pl\<rparr> # vs)"
    using us vs ord(1) below above assms(2) unfolding rs
    by (auto simp: sorted_wrt_append) (force dest: below above)+
  with rs i e l ord(1) app show ?thesis
    by (intro exI [of _ us] exI [of _ a] exI [of _ b] exI [of _ vs]) simp
qed


definition example_row :: "string \<Rightarrow> int \<Rightarrow> row" where
  "example_row oid n = row_of (\<lambda>_. True)
     \<lparr>mId = ''m1'', mCanonicalName = ''gpt-a'', mDisplayName = None, mOfferings = []\<rparr> (example_offering oid n)"

theorem reorder_swaps_witness:
  "\<exists>us a b vs. [example_row ''a'' 0, example_row ''b'' 2, example_row ''c'' 2, example_row ''d'' 5] = us @ a # b # vs \<and>
     (2::int) = int (length us) + (if SUp = SUp then 1 else 0) \<and>
     fst (''c'', 1::int) = offeringId b \<and> fst (''b'', 4::int) = offeringId a \<and> snd (''c'', 1::int) < snd (''b'', 4) \<and>
     by_priority (apply_patches [(''c'', 1), (''b'', 4)] (us @ b # a # vs))"
proof (rule reorder_swaps)
  let ?rs = "[example_row ''a'' 0, example_row ''b'' 2, example_row ''c'' 2, example_row ''d'' 5]"
  show "computeReorderPatches ?rs 2 SUp = Some ((''c'', 1), (''b'', 4))" by code_simp
  show "distinct (map offeringId ?rs)" by code_simp
  show "by_priority ?rs" by (simp add: example_row_def row_of_def example_offering_def)
  show "priority x < priority y"
    if "row_at ?rs (min 2 (if SUp = SUp then 2 - 1 else 2 + 1) - 1) = Some x"
      "row_at ?rs (max 2 (if SUp = SUp then 2 - 1 else 2 + 1) + 1) = Some y" for x y
    using that by (auto simp: row_at_def example_row_def row_of_def example_offering_def)
qed

text \<open>
  Without that gap the moved pair is pushed past a row the call does not touch: with every
  priority 0, as seeding leaves them, moving the second of four rows up puts the first of
  them behind the fourth.
\<close>

theorem reorder_crosses_on_ties:
  "let rs = [example_row ''a'' 0, example_row ''b'' 0, example_row ''c'' 0, example_row ''d'' 0]
   in computeReorderPatches rs 2 SUp = Some ((''c'', 0), (''b'', 1)) \<and>
      map offeringId (js_sort (\<lambda>x y. priority x \<le> priority y) (apply_patches [(''c'', 0), (''b'', 1)] rs))
        = [''a'', ''c'', ''d'', ''b'']"
  by code_simp

section \<open>The shared route\<close>

lemma map_of_indexed:
  assumes "distinct (map f xs)" and "k < length xs"
  shows "map_of (concat (map (\<lambda>j. if P j then [(f (xs ! j), v j)] else []) [0..<length xs])) (f (xs ! k))
    = (if P k then Some (v k) else None)"
proof -
  let ?js = "filter P [0..<length xs]"
  have eq: "concat (map (\<lambda>j. if P j then [(f (xs ! j), v j)] else []) js)
      = map (\<lambda>j. (f (xs ! j), v j)) (filter P js)" for js
    by (induction js) auto
  have inj: "f (xs ! i) = f (xs ! j) \<longleftrightarrow> i = j" if "i < length xs" "j < length xs" for i j
    using assms(1) that nth_eq_iff_index_eq [of "map f xs" i j] by simp
  have d: "distinct (map fst (map (\<lambda>j. (f (xs ! j), v j)) ?js))"
    by (auto simp: distinct_map inj_on_def inj)
  show ?thesis
  proof (cases "P k")
    case True
    with assms(2) have "(f (xs ! k), v k) \<in> set (map (\<lambda>j. (f (xs ! j), v j)) ?js)" by auto
    with d True show ?thesis unfolding eq by (simp add: map_of_is_SomeI del: set_map)
  next
    case False
    then have "f (xs ! k) \<notin> fst ` set (map (\<lambda>j. (f (xs ! j), v j)) ?js)"
      using assms(2) by (auto simp: inj)
    with False show ?thesis unfolding eq by (auto simp: map_of_eq_None_iff simp del: set_map)
  qed
qed

lemma min_priority_in: "rs \<noteq> [] \<Longrightarrow> \<exists>r \<in> set rs. min_priority rs = priority r"
proof (cases rs)
  case (Cons x xs)
  have "foldr (\<lambda>r m. min (priority r) m) xs (priority x) \<in> priority ` set (x # xs)"
    by (induction xs) (auto simp: min_def)
  with Cons show ?thesis by (auto simp: min_priority_def)
qed simp

lemma min_priority_compact:
  assumes "map priority rs = map (\<lambda>k. b + int k) [0..<length rs]" and "rs \<noteq> []"
  shows "min_priority rs = b"
proof -
  have nth: "priority (rs ! k) = b + int k" if "k < length rs" for k
    using arg_cong [OF assms(1), of "\<lambda>l. l ! k"] that by simp
  from min_priority_in [OF assms(2)] obtain k where "k < length rs" "min_priority rs = priority (rs ! k)"
    by (auto simp: in_set_conv_nth)
  moreover have "min_priority rs \<le> priority (rs ! 0)" using assms(2) by (simp add: min_priority_le)
  ultimately show ?thesis using nth assms(2) by (simp add: nth)
qed

text \<open>
  Also shown. Moving an offering in the shared route does what is shown. When every offering is
  owned here, of one model, and the route's priorities are consecutive, the resolver's
  order after the patches is the route with the target moved to its destination.
\<close>

theorem global_route_moves:
  assumes "compare_ok cmp" and "distinct (map offeringId rs)"
    and "map priority (orderedGlobalInferenceRows cmp rs) = map (\<lambda>k. b + int k) [0..<length rs]"
    and "computeGlobalRoutePatches cmp rs target mv = Some ps"
    and "find_index (\<lambda>r. offeringId r = target) (orderedGlobalInferenceRows cmp rs) = Some i"
    and "0 \<le> destination mv i" and "destination mv i < int (length rs)"
  shows "map offeringId (orderedGlobalInferenceRows cmp (apply_patches ps rs)) =
    map offeringId (move_to i (nat (destination mv i)) (orderedGlobalInferenceRows cmp rs))"
proof -
  define ordered where "ordered = orderedGlobalInferenceRows cmp rs"
  define nxt where "nxt = move_to i (nat (destination mv i)) ordered"
  let ?n = "length rs" and ?id = offeringId
  have mo: "mset ordered = mset rs" and lo: "length ordered = ?n"
    by (simp_all add: ordered_def orderedGlobalInferenceRows_def)
  have i: "i < ?n" using find_index_Some [OF assms(5)] lo by (simp add: ordered_def)
  have mn: "mset nxt = mset rs" and ln: "length nxt = ?n"
    using i lo mo by (simp_all add: nxt_def mset_move_to length_move_to)
  have dn: "distinct (map ?id nxt)" and do: "distinct (map ?id ordered)"
    using assms(2) mn mo by (metis mset_eq_imp_distinct_iff mset_map)+
  have po: "priority (ordered ! k) = b + int k" if "k < ?n" for k
    using arg_cong [OF assms(3), of "\<lambda>l. l ! k"] that lo by (simp add: ordered_def)
  have ne: "ordered \<noteq> []" using lo i by (cases ordered) simp_all
  have base: "min_priority ordered = b"
    by (rule min_priority_compact [OF _ ne]) (use assms(3) lo in \<open>simp add: ordered_def\<close>)
  have ps: "ps = concat (map (\<lambda>j. if ?id (ordered ! j) \<noteq> ?id (nxt ! j)
      then [(?id (nxt ! j), b + int j)] else []) [0..<length nxt])"
    using assms(4-7) base lo
    by (auto simp: computeGlobalRoutePatches_def Let_def ordered_def [symmetric] nxt_def [symmetric] split: if_splits)
  have pn: "priority (apply_patches ps nxt ! k) = b + int k" if k: "k < ?n" for k
  proof (cases "?id (ordered ! k) = ?id (nxt ! k)")
    case True
    have "nxt ! k \<in> set ordered" using k ln mn mo by (metis nth_mem set_mset_mset)
    with True do k lo have "nxt ! k = ordered ! k"
      by (metis distinct_map inj_on_def nth_mem)
    moreover have "map_of ps (?id (nxt ! k)) = None"
      using map_of_indexed [OF dn, of k "\<lambda>j. ?id (ordered ! j) \<noteq> ?id (nxt ! j)" "\<lambda>j. b + int j"] True k ln
      unfolding ps by simp
    ultimately show ?thesis using po k ln by (simp add: apply_patches_def patched_def)
  next
    case False
    with k map_of_indexed [OF dn, of k "\<lambda>j. ?id (ordered ! j) \<noteq> ?id (nxt ! j)" "\<lambda>j. b + int j"] ln show ?thesis
      unfolding ps by (simp add: apply_patches_def patched_def)
  qed
  have "orderedGlobalInferenceRows cmp (apply_patches ps rs) = apply_patches ps nxt"
    unfolding orderedGlobalInferenceRows_def
  proof (rule comparator.sort_unique [OF route_comparator [OF assms(1)]])
    show "mset (apply_patches ps rs) = mset (apply_patches ps nxt)"
      by (simp add: apply_patches_def mn)
    have len: "length (apply_patches ps nxt) = ?n" by (simp add: apply_patches_def ln)
    show "sorted_wrt (\<lambda>x y. route_le cmp x y \<and> \<not> route_le cmp y x) (apply_patches ps nxt)"
      unfolding sorted_wrt_iff_nth_less len
      using pn by (auto simp: route_le_def route_compare_def or_else_def)
  qed
  then show ?thesis by (simp add: apply_patches_def ordered_def nxt_def)
qed

text \<open>A concrete \<open>localeCompare\<close> on plain ASCII keys, by code units.\<close>

fun code_compare :: "string \<Rightarrow> string \<Rightarrow> int" where
  "code_compare [] [] = 0"
| "code_compare [] (y # ys) = -1"
| "code_compare (x # xs) [] = 1"
| "code_compare (x # xs) (y # ys) =
     (if char_code x < char_code y then -1 else if char_code y < char_code x then 1
      else code_compare xs ys)"

lemma compare_ok_code: "compare_ok code_compare"
proof -
  have flip: "0 < code_compare x y \<longleftrightarrow> code_compare y x < 0" for x y
    by (induction x y rule: code_compare.induct) auto
  have trans: "code_compare x y \<le> 0 \<Longrightarrow> code_compare y z \<le> 0 \<Longrightarrow> code_compare x z \<le> 0" for x y z
  proof (induction x y arbitrary: z rule: code_compare.induct)
    case (1 z)
    then show ?case by simp
  next
    case (2 y ys z)
    then show ?case by (cases z) auto
  next
    case (3 x xs z)
    then show ?case by simp
  next
    case (4 x xs y ys z)
    show ?case
    proof (cases z)
      case Nil
      with 4 show ?thesis by simp
    next
      case (Cons w ws)
      have le: "code_compare (u # us) (v # vs) \<le> 0 \<longleftrightarrow>
          char_code u < char_code v \<or> char_code u = char_code v \<and> code_compare us vs \<le> 0" for u v us vs
        by simp
      from 4 Cons show ?thesis unfolding Cons le by (metis less_trans not_less_iff_gr_or_eq)
    qed
  qed
  show ?thesis unfolding compare_ok_def using flip trans by blast
qed

theorem global_route_moves_witness:
  "map offeringId (orderedGlobalInferenceRows code_compare (apply_patches [(''b'', 0), (''a'', 1)]
     [example_row ''a'' 0, example_row ''b'' 1, example_row ''c'' 2])) = [''b'', ''a'', ''c'']"
proof -
  let ?rs = "[example_row ''a'' 0, example_row ''b'' 1, example_row ''c'' 2]"
  have d: "distinct (map offeringId ?rs)"
    and p: "map priority (orderedGlobalInferenceRows code_compare ?rs) = map (\<lambda>k. 0 + int k) [0..<length ?rs]"
    and c: "computeGlobalRoutePatches code_compare ?rs ''b'' Up = Some [(''b'', 0), (''a'', 1)]"
    and f: "find_index (\<lambda>r. offeringId r = ''b'') (orderedGlobalInferenceRows code_compare ?rs) = Some 1"
    and m: "map offeringId (move_to 1 (nat (destination Up 1)) (orderedGlobalInferenceRows code_compare ?rs))
      = [''b'', ''a'', ''c'']"
    by code_simp+
  have "0 \<le> destination Up 1" "destination Up 1 < int (length ?rs)" by (simp_all add: destination_def)
  from global_route_moves [OF compare_ok_code d p c f this] m show ?thesis by simp
qed

text \<open>
  The patch of a row whose position does not change is left out, also when its priority
  does not fit its position. With the seed's equal priorities, moving the second of three
  offerings up makes it first, but the untouched third one second.
\<close>

theorem global_route_wrong_on_ties:
  "let rs = [example_row ''a'' 0, example_row ''b'' 0, example_row ''c'' 0]
   in computeGlobalRoutePatches code_compare rs ''b'' Up = Some [(''b'', 0), (''a'', 1)] \<and>
      map offeringId (orderedGlobalInferenceRows code_compare (apply_patches [(''b'', 0), (''a'', 1)] rs))
        = [''b'', ''c'', ''a'']"
  by code_simp

end
