(* ===== verification/Http.thy ===== *)
theory Http
  imports Prelude
begin

text \<open>
  The web app's calls of the hub: JSON values, requests and responses, the trace of what
  was sent, \<open>encodeURIComponent\<close>, and the helpers every client is built on, \<open>apiRequest\<close>
  and \<open>requestVoid\<close> of \<open>apps/web/src/api.ts\<close> with the error texts of
  \<open>lib/api-query/envelope.ts\<close>.

  The hub itself is a parameter \<open>hub\<close>: any function from a request and its state to an
  answer, or to the message of the network error \<open>fetch\<close> rejects with.
\<close>

section \<open>JSON\<close>

datatype json =
    JNull
  | JBool bool
  | JNum js_number
  | JStr string
  | JArr "json list"
  | JObj "(string \<times> json) list"

fun field :: "string \<Rightarrow> json \<Rightarrow> json option" where
  "field k (JObj fs) = map_of fs k"
| "field k _ = None"

definition str_field :: "string \<Rightarrow> json \<Rightarrow> string option" where
  "str_field k j = (case field k j of Some (JStr s) \<Rightarrow> Some s | _ \<Rightarrow> None)"

fun is_object :: "json \<Rightarrow> bool" where
  "is_object (JObj _) = True"
| "is_object _ = False"

text \<open>A schema: the parsed value, or the summary of what does not fit. \<open>None\<close> is no body.\<close>

type_synonym 'a schema = "json option \<Rightarrow> string + 'a"

definition on_json :: "string \<Rightarrow> (json \<Rightarrow> 'a option) \<Rightarrow> 'a schema" where
  "on_json summary f j =
     (case Option.bind j f of None \<Rightarrow> Inl summary | Some x \<Rightarrow> Inr x)"

fun all_some :: "('a \<Rightarrow> 'b option) \<Rightarrow> 'a list \<Rightarrow> 'b list option" where
  "all_some f [] = Some []"
| "all_some f (x # xs) =
     (case f x of None \<Rightarrow> None | Some y \<Rightarrow> map_option ((#) y) (all_some f xs))"

definition array_of :: "(json \<Rightarrow> 'a option) \<Rightarrow> json \<Rightarrow> 'a list option" where
  "array_of f j = (case j of JArr xs \<Rightarrow> all_some f xs | _ \<Rightarrow> None)"

text \<open>A page is an object with the rows under \<open>data\<close>.\<close>

definition page_of :: "(json \<Rightarrow> 'a option) \<Rightarrow> json \<Rightarrow> 'a list option" where
  "page_of f j = Option.bind (field ''data'' j) (array_of f)"

section \<open>Requests\<close>

datatype http_method = GET | POST | PATCH | PUT | DELETE

record request =
  rq_method :: http_method
  rq_path :: string
  rq_body :: "json option"

record response =
  rs_status :: nat
  rs_body :: "json option"

definition resp_ok :: "response \<Rightarrow> bool" where
  "resp_ok r \<longleftrightarrow> 200 \<le> rs_status r \<and> rs_status r \<le> 299"

type_synonym 'w hub = "request \<Rightarrow> 'w \<Rightarrow> (string + response) \<times> 'w"

record 'w net =
  server :: 'w
  sent :: "(request \<times> (string + response)) list"

text \<open>
  What a client throws: an error of a class, with its message, the HTTP status it carries
  and the flag of \<open>McpServerError\<close>; the error of a failed \<open>fetch\<close>; the error of \<open>json()\<close>
  on a body that is not JSON.
\<close>

datatype js_error =
    FetchError string
  | BadJson
  | Thrown string string "nat option" bool

abbreviation error_of :: "string \<Rightarrow> string \<Rightarrow> nat option \<Rightarrow> js_error" where
  "error_of cls msg status \<equiv> Thrown cls msg status False"

type_synonym ('w, 'a) client = "('w net, js_error, 'a) comp"

definition fetch_raw :: "'w hub \<Rightarrow> request \<Rightarrow> ('w net, js_error, string + response) comp" where
  "fetch_raw hub rq n =
     (case hub rq (server n) of (r, w) \<Rightarrow> (Inr r, n\<lparr>server := w, sent := sent n @ [(rq, r)]\<rparr>))"

definition fetchE :: "'w hub \<Rightarrow> request \<Rightarrow> ('w, response) client" where
  "fetchE hub rq =
     bindE (fetch_raw hub rq) (\<lambda>r. case r of Inl m \<Rightarrow> throwE (FetchError m) | Inr x \<Rightarrow> returnE x)"

definition get :: "string \<Rightarrow> request" where
  "get p = \<lparr>rq_method = GET, rq_path = p, rq_body = None\<rparr>"

definition post :: "string \<Rightarrow> json \<Rightarrow> request" where
  "post p b = \<lparr>rq_method = POST, rq_path = p, rq_body = Some b\<rparr>"

definition patch :: "string \<Rightarrow> json \<Rightarrow> request" where
  "patch p b = \<lparr>rq_method = PATCH, rq_path = p, rq_body = Some b\<rparr>"

definition del :: "string \<Rightarrow> request" where
  "del p = \<lparr>rq_method = DELETE, rq_path = p, rq_body = None\<rparr>"

definition is_get :: "request \<Rightarrow> bool" where
  "is_get rq \<longleftrightarrow> rq_method rq = GET"

lemma is_get_simps [simp]: "is_get (get p)" "\<not> is_get (post p b)"
  by (simp_all add: is_get_def get_def post_def)

definition json_body :: "response \<Rightarrow> ('w, json) client" where
  "json_body r = (case rs_body r of None \<Rightarrow> throwE BadJson | Some j \<Rightarrow> returnE j)"

section \<open>Errors\<close>

definition readErrorEnvelope :: "nat \<Rightarrow> json option \<Rightarrow> string option \<Rightarrow> string" where
  "readErrorEnvelope status body verb =
     (let err = Option.bind body (field ''error'');
          txt = (\<lambda>k. Option.bind err (str_field k));
          code = txt ''code'';
          refOk = (case Option.bind err (field ''refId'') of None \<Rightarrow> True | Some (JStr _) \<Rightarrow> True | _ \<Rightarrow> False)
      in if code \<noteq> None \<and> txt ''userMessage'' \<noteq> None \<and> refOk then the (txt ''userMessage'')
         else if code \<noteq> None \<and> txt ''message'' \<noteq> None then the (txt ''message'')
         else
           (case verb of
              Some (c # v) \<Rightarrow> ''The server answered '' @ dec status @ '' while '' @ (c # v) @ ''.''
            | _ \<Rightarrow> ''The server answered '' @ dec status @ ''.''))"

fun status_of :: "js_error \<Rightarrow> nat option" where
  "status_of (Thrown _ _ s _) = s"
| "status_of _ = None"

definition describeApiError :: "js_error \<Rightarrow> string \<Rightarrow> string" where
  "describeApiError e doing =
     (case status_of e of
        Some s \<Rightarrow>
          if s = 401 \<or> s = 403 then ''You don't have access to this.''
          else if s = 404 then ''This isn't here anymore.''
          else ''Something went wrong '' @ doing @ ''. Try again.''
      | None \<Rightarrow> ''Something went wrong '' @ doing @ ''. Try again.'')"

text \<open>A failed \<open>fetch\<close> is a \<open>TypeError\<close>.\<close>

definition describeQueryError :: "js_error \<Rightarrow> string" where
  "describeQueryError e =
     (case e of FetchError _ \<Rightarrow> ''Can't reach the server. Check your connection.''
      | _ \<Rightarrow> ''Something went wrong. Try again.'')"

section \<open>The two request helpers\<close>

definition unauthenticated :: js_error where
  "unauthenticated = error_of ''UnauthenticatedError'' ''unauthenticated'' None"

definition while_text :: "string option \<Rightarrow> string \<Rightarrow> string" where
  "while_text verb otherwise = (case verb of Some (c # v) \<Rightarrow> '' while '' @ (c # v) | _ \<Rightarrow> otherwise)"

definition apiRequest ::
  "'w hub \<Rightarrow> request \<Rightarrow> 'a schema \<Rightarrow> string option \<Rightarrow> string \<Rightarrow> bool \<Rightarrow> ('w, 'a) client" where
  "apiRequest hub rq schema verb cls on401 =
     bindE (fetch_raw hub rq) (\<lambda>answer.
     case answer of
       Inl m \<Rightarrow> throwE (error_of cls m None)
     | Inr r \<Rightarrow>
         if rs_status r = 401 \<and> on401 then throwE unauthenticated
         else if \<not> resp_ok r
         then throwE (error_of cls (readErrorEnvelope (rs_status r) (rs_body r) verb) (Some (rs_status r)))
         else (case schema (rs_body r) of
                 Inl summary \<Rightarrow>
                   throwE (error_of cls (''Unexpected response shape'' @ while_text verb [] @ '': '' @ summary) None)
               | Inr x \<Rightarrow> returnE x))"

definition requestVoid ::
  "'w hub \<Rightarrow> request \<Rightarrow> string option \<Rightarrow> string \<Rightarrow> bool \<Rightarrow> ('w, unit) client" where
  "requestVoid hub rq verb cls on401 =
     bindE (fetch_raw hub rq) (\<lambda>answer.
     case answer of
       Inl m \<Rightarrow> throwE (error_of cls m None)
     | Inr r \<Rightarrow>
         if rs_status r = 401 \<and> on401 then throwE unauthenticated
         else if \<not> resp_ok r
         then throwE (error_of cls (readErrorEnvelope (rs_status r) (rs_body r) verb) (Some (rs_status r)))
         else if rs_status r \<noteq> 204
         then throwE (error_of cls
           (''Unexpected response'' @ while_text verb ('' for '' @ rq_path rq)
             @ '': expected 204 No Content, got '' @ dec (rs_status r)) (Some (rs_status r)))
         else returnE ())"

section \<open>Path segments\<close>

text \<open>\<open>encodeURIComponent\<close>: UTF-8, with every byte but the unreserved characters escaped.\<close>

definition uri_unreserved :: "char \<Rightarrow> bool" where
  "uri_unreserved c \<longleftrightarrow> is_alnum c \<or> c \<in> set ''-_.!~*()'' \<or> c = CHR 0x27"

definition upper_hex :: "nat \<Rightarrow> char" where
  "upper_hex n = char_of (if n < 10 then 48 + n else 55 + n)"

definition percent :: "nat \<Rightarrow> string" where
  "percent b = [CHR ''%'', upper_hex (b div 16), upper_hex (b mod 16)]"

definition utf8 :: "char \<Rightarrow> nat list" where
  "utf8 c = (let n = char_code c in if n < 128 then [n] else [192 + n div 64, 128 + n mod 64])"

definition encode_char :: "char \<Rightarrow> string" where
  "encode_char c = (if uri_unreserved c then [c] else concat (map percent (utf8 c)))"

definition encodeURIComponent :: "string \<Rightarrow> string" where
  "encodeURIComponent s = concat (map encode_char s)"

definition tenantPath :: "string \<Rightarrow> string \<Rightarrow> string" where
  "tenantPath t rest = ''/api/tenants/'' @ encodeURIComponent t @ rest"


lemma upper_hex_inject: "m < 16 \<Longrightarrow> n < 16 \<Longrightarrow> upper_hex m = upper_hex n \<longleftrightarrow> m = n"
proof -
  assume mn: "m < 16" "n < 16"
  have code: "char_code (upper_hex k) = (if k < 10 then 48 + k else 55 + k)" if "k < 16" for k
    using that by (simp add: upper_hex_def)
  show ?thesis unfolding char_code_eq_iff [symmetric] using mn by (auto simp: code split: if_splits)
qed

lemma percent_inject:
  assumes "m < 256" and "n < 256"
  shows "percent m @ s = percent n @ t \<longleftrightarrow> m = n \<and> s = t"
proof -
  have "m = n \<longleftrightarrow> m div 16 = n div 16 \<and> m mod 16 = n mod 16" by (metis div_mult_mod_eq)
  with assms show ?thesis by (auto simp: percent_def upper_hex_inject)
qed

lemma percent_not_unreserved: "\<not> uri_unreserved CHR ''%''"
  by (simp add: uri_unreserved_def is_alnum_def is_digit_def is_ascii_upper_def is_ascii_lower_def
      in_range_def char_code_def)

lemma slash_not_unreserved: "\<not> uri_unreserved CHR ''/''"
  by (simp add: uri_unreserved_def is_alnum_def is_digit_def is_ascii_upper_def is_ascii_lower_def
      in_range_def char_code_def)

lemma escaped_percent: "\<not> uri_unreserved c \<Longrightarrow> \<exists>s. encode_char c = CHR ''%'' # s"
  by (auto simp: encode_char_def utf8_def percent_def Let_def)

lemma char_code_div: "char_code c div 64 < 4"
  using char_code_lt [of c] less_mult_imp_div_less [of "char_code c" 4 64] by simp

lemma utf8_inject:
  "concat (map percent (utf8 c)) @ s = concat (map percent (utf8 d)) @ t \<Longrightarrow> c = d \<and> s = t"
proof -
  assume eq: "concat (map percent (utf8 c)) @ s = concat (map percent (utf8 d)) @ t"
  note small = char_code_div [of c] char_code_div [of d]
  have "char_code c = char_code d \<and> s = t"
  proof (cases "char_code c < 128"; cases "char_code d < 128")
    assume "char_code c < 128" "char_code d < 128"
    with eq show ?thesis by (simp add: utf8_def percent_inject)
  next
    assume *: "char_code c < 128" "\<not> char_code d < 128"
    with eq small percent_inject [of "char_code c" "192 + char_code d div 64"] show ?thesis
      by (simp add: utf8_def Let_def)
  next
    assume *: "\<not> char_code c < 128" "char_code d < 128"
    with eq small percent_inject [of "192 + char_code c div 64" "char_code d"] show ?thesis
      by (simp add: utf8_def Let_def)
  next
    assume *: "\<not> char_code c < 128" "\<not> char_code d < 128"
    have "char_code c div 64 = char_code d div 64 \<and> char_code c mod 64 = char_code d mod 64 \<and> s = t"
      using eq * small by (simp add: utf8_def percent_inject Let_def)
    then show ?thesis by (metis div_mult_mod_eq)
  qed
  then show ?thesis by (simp add: char_code_eq_iff)
qed

lemma encode_char_inject: "encode_char c @ s = encode_char d @ t \<Longrightarrow> c = d \<and> s = t"
proof -
  assume eq: "encode_char c @ s = encode_char d @ t"
  consider "uri_unreserved c" "uri_unreserved d" | "uri_unreserved c" "\<not> uri_unreserved d"
    | "\<not> uri_unreserved c" "uri_unreserved d" | "\<not> uri_unreserved c" "\<not> uri_unreserved d" by blast
  then show ?thesis
  proof cases
    case 1
    with eq show ?thesis by (simp add: encode_char_def)
  next
    case 2
    with eq escaped_percent [of d] percent_not_unreserved show ?thesis by (auto simp: encode_char_def [of c])
  next
    case 3
    with eq escaped_percent [of c] percent_not_unreserved show ?thesis by (auto simp: encode_char_def [of d])
  next
    case 4
    with eq show ?thesis by (auto simp: encode_char_def dest: utf8_inject)
  qed
qed

lemma encode_char_ne: "encode_char c \<noteq> []"
  by (auto simp: encode_char_def utf8_def percent_def Let_def)

lemma encodeURIComponent_inject: "encodeURIComponent s = encodeURIComponent t \<Longrightarrow> s = t"
proof (induction s arbitrary: t)
  case Nil
  then show ?case by (cases t) (auto simp: encodeURIComponent_def encode_char_ne)
next
  case (Cons c s)
  then obtain d t' where t: "t = d # t'"
    by (cases t) (auto simp: encodeURIComponent_def encode_char_ne)
  with Cons.prems have "c = d \<and> encodeURIComponent s = encodeURIComponent t'"
    unfolding encodeURIComponent_def by (auto dest: encode_char_inject)
  with Cons.IH t show ?case by blast
qed

lemma upper_hex_not_slash: "n < 16 \<Longrightarrow> upper_hex n \<noteq> CHR ''/''"
proof
  assume n: "n < 16" and "upper_hex n = CHR ''/''"
  then have "char_code (upper_hex n) = 47" by (simp add: char_code_def)
  with n show False by (simp add: upper_hex_def split: if_splits)
qed

lemma encode_no_slash: "CHR ''/'' \<notin> set (encodeURIComponent s)"
proof -
  have "CHR ''/'' \<notin> set (encode_char c)" for c
  proof (cases "uri_unreserved c")
    case True
    with slash_not_unreserved show ?thesis by (auto simp: encode_char_def)
  next
    case False
    have b: "b < 256" if "b \<in> set (utf8 c)" for b
      using that char_code_div [of c] char_code_lt [of c] by (auto simp: utf8_def Let_def split: if_splits)
    have "CHR ''/'' \<notin> set (percent b)" if "b < 256" for b
      using less_mult_imp_div_less [of b 16 16] that upper_hex_not_slash [of "b div 16"] upper_hex_not_slash [of "b mod 16"]
      by (auto simp: percent_def)
    with b False show ?thesis by (auto simp: encode_char_def)
  qed
  then show ?thesis by (auto simp: encodeURIComponent_def)
qed

lemma tenantPath_inject:
  assumes "tenantPath t r = tenantPath t' r'"
    and "r = [] \<or> hd r = CHR ''/''" and "r' = [] \<or> hd r' = CHR ''/''"
  shows "t = t' \<and> r = r'"
proof -
  from assms(1) have eq: "encodeURIComponent t @ r = encodeURIComponent t' @ r'" by (simp add: tenantPath_def)
  have tw: "takeWhile (\<lambda>c. c \<noteq> CHR ''/'') (encodeURIComponent u @ q) = encodeURIComponent u"
    if "q = [] \<or> hd q = CHR ''/''" for u q
  proof -
    have "takeWhile (\<lambda>c. c \<noteq> CHR ''/'') q = []" using that by (cases q) auto
    moreover have "c \<noteq> CHR ''/''" if "c \<in> set (encodeURIComponent u)" for c
      using that encode_no_slash by metis
    ultimately show ?thesis by (simp add: takeWhile_append2)
  qed
  from eq have "takeWhile (\<lambda>c. c \<noteq> CHR ''/'') (encodeURIComponent t @ r)
      = takeWhile (\<lambda>c. c \<noteq> CHR ''/'') (encodeURIComponent t' @ r')" by simp
  then have "encodeURIComponent t = encodeURIComponent t'" using tw assms(2,3) by simp
  with eq show ?thesis by (simp add: encodeURIComponent_inject)
qed

section \<open>Decoding\<close>

text \<open>\<open>decodeURIComponent\<close> of a text that decodes to code points below 256: one or two escaped bytes a
  character. \<open>None\<close> is an exception or a code point outside the model.\<close>

definition hex_digit :: "char \<Rightarrow> nat option" where
  "hex_digit c =
     (let n = char_code c in
      if is_digit c then Some (n - 48)
      else if in_range 65 70 c then Some (n - 55)
      else if in_range 97 102 c then Some (n - 87) else None)"

definition hex_byte :: "string \<Rightarrow> (nat \<times> string) option" where
  "hex_byte s =
     (case s of
        p # h # l # rest \<Rightarrow>
          if p = CHR ''%'' then
            (case (hex_digit h, hex_digit l) of (Some a, Some b) \<Rightarrow> Some (16 * a + b, rest) | _ \<Rightarrow> None)
          else None
      | _ \<Rightarrow> None)"

definition hex_char :: "string \<Rightarrow> (char \<times> string) option" where
  "hex_char s =
     (case hex_byte s of
        None \<Rightarrow> None
      | Some (b, rest) \<Rightarrow>
          if b < 128 then Some (char_of b, rest)
          else if b = 194 \<or> b = 195 then
            (case hex_byte rest of
               Some (d, rest') \<Rightarrow> if 128 \<le> d \<and> d < 192 then Some (char_of ((b - 192) * 64 + (d - 128)), rest') else None
             | None \<Rightarrow> None)
          else None)"

lemma hex_byte_shorter: "hex_byte s = Some (b, rest) \<Longrightarrow> length rest < length s"
  by (auto simp: hex_byte_def split: list.splits if_splits option.splits)

lemma hex_char_shorter: "hex_char s = Some (c, rest) \<Longrightarrow> length rest < length s"
  by (auto simp: hex_char_def split: option.splits if_splits prod.splits dest!: hex_byte_shorter)

function decodeURIComponent :: "string \<Rightarrow> string option" where
  "decodeURIComponent s =
     (case s of
        [] \<Rightarrow> Some []
      | c # s' \<Rightarrow>
          if c = CHR ''%'' then
            (case hex_char s of None \<Rightarrow> None | Some (d, rest) \<Rightarrow> map_option ((#) d) (decodeURIComponent rest))
          else map_option ((#) c) (decodeURIComponent s'))"
  by pat_completeness auto
termination by (relation "measure length") (auto dest: hex_char_shorter)

declare decodeURIComponent.simps [simp del]

lemma hex_digit_upper_hex: "n < 16 \<Longrightarrow> hex_digit (upper_hex n) = Some n"
  by (auto simp: hex_digit_def upper_hex_def is_digit_def in_range_def Let_def)

lemma hex_byte_percent: "b < 256 \<Longrightarrow> hex_byte (percent b @ s) = Some (b, s)"
  using less_mult_imp_div_less [of b 16 16] by (simp add: hex_byte_def percent_def hex_digit_upper_hex)

lemma hex_char_utf8: "hex_char (concat (map percent (utf8 c)) @ s) = Some (c, s)"
proof (cases "char_code c < 128")
  case True
  then show ?thesis by (simp add: utf8_def hex_char_def hex_byte_percent)
next
  case False
  have q: "char_code c div 64 = 2 \<or> char_code c div 64 = 3" using False char_code_div [of c] by auto
  have "char_of ((char_code c div 64) * 64 + char_code c mod 64) = c" by simp
  then have "char_of (q * 64 + char_code c mod 64) = c" if "char_code c div 64 = q" for q using that by simp
  from this [of 2] this [of 3] q False show ?thesis by (auto simp: utf8_def hex_char_def hex_byte_percent Let_def)
qed

lemma decode_encode_char:
  "decodeURIComponent (encode_char c @ s) = map_option ((#) c) (decodeURIComponent s)"
proof (cases "uri_unreserved c")
  case True
  then have "c \<noteq> CHR ''%''" using percent_not_unreserved by auto
  with True show ?thesis by (simp add: encode_char_def decodeURIComponent.simps [of "c # s"])
next
  case False
  from escaped_percent [OF False] obtain t where t: "encode_char c = CHR ''%'' # t" ..
  from False have e: "encode_char c = concat (map percent (utf8 c))" by (simp add: encode_char_def)
  have "hex_char (CHR ''%'' # t @ s) = Some (c, s)" using hex_char_utf8 [of c s] e t by (metis append_Cons)
  then show ?thesis by (simp add: t decodeURIComponent.simps [of "CHR ''%'' # t @ s"])
qed

lemma decode_encode: "decodeURIComponent (encodeURIComponent s) = Some s"
proof (induction s)
  case Nil
  then show ?case by (simp add: encodeURIComponent_def decodeURIComponent.simps)
next
  case (Cons c s)
  then show ?case using decode_encode_char [of c "encodeURIComponent s"] by (simp add: encodeURIComponent_def)
qed

section \<open>What was sent\<close>

text \<open>Every call of \<open>fetch\<close> is one entry of the trace, whatever it answers.\<close>

lemma fetch_raw_run:
  "fetch_raw hub rq n = (r, n') \<longleftrightarrow>
     (\<exists>a w. hub rq (server n) = (a, w) \<and> r = Inr a \<and> n' = n\<lparr>server := w, sent := sent n @ [(rq, a)]\<rparr>)"
  by (auto simp: fetch_raw_def split: prod.splits)

text \<open>\<open>sends P m\<close>: whatever the hub answers, \<open>m\<close> only appends, and only requests in \<open>P\<close>.\<close>

definition sends :: "(request \<Rightarrow> bool) \<Rightarrow> ('w, 'a) client \<Rightarrow> bool" where
  "sends P m \<longleftrightarrow> (\<forall>n r n'. m n = (r, n') \<longrightarrow>
     (\<exists>t. sent n' = sent n @ t \<and> (\<forall>x \<in> set t. P (fst x))))"

named_theorems sends_rules "which requests a client sends"

lemma sendsE:
  assumes "sends P m" and "m n = (r, n')"
  obtains t where "sent n' = sent n @ t" and "\<forall>x \<in> set t. P (fst x)"
  using assms unfolding sends_def by blast

lemma sends_return [sends_rules]: "sends P (returnE x)"
  by (simp add: sends_def monad_defs)

lemma sends_throw [sends_rules]: "sends P (throwE e)"
  by (simp add: sends_def monad_defs)

lemma sends_bind [sends_rules]:
  assumes "sends P m" and "\<And>x. sends P (f x)"
  shows "sends P (bindE m f)"
  unfolding sends_def
proof (intro allI impI)
  fix n r n' assume run: "bindE m f n = (r, n')"
  obtain r1 n1 where 1: "m n = (r1, n1)" by (cases "m n")
  with assms(1) obtain t where t: "sent n1 = sent n @ t" "\<forall>x \<in> set t. P (fst x)" by (rule sendsE)
  have "\<exists>u. sent n' = sent n1 @ u \<and> (\<forall>x \<in> set u. P (fst x))"
  proof (cases r1)
    case (Inl e)
    with run 1 show ?thesis by (simp add: bindE_def)
  next
    case (Inr x)
    with run 1 have "f x n1 = (r, n')" by (simp add: bindE_def)
    with assms(2) [of x] show ?thesis unfolding sends_def by blast
  qed
  with t show "\<exists>t. sent n' = sent n @ t \<and> (\<forall>x \<in> set t. P (fst x))" by auto
qed

lemma sends_fetch [sends_rules]: "P rq \<Longrightarrow> sends P (fetch_raw hub rq)"
  by (auto simp: sends_def fetch_raw_run)

lemma sends_if [sends_rules]: "(b \<Longrightarrow> sends P m) \<Longrightarrow> (\<not> b \<Longrightarrow> sends P k) \<Longrightarrow> sends P (if b then m else k)"
  by simp

lemma sends_option [sends_rules]:
  "sends P m \<Longrightarrow> (\<And>x. sends P (f x)) \<Longrightarrow> sends P (case v of None \<Rightarrow> m | Some x \<Rightarrow> f x)"
  by (cases v) auto

lemma sends_sum [sends_rules]:
  "(\<And>x. sends P (f x)) \<Longrightarrow> (\<And>x. sends P (g x)) \<Longrightarrow> sends P (case v of Inl x \<Rightarrow> f x | Inr x \<Rightarrow> g x)"
  by (cases v) auto

lemma sends_prod [sends_rules]: "(\<And>x y. sends P (f x y)) \<Longrightarrow> sends P (case v of (x, y) \<Rightarrow> f x y)"
  by (cases v) auto

lemma sends_fetchE [sends_rules]: "P rq \<Longrightarrow> sends P (fetchE hub rq)"
  unfolding fetchE_def by (intro sends_rules)

lemma sends_json [sends_rules]: "sends P (json_body r)"
  unfolding json_body_def by (intro sends_rules)

lemma sends_apiRequest [sends_rules]: "P rq \<Longrightarrow> sends P (apiRequest hub rq schema verb cls b)"
  unfolding apiRequest_def by (intro sends_rules)

lemma sends_requestVoid [sends_rules]: "P rq \<Longrightarrow> sends P (requestVoid hub rq verb cls b)"
  unfolding requestVoid_def by (intro sends_rules)

lemma sends_weaken: "sends P m \<Longrightarrow> (\<And>rq. P rq \<Longrightarrow> Q rq) \<Longrightarrow> sends Q m"
  unfolding sends_def by blast

text \<open>
  \<open>Promise.all\<close>: every call is made, whatever becomes of the others; the calls are taken in
  order and the first of them that failed is the error.
\<close>

fun allE :: "('w, 'a) client list \<Rightarrow> ('w, 'a list) client" where
  "allE [] n = (Inr [], n)"
| "allE (m # ms) n =
     (case m n of (r, n1) \<Rightarrow>
       (case allE ms n1 of (rs, n2) \<Rightarrow>
         (case r of Inl e \<Rightarrow> (Inl e, n2)
          | Inr x \<Rightarrow> (case rs of Inl e \<Rightarrow> (Inl e, n2) | Inr xs \<Rightarrow> (Inr (x # xs), n2)))))"

lemma sends_all: "(\<And>m. m \<in> set ms \<Longrightarrow> sends P m) \<Longrightarrow> sends P (allE ms)"
proof (induction ms)
  case Nil
  then show ?case by (simp add: sends_def)
next
  case (Cons m ms)
  show ?case unfolding sends_def
  proof (intro allI impI)
    fix n r n' assume run: "allE (m # ms) n = (r, n')"
    obtain r1 n1 where 1: "m n = (r1, n1)" by (cases "m n")
    obtain rs n2 where 2: "allE ms n1 = (rs, n2)" by (cases "allE ms n1")
    have "n' = n2" using run 1 2 by (auto split: sum.splits)
    moreover have "sends P m" "sends P (allE ms)" using Cons by simp_all
    ultimately show "\<exists>t. sent n' = sent n @ t \<and> (\<forall>x \<in> set t. P (fst x))"
      using 1 2 by (fastforce elim!: sendsE)
  qed
qed

text \<open>\<open>Promise.all\<close> of two calls of different types.\<close>

definition bothE :: "('w, 'a) client \<Rightarrow> ('w, 'b) client \<Rightarrow> ('w, 'a \<times> 'b) client" where
  "bothE m k n =
     (case m n of (r, n1) \<Rightarrow> (case k n1 of (q, n2) \<Rightarrow>
        (case (r, q) of
           (Inl e, _) \<Rightarrow> (Inl e, n2) | (Inr x, Inl e) \<Rightarrow> (Inl e, n2) | (Inr x, Inr y) \<Rightarrow> (Inr (x, y), n2))))"

lemma bothE_state: "snd (bothE m k n) = snd (k (snd (m n)))"
  by (auto simp: bothE_def split: prod.splits sum.splits)

lemma sends_both [sends_rules]:
  assumes "sends P m" and "sends P k"
  shows "sends P (bothE m k)"
  unfolding sends_def
proof (intro allI impI)
  fix n r n' assume run: "bothE m k n = (r, n')"
  obtain r1 n1 where 1: "m n = (r1, n1)" by (cases "m n")
  obtain r2 n2 where 2: "k n1 = (r2, n2)" by (cases "k n1")
  have "n' = n2" using bothE_state [of m k n] run 1 2 by simp
  with 1 2 assms show "\<exists>t. sent n' = sent n @ t \<and> (\<forall>x \<in> set t. P (fst x))"
    by (fastforce elim!: sendsE)
qed

section \<open>Calls that need not answer\<close>

text \<open>A loop over pages or lines may not end; the call then gives no result at all.\<close>

type_synonym ('w, 'a) pclient = "'w net \<Rightarrow> ((js_error + 'a) \<times> 'w net) option"

definition liftP :: "('w, 'a) client \<Rightarrow> ('w, 'a) pclient" where
  "liftP m n = Some (m n)"

definition bindP :: "('w, 'a) pclient \<Rightarrow> ('a \<Rightarrow> ('w, 'b) pclient) \<Rightarrow> ('w, 'b) pclient" where
  "bindP m f n = (case m n of None \<Rightarrow> None | Some (Inl e, n') \<Rightarrow> Some (Inl e, n') | Some (Inr x, n') \<Rightarrow> f x n')"

lemma bindP_Inr:
  "bindP m f n = Some (Inr y, n') \<longleftrightarrow> (\<exists>x n1. m n = Some (Inr x, n1) \<and> f x n1 = Some (Inr y, n'))"
  by (auto simp: bindP_def split: option.splits sum.splits)

lemma liftP_Some: "liftP m n = Some p \<longleftrightarrow> m n = p"
  by (simp add: liftP_def)

text \<open>\<open>sendsP\<close> is \<open>sends\<close> for calls that need not answer.\<close>

definition sendsP :: "(request \<Rightarrow> bool) \<Rightarrow> ('w, 'a) pclient \<Rightarrow> bool" where
  "sendsP P m \<longleftrightarrow> (\<forall>n r n'. m n = Some (r, n') \<longrightarrow> (\<exists>t. sent n' = sent n @ t \<and> (\<forall>x \<in> set t. P (fst x))))"

lemma sendsP_lift [sends_rules]: "sends P m \<Longrightarrow> sendsP P (liftP m)"
  by (simp add: sendsP_def sends_def liftP_def)

lemma sendsP_bind [sends_rules]:
  assumes "sendsP P m" and "\<And>x. sendsP P (f x)"
  shows "sendsP P (bindP m f)"
  unfolding sendsP_def
proof (intro allI impI)
  fix n r n' assume run: "bindP m f n = Some (r, n')"
  then obtain r1 n1 where 1: "m n = Some (r1, n1)" by (cases "m n") (auto simp: bindP_def)
  with assms(1) obtain t where t: "sent n1 = sent n @ t" "\<forall>x \<in> set t. P (fst x)" unfolding sendsP_def by blast
  show "\<exists>t. sent n' = sent n @ t \<and> (\<forall>x \<in> set t. P (fst x))"
  proof (cases r1)
    case (Inl e)
    with run 1 have "n' = n1" by (simp add: bindP_def)
    with t show ?thesis by blast
  next
    case (Inr x)
    with run 1 have "f x n1 = Some (r, n')" by (simp add: bindP_def)
    with assms(2) obtain u where "sent n' = sent n1 @ u" "\<forall>x \<in> set u. P (fst x)" unfolding sendsP_def by blast
    with t show ?thesis by (intro exI [of _ "t @ u"]) auto
  qed
qed

lemma sendsP_if [sends_rules]: "(b \<Longrightarrow> sendsP P m) \<Longrightarrow> (\<not> b \<Longrightarrow> sendsP P k) \<Longrightarrow> sendsP P (if b then m else k)"
  by simp

lemma sendsP_option [sends_rules]: "sendsP P m \<Longrightarrow> (\<And>x. sendsP P (f x)) \<Longrightarrow> sendsP P (case v of None \<Rightarrow> m | Some x \<Rightarrow> f x)"
  by (cases v) auto

lemma sendsP_none [sends_rules]: "sendsP P (\<lambda>_. None)"
  by (simp add: sendsP_def)

section \<open>What the helpers answer\<close>

lemma fetchE_Inr:
  "fetchE hub rq n = (Inr x, n') \<longleftrightarrow>
     (\<exists>w. hub rq (server n) = (Inr x, w) \<and> n' = n\<lparr>server := w, sent := sent n @ [(rq, Inr x)]\<rparr>)"
  by (auto simp: fetchE_def fetch_raw_def bindE_def throwE_def returnE_def split: prod.splits sum.splits)

lemma fetchE_Inl:
  "fetchE hub rq n = (Inl e, n') \<longleftrightarrow>
     (\<exists>m w. hub rq (server n) = (Inl m, w) \<and> e = FetchError m \<and>
        n' = n\<lparr>server := w, sent := sent n @ [(rq, Inl m)]\<rparr>)"
  by (auto simp: fetchE_def fetch_raw_def bindE_def throwE_def returnE_def split: prod.splits sum.splits)

lemma apiRequest_Inr:
  "apiRequest hub rq schema verb cls b n = (Inr x, n') \<longleftrightarrow>
     (\<exists>r w. hub rq (server n) = (Inr r, w) \<and> resp_ok r \<and> schema (rs_body r) = Inr x \<and>
        n' = n\<lparr>server := w, sent := sent n @ [(rq, Inr r)]\<rparr>)"
  by (auto simp: apiRequest_def fetch_raw_def bindE_def throwE_def returnE_def resp_ok_def
      split: prod.splits sum.splits if_splits)

lemma requestVoid_Inr:
  "requestVoid hub rq verb cls b n = (Inr x, n') \<longleftrightarrow>
     (\<exists>r w. hub rq (server n) = (Inr r, w) \<and> rs_status r = 204 \<and>
        n' = n\<lparr>server := w, sent := sent n @ [(rq, Inr r)]\<rparr>)"
  by (auto simp: requestVoid_def fetch_raw_def bindE_def throwE_def returnE_def resp_ok_def
      split: prod.splits sum.splits if_splits)

lemma apiRequest_outcome_sent:
  "apiRequest hub rq schema verb cls b n = (r, n') \<Longrightarrow> \<exists>a. sent n' = sent n @ [(rq, a)]"
  by (auto simp: apiRequest_def fetch_raw_def bindE_def throwE_def returnE_def
      split: prod.splits sum.splits if_splits)

lemma requestVoid_sent:
  "requestVoid hub rq verb cls b n = (r, n') \<Longrightarrow> \<exists>a. sent n' = sent n @ [(rq, a)]"
  by (auto simp: requestVoid_def fetch_raw_def bindE_def throwE_def returnE_def
      split: prod.splits sum.splits if_splits)

section \<open>Properties\<close>

text \<open>
  Also shown. A request for one tenant never reaches another's path: the path built from a tenant id
  and a suffix that starts with a slash determines both, whatever characters the id has.
\<close>

theorem tenantPath_injective:
  assumes "tenantPath t r = tenantPath t' r'"
    and "r = [] \<or> hd r = CHR ''/''" and "r' = [] \<or> hd r' = CHR ''/''"
  shows "t = t' \<and> r = r'"
  using assms by (rule tenantPath_inject)

theorem tenantPath_injective_witness:
  "tenantPath ''a/providers'' [] \<noteq> tenantPath ''a'' ''/providers''"
proof
  assume eq: "tenantPath ''a/providers'' [] = tenantPath ''a'' ''/providers''"
  then have "''a/providers'' = ''a'' \<and> [] = ''/providers''"
    by (rule tenantPath_injective) simp_all
  then show False by simp
qed

text \<open>
  Also shown. \<open>apiRequest\<close> sends its one request and returns only data the schema accepted: it
  returns exactly when the hub answered with a 2xx status and a body the schema takes, and
  the error it throws otherwise carries the HTTP status exactly when the hub refused.
\<close>

theorem apiRequest_outcome:
  assumes "apiRequest hub rq schema verb cls on401 n = (res, n')"
  shows "\<exists>a w. hub rq (server n) = (a, w) \<and> n' = n\<lparr>server := w, sent := sent n @ [(rq, a)]\<rparr> \<and>
    (case res of
       Inr x \<Rightarrow> \<exists>r. a = Inr r \<and> resp_ok r \<and> schema (rs_body r) = Inr x
     | Inl e \<Rightarrow> (case a of
         Inl m \<Rightarrow> e = error_of cls m None
       | Inr r \<Rightarrow>
           if rs_status r = 401 \<and> on401 then e = unauthenticated
           else if resp_ok r then (\<exists>s. schema (rs_body r) = Inl s) \<and> status_of e = None
           else status_of e = Some (rs_status r)))"
  using assms
  by (auto simp: apiRequest_def fetch_raw_def bindE_def throwE_def returnE_def resp_ok_def
      split: prod.splits sum.splits if_splits)

theorem apiRequest_outcome_witness:
  "fst (apiRequest (\<lambda>_ w. (Inr \<lparr>rs_status = 404, rs_body = None\<rparr>, w)) (get ''/x'')
     (on_json ''s'' Some) None ''ApiQueryError'' True \<lparr>server = (), sent = []\<rparr>)
   = Inl (error_of ''ApiQueryError'' ''The server answered 404.'' (Some 404)) \<and>
   status_of (error_of ''ApiQueryError'' ''The server answered 404.'' (Some 404)) = Some 404"
proof -
  let ?hub = "\<lambda>_ w. (Inr \<lparr>rs_status = 404, rs_body = None\<rparr>, w)"
  let ?run = "apiRequest ?hub (get ''/x'') (on_json ''s'' Some) None ''ApiQueryError'' True \<lparr>server = (), sent = []\<rparr>"
  have run: "?run = (Inl (error_of ''ApiQueryError'' ''The server answered 404.'' (Some 404)), snd ?run)"
    by code_simp
  from apiRequest_outcome [OF run] run show ?thesis by (simp add: resp_ok_def)
qed


section \<open>A scripted hub\<close>

text \<open>A hub that gives out prepared answers in order, for the concrete runs of the theories.\<close>

definition scripted :: "response list hub" where
  "scripted rq w = (case w of [] \<Rightarrow> (Inl ''no answer left'', []) | r # rs \<Rightarrow> (Inr r, rs))"

definition script :: "response list \<Rightarrow> response list net" where
  "script rs = \<lparr>server = rs, sent = []\<rparr>"

lemma fetchE_scripted [simp]:
  "fetchE scripted rq \<lparr>server = r # rs, sent = tr\<rparr> = (Inr r, \<lparr>server = rs, sent = tr @ [(rq, Inr r)]\<rparr>)"
  "fetchE scripted rq \<lparr>server = [], sent = tr\<rparr> = (Inl (FetchError ''no answer left''), \<lparr>server = [], sent = tr @ [(rq, Inl ''no answer left'')]\<rparr>)"
  by (simp_all add: fetchE_def fetch_raw_def scripted_def bindE_def returnE_def throwE_def)

lemma fetch_raw_scripted [simp]:
  "fetch_raw scripted rq \<lparr>server = r # rs, sent = tr\<rparr> = (Inr (Inr r), \<lparr>server = rs, sent = tr @ [(rq, Inr r)]\<rparr>)"
  by (simp add: fetch_raw_def scripted_def)

end
