(* ===== verification/Inference_Api.thy ===== *)
theory Inference_Api
  imports Http
begin

text \<open>
  The inference settings' client of the catalog routes,
  \<open>apps/web/src/settings/inference/api.ts\<close>: the reads, the patches, and \<open>shadowOffering\<close>,
  which stores a key and then creates a model, a provider and an offering, each step taking
  over the row a conflict reports, with the provider rolled back when the last step fails.

  The request and response schemas come from \<open>@intx/types\<close>; \<open>types\<close> holds what they say
  of a body. A row keeps the fields the code reads.
\<close>

record row_info =
  ri_id :: string
  ri_name :: string
  ri_modelId :: string
  ri_providerId :: string
  ri_priority :: int
  ri_disabled :: bool

datatype row_kind = ModelRow | ProviderRow | CredentialRow | CatalogProviderRow | OfferingRow

text \<open>\<open>refuse\<close> is the \<open>assert\<close> of the create schema, \<open>read_row\<close> the response schema.\<close>

record types =
  refuse :: "row_kind \<Rightarrow> json \<Rightarrow> string option"
  refuse_base_url :: "json \<Rightarrow> string option"
  read_row :: "row_kind \<Rightarrow> json \<Rightarrow> row_info option"
  read_page :: "row_kind \<Rightarrow> json option \<Rightarrow> string + row_info list"
  read_catalog :: "json option \<Rightarrow> string + json list"

definition ISAE :: string where "ISAE = ''InferenceSettingsApiError''"

definition raw_path :: "string \<Rightarrow> string \<Rightarrow> string" where
  "raw_path t rest = ''/api/tenants/'' @ t @ rest"

definition one_row :: "types \<Rightarrow> row_kind \<Rightarrow> row_info schema" where
  "one_row ty k = on_json ''row'' (read_row ty k)"

definition request_inf :: "'w hub \<Rightarrow> request \<Rightarrow> 'a schema \<Rightarrow> string \<Rightarrow> ('w, 'a) client" where
  "request_inf hub rq schema verb = apiRequest hub rq schema (Some verb) ISAE False"

definition requestVoid_inf :: "'w hub \<Rightarrow> request \<Rightarrow> string \<Rightarrow> ('w, unit) client" where
  "requestVoid_inf hub rq verb = requestVoid hub rq (Some verb) ISAE False"

section \<open>Reads and patches\<close>

definition getResolvedCatalog :: "'w hub \<Rightarrow> types \<Rightarrow> string \<Rightarrow> ('w, json list) client" where
  "getResolvedCatalog hub ty t =
     request_inf hub (get (raw_path t ''/models'')) (read_catalog ty) ''loading the model catalog''"

definition listOwnModels :: "'w hub \<Rightarrow> types \<Rightarrow> string \<Rightarrow> ('w, row_info list) client" where
  "listOwnModels hub ty t =
     request_inf hub (get (raw_path t ''/catalog/models'')) (read_page ty ModelRow)
       ''loading this workbench's own models''"

definition listOwnModelProviders :: "'w hub \<Rightarrow> types \<Rightarrow> string \<Rightarrow> ('w, row_info list) client" where
  "listOwnModelProviders hub ty t =
     request_inf hub (get (raw_path t ''/catalog/providers'')) (read_page ty CatalogProviderRow)
       ''loading this workbench's own catalog providers''"

definition listOwnOfferings :: "'w hub \<Rightarrow> types \<Rightarrow> string \<Rightarrow> ('w, row_info list) client" where
  "listOwnOfferings hub ty t =
     request_inf hub (get (raw_path t ''/catalog/offerings'')) (read_page ty OfferingRow)
       ''loading this workbench's own offerings''"

definition updateOwnOffering :: "'w hub \<Rightarrow> types \<Rightarrow> string \<Rightarrow> string \<Rightarrow> json \<Rightarrow> ('w, row_info) client" where
  "updateOwnOffering hub ty t oid p =
     request_inf hub (patch (raw_path t (''/catalog/offerings/'' @ oid)) p) (one_row ty OfferingRow)
       ''reordering this workbench's fallback list''"

definition assertE :: "string option \<Rightarrow> ('w, unit) client" where
  "assertE v = (case v of None \<Rightarrow> returnE () | Some summary \<Rightarrow> throwE (error_of ''TraversalError'' summary None))"

definition updateModelProviderBaseURL ::
  "'w hub \<Rightarrow> types \<Rightarrow> string \<Rightarrow> string \<Rightarrow> string \<Rightarrow> ('w, row_info) client" where
  "updateModelProviderBaseURL hub ty t pid url =
     (let body = JObj [(''baseURL'', JStr url)] in
      bindE (assertE (refuse_base_url ty body)) (\<lambda>_.
      request_inf hub (patch (raw_path t (''/catalog/providers/'' @ pid)) body) (one_row ty CatalogProviderRow)
        ''updating that provider's base URL''))"

definition deleteOwnOffering :: "'w hub \<Rightarrow> string \<Rightarrow> string \<Rightarrow> ('w, unit) client" where
  "deleteOwnOffering hub t oid =
     requestVoid_inf hub (del (raw_path t (''/catalog/offerings/'' @ oid))) ''retiring the offering's old model tag''"

section \<open>Creating a row or taking over the one there is\<close>

text \<open>
  The shape the five \<open>ensure\<close> functions share: create, and on a conflict find the row by
  what it must be. The flag says whether this call created the row.
\<close>

definition create_or_find ::
  "'w hub \<Rightarrow> types \<Rightarrow> row_kind \<Rightarrow> string \<Rightarrow> json \<Rightarrow> (nat \<Rightarrow> string) \<Rightarrow> string \<Rightarrow> (row_info \<Rightarrow> bool) \<Rightarrow> string
     \<Rightarrow> ('w, row_info \<times> bool) client" where
  "create_or_find hub ty k path body refused verb same missing =
     bindE (assertE (refuse ty k body)) (\<lambda>_.
     bindE (fetchE hub (post path body)) (\<lambda>created.
     if rs_status created = 201 then
       bindE (json_body created) (\<lambda>j.
       case read_row ty k j of
         None \<Rightarrow> throwE (error_of ''TraversalError'' ''row'' None)
       | Some row \<Rightarrow> returnE (row, True))
     else if rs_status created \<noteq> 409
     then throwE (error_of ISAE (refused (rs_status created)) (Some (rs_status created)))
     else
       bindE (request_inf hub (get path) (read_page ty k) verb) (\<lambda>rows.
       case find same rows of
         None \<Rightarrow> throwE (error_of ISAE missing None)
       | Some row \<Rightarrow> returnE (row, False))))"

definition opt_str :: "string option \<Rightarrow> json" where
  "opt_str v = (case v of None \<Rightarrow> JNull | Some s \<Rightarrow> JStr s)"

definition ensureModel :: "'w hub \<Rightarrow> types \<Rightarrow> string \<Rightarrow> string \<Rightarrow> string option \<Rightarrow> ('w, string) client" where
  "ensureModel hub ty t name display =
     bindE (create_or_find hub ty ModelRow (raw_path t ''/catalog/models'')
       (JObj [(''canonicalName'', JStr name), (''displayName'', opt_str display)])
       (\<lambda>s. ''Couldn't create this workbench's own copy of '' @ name @ '' ('' @ dec s @ '').'')
       ''loading this workbench's own models'' (\<lambda>r. ri_name r = name)
       (name @ '' reported a name conflict but is not listed on this workbench.''))
     (\<lambda>(row, _). returnE (ri_id row))"

record provider_identity =
  pi_providerName :: string
  pi_plugin :: string
  pi_baseURL :: string

datatype key_source = ApiKey string | StoredCredential string

record shadow_input = provider_identity +
  sh_canonicalName :: string
  sh_modelDisplayName :: "string option"
  sh_credential :: key_source
  sh_priority :: int

definition credentialNameFor :: "string \<Rightarrow> string" where
  "credentialNameFor p = p @ ''-workbench''"

definition ensureProviderRow :: "'w hub \<Rightarrow> types \<Rightarrow> string \<Rightarrow> 'x provider_identity_scheme \<Rightarrow> ('w, string) client" where
  "ensureProviderRow hub ty t p =
     bindE (create_or_find hub ty ProviderRow (raw_path t ''/providers'')
       (JObj [(''name'', JStr (pi_providerName p)), (''plugin'', JStr (pi_plugin p)),
              (''apiBaseUrl'', JStr (pi_baseURL p))])
       (\<lambda>s. ''Couldn't register '' @ pi_providerName p @ '' for this workbench ('' @ dec s @ '').'')
       ''loading this workbench's own providers'' (\<lambda>r. ri_name r = pi_providerName p)
       (pi_providerName p @ '' reported a name conflict but is not listed on this workbench.''))
     (\<lambda>(row, _). returnE (ri_id row))"

definition ensureCredential :: "'w hub \<Rightarrow> types \<Rightarrow> string \<Rightarrow> shadow_input \<Rightarrow> ('w, string) client" where
  "ensureCredential hub ty t inp =
     (case sh_credential inp of
        StoredCredential cid \<Rightarrow> returnE cid
      | ApiKey key \<Rightarrow>
          bindE (ensureProviderRow hub ty t inp) (\<lambda>pid.
          bindE (create_or_find hub ty CredentialRow (raw_path t ''/credentials'')
            (JObj [(''providerId'', JStr pid), (''name'', JStr (credentialNameFor (pi_providerName inp))),
                   (''type'', JStr ''api_key''), (''secret'', JStr key)])
            (\<lambda>s. ''Couldn't store this workbench's key for '' @ pi_providerName inp @ '' ('' @ dec s @ '').'')
            ''loading this workbench's own credentials''
            (\<lambda>r. ri_name r = credentialNameFor (pi_providerName inp))
            (pi_providerName inp @ CHR 0x27 # ''s key reported a name conflict but is not listed on this workbench.''))
          (\<lambda>(row, _). returnE (ri_id row))))"

definition ensureModelProvider ::
  "'w hub \<Rightarrow> types \<Rightarrow> string \<Rightarrow> shadow_input \<Rightarrow> string \<Rightarrow> ('w, string \<times> bool) client" where
  "ensureModelProvider hub ty t inp cid =
     bindE (create_or_find hub ty CatalogProviderRow (raw_path t ''/catalog/providers'')
       (JObj [(''name'', JStr (pi_providerName inp)), (''plugin'', JStr (pi_plugin inp)),
              (''baseURL'', JStr (pi_baseURL inp)), (''credentialId'', JStr cid)])
       (\<lambda>s. ''Couldn't create this workbench's own '' @ pi_providerName inp @ '' catalog entry ('' @ dec s @ '').'')
       ''loading this workbench's own catalog providers'' (\<lambda>r. ri_name r = pi_providerName inp)
       (pi_providerName inp @ '' reported a name conflict but is not listed on this workbench's catalog.''))
     (\<lambda>(row, minted). returnE (ri_id row, minted))"

definition ensureOffering ::
  "'w hub \<Rightarrow> types \<Rightarrow> string \<Rightarrow> string \<Rightarrow> string \<Rightarrow> int \<Rightarrow> ('w, row_info) client" where
  "ensureOffering hub ty t mid pid prio =
     bindE (create_or_find hub ty OfferingRow (raw_path t ''/catalog/offerings'')
       (JObj [(''modelId'', JStr mid), (''providerId'', JStr pid), (''priority'', JNum (JInt prio))])
       (\<lambda>s. ''Couldn't add this workbench's offering to the catalog ('' @ dec s @ '').'')
       ''loading this workbench's own offerings'' (\<lambda>r. ri_modelId r = mid \<and> ri_providerId r = pid)
       ''This offering reported a conflict but is not listed on this workbench.'')
     (\<lambda>(row, _). returnE row)"

section \<open>Model changes and shadowing\<close>

definition mintOfferingForModel ::
  "'w hub \<Rightarrow> types \<Rightarrow> string \<Rightarrow> row_info \<Rightarrow> string \<Rightarrow> string option \<Rightarrow> ('w, row_info) client" where
  "mintOfferingForModel hub ty t off name display =
     bindE (ensureModel hub ty t name display) (\<lambda>mid.
     if mid = ri_modelId off then returnE off
     else ensureOffering hub ty t mid (ri_providerId off) (ri_priority off))"

text \<open>A failed rollback is reported, and the failure that caused it thrown all the same.\<close>

definition rollback_provider :: "'w hub \<Rightarrow> string \<Rightarrow> string \<Rightarrow> ('w, unit) client" where
  "rollback_provider hub t pid =
     catchE (requestVoid_inf hub (del (raw_path t (''/catalog/providers/'' @ pid)))
       ''rolling back the just-minted provider'') (\<lambda>_. returnE ())"

definition shadowOffering :: "'w hub \<Rightarrow> types \<Rightarrow> string \<Rightarrow> shadow_input \<Rightarrow> ('w, row_info) client" where
  "shadowOffering hub ty t inp =
     bindE (ensureModel hub ty t (sh_canonicalName inp) (sh_modelDisplayName inp)) (\<lambda>mid.
     bindE (ensureCredential hub ty t inp) (\<lambda>cid.
     bindE (ensureModelProvider hub ty t inp cid) (\<lambda>(pid, minted).
     catchE (ensureOffering hub ty t mid pid (sh_priority inp))
       (\<lambda>cause. if minted then bindE (rollback_provider hub t pid) (\<lambda>_. throwE cause) else throwE cause))))"

section \<open>Which requests are sent\<close>

definition no_delete :: "request \<Rightarrow> bool" where
  "no_delete rq \<longleftrightarrow> rq_method rq \<noteq> DELETE"

lemma no_delete_simps [simp]:
  "no_delete (get p)" "no_delete (post p b)" "no_delete (patch p b)" "\<not> no_delete (del p)"
  by (simp_all add: no_delete_def get_def post_def patch_def del_def)

lemma sends_assert [sends_rules]: "sends P (assertE v)"
  unfolding assertE_def by (intro sends_rules)

lemma create_or_find_sends [sends_rules]:
  "P (post path body) \<Longrightarrow> P (get path) \<Longrightarrow> sends P (create_or_find hub ty k path body f v s m)"
  unfolding create_or_find_def request_inf_def by (intro sends_rules)

lemma ensures_no_delete [sends_rules]:
  "sends no_delete (ensureModel hub ty t n d)" "sends no_delete (ensureProviderRow hub ty t p)"
  "sends no_delete (ensureCredential hub ty t inp)" "sends no_delete (ensureModelProvider hub ty t inp cid)"
  "sends no_delete (ensureOffering hub ty t mid pid prio)"
proof -
  show p: "sends no_delete (ensureProviderRow hub ty t p)" for p :: "'x provider_identity_scheme"
    unfolding ensureProviderRow_def by (intro sends_rules; simp)
  show "sends no_delete (ensureModel hub ty t n d)"
    unfolding ensureModel_def by (intro sends_rules; simp)
  show "sends no_delete (ensureModelProvider hub ty t inp cid)"
    unfolding ensureModelProvider_def by (intro sends_rules; simp)
  show "sends no_delete (ensureOffering hub ty t mid pid prio)"
    unfolding ensureOffering_def by (intro sends_rules; simp)
  have "sends no_delete (ensureProviderRow hub ty t inp)"
    unfolding ensureProviderRow_def by (intro sends_rules; simp)
  then show "sends no_delete (ensureCredential hub ty t inp)"
    unfolding ensureCredential_def by (cases "sh_credential inp") (auto intro!: sends_rules)
qed


text \<open>The row a \<open>POST\<close> to \<open>path\<close> created, as the trace shows it.\<close>

definition created_row ::
  "types \<Rightarrow> row_kind \<Rightarrow> string \<Rightarrow> (request \<times> (string + response)) list \<Rightarrow> row_info \<Rightarrow> bool" where
  "created_row ty k path tr row \<longleftrightarrow>
     (\<exists>b r j. (post path b, Inr r) \<in> set tr \<and> rs_status r = 201 \<and> rs_body r = Some j \<and>
        read_row ty k j = Some row)"

lemma post_eq [simp]: "post p b = post q c \<longleftrightarrow> p = q \<and> b = c"
  by (auto simp: post_def)

lemma post_get [simp]: "post p b \<noteq> get q" "get q \<noteq> post p b"
  by (auto simp: post_def get_def)

lemma create_or_find_trace:
  assumes "create_or_find hub ty k path body f v same m n = (res, n')"
  shows "\<exists>tr. sent n' = sent n @ tr \<and> (\<forall>x \<in> set tr. fst x = post path body \<or> fst x = get path) \<and>
    (\<forall>row. created_row ty k path tr row \<longleftrightarrow> res = Inr (row, True)) \<and>
    (\<forall>row. res = Inr (row, False) \<longrightarrow> same row \<and> (\<exists>r. (post path body, Inr r) \<in> set tr \<and> rs_status r = 409))"
proof (cases "refuse ty k body")
  case (Some s)
  with assms show ?thesis
    by (auto simp: create_or_find_def assertE_def bindE_def throwE_def created_row_def)
next
  case None
  obtain a w where a: "hub (post path body) (server n) = (a, w)"
    by (cases "hub (post path body) (server n)")
  show ?thesis
  proof (cases a)
    case (Inl msg)
    with None a assms show ?thesis
      by (auto simp: create_or_find_def assertE_def bindE_def returnE_def throwE_def fetchE_def fetch_raw_def
          created_row_def)
  next
    case (Inr r)
    let ?n = "n\<lparr>server := w, sent := sent n @ [(post path body, Inr r)]\<rparr>"
    have run: "create_or_find hub ty k path body f v same m n =
      (if rs_status r = 201 then bindE (json_body r) (\<lambda>j. case read_row ty k j of
           None \<Rightarrow> throwE (error_of ''TraversalError'' ''row'' None) | Some row \<Rightarrow> returnE (row, True)) ?n
       else if rs_status r \<noteq> 409 then (Inl (error_of ISAE (f (rs_status r)) (Some (rs_status r))), ?n)
       else bindE (request_inf hub (get path) (read_page ty k) v) (\<lambda>rows. case find same rows of
           None \<Rightarrow> throwE (error_of ISAE m None) | Some row \<Rightarrow> returnE (row, False)) ?n)"
      using None a Inr
      by (simp add: create_or_find_def assertE_def bindE_def returnE_def throwE_def fetchE_def fetch_raw_def)
    show ?thesis
    proof (cases "rs_status r = 409")
      case False
      with assms run show ?thesis
        by (cases "rs_body r")
          (auto simp: json_body_def bindE_def returnE_def throwE_def created_row_def
            split: if_splits option.splits)
    next
      case True
      obtain q n1 where q: "request_inf hub (get path) (read_page ty k) v ?n = (q, n1)"
        by (cases "request_inf hub (get path) (read_page ty k) v ?n")
      then obtain b where b: "sent n1 = sent n @ [(post path body, Inr r), (get path, b)]"
        unfolding request_inf_def by (auto dest!: apiRequest_outcome_sent)
      have found: "same row" if "find same rows = Some row" for rows row
        using find_SomeD [OF that] by simp
      show ?thesis
        using assms run q b True found
        by (auto simp: bindE_def returnE_def throwE_def created_row_def split: sum.splits option.splits)
    qed
  qed
qed


section \<open>Rolling back a shadow\<close>

abbreviation catalog_providers :: "string \<Rightarrow> string" where
  "catalog_providers t \<equiv> raw_path t ''/catalog/providers''"

definition elsewhere :: "string \<Rightarrow> request \<Rightarrow> bool" where
  "elsewhere t rq \<longleftrightarrow> no_delete rq \<and> rq_path rq \<noteq> catalog_providers t"

lemma raw_path_eq [simp]: "raw_path t a = raw_path t b \<longleftrightarrow> a = b"
  by (simp add: raw_path_def)

lemma path_simps [simp]: "rq_path (get p) = p" "rq_path (post p b) = p" "rq_path (del p) = p"
  by (simp_all add: get_def post_def del_def)

lemma ensures_elsewhere:
  "sends (elsewhere t) (ensureModel hub ty t n d)" "sends (elsewhere t) (ensureCredential hub ty t inp)"
  "sends (elsewhere t) (ensureOffering hub ty t mid pid prio)"
proof -
  have p: "sends (elsewhere t) (ensureProviderRow hub ty t inp)"
    unfolding ensureProviderRow_def by (intro sends_rules; simp add: elsewhere_def)
  show "sends (elsewhere t) (ensureModel hub ty t n d)"
    unfolding ensureModel_def by (intro sends_rules; simp add: elsewhere_def)
  show "sends (elsewhere t) (ensureOffering hub ty t mid pid prio)"
    unfolding ensureOffering_def by (intro sends_rules; simp add: elsewhere_def)
  show "sends (elsewhere t) (ensureCredential hub ty t inp)"
    unfolding ensureCredential_def using p
    by (cases "sh_credential inp") (auto intro!: sends_rules simp: elsewhere_def)
qed

lemma ensureModelProvider_trace:
  assumes "ensureModelProvider hub ty t inp cid n = (res, n')"
  shows "\<exists>tr. sent n' = sent n @ tr \<and> (\<forall>x \<in> set tr. no_delete (fst x)) \<and>
    (\<forall>row. created_row ty CatalogProviderRow (catalog_providers t) tr row \<longrightarrow> res = Inr (ri_id row, True)) \<and>
    (\<forall>pid. res = Inr (pid, True) \<longrightarrow>
      (\<exists>row. created_row ty CatalogProviderRow (catalog_providers t) tr row \<and> ri_id row = pid))"
proof -
  let ?body = "JObj [(''name'', JStr (pi_providerName inp)), (''plugin'', JStr (pi_plugin inp)),
    (''baseURL'', JStr (pi_baseURL inp)), (''credentialId'', JStr cid)]"
  let ?m = "create_or_find hub ty CatalogProviderRow (catalog_providers t) ?body
       (\<lambda>s. ''Couldn't create this workbench's own '' @ pi_providerName inp @ '' catalog entry ('' @ dec s @ '').'')
       ''loading this workbench's own catalog providers'' (\<lambda>r. ri_name r = pi_providerName inp)
       (pi_providerName inp @ '' reported a name conflict but is not listed on this workbench's catalog.'')"
  obtain q n1 where q: "?m n = (q, n1)" by (cases "?m n")
  with assms have res: "n' = n1" "res = (case q of Inl e \<Rightarrow> Inl e | Inr (row, minted) \<Rightarrow> Inr (ri_id row, minted))"
    by (auto simp: ensureModelProvider_def bindE_def returnE_def split: sum.splits prod.splits)
  from create_or_find_trace [OF q] obtain tr where tr: "sent n1 = sent n @ tr"
    "\<forall>x \<in> set tr. fst x = post (catalog_providers t) ?body \<or> fst x = get (catalog_providers t)"
    "\<forall>row. created_row ty CatalogProviderRow (catalog_providers t) tr row \<longleftrightarrow> q = Inr (row, True)"
    by blast
  then have "\<forall>x \<in> set tr. no_delete (fst x)" by auto
  with tr res show ?thesis by (intro exI [of _ tr]) (auto split: sum.splits prod.splits)
qed

lemma created_elsewhere:
  "\<forall>x \<in> set tr. elsewhere t (fst x) \<Longrightarrow> \<not> created_row ty k (catalog_providers t) tr row"
  by (force simp: created_row_def elsewhere_def)

lemma created_append:
  "created_row ty k p (tr @ tr') row \<longleftrightarrow> created_row ty k p tr row \<or> created_row ty k p tr' row"
  by (auto simp: created_row_def)

lemma rollback_sent:
  "rollback_provider hub t pid n = (r, n') \<Longrightarrow>
     r = Inr () \<and> (\<exists>a. sent n' = sent n @ [(del (raw_path t (''/catalog/providers/'' @ pid)), a)])"
  unfolding rollback_provider_def requestVoid_inf_def
  by (auto simp: catchE_def returnE_def dest!: requestVoid_sent split: prod.splits sum.splits)

lemma del_elsewhere: "\<not> created_row ty k p [(del q, a)] row"
  by (auto simp: created_row_def post_def del_def)

text \<open>The call up to its provider, and from its offering on.\<close>

abbreviation shadow_offer :: "'w hub \<Rightarrow> types \<Rightarrow> string \<Rightarrow> shadow_input \<Rightarrow> string \<Rightarrow> string \<times> bool \<Rightarrow> ('w, row_info) client" where
  "shadow_offer hub ty t inp mid \<equiv> \<lambda>(pid, minted).
     catchE (ensureOffering hub ty t mid pid (sh_priority inp))
       (\<lambda>cause. if minted then bindE (rollback_provider hub t pid) (\<lambda>_. throwE cause) else throwE cause)"

lemma shadow_start:
  assumes "shadowOffering hub ty t inp n = (res, n')"
  shows "\<exists>tr. (\<forall>x \<in> set tr. elsewhere t (fst x)) \<and>
    (sent n' = sent n @ tr \<or>
     (\<exists>mid cid n2. sent n2 = sent n @ tr \<and>
        bindE (ensureModelProvider hub ty t inp cid) (shadow_offer hub ty t inp mid) n2 = (res, n')))"
proof -
  obtain r1 n1 where 1: "ensureModel hub ty t (sh_canonicalName inp) (sh_modelDisplayName inp) n = (r1, n1)"
    by (cases "ensureModel hub ty t (sh_canonicalName inp) (sh_modelDisplayName inp) n")
  obtain t1 where t1: "sent n1 = sent n @ t1" "\<forall>x \<in> set t1. elsewhere t (fst x)"
    using sendsE [OF ensures_elsewhere(1) 1] by blast
  show ?thesis
  proof (cases r1)
    case (Inl e)
    with 1 assms t1 show ?thesis by (intro exI [of _ t1]) (auto simp: shadowOffering_def bindE_def)
  next
    case r1: (Inr mid)
    obtain r2 n2 where 2: "ensureCredential hub ty t inp n1 = (r2, n2)" by (cases "ensureCredential hub ty t inp n1")
    obtain t2 where t2: "sent n2 = sent n1 @ t2" "\<forall>x \<in> set t2. elsewhere t (fst x)"
      using sendsE [OF ensures_elsewhere(2) 2] by blast
    have all: "\<forall>x \<in> set (t1 @ t2). elsewhere t (fst x)" "sent n2 = sent n @ t1 @ t2" using t1 t2 by auto
    show ?thesis
    proof (cases r2)
      case (Inl e)
      with 1 r1 2 assms have "n' = n2" by (auto simp: shadowOffering_def bindE_def)
      with all show ?thesis by blast
    next
      case (Inr cid)
      with 1 r1 2 assms
      have "bindE (ensureModelProvider hub ty t inp cid) (shadow_offer hub ty t inp mid) n2 = (res, n')"
        by (simp add: shadowOffering_def bindE_def [of "ensureModel hub ty t a b" for a b]
              bindE_def [of "ensureCredential hub ty t inp"])
      with all show ?thesis by blast
    qed
  qed
qed

lemma shadow_end:
  assumes "shadow_offer hub ty t inp mid (pid, minted) n = (res, n')"
  shows "\<exists>tr. (\<forall>x \<in> set tr. elsewhere t (fst x)) \<and>
    (sent n' = sent n @ tr \<and> (minted \<longrightarrow> (\<exists>x. res = Inr x)) \<or>
     minted \<and> (\<exists>e. res = Inl e) \<and>
       (\<exists>a. sent n' = sent n @ tr @ [(del (raw_path t (''/catalog/providers/'' @ pid)), a)]))"
proof -
  obtain r4 n4 where 4: "ensureOffering hub ty t mid pid (sh_priority inp) n = (r4, n4)"
    by (cases "ensureOffering hub ty t mid pid (sh_priority inp) n")
  obtain t4 where t4: "sent n4 = sent n @ t4" "\<forall>x \<in> set t4. elsewhere t (fst x)"
    using sendsE [OF ensures_elsewhere(3) 4] by blast
  show ?thesis
  proof (cases "\<exists>e. r4 = Inl e \<and> minted")
    case False
    with 4 assms t4 show ?thesis
      by (intro exI [of _ t4]) (auto simp: catchE_def throwE_def split: sum.splits if_splits)
  next
    case True
    then obtain e where e: "r4 = Inl e" and m: minted by blast
    obtain b n5 where b: "rollback_provider hub t pid n4 = (b, n5)" by (cases "rollback_provider hub t pid n4")
    from rollback_sent [OF b] obtain a where
      a: "b = Inr ()" "sent n5 = sent n4 @ [(del (raw_path t (''/catalog/providers/'' @ pid)), a)]" by blast
    with 4 e m b assms have "res = Inl e" "n' = n5" by (auto simp: catchE_def bindE_def throwE_def)
    with a t4 m show ?thesis by (intro exI [of _ t4]) auto
  qed
qed

text \<open>
  C28. Shadowing an offering rolls back exactly what it may. Whatever the hub answers: a
  delete is only ever sent for a provider this very call created, and only when the call
  then fails; and when the call fails after creating the provider, the last request it
  sends is the delete of that provider.
\<close>

theorem shadowOffering_rolls_back:
  assumes "shadowOffering hub ty t inp n = (res, n')"
  shows "\<exists>tr. sent n' = sent n @ tr \<and>
    (\<forall>x \<in> set tr. no_delete (fst x) \<or> (\<exists>e. res = Inl e) \<and>
      (\<exists>row. created_row ty CatalogProviderRow (catalog_providers t) tr row \<and>
         fst x = del (raw_path t (''/catalog/providers/'' @ ri_id row)))) \<and>
    (\<forall>row. created_row ty CatalogProviderRow (catalog_providers t) tr row \<longrightarrow>
      (\<exists>r. res = Inr r) \<or> tr \<noteq> [] \<and> fst (last tr) = del (raw_path t (''/catalog/providers/'' @ ri_id row)))"
proof -
  let ?new = "\<lambda>tr row. created_row ty CatalogProviderRow (catalog_providers t) tr row"
  from shadow_start [OF assms] obtain t1 where t1: "\<forall>x \<in> set t1. elsewhere t (fst x)" and
    cont: "sent n' = sent n @ t1 \<or> (\<exists>mid cid n2. sent n2 = sent n @ t1 \<and>
        bindE (ensureModelProvider hub ty t inp cid) (shadow_offer hub ty t inp mid) n2 = (res, n'))" by blast
  note none = created_elsewhere [OF t1]
  from cont show ?thesis
  proof (elim disjE exE conjE)
    assume "sent n' = sent n @ t1"
    with t1 none show ?thesis by (intro exI [of _ t1]) (auto simp: elsewhere_def)
  next
    fix mid cid n2
    assume n2: "sent n2 = sent n @ t1"
      and run: "bindE (ensureModelProvider hub ty t inp cid) (shadow_offer hub ty t inp mid) n2 = (res, n')"
    obtain r3 n3 where 3: "ensureModelProvider hub ty t inp cid n2 = (r3, n3)"
      by (cases "ensureModelProvider hub ty t inp cid n2")
    from ensureModelProvider_trace [OF 3] obtain t3 where t3: "sent n3 = sent n2 @ t3"
      "\<forall>x \<in> set t3. no_delete (fst x)" "\<forall>row. ?new t3 row \<longrightarrow> r3 = Inr (ri_id row, True)"
      "\<forall>pid. r3 = Inr (pid, True) \<longrightarrow> (\<exists>row. ?new t3 row \<and> ri_id row = pid)" by blast
    show ?thesis
    proof (cases r3)
      case (Inl e)
      with 3 run have "n' = n3" by (auto simp: bindE_def)
      with n2 t1 t3 none Inl show ?thesis
        by (intro exI [of _ "t1 @ t3"]) (auto simp: created_append elsewhere_def)
    next
      case (Inr p)
      obtain pid minted where p: "p = (pid, minted)" by (cases p)
      from run 3 Inr p have "shadow_offer hub ty t inp mid (pid, minted) n3 = (res, n')" by (simp add: bindE_def)
      from shadow_end [OF this] obtain t4 where t4: "\<forall>x \<in> set t4. elsewhere t (fst x)" and
        fin: "sent n' = sent n3 @ t4 \<and> (minted \<longrightarrow> (\<exists>x. res = Inr x)) \<or> minted \<and> (\<exists>e. res = Inl e) \<and>
          (\<exists>a. sent n' = sent n3 @ t4 @ [(del (raw_path t (''/catalog/providers/'' @ pid)), a)])" by blast
      note none = none created_elsewhere [OF t4]
      from fin show ?thesis
      proof (elim disjE exE conjE)
        assume "sent n' = sent n3 @ t4" "minted \<longrightarrow> (\<exists>x. res = Inr x)"
        with n2 t1 t3 t4 none Inr p show ?thesis
          by (intro exI [of _ "t1 @ t3 @ t4"]) (auto simp: created_append elsewhere_def)
      next
        fix e a assume minted "res = Inl e"
          and "sent n' = sent n3 @ t4 @ [(del (raw_path t (''/catalog/providers/'' @ pid)), a)]"
        with n2 t1 t3 t4 none Inr p show ?thesis
          by (intro exI [of _ "t1 @ t3 @ t4 @ [(del (raw_path t (''/catalog/providers/'' @ pid)), a)]"])
            (auto simp: created_append elsewhere_def del_elsewhere)
      qed
    qed
  qed
qed

text \<open>The witness: every create is answered 201 but the offering's, which the hub refuses.\<close>

definition example_types :: types where
  "example_types = \<lparr>refuse = (\<lambda>_ _. None), refuse_base_url = (\<lambda>_. None),
     read_row = (\<lambda>k j. map_option (\<lambda>i. \<lparr>ri_id = i, ri_name = i, ri_modelId = [], ri_providerId = [],
        ri_priority = 0, ri_disabled = False\<rparr>) (str_field ''id'' j)),
     read_page = (\<lambda>_ _. Inr []), read_catalog = (\<lambda>_. Inr [])\<rparr>"

definition refusing_hub :: "unit hub" where
  "refusing_hub rq w =
     (if rq_method rq = DELETE then (Inr \<lparr>rs_status = 204, rs_body = None\<rparr>, w)
      else if rq_path rq = ''/api/tenants/t/catalog/offerings'' then (Inr \<lparr>rs_status = 500, rs_body = None\<rparr>, w)
      else (Inr \<lparr>rs_status = 201, rs_body = Some (JObj [(''id'', JStr ''p1'')])\<rparr>, w))"

definition example_shadow :: shadow_input where
  "example_shadow = \<lparr>pi_providerName = ''openai'', pi_plugin = ''openai'', pi_baseURL = ''https://api'',
     sh_canonicalName = ''gpt'', sh_modelDisplayName = None, sh_credential = StoredCredential ''c1'', sh_priority = 3\<rparr>"

theorem shadowOffering_rolls_back_witness:
  "fst (last (sent (snd (shadowOffering refusing_hub example_types ''t'' example_shadow \<lparr>server = (), sent = []\<rparr>))))
     = del ''/api/tenants/t/catalog/providers/p1''"
proof -
  let ?run = "shadowOffering refusing_hub example_types ''t'' example_shadow \<lparr>server = (), sent = []\<rparr>"
  have "isl (fst ?run)" by code_simp
  then have fails: "\<exists>e. fst ?run = Inl e" by (simp add: isl_def)
  have made: "created_row example_types CatalogProviderRow (catalog_providers ''t'') (sent (snd ?run))
      \<lparr>ri_id = ''p1'', ri_name = ''p1'', ri_modelId = [], ri_providerId = [], ri_priority = 0, ri_disabled = False\<rparr>"
  proof -
    have "(post (catalog_providers ''t'') (JObj [(''name'', JStr ''openai''), (''plugin'', JStr ''openai''),
        (''baseURL'', JStr ''https://api''), (''credentialId'', JStr ''c1'')]),
        Inr \<lparr>rs_status = 201, rs_body = Some (JObj [(''id'', JStr ''p1'')])\<rparr>) \<in> set (sent (snd ?run))"
      by code_simp
    then show ?thesis unfolding created_row_def by (force simp: example_types_def str_field_def)
  qed
  from shadowOffering_rolls_back [OF prod.collapse [symmetric], of refusing_hub example_types "''t''" example_shadow
      "\<lparr>server = (), sent = []\<rparr>"]
  obtain tr where "sent (snd ?run) = [] @ tr"
    "\<forall>row. created_row example_types CatalogProviderRow (catalog_providers ''t'') tr row \<longrightarrow>
      (\<exists>r. fst ?run = Inr r) \<or> tr \<noteq> [] \<and> fst (last tr) = del (raw_path ''t'' (''/catalog/providers/'' @ ri_id row))"
    by auto
  with made fails show ?thesis by (auto simp: raw_path_def)
qed

end
