(* ===== verification/Mcp_Servers.thy ===== *)
theory Mcp_Servers
  imports Http
begin

text \<open>
  The MCP servers of a workspace, \<open>apps/web/src/mcp-servers.ts\<close>: stored as credentials on
  the hub, listed, added (provider, credential, catalog), signed in to, removed, and the
  built-in server every workspace starts with; the names shared with a deploy, from
  \<open>packages/worker/src/workflow-ids.ts\<close>; and the redeploy loop behind every change,
  \<open>redeployWorkerTenants\<close> of \<open>apps/web/src/tools/mcp-servers-query.ts\<close>.

  \<open>new URL(url).origin\<close> and \<open>localeCompare\<close> are parameters.
\<close>

section \<open>Names a deploy and a definition share\<close>

definition WORKER_WORKFLOW_ID :: string where "WORKER_WORKFLOW_ID = ''wf_worker''"
definition ARTIFACT_TOOLS_PACKAGE :: string where "ARTIFACT_TOOLS_PACKAGE = ''@corbits/artifacts/sidecar-bundle''"
definition MEMORY_TOOLS_PACKAGE :: string where "MEMORY_TOOLS_PACKAGE = ''@corbits/memory/sidecar-bundle''"
definition MCP_TOOLS_PACKAGE :: string where "MCP_TOOLS_PACKAGE = ''@corbits/mcp/sidecar-bundle''"
definition HUB_CREDENTIAL_HANDLE :: string where "HUB_CREDENTIAL_HANDLE = ''hub''"
definition HUB_PROVIDER_NAME :: string where "HUB_PROVIDER_NAME = ''workbench-hub''"

definition agentHubCredentialName :: "string \<Rightarrow> string" where
  "agentHubCredentialName w = w @ ''-hub''"

record credential_binding =
  cb_package :: string
  cb_handle :: string
  cb_provider :: string
  cb_name :: string
  cb_locator :: string

record use_requirement =
  ur_resource :: string
  ur_action :: string
  ur_effect :: string
  ur_source :: string
  ur_tool :: string

definition hubCredentialBinding :: "string \<Rightarrow> string \<Rightarrow> credential_binding" where
  "hubCredentialBinding pkg w =
     \<lparr>cb_package = pkg, cb_handle = HUB_CREDENTIAL_HANDLE, cb_provider = HUB_PROVIDER_NAME,
      cb_name = agentHubCredentialName w, cb_locator = ''tenant''\<rparr>"

definition hubCredentialUseRequirement :: "string \<Rightarrow> string \<Rightarrow> use_requirement" where
  "hubCredentialUseRequirement pkg cid =
     \<lparr>ur_resource = ''credential:'' @ cid, ur_action = ''use'', ur_effect = ''allow'',
      ur_source = ''creator'', ur_tool = ''tool:'' @ pkg\<rparr>"

definition artifactToolsCredentialBinding :: "string \<Rightarrow> credential_binding" where
  "artifactToolsCredentialBinding = hubCredentialBinding ARTIFACT_TOOLS_PACKAGE"

definition artifactToolsCredentialUseRequirement :: "string \<Rightarrow> use_requirement" where
  "artifactToolsCredentialUseRequirement = hubCredentialUseRequirement ARTIFACT_TOOLS_PACKAGE"

definition memoryToolsCredentialBinding :: "string \<Rightarrow> credential_binding" where
  "memoryToolsCredentialBinding = hubCredentialBinding MEMORY_TOOLS_PACKAGE"

definition memoryToolsCredentialUseRequirement :: "string \<Rightarrow> use_requirement" where
  "memoryToolsCredentialUseRequirement = hubCredentialUseRequirement MEMORY_TOOLS_PACKAGE"

definition mcpProviderName :: "string \<Rightarrow> string" where "mcpProviderName h = ''mcp-'' @ h"
definition mcpCredentialName :: "string \<Rightarrow> string" where "mcpCredentialName h = ''mcp-'' @ h"
definition mcpToolNamePattern :: "string \<Rightarrow> string" where "mcpToolNamePattern h = h @ ''.*''"

section \<open>Tools and servers\<close>

record mcp_tool =
  mt_name :: string
  mt_description :: "string option"
  mt_inputSchema :: json
  mt_readOnlyHint :: "bool option"
  mt_annotations :: "json option"

datatype auth_kind = NoAuth | OAuth | Token

record mcp_server =
  ms_credentialId :: string
  ms_providerId :: string
  ms_handle :: string
  ms_name :: string
  ms_url :: string
  ms_auth :: auth_kind
  ms_tools :: "mcp_tool list"

record mcp_deployment =
  md_handle :: string
  md_url :: string
  md_credentialId :: string
  md_providerName :: string
  md_credentialName :: string
  md_tools :: "mcp_tool list"
  md_allowWithoutAsk :: "string list option"

definition mcpServerCredentialBinding :: "mcp_deployment \<Rightarrow> credential_binding" where
  "mcpServerCredentialBinding d =
     \<lparr>cb_package = MCP_TOOLS_PACKAGE, cb_handle = md_handle d, cb_provider = md_providerName d,
      cb_name = md_credentialName d, cb_locator = ''tenant''\<rparr>"

definition mcpServerCredentialUseRequirement :: "string \<Rightarrow> use_requirement" where
  "mcpServerCredentialUseRequirement = hubCredentialUseRequirement MCP_TOOLS_PACKAGE"

definition readOnlyToolNames :: "mcp_server \<Rightarrow> string list" where
  "readOnlyToolNames s =
     map (\<lambda>t. ms_handle s @ ''.'' @ mt_name t) (filter (\<lambda>t. mt_readOnlyHint t = Some True) (ms_tools s))"

definition toMcpServerDeployment :: "mcp_server \<Rightarrow> mcp_deployment" where
  "toMcpServerDeployment s =
     \<lparr>md_handle = ms_handle s, md_url = ms_url s, md_credentialId = ms_credentialId s,
      md_providerName = mcpProviderName (ms_handle s), md_credentialName = mcpCredentialName (ms_handle s),
      md_tools = ms_tools s,
      md_allowWithoutAsk = (if readOnlyToolNames s \<noteq> [] then Some (readOnlyToolNames s) else None)\<rparr>"

subsection \<open>Their JSON\<close>

definition optional :: "(json \<Rightarrow> 'a option) \<Rightarrow> json option \<Rightarrow> 'a option option" where
  "optional f v = (case v of None \<Rightarrow> Some None | Some j \<Rightarrow> map_option Some (f j))"

fun as_str :: "json \<Rightarrow> string option" where
  "as_str (JStr s) = Some s"
| "as_str _ = None"

fun as_bool :: "json \<Rightarrow> bool option" where
  "as_bool (JBool b) = Some b"
| "as_bool _ = None"

definition hints_ok :: "json \<Rightarrow> bool" where
  "hints_ok a \<longleftrightarrow> is_object a \<and>
     list_all (\<lambda>k. optional as_bool (field k a) \<noteq> None)
       [''readOnlyHint'', ''destructiveHint'', ''idempotentHint'', ''openWorldHint'']"

definition parse_tool :: "json \<Rightarrow> mcp_tool option" where
  "parse_tool j =
     (case (str_field ''name'' j, optional as_str (field ''description'' j), field ''inputSchema'' j,
            optional (\<lambda>a. if hints_ok a then Some a else None) (field ''annotations'' j)) of
        (Some n, Some d, Some sch, Some an) \<Rightarrow>
          if is_object sch
          then Some \<lparr>mt_name = n, mt_description = d, mt_inputSchema = sch,
                 mt_readOnlyHint = Option.bind an (\<lambda>a. Option.bind (field ''readOnlyHint'' a) as_bool),
                 mt_annotations = an\<rparr>
          else None
      | _ \<Rightarrow> None)"

definition tool_json :: "mcp_tool \<Rightarrow> json" where
  "tool_json t =
     JObj ([(''name'', JStr (mt_name t))]
       @ (case mt_description t of None \<Rightarrow> [] | Some d \<Rightarrow> [(''description'', JStr d)])
       @ [(''inputSchema'', mt_inputSchema t)]
       @ (case mt_annotations t of None \<Rightarrow> [] | Some a \<Rightarrow> [(''annotations'', a)]))"

fun auth_text :: "auth_kind \<Rightarrow> string" where
  "auth_text NoAuth = ''none''"
| "auth_text OAuth = ''oauth''"
| "auth_text Token = ''token''"

definition parse_auth :: "string \<Rightarrow> auth_kind option" where
  "parse_auth s =
     (if s = ''none'' then Some NoAuth else if s = ''oauth'' then Some OAuth
      else if s = ''token'' then Some Token else None)"

record stored_mcp =
  st_handle :: string
  st_name :: string
  st_url :: string
  st_auth :: auth_kind
  st_tools :: "mcp_tool list"

text \<open>\<open>StoredMcpShape\<close>, and the object the code writes in that shape.\<close>

definition nonempty_field :: "string \<Rightarrow> json \<Rightarrow> string option" where
  "nonempty_field k j = (case str_field k j of Some (c # s) \<Rightarrow> Some (c # s) | _ \<Rightarrow> None)"

definition parse_stored :: "json \<Rightarrow> stored_mcp option" where
  "parse_stored j =
     (case (nonempty_field ''handle'' j, nonempty_field ''name'' j, nonempty_field ''url'' j,
            Option.bind (str_field ''auth'' j) parse_auth,
            Option.bind (field ''tools'' j) (array_of parse_tool)) of
        (Some h, Some n, Some u, Some a, Some ts) \<Rightarrow>
          Some \<lparr>st_handle = h, st_name = n, st_url = u, st_auth = a, st_tools = ts\<rparr>
      | _ \<Rightarrow> None)"

definition stored_json :: "stored_mcp \<Rightarrow> json" where
  "stored_json s =
     JObj [(''handle'', JStr (st_handle s)), (''name'', JStr (st_name s)), (''url'', JStr (st_url s)),
           (''auth'', JStr (auth_text (st_auth s))), (''tools'', JArr (map tool_json (st_tools s)))]"

record provider_row =
  pr_id :: string
  pr_name :: string
  pr_plugin :: string

record credential_row =
  cr_id :: string
  cr_name :: string
  cr_providerId :: string
  cr_metadata :: "json option"

definition parse_provider :: "json \<Rightarrow> provider_row option" where
  "parse_provider j =
     (case (str_field ''id'' j, str_field ''name'' j, str_field ''plugin'' j) of
        (Some i, Some n, Some p) \<Rightarrow> Some \<lparr>pr_id = i, pr_name = n, pr_plugin = p\<rparr>
      | _ \<Rightarrow> None)"

text \<open>\<open>metadata\<close> may be absent, null or an object; \<open>None\<close> stands for the first two.\<close>

definition parse_credential :: "json \<Rightarrow> credential_row option" where
  "parse_credential j =
     (case (str_field ''id'' j, str_field ''name'' j, str_field ''providerId'' j,
            (case field ''metadata'' j of None \<Rightarrow> Some None | Some JNull \<Rightarrow> Some None
             | Some (JObj fs) \<Rightarrow> Some (Some (JObj fs)) | Some _ \<Rightarrow> None)) of
        (Some i, Some n, Some p, Some md) \<Rightarrow>
          Some \<lparr>cr_id = i, cr_name = n, cr_providerId = p, cr_metadata = md\<rparr>
      | _ \<Rightarrow> None)"

section \<open>The client\<close>

text \<open>
  What the client takes from elsewhere: the two constants of \<open>@corbits/credential-mcp\<close>, the
  origin of a URL (none for a text \<open>new URL\<close> throws on), the schema library's summary of a
  body that does not fit, and \<open>localeCompare\<close>.
\<close>

record mcp_ext =
  x_provider_key :: string
  x_no_token :: string
  x_origin :: "string \<Rightarrow> string option"
  x_summary :: "json \<Rightarrow> string"
  x_compare :: "string \<Rightarrow> string \<Rightarrow> int"

definition mcp_error :: "string \<Rightarrow> bool \<Rightarrow> js_error" where
  "mcp_error msg needsBearer = Thrown ''McpServerError'' msg None needsBearer"

definition readJson :: "mcp_ext \<Rightarrow> response \<Rightarrow> (json \<Rightarrow> 'a option) \<Rightarrow> string \<Rightarrow> ('w, 'a) client" where
  "readJson x r shape what =
     bindE (json_body r) (\<lambda>j.
     case shape j of
       None \<Rightarrow> throwE (mcp_error (what @ '' came back an unexpected shape: '' @ x_summary x j) False)
     | Some v \<Rightarrow> returnE v)"

definition resolveWorkspaceTenantId :: "'w hub \<Rightarrow> string \<Rightarrow> ('w, string) client" where
  "resolveWorkspaceTenantId hub t =
     bindE (fetchE hub (get (tenantPath t []))) (\<lambda>r.
     if \<not> resp_ok r then throwE (mcp_error ''resolving this workbench's workspace failed'' False)
     else
       bindE (json_body r) (\<lambda>j.
       if \<not> is_object j then throwE (mcp_error ''the workspace response came back an unexpected shape'' False)
       else (case field ''parentId'' j of
               None \<Rightarrow> returnE t
             | Some JNull \<Rightarrow> returnE t
             | Some (JStr p) \<Rightarrow> returnE p
             | Some _ \<Rightarrow> throwE (mcp_error ''the workspace response came back an unexpected shape'' False))))"

definition listProviders :: "'w hub \<Rightarrow> mcp_ext \<Rightarrow> string \<Rightarrow> ('w, provider_row list) client" where
  "listProviders hub x t =
     bindE (fetchE hub (get (tenantPath t ''/providers''))) (\<lambda>r.
     if \<not> resp_ok r then throwE (mcp_error ''listing the MCP providers failed'' False)
     else readJson x r (page_of parse_provider) ''the MCP providers'')"

definition listCredentials :: "'w hub \<Rightarrow> mcp_ext \<Rightarrow> string \<Rightarrow> ('w, credential_row list) client" where
  "listCredentials hub x t =
     bindE (fetchE hub (get (tenantPath t ''/credentials''))) (\<lambda>r.
     if \<not> resp_ok r then throwE (mcp_error ''listing the MCP credentials failed'' False)
     else readJson x r (page_of parse_credential) ''the MCP credentials'')"

text \<open>
  The rows of the list: credentials on a provider of the MCP plugin whose metadata parses.
  The two reads are issued together; the first failure rejects the pair.
\<close>

definition server_of :: "provider_row list \<Rightarrow> mcp_ext \<Rightarrow> credential_row \<Rightarrow> mcp_server option" where
  "server_of ps x c =
     (if cr_providerId c \<notin> set (map pr_id (filter (\<lambda>p. pr_plugin p = x_provider_key x) ps)) then None
      else (case Option.bind (Option.bind (cr_metadata c) (field ''mcp'')) parse_stored of
              None \<Rightarrow> None
            | Some s \<Rightarrow>
                Some \<lparr>ms_credentialId = cr_id c, ms_providerId = cr_providerId c, ms_handle = st_handle s,
                  ms_name = st_name s, ms_url = st_url s, ms_auth = st_auth s, ms_tools = st_tools s\<rparr>))"

definition listMcpServers :: "'w hub \<Rightarrow> mcp_ext \<Rightarrow> string \<Rightarrow> ('w, mcp_server list) client" where
  "listMcpServers hub x t =
     bindE (listProviders hub x t) (\<lambda>ps.
     bindE (listCredentials hub x t) (\<lambda>cs.
     returnE (js_sort (\<lambda>a b. x_compare x (ms_name a) (ms_name b) \<le> 0) (List.map_filter (server_of ps x) cs))))"

definition ensureMcpProvider :: "'w hub \<Rightarrow> mcp_ext \<Rightarrow> string \<Rightarrow> string \<Rightarrow> string \<Rightarrow> ('w, string) client" where
  "ensureMcpProvider hub x t handle url =
     bindE (listProviders hub x t) (\<lambda>ps.
     case find (\<lambda>p. pr_name p = mcpProviderName handle) ps of
       Some p \<Rightarrow> returnE (pr_id p)
     | None \<Rightarrow>
         (case x_origin x url of
            None \<Rightarrow> throwE (error_of ''TypeError'' ''Invalid URL'' None)
          | Some origin \<Rightarrow>
              bindE (fetchE hub (post (tenantPath t ''/providers'')
                (JObj [(''name'', JStr (mcpProviderName handle)), (''plugin'', JStr (x_provider_key x)),
                       (''apiBaseUrl'', JStr origin)]))) (\<lambda>r.
              if \<not> resp_ok r
              then throwE (mcp_error (''preparing the '' @ handle @ '' server's provider failed'') False)
              else bindE (readJson x r parse_provider ''the MCP server's provider'') (\<lambda>p. returnE (pr_id p)))))"

definition storeCredential ::
  "'w hub \<Rightarrow> mcp_ext \<Rightarrow> string \<Rightarrow> string \<Rightarrow> string \<Rightarrow> string \<Rightarrow> json \<Rightarrow> ('w, string) client" where
  "storeCredential hub x t pid handle secret metadata =
     bindE (fetchE hub (post (tenantPath t ''/credentials'')
       (JObj [(''providerId'', JStr pid), (''name'', JStr (mcpCredentialName handle)), (''type'', JStr ''api_key''),
              (''secret'', JStr secret), (''metadata'', metadata)]))) (\<lambda>r.
     if \<not> resp_ok r then throwE (mcp_error (''storing the '' @ handle @ '' server failed'') False)
     else bindE (readJson x r parse_credential ''the MCP server's credential'') (\<lambda>c. returnE (cr_id c)))"

definition credential_path :: "string \<Rightarrow> string \<Rightarrow> string" where
  "credential_path t cid = tenantPath t (''/credentials/'' @ encodeURIComponent cid)"

text \<open>The answer of the delete is not looked at; only a network error throws.\<close>

definition deleteCredential :: "'w hub \<Rightarrow> string \<Rightarrow> string \<Rightarrow> ('w, unit) client" where
  "deleteCredential hub t cid = bindE (fetchE hub (del (credential_path t cid))) (\<lambda>_. returnE ())"

definition parse_discovery :: "json \<Rightarrow> (json \<times> mcp_tool list) option" where
  "parse_discovery j =
     (case field ''data'' j of
        None \<Rightarrow> None
      | Some d \<Rightarrow>
          (case (field ''serverInfo'' d, Option.bind (field ''tools'' d) (array_of parse_tool)) of
             (Some si, Some ts) \<Rightarrow> if is_object si then Some (si, ts) else None
           | _ \<Rightarrow> None))"

definition postDiscovery ::
  "'w hub \<Rightarrow> mcp_ext \<Rightarrow> string \<Rightarrow> string \<Rightarrow> string option \<Rightarrow> ('w, json \<times> mcp_tool list) client" where
  "postDiscovery hub x t url cid =
     bindE (fetchE hub (post (tenantPath t ''/mcp/discover'')
       (JObj ((''url'', JStr url) # (case cid of None \<Rightarrow> [] | Some c \<Rightarrow> [(''credentialId'', JStr c)]))))) (\<lambda>r.
     if \<not> resp_ok r then
       (let msg = (case Option.bind (rs_body r) (str_field ''error'') of
              None \<Rightarrow> ''this server could not be reached (HTTP '' @ dec (rs_status r) @ '')''
            | Some m \<Rightarrow> m)
        in throwE (mcp_error msg (contains ''refused the request'' msg)))
     else readJson x r parse_discovery ''the MCP server's catalog'')"

definition discoverMcpCatalog ::
  "'w hub \<Rightarrow> mcp_ext \<Rightarrow> string \<Rightarrow> string \<Rightarrow> string option \<Rightarrow> ('w, mcp_tool list) client" where
  "discoverMcpCatalog hub x t url cid = bindE (postDiscovery hub x t url cid) (\<lambda>(_, ts). returnE ts)"

definition unwrapDiscoveredName :: "json \<Rightarrow> json" where
  "unwrapDiscoveredName d =
     (if str_field ''name'' d \<noteq> None \<or> str_field ''title'' d \<noteq> None then d
      else (case field ''serverInfo'' d of
              Some (JObj fs) \<Rightarrow> JObj fs | Some (JArr xs) \<Rightarrow> JArr xs | _ \<Rightarrow> d))"

definition probeMcpServer :: "'w hub \<Rightarrow> mcp_ext \<Rightarrow> string \<Rightarrow> string \<Rightarrow> ('w, json \<times> mcp_tool list) client" where
  "probeMcpServer hub x t url =
     bindE (postDiscovery hub x t url None) (\<lambda>(si, ts). returnE (unwrapDiscoveredName si, ts))"

definition with_mcp :: "(string \<times> json) list \<Rightarrow> stored_mcp \<Rightarrow> json" where
  "with_mcp existing s = JObj [(''metadata'', JObj (AList.update ''mcp'' (stored_json s) existing))]"

definition recordCatalog ::
  "'w hub \<Rightarrow> mcp_ext \<Rightarrow> string \<Rightarrow> string \<Rightarrow> string \<Rightarrow> stored_mcp \<Rightarrow> (string \<times> json) list \<Rightarrow> ('w, mcp_server) client" where
  "recordCatalog hub x t cid pid s existing =
     bindE (catchE (discoverMcpCatalog hub x t (st_url s) (Some cid))
       (\<lambda>cause. bindE (deleteCredential hub t cid) (\<lambda>_. throwE cause))) (\<lambda>tools.
     let mcp = s\<lparr>st_tools := tools\<rparr> in
     bindE (fetchE hub (patch (credential_path t cid) (with_mcp existing mcp))) (\<lambda>r.
     if \<not> resp_ok r then
       bindE (deleteCredential hub t cid) (\<lambda>_.
       throwE (mcp_error (''recording the '' @ st_handle s @ '' server's tools failed'') False))
     else returnE \<lparr>ms_credentialId = cid, ms_providerId = pid, ms_handle = st_handle mcp, ms_name = st_name mcp,
            ms_url = st_url mcp, ms_auth = st_auth mcp, ms_tools = st_tools mcp\<rparr>))"

record add_input =
  ai_tenantId :: string
  ai_handle :: string
  ai_name :: string
  ai_url :: string
  ai_token :: "string option"

definition addMcpServer :: "'w hub \<Rightarrow> mcp_ext \<Rightarrow> add_input \<Rightarrow> ('w, mcp_server) client" where
  "addMcpServer hub x a =
     bindE (ensureMcpProvider hub x (ai_tenantId a) (ai_handle a) (ai_url a)) (\<lambda>pid.
     let s = \<lparr>st_handle = ai_handle a, st_name = ai_name a, st_url = ai_url a,
           st_auth = (if ai_token a = None then NoAuth else Token), st_tools = []\<rparr>;
         secret = (case ai_token a of None \<Rightarrow> x_no_token x | Some tk \<Rightarrow> tk)
     in bindE (storeCredential hub x (ai_tenantId a) pid (ai_handle a) secret (JObj [(''mcp'', stored_json s)])) (\<lambda>cid.
        recordCatalog hub x (ai_tenantId a) cid pid s []))"

definition parse_login_started :: "json \<Rightarrow> (string \<times> string) option" where
  "parse_login_started j =
     (case (str_field ''loginId'' j, str_field ''authorizeUrl'' j) of
        (Some l, Some u) \<Rightarrow> Some (l, u) | _ \<Rightarrow> None)"

definition startMcpSignIn ::
  "'w hub \<Rightarrow> mcp_ext \<Rightarrow> add_input \<Rightarrow> ('w, string \<times> string \<times> string) client" where
  "startMcpSignIn hub x a =
     bindE (ensureMcpProvider hub x (ai_tenantId a) (ai_handle a) (ai_url a)) (\<lambda>pid.
     bindE (fetchE hub (post (tenantPath (ai_tenantId a) ''/oauth-logins'')
       (JObj [(''resourceUrl'', JStr (ai_url a)), (''providerId'', JStr pid),
              (''credentialName'', JStr (mcpCredentialName (ai_handle a)))]))) (\<lambda>r.
     if \<not> resp_ok r then throwE (mcp_error (''starting the '' @ ai_name a @ '' sign-in failed'') False)
     else bindE (readJson x r parse_login_started ''the sign-in'') (\<lambda>(l, u). returnE (l, u, pid))))"

record login_status =
  ls_status :: string
  ls_credentialId :: "string option"
  ls_message :: "string option"

definition parse_login_status :: "json \<Rightarrow> login_status option" where
  "parse_login_status j =
     (case (str_field ''status'' j, optional as_str (field ''credentialId'' j), optional as_str (field ''message'' j)) of
        (Some s, Some c, Some m) \<Rightarrow>
          if s \<in> {''pending'', ''completed'', ''failed'', ''cancelled''}
          then Some \<lparr>ls_status = s, ls_credentialId = c, ls_message = m\<rparr> else None
      | _ \<Rightarrow> None)"

definition readMcpSignIn :: "'w hub \<Rightarrow> mcp_ext \<Rightarrow> string \<Rightarrow> string \<Rightarrow> ('w, login_status) client" where
  "readMcpSignIn hub x t lid =
     bindE (fetchE hub (get (tenantPath t (''/oauth-logins/'' @ encodeURIComponent lid)))) (\<lambda>r.
     if \<not> resp_ok r then throwE (mcp_error ''checking the sign-in failed'' False)
     else readJson x r parse_login_status ''the sign-in status'')"

fun fields_of :: "json option \<Rightarrow> (string \<times> json) list" where
  "fields_of (Some (JObj fs)) = fs"
| "fields_of _ = []"

definition addSignedInMcpServer ::
  "'w hub \<Rightarrow> mcp_ext \<Rightarrow> add_input \<Rightarrow> string \<Rightarrow> string \<Rightarrow> ('w, mcp_server) client" where
  "addSignedInMcpServer hub x a cid pid =
     bindE (listCredentials hub x (ai_tenantId a)) (\<lambda>cs.
     recordCatalog hub x (ai_tenantId a) cid pid
       \<lparr>st_handle = ai_handle a, st_name = ai_name a, st_url = ai_url a, st_auth = OAuth, st_tools = []\<rparr>
       (case find (\<lambda>c. cr_id c = cid) cs of None \<Rightarrow> [] | Some c \<Rightarrow> fields_of (cr_metadata c)))"

definition removeMcpServer :: "'w hub \<Rightarrow> string \<Rightarrow> string \<Rightarrow> string \<Rightarrow> ('w, unit) client" where
  "removeMcpServer hub t cid pid =
     bindE (fetchE hub (del (credential_path t cid))) (\<lambda>r.
     if \<not> resp_ok r then throwE (mcp_error ''removing this MCP server failed'' False)
     else bindE (fetchE hub (del (tenantPath t (''/providers/'' @ encodeURIComponent pid)))) (\<lambda>_. returnE ()))"

definition exa_input :: "string \<Rightarrow> add_input" where
  "exa_input t = \<lparr>ai_tenantId = t, ai_handle = ''exa'', ai_name = ''Exa'', ai_url = ''https://mcp.exa.ai/mcp'',
     ai_token = None\<rparr>"

definition runEnsureBuiltInMcpServers :: "'w hub \<Rightarrow> mcp_ext \<Rightarrow> string \<Rightarrow> ('w, mcp_server list) client" where
  "runEnsureBuiltInMcpServers hub x ws =
     bindE (listMcpServers hub x ws) (\<lambda>existing.
     if list_ex (\<lambda>s. ms_handle s = ''exa'') existing then returnE existing
     else bindE (addMcpServer hub x (exa_input ws)) (\<lambda>added. returnE (existing @ [added])))"

text \<open>
  \<open>ensureQueue\<close> runs the ensures of one workspace one after another, so with respect to each
  other they are atomic.
\<close>

definition ensureBuiltInMcpServers :: "'w hub \<Rightarrow> mcp_ext \<Rightarrow> string \<Rightarrow> ('w, mcp_server list) client" where
  "ensureBuiltInMcpServers hub x t =
     bindE (resolveWorkspaceTenantId hub t) (runEnsureBuiltInMcpServers hub x)"

section \<open>Redeploying the workers\<close>

record bench = b_id :: string  b_name :: string

record redeploy_failure =
  rf_tenantId :: string
  rf_workbenchName :: string
  rf_error :: string

text \<open>
  \<open>find_worker\<close> and \<open>redeploy\<close> are the dependencies the loop is given; they act on a state
  of their own and may throw.
\<close>

fun redeployWorkerTenants ::
  "(string \<Rightarrow> ('s, js_error, 'r option) comp) \<Rightarrow> (string \<Rightarrow> 'r \<Rightarrow> ('s, js_error, unit) comp)
     \<Rightarrow> bench list \<Rightarrow> 's \<Rightarrow> (nat \<times> redeploy_failure list) \<times> 's" where
  "redeployWorkerTenants find_worker redeploy [] s = ((0, []), s)"
| "redeployWorkerTenants find_worker redeploy (b # bs) s =
     (let failed = (\<lambda>e doing. [\<lparr>rf_tenantId = b_id b, rf_workbenchName = b_name b, rf_error = describeApiError e doing\<rparr>]);
          (n, fs, s1) = (case find_worker (b_id b) s of
             (Inl e, s') \<Rightarrow> (0, failed e ''reaching this workbench'', s')
           | (Inr None, s') \<Rightarrow> (0, [], s')
           | (Inr (Some w), s') \<Rightarrow>
               (case redeploy (b_id b) w s' of
                  (Inl e, s'') \<Rightarrow> (0, failed e ''redeploying the worker'', s'')
                | (Inr _, s'') \<Rightarrow> (1, [], s'')));
          ((m, gs), s2) = redeployWorkerTenants find_worker redeploy bs s1
      in ((n + m, fs @ gs), s2))"

definition describeRedeployResult :: "nat \<times> redeploy_failure list \<Rightarrow> string" where
  "describeRedeployResult r =
     (let count = dec (fst r) @ '' '' @ (if fst r = 1 then ''workbench'' else ''workbenches'') in
      if snd r = [] then ''Worker redeployed in '' @ count @ ''.''
      else ''Worker redeployed in '' @ count @ '', but the redeploy failed in ''
        @ join '', '' (map rf_workbenchName (snd r))
        @ '' -- those workbenches still run the old catalog. Try the change again.'')"


section \<open>Lemmas\<close>

lemma sends_readJson [sends_rules]: "sends P (readJson x r f w)"
  unfolding readJson_def by (intro sends_rules)

lemma sends_listProviders [sends_rules]:
  "P (get (tenantPath t ''/providers'')) \<Longrightarrow> sends P (listProviders hub x t)"
  unfolding listProviders_def by (intro sends_rules)

lemma sends_ensureMcpProvider:
  assumes "P (get (tenantPath t ''/providers''))" and "\<And>b. P (post (tenantPath t ''/providers'') b)"
  shows "sends P (ensureMcpProvider hub x t h u)"
  unfolding ensureMcpProvider_def by (intro sends_rules assms)

text \<open>The credential a \<open>POST\<close> stored, as the trace shows it.\<close>

definition stores :: "string \<Rightarrow> string \<Rightarrow> request \<times> (string + response) \<Rightarrow> bool" where
  "stores t cid e \<longleftrightarrow>
     rq_method (fst e) = POST \<and> rq_path (fst e) = tenantPath t ''/credentials'' \<and>
     (case snd e of
        Inl _ \<Rightarrow> False
      | Inr r \<Rightarrow> resp_ok r \<and> map_option cr_id (Option.bind (rs_body r) parse_credential) = Some cid)"

definition stored_credential :: "string \<Rightarrow> (request \<times> (string + response)) list \<Rightarrow> string \<Rightarrow> bool" where
  "stored_credential t tr cid \<longleftrightarrow> (\<exists>e \<in> set tr. stores t cid e)"

lemma stored_simps [simp]:
  "\<not> stored_credential t [] cid"
  "stored_credential t (e # tr) cid \<longleftrightarrow> stores t cid e \<or> stored_credential t tr cid"
  "stored_credential t (tr @ tr') cid \<longleftrightarrow> stored_credential t tr cid \<or> stored_credential t tr' cid"
  by (auto simp: stored_credential_def)

lemma tenantPath_rest_eq [simp]: "tenantPath t a = tenantPath t b \<longleftrightarrow> a = b"
  by (simp add: tenantPath_def)

text \<open>Requests that store no credential and delete none.\<close>

definition no_credential :: "string \<Rightarrow> request \<Rightarrow> bool" where
  "no_credential t rq \<longleftrightarrow> rq_method rq \<noteq> DELETE \<and> \<not> (rq_method rq = POST \<and> rq_path rq = tenantPath t ''/credentials'')"

lemma not_stored: "\<forall>x \<in> set tr. no_credential t (fst x) \<Longrightarrow> \<not> stored_credential t tr cid"
  by (auto simp: stored_credential_def no_credential_def stores_def)

lemma no_credential_simps [simp]:
  "no_credential t (get p)" "no_credential t (patch p b)" "\<not> no_credential t (del p)"
  "no_credential t (post p b) \<longleftrightarrow> p \<noteq> tenantPath t ''/credentials''"
  by (auto simp: no_credential_def get_def patch_def del_def post_def)

lemma sends_discover: "sends (no_credential t) (discoverMcpCatalog hub x t url cid)"
  unfolding discoverMcpCatalog_def postDiscovery_def Let_def
  by (intro sends_rules sends_prod) simp


lemma no_credential_stores: "no_credential t (fst e) \<Longrightarrow> \<not> stores t cid e"
  by (auto simp: no_credential_def stores_def)

text \<open>\<open>storeCredential\<close> is one \<open>POST\<close>, which stores what it returns.\<close>

lemma storeCredential_run:
  assumes "storeCredential hub x t pid h secret md n = (res, n')"
  shows "\<exists>e. sent n' = sent n @ [e] \<and> rq_method (fst e) = POST \<and> (\<forall>cid. stores t cid e \<longleftrightarrow> res = Inr cid)"
proof -
  let ?rq = "post (tenantPath t ''/credentials'')
    (JObj [(''providerId'', JStr pid), (''name'', JStr (mcpCredentialName h)), (''type'', JStr ''api_key''),
           (''secret'', JStr secret), (''metadata'', md)])"
  obtain a w where a: "hub ?rq (server n) = (a, w)" by (cases "hub ?rq (server n)")
  have rq: "rq_method ?rq = POST" "rq_path ?rq = tenantPath t ''/credentials''" by (simp_all add: post_def)
  show ?thesis
  proof (cases a)
    case (Inl m)
    with a assms rq show ?thesis
      by (auto simp: storeCredential_def fetchE_def fetch_raw_def bindE_def throwE_def stores_def)
  next
    case (Inr r)
    have "\<exists>e. sent n' = sent n @ [e] \<and> e = (?rq, Inr r) \<and> (\<forall>cid. stores t cid e \<longleftrightarrow> res = Inr cid)"
      using a assms Inr rq
      by (cases "rs_body r"; cases "Option.bind (rs_body r) parse_credential")
        (auto simp: storeCredential_def fetchE_def fetch_raw_def bindE_def throwE_def returnE_def stores_def
          readJson_def json_body_def split: if_splits option.splits)
    with rq show ?thesis by auto
  qed
qed

lemma deleteCredential_run:
  "deleteCredential hub t cid n = (res, n') \<Longrightarrow> \<exists>a. sent n' = sent n @ [(del (credential_path t cid), a)]"
  by (auto simp: deleteCredential_def fetchE_def fetch_raw_def bindE_def throwE_def returnE_def
      split: prod.splits sum.splits)

text \<open>
  How \<open>recordCatalog\<close> ends: it returns with nothing deleted; or the credential's delete is
  the last request; or the \<open>PATCH\<close> itself met a network error.
\<close>

lemma recordCatalog_run:
  assumes "recordCatalog hub x t cid pid s ex n = (res, n')"
  shows "\<exists>tr. sent n' = sent n @ tr \<and> (\<forall>c. \<not> stored_credential t tr c) \<and>
    (case res of
       Inr srv \<Rightarrow> (\<forall>e \<in> set tr. rq_method (fst e) \<noteq> DELETE) \<and> ms_credentialId srv = cid \<and> tr \<noteq> [] \<and>
         fst (last tr) = patch (credential_path t cid) (with_mcp ex (s\<lparr>st_tools := ms_tools srv\<rparr>))
     | Inl _ \<Rightarrow> tr \<noteq> [] \<and> (fst (last tr) = del (credential_path t cid) \<or>
         rq_method (fst (last tr)) = PATCH \<and> (\<exists>m. snd (last tr) = Inl m)))"
proof -
  let ?disc = "discoverMcpCatalog hub x t (st_url s) (Some cid)"
  obtain r1 n1 where 1: "?disc n = (r1, n1)" by (cases "?disc n")
  obtain t1 where t1: "sent n1 = sent n @ t1" "\<forall>x \<in> set t1. no_credential t (fst x)"
    using sendsE [OF sends_discover 1] by blast
  have d1: "\<forall>e \<in> set t1. rq_method (fst e) \<noteq> DELETE" and s1: "\<not> stored_credential t t1 c" for c
    using t1(2) not_stored by (auto simp: no_credential_def)
  have del_not: "\<not> stores t c (del (credential_path t cid), a)" for c a
    by (simp add: stores_def del_def)
  show ?thesis
  proof (cases r1)
    case (Inl cause)
    obtain b n2 where 2: "deleteCredential hub t cid n1 = (b, n2)" by (cases "deleteCredential hub t cid n1")
    from deleteCredential_run [OF 2] obtain a where a: "sent n2 = sent n1 @ [(del (credential_path t cid), a)]" by blast
    have "n' = n2" "\<exists>e. res = Inl e"
      using assms 1 Inl 2 by (auto simp: recordCatalog_def bindE_def catchE_def throwE_def split: sum.splits)
    with a t1 s1 del_not show ?thesis
      by (intro exI [of _ "t1 @ [(del (credential_path t cid), a)]"]) auto
  next
    case (Inr tools)
    let ?p = "patch (credential_path t cid) (with_mcp ex (s\<lparr>st_tools := tools\<rparr>))"
    obtain a w where a: "hub ?p (server n1) = (a, w)" by (cases "hub ?p (server n1)")
    let ?n = "n1\<lparr>server := w, sent := sent n1 @ [(?p, a)]\<rparr>"
    have pm: "rq_method ?p = PATCH" by (simp add: patch_def)
    have p_not: "\<not> stores t c (?p, a)" for c by (simp add: stores_def patch_def)
    show ?thesis
    proof (cases a)
      case (Inl m)
      with assms 1 Inr a have "n' = ?n" "\<exists>e. res = Inl e"
        by (auto simp: recordCatalog_def bindE_def catchE_def throwE_def fetchE_def fetch_raw_def Let_def)
      with Inl t1 s1 p_not pm show ?thesis by (intro exI [of _ "t1 @ [(?p, a)]"]) auto
    next
      case ans: (Inr r)
      show ?thesis
      proof (cases "resp_ok r")
        case True
        with assms 1 Inr a ans have "n' = ?n" "\<exists>srv. res = Inr srv \<and> ms_credentialId srv = cid \<and> ms_tools srv = tools"
          by (auto simp: recordCatalog_def bindE_def catchE_def returnE_def fetchE_def fetch_raw_def Let_def)
        with t1 s1 d1 p_not pm show ?thesis by (intro exI [of _ "t1 @ [(?p, a)]"]) auto
      next
        case False
        obtain b n2 where 2: "deleteCredential hub t cid ?n = (b, n2)" by (cases "deleteCredential hub t cid ?n")
        from deleteCredential_run [OF 2] obtain a' where
          a': "sent n2 = sent ?n @ [(del (credential_path t cid), a')]" by blast
        have "n' = n2" "\<exists>e. res = Inl e"
          using assms 1 Inr a ans 2 False
          by (auto simp: recordCatalog_def bindE_def catchE_def throwE_def returnE_def fetchE_def fetch_raw_def Let_def
              split: sum.splits)
        with a' t1 s1 p_not del_not show ?thesis
          by (intro exI [of _ "t1 @ [(?p, a), (del (credential_path t cid), a')]"]) auto
      qed
    qed
  qed
qed


text \<open>Reading back what was written.\<close>

lemma optional_Some: "optional f v = Some r \<Longrightarrow> r = Option.bind v f"
  by (auto simp: optional_def split: option.splits)

lemma parse_tool_json:
  assumes "parse_tool j = Some t"
  shows "parse_tool (tool_json t) = Some t"
proof -
  from assms obtain n d sch an where *: "str_field ''name'' j = Some n"
    "optional as_str (field ''description'' j) = Some d" "field ''inputSchema'' j = Some sch"
    "optional (\<lambda>a. if hints_ok a then Some a else None) (field ''annotations'' j) = Some an" "is_object sch"
    and t: "t = \<lparr>mt_name = n, mt_description = d, mt_inputSchema = sch,
      mt_readOnlyHint = Option.bind an (\<lambda>a. Option.bind (field ''readOnlyHint'' a) as_bool), mt_annotations = an\<rparr>"
    by (auto simp: parse_tool_def split: option.splits if_splits)
  have an: "an = None \<or> (\<exists>a. an = Some a \<and> hints_ok a)"
    using *(4) by (auto simp: optional_def split: option.splits if_splits)
  show ?thesis
    unfolding t parse_tool_def tool_json_def str_field_def optional_def
    using *(5) an by (cases d) auto
qed

lemma all_some_map: "(\<And>x. x \<in> set xs \<Longrightarrow> f (g x) = Some x) \<Longrightarrow> all_some f (map g xs) = Some xs"
  by (induction xs) auto

lemma parse_auth_text [simp]: "parse_auth (auth_text a) = Some a"
  by (cases a) (auto simp: parse_auth_def)

section \<open>Properties\<close>

text \<open>
  Also shown. A failed add leaves no credential behind, up to one case. Whatever the hub answers:
  if \<open>addMcpServer\<close> throws after it stored a credential, then the delete of that credential
  was the last request it sent, or the write of the catalog met a network error; if it
  returns, it deleted nothing and returns the credential it stored, and its last request
  recorded the tools it returns on it.
\<close>

theorem addMcpServer_cleans_up:
  assumes "addMcpServer hub x a n = (res, n')"
  shows "\<exists>tr. sent n' = sent n @ tr \<and>
    (case res of
       Inr srv \<Rightarrow> stored_credential (ai_tenantId a) tr (ms_credentialId srv) \<and>
         list_all (\<lambda>e. rq_method (fst e) \<noteq> DELETE) tr \<and> tr \<noteq> [] \<and>
         (\<exists>st. fst (last tr) = patch (credential_path (ai_tenantId a) (ms_credentialId srv)) (with_mcp [] st) \<and>
            st_tools st = ms_tools srv)
     | Inl _ \<Rightarrow> (\<forall>cid. \<not> stored_credential (ai_tenantId a) tr cid \<or>
         fst (last tr) = del (credential_path (ai_tenantId a) cid) \<or>
         rq_method (fst (last tr)) = PATCH \<and> (\<exists>m. snd (last tr) = Inl m)))"
proof -
  let ?t = "ai_tenantId a"
  have sp: "sends (no_credential ?t) (ensureMcpProvider hub x ?t (ai_handle a) (ai_url a))"
    by (rule sends_ensureMcpProvider) simp_all
  obtain r1 n1 where 1: "ensureMcpProvider hub x ?t (ai_handle a) (ai_url a) n = (r1, n1)"
    by (cases "ensureMcpProvider hub x ?t (ai_handle a) (ai_url a) n")
  obtain t1 where t1: "sent n1 = sent n @ t1" "\<forall>e \<in> set t1. no_credential ?t (fst e)"
    using sendsE [OF sp 1] by blast
  have s1: "\<not> stored_credential ?t t1 c" for c using t1(2) by (rule not_stored)
  have d1: "list_all (\<lambda>e. rq_method (fst e) \<noteq> DELETE) t1" using t1(2) by (auto simp: list_all_iff no_credential_def)
  show ?thesis
  proof (cases r1)
    case (Inl e)
    with assms 1 have "\<exists>e. res = Inl e" "n' = n1" by (auto simp: addMcpServer_def bindE_def)
    with t1 s1 show ?thesis by (intro exI [of _ t1]) auto
  next
    case r1: (Inr pid)
    define s where "s = \<lparr>st_handle = ai_handle a, st_name = ai_name a, st_url = ai_url a,
      st_auth = (if ai_token a = None then NoAuth else Token), st_tools = []\<rparr>"
    let ?store = "storeCredential hub x ?t pid (ai_handle a)
      (case ai_token a of None \<Rightarrow> x_no_token x | Some tk \<Rightarrow> tk) (JObj [(''mcp'', stored_json s)])"
    obtain r2 n2 where 2: "?store n1 = (r2, n2)" by (cases "?store n1")
    from storeCredential_run [OF 2] obtain e where e: "sent n2 = sent n1 @ [e]" "rq_method (fst e) = POST"
      "\<forall>cid. stores ?t cid e \<longleftrightarrow> r2 = Inr cid" by blast
    have run: "(res, n') = bindE (\<lambda>_. (r2, n2)) (\<lambda>cid. recordCatalog hub x ?t cid pid s []) n1"
      using assms 1 r1 2 by (simp add: addMcpServer_def bindE_def s_def Let_def)
    show ?thesis
    proof (cases r2)
      case (Inl err)
      with run have "\<exists>e. res = Inl e" "n' = n2" by (auto simp: bindE_def)
      with t1 s1 e Inl show ?thesis by (intro exI [of _ "t1 @ [e]"]) auto
    next
      case r2: (Inr cid)
      with run have rec: "recordCatalog hub x ?t cid pid s [] n2 = (res, n')" by (simp add: bindE_def)
      from recordCatalog_run [OF rec] obtain t3 where t3: "sent n' = sent n2 @ t3"
        "\<forall>c. \<not> stored_credential ?t t3 c" "case res of
         Inr srv \<Rightarrow> (\<forall>e \<in> set t3. rq_method (fst e) \<noteq> DELETE) \<and> ms_credentialId srv = cid \<and> t3 \<noteq> [] \<and>
           fst (last t3) = patch (credential_path ?t cid) (with_mcp [] (s\<lparr>st_tools := ms_tools srv\<rparr>))
       | Inl _ \<Rightarrow> t3 \<noteq> [] \<and> (fst (last t3) = del (credential_path ?t cid) \<or>
           rq_method (fst (last t3)) = PATCH \<and> (\<exists>m. snd (last t3) = Inl m))" by blast
      have only: "stored_credential ?t (t1 @ [e] @ t3) c \<longleftrightarrow> c = cid" for c
        using s1 e(3) t3(2) r2 by auto
      show ?thesis
      proof (cases res)
        case (Inl err)
        with t1(1) e(1) t3(1,3) only show ?thesis
          by (intro exI [of _ "t1 @ [e] @ t3"]) (auto simp del: stored_simps)
      next
        case (Inr srv)
        with t1(1) e(1,2) d1 t3(1,3) only show ?thesis
          by (intro exI [of _ "t1 @ [e] @ t3"])
            (auto simp del: stored_simps simp: list_all_iff intro!: exI [of _ "s\<lparr>st_tools := ms_tools srv\<rparr>"])
      qed
    qed
  qed
qed

text \<open>A hub that stores credentials but cannot reach the MCP server.\<close>

definition example_ext :: mcp_ext where
  "example_ext = \<lparr>x_provider_key = ''mcp-http'', x_no_token = ''none'', x_origin = Some,
     x_summary = (\<lambda>_. ''shape''), x_compare = (\<lambda>_ _. 0)\<rparr>"

definition example_add :: add_input where
  "example_add = \<lparr>ai_tenantId = ''t'', ai_handle = ''linear'', ai_name = ''Linear'', ai_url = ''https://m'', ai_token = Some ''k''\<rparr>"

definition unreachable_hub :: "bool \<Rightarrow> unit hub" where
  "unreachable_hub patch_drops rq w =
     (if rq_method rq = PATCH then (Inl ''network down'', w)
      else if rq_path rq = ''/api/tenants/t/mcp/discover'' then
        (if patch_drops
         then (Inr \<lparr>rs_status = 200, rs_body = Some (JObj [(''data'', JObj [(''serverInfo'', JObj []), (''tools'', JArr [])])])\<rparr>, w)
         else (Inr \<lparr>rs_status = 422, rs_body = Some (JObj [(''error'', JStr ''the server refused the request'')])\<rparr>, w))
      else if rq_method rq = GET then (Inr \<lparr>rs_status = 200, rs_body = Some (JObj [(''data'', JArr [])])\<rparr>, w)
      else (Inr \<lparr>rs_status = 201, rs_body = Some (JObj [(''id'', JStr ''c1''), (''name'', JStr ''n''),
              (''plugin'', JStr ''mcp-http''), (''providerId'', JStr ''p'')])\<rparr>, w))"

theorem addMcpServer_cleans_up_witness:
  "fst (addMcpServer (unreachable_hub False) example_ext example_add \<lparr>server = (), sent = []\<rparr>)
     = Inl (mcp_error ''the server refused the request'' True) \<and>
   fst (last (sent (snd (addMcpServer (unreachable_hub False) example_ext example_add \<lparr>server = (), sent = []\<rparr>))))
     = del (credential_path ''t'' ''c1'')"
proof -
  let ?run = "addMcpServer (unreachable_hub False) example_ext example_add \<lparr>server = (), sent = []\<rparr>"
  have run: "?run = (Inl (mcp_error ''the server refused the request'' True), snd ?run)" by code_simp
  have st: "stored_credential ''t'' (sent (snd ?run)) ''c1''" by code_simp
  have np: "rq_method (fst (last (sent (snd ?run)))) = DELETE" by code_simp
  from addMcpServer_cleans_up [OF run] st np have
    "fst (last (sent (snd ?run))) = del (credential_path ''t'' ''c1'')"
    by (auto simp: example_add_def)
  with run show ?thesis by (metis fst_conv)
qed

text \<open>
  That case is real: a network error on the write of the catalog is thrown without the
  delete, so the credential stays, with the empty catalog it was stored with. And the
  provider row is never deleted.
\<close>

theorem addMcpServer_can_leave_credential:
  "let n' = snd (addMcpServer (unreachable_hub True) example_ext example_add \<lparr>server = (), sent = []\<rparr>)
   in fst (addMcpServer (unreachable_hub True) example_ext example_add \<lparr>server = (), sent = []\<rparr>)
        = Inl (FetchError ''network down'') \<and>
      stored_credential ''t'' (sent n') ''c1'' \<and> list_all (\<lambda>e. rq_method (fst e) \<noteq> DELETE) (sent n')"
  by code_simp

text \<open>
  Also shown. What an add records is what the list reads: the object written on the credential
  parses back to itself, for a server with a handle, name and URL whose tools came from a
  discovery.
\<close>

theorem stored_mcp_roundtrip:
  assumes "st_handle s \<noteq> []" and "st_name s \<noteq> []" and "st_url s \<noteq> []"
    and "all_some parse_tool js = Some (st_tools s)"
  shows "parse_stored (stored_json s) = Some s"
proof -
  have wf: "parse_tool (tool_json t) = Some t" if "t \<in> set ts" "all_some parse_tool js = Some ts" for t ts js
    using that by (induction js arbitrary: ts) (auto split: option.splits dest: parse_tool_json)
  have "all_some parse_tool (map tool_json (st_tools s)) = Some (st_tools s)"
    by (rule all_some_map) (rule wf [OF _ assms(4)])
  moreover have "nonempty_field k (JObj fs) = Some v" if "map_of fs k = Some (JStr v)" "v \<noteq> []" for k fs v
    using that by (cases v) (auto simp: nonempty_field_def str_field_def)
  ultimately show ?thesis
    using assms by (simp add: parse_stored_def stored_json_def str_field_def array_of_def)
qed

theorem stored_mcp_roundtrip_witness:
  "parse_stored (stored_json \<lparr>st_handle = ''exa'', st_name = ''Exa'', st_url = ''https://e'', st_auth = NoAuth,
     st_tools = [\<lparr>mt_name = ''search'', mt_description = None, mt_inputSchema = JObj [], mt_readOnlyHint = Some True,
       mt_annotations = Some (JObj [(''readOnlyHint'', JBool True)])\<rparr>]\<rparr>) \<noteq> None"
proof -
  let ?t = "\<lparr>mt_name = ''search'', mt_description = None, mt_inputSchema = JObj [], mt_readOnlyHint = Some True,
       mt_annotations = Some (JObj [(''readOnlyHint'', JBool True)])\<rparr>"
  let ?s = "\<lparr>st_handle = ''exa'', st_name = ''Exa'', st_url = ''https://e'', st_auth = NoAuth, st_tools = [?t]\<rparr>"
  have ts: "all_some parse_tool [tool_json ?t] = Some (st_tools ?s)" by code_simp
  have "parse_stored (stored_json ?s) = Some ?s"
    by (rule stored_mcp_roundtrip [OF _ _ _ ts]) simp_all
  then show ?thesis by simp
qed

text \<open>
  The next start does not leave a removal alone: after the built-in server was removed and
  the workspace has no server left, the ensure of the next start adds it again.
\<close>

definition empty_hub :: "unit hub" where
  "empty_hub rq w =
     (if rq_path rq = ''/api/tenants/ws/mcp/discover''
      then (Inr \<lparr>rs_status = 200, rs_body = Some (JObj [(''data'', JObj [(''serverInfo'', JObj []), (''tools'', JArr [])])])\<rparr>, w)
      else if rq_method rq = GET then (Inr \<lparr>rs_status = 200, rs_body = Some (JObj [(''data'', JArr [])])\<rparr>, w)
      else if rq_method rq = POST
      then (Inr \<lparr>rs_status = 201, rs_body = Some (JObj [(''id'', JStr ''c2''), (''name'', JStr ''n''),
              (''plugin'', JStr ''mcp-http''), (''providerId'', JStr ''p'')])\<rparr>, w)
      else (Inr \<lparr>rs_status = 200, rs_body = None\<rparr>, w))"

theorem removed_builtin_is_added_again:
  "(case removeMcpServer empty_hub ''ws'' ''c1'' ''p'' \<lparr>server = (), sent = []\<rparr> of
      (Inr _, n1) \<Rightarrow>
        (case runEnsureBuiltInMcpServers empty_hub example_ext ''ws'' n1 of
           (Inr servers, n2) \<Rightarrow> map ms_handle servers = [''exa''] \<and> stored_credential ''ws'' (sent n2) ''c2''
         | _ \<Rightarrow> False)
    | _ \<Rightarrow> False)"
  by code_simp

section \<open>The redeploy loop\<close>

lemma redeploy_append:
  "redeployWorkerTenants fw rd (bs @ cs) s =
     (case redeployWorkerTenants fw rd bs s of ((n, fs), s1) \<Rightarrow>
       (case redeployWorkerTenants fw rd cs s1 of ((m, gs), s2) \<Rightarrow> ((n + m, fs @ gs), s2)))"
proof (induction bs arbitrary: s)
  case Nil
  then show ?case by (simp split: prod.splits)
next
  case (Cons b bs)
  then show ?case
    by (auto simp: Let_def split: prod.splits sum.splits option.splits)
qed

lemma redeploy_single:
  "redeployWorkerTenants fw rd [b] s = ((n, fs), s') \<Longrightarrow>
     n + length fs \<le> 1 \<and> subseq (map (\<lambda>f. (rf_tenantId f, rf_workbenchName f)) fs) [(b_id b, b_name b)]"
  by (auto simp: Let_def split: prod.splits sum.splits option.splits)

text \<open>
  Also shown. One workbench's failure never stops the rest, and none is lost: the loop over any two
  stretches of workbenches is the loop over the first and then, from wherever that left
  off, over the second, counts and failures added; every failure names a workbench of the
  list, in its order; and no workbench is counted twice.
\<close>

theorem redeploy_all_attempted:
  "redeployWorkerTenants fw rd (bs @ cs) s =
     (case redeployWorkerTenants fw rd bs s of ((n, fs), s1) \<Rightarrow>
       (case redeployWorkerTenants fw rd cs s1 of ((m, gs), s2) \<Rightarrow> ((n + m, fs @ gs), s2))) \<and>
   (case redeployWorkerTenants fw rd bs s of ((n, fs), s1) \<Rightarrow>
      n + length fs \<le> length bs \<and>
      subseq (map (\<lambda>f. (rf_tenantId f, rf_workbenchName f)) fs) (map (\<lambda>b. (b_id b, b_name b)) bs))"
proof (rule conjI [OF redeploy_append])
  show "case redeployWorkerTenants fw rd bs s of ((n, fs), s1) \<Rightarrow>
      n + length fs \<le> length bs \<and>
      subseq (map (\<lambda>f. (rf_tenantId f, rf_workbenchName f)) fs) (map (\<lambda>b. (b_id b, b_name b)) bs)"
  proof (induction bs arbitrary: s)
    case Nil
    then show ?case by simp
  next
    case (Cons b bs)
    obtain n fs s1 where 1: "redeployWorkerTenants fw rd [b] s = ((n, fs), s1)"
      by (metis surj_pair)
    obtain m gs s2 where 2: "redeployWorkerTenants fw rd bs s1 = ((m, gs), s2)"
      by (metis surj_pair)
    have eq: "redeployWorkerTenants fw rd ([b] @ bs) s = ((n + m, fs @ gs), s2)"
      unfolding redeploy_append 1 using 2 by simp
    from redeploy_single [OF 1] Cons [of s1] 2
    have len: "n + m + length (fs @ gs) \<le> length ([b] @ bs)"
      and s1: "subseq (map (\<lambda>f. (rf_tenantId f, rf_workbenchName f)) fs) (map (\<lambda>b. (b_id b, b_name b)) [b])"
      and s2: "subseq (map (\<lambda>f. (rf_tenantId f, rf_workbenchName f)) gs) (map (\<lambda>b. (b_id b, b_name b)) bs)"
      by auto
    from list_emb_append_mono [OF s1 s2]
    have "subseq (map (\<lambda>f. (rf_tenantId f, rf_workbenchName f)) (fs @ gs))
        (map (\<lambda>b. (b_id b, b_name b)) ([b] @ bs))"
      by (simp only: map_append)
    with eq len show ?case by (simp del: redeployWorkerTenants.simps)
  qed
qed

end
