(* ===== verification/Deferred_Tools.thy ===== *)
theory Deferred_Tools
  imports Http
begin

text \<open>
  The deferred-tools director, \<open>packages/deferred-tools/src\<close>: name patterns and search
  (\<open>match.ts\<close>), the selection that decides which tools a turn is sent and the events that
  surface more (\<open>director.ts\<close>), the catalog cell (\<open>catalog.ts\<close>) and the \<open>tool_search\<close> tool
  that answers the model (\<open>tool-search.ts\<close>).

  \<open>JSON.stringify\<close> of a schema is the parameter \<open>stringify\<close>. The classes \<open>\p{L}\<close> and
  \<open>\p{N}\<close> are those of Latin-1.
\<close>

record tool_def =
  td_name :: string
  td_description :: string
  td_inputSchema :: json

section \<open>Patterns and namespaces\<close>

definition line_end :: "char \<Rightarrow> bool" where
  "line_end c \<longleftrightarrow> char_code c = 10 \<or> char_code c = 13"

text \<open>The regular expression of a pattern: \<open>.*\<close> for a star, every other character itself.\<close>

fun glob :: "string \<Rightarrow> string \<Rightarrow> bool" where
  "glob [] [] = True"
| "glob [] (c # s) = False"
| "glob (p # ps) [] = (p = CHR ''*'' \<and> glob ps [])"
| "glob (p # ps) (c # s) =
     (if p = CHR ''*'' then glob ps (c # s) \<or> \<not> line_end c \<and> glob (p # ps) s
      else lower_char p = lower_char c \<and> glob ps s)"

definition matchesNamePattern :: "string \<Rightarrow> string \<Rightarrow> bool" where
  "matchesNamePattern name pattern = glob pattern name"

definition selectByPatterns :: "tool_def list \<Rightarrow> string list \<Rightarrow> tool_def list" where
  "selectByPatterns defs patterns =
     filter (\<lambda>d. list_ex (\<lambda>p. matchesNamePattern (td_name d) p) patterns) defs"

definition toolNamespace :: "string \<Rightarrow> string" where
  "toolNamespace name = takeWhile (\<lambda>c. c \<noteq> CHR ''_'' \<and> c \<noteq> CHR ''.'') name"

section \<open>Search\<close>

definition is_token_char :: "char \<Rightarrow> bool" where
  "is_token_char c \<longleftrightarrow> is_word c \<or>
     (let n = char_code c in n \<in> {170, 181, 186, 178, 179, 185, 188, 189, 190} \<or>
        192 \<le> n \<and> n \<noteq> 215 \<and> n \<noteq> 247)"

fun split_tokens :: "string \<Rightarrow> string list" where
  "split_tokens [] = [[]]"
| "split_tokens (c # s) =
     (if is_token_char c then (case split_tokens s of [] \<Rightarrow> [[c]] | t # ts \<Rightarrow> (c # t) # ts)
      else [] # split_tokens s)"

definition tokenize :: "string \<Rightarrow> string list" where
  "tokenize query = filter (\<lambda>t. t \<noteq> []) (split_tokens (to_lower query))"

definition searchDefinitions :: "tool_def list \<Rightarrow> string \<Rightarrow> tool_def list" where
  "searchDefinitions defs query =
     (if tokenize query = [] then defs
      else filter (\<lambda>d. list_all (\<lambda>t. contains t (to_lower (td_name d @ '' '' @ td_description d)))
             (tokenize query)) defs)"

definition firstLine :: "string \<Rightarrow> string" where
  "firstLine d =
     (let line = trim (hd (split_on (CHR 0x0A) d))
      in if length line > 200 then take 197 line @ ''...'' else line)"

definition renderCatalogLines :: "tool_def list \<Rightarrow> string" where
  "renderCatalogLines defs =
     (if defs = [] then ''No deferred tools are available.''
      else join [CHR 0x0A] (map (\<lambda>d. ''- '' @ td_name d @ '': '' @ firstLine (td_description d)) defs))"

definition renderMatches :: "(json \<Rightarrow> string) \<Rightarrow> tool_def list \<Rightarrow> string \<Rightarrow> string" where
  "renderMatches stringify defs query =
     (if defs = [] then ''No deferred tool matches '' @ stringify (JStr query)
         @ ''. Try a single keyword, or an empty query to list them all.''
      else join [CHR 0x0A, CHR 0x0A] (map (\<lambda>d. join [CHR 0x0A]
             [''name: '' @ td_name d, ''description: '' @ td_description d,
              ''input schema: '' @ stringify (td_inputSchema d)]) defs)
         @ [CHR 0x0A, CHR 0x0A] @ ''These tools are now available; call one directly.'')"

section \<open>The selection\<close>

definition TOOL_SEARCH_NAME :: string where "TOOL_SEARCH_NAME = ''tool_search''"

definition TOOL_SEARCH_DEFINITION :: tool_def where
  "TOOL_SEARCH_DEFINITION =
     \<lparr>td_name = TOOL_SEARCH_NAME,
      td_description = ''Search this agent's other tools by keyword. The request lists only some of the tools available; '' @
        ''this one answers with the name, description and input schema of every tool matching the query, '' @
        ''and those tools become callable on the next turn. An empty query lists them all. Search before '' @
        ''saying a thing cannot be done.'',
      td_inputSchema = JObj [(''type'', JStr ''object''),
        (''properties'', JObj [(''query'', JObj [(''type'', JStr ''string'')])]), (''required'', JArr [JStr ''query''])]\<rparr>"

record director_config =
  dc_visible :: "string list"
  dc_deferred :: "string list"

record selection =
  sel_deferred :: "tool_def list"
  sel_always :: "tool_def list"
  sel_surfaced :: "string list"

definition new_selection :: "tool_def list \<Rightarrow> director_config \<Rightarrow> selection" where
  "new_selection defs cfg =
     (let deferred = selectByPatterns defs (dc_deferred cfg);
          names = set (map td_name deferred)
      in \<lparr>sel_deferred = deferred,
          sel_always = filter (\<lambda>d. td_name d \<notin> names \<and> td_name d \<noteq> TOOL_SEARCH_NAME) defs @ [TOOL_SEARCH_DEFINITION],
          sel_surfaced = []\<rparr>)"

definition surface :: "string \<Rightarrow> selection \<Rightarrow> selection" where
  "surface query s =
     (let spaces = set (map (\<lambda>d. toolNamespace (td_name d)) (searchDefinitions (sel_deferred s) query))
      in s\<lparr>sel_surfaced := fold (\<lambda>d. set_add (td_name d))
             (filter (\<lambda>d. toolNamespace (td_name d) \<in> spaces) (sel_deferred s)) (sel_surfaced s)\<rparr>)"

text \<open>\<open>byName\<close> keeps the last definition of a name.\<close>

definition by_name :: "tool_def list \<Rightarrow> string \<Rightarrow> tool_def option" where
  "by_name defs n = map_of (rev (map (\<lambda>d. (td_name d, d)) defs)) n"

definition tools :: "selection \<Rightarrow> tool_def list" where
  "tools s = sel_always s @ List.map_filter (by_name (sel_deferred s)) (sel_surfaced s)"

datatype content_block =
    ToolCall string json
  | OtherBlock

datatype inbound_event =
    InferenceDone "content_block list"
  | OtherEvent

definition block_query :: "content_block \<Rightarrow> string option" where
  "block_query b =
     (case b of
        ToolCall name args \<Rightarrow>
          if name \<noteq> TOOL_SEARCH_NAME then None
          else (case field ''query'' args of Some (JStr q) \<Rightarrow> Some q | _ \<Rightarrow> Some [])
      | OtherBlock \<Rightarrow> None)"

definition surfaceFromEvent :: "inbound_event \<Rightarrow> selection \<Rightarrow> selection" where
  "surfaceFromEvent e s =
     (case e of
        InferenceDone blocks \<Rightarrow> fold surface (List.map_filter block_query blocks) s
      | OtherEvent \<Rightarrow> s)"

text \<open>\<open>decide\<close>: the event surfaces first, and the inner director's inference gets the list.\<close>

definition decide :: "inbound_event \<Rightarrow> selection \<Rightarrow> tool_def list \<times> selection" where
  "decide e s = (let s' = surfaceFromEvent e s in (tools s', s'))"

section \<open>The catalog and the tool\<close>

text \<open>The cell on \<open>globalThis\<close>: nothing yet, or what the director published.\<close>

type_synonym catalog_cell = "tool_def list option"

definition publishDeferredCatalog :: "tool_def list \<Rightarrow> catalog_cell \<Rightarrow> catalog_cell" where
  "publishDeferredCatalog defs c = Some defs"

definition readDeferredCatalog :: "catalog_cell \<Rightarrow> tool_def list" where
  "readDeferredCatalog c = (case c of None \<Rightarrow> [] | Some defs \<Rightarrow> defs)"

definition new_director :: "tool_def list \<Rightarrow> director_config \<Rightarrow> catalog_cell \<Rightarrow> selection \<times> catalog_cell" where
  "new_director defs cfg c =
     (let s = new_selection defs cfg in (s, publishDeferredCatalog (sel_deferred s) c))"

record tool_result =
  tr_callId :: string
  tr_content :: string
  tr_isError :: bool

definition search_call ::
  "(json \<Rightarrow> string) \<Rightarrow> (json \<Rightarrow> string) \<Rightarrow> string \<Rightarrow> json \<Rightarrow> catalog_cell \<Rightarrow> tool_result" where
  "search_call stringify summary callId args c =
     (case str_field ''query'' args of
        None \<Rightarrow> \<lparr>tr_callId = callId, tr_content = ''tool_search takes { '' @ [CHR 0x22] @ ''query'' @ [CHR 0x22]
             @ '': string }: '' @ summary args, tr_isError = True\<rparr>
      | Some raw \<Rightarrow>
          let catalog = readDeferredCatalog c; query = trim raw in
          \<lparr>tr_callId = callId,
           tr_content = (if query = [] then renderCatalogLines catalog
                         else renderMatches stringify (searchDefinitions catalog query) query),
           tr_isError = False\<rparr>)"

section \<open>The selection only grows\<close>

lemma prefix_map_filter: "prefix xs ys \<Longrightarrow> prefix (List.map_filter f xs) (List.map_filter f ys)"
  by (auto simp: prefix_def map_filter_def)

lemma surface_same [simp]: "sel_deferred (surface q s) = sel_deferred s" "sel_always (surface q s) = sel_always s"
  by (simp_all add: surface_def Let_def)

lemma surface_extends: "prefix (tools s) (tools (surface q s))"
  by (simp add: tools_def surface_def Let_def prefix_map_filter prefix_fold_add)

interpretation surfacing: append_only surface tools
  by unfold_locales (rule surface_extends)

lemma event_extends: "prefix (tools s) (tools (surfaceFromEvent e s))"
  by (cases e) (simp_all add: surfaceFromEvent_def surfacing.run_extends)

interpretation director: append_only surfaceFromEvent tools
  by unfold_locales (rule event_extends)


lemma surfaced_surface:
  "set (sel_surfaced (surface q s)) = set (sel_surfaced s) \<union>
     {td_name d | d. d \<in> set (sel_deferred s) \<and>
        (\<exists>m \<in> set (searchDefinitions (sel_deferred s) q). toolNamespace (td_name m) = toolNamespace (td_name d))}"
proof -
  let ?M = "toolNamespace ` td_name ` set (searchDefinitions (sel_deferred s) q)"
  have "set (sel_surfaced (surface q s)) =
      set (sel_surfaced s) \<union> td_name ` {d \<in> set (sel_deferred s). toolNamespace (td_name d) \<in> ?M}"
    by (simp add: surface_def Let_def set_fold_add image_image)
  also have "td_name ` {d \<in> set (sel_deferred s). toolNamespace (td_name d) \<in> ?M} =
      {td_name d | d. d \<in> set (sel_deferred s) \<and>
        (\<exists>m \<in> set (searchDefinitions (sel_deferred s) q). toolNamespace (td_name m) = toolNamespace (td_name d))}"
    by (simp only: image_def) (simp, metis (no_types, lifting))
  finally show ?thesis .
qed

lemma fold_surface_same [simp]:
  "sel_deferred (fold surface qs s) = sel_deferred s" "sel_always (fold surface qs s) = sel_always s"
  by (induction qs arbitrary: s) simp_all

lemma event_same [simp]:
  "sel_deferred (surfaceFromEvent e s) = sel_deferred s" "sel_always (surfaceFromEvent e s) = sel_always s"
  by (simp_all add: surfaceFromEvent_def split: inbound_event.split)

lemma events_same [simp]:
  "sel_deferred (fold surfaceFromEvent es s) = sel_deferred s"
  "sel_always (fold surfaceFromEvent es s) = sel_always s"
  by (induction es arbitrary: s) simp_all

lemma surfaced_fold:
  "set (sel_surfaced (fold surface qs s)) = set (sel_surfaced s) \<union>
     {td_name d | d. d \<in> set (sel_deferred s) \<and>
        (\<exists>q \<in> set qs. \<exists>m \<in> set (searchDefinitions (sel_deferred s) q).
           toolNamespace (td_name m) = toolNamespace (td_name d))}"
proof (induction qs arbitrary: s)
  case Nil
  then show ?case by simp
next
  case (Cons q qs)
  show ?case by (simp add: Cons surfaced_surface) blast
qed

text \<open>A surfaced name is the name of a deferred tool, kept once, so every one of them is sent.\<close>

definition selection_ok :: "selection \<Rightarrow> bool" where
  "selection_ok s \<longleftrightarrow> set (sel_surfaced s) \<subseteq> td_name ` set (sel_deferred s) \<and> distinct (sel_surfaced s)"

lemma selection_ok_new: "selection_ok (new_selection defs cfg)"
  by (simp add: selection_ok_def new_selection_def Let_def)

lemma distinct_surface: "distinct (sel_surfaced s) \<Longrightarrow> distinct (sel_surfaced (surface q s))"
  by (simp add: surface_def Let_def distinct_fold_add)

lemma selection_ok_surface: "selection_ok s \<Longrightarrow> selection_ok (surface q s)"
  by (auto simp: selection_ok_def surfaced_surface distinct_surface)

lemma selection_ok_queries: "selection_ok s \<Longrightarrow> selection_ok (fold surface qs s)"
  by (induction qs arbitrary: s) (simp_all add: selection_ok_surface)

lemma selection_ok_event: "selection_ok s \<Longrightarrow> selection_ok (surfaceFromEvent e s)"
  by (simp add: surfaceFromEvent_def selection_ok_queries split: inbound_event.split)

lemma selection_ok_run: "selection_ok s \<Longrightarrow> selection_ok (fold surfaceFromEvent es s)"
  by (induction es arbitrary: s) (simp_all add: selection_ok_event)

lemma by_name_Some: "by_name defs n = Some d \<Longrightarrow> d \<in> set defs \<and> td_name d = n"
  by (auto simp: by_name_def dest!: map_of_SomeD)

lemma by_name_total: "n \<in> td_name ` set defs \<Longrightarrow> \<exists>d. by_name defs n = Some d"
proof -
  assume "n \<in> td_name ` set defs"
  then have "n \<in> fst ` set (rev (map (\<lambda>d. (td_name d, d)) defs))" by (simp add: image_image)
  then have "by_name defs n \<noteq> None" unfolding by_name_def map_of_eq_None_iff by simp
  then show ?thesis by blast
qed

lemma names_map_filter:
  "set ns \<subseteq> td_name ` set defs \<Longrightarrow> map td_name (List.map_filter (by_name defs) ns) = ns"
proof (induction ns)
  case Nil
  then show ?case by (simp add: map_filter_def)
next
  case (Cons n ns)
  from Cons.prems obtain d where "by_name defs n = Some d" using by_name_total by (meson list.set_intros(1) subsetD)
  with Cons by_name_Some [OF this] show ?case by (auto simp: map_filter_def)
qed

lemma names_tools:
  "selection_ok s \<Longrightarrow> map td_name (tools s) = map td_name (sel_always s) @ sel_surfaced s"
  by (simp add: tools_def selection_ok_def names_map_filter)

section \<open>The two halves agree\<close>

lemma split_tokens_ne [simp]: "split_tokens s \<noteq> []"
  by (induction s) (auto split: list.splits)

lemma space_not_token: "is_space c \<Longrightarrow> \<not> is_token_char (lower_char c)"
  by (auto simp: is_space_def is_token_char_def lower_char_def is_word_def is_alnum_def is_digit_def
      is_ascii_upper_def is_ascii_lower_def in_range_def Let_def char_code_def)

lemma tokenize_Cons: "is_space c \<Longrightarrow> tokenize (c # s) = tokenize s"
  by (simp add: tokenize_def to_lower_def space_not_token)

lemma split_tokens_snoc:
  "\<not> is_token_char c \<Longrightarrow> split_tokens (s @ [c]) = split_tokens s @ [[]]"
  by (induction s) (auto split: list.splits)

lemma tokenize_snoc: "is_space c \<Longrightarrow> tokenize (s @ [c]) = tokenize s"
  by (simp add: tokenize_def to_lower_def space_not_token split_tokens_snoc)

lemma tokenize_trim_start: "tokenize (trim_start s) = tokenize s"
  by (induction s) (simp_all add: trim_start_def tokenize_Cons)

lemma tokenize_trim_end: "tokenize (trim_end s) = tokenize s"
  by (induction s rule: rev_induct) (simp_all add: trim_end_def tokenize_snoc)

lemma tokenize_trim: "tokenize (trim s) = tokenize s"
  by (simp add: trim_def tokenize_trim_start tokenize_trim_end)

lemma search_trim: "searchDefinitions defs (trim q) = searchDefinitions defs q"
  by (simp add: searchDefinitions_def tokenize_trim)

lemma block_query_call:
  "str_field ''query'' args = Some q \<Longrightarrow> block_query (ToolCall TOOL_SEARCH_NAME args) = Some q"
  by (auto simp: block_query_def str_field_def split: option.splits json.splits)

lemma block_query_Some:
  "block_query b = Some q \<Longrightarrow> \<exists>args. b = ToolCall TOOL_SEARCH_NAME args"
  by (auto simp: block_query_def split: content_block.splits if_splits)

lemma queries_of_calls:
  assumes "\<And>args. ToolCall TOOL_SEARCH_NAME args \<in> set blocks \<Longrightarrow> str_field ''query'' args \<noteq> None"
  shows "q \<in> set (List.map_filter block_query blocks) \<longleftrightarrow>
    (\<exists>args. ToolCall TOOL_SEARCH_NAME args \<in> set blocks \<and> str_field ''query'' args = Some q)" (is "?l \<longleftrightarrow> ?r")
proof
  have in_filter: "q \<in> set (List.map_filter block_query blocks) \<longleftrightarrow> (\<exists>b \<in> set blocks. block_query b = Some q)"
    by (induction blocks) (auto simp: map_filter_def)
  show "?l \<Longrightarrow> ?r"
  proof -
    assume ?l
    then obtain b where b: "b \<in> set blocks" "block_query b = Some q" using in_filter by blast
    from block_query_Some [OF b(2)] obtain args where args: "b = ToolCall TOOL_SEARCH_NAME args" by blast
    from assms [of args] b args obtain q' where "str_field ''query'' args = Some q'" by blast
    with b args block_query_call [OF this] show ?r by auto
  qed
  show "?r \<Longrightarrow> ?l" using in_filter block_query_call by blast
qed

section \<open>Properties\<close>

text \<open>Also shown. The prompt cache keeps hitting: over any sequence of events the director sees, the tools block
  sent after an earlier event is a prefix of the one sent after any later event.\<close>

theorem tools_block_prefix:
  "prefix (fst (decide e (fold surfaceFromEvent es s)))
          (fst (decide e' (fold surfaceFromEvent (es @ e # es') s)))"
  using director.earlier_prefix [of "es @ [e]" s "es' @ [e']"]
  by (simp add: decide_def Let_def)

text \<open>Also shown. What \<open>tool_search\<close> answers and what the director sends agree. After an event whose turn called
  \<open>tool_search\<close> with string queries, the deferred names sent are exactly those sent before and those
  that share a namespace with a definition one of the calls answers with (the tool trims its query, the
  director does not).\<close>

theorem searched_namespaces_sent:
  assumes "new_director defs cfg c0 = (s0, c)" and "s = fold surfaceFromEvent es s0"
    and "\<forall>args. ToolCall TOOL_SEARCH_NAME args \<in> set blocks \<longrightarrow> str_field ''query'' args \<noteq> None"
  shows "td_name ` set (fst (decide (InferenceDone blocks) s)) =
    td_name ` set (tools s) \<union>
    {td_name d | d. d \<in> set (selectByPatterns defs (dc_deferred cfg)) \<and>
       (\<exists>args q m. ToolCall TOOL_SEARCH_NAME args \<in> set blocks \<and> str_field ''query'' args = Some q \<and>
          m \<in> set (searchDefinitions (readDeferredCatalog c) (trim q)) \<and>
          toolNamespace (td_name m) = toolNamespace (td_name d))}"
proof -
  let ?qs = "List.map_filter block_query blocks"
  have s0: "s0 = new_selection defs cfg" and c: "c = Some (sel_deferred s0)"
    using assms(1) by (auto simp: new_director_def Let_def publishDeferredCatalog_def)
  have def_s: "sel_deferred s = selectByPatterns defs (dc_deferred cfg)" and same: "sel_deferred s0 = sel_deferred s"
    by (simp_all add: assms(2) s0 new_selection_def Let_def)
  have ok: "selection_ok s" by (simp add: assms(2) s0 selection_ok_new selection_ok_run)
  have qs: "q \<in> set ?qs \<longleftrightarrow> (\<exists>args. ToolCall TOOL_SEARCH_NAME args \<in> set blocks \<and> str_field ''query'' args = Some q)" for q
    by (rule queries_of_calls) (use assms(3) in blast)
  have "td_name ` set (fst (decide (InferenceDone blocks) s)) = set (map td_name (tools (fold surface ?qs s)))"
    by (simp add: decide_def Let_def surfaceFromEvent_def)
  also have "\<dots> = set (map td_name (tools s)) \<union> {td_name d | d. d \<in> set (sel_deferred s) \<and>
        (\<exists>q \<in> set ?qs. \<exists>m \<in> set (searchDefinitions (sel_deferred s) q). toolNamespace (td_name m) = toolNamespace (td_name d))}"
    unfolding names_tools [OF ok] names_tools [OF selection_ok_queries [OF ok, of ?qs]]
      set_append surfaced_fold fold_surface_same by (rule Un_assoc [symmetric])
  also have "set (map td_name (tools s)) = td_name ` set (tools s)" by simp
  also have "{td_name d | d. d \<in> set (sel_deferred s) \<and>
        (\<exists>q \<in> set ?qs. \<exists>m \<in> set (searchDefinitions (sel_deferred s) q). toolNamespace (td_name m) = toolNamespace (td_name d))}
    = {td_name d | d. d \<in> set (selectByPatterns defs (dc_deferred cfg)) \<and>
       (\<exists>args q m. ToolCall TOOL_SEARCH_NAME args \<in> set blocks \<and> str_field ''query'' args = Some q \<and>
          m \<in> set (searchDefinitions (readDeferredCatalog c) (trim q)) \<and>
          toolNamespace (td_name m) = toolNamespace (td_name d))}"
    unfolding Bex_def qs by (intro Collect_cong ex_cong1 conj_cong refl) (auto simp: def_s same c readDeferredCatalog_def search_trim)
  finally show ?thesis .
qed


text \<open>An agent with two memory tools, an Exa tool and \<open>tool_search\<close> itself.\<close>

definition demo_tools :: "tool_def list" where
  "demo_tools = map (\<lambda>(n, d). \<lparr>td_name = n, td_description = d, td_inputSchema = JObj []\<rparr>)
     [(''memory_write'', ''Save a note''), (''post'', ''Send a message''), (''exa.search'', ''Search the web''),
      (''memory_list'', ''List the saved notes''), (''tool_search'', ''Search the tools'')]"

definition demo_config :: director_config where
  "demo_config = \<lparr>dc_visible = [''post''], dc_deferred = [''memory_*'', ''EXA.*'']\<rparr>"

definition ask :: "json \<Rightarrow> inbound_event" where
  "ask args = InferenceDone [OtherBlock, ToolCall TOOL_SEARCH_NAME args]"

lemma memory_searched:
  "map td_name (fst (decide (ask (JObj [(''query'', JStr ''  SAVE a '')])) (new_selection demo_tools demo_config)))
    = [''post'', ''tool_search'', ''memory_write'', ''memory_list'']"
  by code_simp

lemma searched_namespaces_sent_witness:
  "''memory_list'' \<in> td_name ` set (fst (decide (ask (JObj [(''query'', JStr '' web '')]))
      (fold surfaceFromEvent [ask (JObj [(''query'', JStr ''save'')])] (fst (new_director demo_tools demo_config None)))))
   \<and> ''exa.search'' \<in> td_name ` set (fst (decide (ask (JObj [(''query'', JStr '' web '')]))
      (fold surfaceFromEvent [ask (JObj [(''query'', JStr ''save'')])] (fst (new_director demo_tools demo_config None)))))"
proof -
  let ?s = "fold surfaceFromEvent [ask (JObj [(''query'', JStr ''save'')])] (fst (new_director demo_tools demo_config None))"
  let ?bs = "[OtherBlock, ToolCall TOOL_SEARCH_NAME (JObj [(''query'', JStr '' web '')])]"
  let ?exa = "\<lparr>td_name = ''exa.search'', td_description = ''Search the web'', td_inputSchema = JObj []\<rparr>"
  have str: "\<forall>args. ToolCall TOOL_SEARCH_NAME args \<in> set ?bs \<longrightarrow> str_field ''query'' args \<noteq> None"
    by (simp add: str_field_def)
  note sent = searched_namespaces_sent
    [of demo_tools demo_config None "fst (new_director demo_tools demo_config None)"
       "snd (new_director demo_tools demo_config None)" ?s _ ?bs, OF prod.collapse [symmetric] refl str]
  have old: "''memory_list'' \<in> td_name ` set (tools ?s)" by code_simp
  have "?exa \<in> set (selectByPatterns demo_tools (dc_deferred demo_config))" by code_simp
  moreover have "?exa \<in> set (searchDefinitions (readDeferredCatalog (snd (new_director demo_tools demo_config None))) (trim '' web ''))"
    by code_simp
  moreover have "str_field ''query'' (JObj [(''query'', JStr '' web '')]) = Some '' web ''" by code_simp
  moreover have "ToolCall TOOL_SEARCH_NAME (JObj [(''query'', JStr '' web '')]) \<in> set ?bs" by simp
  moreover have "''exa.search'' = td_name ?exa" by simp
  ultimately have exa: "''exa.search'' \<in> td_name ` set (fst (decide (InferenceDone ?bs) ?s))"
    unfolding sent
    by (intro UnI2 CollectI exI [of _ ?exa] exI [of _ "JObj [(''query'', JStr '' web '')]"] exI [of _ "'' web ''"] conjI)
      (assumption | rule refl)+
  have memory: "''memory_list'' \<in> td_name ` set (fst (decide (InferenceDone ?bs) ?s))"
    unfolding sent using old by blast
  from memory exa show ?thesis unfolding ask_def by blast
qed

lemma distinct_names_filter: "distinct (map td_name defs) \<Longrightarrow> distinct (map td_name (filter P defs))"
  by (induction defs) auto

lemma same_name: "distinct (map td_name defs) \<Longrightarrow> d \<in> set defs \<Longrightarrow> d' \<in> set defs \<Longrightarrow> td_name d = td_name d' \<Longrightarrow> d = d'"
  by (auto simp: distinct_map inj_on_def)

lemma always_distinct: "distinct (map td_name defs) \<Longrightarrow> distinct (map td_name (sel_always (new_selection defs cfg)))"
  by (auto simp: new_selection_def Let_def distinct_names_filter TOOL_SEARCH_DEFINITION_def)

lemma always_not_deferred:
  assumes "\<not> list_ex (matchesNamePattern TOOL_SEARCH_NAME) (dc_deferred cfg)"
  shows "td_name ` set (sel_always (new_selection defs cfg)) \<inter> td_name ` set (selectByPatterns defs (dc_deferred cfg)) = {}"
proof -
  have "td_name d \<noteq> TOOL_SEARCH_NAME" if "d \<in> set (selectByPatterns defs (dc_deferred cfg))" for d
    using that assms by (auto simp: selectByPatterns_def)
  then have "TOOL_SEARCH_NAME \<notin> td_name ` set (selectByPatterns defs (dc_deferred cfg))" by (metis imageE)
  then show ?thesis by (auto simp: new_selection_def Let_def TOOL_SEARCH_DEFINITION_def)
qed

text \<open>Also shown. No tool is listed twice: an agent whose tools have distinct names, and whose deferred patterns leave
  \<open>tool_search\<close> alone, never sends two tools of one name; every tool no pattern defers is always sent, and so
  is \<open>tool_search\<close>.\<close>

theorem tools_listed_once:
  assumes "distinct (map td_name defs)" and "\<not> list_ex (matchesNamePattern TOOL_SEARCH_NAME) (dc_deferred cfg)"
  shows "distinct (map td_name (fst (decide e (fold surfaceFromEvent es (new_selection defs cfg))))) \<and>
    set (filter (\<lambda>d. td_name d \<noteq> TOOL_SEARCH_NAME) defs) - set (selectByPatterns defs (dc_deferred cfg))
      \<subseteq> set (fst (decide e (fold surfaceFromEvent es (new_selection defs cfg)))) \<and>
    TOOL_SEARCH_DEFINITION \<in> set (fst (decide e (fold surfaceFromEvent es (new_selection defs cfg))))"
proof -
  let ?s = "surfaceFromEvent e (fold surfaceFromEvent es (new_selection defs cfg))"
  have ok: "selection_ok ?s" by (simp add: selection_ok_new selection_ok_run selection_ok_event)
  have def_s: "sel_deferred ?s = selectByPatterns defs (dc_deferred cfg)"
    and alw: "sel_always ?s = sel_always (new_selection defs cfg)"
    by (simp_all add: new_selection_def Let_def)
  have "distinct (map td_name (tools ?s))"
    unfolding names_tools [OF ok] alw distinct_append
  proof (intro conjI always_distinct assms(1))
    show "distinct (sel_surfaced ?s)" using ok by (simp add: selection_ok_def)
    have "set (sel_surfaced ?s) \<subseteq> td_name ` set (selectByPatterns defs (dc_deferred cfg))"
      using ok unfolding selection_ok_def def_s by blast
    with always_not_deferred [OF assms(2), of defs]
    show "set (map td_name (sel_always (new_selection defs cfg))) \<inter> set (sel_surfaced ?s) = {}"
      unfolding set_map by blast
  qed
  moreover have "set (filter (\<lambda>d. td_name d \<noteq> TOOL_SEARCH_NAME) defs) - set (selectByPatterns defs (dc_deferred cfg))
      \<subseteq> set (sel_always ?s)"
    unfolding alw using same_name [OF assms(1)] by (fastforce simp: new_selection_def Let_def selectByPatterns_def)
  moreover have "TOOL_SEARCH_DEFINITION \<in> set (sel_always ?s)"
    unfolding alw by (simp add: new_selection_def Let_def)
  ultimately show ?thesis by (auto simp: decide_def Let_def tools_def)
qed

lemma tools_listed_once_witness:
  "distinct (map td_name (fst (decide (ask (JObj [])) (fold surfaceFromEvent [ask (JObj [(''query'', JStr ''save'')])]
      (new_selection demo_tools demo_config)))))"
proof -
  have "distinct (map td_name demo_tools)" by code_simp
  moreover have "\<not> list_ex (matchesNamePattern TOOL_SEARCH_NAME) (dc_deferred demo_config)" by code_simp
  ultimately show ?thesis using tools_listed_once by blast
qed

section \<open>Where they do not agree\<close>

text \<open>A \<open>tool_search\<close> call with no string query is answered with an error, while the director surfaces
  every deferred tool for it.\<close>

lemma bad_query_surfaces_everything:
  "tr_isError (search_call (\<lambda>_. []) (\<lambda>_. []) ''c1'' (JObj [(''query'', JNull)])
     (snd (new_director demo_tools demo_config None)))
   \<and> map td_name (fst (decide (ask (JObj [(''query'', JNull)])) (fst (new_director demo_tools demo_config None))))
     = [''post'', ''tool_search'', ''memory_write'', ''exa.search'', ''memory_list'']"
  by code_simp

text \<open>A deferred pattern that covers \<open>tool_search\<close> lists it twice once it is searched up.\<close>

lemma star_lists_tool_search_twice:
  "map td_name (fst (decide (ask (JObj [(''query'', JStr ''tool'')]))
      (new_selection demo_tools \<lparr>dc_visible = [''post''], dc_deferred = [''*'']\<rparr>)))
    = [''tool_search'', ''tool_search'']"
  by code_simp

text \<open>\<open>visible\<close> decides nothing: a tool in both lists is deferred.\<close>

lemma visible_is_ignored: "new_selection defs (cfg\<lparr>dc_visible := v\<rparr>) = new_selection defs cfg"
  by (simp add: new_selection_def)

end
