(* ===== verification/Threads.thy ===== *)
theory Threads
  imports Http
begin

text \<open>
  Mail threads, \<open>apps/web/src/threads.ts\<close>: participants, reply chains, the grouping of
  messages into threads and the direct-message threads read off it.

  The loop of \<open>rootOf\<close> follows reply links until there is none. It is a
  \<open>partial_function\<close>: \<open>None\<close> is a loop that does not end.
\<close>

record thread_message =
  tm_messageId :: string
  tm_from :: string
  tm_to :: "string list"
  tm_cc :: "string list option"
  tm_subject :: "string option"
  tm_listId :: "string option"
  tm_inReplyTo :: "string option"
  tm_references :: "string list option"

record thread =
  th_key :: string
  th_rootMessageId :: string
  th_messageIds :: "string list"

record dm_thread =
  dm_agentAddress :: string
  dm_rootMessageId :: string
  dm_messageIds :: "string list"

section \<open>Participants and subjects\<close>

definition normalizeAddress :: "string \<Rightarrow> string" where
  "normalizeAddress a = to_lower (trim a)"

definition or_empty :: "'a list option \<Rightarrow> 'a list" where
  "or_empty x = (case x of None \<Rightarrow> [] | Some xs \<Rightarrow> xs)"

definition participantsOf :: "thread_message \<Rightarrow> string list" where
  "participantsOf m =
     fold (\<lambda>a. set_add (normalizeAddress a)) (tm_to m @ or_empty (tm_cc m)) [normalizeAddress (tm_from m)]"

text \<open>
  The prefix a subject loses: \<open>re\<close>, \<open>fwd\<close>, \<open>fw\<close> or \<open>aw\<close> and one or more tags, each \<open>:\<close> or
  a bracketed text, with white space between.
\<close>

definition strip_tag :: "string \<Rightarrow> string option" where
  "strip_tag s =
     (case dropWhile is_space s of
        [] \<Rightarrow> None
      | c # r \<Rightarrow>
          if c = CHR '':'' then Some r
          else if c = CHR ''['' \<and> CHR '']'' \<in> set r then Some (tl (dropWhile (\<lambda>d. d \<noteq> CHR '']'') r))
          else None)"

lemma strip_tag_shorter: "strip_tag s = Some r \<Longrightarrow> length r < length s"
proof -
  have "length (tl (dropWhile P t)) \<le> length t" for P and t :: string
    using length_dropWhile_le [of P t] by simp
  then show "strip_tag s = Some r \<Longrightarrow> length r < length s"
    using length_dropWhile_le [of is_space s]
    by (fastforce simp: strip_tag_def split: list.splits if_splits intro: le_less_trans)
qed

function strip_tags :: "string \<Rightarrow> string" where
  "strip_tags s = (case strip_tag s of None \<Rightarrow> s | Some r \<Rightarrow> strip_tags r)"
  by auto
termination by (relation "measure length") (auto dest: strip_tag_shorter)

declare strip_tags.simps [simp del]

definition reply_prefix :: "string \<Rightarrow> string option" where
  "reply_prefix s =
     (let t = dropWhile is_space s; l = to_lower t;
          after = (\<lambda>p. if starts_with p l then map_option strip_tags (strip_tag (drop (length p) t)) else None)
      in case after ''re'' of Some r \<Rightarrow> Some r | None \<Rightarrow>
         (case after ''fwd'' of Some r \<Rightarrow> Some r | None \<Rightarrow>
         (case after ''fw'' of Some r \<Rightarrow> Some r | None \<Rightarrow> after ''aw'')))"

definition normalizeSubject :: "string \<Rightarrow> string" where
  "normalizeSubject s = to_lower (trim (case reply_prefix s of None \<Rightarrow> s | Some r \<Rightarrow> r))"

section \<open>Reply chains\<close>

definition parentIdOf :: "thread_message \<Rightarrow> string list \<Rightarrow> string option" where
  "parentIdOf m known =
     (case tm_inReplyTo m of
        Some p \<Rightarrow> if p \<in> set known then Some p else find (\<lambda>r. r \<in> set known) (rev (or_empty (tm_references m)))
      | None \<Rightarrow> find (\<lambda>r. r \<in> set known) (rev (or_empty (tm_references m))))"

definition parents :: "thread_message list \<Rightarrow> (string \<times> string) list" where
  "parents ms =
     fold (\<lambda>m links. case parentIdOf m (map tm_messageId ms) of
             None \<Rightarrow> links | Some p \<Rightarrow> AList.update (tm_messageId m) p links) ms []"

partial_function (option) rootOf :: "(string \<times> string) list \<Rightarrow> string \<Rightarrow> string option" where
  "rootOf links current =
     (case map_of links current of None \<Rightarrow> Some current | Some next \<Rightarrow> rootOf links next)"

declare rootOf.simps [code]

section \<open>Groups\<close>

record group =
  gr_members :: "thread_message list"
  gr_listId :: "string option"
  gr_subject :: "string option"

text \<open>\<open>JSON.stringify\<close> of a list of strings.\<close>

definition json_char :: "char \<Rightarrow> string" where
  "json_char c =
     (let n = char_code c; hex = (\<lambda>k. char_of (if k < 10 then 48 + k else 87 + k)) in
      if n = 34 \<or> n = 92 then [CHR 0x5C, c]
      else if n = 8 then [CHR 0x5C, CHR ''b'']
      else if n = 9 then [CHR 0x5C, CHR ''t'']
      else if n = 10 then [CHR 0x5C, CHR ''n'']
      else if n = 12 then [CHR 0x5C, CHR ''f'']
      else if n = 13 then [CHR 0x5C, CHR ''r'']
      else if n < 32 then CHR 0x5C # ''u00'' @ [hex (n div 16), hex (n mod 16)]
      else [c])"

definition json_strings :: "string list \<Rightarrow> string" where
  "json_strings xs = ''['' @ join '','' (map (\<lambda>x. [CHR 0x22] @ concat (map json_char x) @ [CHR 0x22]) xs) @ '']''"

definition group_participants :: "group \<Rightarrow> string list" where
  "group_participants g = fold (\<lambda>m members. fold (\<lambda>a. set_add a) (participantsOf m) members) (gr_members g) []"

definition participantKeyOf :: "group \<Rightarrow> string" where
  "participantKeyOf g = json_strings (js_sort str_le (group_participants g))"

definition first_some :: "'a option \<Rightarrow> 'a option \<Rightarrow> 'a option" where
  "first_some a b = (case a of None \<Rightarrow> b | Some _ \<Rightarrow> a)"

definition add_member :: "thread_message \<Rightarrow> group option \<Rightarrow> group" where
  "add_member m g =
     (let g' = (case g of None \<Rightarrow> \<lparr>gr_members = [], gr_listId = None, gr_subject = None\<rparr> | Some g \<Rightarrow> g)
      in \<lparr>gr_members = gr_members g' @ [m],
          gr_listId = first_some (gr_listId g') (tm_listId m),
          gr_subject = first_some (gr_subject g') (tm_subject m)\<rparr>)"

fun group_by_root ::
  "(string \<times> string) list \<Rightarrow> thread_message list \<Rightarrow> (string \<times> group) list \<Rightarrow> (string \<times> group) list option" where
  "group_by_root links [] byRoot = Some byRoot"
| "group_by_root links (m # ms) byRoot =
     (case rootOf links (tm_messageId m) of
        None \<Rightarrow> None
      | Some root \<Rightarrow> group_by_root links ms (AList.update root (add_member m (map_of byRoot root)) byRoot))"

definition merge_key :: "group \<Rightarrow> string option" where
  "merge_key g =
     (case gr_listId g of
        Some l \<Rightarrow> Some (''list:'' @ l)
      | None \<Rightarrow>
          let subject = (case gr_subject g of None \<Rightarrow> [] | Some s \<Rightarrow> normalizeSubject s)
          in if subject = [] then None
             else Some (''subject:'' @ subject @ [CHR 0x00] @ ''participants:'' @ participantKeyOf g))"

definition append_members :: "group \<Rightarrow> group \<Rightarrow> group" where
  "append_members g g' = g\<lparr>gr_members := gr_members g @ gr_members g'\<rparr>"

text \<open>One group joins the merged ones under its key, or the groups that stay alone.\<close>

definition merge_group ::
  "group \<Rightarrow> (string \<times> group) list \<times> group list \<Rightarrow> (string \<times> group) list \<times> group list" where
  "merge_group g ms =
     (case merge_key g of
        None \<Rightarrow> (fst ms, snd ms @ [g])
      | Some k \<Rightarrow>
          (case map_of (fst ms) k of
             None \<Rightarrow> (AList.update k g (fst ms), snd ms)
           | Some existing \<Rightarrow> (AList.update k (append_members existing g) (fst ms), snd ms)))"

definition thread_of :: "string \<times> group \<Rightarrow> thread" where
  "thread_of kg =
     (let ids = map tm_messageId (gr_members (snd kg)) in
      \<lparr>th_key = (if fst kg = [] then ''message:'' @ (case ids of [] \<Rightarrow> ''undefined'' | i # _ \<Rightarrow> i) else fst kg),
       th_rootMessageId = (case ids of [] \<Rightarrow> [] | i # _ \<Rightarrow> i),
       th_messageIds = ids\<rparr>)"

definition deriveThreads :: "thread_message list \<Rightarrow> thread list option" where
  "deriveThreads ms =
     (case group_by_root (parents ms) ms [] of
        None \<Rightarrow> None
      | Some byRoot \<Rightarrow>
          let (merged, solo) = fold (\<lambda>rg. merge_group (snd rg)) byRoot ([], [])
          in Some (map thread_of (merged @ map (\<lambda>g. ([], g)) solo)))"

section \<open>Direct messages and forks\<close>

text \<open>\<open>new Map\<close> of pairs keeps the last value of a key.\<close>

definition by_id :: "thread_message list \<Rightarrow> string \<Rightarrow> thread_message option" where
  "by_id ms i = map_of (rev (map (\<lambda>m. (tm_messageId m, m)) ms)) i"

definition thread_members :: "thread_message list \<Rightarrow> thread \<Rightarrow> string list" where
  "thread_members ms t =
     fold (\<lambda>i members. case by_id ms i of None \<Rightarrow> members | Some m \<Rightarrow> fold (\<lambda>a. set_add a) (participantsOf m) members)
       (th_messageIds t) []"

definition dm_of :: "string list \<Rightarrow> thread_message list \<Rightarrow> thread \<Rightarrow> dm_thread option" where
  "dm_of users ms t =
     (let members = thread_members ms t; others = filter (\<lambda>a. a \<notin> set users) members
      in if list_ex (\<lambda>a. a \<in> set users) members
         then (case others of
                 [a] \<Rightarrow> Some \<lparr>dm_agentAddress = a, dm_rootMessageId = th_rootMessageId t, dm_messageIds = th_messageIds t\<rparr>
               | _ \<Rightarrow> None)
         else None)"

definition deriveDmThreads :: "thread_message list \<Rightarrow> string list \<Rightarrow> dm_thread list option" where
  "deriveDmThreads ms userAddresses =
     map_option (List.map_filter (dm_of (map normalizeAddress userAddresses) ms)) (deriveThreads ms)"

definition buildForkReference :: "string \<Rightarrow> string list option \<Rightarrow> string \<times> string list" where
  "buildForkReference messageId references =
     (let ancestry = or_empty references
      in (messageId, if ancestry \<noteq> [] \<and> last ancestry = messageId then ancestry else ancestry @ [messageId]))"

definition isDuplicateMessageId :: "string list \<Rightarrow> string \<Rightarrow> bool" where
  "isDuplicateMessageId seen i \<longleftrightarrow> i \<in> set seen"


section \<open>Reply chains end unless they loop\<close>

lemma parents_fold:
  "map_of (fold (\<lambda>m links. case parentIdOf m known of None \<Rightarrow> links | Some p \<Rightarrow> AList.update (tm_messageId m) p links) ms links0) i
     = Some p \<Longrightarrow>
   map_of links0 i = Some p \<or> (\<exists>m \<in> set ms. tm_messageId m = i \<and> parentIdOf m known = Some p)"
  by (induction ms arbitrary: links0) (fastforce split: option.splits if_splits)+

lemma parents_Some:
  "map_of (parents ms) i = Some p \<Longrightarrow>
   \<exists>m \<in> set ms. tm_messageId m = i \<and> parentIdOf m (map tm_messageId ms) = Some p"
  unfolding parents_def by (drule parents_fold) simp

lemma parents_fold_last:
  assumes "m \<in> set ms" and "distinct (map tm_messageId ms)"
  shows "map_of (fold (\<lambda>m links. case parentIdOf m known of None \<Rightarrow> links | Some p \<Rightarrow> AList.update (tm_messageId m) p links) ms links0)
      (tm_messageId m) = (case parentIdOf m known of None \<Rightarrow> map_of links0 (tm_messageId m) | Some p \<Rightarrow> Some p)"
  using assms
proof (induction ms rule: rev_induct)
  case Nil
  then show ?case by simp
next
  case (snoc m' ms)
  let ?F = "\<lambda>m links. case parentIdOf m known of None \<Rightarrow> links | Some p \<Rightarrow> AList.update (tm_messageId m) p links"
  have other: "map_of (fold ?F ms links0) i = map_of links0 i" if "i \<notin> tm_messageId ` set ms" for i
    using that by (induction ms arbitrary: links0) (auto split: option.splits)
  show ?case
  proof (cases "m = m'")
    case True
    with snoc.prems other [of "tm_messageId m"] show ?thesis by (auto split: option.splits)
  next
    case False
    with snoc.prems have "m \<in> set ms" and "tm_messageId m' \<notin> tm_messageId ` set ms" by auto
    then have "tm_messageId m \<noteq> tm_messageId m'" and "m \<in> set ms" by (metis imageI)+
    with snoc show ?thesis by (auto split: option.splits)
  qed
qed

lemma parents_of:
  "m \<in> set ms \<Longrightarrow> distinct (map tm_messageId ms) \<Longrightarrow>
   map_of (parents ms) (tm_messageId m) = parentIdOf m (map tm_messageId ms)"
  by (simp add: parents_def parents_fold_last split: option.split)

text \<open>Every reply has a smaller rank above it: no chain of replies comes back to itself.\<close>

definition replies_ranked :: "(string \<Rightarrow> nat) \<Rightarrow> thread_message list \<Rightarrow> bool" where
  "replies_ranked rank ms \<longleftrightarrow>
     (\<forall>m \<in> set ms. case parentIdOf m (map tm_messageId ms) of None \<Rightarrow> True | Some p \<Rightarrow> rank p < rank (tm_messageId m))"

lemma rootOf_ranked:
  assumes "replies_ranked rank ms"
  shows "\<exists>r. rootOf (parents ms) i = Some r"
proof (induction "rank i" arbitrary: i rule: less_induct)
  case less
  show ?case
  proof (cases "map_of (parents ms) i")
    case None
    then show ?thesis by (simp add: rootOf.simps)
  next
    case (Some p)
    with parents_Some [OF this] assms have "rank p < rank i" by (fastforce simp: replies_ranked_def)
    from less [OF this] Some show ?thesis by (simp add: rootOf.simps)
  qed
qed

text \<open>A set of messages each of which replies to one of the set is never left.\<close>

lemma rootOf_loop:
  assumes "\<And>i. i \<in> C \<Longrightarrow> \<exists>p \<in> C. map_of links i = Some p" and "i \<in> C"
  shows "rootOf links i = None"
proof -
  have "l = links \<longrightarrow> j \<notin> C" if "rootOf l j = Some r" for l j r
    using that
  proof (rule rootOf.raw_induct [rotated])
    fix self l j r
    assume IH: "\<And>l j r. self l j = Some r \<Longrightarrow> l = links \<longrightarrow> j \<notin> C"
      and step: "(case map_of l j of None \<Rightarrow> Some j | Some next \<Rightarrow> self l next) = Some r"
    show "l = links \<longrightarrow> j \<notin> C"
    proof (intro impI notI)
      assume l: "l = links" and "j \<in> C"
      with assms(1) obtain p where "p \<in> C" "map_of links j = Some p" by blast
      with IH step l show False by auto
    qed
  qed
  with assms(2) show ?thesis by (cases "rootOf links i") auto
qed

section \<open>Groups keep every message\<close>

definition members_of :: "(string \<times> group) list \<Rightarrow> thread_message list" where
  "members_of gs = concat (map (\<lambda>kg. gr_members (snd kg)) gs)"

lemma members_of_simps [simp]:
  "members_of [] = []"
  "members_of (kg # gs) = gr_members (snd kg) @ members_of gs"
  "members_of (gs @ gs') = members_of gs @ members_of gs'"
  by (simp_all add: members_of_def)

lemma members_add:
  "mset (members_of (AList.update k (add_member m (map_of gs k)) gs)) = add_mset m (mset (members_of gs))"
  by (induction gs) (auto simp: add_member_def Let_def)

lemma group_by_root_members:
  "group_by_root links ms gs = Some gs' \<Longrightarrow> mset (members_of gs') = mset (members_of gs) + mset ms"
  by (induction ms arbitrary: gs) (auto simp: members_add split: option.splits)

lemma group_by_root_total:
  "(\<And>i. \<exists>r. rootOf links i = Some r) \<Longrightarrow> \<exists>gs'. group_by_root links ms gs = Some gs'"
proof (induction ms arbitrary: gs)
  case Nil
  then show ?case by simp
next
  case (Cons m ms)
  from Cons.prems obtain r where "rootOf links (tm_messageId m) = Some r" by blast
  with Cons show ?case by simp
qed

lemma members_append:
  "map_of gs k = Some g \<Longrightarrow>
   mset (members_of (AList.update k (append_members g g') gs)) = mset (members_of gs) + mset (gr_members g')"
  by (induction gs) (auto simp: append_members_def)

definition merged_members :: "(string \<times> group) list \<times> group list \<Rightarrow> thread_message list" where
  "merged_members ms = members_of (fst ms @ map (\<lambda>g. ([], g)) (snd ms))"

lemma merge_group_members: "mset (merged_members (merge_group g ms)) = mset (merged_members ms) + mset (gr_members g)"
  by (auto simp: merged_members_def merge_group_def members_append update_new split: option.splits)

lemma merge_all_members:
  "mset (merged_members (fold (\<lambda>rg. merge_group (snd rg)) gs ms)) = mset (merged_members ms) + mset (members_of gs)"
  by (induction gs arbitrary: ms) (simp_all add: merge_group_members)

lemma ids_of_threads:
  "concat (map th_messageIds (map thread_of gs)) = map tm_messageId (members_of gs)"
  by (induction gs) (simp_all add: thread_of_def Let_def)

lemma deriveThreads_Some:
  "deriveThreads ms = Some ts \<Longrightarrow>
   \<exists>byRoot merged. group_by_root (parents ms) ms [] = Some byRoot \<and>
     merged = fold (\<lambda>rg. merge_group (snd rg)) byRoot ([], []) \<and>
     ts = map thread_of (fst merged @ map (\<lambda>g. ([], g)) (snd merged))"
  by (auto simp: deriveThreads_def split: option.splits prod.splits)

lemma deriveThreads_ids:
  assumes "deriveThreads ms = Some ts"
  shows "mset (concat (map th_messageIds ts)) = mset (map tm_messageId ms)"
proof -
  from deriveThreads_Some [OF assms] obtain byRoot merged
    where g: "group_by_root (parents ms) ms [] = Some byRoot"
      and m: "merged = fold (\<lambda>rg. merge_group (snd rg)) byRoot ([], [])"
      and ts: "ts = map thread_of (fst merged @ map (\<lambda>g. ([], g)) (snd merged))" by blast
  have "mset (merged_members merged) = mset ms"
    using group_by_root_members [OF g] by (simp add: m merge_all_members) (simp add: merged_members_def)
  then show ?thesis unfolding ts ids_of_threads by (simp add: merged_members_def del: map_append)
qed

lemma deriveThreads_total: "replies_ranked rank ms \<Longrightarrow> \<exists>ts. deriveThreads ms = Some ts"
proof -
  assume "replies_ranked rank ms"
  then obtain gs where "group_by_root (parents ms) ms [] = Some gs"
    using group_by_root_total rootOf_ranked by blast
  then show ?thesis by (simp add: deriveThreads_def split: prod.split)
qed

section \<open>Replies stay with what they answer\<close>

lemma group_kept:
  "group_by_root links ms gs = Some gs' \<Longrightarrow> map_of gs k = Some g \<Longrightarrow> x \<in> set (gr_members g) \<Longrightarrow>
   \<exists>g'. map_of gs' k = Some g' \<and> x \<in> set (gr_members g')"
proof (induction ms arbitrary: gs g)
  case Nil
  then show ?case by simp
next
  case (Cons m ms)
  then obtain r where r: "rootOf links (tm_messageId m) = Some r"
    and rest: "group_by_root links ms (AList.update r (add_member m (map_of gs r)) gs) = Some gs'"
    by (auto split: option.splits)
  show ?case
  proof (cases "r = k")
    case True
    with Cons.prems(2,3) Cons.IH [OF rest, of "add_member m (Some g)"] show ?thesis
      by (auto simp: add_member_def Let_def)
  next
    case False
    with Cons.prems(2,3) Cons.IH [OF rest, of g] show ?thesis by auto
  qed
qed

lemma grouped_at_root:
  "group_by_root links ms gs = Some gs' \<Longrightarrow> m \<in> set ms \<Longrightarrow> rootOf links (tm_messageId m) = Some r \<Longrightarrow>
   \<exists>g. map_of gs' r = Some g \<and> m \<in> set (gr_members g)"
proof (induction ms arbitrary: gs)
  case Nil
  then show ?case by simp
next
  case (Cons x ms)
  then obtain q where q: "rootOf links (tm_messageId x) = Some q"
    and rest: "group_by_root links ms (AList.update q (add_member x (map_of gs q)) gs) = Some gs'"
    by (auto split: option.splits)
  show ?case
  proof (cases "m = x")
    case True
    with q Cons.prems(3) group_kept [OF rest, of r "add_member x (map_of gs r)" x] show ?thesis
      by (auto simp: add_member_def Let_def)
  next
    case False
    with Cons.prems Cons.IH [OF rest] show ?thesis by auto
  qed
qed

definition covered :: "thread_message set \<Rightarrow> (string \<times> group) list \<times> group list \<Rightarrow> bool" where
  "covered X ms \<longleftrightarrow> (\<exists>g \<in> snd ` set (fst ms) \<union> set (snd ms). X \<subseteq> set (gr_members g))"

lemma update_kept:
  "kg \<in> set al \<Longrightarrow> kg \<in> set (AList.update k v al) \<or> map_of al k = Some (snd kg) \<and> (k, v) \<in> set (AList.update k v al)"
  by (induction al) auto

lemma set_update_new: "(k, v) \<in> set (AList.update k v al)"
  by (induction al) auto

lemma covered_merge: "covered X ms \<Longrightarrow> covered X (merge_group g ms)"
proof -
  assume "covered X ms"
  then consider g' where "g' \<in> set (snd ms)" "X \<subseteq> set (gr_members g')"
    | kg where "kg \<in> set (fst ms)" "X \<subseteq> set (gr_members (snd kg))"
    by (auto simp: covered_def)
  then show ?thesis
  proof cases
    case 1
    then show ?thesis by (auto simp: covered_def merge_group_def split: option.splits)
  next
    case 2
    show ?thesis
    proof (cases "merge_key g")
      case None
      with 2 show ?thesis by (auto simp: covered_def merge_group_def)
    next
      case (Some k)
      show ?thesis
      proof (cases "map_of (fst ms) k")
        case None
        with Some 2 show ?thesis by (auto simp: covered_def merge_group_def update_new)
      next
        case (Some old)
        let ?al = "AList.update k (append_members old g) (fst ms)"
        have "merge_group g ms = (?al, snd ms)"
          using Some \<open>merge_key g = Some k\<close> by (simp add: merge_group_def)
        moreover have "\<exists>kg' \<in> set ?al. X \<subseteq> set (gr_members (snd kg'))"
          using update_kept [OF 2(1), of k "append_members old g"]
        proof
          assume "map_of (fst ms) k = Some (snd kg) \<and> (k, append_members old g) \<in> set ?al"
          with 2(2) Some show ?thesis
            by (intro bexI [of _ "(k, append_members old g)"]) (auto simp: append_members_def)
        qed (use 2(2) in blast)
        ultimately show ?thesis by (auto simp: covered_def)
      qed
    qed
  qed
qed

lemma covered_new: "X \<subseteq> set (gr_members g) \<Longrightarrow> covered X (merge_group g ms)"
proof -
  assume X: "X \<subseteq> set (gr_members g)"
  show ?thesis
  proof (cases "merge_key g")
    case None
    with X show ?thesis by (auto simp: covered_def merge_group_def)
  next
    case (Some k)
    let ?v = "case map_of (fst ms) k of None \<Rightarrow> g | Some old \<Rightarrow> append_members old g"
    have "merge_group g ms = (AList.update k ?v (fst ms), snd ms)"
      using Some by (simp add: merge_group_def split: option.split)
    moreover have "X \<subseteq> set (gr_members ?v)" using X by (auto simp: append_members_def split: option.split)
    moreover note set_update_new [of k ?v "fst ms"]
    ultimately show ?thesis unfolding covered_def by (metis Un_iff fst_conv image_eqI snd_conv)
  qed
qed

lemma covered_fold: "covered X ms \<Longrightarrow> covered X (fold (\<lambda>rg. merge_group (snd rg)) gs ms)"
  by (induction gs arbitrary: ms) (simp_all add: covered_merge)

lemma covered_all:
  "kg \<in> set gs \<Longrightarrow> X \<subseteq> set (gr_members (snd kg)) \<Longrightarrow> covered X (fold (\<lambda>rg. merge_group (snd rg)) gs ms)"
proof (induction gs arbitrary: ms)
  case Nil
  then show ?case by simp
next
  case (Cons kg' gs)
  show ?case
  proof (cases "kg = kg'")
    case True
    with Cons.prems(2) show ?thesis by (simp add: covered_fold covered_new)
  next
    case False
    with Cons show ?thesis by simp
  qed
qed

lemma covered_thread:
  "covered X ms \<Longrightarrow> \<exists>t \<in> set (map thread_of (fst ms @ map (\<lambda>g. ([], g)) (snd ms))). tm_messageId ` X \<subseteq> set (th_messageIds t)"
proof -
  assume "covered X ms"
  then obtain g k where "(k, g) \<in> set (fst ms @ map (\<lambda>g. ([], g)) (snd ms))" and "X \<subseteq> set (gr_members g)"
    by (fastforce simp: covered_def)
  moreover have "th_messageIds (thread_of (k, g)) = map tm_messageId (gr_members g)"
    by (simp add: thread_of_def Let_def)
  ultimately show ?thesis
    by (intro bexI [of _ "thread_of (k, g)"]) (auto simp del: map_append)
qed

lemma same_root_same_thread:
  assumes ts: "deriveThreads ms = Some ts" and "m \<in> set ms" "m' \<in> set ms"
    and "rootOf (parents ms) (tm_messageId m) = Some r" "rootOf (parents ms) (tm_messageId m') = Some r"
  shows "\<exists>t \<in> set ts. tm_messageId m \<in> set (th_messageIds t) \<and> tm_messageId m' \<in> set (th_messageIds t)"
proof -
  from deriveThreads_Some [OF ts] obtain gs where gs: "group_by_root (parents ms) ms [] = Some gs"
    and ts': "ts = map thread_of (fst (fold (\<lambda>rg. merge_group (snd rg)) gs ([], []))
      @ map (\<lambda>g. ([], g)) (snd (fold (\<lambda>rg. merge_group (snd rg)) gs ([], []))))" by blast
  from grouped_at_root [OF gs assms(2,4)] grouped_at_root [OF gs assms(3,5)] obtain g
    where g: "map_of gs r = Some g" and in_g: "{m, m'} \<subseteq> set (gr_members g)" by auto
  have "(r, g) \<in> set gs" using g by (rule map_of_SomeD)
  from covered_thread [OF covered_all [OF this], of "{m, m'}"] in_g show ?thesis unfolding ts' by auto
qed

lemma parentIdOf_known: "parentIdOf m known = Some p \<Longrightarrow> p \<in> set known"
  by (auto simp: parentIdOf_def split: option.splits if_splits dest!: find_SomeD)

section \<open>Properties\<close>

text \<open>C35. When no chain of replies loops, deriving threads ends, and the threads share out the messages:
  every message id is in them exactly as often as among the messages.\<close>

theorem deriveThreads_partition:
  assumes "replies_ranked rank ms"
  shows "\<exists>ts. deriveThreads ms = Some ts \<and> mset (concat (map th_messageIds ts)) = mset (map tm_messageId ms)"
  using deriveThreads_total [OF assms] deriveThreads_ids by blast


definition mail :: "string \<Rightarrow> string \<Rightarrow> string list \<Rightarrow> string option \<Rightarrow> string option \<Rightarrow> thread_message" where
  "mail i sender receivers subject reply =
     \<lparr>tm_messageId = i, tm_from = sender, tm_to = receivers, tm_cc = None, tm_subject = subject,
      tm_listId = None, tm_inReplyTo = reply, tm_references = None\<rparr>"

definition demo_mail :: "thread_message list" where
  "demo_mail =
     [mail ''1'' ''a'' [''b''] (Some ''Hi'') None, mail ''2'' ''b'' [''A''] None (Some ''1''),
      mail ''3'' ''a'' [''b''] (Some ''Re: [x] hi '') None, mail ''4'' ''a'' [''e''] (Some ''hi'') None]"

definition demo_rank :: "string \<Rightarrow> nat" where
  "demo_rank i = (if i = ''2'' then 1 else 0)"

lemma demo_ranked: "replies_ranked demo_rank demo_mail"
  by code_simp

lemma deriveThreads_partition_witness:
  "\<exists>ts. deriveThreads demo_mail = Some ts \<and> mset (concat (map th_messageIds ts)) = mset (map tm_messageId demo_mail)"
  by (rule deriveThreads_partition [OF demo_ranked])

text \<open>The reply joins its parent, the later mail to the same people joins by its subject, the mail to someone
  else does not.\<close>

lemma demo_threads: "map_option (map th_messageIds) (deriveThreads demo_mail) = Some [[''1'', ''2'', ''3''], [''4'']]"
  by code_simp

text \<open>Also shown. A reply is in the thread of the message it answers.\<close>

theorem reply_in_thread_of_parent:
  assumes "replies_ranked rank ms" and "distinct (map tm_messageId ms)"
    and "m \<in> set ms" and "parentIdOf m (map tm_messageId ms) = Some p"
  shows "\<exists>ts. deriveThreads ms = Some ts \<and>
    (\<exists>t \<in> set ts. tm_messageId m \<in> set (th_messageIds t) \<and> p \<in> set (th_messageIds t))"
proof -
  from parentIdOf_known [OF assms(4)] obtain m' where m': "m' \<in> set ms" "tm_messageId m' = p" by auto
  from rootOf_ranked [OF assms(1)] obtain r where r: "rootOf (parents ms) p = Some r" by blast
  have "rootOf (parents ms) (tm_messageId m) = Some r"
    using r by (simp add: rootOf.simps [of _ "tm_messageId m"] parents_of [OF assms(3,2)] assms(4))
  moreover from deriveThreads_total [OF assms(1)] obtain ts where "deriveThreads ms = Some ts" by blast
  ultimately show ?thesis using same_root_same_thread [OF _ assms(3) m'(1), of ts r] r m'(2) by auto
qed


lemma reply_in_thread_of_parent_witness:
  "\<exists>ts. deriveThreads demo_mail = Some ts \<and> (\<exists>t \<in> set ts. ''2'' \<in> set (th_messageIds t) \<and> ''1'' \<in> set (th_messageIds t))"
proof -
  let ?m = "mail ''2'' ''b'' [''A''] None (Some ''1'')"
  have "distinct (map tm_messageId demo_mail)" and "parentIdOf ?m (map tm_messageId demo_mail) = Some ''1''"
    and "tm_messageId ?m = ''2''" by code_simp+
  moreover have "?m \<in> set demo_mail" by (simp add: demo_mail_def)
  ultimately show ?thesis using reply_in_thread_of_parent [OF demo_ranked] by metis
qed

text \<open>A message that names itself as what it answers makes \<open>deriveThreads\<close> run forever, and so does any
  circle of replies.\<close>

lemma reply_circle_never_ends:
  assumes "C \<noteq> {}" and "C \<subseteq> tm_messageId ` set ms"
    and "\<And>i. i \<in> C \<Longrightarrow> \<exists>p \<in> C. map_of (parents ms) i = Some p"
  shows "deriveThreads ms = None"
proof -
  from assms(1,2) obtain m where m: "m \<in> set ms" "tm_messageId m \<in> C" by blast
  have "rootOf (parents ms) (tm_messageId m) = None" by (rule rootOf_loop [OF assms(3) m(2)])
  with m(1) have "group_by_root (parents ms) ms gs = None" for gs
  proof -
    have "m \<in> set xs \<Longrightarrow> group_by_root (parents ms) xs gs = None" for xs
      using \<open>rootOf (parents ms) (tm_messageId m) = None\<close>
      by (induction xs arbitrary: gs) (auto split: option.split)
    with m(1) show ?thesis by blast
  qed
  then show ?thesis by (simp add: deriveThreads_def)
qed

lemma self_reply_never_ends: "deriveThreads [mail ''m1'' ''eve@x'' [''ann@x''] (Some ''hi'') (Some ''m1'')] = None"
  by (rule reply_circle_never_ends [of "{''m1''}"]) (simp_all add: mail_def parents_def parentIdOf_def)

subsection \<open>Direct messages\<close>

lemma set_participants_fold:
  "set (fold (\<lambda>i members. case by_id ms i of None \<Rightarrow> members | Some m \<Rightarrow> fold (\<lambda>a. set_add a) (participantsOf m) members) is acc)
    = set acc \<union> (\<Union>i \<in> set is. case by_id ms i of None \<Rightarrow> {} | Some m \<Rightarrow> set (participantsOf m))"
  by (induction "is" arbitrary: acc) (auto simp: set_fold_add [of "\<lambda>a. a", simplified] split: option.splits)

lemma distinct_participants_fold:
  "distinct acc \<Longrightarrow> distinct (fold (\<lambda>i members. case by_id ms i of None \<Rightarrow> members | Some m \<Rightarrow> fold (\<lambda>a. set_add a) (participantsOf m) members) is acc)"
  by (induction "is" arbitrary: acc) (auto simp: distinct_fold_add [of _ "\<lambda>a. a", simplified] split: option.splits)

lemma distinct_one: "distinct xs \<Longrightarrow> set xs = {a} \<longleftrightarrow> xs = [a]"
  by (cases xs; cases "tl xs") auto

lemma dm_of_iff:
  "dm_of us ms t = Some d \<longleftrightarrow>
     set (thread_members ms t) \<inter> set us \<noteq> {} \<and> set (thread_members ms t) - set us = {dm_agentAddress d} \<and>
     dm_rootMessageId d = th_rootMessageId t \<and> dm_messageIds d = th_messageIds t"
proof -
  let ?others = "filter (\<lambda>a. a \<notin> set us) (thread_members ms t)"
  have "distinct ?others" by (simp add: thread_members_def distinct_participants_fold)
  then have "?others = [a] \<longleftrightarrow> set (thread_members ms t) - set us = {a}" for a
    by (simp add: distinct_one [symmetric]) auto
  moreover have "list_ex (\<lambda>a. a \<in> set us) (thread_members ms t) \<longleftrightarrow> set (thread_members ms t) \<inter> set us \<noteq> {}"
    by (auto simp: list_ex_iff)
  moreover have one: "(case xs of [a] \<Rightarrow> Some (f a) | _ \<Rightarrow> None) = Some d \<longleftrightarrow> (\<exists>a. xs = [a] \<and> f a = d)" for xs and f :: "string \<Rightarrow> dm_thread"
    by (auto split: list.splits)
  ultimately show ?thesis
    by (cases d) (auto simp: dm_of_def Let_def one)
qed

text \<open>Also shown. A thread is listed as a direct message with an address exactly when one of the user's addresses
  takes part in it and that address is the only other participant.\<close>

theorem dm_thread_iff:
  assumes "deriveThreads ms = Some ts" and "deriveDmThreads ms us = Some ds"
  shows "\<lparr>dm_agentAddress = a, dm_rootMessageId = r, dm_messageIds = ids\<rparr> \<in> set ds \<longleftrightarrow>
    (\<exists>t \<in> set ts. th_rootMessageId t = r \<and> th_messageIds t = ids \<and>
       set (thread_members ms t) \<inter> set (map normalizeAddress us) \<noteq> {} \<and>
       set (thread_members ms t) - set (map normalizeAddress us) = {a})"
proof -
  have "ds = List.map_filter (dm_of (map normalizeAddress us) ms) ts"
    using assms by (simp add: deriveDmThreads_def)
  then have "d \<in> set ds \<longleftrightarrow> (\<exists>t \<in> set ts. dm_of (map normalizeAddress us) ms t = Some d)" for d
    by (force simp: map_filter_def)
  from this [of "\<lparr>dm_agentAddress = a, dm_rootMessageId = r, dm_messageIds = ids\<rparr>"] show ?thesis
    unfolding dm_of_iff dm_thread.simps by blast
qed

lemma demo_thread_members:
  "th_messageIds t = [''1'', ''2'', ''3''] \<Longrightarrow> thread_members demo_mail t = [''a'', ''b'']"
proof -
  have "thread_members demo_mail \<lparr>th_key = [], th_rootMessageId = [], th_messageIds = [''1'', ''2'', ''3'']\<rparr> = [''a'', ''b'']"
    by code_simp
  then show "th_messageIds t = [''1'', ''2'', ''3''] \<Longrightarrow> ?thesis" by (simp add: thread_members_def)
qed

lemma dm_thread_iff_witness:
  "\<exists>ds r. deriveDmThreads demo_mail ['' A''] = Some ds \<and>
     \<lparr>dm_agentAddress = ''b'', dm_rootMessageId = r, dm_messageIds = [''1'', ''2'', ''3'']\<rparr> \<in> set ds"
proof -
  obtain t ts where ts: "deriveThreads demo_mail = Some (t # ts)" and t: "th_messageIds t = [''1'', ''2'', ''3'']"
    using demo_threads by auto
  obtain ds where ds: "deriveDmThreads demo_mail ['' A''] = Some ds" using ts by (simp add: deriveDmThreads_def)
  have a: "map normalizeAddress ['' A''] = [''a'']" by code_simp
  have "\<lparr>dm_agentAddress = ''b'', dm_rootMessageId = th_rootMessageId t, dm_messageIds = [''1'', ''2'', ''3'']\<rparr> \<in> set ds"
    unfolding dm_thread_iff [OF ts ds] a
    by (intro bexI [of _ t]) (simp_all add: t demo_thread_members insert_Diff_if)
  with ds show ?thesis by blast
qed

text \<open>A fork closes its References with its parent, which is also its In-Reply-To, and a fork of a message
  whose References already end with it adds nothing.\<close>

lemma fork_closes_references:
  "fst (buildForkReference i rs) = i \<and> last (snd (buildForkReference i rs)) = i \<and>
   buildForkReference i (Some (snd (buildForkReference i rs))) = buildForkReference i rs"
  by (simp add: buildForkReference_def or_empty_def Let_def)

end
