(* ===== verification/Stock_Hub.thy ===== *)
theory Stock_Hub
  imports Threads
begin

text \<open>
  The client of the stock hub, \<open>apps/web/src/needs-converge.ts\<close>, and the two stores the
  browser keeps beside it, \<open>apps/web/src/needs-list.ts\<close>: paging, the reads and writes of the
  hub, child tenants and thread links in local storage, and the fork of a sub-thread.

  The paging loop ends only when the hub says there is no next cursor; it is a
  \<open>partial_function\<close>, \<open>None\<close> being the loop that never ends. Local storage maps a key to the
  JSON value of its text, or to \<open>None\<close> for a text that is not JSON.
\<close>

section \<open>Rows\<close>

record hub_tenant =
  ht_id :: string
  ht_name :: string
  ht_slug :: string
  ht_parentId :: "string option"
  ht_domain :: string

type_synonym hub_role = "string \<times> string"

record membership =
  mb_principalId :: string
  mb_tenantId :: string
  mb_tenantName :: string
  mb_tenantSlug :: string
  mb_kind :: string
  mb_status :: string
  mb_roles :: "hub_role list"

record hub_principal =
  hp_id :: string
  hp_tenantId :: string
  hp_kind :: string
  hp_refId :: string
  hp_displayName :: string
  hp_email :: "string option"
  hp_status :: string
  hp_roles :: "hub_role list"

text \<open>An optional field: absent, or parsed by \<open>f\<close>.\<close>

definition opt_field :: "(json \<Rightarrow> 'a option) \<Rightarrow> string \<Rightarrow> json \<Rightarrow> 'a option option" where
  "opt_field f k j = (case field k j of None \<Rightarrow> Some None | Some v \<Rightarrow> map_option Some (f v))"

fun as_str :: "json \<Rightarrow> string option" where
  "as_str (JStr s) = Some s"
| "as_str _ = None"

fun as_str_or_null :: "json \<Rightarrow> string option option" where
  "as_str_or_null (JStr s) = Some (Some s)"
| "as_str_or_null JNull = Some None"
| "as_str_or_null _ = None"

definition as_nonempty :: "json \<Rightarrow> string option" where
  "as_nonempty j = (case as_str j of Some (c # s) \<Rightarrow> Some (c # s) | _ \<Rightarrow> None)"

definition nonempty_field :: "string \<Rightarrow> json \<Rightarrow> string option" where
  "nonempty_field k j = Option.bind (field k j) as_nonempty"

definition parse_role :: "json \<Rightarrow> hub_role option" where
  "parse_role j =
     (case (str_field ''id'' j, str_field ''name'' j) of (Some i, Some n) \<Rightarrow> Some (i, n) | _ \<Rightarrow> None)"

definition parse_tenant :: "json \<Rightarrow> hub_tenant option" where
  "parse_tenant j =
     (case (str_field ''id'' j, str_field ''name'' j, str_field ''slug'' j, str_field ''domain'' j,
            opt_field as_str_or_null ''parentId'' j) of
        (Some i, Some n, Some s, Some d, Some p) \<Rightarrow>
          Some \<lparr>ht_id = i, ht_name = n, ht_slug = s, ht_parentId = Option.bind p id, ht_domain = d\<rparr>
      | _ \<Rightarrow> None)"

definition parse_membership :: "json \<Rightarrow> membership option" where
  "parse_membership j =
     (case (str_field ''principalId'' j, str_field ''tenantId'' j, str_field ''tenantName'' j, str_field ''tenantSlug'' j,
            str_field ''kind'' j, str_field ''status'' j, Option.bind (field ''roles'' j) (array_of parse_role)) of
        (Some p, Some t, Some n, Some s, Some k, Some st, Some rs) \<Rightarrow>
          Some \<lparr>mb_principalId = p, mb_tenantId = t, mb_tenantName = n, mb_tenantSlug = s, mb_kind = k,
                mb_status = st, mb_roles = rs\<rparr>
      | _ \<Rightarrow> None)"

definition parse_principal :: "json \<Rightarrow> hub_principal option" where
  "parse_principal j =
     (case (str_field ''id'' j, str_field ''tenantId'' j, str_field ''kind'' j, str_field ''refId'' j,
            str_field ''displayName'' j, opt_field as_str ''email'' j, str_field ''status'' j,
            Option.bind (field ''roles'' j) (array_of parse_role)) of
        (Some i, Some t, Some k, Some r, Some d, Some e, Some st, Some rs) \<Rightarrow>
          Some \<lparr>hp_id = i, hp_tenantId = t, hp_kind = k, hp_refId = r, hp_displayName = d, hp_email = e,
                hp_status = st, hp_roles = rs\<rparr>
      | _ \<Rightarrow> None)"

definition parse_mail :: "json \<Rightarrow> (thread_message \<times> string option) option" where
  "parse_mail j =
     (case (str_field ''messageId'' j, str_field ''from'' j, Option.bind (field ''to'' j) (array_of as_str),
            opt_field (array_of as_str) ''cc'' j, opt_field as_str ''subject'' j, opt_field as_str ''listId'' j,
            opt_field as_str ''inReplyTo'' j, opt_field (array_of as_str) ''references'' j, opt_field as_str ''runId'' j) of
        (Some i, Some f, Some t, Some c, Some s, Some l, Some r, Some rs, Some run) \<Rightarrow>
          Some (\<lparr>tm_messageId = i, tm_from = f, tm_to = t, tm_cc = c, tm_subject = s, tm_listId = l,
                 tm_inReplyTo = r, tm_references = rs\<rparr>, run)
      | _ \<Rightarrow> None)"

text \<open>A page: the rows, and the next cursor or \<open>null\<close>.\<close>

definition parse_page :: "(json \<Rightarrow> 'a option) \<Rightarrow> json \<Rightarrow> ('a list \<times> string option) option" where
  "parse_page f j =
     (case (page_of f j, Option.bind (field ''nextCursor'' j) as_str_or_null) of
        (Some rows, Some next) \<Rightarrow> Some (rows, next) | _ \<Rightarrow> None)"

section \<open>Requests\<close>

definition request_error :: "string \<Rightarrow> nat option \<Rightarrow> js_error" where
  "request_error msg status = error_of ''StockHubRequestError'' msg status"

definition reason_text :: "json option \<Rightarrow> string" where
  "reason_text body =
     (case Option.bind body (field ''error'') of
        None \<Rightarrow> []
      | Some err \<Rightarrow>
          (case (str_field ''code'' err, opt_field as_str ''message'' err, opt_field as_str ''userMessage'' err) of
             (Some code, Some msg, Some user) \<Rightarrow>
               '' '' @ code @ '': '' @ (case user of Some u \<Rightarrow> u | None \<Rightarrow> (case msg of Some x \<Rightarrow> x | None \<Rightarrow> []))
           | _ \<Rightarrow> []))"

definition readJson :: "response \<Rightarrow> string \<Rightarrow> ('w, json) client" where
  "readJson r operation =
     (if \<not> resp_ok r
      then throwE (request_error (''Stock request '' @ operation @ '' failed with HTTP '' @ dec (rs_status r)
             @ ''.'' @ reason_text (rs_body r)) (Some (rs_status r)))
      else json_body r)"

definition parseBoundary :: "string \<Rightarrow> (json \<Rightarrow> 'a option) \<Rightarrow> json \<Rightarrow> string \<Rightarrow> ('w, 'a) client" where
  "parseBoundary summary f j operation =
     (case f j of
        None \<Rightarrow> throwE (request_error (''Stock request '' @ operation @ '' returned an unexpected shape: '' @ summary) None)
      | Some x \<Rightarrow> returnE x)"

definition page_path :: "string \<Rightarrow> string option \<Rightarrow> string" where
  "page_path base cursor =
     (case cursor of None \<Rightarrow> base @ ''?limit=100''
      | Some c \<Rightarrow> base @ ''?limit=100&cursor='' @ encodeURIComponent c)"

text \<open>One turn of the loop: the page at a cursor.\<close>

definition fetch_page ::
  "'w hub \<Rightarrow> string \<Rightarrow> string \<Rightarrow> string \<Rightarrow> (json \<Rightarrow> 'a option) \<Rightarrow> string option \<Rightarrow> ('w, 'a list \<times> string option) client" where
  "fetch_page hub base operation summary f cursor =
     bindE (fetchE hub (get (page_path base cursor))) (\<lambda>r.
     bindE (readJson r operation) (\<lambda>j. parseBoundary summary (parse_page f) j operation))"

partial_function (option) fetch_from ::
  "'w hub \<Rightarrow> string \<Rightarrow> string \<Rightarrow> string \<Rightarrow> (json \<Rightarrow> 'a option) \<Rightarrow> 'a list \<Rightarrow> string option \<Rightarrow> 'w net
     \<Rightarrow> ((js_error + 'a list) \<times> 'w net) option" where
  "fetch_from hub base operation summary f rows cursor n =
     (case fetch_page hub base operation summary f cursor n of
        (Inl e, n') \<Rightarrow> Some (Inl e, n')
      | (Inr (data, next), n') \<Rightarrow>
          (case next of
             None \<Rightarrow> Some (Inr (rows @ data), n')
           | Some c \<Rightarrow> fetch_from hub base operation summary f (rows @ data) (Some c) n'))"

declare fetch_from.simps [code]

definition fetchAllPages ::
  "'w hub \<Rightarrow> string \<Rightarrow> string \<Rightarrow> string \<Rightarrow> (json \<Rightarrow> 'a option) \<Rightarrow> 'w net \<Rightarrow> ((js_error + 'a list) \<times> 'w net) option" where
  "fetchAllPages hub base operation summary f = fetch_from hub base operation summary f [] None"

section \<open>The hub's operations\<close>

definition listMyPrincipals :: "'w hub \<Rightarrow> string \<Rightarrow> 'w net \<Rightarrow> ((js_error + membership list) \<times> 'w net) option" where
  "listMyPrincipals hub summary = fetchAllPages hub ''/api/me/principals'' ''listMyPrincipals'' summary parse_membership"

definition getTenant :: "'w hub \<Rightarrow> string \<Rightarrow> string \<Rightarrow> ('w, hub_tenant option) client" where
  "getTenant hub summary tid =
     bindE (fetchE hub (get (tenantPath tid []))) (\<lambda>r.
     if rs_status r = 404 then returnE None
     else bindE (readJson r ''getTenant'') (\<lambda>j.
          bindE (parseBoundary summary parse_tenant j ''getTenant'') (\<lambda>t. returnE (Some t))))"

definition listPrincipals :: "'w hub \<Rightarrow> string \<Rightarrow> string \<Rightarrow> 'w net \<Rightarrow> ((js_error + hub_principal list) \<times> 'w net) option" where
  "listPrincipals hub summary tid =
     fetchAllPages hub (tenantPath tid ''/principals'') ''listPrincipals'' summary parse_principal"

definition createTenant :: "'w hub \<Rightarrow> string \<Rightarrow> string \<Rightarrow> string \<Rightarrow> string option \<Rightarrow> ('w, hub_tenant) client" where
  "createTenant hub summary name slug parentId =
     bindE (fetchE hub (post ''/api/tenants'' (JObj ([(''name'', JStr name), (''slug'', JStr slug)]
       @ (case parentId of None \<Rightarrow> [] | Some p \<Rightarrow> [(''parentId'', JStr p)]))))) (\<lambda>r.
     bindE (readJson r ''createTenant'') (\<lambda>j. parseBoundary summary parse_tenant j ''createTenant''))"

definition resolveRoleId :: "'w hub \<Rightarrow> string \<Rightarrow> string \<Rightarrow> string \<Rightarrow> 'w net \<Rightarrow> ((js_error + string) \<times> 'w net) option" where
  "resolveRoleId hub summary tid roleName n =
     map_option (\<lambda>(r, n').
       (case r of
          Inl e \<Rightarrow> Inl e
        | Inr roles \<Rightarrow>
            (case find (\<lambda>role. snd role = roleName) roles of
               None \<Rightarrow> Inl (request_error (''Stock roles for workbench '' @ tid @ '' carry no role named ''
                         @ [CHR 0x22] @ roleName @ [CHR 0x22] @ ''.'') None)
             | Some role \<Rightarrow> Inr (fst role)), n'))
       (fetchAllPages hub (tenantPath tid ''/roles'') ''listRoles'' summary parse_role n)"

definition inviteMember ::
  "'w hub \<Rightarrow> string \<Rightarrow> string \<Rightarrow> string \<Rightarrow> string \<Rightarrow> 'w net \<Rightarrow> ((js_error + unit) \<times> 'w net) option" where
  "inviteMember hub summary tid email role n =
     map_option (\<lambda>(r, n'). case r of
         Inl e \<Rightarrow> (Inl e, n')
       | Inr roleId \<Rightarrow>
           bindE (fetchE hub (post (tenantPath tid ''/members/invite'') (JObj [(''email'', JStr email), (''roleId'', JStr roleId)])))
             (\<lambda>r. bindE (readJson r ''inviteMember'') (\<lambda>_. returnE ())) n')
       (resolveRoleId hub summary tid role n)"

text \<open>The deploy input is sent as it is.\<close>

definition deployWorkflow :: "'w hub \<Rightarrow> string \<Rightarrow> json \<Rightarrow> ('w, unit) client" where
  "deployWorkflow hub tid input =
     bindE (fetchE hub (post (tenantPath tid ''/workflows/deployments'') input)) (\<lambda>r.
     bindE (readJson r ''deployWorkflow'') (\<lambda>_. returnE ()))"

record send_input =
  sm_tenantId :: string
  sm_runId :: "string option"
  sm_to :: "string list"
  sm_cc :: "string list option"
  sm_subject :: string
  sm_body :: string
  sm_headers :: "(string option \<times> string list option) option"

definition opt_json :: "string \<Rightarrow> ('a \<Rightarrow> json) \<Rightarrow> 'a option \<Rightarrow> (string \<times> json) list" where
  "opt_json k f v = (case v of None \<Rightarrow> [] | Some x \<Rightarrow> [(k, f x)])"

definition json_strs :: "string list \<Rightarrow> json" where
  "json_strs xs = JArr (map JStr xs)"

definition send_json :: "send_input \<Rightarrow> json" where
  "send_json i =
     JObj (opt_json ''runId'' JStr (sm_runId i) @ [(''to'', json_strs (sm_to i))] @ opt_json ''cc'' json_strs (sm_cc i)
       @ [(''subject'', JStr (sm_subject i)), (''body'', JStr (sm_body i))]
       @ opt_json ''headers'' (\<lambda>h. JObj (opt_json ''inReplyTo'' JStr (fst h) @ opt_json ''references'' json_strs (snd h)))
           (sm_headers i))"

definition sendRunMail :: "'w hub \<Rightarrow> string \<Rightarrow> send_input \<Rightarrow> ('w, string) client" where
  "sendRunMail hub summary i =
     bindE (fetchE hub (post (tenantPath (sm_tenantId i) ''/mailbox/messages'') (send_json i))) (\<lambda>r.
     bindE (readJson r ''sendRunMail'') (\<lambda>j. parseBoundary summary (str_field ''messageId'') j ''sendRunMail''))"

definition listRunMail ::
  "'w hub \<Rightarrow> string \<Rightarrow> string \<Rightarrow> 'w net \<Rightarrow> ((js_error + (thread_message \<times> string option) list) \<times> 'w net) option" where
  "listRunMail hub summary tid =
     fetchAllPages hub (tenantPath tid ''/mailbox/messages'') ''listRunMail'' summary parse_mail"

definition capability_error :: "string \<Rightarrow> js_error" where
  "capability_error msg = error_of ''StockHubCapabilityError'' msg None"

definition searchAgentMailbox :: "string \<Rightarrow> ('w, thread_message list) client" where
  "searchAgentMailbox address =
     throwE (capability_error (''Stock Interchange exposes no per-agent mailbox search route for '' @ address @ ''; no DM was derived.''))"

definition readMailThread :: "string \<Rightarrow> ('w, thread_message list) client" where
  "readMailThread i =
     throwE (capability_error (''Stock Interchange exposes no full thread route for '' @ i @ ''; no fork context was read.''))"

definition active_owned :: "membership \<Rightarrow> bool" where
  "active_owned m \<longleftrightarrow> mb_kind m = ''user'' \<and> mb_status m = ''active'' \<and> list_ex (\<lambda>r. snd r = ''owner'') (mb_roles m)"

definition findOwnedTenants :: "'w hub \<Rightarrow> string \<Rightarrow> 'w net \<Rightarrow> ((js_error + hub_tenant list) \<times> 'w net) option" where
  "findOwnedTenants hub summary n =
     map_option (\<lambda>(r, n'). case r of
         Inl e \<Rightarrow> (Inl e, n')
       | Inr ms \<Rightarrow>
           bindE (allE (map (\<lambda>m. getTenant hub summary (mb_tenantId m)) (filter active_owned ms)))
             (\<lambda>ts. returnE (List.map_filter id ts)) n')
       (listMyPrincipals hub summary n)"


section \<open>Stores in the browser\<close>

text \<open>Local storage: its items, and whether it takes a write (it throws when it is full).\<close>

record storage =
  st_items :: "(string \<times> json option) list"
  st_full :: bool

definition quota_error :: js_error where
  "quota_error = error_of ''QuotaExceededError'' ''The quota has been exceeded.'' None"

definition setItem :: "string \<Rightarrow> json \<Rightarrow> (storage, js_error, unit) comp" where
  "setItem k v s =
     (if st_full s then (Inl quota_error, s) else (Inr (), s\<lparr>st_items := AList.update k (Some v) (st_items s)\<rparr>))"

text \<open>The rows of a store that parse, each with the JSON value it was read from; a corrupt row loses itself only.\<close>

definition load_rows :: "(json \<Rightarrow> 'r option) \<Rightarrow> string \<Rightarrow> storage \<Rightarrow> ('r \<times> json) list" where
  "load_rows parse key s =
     (case map_of (st_items s) key of
        Some (Some (JArr rows)) \<Rightarrow> List.map_filter (\<lambda>j. map_option (\<lambda>r. (r, j)) (parse j)) rows
      | _ \<Rightarrow> [])"

definition record_row ::
  "(json \<Rightarrow> 'r option) \<Rightarrow> ('r \<Rightarrow> json) \<Rightarrow> ('r \<Rightarrow> string) \<Rightarrow> string \<Rightarrow> 'r \<Rightarrow> (storage, js_error, unit) comp" where
  "record_row parse to_json ident key r s =
     setItem key (JArr (map snd (filter (\<lambda>row. ident (fst row) \<noteq> ident r) (load_rows parse key s)) @ [to_json r])) s"

definition store_key :: "string \<Rightarrow> string \<Rightarrow> string \<Rightarrow> string" where
  "store_key name hubScope accountId =
     name @ '':'' @ encodeURIComponent hubScope @ '':'' @ encodeURIComponent accountId"

subsection \<open>Child tenants\<close>

record child_tenant =
  ct_localId :: string
  ct_tenantId :: string
  ct_primaryThreadMessageId :: "string option"
  ct_icon :: "string option"
  ct_prefs :: "json option"

definition as_record :: "json \<Rightarrow> json option" where
  "as_record j = (case j of JObj _ \<Rightarrow> Some j | _ \<Rightarrow> None)"

definition parse_child :: "json \<Rightarrow> child_tenant option" where
  "parse_child j =
     (case (nonempty_field ''localId'' j, nonempty_field ''tenantId'' j, str_field ''kind'' j,
            opt_field as_nonempty ''primaryThreadMessageId'' j, opt_field as_nonempty ''icon'' j, opt_field as_record ''prefs'' j) of
        (Some l, Some t, Some k, Some p, Some i, Some pr) \<Rightarrow>
          if k = ''workbench'' then Some \<lparr>ct_localId = l, ct_tenantId = t, ct_primaryThreadMessageId = p, ct_icon = i, ct_prefs = pr\<rparr>
          else None
      | _ \<Rightarrow> None)"

definition child_json :: "child_tenant \<Rightarrow> json" where
  "child_json r =
     JObj ([(''localId'', JStr (ct_localId r)), (''tenantId'', JStr (ct_tenantId r)), (''kind'', JStr ''workbench'')]
       @ opt_json ''primaryThreadMessageId'' JStr (ct_primaryThreadMessageId r) @ opt_json ''icon'' JStr (ct_icon r)
       @ opt_json ''prefs'' id (ct_prefs r))"

definition child_tenants_load :: "string \<Rightarrow> string \<Rightarrow> storage \<Rightarrow> (child_tenant \<times> json) list" where
  "child_tenants_load scope account = load_rows parse_child (store_key ''workbench.child-tenants'' scope account)"

definition child_tenants_record :: "string \<Rightarrow> string \<Rightarrow> child_tenant \<Rightarrow> (storage, js_error, unit) comp" where
  "child_tenants_record scope account =
     record_row parse_child child_json ct_localId (store_key ''workbench.child-tenants'' scope account)"

subsection \<open>Thread links\<close>

record thread_link =
  tl_workbenchLocalId :: string
  tl_messageId :: string
  tl_inReplyTo :: "string option"
  tl_references :: "string list option"
  tl_subject :: "string option"
  tl_to :: "string list option"
  tl_body :: "string option"

definition parse_link :: "json \<Rightarrow> thread_link option" where
  "parse_link j =
     (case (nonempty_field ''workbenchLocalId'' j, nonempty_field ''messageId'' j, opt_field as_nonempty ''inReplyTo'' j,
            opt_field (array_of as_nonempty) ''references'' j, opt_field as_nonempty ''subject'' j,
            opt_field (array_of as_str) ''to'' j, opt_field as_str ''body'' j) of
        (Some w, Some m, Some r, Some rs, Some s, Some t, Some b) \<Rightarrow>
          Some \<lparr>tl_workbenchLocalId = w, tl_messageId = m, tl_inReplyTo = r, tl_references = rs, tl_subject = s, tl_to = t, tl_body = b\<rparr>
      | _ \<Rightarrow> None)"

definition link_json :: "thread_link \<Rightarrow> json" where
  "link_json l =
     JObj ([(''workbenchLocalId'', JStr (tl_workbenchLocalId l)), (''messageId'', JStr (tl_messageId l))]
       @ opt_json ''inReplyTo'' JStr (tl_inReplyTo l) @ opt_json ''references'' json_strs (tl_references l)
       @ opt_json ''subject'' JStr (tl_subject l) @ opt_json ''to'' json_strs (tl_to l) @ opt_json ''body'' JStr (tl_body l))"

definition thread_links_load :: "string \<Rightarrow> string \<Rightarrow> storage \<Rightarrow> (thread_link \<times> json) list" where
  "thread_links_load scope account = load_rows parse_link (store_key ''workbench.thread-links'' scope account)"

definition thread_links_record :: "string \<Rightarrow> string \<Rightarrow> thread_link \<Rightarrow> (storage, js_error, unit) comp" where
  "thread_links_record scope account =
     record_row parse_link link_json tl_messageId (store_key ''workbench.thread-links'' scope account)"

subsection \<open>Forking a sub-thread\<close>

record fork_parent =
  fp_workbenchLocalId :: string
  fp_tenantId :: string
  fp_messageId :: string
  fp_references :: "string list option"

record fork_input =
  fi_to :: "string list"
  fi_subject :: string
  fi_body :: string

definition replays :: "fork_parent \<Rightarrow> fork_input \<Rightarrow> thread_link \<Rightarrow> bool" where
  "replays p i l \<longleftrightarrow>
     tl_workbenchLocalId l = fp_workbenchLocalId p \<and> tl_inReplyTo l = Some (fp_messageId p) \<and>
     tl_subject l = Some (fi_subject i) \<and>
     (case tl_to l of None \<Rightarrow> True | Some t \<Rightarrow> t = fi_to i) \<and>
     (case tl_body l of None \<Rightarrow> True | Some b \<Rightarrow> b = fi_body i)"

definition forkSubThread ::
  "'w hub \<Rightarrow> string \<Rightarrow> string \<Rightarrow> string \<Rightarrow> fork_parent \<Rightarrow> fork_input \<Rightarrow> ('w net \<times> storage, js_error, string) comp" where
  "forkSubThread hub summary scope account p i w =
     (case w of (n, s) \<Rightarrow>
       (case find (replays p i) (map fst (thread_links_load scope account s)) of
          Some l \<Rightarrow> (Inr (tl_messageId l), (n, s))
        | None \<Rightarrow>
            (let (inReplyTo, references) = buildForkReference (fp_messageId p) (fp_references p) in
             case sendRunMail hub summary \<lparr>sm_tenantId = fp_tenantId p, sm_runId = None, sm_to = fi_to i, sm_cc = None,
                     sm_subject = fi_subject i, sm_body = fi_body i, sm_headers = Some (Some inReplyTo, Some references)\<rparr> n of
               (Inl e, n') \<Rightarrow> (Inl e, (n', s))
             | (Inr messageId, n') \<Rightarrow>
                 (case thread_links_record scope account
                    \<lparr>tl_workbenchLocalId = fp_workbenchLocalId p, tl_messageId = messageId, tl_inReplyTo = Some inReplyTo,
                     tl_references = Some references, tl_subject = Some (fi_subject i), tl_to = Some (fi_to i),
                     tl_body = Some (fi_body i)\<rparr> s of
                    (Inl e, s') \<Rightarrow> (Inl e, (n', s'))
                  | (Inr _, s') \<Rightarrow> (Inr messageId, (n', s'))))))"

section \<open>A store of rows\<close>

lemma map_filter_append: "List.map_filter f (xs @ ys) = List.map_filter f xs @ List.map_filter f ys"
  by (simp add: map_filter_def)

text \<open>What the two stores share: a row that is valid comes back from the JSON it is written as.\<close>

locale row_store =
  fixes parse :: "json \<Rightarrow> 'r option"
    and to_json :: "'r \<Rightarrow> json"
    and ident :: "'r \<Rightarrow> string"
    and valid :: "'r \<Rightarrow> bool"
  assumes parse_to_json: "valid r \<Longrightarrow> parse (to_json r) = Some r"
begin

lemma loaded_parse: "row \<in> set (load_rows parse key s) \<Longrightarrow> parse (snd row) = Some (fst row)"
  by (auto simp: load_rows_def map_filter_def split: option.splits json.splits)

lemma reload_loaded:
  "List.map_filter (\<lambda>j. map_option (\<lambda>r. (r, j)) (parse j)) (map snd (filter P (load_rows parse key s)))
     = filter P (load_rows parse key s)"
proof -
  have "\<forall>row \<in> set rows. parse (snd row) = Some (fst row) \<Longrightarrow>
      List.map_filter (\<lambda>j. map_option (\<lambda>r. (r, j)) (parse j)) (map snd rows) = rows" for rows
    by (induction rows) (auto simp: map_filter_def)
  moreover have "\<forall>row \<in> set (filter P (load_rows parse key s)). parse (snd row) = Some (fst row)"
  proof
    fix row assume "row \<in> set (filter P (load_rows parse key s))"
    then have "row \<in> set (load_rows parse key s)" by simp
    then show "parse (snd row) = Some (fst row)" by (rule loaded_parse)
  qed
  ultimately show ?thesis by blast
qed

lemma load_record:
  assumes "valid r" and "record_row parse to_json ident key r s = (Inr u, s')"
  shows "load_rows parse key s' = filter (\<lambda>row. ident (fst row) \<noteq> ident r) (load_rows parse key s) @ [(r, to_json r)]"
proof -
  have s': "map_of (st_items s') key
      = Some (Some (JArr (map snd (filter (\<lambda>row. ident (fst row) \<noteq> ident r) (load_rows parse key s)) @ [to_json r])))"
    using assms(2) by (auto simp: record_row_def setItem_def split: if_splits)
  have "List.map_filter (\<lambda>j. map_option (\<lambda>r. (r, j)) (parse j)) (map snd (filter (\<lambda>row. ident (fst row) \<noteq> ident r) (load_rows parse key s)) @ [to_json r])
      = filter (\<lambda>row. ident (fst row) \<noteq> ident r) (load_rows parse key s) @ [(r, to_json r)]"
    unfolding map_filter_append reload_loaded using parse_to_json [OF assms(1)] by (simp add: map_filter_def)
  then show ?thesis by (simp add: load_rows_def [of parse key s'] s')
qed

lemma load_other:
  "record_row parse to_json ident key r s = (res, s') \<Longrightarrow> key \<noteq> key' \<Longrightarrow> load_rows parse' key' s' = load_rows parse' key' s"
  by (auto simp: record_row_def setItem_def load_rows_def split: if_splits)

end


subsection \<open>The two stores\<close>

definition child_valid :: "child_tenant \<Rightarrow> bool" where
  "child_valid r \<longleftrightarrow> ct_localId r \<noteq> [] \<and> ct_tenantId r \<noteq> [] \<and> ct_primaryThreadMessageId r \<noteq> Some [] \<and>
     ct_icon r \<noteq> Some [] \<and> (case ct_prefs r of None \<Rightarrow> True | Some j \<Rightarrow> is_object j)"

definition link_valid :: "thread_link \<Rightarrow> bool" where
  "link_valid l \<longleftrightarrow> tl_workbenchLocalId l \<noteq> [] \<and> tl_messageId l \<noteq> [] \<and> tl_inReplyTo l \<noteq> Some [] \<and>
     [] \<notin> set (or_empty (tl_references l)) \<and> tl_subject l \<noteq> Some []"

lemma as_nonempty_str: "as_nonempty (JStr s) = (if s = [] then None else Some s)"
  by (cases s) (simp_all add: as_nonempty_def)

lemma array_strs: "array_of as_str (json_strs xs) = Some xs"
  unfolding array_of_def json_strs_def by (simp, induction xs) auto

lemma array_nonempty: "[] \<notin> set xs \<Longrightarrow> array_of as_nonempty (json_strs xs) = Some xs"
  unfolding array_of_def json_strs_def by (simp, induction xs) (auto simp: as_nonempty_str)

lemmas row_json = opt_field_def nonempty_field_def str_field_def opt_json_def as_nonempty_str array_strs array_nonempty

lemma parse_child_json: "child_valid r \<Longrightarrow> parse_child (child_json r) = Some r"
proof -
  assume v: "child_valid r"
  have "as_record j = Some j" if "ct_prefs r = Some j" for j
    using v that by (cases j) (auto simp: child_valid_def as_record_def)
  with v show ?thesis
    by (cases r) (auto simp: parse_child_def child_json_def child_valid_def row_json split: option.splits)
qed

lemma parse_link_json: "link_valid l \<Longrightarrow> parse_link (link_json l) = Some l"
  by (cases l) (auto simp: parse_link_def link_json_def link_valid_def row_json or_empty_def split: option.splits)

interpretation children: row_store parse_child child_json ct_localId child_valid
  by unfold_locales (rule parse_child_json)

interpretation links: row_store parse_link link_json tl_messageId link_valid
  by unfold_locales (rule parse_link_json)


section \<open>Keys\<close>

lemma encode_no_colon: "CHR '':'' \<notin> set (encodeURIComponent s)"
proof -
  have hex: "upper_hex k \<noteq> CHR '':''" if "k < 16" for k
  proof
    assume "upper_hex k = CHR '':''"
    then have "char_code (upper_hex k) = 58" by (simp add: char_code_def)
    with that show False by (simp add: upper_hex_def split: if_splits)
  qed
  have colon: "\<not> uri_unreserved CHR '':''"
    by (simp add: uri_unreserved_def is_alnum_def is_digit_def is_ascii_upper_def is_ascii_lower_def
        in_range_def char_code_def)
  have "CHR '':'' \<notin> set (encode_char c)" for c
  proof (cases "uri_unreserved c")
    case True
    with colon show ?thesis by (auto simp: encode_char_def)
  next
    case False
    have b: "b < 256" if "b \<in> set (utf8 c)" for b
      using that char_code_div [of c] char_code_lt [of c] by (auto simp: utf8_def Let_def split: if_splits)
    have "CHR '':'' \<notin> set (percent b)" if "b < 256" for b
      using less_mult_imp_div_less [of b 16 16] that hex [of "b div 16"] hex [of "b mod 16"]
      by (auto simp: percent_def)
    with b False show ?thesis by (auto simp: encode_char_def)
  qed
  then show ?thesis by (auto simp: encodeURIComponent_def)
qed

lemma colon_split: "CHR '':'' \<notin> set a \<Longrightarrow> CHR '':'' \<notin> set b \<Longrightarrow> a @ CHR '':'' # s = b @ CHR '':'' # t \<longleftrightarrow> a = b \<and> s = t"
proof (induction a arbitrary: b)
  case Nil
  then show ?case by (cases b) auto
next
  case (Cons x a)
  then show ?case by (cases b) auto
qed

lemma store_key_eq:
  assumes "CHR '':'' \<notin> set name" "CHR '':'' \<notin> set name'"
  shows "store_key name h a = store_key name' h' a' \<longleftrightarrow> name = name' \<and> h = h' \<and> a = a'"
  using assms encode_no_colon by (auto simp: store_key_def colon_split dest: encodeURIComponent_inject)

text \<open>Also shown. What one account keeps is never changed by another: recording a thread link or a child tenant for an
  account of a hub succeeds or fails without touching the rows of any other account, other hub or the other store.\<close>

theorem stores_isolated:
  assumes "thread_links_record h a l s = (r, s')" and "child_tenants_record h a c s = (r', s2)"
  shows "((h, a) \<noteq> (h', a') \<longrightarrow> thread_links_load h' a' s' = thread_links_load h' a' s \<and>
             child_tenants_load h' a' s2 = child_tenants_load h' a' s)
    \<and> child_tenants_load h' a' s' = child_tenants_load h' a' s \<and> thread_links_load h' a' s2 = thread_links_load h' a' s"
proof -
  have names: "CHR '':'' \<notin> set ''workbench.thread-links''" "CHR '':'' \<notin> set ''workbench.child-tenants''" by simp_all
  note keys = store_key_eq [OF names(1,1)] store_key_eq [OF names(1,2)] store_key_eq [OF names(2,1)] store_key_eq [OF names(2,2)]
  note l = links.load_other [OF assms(1) [unfolded thread_links_record_def]]
  note c = children.load_other [OF assms(2) [unfolded child_tenants_record_def]]
  show ?thesis
    unfolding thread_links_load_def child_tenants_load_def
    by (intro conjI impI l c) (simp_all add: keys)
qed

lemma stores_isolated_witness:
  "map fst (thread_links_load ''hub'' ''ann'' (snd (thread_links_record ''hub'' ''bob''
     \<lparr>tl_workbenchLocalId = ''w'', tl_messageId = ''m2'', tl_inReplyTo = None, tl_references = None, tl_subject = None,
      tl_to = None, tl_body = None\<rparr>
     (snd (thread_links_record ''hub'' ''ann''
       \<lparr>tl_workbenchLocalId = ''w'', tl_messageId = ''m1'', tl_inReplyTo = None, tl_references = None, tl_subject = None,
        tl_to = None, tl_body = None\<rparr> \<lparr>st_items = [], st_full = False\<rparr>)))))
   = [\<lparr>tl_workbenchLocalId = ''w'', tl_messageId = ''m1'', tl_inReplyTo = None, tl_references = None, tl_subject = None,
       tl_to = None, tl_body = None\<rparr>]"
proof -
  let ?l = "\<lambda>m. \<lparr>tl_workbenchLocalId = ''w'', tl_messageId = m, tl_inReplyTo = None, tl_references = None, tl_subject = None,
      tl_to = None, tl_body = None\<rparr>"
  let ?s = "snd (thread_links_record ''hub'' ''ann'' (?l ''m1'') \<lparr>st_items = [], st_full = False\<rparr>)"
  let ?c = "\<lparr>ct_localId = ''w'', ct_tenantId = ''t'', ct_primaryThreadMessageId = None, ct_icon = None, ct_prefs = None\<rparr>"
  have "thread_links_load ''hub'' ''ann'' (snd (thread_links_record ''hub'' ''bob'' (?l ''m2'') ?s))
      = thread_links_load ''hub'' ''ann'' ?s"
    using stores_isolated [of "''hub''" "''bob''" "?l ''m2''" ?s _ _ ?c _ _ "''hub''" "''ann''",
      OF prod.collapse [symmetric] prod.collapse [symmetric]] by simp
  moreover have "map fst (thread_links_load ''hub'' ''ann'' ?s) = [?l ''m1'']" by code_simp
  ultimately show ?thesis by simp
qed

section \<open>Forks\<close>

lemma find_append: "find P (xs @ ys) = (case find P xs of None \<Rightarrow> find P ys | Some x \<Rightarrow> Some x)"
  by (induction xs) auto

lemma find_None_filter: "find P (map f xs) = None \<Longrightarrow> find P (map f (filter Q xs)) = None"
  by (induction xs) (auto split: if_splits)

definition fork_ok :: "fork_parent \<Rightarrow> fork_input \<Rightarrow> bool" where
  "fork_ok p i \<longleftrightarrow> fp_workbenchLocalId p \<noteq> [] \<and> fp_messageId p \<noteq> [] \<and> [] \<notin> set (or_empty (fp_references p)) \<and> fi_subject i \<noteq> []"


text \<open>A hub that gives each mail the next number, and a fork of one message.\<close>

definition mail_hub :: "nat hub" where
  "mail_hub rq k = (Inr \<lparr>rs_status = 200, rs_body = Some (JObj [(''messageId'', JStr (CHR ''m'' # dec k))])\<rparr>, k + 1)"

definition fork_from :: fork_parent where
  "fork_from = \<lparr>fp_workbenchLocalId = ''w1'', fp_tenantId = ''t1'', fp_messageId = ''p1'', fp_references = Some [''p0'']\<rparr>"

definition fork_mail :: "string \<Rightarrow> fork_input" where
  "fork_mail subject = \<lparr>fi_to = [''bot@x''], fi_subject = subject, fi_body = ''hello''\<rparr>"

definition fork_once ::
  "fork_input \<Rightarrow> (js_error + string) \<times> nat net \<times> storage" where
  "fork_once i = forkSubThread mail_hub [] ''hub'' ''ann'' fork_from i (\<lparr>server = 7, sent = []\<rparr>, \<lparr>st_items = [], st_full = False\<rparr>)"


text \<open>With an empty subject the link does not parse when it is read back, and every retry sends again.\<close>

lemma fork_empty_subject_sends_twice:
  "fst (fork_once (fork_mail [])) = Inr ''m7'' \<and>
   fst (forkSubThread mail_hub [] ''hub'' ''ann'' fork_from (fork_mail []) (snd (fork_once (fork_mail [])))) = Inr ''m8''"
  by code_simp


section \<open>Paging\<close>

text \<open>The hub, in a state, answers the pages from a cursor on with these rows, the last without a next cursor.\<close>

fun serves :: "'w hub \<Rightarrow> string \<Rightarrow> (json \<Rightarrow> 'a option) \<Rightarrow> string option \<Rightarrow> 'w \<Rightarrow> ('a list \<times> string option) list \<Rightarrow> bool" where
  "serves hub base f cursor w [] = False"
| "serves hub base f cursor w (p # ps) =
     (case hub (get (page_path base cursor)) w of
        (Inl _, _) \<Rightarrow> False
      | (Inr r, w') \<Rightarrow> resp_ok r \<and> Option.bind (rs_body r) (parse_page f) = Some p \<and>
          (case snd p of None \<Rightarrow> ps = [] | Some c \<Rightarrow> serves hub base f (Some c) w' ps))"

lemma fetch_page_served:
  assumes "hub (get (page_path base cursor)) (server n) = (Inr r, w)" and "resp_ok r"
    and "Option.bind (rs_body r) (parse_page f) = Some p"
  shows "fetch_page hub base operation summary f cursor n
    = (Inr p, n\<lparr>server := w, sent := sent n @ [(get (page_path base cursor), Inr r)]\<rparr>)"
  using assms by (auto simp: fetch_page_def fetchE_def fetch_raw_def readJson_def json_body_def parseBoundary_def
      bindE_def returnE_def split: option.splits Option.bind_splits)

lemma fetch_from_served:
  "serves hub base f cursor (server n) ps \<Longrightarrow>
   \<exists>n' t. fetch_from hub base operation summary f rows cursor n = Some (Inr (rows @ concat (map fst ps)), n') \<and>
     sent n' = sent n @ t \<and> map (rq_path \<circ> fst) t = map (page_path base) (cursor # map snd (butlast ps))"
proof (induction ps arbitrary: cursor n rows)
  case Nil
  then show ?case by simp
next
  case (Cons p ps)
  obtain data nxt where p: "p = (data, nxt)" by (cases p)
  obtain a w where hub: "hub (get (page_path base cursor)) (server n) = (a, w)" by (cases "hub (get (page_path base cursor)) (server n)")
  with Cons.prems p obtain r where a: "a = Inr r" and r: "resp_ok r" "Option.bind (rs_body r) (parse_page f) = Some p"
    and rest: "case nxt of None \<Rightarrow> ps = [] | Some c \<Rightarrow> serves hub base f (Some c) w ps"
    by (cases a) auto
  let ?n = "n\<lparr>server := w, sent := sent n @ [(get (page_path base cursor), Inr r)]\<rparr>"
  have page: "fetch_page hub base operation summary f cursor n = (Inr (data, nxt), ?n)"
    using fetch_page_served [where hub = hub and n = n, OF hub [unfolded a] r] by (simp add: p)
  show ?case
  proof (cases nxt)
    case None
    with rest page p show ?thesis by (subst fetch_from.simps) (simp add: get_def)
  next
    case (Some c)
    with rest have "serves hub base f (Some c) (server ?n) ps" by simp
    moreover from this have "ps \<noteq> []" by auto
    ultimately show ?thesis using page Some p Cons.IH [of "Some c" ?n "rows @ data"]
      by (subst fetch_from.simps) (fastforce simp: get_def)
  qed
qed

text \<open>Also shown. Paging reads everything: when the hub serves its rows in any finite number of pages, \<open>fetchAllPages\<close>
  returns all of them in order, with one request per page, each at the cursor the page before gave.\<close>

theorem all_pages_fetched:
  assumes "serves hub base f None (server n) ps"
  shows "\<exists>n' t. fetchAllPages hub base operation summary f n = Some (Inr (concat (map fst ps)), n') \<and>
    sent n' = sent n @ t \<and> map (rq_path \<circ> fst) t = map (page_path base) (None # map snd (butlast ps))"
  using fetch_from_served [OF assms, of operation summary "[]"] by (simp add: fetchAllPages_def)

text \<open>Two roles on two pages.\<close>

definition role_json :: "string \<Rightarrow> string \<Rightarrow> json" where
  "role_json i n = JObj [(''id'', JStr i), (''name'', JStr n)]"

definition role_hub :: "unit hub" where
  "role_hub rq w =
     (Inr \<lparr>rs_status = 200, rs_body = Some
        (if rq_path rq = page_path ''/r'' None then JObj [(''data'', JArr [role_json ''1'' ''owner'']), (''nextCursor'', JStr ''/2'')]
         else JObj [(''data'', JArr [role_json ''2'' ''member'']), (''nextCursor'', JNull)])\<rparr>, w)"

lemma all_pages_fetched_witness:
  "\<exists>n'. fetchAllPages role_hub ''/r'' ''listRoles'' [] parse_role \<lparr>server = (), sent = []\<rparr>
     = Some (Inr [(''1'', ''owner''), (''2'', ''member'')], n') \<and>
     map (rq_path \<circ> fst) (sent n') = [''/r?limit=100'', ''/r?limit=100&cursor=%2F2'']"
proof -
  let ?ps = "[([(''1'', ''owner'')], Some ''/2''), ([(''2'', ''member'')], None)]"
  have "serves role_hub ''/r'' parse_role None (server \<lparr>server = (), sent = []\<rparr>) ?ps" by code_simp
  note all = all_pages_fetched [OF this, of "''listRoles''" "[]"]
  have "page_path ''/r'' None = ''/r?limit=100''" "page_path ''/r'' (Some ''/2'') = ''/r?limit=100&cursor=%2F2''" by code_simp+
  with all show ?thesis by simp
qed

text \<open>A hub that always gives a next cursor is asked forever.\<close>

lemma endless_cursor_never_returns:
  assumes "\<And>cursor n. \<exists>data c n'. fetch_page hub base operation summary f cursor n = (Inr (data, Some c), n')"
  shows "fetchAllPages hub base operation summary f n = None"
proof -
  have "(hub', base', op', sm', f') = (hub, base, operation, summary, f) \<longrightarrow> False"
    if "fetch_from hub' base' op' sm' f' rows cursor n = Some res" for hub' base' op' sm' f' rows cursor n res
    using that
  proof (rule fetch_from.raw_induct [rotated])
    fix self hub' base' op' sm' f' rows cursor n res
    assume IH: "\<And>hub' base' op' sm' f' rows cursor n res. self hub' base' op' sm' f' rows cursor n = Some res \<Longrightarrow>
        (hub', base', op', sm', f') = (hub, base, operation, summary, f) \<longrightarrow> False"
      and step: "(case fetch_page hub' base' op' sm' f' cursor n of
          (Inl e, n') \<Rightarrow> Some (Inl e, n')
        | (Inr (data, next), n') \<Rightarrow>
            (case next of None \<Rightarrow> Some (Inr (rows @ data), n')
             | Some c \<Rightarrow> self hub' base' op' sm' f' (rows @ data) (Some c) n')) = Some res"
    from assms [of cursor n] obtain data c n' where "fetch_page hub base operation summary f cursor n = (Inr (data, Some c), n')" by blast
    with step IH show "(hub', base', op', sm', f') = (hub, base, operation, summary, f) \<longrightarrow> False" by fastforce
  qed
  from this [of hub base operation summary f "[]" None n] show ?thesis
    unfolding fetchAllPages_def by (cases "fetch_from hub base operation summary f [] None n") simp_all
qed

end
