(* ===== verification/Js_Regex.thy ===== *)
theory Js_Regex
  imports Prelude
begin

text \<open>
  Regular expressions as the code's are written: classes of characters, greedy and lazy
  repetitions of a class, optional parts, groups with captures, alternatives, the
  boundaries \<open>\b\<close>, \<open>^\<close> and \<open>$\<close> and look-ahead. The matcher gives the
  matches from one position in the order in which the backtracking matcher of JavaScript
  tries them, so its first is the match; \<open>replace_all\<close> is \<open>String.replace\<close> with the \<open>g\<close>
  flag. Only classes are repeated, or parts that cannot be empty a bounded number of
  times, which is all the code does.
\<close>

datatype rx =
    Cls "char \<Rightarrow> bool"
  | Rep nat "char \<Rightarrow> bool"
  | Lazy nat "char \<Rightarrow> bool"
  | Wb
  | Bos
  | Eos
  | Ahead rx
  | NotAhead rx
  | Seq rx rx
  | Alt rx rx
  | Opt rx
  | Grp nat rx
  | Empty

text \<open>A match in progress: the position reached and the captured ranges, the latest first.\<close>

type_synonym captures = "(nat \<times> nat \<times> nat) list"

definition word_at :: "string \<Rightarrow> nat \<Rightarrow> bool" where
  "word_at s i \<longleftrightarrow> i < length s \<and> is_word (s ! i)"

definition boundary :: "string \<Rightarrow> nat \<Rightarrow> bool" where
  "boundary s i \<longleftrightarrow> (0 < i \<and> word_at s (i - 1)) \<noteq> word_at s i"

definition run_length :: "(char \<Rightarrow> bool) \<Rightarrow> string \<Rightarrow> nat \<Rightarrow> nat" where
  "run_length P s i = length (takeWhile P (drop i s))"

fun match_ends :: "rx \<Rightarrow> string \<Rightarrow> nat \<times> captures \<Rightarrow> (nat \<times> captures) list" where
  "match_ends (Cls P) s (i, cs) = (if i < length s \<and> P (s ! i) then [(i + 1, cs)] else [])"
| "match_ends (Rep lo P) s (i, cs) =
     (let n = run_length P s i in if n < lo then [] else map (\<lambda>k. (i + k, cs)) (rev [lo..<n + 1]))"
| "match_ends (Lazy lo P) s (i, cs) =
     (let n = run_length P s i in if n < lo then [] else map (\<lambda>k. (i + k, cs)) [lo..<n + 1])"
| "match_ends Wb s (i, cs) = (if boundary s i then [(i, cs)] else [])"
| "match_ends Bos s (i, cs) = (if i = 0 then [(i, cs)] else [])"
| "match_ends Eos s (i, cs) = (if i = length s then [(i, cs)] else [])"
| "match_ends (Ahead r) s (i, cs) = (if match_ends r s (i, cs) \<noteq> [] then [(i, cs)] else [])"
| "match_ends (NotAhead r) s (i, cs) = (if match_ends r s (i, cs) = [] then [(i, cs)] else [])"
| "match_ends (Seq r q) s st = concat (map (match_ends q s) (match_ends r s st))"
| "match_ends (Alt r q) s st = match_ends r s st @ match_ends q s st"
| "match_ends (Opt r) s st = match_ends r s st @ [st]"
| "match_ends (Grp k r) s (i, cs) = map (\<lambda>(j, cs'). (j, (k, i, j) # cs')) (match_ends r s (i, cs))"
| "match_ends Empty s st = [st]"

section \<open>Writing expressions\<close>

definition ch :: "char \<Rightarrow> rx" where "ch c = Cls (\<lambda>d. d = c)"

text \<open>A character under the \<open>i\<close> flag.\<close>

definition chi :: "char \<Rightarrow> rx" where "chi c = Cls (\<lambda>d. lower_char d = lower_char c)"

fun lit :: "string \<Rightarrow> rx" where
  "lit [] = Empty"
| "lit (c # s) = Seq (ch c) (lit s)"

fun liti :: "string \<Rightarrow> rx" where
  "liti [] = Empty"
| "liti (c # s) = Seq (chi c) (liti s)"

fun seq :: "rx list \<Rightarrow> rx" where
  "seq [] = Empty"
| "seq (r # rs) = Seq r (seq rs)"

fun alt :: "rx list \<Rightarrow> rx" where
  "alt [] = Cls (\<lambda>_. False)"
| "alt (r # rs) = Alt r (alt rs)"

definition one_of :: "string \<Rightarrow> char \<Rightarrow> bool" where "one_of cs c \<longleftrightarrow> c \<in> set cs"

definition is_lower_alnum :: "char \<Rightarrow> bool" where
  "is_lower_alnum c \<longleftrightarrow> is_digit c \<or> is_ascii_lower (lower_char c)"

section \<open>Searching\<close>

definition match_at :: "rx \<Rightarrow> string \<Rightarrow> nat \<Rightarrow> (nat \<times> captures) option" where
  "match_at r s i = (case match_ends r s (i, []) of [] \<Rightarrow> None | m # _ \<Rightarrow> Some m)"

definition exec_from :: "rx \<Rightarrow> string \<Rightarrow> nat \<Rightarrow> (nat \<times> nat \<times> captures) option" where
  "exec_from r s i =
     (case find (\<lambda>k. match_at r s k \<noteq> None) [i..<length s + 1] of
        None \<Rightarrow> None
      | Some k \<Rightarrow> map_option (\<lambda>(j, cs). (k, j, cs)) (match_at r s k))"

definition test :: "rx \<Rightarrow> string \<Rightarrow> bool" where
  "test r s \<longleftrightarrow> exec_from r s 0 \<noteq> None"

definition slice :: "string \<Rightarrow> nat \<Rightarrow> nat \<Rightarrow> string" where
  "slice s i j = take (j - i) (drop i s)"

definition captured :: "string \<Rightarrow> captures \<Rightarrow> nat \<Rightarrow> string" where
  "captured s cs k = (case map_of cs k of None \<Rightarrow> [] | Some (i, j) \<Rightarrow> slice s i j)"

lemma exec_from_bounds:
  assumes "exec_from r s i = Some (k, j, cs)"
  shows "i \<le> k \<and> k \<le> length s \<and> match_at r s k = Some (j, cs)"
proof -
  from assms obtain k' where f: "find (\<lambda>k. match_at r s k \<noteq> None) [i..<length s + 1] = Some k'"
    and "map_option (\<lambda>(j, cs). (k', j, cs)) (match_at r s k') = Some (k, j, cs)"
    by (auto simp: exec_from_def split: option.splits)
  then have k: "k' = k" and m: "match_at r s k = Some (j, cs)" by (cases "match_at r s k'"; auto)+
  from find_SomeD [OF f] k have "i \<le> k" "k \<le> length s" by auto
  with m show ?thesis by simp
qed

text \<open>
  \<open>replace\<close> with the \<open>g\<close> flag: after a match at \<open>k\<close> to \<open>j\<close> the search goes on at \<open>j\<close>, or one
  further when the match was empty. \<open>g\<close> gets the captures and the whole string.
\<close>

function replace_from :: "rx \<Rightarrow> (captures \<Rightarrow> string) \<Rightarrow> string \<Rightarrow> nat \<Rightarrow> string" where
  "replace_from r g s i =
     (case exec_from r s i of
        None \<Rightarrow> drop i s
      | Some (k, j, cs) \<Rightarrow>
          if k \<ge> length s then slice s i k @ g cs @ drop k s
          else if j \<le> k then slice s i k @ g cs @ slice s k (k + 1) @ replace_from r g s (k + 1)
          else slice s i k @ g cs @ replace_from r g s j)"
  by pat_completeness auto

termination
proof (relation "measure (\<lambda>(r, g, s, i). length s - i)")
  fix r g s i x k y j cs
  assume "exec_from r s i = Some x" "(k, y) = x" "(j, cs) = y" "\<not> length s \<le> k" "j \<le> k"
  then show "((r, g, s, k + 1), (r, g, s, i)) \<in> measure (\<lambda>(r, g, s, i). length s - i)"
    using exec_from_bounds [of r s i k j cs] by auto
next
  fix r g s i x k y j cs
  assume "exec_from r s i = Some x" "(k, y) = x" "(j, cs) = y" "\<not> length s \<le> k" "\<not> j \<le> k"
  then show "((r, g, s, j), (r, g, s, i)) \<in> measure (\<lambda>(r, g, s, i). length s - i)"
    using exec_from_bounds [of r s i k j cs] by auto
qed auto

declare replace_from.simps [simp del]

definition replace_all :: "rx \<Rightarrow> string \<Rightarrow> string \<Rightarrow> string" where
  "replace_all r t s = replace_from r (\<lambda>_. t) s 0"

section \<open>Lemmas\<close>

lemma run_length_le: "i \<le> length s \<Longrightarrow> i + run_length P s i \<le> length s"
  using length_takeWhile_le [of P "drop i s"] by (simp add: run_length_def)

text \<open>Matching only moves forward and stays in the string.\<close>

lemma match_ends_bounds:
  "(j, cs') \<in> set (match_ends r s (i, cs)) \<Longrightarrow> i \<le> length s \<Longrightarrow> i \<le> j \<and> j \<le> length s"
proof (induction r arbitrary: i j cs cs')
  case (Rep lo P)
  then show ?case using run_length_le [of i s P] by (auto simp: Let_def split: if_splits)
next
  case (Lazy lo P)
  then show ?case using run_length_le [of i s P] by (auto simp: Let_def split: if_splits)
next
  case (Seq r q)
  then show ?case by fastforce
qed (auto split: if_splits)

lemma match_at_mem: "match_at r s k = Some m \<Longrightarrow> m \<in> set (match_ends r s (k, []))"
  by (auto simp: match_at_def split: list.splits)

lemma match_at_bounds: "match_at r s k = Some (j, cs) \<Longrightarrow> k \<le> length s \<Longrightarrow> k \<le> j \<and> j \<le> length s"
proof -
  assume "match_at r s k = Some (j, cs)" and k: "k \<le> length s"
  then have "(j, cs) \<in> set (match_ends r s (k, []))" by (auto simp: match_at_def split: list.splits)
  from match_ends_bounds [OF this k] show ?thesis .
qed

text \<open>Where nothing matches, nothing changes.\<close>

lemma replace_no_match: "\<not> test r s \<Longrightarrow> replace_all r t s = s"
  by (cases "exec_from r s 0") (simp_all add: replace_all_def test_def replace_from.simps)

end
