(* ===== verification/Error_Sink.thy ===== *)
theory Error_Sink
  imports Js_Regex Http
begin

text \<open>
  The one entry point for caught failures, \<open>packages/error-sink/src\<close>: the patterns that
  take secrets out of texts and records (\<open>redact.ts\<close>), the report with its bounded chain of
  causes (\<open>index.ts\<close>, \<open>context.ts\<close>) and the error envelope (\<open>error-envelope.ts\<close>).

  The patterns are those of the file, as expressions of \<open>Js_Regex\<close>. A record is a JSON
  object whose keys are not \<open>__proto__\<close>. The logger and \<open>generateRefId\<close> are parameters.
\<close>

section \<open>Patterns\<close>

definition tok_u :: "char \<Rightarrow> bool" where "tok_u c \<longleftrightarrow> is_lower_alnum c \<or> c = CHR ''_''"

definition tok_ud :: "char \<Rightarrow> bool" where "tok_ud c \<longleftrightarrow> tok_u c \<or> c = CHR ''-''"

definition word_dash :: "char \<Rightarrow> bool" where "word_dash c \<longleftrightarrow> is_word c \<or> c = CHR ''-''"

definition upper_token :: "char \<Rightarrow> bool" where
  "upper_token c \<longleftrightarrow> is_ascii_upper c \<or> is_digit c \<or> c = CHR ''_'' \<or> c = CHR ''-''"

definition value_char :: "char \<Rightarrow> bool" where
  "value_char c \<longleftrightarrow> is_word c \<or> one_of ''.+/=%-'' c"

definition dash_or_under :: rx where "dash_or_under = Cls (one_of ''-_'')"

definition sk_pk_rk :: rx where "sk_pk_rk = alt [liti ''sk'', liti ''pk'', liti ''rk'']"

definition api_key_i :: rx where
  "api_key_i = seq [liti ''api'', Opt dash_or_under, liti ''key'']"

definition SECRET_KEY_PATTERN :: rx where
  "SECRET_KEY_PATTERN = alt [liti ''token'', liti ''secret'', liti ''password'', liti ''passwd'', api_key_i,
     liti ''apikey'', liti ''credential'', liti ''authorization'', liti ''cookie'']"

definition PROVIDER_KEY_SHAPE :: rx where
  "PROVIDER_KEY_SHAPE = seq [Wb, sk_pk_rk,
     alt [Seq (ch (CHR ''-'')) (alt (map liti [''ant'', ''svcacct'', ''dc'', ''live'', ''proj'', ''test'', ''dev'', ''prod'', ''org'', ''key'', ''secret''])),
          Seq (ch (CHR ''_'')) (alt [liti ''live'', liti ''test''])],
     dash_or_under, Rep 4 tok_ud, Wb]"

definition spaced_keyword :: "(string \<Rightarrow> rx) \<Rightarrow> rx" where
  "spaced_keyword l = alt [l ''password'', l ''passwd'', l ''secret'', l ''token'', l ''access_token'',
     seq [l ''api'', Opt dash_or_under, l ''key'']]"

definition SECRET_VALUE_PATTERNS :: "rx list" where
  "SECRET_VALUE_PATTERNS =
    [seq [liti ''bearer'', Rep 1 is_space, Rep 1 (\<lambda>c. \<not> is_space c)],
     seq [liti ''authorization'', Rep 0 is_space, ch (CHR '':''), Rep 0 is_space, Rep 1 (\<lambda>c. \<not> is_space c)],
     seq [Wb, alt (map liti [''github_pat'', ''ghp'', ''gho'', ''ghu'', ''ghs'']), ch (CHR ''_''), Rep 8 tok_u, Wb],
     seq [Wb, sk_pk_rk, ch (CHR ''-''), alt (map liti [''live'', ''proj'', ''test'', ''dev'', ''prod'', ''org'', ''key'', ''secret'']), Wb,
          dash_or_under, Rep 4 tok_u, Wb],
     seq [Wb, sk_pk_rk, ch (CHR ''-''), Rep 9 tok_u, NotAhead dash_or_under, Wb],
     seq [Wb, liti ''sk-'', alt [liti ''ant'', liti ''svcacct'', liti ''dc''], dash_or_under, Rep 8 tok_ud, Wb],
     seq [Wb, sk_pk_rk, ch (CHR ''_''), alt [liti ''live'', liti ''test''], ch (CHR ''_''), Rep 8 is_lower_alnum, Wb],
     seq [Wb, lit ''AIzaSy'', Rep 10 word_dash, Wb],
     seq [Wb, lit ''eyJ'', Rep 10 word_dash, ch (CHR ''.''), Rep 10 word_dash, ch (CHR ''.''), Rep 10 word_dash, Wb],
     seq [Wb, spaced_keyword liti, Rep 1 is_space, Ahead (seq [Rep 8 tok_ud, Wb]),
          Rep 0 tok_ud, Cls (\<lambda>c. is_digit c \<or> one_of ''_-'' c), Rep 0 tok_ud, Wb],
     seq [Wb, spaced_keyword lit, Rep 1 is_space, Rep 8 upper_token, Wb]]"

definition ASSIGNMENT_VALUE :: rx where "ASSIGNMENT_VALUE = Rep 1 value_char"

definition separator :: rx where "separator = seq [Rep 0 is_space, ch (CHR ''=''), Rep 0 is_space]"

definition SENSITIVE_ASSIGNMENT_PATTERN :: rx where
  "SENSITIVE_ASSIGNMENT_PATTERN = seq [Wb,
     Grp 1 (alt [liti ''access_token'', liti ''refresh_token'', liti ''id_token'', api_key_i, liti ''apikey'', liti ''secret'',
                 liti ''password'', liti ''passwd'', liti ''token'', liti ''credential'']),
     Grp 2 separator, Grp 3 ASSIGNMENT_VALUE]"

definition QUERY_PARAM_SENSITIVE_ASSIGNMENT_PATTERN :: rx where
  "QUERY_PARAM_SENSITIVE_ASSIGNMENT_PATTERN = seq
     [Grp 1 (Cls (one_of ''?&'')), Grp 2 (alt [liti ''code'', liti ''key'']), Grp 3 separator, Grp 4 ASSIGNMENT_VALUE]"

section \<open>Redaction\<close>

definition redacted :: string where "redacted = ''[redacted]''"

definition redactText :: "string \<Rightarrow> string" where
  "redactText text =
     (let t1 = fold (\<lambda>p t. replace_all p redacted t) SECRET_VALUE_PATTERNS text;
          t2 = replace_from SENSITIVE_ASSIGNMENT_PATTERN (\<lambda>cs. captured t1 cs 1 @ captured t1 cs 2 @ redacted) t1 0
      in replace_from QUERY_PARAM_SENSITIVE_ASSIGNMENT_PATTERN
           (\<lambda>cs. captured t2 cs 1 @ captured t2 cs 2 @ captured t2 cs 3 @ redacted) t2 0)"

definition sensitive_key :: "string \<Rightarrow> bool" where
  "sensitive_key k \<longleftrightarrow> test SECRET_KEY_PATTERN k \<or> test PROVIDER_KEY_SHAPE k"

fun redactValue :: "string \<Rightarrow> json \<Rightarrow> json" where
  "redactValue k (JStr s) = (if sensitive_key k then JStr redacted else JStr (redactText s))"
| "redactValue k (JArr xs) = (if sensitive_key k then JStr redacted else JArr (map (redactValue k) xs))"
| "redactValue k (JObj fs) = (if sensitive_key k then JStr redacted else JObj (map (\<lambda>(k', v). (k', redactValue k' v)) fs))"
| "redactValue k v = (if sensitive_key k then JStr redacted else v)"

type_synonym record_json = "(string \<times> json) list"

definition redactRecord :: "record_json \<Rightarrow> record_json" where
  "redactRecord fs = map (\<lambda>(k, v). (k, redactValue k v)) fs"

definition redactExtra :: "record_json option \<Rightarrow> record_json option" where
  "redactExtra extra = map_option redactRecord extra"

section \<open>Reports\<close>

text \<open>
  What was thrown: an \<open>Error\<close>, whose chain of causes may be endless, or another value with
  the text \<open>String\<close> gives for it, \<open>None\<close> when that throws itself.
\<close>

codatatype thrown =
    Err string "string option" "thrown option"
  | NotError "string option"

datatype log_error = LogError (le_message: string) (le_stack: "string option") (le_cause: "log_error option")

definition MAX_CAUSE_DEPTH :: nat where "MAX_CAUSE_DEPTH = 5"

text \<open>\<open>asError\<close>: the message, stack and cause; \<open>here\<close> is the stack of an error made on the spot.\<close>

definition asError :: "(string \<Rightarrow> string option) \<Rightarrow> thrown \<Rightarrow> (string \<times> string option \<times> thrown option) option" where
  "asError here t =
     (case t of Err m s c \<Rightarrow> Some (m, s, c)
      | NotError v \<Rightarrow> map_option (\<lambda>m. (m, here m, None)) v)"

function redactedCopyOf ::
  "(string \<Rightarrow> string option) \<Rightarrow> string \<times> string option \<times> thrown option \<Rightarrow> nat \<Rightarrow> log_error option" where
  "redactedCopyOf here (m, s, c) depth =
     (if depth < MAX_CAUSE_DEPTH
      then (case c of
              None \<Rightarrow> Some (LogError (redactText m) (map_option redactText s) None)
            | Some t \<Rightarrow>
                (case asError here t of
                   None \<Rightarrow> None
                 | Some e \<Rightarrow> map_option (\<lambda>r. LogError (redactText m) (map_option redactText s) (Some r))
                     (redactedCopyOf here e (depth + 1))))
      else Some (LogError (redactText m) (map_option redactText s) None))"
  by pat_completeness auto
termination by (relation "measure (\<lambda>(_, _, depth). MAX_CAUSE_DEPTH - depth)") auto

declare redactedCopyOf.simps [simp del]

record error_context =
  ec_operation :: string
  ec_tenantId :: "string option"
  ec_workbenchId :: "string option"
  ec_agentId :: "string option"
  ec_refId :: "string option"
  ec_extra :: "record_json option"

definition context_ok :: "error_context \<Rightarrow> bool" where
  "context_ok c \<longleftrightarrow> ec_operation c \<noteq> [] \<and> ec_tenantId c \<noteq> Some [] \<and> ec_workbenchId c \<noteq> Some [] \<and>
     ec_agentId c \<noteq> Some [] \<and> ec_refId c \<noteq> Some []"

definition UNKNOWN_OPERATION :: string where "UNKNOWN_OPERATION = ''unknown''"

record log_entry =
  lg_error :: log_error
  lg_refId :: string
  lg_operation :: string
  lg_tenantId :: "string option"
  lg_workbenchId :: "string option"
  lg_agentId :: "string option"
  lg_extra :: "record_json option"

text \<open>What the logger is given: \<open>None\<close> when making it throws.\<close>

definition report_entry :: "(string \<Rightarrow> string option) \<Rightarrow> string \<Rightarrow> thrown \<Rightarrow> error_context \<Rightarrow> log_entry option" where
  "report_entry here refId t c =
     (case asError here t of
        None \<Rightarrow> None
      | Some e \<Rightarrow>
          map_option (\<lambda>le. if context_ok c
              then \<lparr>lg_error = le, lg_refId = refId, lg_operation = ec_operation c, lg_tenantId = ec_tenantId c,
                    lg_workbenchId = ec_workbenchId c, lg_agentId = ec_agentId c, lg_extra = redactExtra (ec_extra c)\<rparr>
              else \<lparr>lg_error = le, lg_refId = refId, lg_operation = UNKNOWN_OPERATION, lg_tenantId = None,
                    lg_workbenchId = None, lg_agentId = None, lg_extra = None\<rparr>)
            (redactedCopyOf here e 0))"

text \<open>The id returned and the log; \<open>accepts\<close> tells whether the logger takes an entry or throws.\<close>

definition reportError ::
  "(string \<Rightarrow> string option) \<Rightarrow> (log_entry \<Rightarrow> bool) \<Rightarrow> string \<Rightarrow> thrown \<Rightarrow> error_context \<Rightarrow> log_entry list
     \<Rightarrow> string \<times> log_entry list" where
  "reportError here accepts fresh t c log =
     (let refId = (case ec_refId c of Some r \<Rightarrow> r | None \<Rightarrow> fresh);
          failed = (case ec_refId c of Some r \<Rightarrow> r | None \<Rightarrow> UNKNOWN_OPERATION)
      in case report_entry here refId t c of
           None \<Rightarrow> (failed, log)
         | Some entry \<Rightarrow> if accepts entry then (refId, log @ [entry]) else (failed, log))"

section \<open>The envelope\<close>

record error_envelope =
  ev_code :: string
  ev_userMessage :: string
  ev_refId :: string

definition makeErrorEnvelope :: "string \<Rightarrow> string \<Rightarrow> string \<Rightarrow> string option \<Rightarrow> error_envelope" where
  "makeErrorEnvelope fresh code userMessage refId =
     \<lparr>ev_code = code, ev_userMessage = userMessage, ev_refId = (case refId of Some r \<Rightarrow> r | None \<Rightarrow> fresh)\<rparr>"

definition envelope_json :: "error_envelope \<Rightarrow> json" where
  "envelope_json e = JObj [(''error'', JObj [(''code'', JStr (ev_code e)), (''userMessage'', JStr (ev_userMessage e)),
     (''refId'', JStr (ev_refId e))])]"

definition parseErrorEnvelope :: "json \<Rightarrow> error_envelope option" where
  "parseErrorEnvelope body =
     (case field ''error'' body of
        None \<Rightarrow> None
      | Some e \<Rightarrow>
          (case (str_field ''code'' e, str_field ''userMessage'' e, str_field ''refId'' e) of
             (Some c, Some u, Some r) \<Rightarrow> Some \<lparr>ev_code = c, ev_userMessage = u, ev_refId = r\<rparr>
           | _ \<Rightarrow> None))"


section \<open>What a record gives away\<close>

text \<open>All fields of a value, at any depth, and all its strings.\<close>

fun all_fields :: "json \<Rightarrow> (string \<times> json) list" where
  "all_fields (JObj fs) = fs @ concat (map (\<lambda>(k, v). all_fields v) fs)"
| "all_fields (JArr xs) = concat (map all_fields xs)"
| "all_fields _ = []"

fun all_strings :: "json \<Rightarrow> string list" where
  "all_strings (JObj fs) = concat (map (\<lambda>(k, v). all_strings v) fs)"
| "all_strings (JArr xs) = concat (map all_strings xs)"
| "all_strings (JStr s) = [s]"
| "all_strings _ = []"

lemma redactValue_sensitive [simp]: "sensitive_key k \<Longrightarrow> redactValue k v = JStr redacted"
  by (cases v) simp_all

lemma redactValue_fields:
  "(k', w) \<in> set (all_fields (redactValue k v)) \<Longrightarrow> sensitive_key k' \<Longrightarrow> w = JStr redacted"
proof (induction k v rule: redactValue.induct)
  case (2 k xs)
  then show ?case by (auto split: if_splits)
next
  case (3 k fs)
  then show ?case by (fastforce split: if_splits)
qed (auto split: if_splits)

lemma redactValue_strings:
  "t \<in> set (all_strings (redactValue k v)) \<Longrightarrow> t = redacted \<or> (\<exists>s \<in> set (all_strings v). t = redactText s)"
proof (induction k v rule: redactValue.induct)
  case (2 k xs)
  then show ?case by (auto split: if_splits)
next
  case (3 k fs)
  then show ?case by (fastforce split: if_splits)
qed (auto split: if_splits)

text \<open>C10. No field with a sensitive name keeps its value, however deep it is, and every string a record is
  reported with is either \<open>[redacted]\<close> or a string of the record with the secret patterns taken out; the
  top-level fields stay, in order.\<close>

theorem redactExtra_hides_secrets:
  assumes "redactExtra (Some fs) = Some out"
  shows "(\<forall>(k, v) \<in> set (all_fields (JObj out)). sensitive_key k \<longrightarrow> v = JStr redacted)
    \<and> (\<forall>t \<in> set (all_strings (JObj out)). t = redacted \<or> (\<exists>s \<in> set (all_strings (JObj fs)). t = redactText s))
    \<and> map fst out = map fst fs"
proof (intro conjI)
  have out: "out = redactRecord fs" using assms by (simp add: redactExtra_def)
  show "map fst out = map fst fs" by (auto simp: out redactRecord_def)
  show "\<forall>(k, v) \<in> set (all_fields (JObj out)). sensitive_key k \<longrightarrow> v = JStr redacted"
    by (auto simp: out redactRecord_def dest: redactValue_fields)
  show "\<forall>t \<in> set (all_strings (JObj out)). t = redacted \<or> (\<exists>s \<in> set (all_strings (JObj fs)). t = redactText s)"
    by (fastforce simp: out redactRecord_def dest: redactValue_strings)
qed

lemma redactExtra_hides_secrets_witness:
  "map_of (the (redactExtra (Some [(''u'', JObj [(''ApiKey'', JArr [JStr ''x''])])]))) ''u'' = Some (JObj [(''ApiKey'', JStr redacted)])"
proof -
  let ?fs = "[(''u'', JObj [(''ApiKey'', JArr [JStr ''x''])])]"
  have s: "sensitive_key ''ApiKey''" and u: "\<not> sensitive_key ''u''" by code_simp+
  obtain v where v: "redactExtra (Some ?fs) = Some [(''u'', JObj [(''ApiKey'', v)])]"
    using u by (simp add: redactExtra_def redactRecord_def)
  from redactExtra_hides_secrets [OF v] s have "v = JStr redacted" by auto
  with v show ?thesis by simp
qed

section \<open>What a report does\<close>

primrec chain_length :: "log_error \<Rightarrow> nat" where
  "chain_length (LogError m s c) = Suc (case map_option chain_length c of None \<Rightarrow> 0 | Some n \<Rightarrow> n)"

primrec log_texts :: "log_error \<Rightarrow> string list" where
  "log_texts (LogError m s c) = m # (case s of None \<Rightarrow> [] | Some x \<Rightarrow> [x])
     @ (case map_option log_texts c of None \<Rightarrow> [] | Some xs \<Rightarrow> xs)"

lemma redactedCopyOf_bound:
  "redactedCopyOf here e depth = Some le \<Longrightarrow> depth \<le> MAX_CAUSE_DEPTH \<Longrightarrow>
   chain_length le \<le> Suc (MAX_CAUSE_DEPTH - depth) \<and> set (log_texts le) \<subseteq> range redactText"
proof (induction here e depth arbitrary: le rule: redactedCopyOf.induct)
  case (1 here m s c depth)
  show ?case
  proof (cases "depth < MAX_CAUSE_DEPTH")
    case False
    with 1 show ?thesis by (auto simp: redactedCopyOf.simps split: option.splits)
  next
    case True
    show ?thesis
    proof (cases c)
      case None
      with 1 True show ?thesis by (auto simp: redactedCopyOf.simps split: option.splits)
    next
      case (Some t)
      obtain e where e: "asError here t = Some e"
        using 1(2) True Some by (cases "asError here t") (simp_all add: redactedCopyOf.simps [of here m s "Some t"])
      obtain r where r: "redactedCopyOf here e (depth + 1) = Some r"
        using 1(2) True Some e by (cases "redactedCopyOf here e (depth + 1)") (simp_all add: redactedCopyOf.simps [of here m s "Some t"])
      have le: "le = LogError (redactText m) (map_option redactText s) (Some r)"
        using 1(2) True Some e r by (simp add: redactedCopyOf.simps [of here m s "Some t"])
      from 1(1) [OF True Some e r] True show ?thesis
        by (auto simp: le split: option.splits)
    qed
  qed
qed

text \<open>Also shown. A report is bounded whatever was thrown: even for an endless chain of causes the logger gets at most
  six linked errors, and every message and stack in them has been through \<open>redactText\<close>.\<close>

theorem report_bounded:
  "report_entry here refId t c = Some entry \<Longrightarrow>
   chain_length (lg_error entry) \<le> 6 \<and> set (log_texts (lg_error entry)) \<subseteq> range redactText"
proof -
  assume "report_entry here refId t c = Some entry"
  then obtain e where "redactedCopyOf here e 0 = Some (lg_error entry)"
    by (auto simp: report_entry_def split: option.splits if_splits)
  from redactedCopyOf_bound [OF this] show ?thesis by (simp add: MAX_CAUSE_DEPTH_def)
qed

text \<open>An error that is its own cause.\<close>

primcorec own_cause :: thrown where
  "own_cause = Err ''x'' None (Some own_cause)"

definition plain_context :: error_context where
  "plain_context = \<lparr>ec_operation = ''op'', ec_tenantId = None, ec_workbenchId = None, ec_agentId = None, ec_refId = None, ec_extra = None\<rparr>"

lemma own_cause_copied: "depth \<le> MAX_CAUSE_DEPTH \<Longrightarrow> \<exists>le. redactedCopyOf here (''x'', None, Some own_cause) depth = Some le"
proof (induction "MAX_CAUSE_DEPTH - depth" arbitrary: depth)
  case 0
  then show ?case by (simp add: redactedCopyOf.simps)
next
  case (Suc n)
  then have "depth < MAX_CAUSE_DEPTH" by simp
  moreover have "asError here own_cause = Some (''x'', None, Some own_cause)"
    by (subst own_cause.code) (simp add: asError_def)
  ultimately show ?case using Suc.hyps(1) [of "depth + 1"] Suc.hyps(2)
    by (auto simp: redactedCopyOf.simps [of here _ _ _ depth])
qed

lemma report_bounded_witness:
  "\<exists>entry. report_entry (\<lambda>_. None) ''r1'' own_cause plain_context = Some entry \<and> chain_length (lg_error entry) \<le> 6"
proof -
  have "asError (\<lambda>_. None) own_cause = Some (''x'', None, Some own_cause)"
    by (subst own_cause.code) (simp add: asError_def)
  then obtain entry where e: "report_entry (\<lambda>_. None) ''r1'' own_cause plain_context = Some entry"
    using own_cause_copied [of 0 "\<lambda>_. None"] by (auto simp: report_entry_def)
  with report_bounded [OF e] show ?thesis by blast
qed

text \<open>Also shown. The id a report returns is the one to look for: when the logger took the entry it carries that id,
  and otherwise the log is as it was and the id is the caller's own or \<open>unknown\<close>.\<close>

theorem report_id_is_logged:
  assumes "reportError here accepts fresh t c log = (i, log')"
  shows "(\<exists>entry. log' = log @ [entry] \<and> lg_refId entry = i \<and> accepts entry) \<or>
    (log' = log \<and> (ec_refId c = Some i \<or> ec_refId c = None \<and> i = UNKNOWN_OPERATION))"
  using assms by (auto simp: reportError_def report_entry_def Let_def split: option.splits if_splits)

lemma report_id_is_logged_witness:
  "snd (reportError (\<lambda>_. None) (\<lambda>_. False) ''f1'' (NotError (Some ''x'')) plain_context []) = []
   \<and> fst (reportError (\<lambda>_. None) (\<lambda>_. False) ''f1'' (NotError (Some ''x'')) plain_context []) = UNKNOWN_OPERATION"
proof -
  obtain i l where run: "reportError (\<lambda>_. None) (\<lambda>_. False) ''f1'' (NotError (Some ''x'')) plain_context [] = (i, l)"
    by (cases "reportError (\<lambda>_. None) (\<lambda>_. False) ''f1'' (NotError (Some ''x'')) plain_context []")
  from report_id_is_logged [OF run] run show ?thesis by (simp add: plain_context_def)
qed

text \<open>An envelope a hub route makes is the one a client reads.\<close>

lemma envelope_roundtrip: "parseErrorEnvelope (envelope_json e) = Some e"
  by (simp add: parseErrorEnvelope_def envelope_json_def str_field_def)

section \<open>What slips through\<close>

text \<open>Only the scheme of a \<open>Basic\<close> authorization is masked; the credential after it stays.\<close>

lemma basic_authorization_leaks: "redactText ''Authorization: Basic dTpw'' = ''[redacted] dTpw''"
  by code_simp

end
