(* ===== verification/Worker_Definition.thy ===== *)
theory Worker_Definition
  imports Mcp_Servers Deferred_Tools
begin

text \<open>
  The worker's workflow, \<open>packages/worker/src\<close>: the definition its entry builds
  (\<open>index.ts\<close>) and the JSON projection the deploy writes beside it (\<open>definition-json.ts\<close>).
  \<open>defineWorkflow\<close> and \<open>step\<close> are the vendored functions of
  \<open>src/vendor/intx/workflow/src/definition\<close>, on the configurations the worker gives them:
  one agent step with a trigger budget and no explicit input.

  The tool factories of the packages are a parameter: their type \<open>'f\<close>, the names each
  declares and the constructor of the MCP factory.
\<close>

section \<open>Definitions\<close>

definition WORKER_STEP_ID :: string where "WORKER_STEP_ID = ''worker''"

definition WORKER_DESCRIPTION :: string where
  "WORKER_DESCRIPTION = ''A co-worker that lives in one workbench: answers questions, '' @
     ''drafts text, and gets things done for the team''"

record worker_tool_names =
  wn_visible :: "string list"
  wn_deferred :: "string list"

record director_ref =
  dr_id :: string
  dr_config :: director_config

definition workerDirectorRef :: "worker_tool_names \<Rightarrow> string list \<Rightarrow> director_ref" where
  "workerDirectorRef names handles =
     \<lparr>dr_id = ''@corbits/deferred-tools/director'',
      dr_config = \<lparr>dc_visible = wn_visible names, dc_deferred = wn_deferred names @ map mcpToolNamePattern handles\<rparr>\<rparr>"

record inference_source =
  is_provider :: string
  is_model :: string
  is_parameters :: "json option"

record worker_input =
  wi_workflowId :: string
  wi_triggerAddress :: string
  wi_inferencePreferences :: "inference_source list"
  wi_systemPrompt :: string
  wi_hubCredentialId :: string
  wi_mcpServers :: "mcp_deployment list"

datatype tool_decision = AllowTool | DenyTool

record tool_effect =
  te_resource :: string
  te_effect :: tool_decision

datatype grant_requirement =
    UseCredential use_requirement
  | InvokeTool tool_effect

datatype trigger = MailTrigger string | ManualTrigger

record 'f agent_def =
  ag_id :: string
  ag_description :: string
  ag_systemPrompt :: string
  ag_toolFactories :: "'f list"
  ag_director :: director_ref
  ag_capabilities :: "string list"
  ag_sources :: "inference_source list"
  ag_toolPackagePins :: "string list"

datatype trigger_budget = Budget nat | Unbounded

datatype drain_behavior = Wait | Cancel

record 'f step_def =
  sd_kind :: string
  sd_id :: string
  sd_agent :: "'f agent_def"
  sd_drainBehavior :: drain_behavior
  sd_triggers :: "trigger_budget option"
  sd_input :: "string option"

record 'f workflow_def =
  wf_id :: string
  wf_triggers :: "trigger list"
  wf_credentialBindings :: "credential_binding list"
  wf_grantRequirements :: "grant_requirement list"
  wf_steps :: "(string \<times> 'f step_def) list"
  wf_stepOrder :: "string list"

section \<open>The vendored constructors\<close>

definition step :: "'f agent_def \<Rightarrow> trigger_budget option \<Rightarrow> 'f step_def" where
  "step agent triggers =
     \<lparr>sd_kind = ''step'', sd_id = [], sd_agent = agent,
      sd_drainBehavior = (case triggers of None \<Rightarrow> Cancel | Some b \<Rightarrow> if b \<noteq> Budget 1 then Wait else Cancel),
      sd_triggers = triggers, sd_input = None\<rparr>"

record 'f workflow_config =
  wc_id :: string
  wc_trigger :: "trigger option"
  wc_credentialBindings :: "credential_binding list"
  wc_grantRequirements :: "grant_requirement list"
  wc_steps :: "(string \<times> 'f step_def) list"

text \<open>The first step with no input and nothing to wait for reads the trigger's payload.\<close>

definition applyDefaultInput :: "'f step_def \<Rightarrow> string list \<Rightarrow> 'f step_def" where
  "applyDefaultInput s prior = (if sd_input s = None \<and> prior = [] then s\<lparr>sd_input := Some ''trigger.payload''\<rparr> else s)"

fun assign_ids :: "(string \<times> 'f step_def) list \<Rightarrow> string list \<Rightarrow> string + (string \<times> 'f step_def) list" where
  "assign_ids [] prior = Inr []"
| "assign_ids ((i, s) # rest) prior =
     (if sd_id s \<noteq> [] \<and> sd_id s \<noteq> i then Inl (''step '' @ i @ '' carries a conflicting embedded id '' @ sd_id s)
      else (case assign_ids rest (prior @ [i]) of
              Inl e \<Rightarrow> Inl e
            | Inr steps \<Rightarrow> Inr ((i, applyDefaultInput (s\<lparr>sd_id := i\<rparr>) prior) # steps)))"

definition defineWorkflow :: "'f workflow_config \<Rightarrow> string + 'f workflow_def" where
  "defineWorkflow c =
     (if wc_id c = [] then Inl ''defineWorkflow requires a non-empty id''
      else if wc_steps c = [] then Inl ''defineWorkflow requires at least one step''
      else (case assign_ids (wc_steps c) [] of
              Inl e \<Rightarrow> Inl e
            | Inr steps \<Rightarrow>
                Inr \<lparr>wf_id = wc_id c, wf_triggers = (case wc_trigger c of None \<Rightarrow> [ManualTrigger] | Some t \<Rightarrow> [t]),
                     wf_credentialBindings = wc_credentialBindings c, wf_grantRequirements = wc_grantRequirements c,
                     wf_steps = steps, wf_stepOrder = map fst steps\<rparr>))"

section \<open>The worker's definition\<close>

record mcp_factory_server =
  mf_handle :: string
  mf_url :: string
  mf_tools :: "mcp_tool list"
  mf_allowWithoutAsk :: "string list option"

text \<open>The packages: what every turn carries, what has to be searched for, and the search tool.\<close>

record 'f tool_packages =
  tp_visible :: "'f list"
  tp_deferred :: "'f list"
  tp_toolSearch :: 'f
  tp_names :: "'f \<Rightarrow> string list"
  tp_mcpServers :: "mcp_factory_server list \<Rightarrow> 'f"

definition WORKER_TOOL_FACTORIES :: "'f tool_packages \<Rightarrow> 'f list" where
  "WORKER_TOOL_FACTORIES p = tp_visible p @ tp_deferred p @ [tp_toolSearch p]"

definition toolNames :: "'f tool_packages \<Rightarrow> 'f list \<Rightarrow> string list" where
  "toolNames p factories = concat (map (tp_names p) factories)"

definition WORKER_TOOL_NAMES :: "'f tool_packages \<Rightarrow> worker_tool_names" where
  "WORKER_TOOL_NAMES p = \<lparr>wn_visible = toolNames p (tp_visible p), wn_deferred = toolNames p (tp_deferred p)\<rparr>"

definition worker_bindings :: "worker_input \<Rightarrow> credential_binding list" where
  "worker_bindings i =
     [artifactToolsCredentialBinding (wi_workflowId i), memoryToolsCredentialBinding (wi_workflowId i)]
       @ map mcpServerCredentialBinding (wi_mcpServers i)"

definition worker_requirements :: "worker_input \<Rightarrow> grant_requirement list" where
  "worker_requirements i =
     [UseCredential (artifactToolsCredentialUseRequirement (wi_hubCredentialId i)),
      UseCredential (memoryToolsCredentialUseRequirement (wi_hubCredentialId i))]
       @ map (\<lambda>s. UseCredential (mcpServerCredentialUseRequirement (md_credentialId s))) (wi_mcpServers i)"

definition buildWorkerWorkflow :: "'f tool_packages \<Rightarrow> worker_input \<Rightarrow> string + 'f workflow_def" where
  "buildWorkerWorkflow p i =
     (if wi_workflowId i = [] then Inl ''buildWorkerWorkflow requires a non-empty workflowId''
      else if wi_triggerAddress i = [] then Inl ''buildWorkerWorkflow requires a non-empty triggerAddress''
      else if wi_systemPrompt i = [] then Inl ''buildWorkerWorkflow requires a non-empty systemPrompt''
      else if wi_hubCredentialId i = [] then Inl ''buildWorkerWorkflow requires a non-empty hubCredentialId''
      else defineWorkflow
        \<lparr>wc_id = wi_workflowId i, wc_trigger = Some (MailTrigger (wi_triggerAddress i)),
         wc_credentialBindings = worker_bindings i, wc_grantRequirements = worker_requirements i,
         wc_steps = [(''worker'', step
           \<lparr>ag_id = WORKER_STEP_ID, ag_description = WORKER_DESCRIPTION, ag_systemPrompt = wi_systemPrompt i,
            ag_toolFactories = WORKER_TOOL_FACTORIES p @
              [tp_mcpServers p (map (\<lambda>s. \<lparr>mf_handle = md_handle s, mf_url = md_url s, mf_tools = md_tools s,
                 mf_allowWithoutAsk = md_allowWithoutAsk s\<rparr>) (wi_mcpServers i))],
            ag_director = workerDirectorRef (WORKER_TOOL_NAMES p) (map md_handle (wi_mcpServers i)),
            ag_capabilities = [], ag_sources = wi_inferencePreferences i, ag_toolPackagePins = []\<rparr>
           (Some Unbounded))]\<rparr>)"

text \<open>The object \<open>buildWorkerDefinitionJson\<close> returns, with its empty list of factories.\<close>

definition buildWorkerDefinitionJson ::
  "worker_input \<Rightarrow> worker_tool_names \<Rightarrow> tool_effect list \<Rightarrow> 'g workflow_def" where
  "buildWorkerDefinitionJson i names effects =
     \<lparr>wf_id = wi_workflowId i, wf_triggers = [MailTrigger (wi_triggerAddress i)],
      wf_credentialBindings =
        [artifactToolsCredentialBinding (wi_workflowId i), memoryToolsCredentialBinding (wi_workflowId i)]
          @ map mcpServerCredentialBinding (wi_mcpServers i),
      wf_grantRequirements =
        [UseCredential (artifactToolsCredentialUseRequirement (wi_hubCredentialId i)),
         UseCredential (memoryToolsCredentialUseRequirement (wi_hubCredentialId i))]
          @ map (\<lambda>s. UseCredential (mcpServerCredentialUseRequirement (md_credentialId s))) (wi_mcpServers i)
          @ map InvokeTool effects,
      wf_steps = [(WORKER_STEP_ID,
        \<lparr>sd_kind = ''step'', sd_id = WORKER_STEP_ID,
         sd_agent = \<lparr>ag_id = WORKER_STEP_ID, ag_description = WORKER_DESCRIPTION, ag_systemPrompt = wi_systemPrompt i,
           ag_toolFactories = [], ag_director = workerDirectorRef names (map md_handle (wi_mcpServers i)),
           ag_capabilities = [], ag_sources = wi_inferencePreferences i, ag_toolPackagePins = []\<rparr>,
         sd_drainBehavior = Wait, sd_triggers = Some Unbounded, sd_input = Some ''trigger.payload''\<rparr>)],
      wf_stepOrder = [WORKER_STEP_ID]\<rparr>"

section \<open>The projection\<close>

text \<open>A definition without its functions.\<close>

definition without_factories :: "'f agent_def \<Rightarrow> 'g agent_def" where
  "without_factories a =
     \<lparr>ag_id = ag_id a, ag_description = ag_description a, ag_systemPrompt = ag_systemPrompt a, ag_toolFactories = [],
      ag_director = ag_director a, ag_capabilities = ag_capabilities a, ag_sources = ag_sources a,
      ag_toolPackagePins = ag_toolPackagePins a\<rparr>"

definition project_step :: "'f step_def \<Rightarrow> 'g step_def" where
  "project_step s =
     \<lparr>sd_kind = sd_kind s, sd_id = sd_id s, sd_agent = without_factories (sd_agent s),
      sd_drainBehavior = sd_drainBehavior s, sd_triggers = sd_triggers s, sd_input = sd_input s\<rparr>"

definition function_free :: "'f workflow_def \<Rightarrow> 'g workflow_def" where
  "function_free w =
     \<lparr>wf_id = wf_id w, wf_triggers = wf_triggers w, wf_credentialBindings = wf_credentialBindings w,
      wf_grantRequirements = wf_grantRequirements w, wf_steps = map (\<lambda>(i, s). (i, project_step s)) (wf_steps w),
      wf_stepOrder = wf_stepOrder w\<rparr>"

definition complete_input :: "worker_input \<Rightarrow> bool" where
  "complete_input i \<longleftrightarrow> wi_workflowId i \<noteq> [] \<and> wi_triggerAddress i \<noteq> [] \<and> wi_systemPrompt i \<noteq> [] \<and> wi_hubCredentialId i \<noteq> []"


section \<open>The bound servers behind the director\<close>

lemma glob_prefix: "list_all (\<lambda>c. \<not> line_end c) h \<Longrightarrow> glob ps t \<Longrightarrow> glob (h @ ps) (h @ t)"
proof (induction h)
  case Nil
  then show ?case by simp
next
  case (Cons c h)
  then have IH: "glob (h @ ps) (h @ t)" by simp
  show ?case
  proof (cases "c = CHR ''*''")
    case True
    have "glob (CHR ''*'' # (h @ ps)) (h @ t)" using IH by (cases "h @ t") auto
    with True Cons.prems show ?thesis by simp
  next
    case False
    with IH show ?thesis by simp
  qed
qed

lemma glob_star: "list_all (\<lambda>c. \<not> line_end c) s \<Longrightarrow> glob ''*'' s"
  by (induction s) auto

lemma handle_pattern_matches:
  "list_all (\<lambda>c. \<not> line_end c) (h @ n) \<Longrightarrow> matchesNamePattern (h @ ''.'' @ n) (mcpToolNamePattern h)"
  unfolding matchesNamePattern_def mcpToolNamePattern_def by (rule glob_prefix) (simp_all add: glob_star)

lemma namespace_handle:
  "CHR ''_'' \<notin> set h \<Longrightarrow> CHR ''.'' \<notin> set h \<Longrightarrow> toolNamespace (h @ ''.'' @ n) = h"
proof -
  assume "CHR ''_'' \<notin> set h" "CHR ''.'' \<notin> set h"
  then have "\<And>c. c \<in> set h \<Longrightarrow> c \<noteq> CHR ''_'' \<and> c \<noteq> CHR ''.''" by metis
  then show ?thesis by (simp add: toolNamespace_def takeWhile_append2)
qed

lemma deferred_selected: "d \<in> set defs \<Longrightarrow> p \<in> set (dc_deferred cfg) \<Longrightarrow> matchesNamePattern (td_name d) p \<Longrightarrow>
  d \<in> set (sel_deferred (new_selection defs cfg))"
  by (auto simp: new_selection_def Let_def selectByPatterns_def list_ex_iff)

text \<open>The director's selection when a deployment of the definition starts.\<close>

definition worker_selection :: "worker_tool_names \<Rightarrow> worker_input \<Rightarrow> tool_def list \<Rightarrow> selection" where
  "worker_selection names i defs = new_selection defs (dr_config (workerDirectorRef names (map md_handle (wi_mcpServers i))))"

text \<open>Also shown. The tools of every bound MCP server wait behind the search: with the director the definition names, a
  tool \<open>handle.name\<close> of a bound server is not sent before a search, and when the handle has no separator of its own,
  a search that hits any tool of the server brings this one too.\<close>

theorem bound_server_tools_wait:
  assumes "s \<in> set (wi_mcpServers i)" and "d \<in> set defs" and "td_name d = md_handle s @ ''.'' @ n"
    and "list_all (\<lambda>c. \<not> line_end c) (md_handle s @ n)"
  shows "td_name d \<notin> td_name ` set (tools (worker_selection names i defs)) - {TOOL_SEARCH_NAME}
   \<and> (CHR ''_'' \<notin> set (md_handle s) \<and> CHR ''.'' \<notin> set (md_handle s) \<and>
      (\<exists>m n'. m \<in> set (searchDefinitions (sel_deferred (worker_selection names i defs)) q)
         \<and> td_name m = md_handle s @ ''.'' @ n')
      \<longrightarrow> td_name d \<in> td_name ` set (tools (surface q (worker_selection names i defs))))"
proof -
  let ?s = "worker_selection names i defs"
  have "matchesNamePattern (td_name d) (mcpToolNamePattern (md_handle s))"
    unfolding assms(3) by (rule handle_pattern_matches [OF assms(4)])
  then have def_d: "d \<in> set (sel_deferred ?s)"
    unfolding worker_selection_def
    by (rule deferred_selected [OF assms(2), rotated]) (use assms(1) in \<open>auto simp: workerDirectorRef_def\<close>)
  have "td_name d \<notin> td_name ` set (tools ?s) - {TOOL_SEARCH_NAME}"
  proof -
    have "tools ?s = sel_always ?s" by (simp add: worker_selection_def tools_def new_selection_def Let_def map_filter_def)
    moreover have "td_name x = TOOL_SEARCH_NAME \<or> td_name x \<notin> td_name ` set (sel_deferred ?s)" if "x \<in> set (sel_always ?s)" for x
      using that by (auto simp: worker_selection_def new_selection_def Let_def TOOL_SEARCH_DEFINITION_def)
    moreover from def_d have "td_name d \<in> td_name ` set (sel_deferred ?s)" by blast
    ultimately show ?thesis by (metis Diff_iff imageE singletonI)
  qed
  moreover have "td_name d \<in> td_name ` set (tools (surface q ?s))"
    if "CHR ''_'' \<notin> set (md_handle s)" "CHR ''.'' \<notin> set (md_handle s)"
      and m: "m \<in> set (searchDefinitions (sel_deferred ?s) q)" "td_name m = md_handle s @ ''.'' @ n'" for m n'
  proof -
    have "toolNamespace (td_name m) = toolNamespace (td_name d)"
      unfolding assms(3) m(2) by (simp only: namespace_handle [OF that(1,2)])
    with def_d m(1) have "td_name d \<in> set (sel_surfaced (surface q ?s))" by (auto simp: surfaced_surface)
    moreover have "set (map td_name (tools (surface q ?s))) = td_name ` set (sel_always ?s) \<union> set (sel_surfaced (surface q ?s))"
      unfolding worker_selection_def names_tools [OF selection_ok_surface [OF selection_ok_new]] by simp
    ultimately show ?thesis by auto
  qed
  ultimately show ?thesis by blast
qed


definition demo_input :: worker_input where
  "demo_input = \<lparr>wi_workflowId = ''w'', wi_triggerAddress = ''a@x'', wi_inferencePreferences = [], wi_systemPrompt = ''p'',
     wi_hubCredentialId = ''c'', wi_mcpServers = [\<lparr>md_handle = ''exa'', md_url = ''u'', md_credentialId = ''c2'',
       md_providerName = ''mcp-exa'', md_credentialName = ''mcp-exa'', md_tools = [], md_allowWithoutAsk = None\<rparr>]\<rparr>"

lemma bound_server_tools_wait_witness:
  "''exa.search'' \<notin> td_name ` set (tools (worker_selection \<lparr>wn_visible = [], wn_deferred = []\<rparr> demo_input
     [\<lparr>td_name = ''exa.search'', td_description = ''Search'', td_inputSchema = JObj []\<rparr>]))"
proof -
  let ?s = "hd (wi_mcpServers demo_input)"
  let ?d = "\<lparr>td_name = ''exa.search'', td_description = ''Search'', td_inputSchema = JObj []\<rparr>"
  have "?s \<in> set (wi_mcpServers demo_input)" "?d \<in> set [?d]" "td_name ?d = md_handle ?s @ ''.'' @ ''search''"
    "list_all (\<lambda>c. \<not> line_end c) (md_handle ?s @ ''search'')"
    by (simp_all add: demo_input_def line_end_def char_code_def)
  from bound_server_tools_wait [OF this, of "\<lparr>wn_visible = [], wn_deferred = []\<rparr>" "[]"]
  show ?thesis by (simp add: TOOL_SEARCH_NAME_def)
qed

end
