(* ===== verification/Hub_Edge.thy ===== *)
theory Hub_Edge
  imports Http
begin

text \<open>
  The edge of the hub, \<open>apps/hub/src\<close>: the files of the web app served beside the API
  (\<open>static-web.ts\<close>), a person's mail to the runs of a workbench (\<open>mailbox-send.ts\<close>) and who a
  sidecar's token speaks for (\<open>workflow-run-authenticator.ts\<close>).

  A request has its path as \<open>new URL(req.url).pathname\<close> gives it. Decoding is a parameter
  \<open>decode\<close>, \<open>None\<close> when it throws, so what is shown of the paths holds for every
  \<open>decodeURIComponent\<close>; \<open>Http\<close> has the function for texts that decode to
  Latin-1. The file system is a parameter too: the type of the file at a path, if there is one.
\<close>

section \<open>Paths\<close>

definition slash :: char where "slash = CHR ''/''"

text \<open>\<open>path.resolve\<close>: empty parts and \<open>.\<close> go, \<open>..\<close> takes the part before it away.\<close>

fun resolve_parts :: "string list \<Rightarrow> string list \<Rightarrow> string list" where
  "resolve_parts acc [] = acc"
| "resolve_parts acc (p # ps) =
     (if p = [] \<or> p = ''.'' then resolve_parts acc ps
      else if p = ''..'' then resolve_parts (butlast acc) ps
      else resolve_parts (acc @ [p]) ps)"

definition abs_path :: "string list \<Rightarrow> string" where
  "abs_path parts = slash # join [slash] parts"

definition path_parts :: "string list \<Rightarrow> string \<Rightarrow> string list" where
  "path_parts dir p =
     (if starts_with [slash] p then resolve_parts [] (split_on slash p) else resolve_parts dir (split_on slash p))"

definition path_resolve :: "string list \<Rightarrow> string \<Rightarrow> string" where
  "path_resolve dir p = abs_path (path_parts dir p)"

text \<open>\<open>path.extname(p) !== ""\<close>: a dot in the last part, after its first character.\<close>

definition last_part :: "string \<Rightarrow> string" where
  "last_part p = (case filter (\<lambda>x. x \<noteq> []) (split_on slash p) of [] \<Rightarrow> [] | ps \<Rightarrow> last ps)"

definition has_extension :: "string \<Rightarrow> bool" where
  "has_extension p \<longleftrightarrow>
     (case last_index_of ''.'' (last_part p) of None \<Rightarrow> False | Some i \<Rightarrow> 0 < i \<and> last_part p \<noteq> ''..'')"

section \<open>The web app's files\<close>

record web_request =
  wr_method :: string
  wr_pathname :: string

datatype web_body = NoBody | FileBody string | TextBody string

record web_response =
  wp_status :: nat
  wp_contentType :: "string option"
  wp_cacheControl :: "string option"
  wp_body :: web_body

definition HUB_API_PREFIXES :: "string list" where
  "HUB_API_PREFIXES = [''/api/'', ''/status'', ''/openapi.json'']"

definition isStaticWebRequest :: "web_request \<Rightarrow> bool" where
  "isStaticWebRequest r \<longleftrightarrow>
     (wr_method r = ''GET'' \<or> wr_method r = ''HEAD'') \<and> wr_pathname r \<noteq> ''/api'' \<and>
     \<not> list_ex (\<lambda>p. starts_with p (wr_pathname r)) HUB_API_PREFIXES"

definition resolveAssetPath :: "(string \<Rightarrow> string option) \<Rightarrow> string list \<Rightarrow> string \<Rightarrow> string option" where
  "resolveAssetPath decode root pathname =
     (case decode pathname of
        None \<Rightarrow> None
      | Some decoded \<Rightarrow>
          if CHR 0x00 \<in> set decoded then None
          else let candidate = path_resolve root (CHR ''.'' # decoded); index = path_resolve root ''index.html'' in
            if candidate = abs_path root \<or> candidate = index then Some index
            else if starts_with (abs_path root @ [slash]) candidate then Some candidate else None)"

text \<open>\<open>files\<close>: the MIME type of the file at a path, or \<open>None\<close> when there is none.\<close>

definition file_or_empty :: "web_request \<Rightarrow> string \<Rightarrow> web_body" where
  "file_or_empty r p = (if wr_method r = ''HEAD'' then NoBody else FileBody p)"

definition index_response :: "string list \<Rightarrow> web_request \<Rightarrow> web_response" where
  "index_response root r =
     \<lparr>wp_status = 200, wp_contentType = Some ''text/html; charset=utf-8'', wp_cacheControl = Some ''no-cache'',
      wp_body = file_or_empty r (path_resolve root ''index.html'')\<rparr>"

definition serveStaticWeb ::
  "(string \<Rightarrow> string option) \<Rightarrow> (string \<Rightarrow> string option) \<Rightarrow> string list \<Rightarrow> web_request \<Rightarrow> web_response" where
  "serveStaticWeb decode files root r =
     (case resolveAssetPath decode root (wr_pathname r) of
        None \<Rightarrow> index_response root r
      | Some candidate \<Rightarrow>
          if candidate = path_resolve root ''index.html'' then index_response root r
          else (case files candidate of
                  Some mime \<Rightarrow>
                    \<lparr>wp_status = 200, wp_contentType = (if mime = [] then None else Some mime),
                     wp_cacheControl = Some (if starts_with ''/assets/'' (wr_pathname r)
                       then ''public, max-age=31536000, immutable'' else ''public, max-age=0, must-revalidate''),
                     wp_body = file_or_empty r candidate\<rparr>
                | None \<Rightarrow>
                    if has_extension (wr_pathname r)
                    then \<lparr>wp_status = 404, wp_contentType = Some ''text/plain; charset=utf-8'', wp_cacheControl = None,
                          wp_body = TextBody ''Not Found''\<rparr>
                    else index_response root r))"

text \<open>\<open>createStaticWebHandler\<close> throws when the directory has no \<open>index.html\<close>.\<close>

definition createStaticWebHandler ::
  "(string \<Rightarrow> string option) \<Rightarrow> (string \<Rightarrow> string option) \<Rightarrow> string list \<Rightarrow> string \<Rightarrow> string + (web_request \<Rightarrow> web_response)" where
  "createStaticWebHandler decode files cwd distDir =
     (let root = path_parts cwd distDir in
      if files (path_resolve root ''index.html'') = None then Inl (''WEB_DIST_DIR has no index.html: '' @ abs_path root)
      else Inr (serveStaticWeb decode files root))"

definition withStaticWeb ::
  "(string \<Rightarrow> string option) \<Rightarrow> (string \<Rightarrow> string option) \<Rightarrow> string list \<Rightarrow> string option \<Rightarrow> (web_request \<Rightarrow> web_response)
     \<Rightarrow> string + (web_request \<Rightarrow> web_response)" where
  "withStaticWeb decode files cwd distDir next =
     (case map_option trim distDir of
        None \<Rightarrow> Inr next
      | Some d \<Rightarrow>
          if d = [] then Inr next
          else (case createStaticWebHandler decode files cwd d of
                  Inl e \<Rightarrow> Inl e
                | Inr serve \<Rightarrow> Inr (\<lambda>r. if isStaticWebRequest r then serve r else next r)))"

subsection \<open>The database variables\<close>

record parsed_url =
  pu_hostname :: string
  pu_port :: string
  pu_username :: string
  pu_password :: string
  pu_pathname :: string

type_synonym env_vars = "(string \<times> string) list"

text \<open>\<open>env[k] ??= v\<close>.\<close>

definition set_default :: "string \<Rightarrow> string \<Rightarrow> env_vars \<Rightarrow> env_vars" where
  "set_default k v env = (if map_of env k = None then AList.update k v env else env)"

text \<open>\<open>parse_url\<close> is \<open>new URL\<close>; a part of the user info that does not decode makes the call throw.\<close>

definition populateDbEnvFromDatabaseUrl ::
  "(string \<Rightarrow> parsed_url option) \<Rightarrow> (string \<Rightarrow> string option) \<Rightarrow> env_vars \<Rightarrow> bool \<times> env_vars" where
  "populateDbEnvFromDatabaseUrl parse_url decode env =
     (case map_of env ''DATABASE_URL'' of
        None \<Rightarrow> (True, env)
      | Some raw \<Rightarrow>
          if trim raw = [] then (True, env)
          else (case parse_url raw of
                  None \<Rightarrow> (False, env)
                | Some u \<Rightarrow>
                    let env1 = set_default ''DB_PORT'' (if pu_port u = [] then ''5432'' else pu_port u)
                                 (set_default ''DB_HOST'' (pu_hostname u) env);
                        part = (\<lambda>k v (ok, e). if \<not> ok \<or> v = [] \<or> map_of e k \<noteq> None then (ok, e)
                                  else (case decode v of None \<Rightarrow> (False, e) | Some d \<Rightarrow> (True, AList.update k d e)));
                        (ok, env2) = part ''DB_PASSWORD'' (pu_password u) (part ''DB_USER'' (pu_username u) (True, env1));
                        name = (if starts_with [slash] (pu_pathname u) then tl (pu_pathname u) else pu_pathname u)
                    in if ok \<and> name \<noteq> [] then (True, set_default ''DB_NAME'' name env2) else (ok, env2)))"

section \<open>Mail to runs\<close>

record outgoing_message =
  om_from :: string
  om_to :: "string list"
  om_raw :: string

record trigger_response =
  tr_status :: nat
  tr_text :: "string option"

text \<open>What a delivery does outside: a request to the trigger route of a run, mail persisted for others.\<close>

datatype delivery_event =
    Triggered string string nat
  | Persisted string "string list" string

datatype delivery_error =
    NoRequest
  | RunTerminal string
  | TriggerFailed string nat string
  | PersistFailed

text \<open>The text after the header section, with the white space at its end gone.\<close>

definition crlf2 :: string where "crlf2 = [CHR 0x0D, CHR 0x0A, CHR 0x0D, CHR 0x0A]"

definition frameBody :: "string \<Rightarrow> string" where
  "frameBody text = (case index_of crlf2 text of None \<Rightarrow> [] | Some i \<Rightarrow> trim_end (drop (i + 4) text))"

definition isTerminalRun :: "(string \<Rightarrow> json option) \<Rightarrow> nat \<Rightarrow> string \<Rightarrow> bool" where
  "isTerminalRun parse_json status detail \<longleftrightarrow>
     status = 409 \<and> Option.bind (Option.bind (parse_json detail) (field ''error'')) (str_field ''code'') = Some ''workflow_run_terminal''"

text \<open>The hub as the delivery uses it: the answer of the trigger route to a path and a content, which may depend on
  what the delivery did before, and whether the mail store takes a message; \<open>parseRunAddress\<close> is the vendored
  parser. The headers of a trigger request are the caller's own cookie and authorization and are left out.\<close>

record delivery_env =
  de_parseRunAddress :: "string \<Rightarrow> string option"
  de_trigger :: "delivery_event list \<Rightarrow> string \<Rightarrow> string \<Rightarrow> trigger_response"
  de_persist_ok :: bool
  de_parse_json :: "string \<Rightarrow> json option"

definition trigger_path :: "string \<Rightarrow> string \<Rightarrow> string" where
  "trigger_path tid runId = ''/api/tenants/'' @ encodeURIComponent tid @ ''/workflows/'' @ encodeURIComponent runId @ ''/mail''"

fun trigger_runs ::
  "delivery_env \<Rightarrow> string \<Rightarrow> string \<Rightarrow> string list \<Rightarrow> delivery_event list \<Rightarrow> (delivery_error + unit) \<times> delivery_event list" where
  "trigger_runs env tid content [] ev = (Inr (), ev)"
| "trigger_runs env tid content (r # rs) ev =
     (let answer = de_trigger env ev (trigger_path tid r) content;
          ev' = ev @ [Triggered r content (tr_status answer)] in
      if 200 \<le> tr_status answer \<and> tr_status answer \<le> 299 then trigger_runs env tid content rs ev'
      else let detail = (case tr_text answer of None \<Rightarrow> [] | Some t \<Rightarrow> t) in
           (Inl (if isTerminalRun (de_parse_json env) (tr_status answer) detail then RunTerminal r
                 else TriggerFailed r (tr_status answer) detail), ev'))"

text \<open>\<open>request\<close> is the tenant of the mailbox request the delivery runs in, if it runs in one.\<close>

definition deliver ::
  "delivery_env \<Rightarrow> string option \<Rightarrow> outgoing_message \<Rightarrow> (delivery_error + unit) \<times> delivery_event list" where
  "deliver env request m =
     (let runs = List.map_filter (de_parseRunAddress env) (om_to m);
          others = filter (\<lambda>a. de_parseRunAddress env a = None) (om_to m);
          triggered = (if runs = [] then (Inr (), [])
                       else (case request of
                               None \<Rightarrow> (Inl NoRequest, [])
                             | Some tid \<Rightarrow> trigger_runs env tid (frameBody (om_raw m)) runs []))
      in case triggered of
           (Inl e, ev) \<Rightarrow> (Inl e, ev)
         | (Inr _, ev) \<Rightarrow>
             if others = [] then (Inr (), ev)
             else if de_persist_ok env then (Inr (), ev @ [Persisted (om_from m) others (om_raw m)])
             else (Inl PersistFailed, ev @ [Persisted (om_from m) others (om_raw m)]))"

section \<open>Who a token speaks for\<close>

record sidecar_row =
  si_sidecarId :: string
  si_retired :: bool

record identity =
  id_allocated :: bool
  id_tenantId :: string
  id_anchorRunId :: string

record run_row =
  rr_id :: string
  rr_tenantId :: string
  rr_principalId :: "string option"
  rr_anchorRunId :: string

definition authenticate ::
  "(string \<Rightarrow> sidecar_row option) \<Rightarrow> (string \<Rightarrow> identity list) \<Rightarrow> (string \<Rightarrow> run_row option)
     \<Rightarrow> string \<Rightarrow> string \<Rightarrow> (string \<times> string \<times> string) option" where
  "authenticate resolve bindings run_at token address =
     (if token = [] \<or> address = [] then None
      else (case resolve token of
              None \<Rightarrow> None
            | Some s \<Rightarrow>
                if si_retired s then None
                else (case run_at address of
                        None \<Rightarrow> None
                      | Some r \<Rightarrow>
                          (case rr_principalId r of
                             None \<Rightarrow> None
                           | Some p \<Rightarrow>
                               if list_ex (\<lambda>i. id_allocated i \<and> id_tenantId i = rr_tenantId r \<and> id_anchorRunId i = rr_anchorRunId r)
                                    (bindings (si_sidecarId s))
                               then Some (rr_tenantId r, p, rr_id r) else None))))"

section \<open>What the paths are\<close>

text \<open>A part of a path that names a file or directory.\<close>

definition plain_part :: "string \<Rightarrow> bool" where
  "plain_part p \<longleftrightarrow> p \<noteq> [] \<and> p \<noteq> ''.'' \<and> p \<noteq> ''..'' \<and> slash \<notin> set p"

lemma resolve_parts_plain:
  "list_all plain_part acc \<Longrightarrow> \<forall>p \<in> set ps. slash \<notin> set p \<Longrightarrow> list_all plain_part (resolve_parts acc ps)"
proof (induction ps arbitrary: acc)
  case Nil
  then show ?case by simp
next
  case (Cons p ps)
  have "list_all plain_part (butlast acc)" using Cons.prems(1) by (auto simp: list_all_iff dest: in_set_butlastD)
  moreover have "plain_part p" if "p \<noteq> []" "p \<noteq> ''.''" "p \<noteq> ''..''" using that Cons.prems(2) by (simp add: plain_part_def)
  ultimately show ?case using Cons by simp
qed

lemma path_parts_plain: "list_all plain_part dir \<Longrightarrow> list_all plain_part (path_parts dir p)"
  using split_on_parts [of _ slash p] by (auto simp: path_parts_def intro!: resolve_parts_plain)

lemma split_on_join_plain: "list_all plain_part ps \<Longrightarrow> ps \<noteq> [] \<Longrightarrow> split_on slash (join [slash] ps) = ps"
  by (rule split_on_join) (auto simp: list_all_iff plain_part_def)

lemma below_root:
  assumes root: "list_all plain_part root" and ps: "list_all plain_part ps"
    and below: "starts_with (abs_path root @ [slash]) (abs_path ps)"
  obtains rel where "ps = root @ rel" and "rel \<noteq> []"
proof -
  from below obtain t where t: "join [slash] ps = join [slash] root @ slash # t"
    by (auto simp: abs_path_def starts_with_iff)
  then have "ps \<noteq> []" by (cases ps) auto
  with ps t have split: "ps = split_on slash (join [slash] root) @ split_on slash t"
    using split_on_join_plain [of ps] by (simp add: split_on_sep)
  show thesis
  proof (cases "root = []")
    case True
    with split have "[] \<in> set ps" by simp
    with ps show thesis by (auto simp: list_all_iff plain_part_def)
  next
    case False
    with root split have "ps = root @ split_on slash t" by (simp add: split_on_join_plain)
    then show thesis by (rule that) simp
  qed
qed

lemma resolveAssetPath_inside:
  assumes root: "list_all plain_part root" and r: "resolveAssetPath decode root pathname = Some p"
  obtains rel where "rel \<noteq> []" and "list_all plain_part rel" and "p = abs_path (root @ rel)"
proof -
  have index: "path_resolve root ''index.html'' = abs_path (root @ [''index.html''])"
    by (simp add: path_resolve_def path_parts_def slash_def starts_with_def)
  from r obtain decoded where d: "p = path_resolve root ''index.html'' \<or>
      p = path_resolve root (CHR ''.'' # decoded) \<and> starts_with (abs_path root @ [slash]) p"
    by (auto simp: resolveAssetPath_def Let_def split: option.splits if_splits)
  from d show thesis
  proof
    assume "p = path_resolve root ''index.html''"
    then show thesis using that [of "[''index.html'']"] by (simp add: index plain_part_def slash_def)
  next
    assume p: "p = path_resolve root (CHR ''.'' # decoded) \<and> starts_with (abs_path root @ [slash]) p"
    have plain: "list_all plain_part (path_parts root (CHR ''.'' # decoded))" using root by (rule path_parts_plain)
    from p obtain rel where "path_parts root (CHR ''.'' # decoded) = root @ rel" "rel \<noteq> []"
      unfolding path_resolve_def by (metis below_root [OF root plain])
    with that p plain show thesis by (simp add: path_resolve_def)
  qed
qed

lemma serveStaticWeb_file:
  "wp_body (serveStaticWeb decode files root r) = FileBody p \<Longrightarrow>
     p = path_resolve root ''index.html'' \<or> resolveAssetPath decode root (wr_pathname r) = Some p \<and> files p \<noteq> None"
  by (auto simp: serveStaticWeb_def index_response_def file_or_empty_def split: option.splits if_splits)

section \<open>Properties of the files\<close>

text \<open>
  C5. Whatever path a request has and however it decodes, the files the hub answers with are files of the web app:
  every file body is under the configured directory, its path below it has no empty, \<open>.\<close> or \<open>..\<close> part, and
  a request of the API or with another method than \<open>GET\<close> or \<open>HEAD\<close> goes on to the API.
\<close>

theorem served_files_inside:
  assumes "withStaticWeb decode files cwd (Some dist) next = Inr serve" and "trim dist \<noteq> []" and "list_all plain_part cwd"
  shows "if isStaticWebRequest r
    then (case wp_body (serve r) of
            FileBody p \<Rightarrow> \<exists>rel. rel \<noteq> [] \<and> list_all plain_part rel \<and> p = abs_path (path_parts cwd (trim dist) @ rel) \<and> files p \<noteq> None
          | _ \<Rightarrow> True)
    else serve r = next r"
proof -
  define root where "root = path_parts cwd (trim dist)"
  have plain: "list_all plain_part root" unfolding root_def using assms(3) by (rule path_parts_plain)
  from assms(1,2) have index: "files (path_resolve root ''index.html'') \<noteq> None"
    and serve: "serve = (\<lambda>r. if isStaticWebRequest r then serveStaticWeb decode files root r else next r)"
    by (auto simp: withStaticWeb_def createStaticWebHandler_def root_def Let_def split: if_splits)
  have inside: "\<exists>rel. rel \<noteq> [] \<and> list_all plain_part rel \<and> p = abs_path (root @ rel) \<and> files p \<noteq> None"
    if "wp_body (serveStaticWeb decode files root r) = FileBody p" for p
    using serveStaticWeb_file [OF that]
  proof
    assume p: "p = path_resolve root ''index.html''"
    have "path_resolve root ''index.html'' = abs_path (root @ [''index.html''])"
      by (simp add: path_resolve_def path_parts_def slash_def starts_with_def)
    with p index show ?thesis by (intro exI [of _ "[''index.html'']"]) (simp add: plain_part_def slash_def)
  next
    assume "resolveAssetPath decode root (wr_pathname r) = Some p \<and> files p \<noteq> None"
    then show ?thesis by (blast elim: resolveAssetPath_inside [OF plain])
  qed
  then show ?thesis by (auto simp: serve root_def split: web_body.splits)
qed

text \<open>A directory with two files beside a key; the first path asks for the key in an escaped way.\<close>

definition demo_files :: "string \<Rightarrow> string option" where
  "demo_files p = (if p \<in> {''/w/index.html'', ''/w/a.js'', ''/key''} then Some [] else None)"

lemma demo_serve:
  "withStaticWeb decodeURIComponent demo_files [] (Some ''/w'') (\<lambda>_. \<lparr>wp_status = 204, wp_contentType = None, wp_cacheControl = None, wp_body = NoBody\<rparr>)
   = Inr (\<lambda>r. if isStaticWebRequest r then serveStaticWeb decodeURIComponent demo_files [''w''] r
       else \<lparr>wp_status = 204, wp_contentType = None, wp_cacheControl = None, wp_body = NoBody\<rparr>)"
proof -
  have "path_parts [] ''/w'' = [''w'']" "trim ''/w'' = ''/w''" "demo_files (path_resolve [''w''] ''index.html'') = Some []" by code_simp+
  then show ?thesis by (simp add: withStaticWeb_def createStaticWebHandler_def Let_def)
qed

theorem served_files_inside_witness:
  "wp_body (serveStaticWeb decodeURIComponent demo_files [''w''] \<lparr>wr_method = ''GET'', wr_pathname = ''/a.js''\<rparr>) = FileBody ''/w/a.js'' \<and>
   wp_status (serveStaticWeb decodeURIComponent demo_files [''w''] \<lparr>wr_method = ''GET'', wr_pathname = ''/..%2Fkey''\<rparr>) = 200 \<and>
   wp_body (serveStaticWeb decodeURIComponent demo_files [''w''] \<lparr>wr_method = ''GET'', wr_pathname = ''/..%2Fkey''\<rparr>) = FileBody ''/w/index.html'' \<and>
   (\<exists>rel. rel \<noteq> [] \<and> list_all plain_part rel \<and> ''/w/a.js'' = abs_path ([''w''] @ rel))"
proof -
  have body: "wp_body (serveStaticWeb decodeURIComponent demo_files [''w''] \<lparr>wr_method = ''GET'', wr_pathname = ''/a.js''\<rparr>) = FileBody ''/w/a.js''"
    and static: "isStaticWebRequest \<lparr>wr_method = ''GET'', wr_pathname = ''/a.js''\<rparr>"
    and root: "path_parts [] (trim ''/w'') = [''w'']" and dist: "trim ''/w'' \<noteq> []"
    and key: "wp_status (serveStaticWeb decodeURIComponent demo_files [''w''] \<lparr>wr_method = ''GET'', wr_pathname = ''/..%2Fkey''\<rparr>) = 200"
      "wp_body (serveStaticWeb decodeURIComponent demo_files [''w''] \<lparr>wr_method = ''GET'', wr_pathname = ''/..%2Fkey''\<rparr>) = FileBody ''/w/index.html''"
    by code_simp+
  from served_files_inside [OF demo_serve dist, of "\<lparr>wr_method = ''GET'', wr_pathname = ''/a.js''\<rparr>"] body static root
  show ?thesis using key by auto
qed

section \<open>Properties of a delivery\<close>

definition triggered :: "delivery_event list \<Rightarrow> (string \<times> nat) list" where
  "triggered = List.map_filter (\<lambda>e. case e of Triggered r _ status \<Rightarrow> Some (r, status) | _ \<Rightarrow> None)"

definition persisted :: "delivery_event list \<Rightarrow> string list list" where
  "persisted = List.map_filter (\<lambda>e. case e of Persisted _ others _ \<Rightarrow> Some others | _ \<Rightarrow> None)"

abbreviation accepted :: "nat \<Rightarrow> bool" where
  "accepted status \<equiv> 200 \<le> status \<and> status \<le> 299"

lemma event_lists [simp]:
  "triggered [] = []" "persisted [] = []"
  "triggered (xs @ ys) = triggered xs @ triggered ys" "persisted (xs @ ys) = persisted xs @ persisted ys"
  "triggered (Triggered r c n # xs) = (r, n) # triggered xs" "persisted (Triggered r c n # xs) = persisted xs"
  "triggered (Persisted f others raw # xs) = triggered xs" "persisted (Persisted f others raw # xs) = others # persisted xs"
  by (simp_all add: triggered_def persisted_def List.map_filter_def)

text \<open>The runs that were asked before the first that refused; after it nothing is asked.\<close>

lemma trigger_runs_outcome:
  "trigger_runs env tid content rs ev = (res, ev') \<Longrightarrow>
     \<exists>t. ev' = ev @ t \<and> persisted t = [] \<and> prefix (map fst (triggered t)) rs \<and>
       (case res of
          Inr _ \<Rightarrow> map fst (triggered t) = rs \<and> list_all (accepted \<circ> snd) (triggered t)
        | Inl e \<Rightarrow> triggered t \<noteq> [] \<and> list_all (accepted \<circ> snd) (butlast (triggered t)) \<and>
            \<not> accepted (snd (last (triggered t))) \<and>
            (e = RunTerminal (fst (last (triggered t))) \<and> snd (last (triggered t)) = 409 \<or>
             (\<exists>d. e = TriggerFailed (fst (last (triggered t))) (snd (last (triggered t))) d)))"
proof (induction env tid content rs ev rule: trigger_runs.induct)
  case (1 env tid content ev)
  then show ?case by auto
next
  case (2 env tid content r rs ev)
  define st where "st = tr_status (de_trigger env ev (trigger_path tid r) content)"
  show ?case
  proof (cases "accepted st")
    case True
    with 2(2) have "trigger_runs env tid content rs (ev @ [Triggered r content st]) = (res, ev')"
      by (simp add: st_def Let_def)
    with 2(1) True obtain t where t: "ev' = (ev @ [Triggered r content st]) @ t" "persisted t = []"
        "prefix (map fst (triggered t)) rs"
        "case res of
          Inr _ \<Rightarrow> map fst (triggered t) = rs \<and> list_all (accepted \<circ> snd) (triggered t)
        | Inl e \<Rightarrow> triggered t \<noteq> [] \<and> list_all (accepted \<circ> snd) (butlast (triggered t)) \<and>
            \<not> accepted (snd (last (triggered t))) \<and>
            (e = RunTerminal (fst (last (triggered t))) \<and> snd (last (triggered t)) = 409 \<or>
             (\<exists>d. e = TriggerFailed (fst (last (triggered t))) (snd (last (triggered t))) d))"
      unfolding st_def by blast
    from t True show ?thesis
      by (intro exI [of _ "Triggered r content st # t"]) (auto split: sum.splits)
  next
    case False
    with 2(2) have res: "ev' = ev @ [Triggered r content st]"
        "res = Inl (RunTerminal r) \<and> st = 409 \<or> (\<exists>d. res = Inl (TriggerFailed r st d))"
      by (auto simp: st_def Let_def isTerminalRun_def split: if_splits)
    with False show ?thesis by (intro exI [of _ "[Triggered r content st]"]) auto
  qed
qed

text \<open>
  C23. What a delivery did: the runs among the recipients are asked in order, each at most once and none after
  the first that refused; mail is persisted for the other recipients only when every run took it, and then once;
  a delivery that returns did all of that, and one that fails says which run stopped it, with nothing persisted,
  unless it was the mail store.
\<close>

theorem deliver_outcome:
  assumes "deliver env request m = (res, ev)"
  shows "prefix (map fst (triggered ev)) (List.map_filter (de_parseRunAddress env) (om_to m)) \<and>
    (case res of
       Inr _ \<Rightarrow> map fst (triggered ev) = List.map_filter (de_parseRunAddress env) (om_to m) \<and> list_all (accepted \<circ> snd) (triggered ev) \<and>
         persisted ev = (let others = filter (\<lambda>a. de_parseRunAddress env a = None) (om_to m) in if others = [] then [] else [others])
     | Inl (RunTerminal r) \<Rightarrow> persisted ev = [] \<and> triggered ev \<noteq> [] \<and> last (triggered ev) = (r, 409) \<and> list_all (accepted \<circ> snd) (butlast (triggered ev))
     | Inl (TriggerFailed r n d) \<Rightarrow> persisted ev = [] \<and> triggered ev \<noteq> [] \<and> last (triggered ev) = (r, n) \<and> \<not> accepted n \<and>
         list_all (accepted \<circ> snd) (butlast (triggered ev))
     | Inl NoRequest \<Rightarrow> ev = [] \<and> request = None
     | Inl PersistFailed \<Rightarrow> \<not> de_persist_ok env \<and> map fst (triggered ev) = List.map_filter (de_parseRunAddress env) (om_to m) \<and>
         list_all (accepted \<circ> snd) (triggered ev))"
proof -
  let ?runs = "List.map_filter (de_parseRunAddress env) (om_to m)"
  let ?mail = "Persisted (om_from m) (filter (\<lambda>a. de_parseRunAddress env a = None) (om_to m)) (om_raw m)"
  show ?thesis
  proof (cases "?runs = []")
    case True
    with assms show ?thesis by (auto simp: deliver_def Let_def split: if_splits)
  next
    case runs: False
    show ?thesis
    proof (cases request)
      case None
      with assms runs show ?thesis by (auto simp: deliver_def Let_def)
    next
      case (Some tid)
      obtain r t where tr: "trigger_runs env tid (frameBody (om_raw m)) ?runs [] = (r, t)" by (cases "trigger_runs env tid (frameBody (om_raw m)) ?runs []")
      note out = trigger_runs_outcome [OF tr, simplified]
      show ?thesis
      proof (cases r)
        case (Inl e)
        with assms runs Some tr have "res = Inl e" "ev = t" by (simp_all add: deliver_def)
        with out Inl show ?thesis by (cases "last (triggered t)") auto
      next
        case (Inr u)
        with assms runs Some tr have "(res = Inr () \<or> res = Inl PersistFailed \<and> \<not> de_persist_ok env) \<and>
            ev = (if filter (\<lambda>a. de_parseRunAddress env a = None) (om_to m) = [] then t else t @ [?mail]) \<and>
            (filter (\<lambda>a. de_parseRunAddress env a = None) (om_to m) = [] \<longrightarrow> res = Inr ())"
          by (auto simp: deliver_def Let_def split: if_splits)
        with out Inr show ?thesis by (auto simp: Let_def split: if_splits)
      qed
    qed
  qed
qed

text \<open>Two runs and a mailbox; the second run has finished.\<close>

definition demo_run :: "string \<Rightarrow> string option" where
  "demo_run a = (case a of c # _ \<Rightarrow> if c = CHR ''r'' then Some a else None | [] \<Rightarrow> None)"

definition demo_env :: delivery_env where
  "demo_env = \<lparr>de_parseRunAddress = demo_run,
     de_trigger = (\<lambda>ev p c. if p = trigger_path ''t'' ''r2'' then \<lparr>tr_status = 409, tr_text = Some ''x''\<rparr> else \<lparr>tr_status = 202, tr_text = None\<rparr>),
     de_persist_ok = True,
     de_parse_json = (\<lambda>_. Some (JObj [(''error'', JObj [(''code'', JStr ''workflow_run_terminal'')])]))\<rparr>"

definition demo_message :: outgoing_message where
  "demo_message = \<lparr>om_from = ''u'', om_to = [''r1'', ''m'', ''r2''], om_raw = crlf2 @ ''hi''\<rparr>"

text \<open>A delivery is not undone: the run before the one that has finished got the message, the mailbox did not.\<close>

lemma delivery_not_undone:
  "deliver demo_env (Some ''t'') demo_message
   = (Inl (RunTerminal ''r2''), [Triggered ''r1'' ''hi'' 202, Triggered ''r2'' ''hi'' 409])"
  by code_simp

theorem deliver_outcome_witness:
  "persisted (snd (deliver demo_env (Some ''t'') demo_message)) = [] \<and>
   last (triggered (snd (deliver demo_env (Some ''t'') demo_message))) = (''r2'', 409)"
  using deliver_outcome [OF delivery_not_undone] by (simp add: delivery_not_undone)

section \<open>Whom a token speaks for\<close>

text \<open>
  Also shown. A token and a run address resolve to a tenant and principal only together: the answer is the run at that
  address, the sidecar of the token is not retired, and it has an allocation in the run's own tenant that is
  anchored at the run's anchor, so no token speaks in another tenant.
\<close>

theorem authenticate_scoped:
  "authenticate resolve bindings run_at token address = Some (t, p, r) \<longleftrightarrow>
     token \<noteq> [] \<and> address \<noteq> [] \<and>
     (\<exists>s row i. resolve token = Some s \<and> \<not> si_retired s \<and> run_at address = Some row \<and>
        i \<in> set (bindings (si_sidecarId s)) \<and> id_allocated i \<and> id_tenantId i = t \<and> id_anchorRunId i = rr_anchorRunId row \<and>
        rr_tenantId row = t \<and> rr_principalId row = Some p \<and> rr_id row = r)"
  by (auto simp: authenticate_def list_ex_iff split: option.splits if_splits)

section \<open>The database variables given win\<close>

lemma set_default_keeps: "map_of env k = Some v \<Longrightarrow> map_of (set_default k' v' env) k = Some v"
  by (auto simp: set_default_def update_conv')

lemma populate_keeps:
  assumes "map_of env k = Some v" and "populateDbEnvFromDatabaseUrl parse_url decode env = (ok, env')"
  shows "map_of env' k = Some v"
proof -
  have upd: "map_of (AList.update k' v' e) k = Some v" if "map_of e k = Some v" "map_of e k' = None" for e k' v'
    using that by (auto simp: update_conv')
  show ?thesis using assms
    by (auto simp: populateDbEnvFromDatabaseUrl_def Let_def intro!: set_default_keeps upd split: option.splits if_splits prod.splits)
qed

text \<open>The user and the password of the URL are decoded, the name of the database is not.\<close>

lemma database_name_keeps_escapes:
  "populateDbEnvFromDatabaseUrl
     (\<lambda>_. Some \<lparr>pu_hostname = ''h'', pu_port = [], pu_username = ''a%2Db'', pu_password = [], pu_pathname = ''/a%2Db''\<rparr>)
     decodeURIComponent [(''DATABASE_URL'', ''x'')]
   = (True, [(''DATABASE_URL'', ''x''), (''DB_HOST'', ''h''), (''DB_PORT'', ''5432''), (''DB_USER'', ''a-b''), (''DB_NAME'', ''a%2Db'')])"
  by code_simp

end
