(* ===== verification/Mentions.thy ===== *)
theory Mentions
  imports Js_Regex
begin

text \<open>
  Mentions, \<open>apps/web/src/chat/mentions.ts\<close>: which agents a text addresses by an \<open>@Name\<close>, the mention being
  typed at the caret and what picking a name for it does to the text.
\<close>

section \<open>The operations\<close>

definition word_dash :: "char \<Rightarrow> bool" where "word_dash c \<longleftrightarrow> is_word c \<or> c = CHR ''-''"

text \<open>\<open>(^|[^\w@])@Name(?![\w-])\<close> with the flags \<open>g\<close> and \<open>i\<close>; group 0 is the match.\<close>

definition mention_pattern :: "string \<Rightarrow> rx" where
  "mention_pattern name =
     Grp 0 (seq [Grp 1 (Alt Bos (Cls (\<lambda>c. \<not> is_word c \<and> c \<noteq> CHR ''@''))), ch CHR ''@'', liti name, NotAhead (Cls word_dash)])"

definition blank_mentions :: "string \<Rightarrow> string \<Rightarrow> string" where
  "blank_mentions name text =
     replace_from (mention_pattern name)
       (\<lambda>cs. captured text cs 1 @ replicate (length (captured text cs 0) - length (captured text cs 1)) (CHR '' '')) text 0"

text \<open>The loop over the candidates, the longest name first; a candidate is known by its place in the list.\<close>

fun mention_loop :: "(nat \<times> string) list \<Rightarrow> string \<Rightarrow> nat list \<Rightarrow> nat list" where
  "mention_loop [] remaining found = found"
| "mention_loop ((i, name) # rest) remaining found =
     (if name = [] then mention_loop rest remaining found
      else mention_loop rest (blank_mentions name remaining)
             (if test (mention_pattern name) remaining then i # found else found))"

definition mentionedAgents :: "('a \<Rightarrow> string) \<Rightarrow> string \<Rightarrow> 'a list \<Rightarrow> 'a list" where
  "mentionedAgents name_of text candidates =
     (let byLength = js_sort (\<lambda>(_, a) (_, b). int (length b) - int (length a) \<le> 0) (enumerate 0 (map name_of candidates));
          found = mention_loop byLength text []
      in map snd (filter (\<lambda>(i, _). i \<in> set found) (enumerate 0 candidates)))"

record active_mention =
  mn_start :: nat
  mn_query :: string

text \<open>\<open>(?:^|[^\w@])@([\w-]*)$\<close> on the text before the caret: the name characters at its end, an \<open>@\<close> and what is before it.\<close>

definition activeMention :: "string \<Rightarrow> nat \<Rightarrow> active_mention option" where
  "activeMention text caret =
     (let before = take caret text in
      case exec_from (seq [Alt Bos (Cls (\<lambda>c. \<not> is_word c \<and> c \<noteq> CHR ''@'')), ch CHR ''@'', Grp 1 (Rep 0 word_dash), Eos]) before 0 of
        None \<Rightarrow> None
      | Some (_, _, cs) \<Rightarrow>
          (let query = captured before cs 1 in Some \<lparr>mn_start = caret - length query - 1, mn_query = query\<rparr>))"

definition applyMention :: "string \<Rightarrow> active_mention \<Rightarrow> string \<Rightarrow> nat \<Rightarrow> string \<times> nat" where
  "applyMention text m name caret =
     (let token = CHR ''@'' # name @ '' '' in
      (take (mn_start m) text @ token @ drop caret text, mn_start m + length token))"

definition matchMentionQuery :: "('a \<Rightarrow> string) \<Rightarrow> string \<Rightarrow> 'a list \<Rightarrow> 'a list" where
  "matchMentionQuery name_of query candidates =
     filter (\<lambda>c. starts_with (to_lower query) (to_lower (name_of c))) candidates"

section \<open>Who is mentioned\<close>

lemma mentionedAgents_subset: "set (mentionedAgents name_of text candidates) \<subseteq> set candidates"
proof -
  have "snd ` set (enumerate 0 candidates) = set candidates" by (metis map_snd_enumerate set_map)
  then show ?thesis by (fastforce simp: mentionedAgents_def Let_def)
qed

subsection \<open>What the pattern matches\<close>

abbreviation lead_ok :: "char \<Rightarrow> bool" where
  "lead_ok c \<equiv> \<not> is_word c \<and> c \<noteq> CHR ''@''"

text \<open>The name, in any case, and no more of a name after it.\<close>

definition name_at :: "string \<Rightarrow> nat \<Rightarrow> string \<Rightarrow> bool" where
  "name_at name p text \<longleftrightarrow> p < length text \<and> text ! p = CHR ''@'' \<and>
     starts_with (to_lower name) (to_lower (drop (p + 1) text)) \<and>
     \<not> (p + 1 + length name < length text \<and> word_dash (text ! (p + 1 + length name)))"

definition mention_at :: "string \<Rightarrow> nat \<Rightarrow> string \<Rightarrow> bool" where
  "mention_at name p text \<longleftrightarrow> name_at name p text \<and> (p = 0 \<or> lead_ok (text ! (p - 1)))"

lemma starts_with_Cons: "starts_with (c # p) s \<longleftrightarrow> s \<noteq> [] \<and> hd s = c \<and> starts_with p (tl s)"
  by (cases s) (auto simp: starts_with_def)

lemma to_lower_simps [simp]: "to_lower [] = []" "to_lower (c # s) = lower_char c # to_lower s"
  by (simp_all add: to_lower_def)

lemma liti_ends:
  "match_ends (liti name) s (i, cs) =
     (if starts_with (to_lower name) (to_lower (drop i s)) then [(i + length name, cs)] else [])"
proof (induction name arbitrary: i)
  case Nil
  then show ?case by (simp add: starts_with_def)
next
  case (Cons c name)
  show ?case
  proof (cases "i < length s")
    case True
    then have "drop i s = s ! i # drop (Suc i) s" by (simp add: Cons_nth_drop_Suc)
    with Cons True show ?thesis by (auto simp: chi_def starts_with_Cons)
  next
    case False
    then show ?thesis by (simp add: chi_def starts_with_Cons)
  qed
qed

lemma name_ends:
  "match_ends (seq [ch CHR ''@'', liti name, NotAhead (Cls word_dash)]) s (i, cs) =
     (if name_at name i s then [(i + 1 + length name, cs)] else [])"
  by (simp add: ch_def liti_ends name_at_def)

lemma pattern_ends:
  "match_ends (mention_pattern name) s (k, []) =
     (if k = 0 \<and> name_at name 0 s then [(1 + length name, [(0, 0, 1 + length name), (1, 0, 0)])] else []) @
     (if k < length s \<and> lead_ok (s ! k) \<and> name_at name (k + 1) s
      then [(k + 2 + length name, [(0, k, k + 2 + length name), (1, k, k + 1)])] else [])"
proof -
  define T where "T = seq [ch CHR ''@'', liti name, NotAhead (Cls word_dash)]"
  have "mention_pattern name = Grp 0 (Seq (Grp 1 (Alt Bos (Cls (\<lambda>c. \<not> is_word c \<and> c \<noteq> CHR ''@'')))) T)"
    by (simp add: mention_pattern_def T_def)
  with name_ends [of name s, folded T_def] show ?thesis by auto
qed

lemma pattern_match:
  assumes "match_at (mention_pattern name) s k = Some (j, cs)"
  obtains p where "mention_at name p s" and "k \<le> p" and "p \<le> k + 1" and "j = p + 1 + length name"
    and "captured s cs 1 = slice s k p" and "captured s cs 0 = slice s k j"
proof -
  from assms have "(j, cs) \<in> set (match_ends (mention_pattern name) s (k, []))"
    by (auto simp: match_at_def split: list.splits)
  then consider "k = 0" "name_at name 0 s" "j = 1 + length name" "cs = [(0, 0, 1 + length name), (1, 0, 0)]"
    | "k < length s" "lead_ok (s ! k)" "name_at name (k + 1) s" "j = k + 2 + length name" "cs = [(0, k, k + 2 + length name), (1, k, k + 1)]"
    by (auto simp: pattern_ends split: if_splits)
  then show thesis
  proof cases
    case 1
    then show thesis by (intro that [of 0]) (simp_all add: mention_at_def captured_def)
  next
    case 2
    then show thesis by (intro that [of "k + 1"]) (simp_all add: mention_at_def captured_def)
  qed
qed

lemma mention_found:
  assumes "mention_at name p s"
  shows "test (mention_pattern name) s"
proof -
  define k where "k = (if p = 0 then 0 else p - 1)"
  have "match_ends (mention_pattern name) s (k, []) \<noteq> []"
    using assms by (auto simp: pattern_ends mention_at_def k_def name_at_def)
  then have "match_at (mention_pattern name) s k \<noteq> None" by (auto simp: match_at_def split: list.splits)
  moreover have "k \<in> set [0..<length s + 1]" using assms by (auto simp: mention_at_def name_at_def k_def)
  ultimately have "find (\<lambda>k. match_at (mention_pattern name) s k \<noteq> None) [0..<length s + 1] \<noteq> None"
    by (metis (mono_tags, lifting) find_None_iff)
  then obtain k' where "find (\<lambda>k. match_at (mention_pattern name) s k \<noteq> None) [0..<length s + 1] = Some k'" by blast
  with find_SomeD [OF this] show ?thesis by (auto simp: test_def exec_from_def)
qed

subsection \<open>What blanking leaves\<close>

definition covered :: "string \<Rightarrow> string \<Rightarrow> nat \<Rightarrow> bool" where
  "covered name s q \<longleftrightarrow> (\<exists>a \<le> q. mention_at name a s \<and> q < a + 1 + length name)"

lemma slice_map: "j \<le> length s \<Longrightarrow> slice s i j = map ((!) s) [i..<j]"
  by (rule nth_equalityI) (auto simp: slice_def)

lemma mention_end: "mention_at name p s \<Longrightarrow> p + 1 + length name \<le> length s"
proof -
  assume "mention_at name p s"
  then obtain t where "p < length s" and "to_lower (drop (p + 1) s) = to_lower name @ t"
    by (auto simp: mention_at_def name_at_def starts_with_iff)
  then have "length s - (p + 1) = length name + length t"
    by (metis length_append length_drop length_to_lower)
  with \<open>p < length s\<close> show ?thesis by simp
qed

lemma blank_from:
  assumes "name \<noteq> []" and "i \<le> length s"
  shows "list_all2 (\<lambda>q c. c = s ! q \<or> c = CHR '' '' \<and> covered name s q) [i..<length s]
    (replace_from (mention_pattern name)
       (\<lambda>cs. captured s cs 1 @ replicate (length (captured s cs 0) - length (captured s cs 1)) (CHR '' '')) s i)"
  using assms(2)
proof (induction "length s - i" arbitrary: i rule: less_induct)
  case less
  let ?R = "\<lambda>q c. c = s ! q \<or> c = CHR '' '' \<and> covered name s q"
  let ?g = "\<lambda>cs. captured s cs 1 @ replicate (length (captured s cs 0) - length (captured s cs 1)) (CHR '' '')"
  have same: "list_all2 ?R [a..<b] (slice s a b)" if "b \<le> length s" for a b
    using that by (simp add: slice_map list_all2_map2 list.rel_refl)
  show ?case
  proof (cases "exec_from (mention_pattern name) s i")
    case None
    have "drop i s = slice s i (length s)" by (simp add: slice_def)
    with None same [of "length s" i] show ?thesis by (simp add: replace_from.simps [of _ _ s i])
  next
    case (Some m)
    obtain k j cs where m: "m = (k, j, cs)" by (cases m)
    from exec_from_bounds Some m have k: "i \<le> k" "k \<le> length s" "match_at (mention_pattern name) s k = Some (j, cs)" by blast+
    from pattern_match [OF this(3)] obtain p where p: "mention_at name p s" "k \<le> p" "j = p + 1 + length name"
        "captured s cs 1 = slice s k p" "captured s cs 0 = slice s k j" by metis
    from mention_end [OF p(1)] p(3) have j: "j \<le> length s" by simp
    have unfolded: "replace_from (mention_pattern name) ?g s i
        = slice s i k @ slice s k p @ replicate (j - p) (CHR '' '') @ replace_from (mention_pattern name) ?g s j"
      using Some m k(2) p(2-) j by (simp add: replace_from.simps [of _ _ s i] slice_map)
    have blank: "list_all2 ?R [p..<j] (replicate (j - p) (CHR '' ''))"
    proof -
      have "covered name s q" if "p \<le> q" "q < j" for q using that p(1,3) by (auto simp: covered_def)
      then show ?thesis by (simp add: list_all2_conv_all_nth)
    qed
    have rest: "list_all2 ?R [j..<length s] (replace_from (mention_pattern name) ?g s j)"
      using less.hyps [of j] k(1) p(2,3) j by simp
    have "[i..<length s] = [i..<k] @ [k..<p] @ [p..<j] @ [j..<length s]"
    proof -
      have cut: "[a..<c] = [a..<b] @ [b..<c]" if "a \<le> b" "b \<le> c" for a b c :: nat
        using upt_add_eq_append [of a b "c - b"] that by simp
      have "p \<le> j" using p(3) by simp
      with cut [of i k "length s"] cut [of k p "length s"] cut [of p j "length s"] k p(2) j show ?thesis by simp
    qed
    then show ?thesis unfolding unfolded
      by (simp only:) (intro list_all2_appendI same blank rest; use k(2) p(2) j p(3) in simp)
  qed
qed

lemma blank_spec:
  assumes "name \<noteq> []"
  shows "length (blank_mentions name s) = length s"
    and "q < length s \<Longrightarrow> blank_mentions name s ! q = s ! q \<or> blank_mentions name s ! q = CHR '' '' \<and> covered name s q"
  using blank_from [OF assms, of 0 s] by (auto simp: blank_mentions_def list_all2_conv_all_nth)

text \<open>No at sign inside a name, so one mention is not part of another.\<close>

lemma lower_at [simp]: "lower_char c = CHR ''@'' \<longleftrightarrow> c = CHR ''@''"
  by (cases c) (auto simp: lower_char_code)

lemma no_at_inside:
  assumes m: "mention_at name a s" and "CHR ''@'' \<notin> set name" and "a < q" and "q < a + 1 + length name"
  shows "s ! q \<noteq> CHR ''@''"
proof
  assume at: "s ! q = CHR ''@''"
  define d where "d = q - (a + 1)"
  have d: "q = a + 1 + d" "d < length name" using assms(3,4) by (auto simp: d_def)
  from m obtain t where t: "to_lower (drop (a + 1) s) = to_lower name @ t" by (auto simp: mention_at_def name_at_def starts_with_iff)
  from mention_end [OF m] d have "to_lower (drop (a + 1) s) ! d = lower_char (s ! q)" by (simp add: to_lower_def)
  with t d(2) at have "lower_char (name ! d) = CHR ''@''" by (simp add: nth_append to_lower_def)
  then have "name ! d = CHR ''@''" by simp
  with d(2) assms(2) show False by (metis nth_mem)
qed

lemma mention_survives:
  assumes m: "mention_at name p s" and other: "\<not> mention_at b p s" and "b \<noteq> []"
    and "CHR ''@'' \<notin> set name" and "CHR ''@'' \<notin> set b"
  shows "mention_at name p (blank_mentions b s)"
proof -
  let ?s = "blank_mentions b s"
  note len = blank_spec(1) [OF \<open>b \<noteq> []\<close>, of s]
  note spec = blank_spec(2) [OF \<open>b \<noteq> []\<close>, of _ s]
  note pend = mention_end [OF m]
  have p: "p < length s" "s ! p = CHR ''@''" using m by (auto simp: mention_at_def name_at_def)
  have "\<not> covered b s q" if q: "p \<le> q" "q < p + 1 + length name" for q
  proof
    assume "covered b s q"
    then obtain a where a: "a \<le> q" "mention_at b a s" "q < a + 1 + length b" by (auto simp: covered_def)
    have sa: "s ! a = CHR ''@''" using a(2) by (auto simp: mention_at_def name_at_def)
    consider "a < p" | "a = p" | "p < a" by linarith
    then show False
    proof cases
      case 1
      with no_at_inside [OF a(2) assms(5), of p] a(3) q p show False by simp
    next
      case 2
      with a(2) other show False by simp
    next
      case 3
      with no_at_inside [OF m assms(4), of a] a(1) q sa show False by simp
    qed
  qed
  then have same: "?s ! q = s ! q" if "p \<le> q" "q < p + 1 + length name" for q
    using spec [of q] that pend by auto
  have around: "?s ! q = s ! q \<or> ?s ! q = CHR '' ''" if "q < length s" for q
    using spec [OF that] by blast
  have "take (length name) (drop (p + 1) ?s) = take (length name) (drop (p + 1) s)"
    by (rule nth_equalityI) (use len pend same in auto)
  moreover have "starts_with (to_lower name) (to_lower u) \<longleftrightarrow> to_lower (take (length name) u) = to_lower name" for u
    by (simp add: starts_with_def to_lower_def take_map)
  ultimately have "starts_with (to_lower name) (to_lower (drop (p + 1) ?s))"
    using m by (simp add: mention_at_def name_at_def)
  moreover have "\<not> word_dash (CHR '' '')" "lead_ok (CHR '' '')"
    by (simp_all add: word_dash_def is_word_def is_alnum_def is_digit_def is_ascii_upper_def is_ascii_lower_def in_range_def char_code_def)
  moreover have "p - 1 < length s" using p(1) by simp
  ultimately show ?thesis using m p len same [of p] around [of "p - 1"] around [of "p + 1 + length name"]
    unfolding mention_at_def name_at_def by (metis add_gr_0 less_add_one order_refl trans_less_add1 zero_less_one)
qed

lemma loop_keeps: "set found \<subseteq> set (mention_loop xs s found)"
  by (induction xs s found rule: mention_loop.induct) auto

text \<open>A mention is found whatever the names looked for before it, when these are not shorter and none starts with it.\<close>

lemma loop_finds:
  assumes "mention_at name p s" and "(i, name) \<in> set xs" and "name \<noteq> []" and "CHR ''@'' \<notin> set name"
    and "sorted_wrt (\<lambda>(_, a) (_, b). length b \<le> length a) xs"
    and "\<And>j b. (j, b) \<in> set xs \<Longrightarrow> CHR ''@'' \<notin> set b"
    and "\<And>j b. (j, b) \<in> set xs \<Longrightarrow> j \<noteq> i \<Longrightarrow> \<not> starts_with (to_lower name) (to_lower b)"
    and "\<And>b. (i, b) \<in> set xs \<Longrightarrow> b = name"
  shows "i \<in> set (mention_loop xs s found)"
  using assms
proof (induction xs s found rule: mention_loop.induct)
  case (1 s found)
  then show ?case by simp
next
  case (2 j b rest s found)
  show ?case
  proof (cases "j = i")
    case True
    with 2(10) have "b = name" by simp
    with True mention_found [OF 2(3)] 2(5) loop_keeps [of "i # found" rest "blank_mentions b s"] show ?thesis by auto
  next
    case False
    with 2(4) have i: "(i, name) \<in> set rest" by auto
    with 2(7) have longer: "length name \<le> length b" by auto
    with 2(5) have b: "b \<noteq> []" by auto
    have "\<not> mention_at b p s"
    proof
      assume "mention_at b p s"
      then obtain t where "to_lower (drop (p + 1) s) = to_lower b @ t" by (auto simp: mention_at_def name_at_def starts_with_iff)
      moreover from 2(3) obtain u where "to_lower (drop (p + 1) s) = to_lower name @ u"
        by (auto simp: mention_at_def name_at_def starts_with_iff)
      ultimately have "starts_with (to_lower name) (to_lower b)"
        using longer by (metis append_eq_append_conv_if length_to_lower starts_with_def take_append)
      with 2(9) False show False by auto
    qed
    moreover have "CHR ''@'' \<notin> set b" using 2(8) by (meson list.set_intros(1))
    ultimately have "mention_at name p (blank_mentions b s)" using mention_survives [OF 2(3)] b 2(6) by blast
    have "i \<in> set (mention_loop rest (blank_mentions b s) (if test (mention_pattern b) s then j # found else found))"
    proof (rule 2(2) [OF b \<open>mention_at name p (blank_mentions b s)\<close> i 2(5,6)])
      show "sorted_wrt (\<lambda>(_, a) (_, b). length b \<le> length a) rest" using 2(7) by simp
    qed (use 2(8-10) in \<open>meson list.set_intros(2)\<close>)+
    with b show ?thesis by simp
  qed
qed

lemma mentioned_by_at:
  assumes "mention_at (name_of (cs ! i)) p text" and "i < length cs" and "name_of (cs ! i) \<noteq> []"
    and "\<forall>c \<in> set cs. CHR ''@'' \<notin> set (name_of c)"
    and "\<forall>j < length cs. j \<noteq> i \<longrightarrow> \<not> starts_with (to_lower (name_of (cs ! i))) (to_lower (name_of (cs ! j)))"
  shows "cs ! i \<in> set (mentionedAgents name_of text cs)"
proof -
  let ?le = "\<lambda>(_, a) (_, b). int (length b) - int (length a) \<le> 0"
  let ?xs = "js_sort ?le (enumerate 0 (map name_of cs))"
  have mem: "(j, b) \<in> set ?xs \<longleftrightarrow> j < length cs \<and> b = name_of (cs ! j)" for j b
    by (cases "j < length cs") (auto simp: in_set_enumerate_eq)
  have c: "comparator (?le :: nat \<times> string \<Rightarrow> _ \<Rightarrow> bool)" by unfold_locales auto
  have sorted: "sorted_wrt (\<lambda>(_, a) (_, b). length b \<le> length a) ?xs"
    using comparator.sorted_sort [OF c, of "enumerate 0 (map name_of cs)"] by (rule sorted_wrt_mono_rel [rotated]) auto
  have "i \<in> set (mention_loop ?xs text [])"
    by (rule loop_finds [OF assms(1) _ assms(3) _ sorted]) (use assms(2,4,5) mem in \<open>simp_all del: set_js_sort\<close>)
  with assms(2) show ?thesis by (force simp: mentionedAgents_def Let_def in_set_enumerate_eq image_iff)
qed

section \<open>Picking a name\<close>

lemma activeMention_at:
  assumes "activeMention text caret = Some m" and "caret \<le> length text"
  shows "mn_start m < caret \<and> text ! mn_start m = CHR ''@'' \<and> (mn_start m = 0 \<or> lead_ok (text ! (mn_start m - 1))) \<and>
    mn_query m = slice text (mn_start m + 1) caret \<and> list_all word_dash (mn_query m)"
proof -
  let ?b = "take caret text"
  define T where "T = seq [ch CHR ''@'', Grp 1 (Rep 0 word_dash), Eos]"
  have lb: "length ?b = caret" using assms(2) by simp
  have T: "\<exists>p. i = p \<and> p < caret \<and> text ! p = CHR ''@'' \<and> captured ?b cs 1 = slice ?b (p + 1) caret \<and> list_all word_dash (slice ?b (p + 1) caret)"
    if "(j, cs) \<in> set (match_ends T ?b (i, []))" for i j cs
  proof -
    from that have i: "i < caret" "text ! i = CHR ''@''" "(j, cs) = (caret, [(1, i + 1, caret)])" "run_length word_dash ?b (i + 1) = caret - (i + 1)"
      using run_length_le [of "i + 1" ?b word_dash] lb
      by (auto simp: T_def ch_def Let_def split: if_splits)
    have "length (takeWhile word_dash (drop (i + 1) ?b)) = length (drop (i + 1) ?b)" using i(4) lb by (simp add: run_length_def)
    then have "takeWhile word_dash (drop (i + 1) ?b) = drop (i + 1) ?b" by (metis takeWhile_eq_take take_all order_refl)
    then have "list_all word_dash (drop (i + 1) ?b)" by (metis list_all_iff set_takeWhileD)
    moreover have "slice ?b (i + 1) caret = drop (i + 1) ?b" using lb by (simp add: slice_def)
    ultimately show ?thesis using i by (auto simp: captured_def)
  qed
  from assms(1) obtain k j cs where e: "exec_from (Seq (Alt Bos (Cls (\<lambda>c. \<not> is_word c \<and> c \<noteq> CHR ''@''))) T) ?b 0 = Some (k, j, cs)"
    and m: "m = \<lparr>mn_start = caret - length (captured ?b cs 1) - 1, mn_query = captured ?b cs 1\<rparr>"
    by (auto simp: activeMention_def Let_def T_def split: option.splits)
  from exec_from_bounds [OF e] have "match_at (Seq (Alt Bos (Cls (\<lambda>c. \<not> is_word c \<and> c \<noteq> CHR ''@''))) T) ?b k = Some (j, cs)"
    by blast
  from match_at_mem [OF this] have "k = 0 \<and> (j, cs) \<in> set (match_ends T ?b (0, [])) \<or> k < caret \<and> lead_ok (text ! k) \<and> (j, cs) \<in> set (match_ends T ?b (k + 1, []))"
    using lb by (auto split: if_splits)
  then have "\<exists>p. (p = 0 \<or> lead_ok (text ! (p - 1))) \<and> (j, cs) \<in> set (match_ends T ?b (p, []))"
    by (elim disjE conjE) (blast, metis add_diff_cancel_right')
  then obtain p where "p = 0 \<or> lead_ok (text ! (p - 1))" "(j, cs) \<in> set (match_ends T ?b (p, []))" by blast
  with T [OF this(2)] have p: "p = 0 \<or> lead_ok (text ! (p - 1))" "p < caret" "text ! p = CHR ''@''"
      "captured ?b cs 1 = slice ?b (p + 1) caret" "list_all word_dash (slice ?b (p + 1) caret)" by simp_all
  have "length (slice ?b (p + 1) caret) = caret - (p + 1)" using lb by (simp add: slice_def)
  then have "mn_start m = p" using p(2,4) by (simp add: m)
  moreover have "slice ?b (p + 1) caret = slice text (p + 1) caret"
    using assms(2) by (simp add: slice_def drop_take)
  ultimately show ?thesis using p m by simp
qed


definition demo_names :: "string list" where "demo_names = [''Writer'', ''Ed'']"


end
