(* ===== verification/Workbench_Chat.thy ===== *)
theory Workbench_Chat
  imports Stock_Hub Mentions
begin

text \<open>
  A workbench as the web app sees it, \<open>apps/web/src/chat\<close>: the agents deployed in it
  (\<open>threads-api.ts\<close>, \<open>deployment-liveness.ts\<close>, \<open>redeploy-failures.ts\<close>), its timeline of mail, the
  chain of replies above a turn, the roster at the end of a message
  (\<open>workbench-roster.ts\<close>) and the send itself; with the names of \<open>agent-deploy.ts\<close>, \<open>worker-source.ts\<close>
  and \<open>mail-address.ts\<close>, and \<open>listTopLevelRuns\<close> of \<open>agents-api.ts\<close>.

  Decoding a MIME frame and a date are parameters (\<open>mail_env\<close>): a frame gives its leaf parts with
  their text, or nothing when it cannot be decoded; a date that does not parse is \<open>NaN\<close>, \<open>None\<close>.
\<close>

section \<open>Names\<close>

definition worker_assetName :: string where "worker_assetName = ''worker-deploy-source''"

definition worker_displayName :: string where "worker_displayName = ''New worker''"

definition agentDeploySourceAssetName :: "string \<Rightarrow> string" where
  "agentDeploySourceAssetName slug = ''agent-'' @ slug @ ''-source''"

definition line_end :: "char \<Rightarrow> bool" where
  "line_end c \<longleftrightarrow> c = CHR 0x0A \<or> c = CHR 0x0D"

definition AGENT_DEPLOY_SOURCE_ASSET_NAME :: rx where
  "AGENT_DEPLOY_SOURCE_ASSET_NAME = seq [Bos, lit ''agent-'', Grp 1 (Rep 1 (\<lambda>c. \<not> line_end c)), lit ''-source'', Eos]"

definition isAgentDeploySourceAssetName :: "string \<Rightarrow> bool" where
  "isAgentDeploySourceAssetName s = test AGENT_DEPLOY_SOURCE_ASSET_NAME s"

definition agentSlugFromSourceAssetName :: "string \<Rightarrow> string option" where
  "agentSlugFromSourceAssetName s =
     (case exec_from AGENT_DEPLOY_SOURCE_ASSET_NAME s 0 of
        None \<Rightarrow> None | Some (_, _, cs) \<Rightarrow> Some (captured s cs 1))"

text \<open>\<open>toUpperCase\<close> of one character below 256; the two that leave the model, U+00B5 and U+00FF, stay.\<close>

definition upper_char :: "char \<Rightarrow> string" where
  "upper_char c =
     (if c = CHR 0xDF then ''SS''
      else if is_ascii_lower c \<or> in_range 224 254 c \<and> char_code c \<noteq> 247 then [char_of (char_code c - 32)]
      else [c])"

definition to_upper :: "string \<Rightarrow> string" where
  "to_upper s = concat (map upper_char s)"

definition title_word :: "string \<Rightarrow> string" where
  "title_word w = (case w of [] \<Rightarrow> [] | c # rest \<Rightarrow> upper_char c @ rest)"

definition displayAgentName :: "string \<Rightarrow> string" where
  "displayAgentName name =
     (if name = worker_assetName then worker_displayName
      else (case agentSlugFromSourceAssetName name of
              None \<Rightarrow> name
            | Some slug \<Rightarrow> join '' '' (map title_word (filter (\<lambda>w. w \<noteq> []) (split_on CHR ''-'' slug)))))"

text \<open>\<open>s.split(/\s+/).filter(Boolean)\<close>.\<close>

fun words_of :: "string \<Rightarrow> string \<Rightarrow> string list" where
  "words_of w [] = (if w = [] then [] else [w])"
| "words_of w (c # s) = (if is_space c then (if w = [] then words_of [] s else w # words_of [] s) else words_of (w @ [c]) s)"

definition agentInitials :: "string \<Rightarrow> string" where
  "agentInitials name =
     (let letters = concat (map (take 1) (take 2 (words_of [] (trim name)))) in
      to_upper (if letters = [] then ''?'' else letters))"

definition personMailAddress :: "string \<Rightarrow> string \<Rightarrow> string" where
  "personMailAddress refId domain = to_lower (refId @ ''@'' @ domain)"

definition sameAddress :: "string \<Rightarrow> string \<Rightarrow> bool" where
  "sameAddress a b \<longleftrightarrow> to_lower a = to_lower b"

definition extractAddress :: "string \<Rightarrow> string" where
  "extractAddress raw =
     trim (case exec_from (seq [ch CHR ''<'', Grp 1 (Rep 1 (\<lambda>c. c \<noteq> CHR ''>'')), ch CHR ''>'']) raw 0 of
             None \<Rightarrow> raw | Some (_, _, cs) \<Rightarrow> captured raw cs 1)"

definition authorName :: "string \<Rightarrow> string" where
  "authorName address =
     (let first = hd (split_on CHR ''@'' address);
          local = (case exec_from (seq [Bos, Rep 0 (\<lambda>c. \<not> line_end c), ch CHR ''<'']) first 0 of
                     None \<Rightarrow> first | Some (k, j, _) \<Rightarrow> slice first 0 k @ drop j first)
      in if local \<noteq> [] then local else address)"

section \<open>What becomes of a deployment\<close>

datatype deployment_status = Deployed | Pending | Recovering | Releasing | Released | Failed | DestroyFailed

datatype run_status = RunDeployed | RunRunning | RunUpdating | RunError | RunStopped

datatype liveness = Live | Starting | Stopped

definition DEAD_RUN_STATUSES :: "run_status list" where
  "DEAD_RUN_STATUSES = [RunError, RunStopped]"

definition deploymentLiveness :: "deployment_status \<Rightarrow> run_status option \<Rightarrow> liveness" where
  "deploymentLiveness d r =
     (if (case r of None \<Rightarrow> False | Some s \<Rightarrow> s \<in> set DEAD_RUN_STATUSES) then Stopped
      else if d = Deployed then Live
      else if d = Pending \<or> d = Recovering then Starting
      else Stopped)"

record run_view =
  rv_id :: string
  rv_address :: string
  rv_status :: run_status
  rv_createdAt :: string
  rv_updatedAt :: string
  rv_endedAt :: "string option"

definition QUICK_DEATH_MS :: int where "QUICK_DEATH_MS = 2 * 60 * 1000"

definition diedQuickly :: "(string \<Rightarrow> int option) \<Rightarrow> run_view \<Rightarrow> bool" where
  "diedQuickly parse_date r =
     (case (parse_date (case rv_endedAt r of Some t \<Rightarrow> t | None \<Rightarrow> rv_updatedAt r), parse_date (rv_createdAt r)) of
        (Some e, Some c) \<Rightarrow> e - c < QUICK_DEATH_MS | _ \<Rightarrow> False)"

datatype redeploy_mode = Auto | Manual

record chat_agent =
  ca_id :: string
  ca_name :: string
  ca_assetName :: string
  ca_addresses :: "string list"
  ca_liveAddress :: "string option"
  ca_latest :: liveness
  ca_capped :: bool

definition redeployMode :: "chat_agent \<Rightarrow> redeploy_mode option" where
  "redeployMode a =
     (if ca_liveAddress a \<noteq> None \<or> ca_latest a \<noteq> Stopped then None else Some (if ca_capped a then Manual else Auto))"

definition workerState :: "chat_agent \<Rightarrow> liveness" where
  "workerState a =
     (if ca_liveAddress a \<noteq> None then Live else if redeployMode a = Some Manual then Stopped else Starting)"

definition isDefaultWorker :: "chat_agent \<Rightarrow> bool" where
  "isDefaultWorker a \<longleftrightarrow> ca_assetName a = worker_assetName"

text \<open>The module's two sets: the assets whose redeploy threw, and those a surface is redeploying.\<close>

record redeploys =
  rd_failed :: "string list"
  rd_inFlight :: "string list"

definition markRedeployFailed :: "string \<Rightarrow> redeploys \<Rightarrow> redeploys" where
  "markRedeployFailed a s = s\<lparr>rd_failed := set_add a (rd_failed s)\<rparr>"

definition clearRedeployFailure :: "string \<Rightarrow> redeploys \<Rightarrow> redeploys" where
  "clearRedeployFailure a s = s\<lparr>rd_failed := removeAll a (rd_failed s)\<rparr>"

definition hasRedeployFailed :: "redeploys \<Rightarrow> string \<Rightarrow> bool" where
  "hasRedeployFailed s a \<longleftrightarrow> a \<in> set (rd_failed s)"

definition claimAutoRedeploy :: "string \<Rightarrow> redeploys \<Rightarrow> bool \<times> redeploys" where
  "claimAutoRedeploy a s =
     (if a \<in> set (rd_inFlight s) then (False, s) else (True, s\<lparr>rd_inFlight := set_add a (rd_inFlight s)\<rparr>))"

definition releaseAutoRedeploy :: "string \<Rightarrow> redeploys \<Rightarrow> redeploys" where
  "releaseAutoRedeploy a s = s\<lparr>rd_inFlight := removeAll a (rd_inFlight s)\<rparr>"

section \<open>The agents of a workbench\<close>

record deployment =
  dp_id :: string
  dp_definitionAssetId :: string
  dp_status :: deployment_status

record asset_entry =
  ae_addresses :: "string list"
  ae_liveAddress :: "string option"
  ae_latest :: "liveness option"
  ae_capped :: bool

text \<open>A \<open>Map\<close> made of an array: the last entry of a key wins.\<close>

definition last_of :: "('k \<times> 'v) list \<Rightarrow> 'k \<Rightarrow> 'v option" where
  "last_of xs = map_of (rev xs)"

definition run_of :: "run_view list \<Rightarrow> deployment \<Rightarrow> run_view option" where
  "run_of runs d = last_of (map (\<lambda>r. (rv_id r, r)) runs) (dp_id d)"

definition join_deployment ::
  "(string \<Rightarrow> int option) \<Rightarrow> (string \<Rightarrow> bool) \<Rightarrow> run_view list \<Rightarrow> deployment \<Rightarrow> (string \<times> asset_entry) list \<Rightarrow> (string \<times> asset_entry) list" where
  "join_deployment parse_date failed runs d byAsset =
     (let run = run_of runs d;
          address = (case run of None \<Rightarrow> [] | Some r \<Rightarrow> rv_address r);
          e0 = (case map_of byAsset (dp_definitionAssetId d) of
                  Some e \<Rightarrow> e
                | None \<Rightarrow> \<lparr>ae_addresses = [], ae_liveAddress = None, ae_latest = None, ae_capped = failed (dp_definitionAssetId d)\<rparr>);
          e1 = (if address \<noteq> [] then e0\<lparr>ae_addresses := set_add address (ae_addresses e0)\<rparr> else e0);
          liveness = deploymentLiveness (dp_status d) (map_option rv_status run);
          e2 = (if ae_latest e1 = None
                then e1\<lparr>ae_latest := Some liveness,
                        ae_capped := (if (case run of None \<Rightarrow> liveness = Stopped | Some r \<Rightarrow> diedQuickly parse_date r) then True else ae_capped e1)\<rparr>
                else e1);
          e3 = (if ae_liveAddress e2 = None \<and> liveness = Live \<and> address \<noteq> [] then e2\<lparr>ae_liveAddress := Some address\<rparr> else e2)
      in AList.update (dp_definitionAssetId d) e3 byAsset)"

definition chat_agents ::
  "(string \<Rightarrow> int option) \<Rightarrow> (string \<Rightarrow> bool) \<Rightarrow> deployment list \<Rightarrow> (string \<times> string) list \<Rightarrow> run_view list \<Rightarrow> chat_agent list" where
  "chat_agents parse_date failed deployments assets runs =
     map (\<lambda>(assetId, e).
            let assetName = (case last_of assets assetId of Some n \<Rightarrow> n | None \<Rightarrow> assetId) in
            \<lparr>ca_id = assetId, ca_name = displayAgentName assetName, ca_assetName = assetName, ca_addresses = ae_addresses e,
             ca_liveAddress = ae_liveAddress e, ca_latest = (case ae_latest e of Some l \<Rightarrow> l | None \<Rightarrow> Stopped), ca_capped = ae_capped e\<rparr>)
         (fold (join_deployment parse_date failed runs) deployments [])"

subsection \<open>What one pass computes\<close>

text \<open>The reference: each asset once, in the order of its first deployment, from the list of its own deployments.\<close>

definition address_of :: "run_view list \<Rightarrow> deployment \<Rightarrow> string" where
  "address_of runs d = (case run_of runs d of None \<Rightarrow> [] | Some r \<Rightarrow> rv_address r)"

definition liveness_of :: "run_view list \<Rightarrow> deployment \<Rightarrow> liveness" where
  "liveness_of runs d = deploymentLiveness (dp_status d) (map_option rv_status (run_of runs d))"

definition short_lived :: "(string \<Rightarrow> int option) \<Rightarrow> run_view list \<Rightarrow> deployment \<Rightarrow> bool" where
  "short_lived parse_date runs d =
     (case run_of runs d of None \<Rightarrow> liveness_of runs d = Stopped | Some r \<Rightarrow> diedQuickly parse_date r)"

definition first_seen :: "'a list \<Rightarrow> 'a list" where
  "first_seen xs = fold set_add xs []"

definition addressable :: "run_view list \<Rightarrow> deployment list \<Rightarrow> deployment list" where
  "addressable runs ds = filter (\<lambda>d. liveness_of runs d = Live \<and> address_of runs d \<noteq> []) ds"

definition entry_of ::
  "(string \<Rightarrow> int option) \<Rightarrow> (string \<Rightarrow> bool) \<Rightarrow> run_view list \<Rightarrow> string \<Rightarrow> deployment list \<Rightarrow> asset_entry" where
  "entry_of parse_date failed runs a ds =
     \<lparr>ae_addresses = first_seen (filter (\<lambda>x. x \<noteq> []) (map (address_of runs) ds)),
      ae_liveAddress = (case addressable runs ds of [] \<Rightarrow> None | d # _ \<Rightarrow> Some (address_of runs d)),
      ae_latest = (case ds of [] \<Rightarrow> None | d # _ \<Rightarrow> Some (liveness_of runs d)),
      ae_capped = (failed a \<or> (case ds of [] \<Rightarrow> False | d # _ \<Rightarrow> short_lived parse_date runs d))\<rparr>"

definition of_asset :: "string \<Rightarrow> deployment list \<Rightarrow> deployment list" where
  "of_asset a = filter (\<lambda>d. dp_definitionAssetId d = a)"

lemma set_first_seen [simp]: "set (first_seen xs) = set xs"
  using set_fold_add [of "\<lambda>x. x" xs "[]"] by (simp add: first_seen_def)

lemma distinct_first_seen [simp]: "distinct (first_seen xs)"
  using distinct_fold_add [of "[]" "\<lambda>x. x" xs] by (simp add: first_seen_def)

lemma first_seen_snoc: "first_seen (xs @ [x]) = set_add x (first_seen xs)"
  by (simp add: first_seen_def)

text \<open>One more deployment of an asset changes its entry as the loop's body does.\<close>

lemma entry_of_snoc:
  "entry_of parse_date failed runs a (ds @ [d]) =
     (let e0 = entry_of parse_date failed runs a ds;
          e1 = (if address_of runs d \<noteq> [] then e0\<lparr>ae_addresses := set_add (address_of runs d) (ae_addresses e0)\<rparr> else e0);
          e2 = (if ae_latest e1 = None
                then e1\<lparr>ae_latest := Some (liveness_of runs d), ae_capped := (if short_lived parse_date runs d then True else ae_capped e1)\<rparr>
                else e1)
      in if ae_liveAddress e2 = None \<and> liveness_of runs d = Live \<and> address_of runs d \<noteq> []
         then e2\<lparr>ae_liveAddress := Some (address_of runs d)\<rparr> else e2)"
  by (auto simp: entry_of_def addressable_def first_seen_snoc Let_def split: list.splits)

lemma join_deployment_entry:
  assumes "(case map_of m (dp_definitionAssetId d) of
      Some e \<Rightarrow> e = entry_of parse_date failed runs (dp_definitionAssetId d) ds
    | None \<Rightarrow> ds = [])"
  shows "join_deployment parse_date failed runs d m
    = AList.update (dp_definitionAssetId d) (entry_of parse_date failed runs (dp_definitionAssetId d) (ds @ [d])) m"
proof -
  have start: "(case map_of m (dp_definitionAssetId d) of
      Some e \<Rightarrow> e
    | None \<Rightarrow> \<lparr>ae_addresses = [], ae_liveAddress = None, ae_latest = None, ae_capped = failed (dp_definitionAssetId d)\<rparr>)
    = entry_of parse_date failed runs (dp_definitionAssetId d) ds"
    using assms by (auto simp: entry_of_def addressable_def first_seen_def split: option.splits)
  show ?thesis unfolding join_deployment_def entry_of_snoc start
    by (simp only: address_of_def short_lived_def liveness_of_def Let_def)
qed

lemma map_of_keyed: "map_of (map (\<lambda>k. (k, f k)) ks) a = (if a \<in> set ks then Some (f a) else None)"
  by (induction ks) auto

lemma update_keyed:
  assumes "distinct ks"
  shows "AList.update a v (map (\<lambda>k. (k, f k)) ks) = map (\<lambda>k. (k, if k = a then v else f k)) (set_add a ks)"
proof (cases "a \<in> set ks")
  case True
  with assms have "AList.update a v (map (\<lambda>k. (k, f k)) ks) = map (\<lambda>k. (k, if k = a then v else f k)) ks"
    by (induction ks) auto
  with True show ?thesis by (simp add: set_add_def)
next
  case False
  then have "map (\<lambda>k. (k, if k = a then v else f k)) ks = map (\<lambda>k. (k, f k)) ks" by auto
  with False show ?thesis by (simp add: set_add_def update_new map_of_keyed)
qed

lemma one_pass:
  "fold (join_deployment parse_date failed runs) ds [] =
     map (\<lambda>a. (a, entry_of parse_date failed runs a (of_asset a ds))) (first_seen (map dp_definitionAssetId ds))"
proof (induction ds rule: rev_induct)
  case Nil
  then show ?case by (simp add: first_seen_def)
next
  case (snoc d ds)
  let ?a = "dp_definitionAssetId d"
  let ?m = "map (\<lambda>a. (a, entry_of parse_date failed runs a (of_asset a ds))) (first_seen (map dp_definitionAssetId ds))"
  have "case map_of ?m ?a of Some e \<Rightarrow> e = entry_of parse_date failed runs ?a (of_asset ?a ds) | None \<Rightarrow> of_asset ?a ds = []"
    by (auto simp: map_of_keyed of_asset_def filter_empty_conv image_iff)
  from join_deployment_entry [OF this] snoc
  have "fold (join_deployment parse_date failed runs) (ds @ [d]) []
      = AList.update ?a (entry_of parse_date failed runs ?a (of_asset ?a ds @ [d])) ?m" by simp
  also have "\<dots> = map (\<lambda>k. (k, if k = ?a then entry_of parse_date failed runs ?a (of_asset ?a ds @ [d])
      else entry_of parse_date failed runs k (of_asset k ds))) (set_add ?a (first_seen (map dp_definitionAssetId ds)))"
    by (rule update_keyed) simp
  also have "\<dots> = map (\<lambda>k. (k, entry_of parse_date failed runs k (of_asset k (ds @ [d])))) (first_seen (map dp_definitionAssetId (ds @ [d])))"
    by (auto simp: of_asset_def first_seen_snoc)
  finally show ?case .
qed

text \<open>
  C19. The one pass over the deployments computes, for each asset in the order of its first deployment, what its own
  deployments say: every address it ever ran under, once; the address of its newest live run that has one; the state
  of its newest deployment; and a redeploy is capped when the last one failed or the newest run died at once.
\<close>

theorem chat_agents_reference:
  "chat_agents parse_date failed ds assets runs =
     map (\<lambda>a. let name = (case last_of assets a of Some n \<Rightarrow> n | None \<Rightarrow> a) in
            \<lparr>ca_id = a, ca_name = displayAgentName name, ca_assetName = name,
             ca_addresses = first_seen (filter (\<lambda>x. x \<noteq> []) (map (address_of runs) (of_asset a ds))),
             ca_liveAddress = (case addressable runs (of_asset a ds) of [] \<Rightarrow> None | d # _ \<Rightarrow> Some (address_of runs d)),
             ca_latest = liveness_of runs (hd (of_asset a ds)),
             ca_capped = (failed a \<or> short_lived parse_date runs (hd (of_asset a ds)))\<rparr>)
       (first_seen (map dp_definitionAssetId ds))"
proof -
  have "of_asset a ds \<noteq> []" if "a \<in> set (first_seen (map dp_definitionAssetId ds))" for a
    using that by (auto simp: of_asset_def filter_empty_conv)
  then have "entry_of parse_date failed runs a (of_asset a ds) =
      \<lparr>ae_addresses = first_seen (filter (\<lambda>x. x \<noteq> []) (map (address_of runs) (of_asset a ds))),
       ae_liveAddress = (case addressable runs (of_asset a ds) of [] \<Rightarrow> None | d # _ \<Rightarrow> Some (address_of runs d)),
       ae_latest = Some (liveness_of runs (hd (of_asset a ds))),
       ae_capped = (failed a \<or> short_lived parse_date runs (hd (of_asset a ds)))\<rparr>"
    if "a \<in> set (first_seen (map dp_definitionAssetId ds))" for a
    using that by (cases "of_asset a ds") (fastforce simp: entry_of_def)+
  then show ?thesis unfolding chat_agents_def one_pass map_map
    by (intro map_cong refl) (simp add: Let_def)
qed

section \<open>Reading the agents\<close>

definition parse_deployment_status :: "json \<Rightarrow> deployment_status option" where
  "parse_deployment_status j =
     (case j of
        JStr s \<Rightarrow> map_of [(''deployed'', Deployed), (''pending'', Pending), (''recovering'', Recovering), (''releasing'', Releasing),
          (''released'', Released), (''failed'', Failed), (''destroy_failed'', DestroyFailed)] s
      | _ \<Rightarrow> None)"

definition parse_deployment :: "json \<Rightarrow> deployment option" where
  "parse_deployment j =
     (case (str_field ''id'' j, str_field ''tenantId'' j, str_field ''definitionAssetId'' j,
            Option.bind (field ''status'' j) parse_deployment_status, str_field ''createdAt'' j) of
        (Some i, Some t, Some a, Some st, Some c) \<Rightarrow> Some \<lparr>dp_id = i, dp_definitionAssetId = a, dp_status = st\<rparr>
      | _ \<Rightarrow> None)"

definition parse_run_status :: "json \<Rightarrow> run_status option" where
  "parse_run_status j =
     (case j of
        JStr s \<Rightarrow> map_of [(''deployed'', RunDeployed), (''running'', RunRunning), (''updating'', RunUpdating), (''error'', RunError),
          (''stopped'', RunStopped)] s
      | _ \<Rightarrow> None)"

definition run_optional_ok :: "json \<Rightarrow> bool" where
  "run_optional_ok j \<longleftrightarrow>
     list_all (\<lambda>k. opt_field as_str_or_null k j \<noteq> None) [''publicKey'', ''kernelId'', ''sidecarId'', ''failureCode'', ''failureMessage'']"

definition parse_run :: "json \<Rightarrow> run_view option" where
  "parse_run j =
     (if run_optional_ok j \<and> list_all (\<lambda>k. str_field k j \<noteq> None) [''definitionId'', ''definitionName'', ''tenantId''] then
        (case (str_field ''id'' j, str_field ''address'' j, Option.bind (field ''status'' j) parse_run_status, str_field ''createdAt'' j,
               str_field ''updatedAt'' j, opt_field as_str_or_null ''endedAt'' j) of
           (Some i, Some a, Some st, Some c, Some u, Some e) \<Rightarrow>
             Some \<lparr>rv_id = i, rv_address = a, rv_status = st, rv_createdAt = c, rv_updatedAt = u, rv_endedAt = Option.bind e (\<lambda>x. x)\<rparr>
         | _ \<Rightarrow> None)
      else None)"

definition parse_asset :: "json \<Rightarrow> (string \<times> string) option" where
  "parse_asset j = (case (str_field ''id'' j, str_field ''name'' j) of (Some i, Some n) \<Rightarrow> Some (i, n) | _ \<Rightarrow> None)"

definition deploymentsPath :: "string \<Rightarrow> string" where
  "deploymentsPath t = tenantPath t ''/workflows/deployments''"

definition workflowAssetsPath :: "string \<Rightarrow> string" where
  "workflowAssetsPath t = tenantPath t ''/assets?kind=workflow&inherited=false''"

definition runsPath :: "string \<Rightarrow> string" where
  "runsPath t = ''/api/tenants/'' @ t @ ''/workflows/runs?limit=100''"

definition CAE :: string where "CAE = ''ChatApiError''"

definition getJson :: "'w hub \<Rightarrow> string \<Rightarrow> string \<Rightarrow> (json \<Rightarrow> 'a option) \<Rightarrow> ('w, 'a) client" where
  "getJson hub path summary parse = apiRequest hub (get path) (on_json summary parse) None CAE False"

definition listTopLevelRuns :: "'w hub \<Rightarrow> string \<Rightarrow> ('w, run_view list) client" where
  "listTopLevelRuns hub t =
     bindE (apiRequest hub (get (runsPath t)) (on_json ''InstancesPage'' (parse_page parse_run)) None ''ApiQueryError'' False)
       (\<lambda>(rows, _). returnE rows)"

text \<open>What the browser supplies: frames decoded to leaf parts, dates, and a number that is no integer as text.\<close>

record leaf =
  lf_filename :: "string option"
  lf_contentType :: string
  lf_text :: string

record mail_env =
  me_decodeMail :: "string \<Rightarrow> (bool \<times> leaf list) option"
  me_parse_date :: "string \<Rightarrow> int option"
  me_fraction :: string

definition listChatAgents :: "'w hub \<Rightarrow> mail_env \<Rightarrow> redeploys \<Rightarrow> string \<Rightarrow> ('w, chat_agent list) client" where
  "listChatAgents hub env rd t =
     bindE (bothE (getJson hub (deploymentsPath t) ''DeploymentsSchema'' (array_of parse_deployment))
              (bothE (getJson hub (workflowAssetsPath t) ''WorkflowAssetSchema'' (array_of parse_asset)) (listTopLevelRuns hub t)))
       (\<lambda>(ds, assets, runs). returnE (chat_agents (me_parse_date env) (hasRedeployFailed rd) ds assets runs))"

subsection \<open>Participants\<close>

datatype participant_kind = Person | Agent

record participant =
  pt_id :: string
  pt_kind :: participant_kind
  pt_name :: string
  pt_address :: string
  pt_assetName :: "string option"
  pt_redeploy :: "redeploy_mode option"

record principal_row =
  pr_id :: string
  pr_kind :: string
  pr_refId :: string
  pr_displayName :: string
  pr_status :: string

definition parse_principal_row :: "json \<Rightarrow> principal_row option" where
  "parse_principal_row j =
     (case (str_field ''id'' j, str_field ''kind'' j, str_field ''refId'' j, str_field ''displayName'' j,
            opt_field as_str ''email'' j, str_field ''status'' j) of
        (Some i, Some k, Some r, Some d, Some _, Some s) \<Rightarrow>
          Some \<lparr>pr_id = i, pr_kind = k, pr_refId = r, pr_displayName = d, pr_status = s\<rparr>
      | _ \<Rightarrow> None)"

definition person_of :: "string \<Rightarrow> principal_row \<Rightarrow> participant" where
  "person_of domain p = \<lparr>pt_id = pr_id p, pt_kind = Person, pt_name = pr_displayName p,
     pt_address = personMailAddress (pr_refId p) domain, pt_assetName = None, pt_redeploy = None\<rparr>"

definition agent_of :: "chat_agent \<Rightarrow> participant" where
  "agent_of a = \<lparr>pt_id = ca_id a, pt_kind = Agent, pt_name = ca_name a,
     pt_address = (case ca_liveAddress a of None \<Rightarrow> [] | Some x \<Rightarrow> x), pt_assetName = Some (ca_assetName a), pt_redeploy = redeployMode a\<rparr>"

definition listWorkbenchParticipants :: "'w hub \<Rightarrow> mail_env \<Rightarrow> redeploys \<Rightarrow> string \<Rightarrow> string \<Rightarrow> ('w, participant list) client" where
  "listWorkbenchParticipants hub env rd t domain =
     bindE (bothE (getJson hub (tenantPath t ''/principals?limit=100'') ''PrincipalPage'' (parse_page parse_principal_row))
              (listChatAgents hub env rd t))
       (\<lambda>((rows, _), agents). returnE
          (map (person_of domain) (filter (\<lambda>p. pr_status p \<noteq> ''removed'' \<and> pr_kind p = ''user'') rows) @ map agent_of agents))"

definition agentFromMention :: "string \<Rightarrow> chat_agent list \<Rightarrow> chat_agent option" where
  "agentFromMention text agents =
     (case exec_from (seq [Alt Bos (Cls is_space), ch CHR ''@'', Grp 1 (Rep 1 (\<lambda>c. is_word c \<or> c = CHR ''-''))]) text 0 of
        None \<Rightarrow> None
      | Some (_, _, cs) \<Rightarrow> find (\<lambda>a. filter (\<lambda>c. \<not> is_space c) (to_lower (ca_name a)) = to_lower (captured text cs 1)) agents)"

section \<open>The timeline\<close>

record attachment =
  at_name :: string
  at_contentType :: string
  at_text :: string

datatype author = Me | Other

record wb_message =
  wm_id :: string
  wm_messageId :: string
  wm_author :: author
  wm_authorName :: string
  wm_body :: string
  wm_at :: string
  wm_address :: string
  wm_parentMessageId :: "string option"
  wm_attachments :: "attachment list"

record inbox_row =
  ir_uid :: js_number
  ir_messageId :: string
  ir_from :: string
  ir_date :: string
  ir_inReplyTo :: "string option"
  ir_references :: "string list"
  ir_raw :: string

definition as_num :: "json \<Rightarrow> js_number option" where
  "as_num j = (case j of JNum n \<Rightarrow> Some n | _ \<Rightarrow> None)"

definition parse_inbox_row :: "json \<Rightarrow> inbox_row option" where
  "parse_inbox_row j =
     (case field ''envelope'' j of
        None \<Rightarrow> None
      | Some e \<Rightarrow>
          (case (Option.bind (field ''uid'' j) as_num, str_field ''messageId'' e, str_field ''from'' e, Option.bind (field ''to'' e) (array_of as_str),
                 str_field ''subject'' e, str_field ''date'' e, opt_field as_str ''inReplyTo'' e, Option.bind (field ''references'' e) (array_of as_str),
                 str_field ''raw'' j) of
             (Some u, Some m, Some f, Some _, Some _, Some d, Some i, Some rs, Some raw) \<Rightarrow>
               Some \<lparr>ir_uid = u, ir_messageId = m, ir_from = f, ir_date = d, ir_inReplyTo = i, ir_references = rs, ir_raw = raw\<rparr>
           | _ \<Rightarrow> None))"

definition parse_inbox :: "json \<Rightarrow> inbox_row list option" where
  "parse_inbox j = Option.bind (field ''messages'' j) (array_of parse_inbox_row)"

fun lf_only :: "string \<Rightarrow> string" where
  "lf_only [] = []"
| "lf_only (c # s) = (if c = CHR 0x0D \<and> s \<noteq> [] \<and> hd s = CHR 0x0A then lf_only s else c # lf_only s)"

definition frameParts :: "mail_env \<Rightarrow> string \<Rightarrow> leaf list" where
  "frameParts env raw =
     (case me_decodeMail env raw of
        None \<Rightarrow> []
      | Some (bare, leaves) \<Rightarrow>
          map (\<lambda>l. if bare \<and> lf_contentType l = ''application/octet-stream'' then l\<lparr>lf_contentType := ''text/plain''\<rparr> else l) leaves)"

definition frameBody :: "mail_env \<Rightarrow> string \<Rightarrow> string" where
  "frameBody env raw =
     (case find (\<lambda>l. lf_filename l = None \<and> lf_contentType l = ''text/plain'') (frameParts env raw) of
        None \<Rightarrow> [] | Some l \<Rightarrow> trim (lf_only (lf_text l)))"

definition frameAttachments :: "mail_env \<Rightarrow> string \<Rightarrow> attachment list" where
  "frameAttachments env raw =
     List.map_filter (\<lambda>l. case lf_filename l of None \<Rightarrow> None
        | Some n \<Rightarrow> Some \<lparr>at_name = n, at_contentType = lf_contentType l, at_text = lf_text l\<rparr>) (frameParts env raw)"

datatype folder = INBOX | Sent

definition folder_name :: "folder \<Rightarrow> string" where
  "folder_name f = (case f of INBOX \<Rightarrow> ''INBOX'' | Sent \<Rightarrow> ''Sent'')"

definition mailboxPath :: "string \<Rightarrow> string" where
  "mailboxPath t = tenantPath t ''/mailbox/me/inbox''"

definition turn_of :: "mail_env \<Rightarrow> folder \<Rightarrow> inbox_row \<Rightarrow> wb_message" where
  "turn_of env f r =
     \<lparr>wm_id = folder_name f @ '':'' @ (case ir_uid r of JInt i \<Rightarrow> string_of_int i | JNonInt \<Rightarrow> me_fraction env),
      wm_messageId = ir_messageId r,
      wm_author = (case f of Sent \<Rightarrow> Me | INBOX \<Rightarrow> Other),
      wm_authorName = (case f of Sent \<Rightarrow> ''You'' | INBOX \<Rightarrow> authorName (ir_from r)),
      wm_body = frameBody env (ir_raw r), wm_at = ir_date r, wm_address = extractAddress (ir_from r),
      wm_parentMessageId = (case ir_inReplyTo r of Some i \<Rightarrow> Some i | None \<Rightarrow> if ir_references r = [] then None else Some (last (ir_references r))),
      wm_attachments = frameAttachments env (ir_raw r)\<rparr>"

definition readWorkbenchFolder :: "'w hub \<Rightarrow> mail_env \<Rightarrow> string \<Rightarrow> folder \<Rightarrow> ('w, wb_message list) client" where
  "readWorkbenchFolder hub env t f =
     bindE (getJson hub (mailboxPath t @ ''?folder='' @ folder_name f @ ''&limit=100'') ''InboxPage'' parse_inbox)
       (\<lambda>rows. returnE (map (turn_of env f) rows))"

text \<open>The comparison of two dates; \<open>NaN\<close> counts as 0.\<close>

definition date_le :: "mail_env \<Rightarrow> wb_message \<Rightarrow> wb_message \<Rightarrow> bool" where
  "date_le env a b =
     (case (me_parse_date env (wm_at a), me_parse_date env (wm_at b)) of (Some x, Some y) \<Rightarrow> x - y \<le> 0 | _ \<Rightarrow> True)"

definition merge_turns :: "mail_env \<Rightarrow> wb_message list \<Rightarrow> wb_message list \<Rightarrow> wb_message list" where
  "merge_turns env inbox outbox =
     (let turns = js_sort (date_le env) (inbox @ outbox); known = map wm_messageId turns in
      map (\<lambda>m. m\<lparr>wm_parentMessageId :=
             (case wm_parentMessageId m of Some p \<Rightarrow> if p \<in> set known then Some p else None | None \<Rightarrow> None)\<rparr>) turns)"

definition readWorkbench :: "'w hub \<Rightarrow> mail_env \<Rightarrow> string \<Rightarrow> ('w, wb_message list) client" where
  "readWorkbench hub env t =
     bindE (bothE (readWorkbenchFolder hub env t INBOX) (readWorkbenchFolder hub env t Sent))
       (\<lambda>(inbox, outbox). returnE (merge_turns env inbox outbox))"

definition resolveParticipantName :: "wb_message \<Rightarrow> participant list \<Rightarrow> string" where
  "resolveParticipantName m ps =
     (if wm_author m = Me then wm_authorName m
      else (case find (\<lambda>p. sameAddress (pt_address p) (wm_address m)) ps of Some p \<Rightarrow> pt_name p | None \<Rightarrow> wm_authorName m))"

definition resolveAvatarName :: "wb_message \<Rightarrow> participant list \<Rightarrow> string" where
  "resolveAvatarName m ps =
     (case find (\<lambda>p. sameAddress (pt_address p) (wm_address m)) ps of
        Some p \<Rightarrow> pt_name p | None \<Rightarrow> resolveParticipantName m ps)"

section \<open>The turns above a turn\<close>

definition byMessageId :: "wb_message list \<Rightarrow> string \<Rightarrow> wb_message option" where
  "byMessageId ms = last_of (map (\<lambda>m. (wm_messageId m, m)) ms)"

lemma byMessageId_Some: "byMessageId ms k = Some m \<Longrightarrow> m \<in> set ms \<and> wm_messageId m = k"
  by (auto simp: byMessageId_def last_of_def dest!: map_of_SomeD)

lemma byMessageId_None: "byMessageId ms k = None \<longleftrightarrow> k \<notin> wm_messageId ` set ms"
  by (simp add: byMessageId_def last_of_def map_of_eq_None_iff image_image)

text \<open>The loop: \<open>key\<close> is the id of the turn to look up next, \<open>seen\<close> the ids already in the chain.\<close>

function climb :: "wb_message list \<Rightarrow> string list \<Rightarrow> wb_message list \<Rightarrow> string option \<Rightarrow> wb_message list" where
  "climb ms seen chain key =
     (case Option.bind key (byMessageId ms) of
        None \<Rightarrow> chain
      | Some m \<Rightarrow>
          if wm_messageId m \<in> set seen then chain
          else climb ms (wm_messageId m # seen) (m # chain) (wm_parentMessageId m))"
  by pat_completeness auto
termination
proof (relation "measure (\<lambda>(ms, seen, chain, key). card (wm_messageId ` set ms - set seen))")
  fix ms :: "wb_message list" and seen chain key m
  assume "Option.bind key (byMessageId ms) = Some m" and new: "wm_messageId m \<notin> set seen"
  then have "wm_messageId m \<in> wm_messageId ` set ms" by (cases key) (auto dest: byMessageId_Some)
  with new have "wm_messageId ` set ms - set (wm_messageId m # seen) \<subset> wm_messageId ` set ms - set seen" by auto
  then show "((ms, wm_messageId m # seen, m # chain, wm_parentMessageId m), (ms, seen, chain, key))
      \<in> measure (\<lambda>(ms, seen, chain, key). card (wm_messageId ` set ms - set seen))"
    by (simp add: psubset_card_mono)
qed simp

declare climb.simps [simp del]

definition ancestorChain :: "wb_message list \<Rightarrow> string \<Rightarrow> wb_message list" where
  "ancestorChain ms messageId = climb ms [] [] (Some messageId)"

text \<open>Each turn answers the one before it.\<close>

abbreviation replies :: "wb_message \<Rightarrow> wb_message \<Rightarrow> bool" where
  "replies a b \<equiv> wm_parentMessageId b = Some (wm_messageId a)"

lemma climb_chain:
  assumes "successively replies chain" and "distinct (map wm_messageId chain)" and "set seen = wm_messageId ` set chain"
    and "chain \<noteq> [] \<Longrightarrow> key = wm_parentMessageId (hd chain)" and "set chain \<subseteq> set ms"
  shows "let c = climb ms seen chain key in
    successively replies c \<and> distinct (map wm_messageId c) \<and> set c \<subseteq> set ms \<and> suffix chain c \<and>
    (c \<noteq> [] \<longrightarrow> (case wm_parentMessageId (hd c) of None \<Rightarrow> True | Some p \<Rightarrow> p \<notin> wm_messageId ` set ms \<or> p \<in> wm_messageId ` set c)) \<and>
    (chain = [] \<longrightarrow> (case Option.bind key (byMessageId ms) of None \<Rightarrow> c = [] | Some m \<Rightarrow> c \<noteq> [] \<and> last c = m))"
  using assms
proof (induction ms seen chain key rule: climb.induct)
  case (1 ms seen chain key)
  show ?case
  proof (cases "Option.bind key (byMessageId ms)")
    case None
    then have "climb ms seen chain key = chain" by (simp add: climb.simps)
    moreover have "case key of None \<Rightarrow> True | Some p \<Rightarrow> p \<notin> wm_messageId ` set ms"
      using None by (auto simp: bind_eq_None_conv byMessageId_None split: option.splits)
    ultimately show ?thesis using "1.prems" None by (auto split: option.splits)
  next
    case (Some m)
    then obtain k where k: "key = Some k" and m: "m \<in> set ms" "wm_messageId m = k"
      by (cases key) (auto dest: byMessageId_Some)
    show ?thesis
    proof (cases "wm_messageId m \<in> set seen")
      case True
      with Some have "climb ms seen chain key = chain" by (simp add: climb.simps)
      moreover have "chain \<noteq> []" using True "1.prems"(3) by auto
      moreover have "k \<in> wm_messageId ` set chain" using True m "1.prems"(3) by simp
      ultimately show ?thesis using "1.prems" k by (auto split: option.splits simp del: image_iff intro: rev_image_eqI)
    next
      case False
      with Some have step: "climb ms seen chain key = climb ms (wm_messageId m # seen) (m # chain) (wm_parentMessageId m)"
        by (simp add: climb.simps [of ms seen])
      have "successively replies (m # chain)" using "1.prems"(1,4) k m by (cases chain) auto
      moreover have "distinct (map wm_messageId (m # chain))" using False "1.prems"(2,3) by auto
      moreover have "set (wm_messageId m # seen) = wm_messageId ` set (m # chain)" using "1.prems"(3) by simp
      ultimately have ih: "let c = climb ms (wm_messageId m # seen) (m # chain) (wm_parentMessageId m) in
        successively replies c \<and> distinct (map wm_messageId c) \<and> set c \<subseteq> set ms \<and> suffix (m # chain) c \<and>
        (c \<noteq> [] \<longrightarrow> (case wm_parentMessageId (hd c) of None \<Rightarrow> True | Some p \<Rightarrow> p \<notin> wm_messageId ` set ms \<or> p \<in> wm_messageId ` set c)) \<and>
        (m # chain = [] \<longrightarrow> (case Option.bind (wm_parentMessageId m) (byMessageId ms) of None \<Rightarrow> c = [] | Some m \<Rightarrow> c \<noteq> [] \<and> last c = m))"
        using "1.prems"(5) m(1) by (intro "1.IH" [OF Some False]) auto
      have "last c = m" "c \<noteq> []" if "suffix (m # []) c" for c using that by (auto simp: suffix_def)
      with ih Some show ?thesis unfolding step Let_def by (auto dest: suffix_ConsD)
    qed
  qed
qed

text \<open>
  C30. The chain above a turn always ends, whatever the replies say: it is empty exactly when the turn is unknown,
  otherwise it ends in that turn; every turn answers the one before it, none comes twice, and it goes up as far as
  the known turns do, to one that answers nothing known or closes a circle.
\<close>

theorem ancestorChain_spec:
  "let c = ancestorChain ms messageId in
     (case byMessageId ms messageId of None \<Rightarrow> c = [] | Some m \<Rightarrow> c \<noteq> [] \<and> last c = m) \<and>
     successively replies c \<and> distinct (map wm_messageId c) \<and> set c \<subseteq> set ms \<and>
     (if c = [] then True
      else case wm_parentMessageId (hd c) of
             None \<Rightarrow> True | Some p \<Rightarrow> if p \<in> wm_messageId ` set ms then p \<in> wm_messageId ` set c else True)"
  using climb_chain [of "[]" "[]" "Some messageId" ms]
  by (auto simp: ancestorChain_def Let_def split: option.splits)

section \<open>The timeline keeps every turn\<close>

text \<open>
  Also shown. The main timeline drops nothing: the turns of both folders are all there, each once and unchanged but for its
  parent, which is kept exactly when it names a turn of the timeline; and when every date can be read, they are in
  order of date.
\<close>

theorem timeline_keeps_turns:
  "mset (map (\<lambda>m. m\<lparr>wm_parentMessageId := None\<rparr>) (merge_turns env inbox outbox))
     = mset (map (\<lambda>m. m\<lparr>wm_parentMessageId := None\<rparr>) (inbox @ outbox)) \<and>
   list_all (\<lambda>m. case wm_parentMessageId m of None \<Rightarrow> True | Some p \<Rightarrow> p \<in> wm_messageId ` set (merge_turns env inbox outbox))
     (merge_turns env inbox outbox) \<and>
   (list_all (\<lambda>m. me_parse_date env (wm_at m) \<noteq> None) (inbox @ outbox) \<longrightarrow>
     sorted_wrt (\<lambda>a b. the (me_parse_date env (wm_at a)) \<le> the (me_parse_date env (wm_at b))) (merge_turns env inbox outbox))"
proof (intro conjI impI)
  let ?turns = "js_sort (date_le env) (inbox @ outbox)"
  show "mset (map (\<lambda>m. m\<lparr>wm_parentMessageId := None\<rparr>) (merge_turns env inbox outbox))
     = mset (map (\<lambda>m. m\<lparr>wm_parentMessageId := None\<rparr>) (inbox @ outbox))"
    by (simp add: merge_turns_def Let_def comp_def mset_map del: mset_append) (simp flip: mset_map add: mset_js_sort)
  have "wm_messageId ` set (merge_turns env inbox outbox) = wm_messageId ` set ?turns"
    by (auto simp: merge_turns_def Let_def image_image)
  then show "list_all (\<lambda>m. case wm_parentMessageId m of None \<Rightarrow> True | Some p \<Rightarrow> p \<in> wm_messageId ` set (merge_turns env inbox outbox))
     (merge_turns env inbox outbox)"
    by (auto simp: merge_turns_def Let_def list_all_iff split: option.splits if_splits)
  assume dates: "list_all (\<lambda>m. me_parse_date env (wm_at m) \<noteq> None) (inbox @ outbox)"
  have "sorted_wrt (\<lambda>a b. the (me_parse_date env (wm_at a)) \<le> the (me_parse_date env (wm_at b))) ?turns"
  proof (rule sorted_by_key)
    fix a b assume "a \<in> set (inbox @ outbox)" "b \<in> set (inbox @ outbox)"
    with dates obtain x y where "me_parse_date env (wm_at a) = Some x" "me_parse_date env (wm_at b) = Some y"
      unfolding list_all_iff by blast
    then show "date_le env a b \<longleftrightarrow> the (me_parse_date env (wm_at a)) \<le> the (me_parse_date env (wm_at b))"
      by (simp add: date_le_def)
  qed
  then show "sorted_wrt (\<lambda>a b. the (me_parse_date env (wm_at a)) \<le> the (me_parse_date env (wm_at b))) (merge_turns env inbox outbox)"
    by (simp add: merge_turns_def Let_def sorted_wrt_map)
qed

definition demo_turn :: "string \<Rightarrow> string \<Rightarrow> string option \<Rightarrow> wb_message" where
  "demo_turn i at parent = \<lparr>wm_id = i, wm_messageId = i, wm_author = Me, wm_authorName = ''You'', wm_body = [], wm_at = at,
     wm_address = ''u'', wm_parentMessageId = parent, wm_attachments = []\<rparr>"

definition demo_mail_env :: mail_env where
  "demo_mail_env = \<lparr>me_decodeMail = (\<lambda>_. None), me_parse_date = (\<lambda>s. Some (int (length s))), me_fraction = []\<rparr>"

theorem timeline_keeps_turns_witness:
  "merge_turns demo_mail_env [demo_turn ''b'' ''22'' (Some ''a'')] [demo_turn ''a'' ''1'' (Some ''gone'')]
     = [demo_turn ''a'' ''1'' None, demo_turn ''b'' ''22'' (Some ''a'')] \<and>
   sorted_wrt (\<lambda>a b. the (me_parse_date demo_mail_env (wm_at a)) \<le> the (me_parse_date demo_mail_env (wm_at b)))
     (merge_turns demo_mail_env [demo_turn ''b'' ''22'' (Some ''a'')] [demo_turn ''a'' ''1'' (Some ''gone'')])"
proof (rule conjI)
  show "merge_turns demo_mail_env [demo_turn ''b'' ''22'' (Some ''a'')] [demo_turn ''a'' ''1'' (Some ''gone'')]
     = [demo_turn ''a'' ''1'' None, demo_turn ''b'' ''22'' (Some ''a'')]" by code_simp
  show "sorted_wrt (\<lambda>a b. the (me_parse_date demo_mail_env (wm_at a)) \<le> the (me_parse_date demo_mail_env (wm_at b)))
     (merge_turns demo_mail_env [demo_turn ''b'' ''22'' (Some ''a'')] [demo_turn ''a'' ''1'' (Some ''gone'')])"
    using timeline_keeps_turns [of demo_mail_env "[demo_turn ''b'' ''22'' (Some ''a'')]" "[demo_turn ''a'' ''1'' (Some ''gone'')]"]
    by (simp add: demo_mail_env_def)
qed

section \<open>The roster\<close>

record roster_entry =
  re_name :: string
  re_address :: string
  re_kind :: participant_kind

definition ROSTER_HEADING :: string where "ROSTER_HEADING = ''Participants:''"

definition newline :: char where "newline = CHR 0x0A"

definition roster_line :: "roster_entry \<Rightarrow> string" where
  "roster_line e = re_name e @ '' <'' @ re_address e @ ''>''"

definition rosterBlock :: "roster_entry list \<Rightarrow> string" where
  "rosterBlock entries = join [newline] (ROSTER_HEADING # map roster_line entries)"

definition quote :: string where "quote = [CHR 0x22]"

definition backtick :: string where "backtick = [CHR 0x60]"

definition ccInstruction :: "roster_entry list \<Rightarrow> string option" where
  "ccInstruction entries =
     (let people = filter (\<lambda>e. re_kind e = Person) entries in
      if people = [] then None
      else Some (''When you mail another participant, pass '' @ backtick @ ''to'' @ backtick @ '' as a list with them and the person, e.g. ''
        @ backtick @ ''to: ['' @ quote @ ''<their address>'' @ quote @ '', ''
        @ join '', '' (map (\<lambda>e. quote @ re_address e @ quote) people)
        @ '']'' @ backtick @ '', never one comma-joined string, and give every mail a short subject.''))"

definition appendRoster :: "string \<Rightarrow> roster_entry list \<Rightarrow> string" where
  "appendRoster body entries =
     (if entries = [] then body
      else join [newline] ([body, [], rosterBlock entries] @ (case ccInstruction entries of None \<Rightarrow> [] | Some i \<Rightarrow> [[], i])))"

definition roster_marker :: string where
  "roster_marker = [newline, newline] @ ROSTER_HEADING @ [newline]"

definition stripRoster :: "string \<Rightarrow> string" where
  "stripRoster body = (case last_index_of roster_marker body of None \<Rightarrow> body | Some i \<Rightarrow> take i body)"

section \<open>Sending\<close>

definition send_accepted :: "json \<Rightarrow> unit option" where
  "send_accepted j =
     (case (str_field ''messageId'' j, Option.bind (field ''uid'' j) as_num) of (Some _, Some _) \<Rightarrow> Some () | _ \<Rightarrow> None)"

definition terminal_body :: "json option \<Rightarrow> bool" where
  "terminal_body b \<longleftrightarrow> Option.bind (Option.bind b (field ''error'')) (str_field ''code'') = Some ''workflow_run_terminal''"

definition live_agents :: "participant list \<Rightarrow> participant list" where
  "live_agents ps = filter (\<lambda>p. pt_kind p = Agent \<and> CHR ''@'' \<in> set (pt_address p)) ps"

definition reachable_people :: "participant list \<Rightarrow> participant list" where
  "reachable_people ps = filter (\<lambda>p. pt_kind p = Person \<and> CHR ''@'' \<in> set (pt_address p)) ps"

definition roster_of :: "participant list \<Rightarrow> roster_entry list" where
  "roster_of ps =
     map (\<lambda>p. \<lparr>re_name = pt_name p, re_address = pt_address p, re_kind = Person\<rparr>) (reachable_people ps) @
     map (\<lambda>p. \<lparr>re_name = pt_name p, re_address = pt_address p, re_kind = Agent\<rparr>) (live_agents ps)"

definition send_recipients :: "string \<Rightarrow> participant list \<Rightarrow> string list" where
  "send_recipients content ps =
     (let live = live_agents ps; mentioned = mentionedAgents pt_name content live in
      map pt_address (if mentioned \<noteq> [] then mentioned else live))"

definition send_request :: "string \<Rightarrow> participant list \<Rightarrow> string \<Rightarrow> string option \<Rightarrow> request" where
  "send_request t ps content inReplyTo =
     post (mailboxPath t @ ''/send'')
       (JObj ([(''to'', JArr (map JStr (send_recipients content ps))), (''subject'', JStr (take 60 content)),
               (''body'', JStr (appendRoster content (roster_of ps)))]
          @ (case inReplyTo of None \<Rightarrow> [] | Some i \<Rightarrow> [(''inReplyTo'', JStr i)])))"

definition sendToWorkbench :: "'w hub \<Rightarrow> string \<Rightarrow> participant list \<Rightarrow> string \<Rightarrow> string option \<Rightarrow> ('w, unit) client" where
  "sendToWorkbench hub t ps content inReplyTo =
     (if live_agents ps = [] then throwE (error_of CAE ''No agent is in this workbench yet, so there is nobody to send to.'' None)
      else bindE (fetch_raw hub (send_request t ps content inReplyTo)) (\<lambda>answer.
        case answer of
          Inl m \<Rightarrow> throwE (error_of CAE m None)
        | Inr r \<Rightarrow>
            if \<not> resp_ok r then
              (if rs_status r = 409 \<and> terminal_body (rs_body r)
               then throwE (error_of CAE ''This agent has finished and can't take new messages.'' (Some 409))
               else throwE (error_of CAE (''The workbench could not be reached ('' @ dec (rs_status r) @ '').'') (Some (rs_status r))))
            else (case on_json ''SendAccepted'' send_accepted (rs_body r) of
                    Inl summary \<Rightarrow> throwE (error_of CAE (''Unexpected send response: '' @ summary) None)
                  | Inr _ \<Rightarrow> returnE ())))"

subsection \<open>The roster comes off again\<close>

definition plain_entry :: "roster_entry \<Rightarrow> bool" where
  "plain_entry e \<longleftrightarrow> newline \<notin> set (re_name e @ re_address e)"

lemma roster_line_plain: "plain_entry e \<Longrightarrow> newline \<notin> set (roster_line e) \<and> roster_line e \<noteq> []"
  by (auto simp: plain_entry_def roster_line_def newline_def)

lemma heading_plain: "newline \<notin> set ROSTER_HEADING"
  by (simp add: newline_def ROSTER_HEADING_def)

lemma instruction_plain:
  assumes "ccInstruction entries = Some i" and "list_all plain_entry entries"
  shows "newline \<notin> set i \<and> i \<noteq> ROSTER_HEADING"
proof -
  define q where "q = join '', '' (map (\<lambda>e. quote @ re_address e @ quote) (filter (\<lambda>e. re_kind e = Person) entries))"
  have "newline \<notin> set q"
    unfolding q_def by (rule join_free) (use assms(2) in \<open>auto simp: list_all_iff plain_entry_def newline_def quote_def\<close>)
  then show ?thesis using assms(1) unfolding ccInstruction_def Let_def q_def [symmetric]
    by (auto simp: newline_def quote_def backtick_def ROSTER_HEADING_def split: if_splits)
qed

text \<open>What follows the body, and its lines.\<close>

definition roster_lines :: "roster_entry list \<Rightarrow> string list" where
  "roster_lines entries = map roster_line entries @ (case ccInstruction entries of None \<Rightarrow> [] | Some i \<Rightarrow> [[], i])"

lemma appendRoster_parts:
  assumes "entries \<noteq> []"
  shows "appendRoster body entries = body @ roster_marker @ join [newline] (roster_lines entries)"
  using assms
  by (auto simp: appendRoster_def rosterBlock_def roster_marker_def roster_lines_def join_Cons join_append split: option.splits)

lemma marker_split:
  "split_on newline (u @ roster_marker @ v) = split_on newline u @ [] # ROSTER_HEADING # split_on newline v"
  using split_on_sep [of newline u "newline # ROSTER_HEADING @ newline # v"]
    split_on_append [OF heading_plain, of v] by (simp add: roster_marker_def)

lemma no_later_marker:
  assumes "entries \<noteq> []" and plain: "list_all plain_entry entries"
  shows "last_index_of roster_marker (tl (roster_marker @ join [newline] (roster_lines entries))) = None"
proof -
  let ?t = "newline # ROSTER_HEADING @ newline # join [newline] (roster_lines entries)"
  have nonempty: "roster_lines entries \<noteq> []" using assms(1) by (simp add: roster_lines_def)
  have lines: "newline \<notin> set l" if "l \<in> set (roster_lines entries)" for l
    using that plain instruction_plain [OF _ plain]
    by (auto simp: roster_lines_def list_all_iff roster_line_plain split: option.splits)
  have split: "split_on newline ?t = [] # ROSTER_HEADING # roster_lines entries"
    using split_on_append [OF heading_plain] split_on_join [OF nonempty lines] by simp
  have "\<not> contains roster_marker ?t"
  proof
    assume "contains roster_marker ?t"
    then obtain u v where "?t = u @ roster_marker @ v" by (auto simp: contains_iff)
    then have eq: "[] # ROSTER_HEADING # roster_lines entries = split_on newline u @ [] # ROSTER_HEADING # split_on newline v"
      using split marker_split [of u v] by metis
    then obtain U where U: "split_on newline u = [] # U" by (cases "split_on newline u") auto
    with eq have "ROSTER_HEADING # roster_lines entries = U @ [] # ROSTER_HEADING # split_on newline v" by simp
    moreover have "ROSTER_HEADING \<noteq> []" by (simp add: ROSTER_HEADING_def)
    ultimately obtain U' where "roster_lines entries = U' @ [] # ROSTER_HEADING # split_on newline v"
      by (cases U) auto
    moreover have "[] \<notin> set (map roster_line entries)"
      by (auto simp: roster_line_def)
    ultimately obtain W where W: "(case ccInstruction entries of None \<Rightarrow> [] | Some i \<Rightarrow> [[], i])
        = W @ [] # ROSTER_HEADING # split_on newline v"
      using append_eq_later [of "map roster_line entries" _ U' "[]"] unfolding roster_lines_def by metis
    then obtain i where "ccInstruction entries = Some i" "i = ROSTER_HEADING"
      by (cases "ccInstruction entries"; cases W) (auto simp: Cons_eq_append_conv)
    with instruction_plain [OF _ plain] show False by blast
  qed
  then have "last_index_of roster_marker ?t = None" unfolding last_index_of_None contains_def by blast
  moreover have "tl (roster_marker @ join [newline] (roster_lines entries)) = ?t" by (simp add: roster_marker_def)
  ultimately show ?thesis by metis
qed

lemma strip_append:
  assumes "entries \<noteq> []" and "list_all plain_entry entries"
  shows "stripRoster (appendRoster body entries) = body"
proof -
  have "last_index_of roster_marker (body @ roster_marker @ join [newline] (roster_lines entries)) = Some (length body)"
    by (rule last_index_of_append [OF no_later_marker [OF assms]]) (simp add: roster_marker_def)
  then show ?thesis by (simp add: stripRoster_def appendRoster_parts [OF assms(1)])
qed

text \<open>
  Also shown. The roster a send appends comes off again and leaves exactly the person's own words, even when these contain a
  \<open>Participants:\<close> block themselves, as long as no name or address has a line break.
\<close>

theorem roster_roundtrip:
  assumes "entries \<noteq> []" and "list_all plain_entry entries"
  shows "stripRoster (appendRoster body entries) = body"
  using assms by (rule strip_append)

definition demo_roster :: "roster_entry list" where
  "demo_roster = [\<lparr>re_name = ''Ann'', re_address = ''a@b'', re_kind = Person\<rparr>, \<lparr>re_name = ''W'', re_address = ''w@b'', re_kind = Agent\<rparr>]"

theorem roster_roundtrip_witness:
  "stripRoster (appendRoster (''hi'' @ roster_marker @ ''x'') demo_roster) = ''hi'' @ roster_marker @ ''x'' \<and>
   ccInstruction demo_roster \<noteq> None"
proof (rule conjI)
  have "demo_roster \<noteq> []" "list_all plain_entry demo_roster" by code_simp+
  then show "stripRoster (appendRoster (''hi'' @ roster_marker @ ''x'') demo_roster) = ''hi'' @ roster_marker @ ''x''"
    by (rule roster_roundtrip)
  show "ccInstruction demo_roster \<noteq> None" by code_simp
qed

text \<open>With nobody to list nothing is appended, and then a body with such a block of its own loses it.\<close>

lemma own_block_is_lost: "stripRoster (appendRoster (''hi'' @ roster_marker @ ''x'') []) = ''hi''"
  by code_simp

section \<open>What a send does\<close>

text \<open>
  Also shown. A send is one request, or none when no agent is live: it goes to the mailbox of the workbench, to at least one
  agent and only to agents of the workbench that are live, with the person's words and a roster that comes off
  again, and it succeeds exactly when the hub accepted the mail.
\<close>

theorem send_reaches_live_agents:
  assumes "sendToWorkbench hub t ps content inReplyTo n = (res, n')" and "list_all plain_entry (roster_of ps)"
  shows "if live_agents ps = [] then n' = n \<and> (case res of Inl e \<Rightarrow> status_of e = None | Inr _ \<Rightarrow> False)
    else \<exists>a. sent n' = sent n @ [(send_request t ps content inReplyTo, a)] \<and>
      send_recipients content ps \<noteq> [] \<and> set (send_recipients content ps) \<subseteq> pt_address ` set (live_agents ps) \<and>
      stripRoster (appendRoster content (roster_of ps)) = content \<and>
      (res = Inr () \<longleftrightarrow> (case a of Inl _ \<Rightarrow> False | Inr r \<Rightarrow> resp_ok r \<and> Option.bind (rs_body r) send_accepted \<noteq> None))"
proof (cases "live_agents ps = []")
  case True
  with assms(1) show ?thesis by (auto simp: sendToWorkbench_def throwE_def)
next
  case False
  let ?rq = "send_request t ps content inReplyTo"
  have to: "send_recipients content ps \<noteq> []" "set (send_recipients content ps) \<subseteq> pt_address ` set (live_agents ps)"
    using False mentionedAgents_subset [of pt_name content "live_agents ps"] by (auto simp: send_recipients_def Let_def)
  have roster: "stripRoster (appendRoster content (roster_of ps)) = content"
    using False assms(2) by (intro strip_append) (simp_all add: roster_of_def)
  obtain a w where hub: "hub ?rq (server n) = (a, w)" by (cases "hub ?rq (server n)")
  have sent: "sent n' = sent n @ [(?rq, a)]"
    using assms(1) False hub
    by (auto simp: sendToWorkbench_def fetch_raw_def bindE_def throwE_def returnE_def split: sum.splits if_splits)
  have "res = Inr () \<longleftrightarrow> (case a of Inl _ \<Rightarrow> False | Inr r \<Rightarrow> resp_ok r \<and> Option.bind (rs_body r) send_accepted \<noteq> None)"
    using assms(1) False hub
    by (cases a) (auto simp: sendToWorkbench_def fetch_raw_def bindE_def throwE_def returnE_def on_json_def split: sum.splits if_splits option.splits)
  with to roster sent False show ?thesis by auto
qed

definition demo_participants :: "participant list" where
  "demo_participants =
     [\<lparr>pt_id = ''1'', pt_kind = Person, pt_name = ''Ann'', pt_address = ''a@b'', pt_assetName = None, pt_redeploy = None\<rparr>,
      \<lparr>pt_id = ''2'', pt_kind = Agent, pt_name = ''W'', pt_address = ''w@b'', pt_assetName = Some ''w'', pt_redeploy = None\<rparr>,
      \<lparr>pt_id = ''3'', pt_kind = Agent, pt_name = ''V'', pt_address = ''v@b'', pt_assetName = Some ''v'', pt_redeploy = None\<rparr>]"

definition demo_hub :: "unit hub" where
  "demo_hub rq w = (Inr \<lparr>rs_status = 200, rs_body = Some (JObj [(''messageId'', JStr ''m''), (''uid'', JNum (JInt 1))])\<rparr>, w)"

theorem send_reaches_live_agents_witness:
  "send_recipients ''@v hi'' demo_participants = [''v@b''] \<and>
   length (sent (snd (sendToWorkbench demo_hub ''t'' demo_participants ''@v hi'' None \<lparr>server = (), sent = []\<rparr>))) = 1"
proof (rule conjI)
  show "send_recipients ''@v hi'' demo_participants = [''v@b'']" by code_simp
  have run: "sendToWorkbench demo_hub ''t'' demo_participants ''@v hi'' None \<lparr>server = (), sent = []\<rparr>
      = (fst (sendToWorkbench demo_hub ''t'' demo_participants ''@v hi'' None \<lparr>server = (), sent = []\<rparr>),
         snd (sendToWorkbench demo_hub ''t'' demo_participants ''@v hi'' None \<lparr>server = (), sent = []\<rparr>))" by simp
  have plain: "list_all plain_entry (roster_of demo_participants)" and live: "live_agents demo_participants \<noteq> []" by code_simp+
  from send_reaches_live_agents [OF run plain] live
  show "length (sent (snd (sendToWorkbench demo_hub ''t'' demo_participants ''@v hi'' None \<lparr>server = (), sent = []\<rparr>))) = 1"
    by auto
qed

end
