(* ===== verification/Worker_Status.thy ===== *)
theory Worker_Status
  imports Workbench_Chat
begin

text \<open>
  What a worker is shown to be doing, \<open>apps/web/src/worker-status.ts\<close>, and the words for a run,
  \<open>run-outcome.ts\<close>. A send records a pending turn in the query cache; it ends when a message of the worker that is
  newer than it lands, when an approval is pending, or when the safety timeout has passed. What the cache holds for
  one workbench is a \<open>bench\<close>; what happens to it is a step relation with a clock, so that the end of a turn is a
  statement about runs.

  The text \<open>Working\<close> with an ellipsis, a code point above U+00FF, is written with three dots.
\<close>

section \<open>One worker from its deployment\<close>

datatype tone = WorkingTone | ReadyTone | IdleTone

record status =
  st_tone :: tone
  st_text :: string

definition workerStatus :: "chat_agent \<Rightarrow> status" where
  "workerStatus a =
     (case workerState a of
        Live \<Rightarrow> \<lparr>st_tone = IdleTone, st_text = ''Waiting for mail''\<rparr>
      | Stopped \<Rightarrow> \<lparr>st_tone = ReadyTone, st_text = ''Stopped. Restart it to put it back to work.''\<rparr>
      | Starting \<Rightarrow> \<lparr>st_tone = WorkingTone, st_text = ''Starting up''\<rparr>)"

section \<open>The cache of a workbench\<close>

datatype approval_status = PendingApproval | Approved | Rejected | TimedOut | Expired

record approval_row =
  aw_id :: string
  aw_runId :: string
  aw_agentAddress :: string
  aw_toolDefinition :: "(string \<times> json) list"
  aw_toolArguments :: "(string \<times> json) list"
  aw_status :: approval_status
  aw_createdAt :: string

record bench =
  bn_participants :: "participant list option"
  bn_approvals :: "approval_row list option"
  bn_pending :: "int option"
  bn_timeline :: "wb_message list option"

definition PENDING_TURN_TIMEOUT_MS :: int where "PENDING_TURN_TIMEOUT_MS = 10 * 60 * 1000"

definition markTurnPending :: "int \<Rightarrow> bench \<Rightarrow> bench" where
  "markTurnPending now b = b\<lparr>bn_pending := Some now\<rparr>"

definition markApprovalAnswered :: "int \<Rightarrow> string \<Rightarrow> bench \<Rightarrow> bench" where
  "markApprovalAnswered now approvalId b =
     markTurnPending now (b\<lparr>bn_approvals := map_option (filter (\<lambda>r. aw_id r \<noteq> approvalId)) (bn_approvals b)\<rparr>)"

definition or_empty :: "'a list option \<Rightarrow> 'a list" where
  "or_empty xs = (case xs of None \<Rightarrow> [] | Some ys \<Rightarrow> ys)"

definition turnAnswered :: "mail_env \<Rightarrow> wb_message list option \<Rightarrow> int \<Rightarrow> bool" where
  "turnAnswered env timeline sentAt \<longleftrightarrow>
     list_ex (\<lambda>m. wm_author m = Other \<and> (case me_parse_date env (wm_at m) of None \<Rightarrow> False | Some d \<Rightarrow> sentAt < d)) (or_empty timeline)"

definition parkedOnAsk :: "approval_row list \<Rightarrow> string \<Rightarrow> bool" where
  "parkedOnAsk approvals worker \<longleftrightarrow>
     list_ex (\<lambda>r. aw_status r = PendingApproval \<and> sameAddress (aw_agentAddress r) worker) approvals"

definition turnSettled :: "mail_env \<Rightarrow> int \<Rightarrow> wb_message list option \<Rightarrow> approval_row list \<Rightarrow> string \<Rightarrow> bool" where
  "turnSettled env sentAt timeline approvals worker \<longleftrightarrow> parkedOnAsk approvals worker \<or> turnAnswered env timeline sentAt"

section \<open>The status across workbenches\<close>

definition RANK :: "string \<Rightarrow> nat" where
  "RANK t = (case map_of [(''Needs you'', 3), (''Working'', 2), (''Live'', 1), (''Starting'', 0), (''Stopped'', 0)] t of
     Some n \<Rightarrow> n | None \<Rightarrow> 0)"

definition bench_agent :: "(participant \<Rightarrow> bool) \<Rightarrow> bench \<Rightarrow> participant option" where
  "bench_agent isWorker b = Option.bind (bn_participants b) (find (\<lambda>p. pt_kind p = Agent \<and> isWorker p))"

definition working_turn :: "mail_env \<Rightarrow> int \<Rightarrow> bench \<Rightarrow> bool" where
  "working_turn env now b \<longleftrightarrow>
     (case bn_pending b of
        None \<Rightarrow> False
      | Some sentAt \<Rightarrow> now < sentAt + PENDING_TURN_TIMEOUT_MS \<and> \<not> turnAnswered env (bn_timeline b) sentAt)"

definition bench_offer :: "mail_env \<Rightarrow> int \<Rightarrow> (participant \<Rightarrow> bool) \<Rightarrow> bench \<Rightarrow> status option" where
  "bench_offer env now isWorker b =
     (case bench_agent isWorker b of
        None \<Rightarrow> None
      | Some p \<Rightarrow>
          Some (if pt_address p = []
                then \<lparr>st_tone = IdleTone, st_text = (if pt_redeploy p = Some Manual then ''Stopped'' else ''Starting'')\<rparr>
                else if parkedOnAsk (or_empty (bn_approvals b)) (pt_address p) then \<lparr>st_tone = ReadyTone, st_text = ''Needs you''\<rparr>
                else if working_turn env now b then \<lparr>st_tone = WorkingTone, st_text = ''Working...''\<rparr>
                else \<lparr>st_tone = IdleTone, st_text = ''Live''\<rparr>))"

definition offer :: "status \<Rightarrow> status option \<Rightarrow> status option" where
  "offer s best =
     (case best of None \<Rightarrow> Some s | Some b \<Rightarrow> if RANK (st_text b) < RANK (st_text s) then Some s else Some b)"

definition bench_worker_status :: "mail_env \<Rightarrow> int \<Rightarrow> (participant \<Rightarrow> bool) \<Rightarrow> bench list \<Rightarrow> status" where
  "bench_worker_status env now isWorker benches =
     (case fold offer (List.map_filter (bench_offer env now isWorker) benches) None of
        None \<Rightarrow> \<lparr>st_tone = IdleTone, st_text = ''Live''\<rparr> | Some s \<Rightarrow> s)"

text \<open>The effect that drops the entry of a settled turn.\<close>

definition bench_settled :: "mail_env \<Rightarrow> (participant \<Rightarrow> bool) \<Rightarrow> bench \<Rightarrow> bool" where
  "bench_settled env isWorker b \<longleftrightarrow>
     (case bn_pending b of
        None \<Rightarrow> False
      | Some sentAt \<Rightarrow> turnSettled env sentAt (bn_timeline b) (or_empty (bn_approvals b))
          (case bench_agent isWorker b of None \<Rightarrow> [] | Some p \<Rightarrow> pt_address p))"

definition drop_pending :: "bench \<Rightarrow> bench" where
  "drop_pending b = b\<lparr>bn_pending := None\<rparr>"

text \<open>The status shown has the highest rank of those the workbenches offer, and is the first of that rank.\<close>

lemma fold_offer:
  "fold offer ss (Some s) = Some (fold (\<lambda>x b. if RANK (st_text b) < RANK (st_text x) then x else b) ss s)"
  by (induction ss arbitrary: s) (auto simp: offer_def)

lemma fold_best:
  "let b = fold (\<lambda>x b. if RANK (st_text b) < RANK (st_text x) then x else b) ss s in
     b \<in> set (s # ss) \<and> (\<forall>x \<in> set (s # ss). RANK (st_text x) \<le> RANK (st_text b))"
proof (induction ss arbitrary: s)
  case Nil
  then show ?case by simp
next
  case (Cons x ss)
  show ?case
  proof (cases "RANK (st_text s) < RANK (st_text x)")
    case True
    with Cons [of x] show ?thesis by (auto simp: Let_def)
  next
    case False
    with Cons [of s] show ?thesis by (auto simp: Let_def intro: order_trans)
  qed
qed

lemma status_is_best:
  assumes "List.map_filter (bench_offer env now isWorker) benches = offers" and "offers \<noteq> []"
  shows "bench_worker_status env now isWorker benches \<in> set offers \<and>
    (\<forall>s \<in> set offers. RANK (st_text s) \<le> RANK (st_text (bench_worker_status env now isWorker benches)))"
proof -
  obtain s ss where o: "offers = s # ss" using assms(2) by (cases offers) auto
  then show ?thesis using fold_best [of ss s] assms(1)
    by (simp add: bench_worker_status_def offer_def [of _ None] fold_offer Let_def)
qed

section \<open>What happens to a cache\<close>

text \<open>
  The clock and the cache of a workbench. \<open>Sent\<close> and \<open>Answered\<close> are the person's; the other events are the polls, the
  effects of the hook and the passing of time.
\<close>

datatype event =
    Tick int
  | SentMail
  | Answered string
  | GotParticipants "participant list"
  | GotApprovals "approval_row list"
  | GotTimeline "wb_message list"
  | Settle
  | Timer

type_synonym world = "int \<times> bench"

inductive wstep :: "mail_env \<Rightarrow> (participant \<Rightarrow> bool) \<Rightarrow> event \<Rightarrow> world \<Rightarrow> world \<Rightarrow> bool"
  for env isWorker where
  tick: "0 \<le> d \<Longrightarrow> wstep env isWorker (Tick d) (now, b) (now + d, b)"
| sent: "wstep env isWorker SentMail (now, b) (now, markTurnPending now b)"
| answered: "wstep env isWorker (Answered a) (now, b) (now, markApprovalAnswered now a b)"
| participants: "wstep env isWorker (GotParticipants ps) (now, b) (now, b\<lparr>bn_participants := Some ps\<rparr>)"
| approvals: "wstep env isWorker (GotApprovals rs) (now, b) (now, b\<lparr>bn_approvals := Some rs\<rparr>)"
| timeline: "wstep env isWorker (GotTimeline ms) (now, b) (now, b\<lparr>bn_timeline := Some ms\<rparr>)"
| settle: "bench_settled env isWorker b \<Longrightarrow> wstep env isWorker Settle (now, b) (now, drop_pending b)"
| timer: "bn_pending b = Some sentAt \<Longrightarrow> sentAt + PENDING_TURN_TIMEOUT_MS \<le> now \<Longrightarrow>
    wstep env isWorker Timer (now, b) (now, drop_pending b)"

inductive_cases wstepE: "wstep env isWorker e w w'"

inductive wrun :: "mail_env \<Rightarrow> (participant \<Rightarrow> bool) \<Rightarrow> event list \<Rightarrow> world \<Rightarrow> world \<Rightarrow> bool"
  for env isWorker where
  stop: "wrun env isWorker [] w w"
| more: "wstep env isWorker e w w' \<Longrightarrow> wrun env isWorker es w' w'' \<Longrightarrow> wrun env isWorker (e # es) w w''"

definition empty_bench :: bench where
  "empty_bench = \<lparr>bn_participants = None, bn_approvals = None, bn_pending = None, bn_timeline = None\<rparr>"

definition starts_turn :: "event \<Rightarrow> bool" where
  "starts_turn e \<longleftrightarrow> (case e of SentMail \<Rightarrow> True | Answered _ \<Rightarrow> True | _ \<Rightarrow> False)"

lemma wstep_clock: "wstep env isWorker e (t, b) (t', b') \<Longrightarrow> t \<le> t'"
  by (erule wstepE) auto

text \<open>A pending turn was sent at or before now.\<close>

definition sent_before :: "int \<Rightarrow> bench \<Rightarrow> bool" where
  "sent_before t b \<longleftrightarrow> (case bn_pending b of None \<Rightarrow> True | Some s \<Rightarrow> s \<le> t)"

lemma wstep_sent_before: "wstep env isWorker e (t, b) (t', b') \<Longrightarrow> sent_before t b \<Longrightarrow> sent_before t' b'"
  by (erule wstepE) (auto simp: sent_before_def markTurnPending_def markApprovalAnswered_def drop_pending_def split: option.splits)

lemma wstep_no_new: "wstep env isWorker e (t, b) (t', b') \<Longrightarrow> \<not> starts_turn e \<Longrightarrow> sent_before u b \<Longrightarrow> sent_before u b'"
  by (erule wstepE) (auto simp: sent_before_def starts_turn_def drop_pending_def split: option.splits)

lemma wrun_sent_before: "wrun env isWorker es (t, b) (t', b') \<Longrightarrow> sent_before t b \<Longrightarrow> sent_before t' b'"
proof (induction es "(t, b)" "(t', b')" arbitrary: t b rule: wrun.induct)
  case stop
  then show ?case by simp
next
  case (more e w' es)
  obtain t1 b1 where "w' = (t1, b1)" by (cases w')
  with more wstep_sent_before show ?case by blast
qed

lemma wrun_no_new:
  "wrun env isWorker es (t, b) (t', b') \<Longrightarrow> list_all (Not \<circ> starts_turn) es \<Longrightarrow> sent_before u b \<Longrightarrow> sent_before u b'"
proof (induction es "(t, b)" "(t', b')" arbitrary: t b rule: wrun.induct)
  case stop
  then show ?case by simp
next
  case (more e w' es)
  obtain t1 b1 where w: "w' = (t1, b1)" by (cases w')
  have "sent_before u b1" using wstep_no_new [of env isWorker e t b t1 b1 u] more.hyps(1) more.prems w by simp
  with more w show ?case by simp
qed


definition demo_agent :: participant where
  "demo_agent = \<lparr>pt_id = ''w'', pt_kind = Agent, pt_name = ''W'', pt_address = ''w@b'', pt_assetName = None, pt_redeploy = None\<rparr>"

definition demo_bench :: bench where
  "demo_bench = \<lparr>bn_participants = Some [demo_agent], bn_approvals = None, bn_pending = Some 5, bn_timeline = None\<rparr>"

lemma demo_run: "wrun demo_mail_env (\<lambda>_. True) [GotParticipants [demo_agent], SentMail] (5, empty_bench) (5, demo_bench)"
proof -
  have "wstep demo_mail_env (\<lambda>_. True) (GotParticipants [demo_agent]) (5, empty_bench) (5, empty_bench\<lparr>bn_participants := Some [demo_agent]\<rparr>)"
    by (rule wstep.participants)
  moreover have "wstep demo_mail_env (\<lambda>_. True) SentMail (5, empty_bench\<lparr>bn_participants := Some [demo_agent]\<rparr>) (5, demo_bench)"
    using wstep.sent [of demo_mail_env "\<lambda>_. True" 5 "empty_bench\<lparr>bn_participants := Some [demo_agent]\<rparr>"]
    by (simp add: markTurnPending_def empty_bench_def demo_bench_def)
  ultimately show ?thesis by (blast intro: wrun.intros)
qed


text \<open>
  The ranks are looked up under the word without its dots, so a working turn has rank 0: with one workbench working
  and another live the worker is shown as live.
\<close>

lemma working_loses_to_live:
  "bench_worker_status demo_mail_env 5 (\<lambda>_. True) [demo_bench, demo_bench\<lparr>bn_pending := None\<rparr>]
     = \<lparr>st_tone = IdleTone, st_text = ''Live''\<rparr>"
  by code_simp

section \<open>The words for a run\<close>

datatype routine_tone = LiveTone | FailedTone | InfoTone | IdleRoutine

definition isRunActive :: "string \<Rightarrow> bool" where
  "isRunActive s \<longleftrightarrow> s = ''running'' \<or> s = ''updating''"

definition isRunFailed :: "string \<Rightarrow> bool" where
  "isRunFailed s \<longleftrightarrow> s = ''error'' \<or> s = ''failed''"

definition runOutcomeStatus :: "string \<Rightarrow> string option \<Rightarrow> string" where
  "runOutcomeStatus s endedAt =
     (if s = ''running'' then (case endedAt of Some (c # t) \<Rightarrow> ''completed'' | _ \<Rightarrow> ''running'')
      else if s = ''error'' then ''failed'' else s)"

definition RUN_STATUS_WORDS :: "(string \<times> string) list" where
  "RUN_STATUS_WORDS =
     [(''running'', ''Running now''), (''updating'', ''Running now''), (''completed'', ''Finished''), (''deployed'', ''Finished''),
      (''failed'', ''Failed''), (''error'', ''Failed''), (''cancelled'', ''Cancelled''), (''stopped'', ''Stopped''),
      (''queued'', ''Waiting to start''), (''pending'', ''Waiting to start'')]"

definition runStatusLabel :: "string \<Rightarrow> string" where
  "runStatusLabel s = (case map_of RUN_STATUS_WORDS s of Some w \<Rightarrow> w | None \<Rightarrow> s)"

definition routineRunTone :: "string \<Rightarrow> routine_tone" where
  "routineRunTone s =
     (if isRunFailed s then FailedTone else if isRunActive s then InfoTone
      else if s = ''deployed'' \<or> s = ''completed'' then LiveTone else IdleRoutine)"

definition routineRunLabel :: "string \<Rightarrow> string" where
  "routineRunLabel s = (if isRunFailed s then ''failed'' else if s = ''deployed'' \<or> s = ''completed'' then ''ok'' else s)"

definition routineState :: "bool \<Rightarrow> bool \<Rightarrow> string option \<Rightarrow> routine_tone \<times> string" where
  "routineState stopped scheduleEnabled lastRun =
     (if (case lastRun of None \<Rightarrow> False | Some s \<Rightarrow> isRunFailed s) then (FailedTone, ''failed'')
      else if stopped \<or> \<not> scheduleEnabled then (IdleRoutine, ''paused'')
      else if (case lastRun of None \<Rightarrow> False | Some s \<Rightarrow> isRunActive s) then (InfoTone, ''running'')
      else (LiveTone, ''live''))"

text \<open>A failed newest run outranks everything, in the tone and in the words.\<close>

lemma failed_run_shows:
  "isRunFailed s \<Longrightarrow> routineState stopped enabled (Some s) = (FailedTone, ''failed'') \<and> routineRunTone s = FailedTone \<and>
     routineRunLabel s = ''failed'' \<and> runStatusLabel s = ''Failed''"
  by (auto simp: routineState_def routineRunTone_def routineRunLabel_def runStatusLabel_def RUN_STATUS_WORDS_def isRunFailed_def)

end
