(* ===== verification/Approvals.thy ===== *)
theory Approvals
  imports Worker_Status Error_Sink
begin

text \<open>
  Approvals, \<open>apps/web/src\<close>: what a person is shown of a call that waits for a decision
  (\<open>chat/approval-headline.ts\<close>, \<open>pending-approvals.ts\<close>), the decision itself (\<open>approval-actions.ts\<close>, the two
  requests of \<open>api.ts\<close>) and what the card does with the answer (\<open>chat/blocks/approve-card-state.ts\<close>).

  \<open>JSON.parse\<close>, \<open>JSON.stringify\<close> and the text of a number that is no integer are parameters (\<open>json_env\<close>). Tool names
  that are members of \<open>Object.prototype\<close> are left out: the renderers are looked up in a plain object. The dash and the
  ellipsis of the texts, code points above U+00FF, are written with ASCII characters.
\<close>

section \<open>The headline and the summary\<close>

record json_env =
  je_parse :: "string \<Rightarrow> json option"
  je_stringify :: "json \<Rightarrow> string"
  je_fraction :: string

definition stringField :: "json \<Rightarrow> string \<Rightarrow> string option" where
  "stringField source k = (case field k source of Some (JStr s) \<Rightarrow> if trim s \<noteq> [] then Some s else None | _ \<Rightarrow> None)"

definition pin_of :: "json \<Rightarrow> (string \<times> string) option" where
  "pin_of j = (case (str_field ''name'' j, str_field ''version'' j) of (Some n, Some v) \<Rightarrow> Some (n, v) | _ \<Rightarrow> None)"

definition toolPackagePinsField :: "json \<Rightarrow> string \<Rightarrow> (string \<times> string) list" where
  "toolPackagePinsField source k = (case field k source of Some (JArr xs) \<Rightarrow> List.map_filter pin_of xs | _ \<Rightarrow> [])"

definition or_else_opt :: "'a option \<Rightarrow> 'a option \<Rightarrow> 'a option" where
  "or_else_opt a b = (case a of None \<Rightarrow> b | Some x \<Rightarrow> Some x)"

definition workflowDeployHeadline :: "json \<Rightarrow> string option" where
  "workflowDeployHeadline args =
     (case stringField args ''commitSha'' of
        None \<Rightarrow> None
      | Some commitSha \<Rightarrow>
          (case or_else_opt (stringField args ''packageName'') (stringField args ''assetId'') of
             None \<Rightarrow> None
           | Some packageName \<Rightarrow>
               (let pins = toolPackagePinsField args ''toolPackagePins'';
                    toolsText = (if pins \<noteq> [] then join '', '' (map (\<lambda>(n, v). n @ ''@'' @ v) pins) else ''none declared'')
                in Some (redactText (''Deploy workflow '' @ packageName @ '' @ '' @ take 7 commitSha @ '' -- tools: '' @ toolsText)))))"

definition is_compound :: "json \<Rightarrow> bool" where
  "is_compound j \<longleftrightarrow> (case j of JObj _ \<Rightarrow> True | JArr _ \<Rightarrow> True | _ \<Rightarrow> False)"

text \<open>\<open>Object.entries\<close>: the elements of an array are under their indices.\<close>

definition entries_of :: "json \<Rightarrow> (string \<times> json) list" where
  "entries_of j = (case j of JObj fs \<Rightarrow> fs | JArr xs \<Rightarrow> map (\<lambda>(i, x). (dec i, x)) (enumerate 0 xs) | _ \<Rightarrow> [])"

definition redacted_json :: "json_env \<Rightarrow> json \<Rightarrow> string" where
  "redacted_json env j = je_stringify env (JObj (redactRecord (entries_of j)))"

definition formatArgumentValue :: "json_env \<Rightarrow> json \<Rightarrow> string" where
  "formatArgumentValue env v =
     (case v of
        JNum n \<Rightarrow> (case n of JInt i \<Rightarrow> string_of_int i | JNonInt \<Rightarrow> je_fraction env)
      | JBool b \<Rightarrow> if b then ''true'' else ''false''
      | JNull \<Rightarrow> []
      | JStr s \<Rightarrow>
          (case je_parse env s of
             Some p \<Rightarrow> if is_compound p then redacted_json env p else redactText s
           | None \<Rightarrow> redactText s)
      | _ \<Rightarrow> redacted_json env v)"

definition toolNameFor :: "json \<Rightarrow> string option" where
  "toolNameFor d = stringField d ''name''"

definition headlineFor :: "json_env \<Rightarrow> json \<Rightarrow> json \<Rightarrow> string" where
  "headlineFor env d args =
     (let rendered = (if toolNameFor d = Some ''workflow_deploy'' \<and> is_compound args then workflowDeployHeadline args else None) in
      case rendered of
        Some r \<Rightarrow> r
      | None \<Rightarrow>
          (let headline = (case or_else_opt (stringField d ''description'') (stringField d ''name'') of Some b \<Rightarrow> b | None \<Rightarrow> ''Run a tool'') in
           case stringField args ''title'' of
             None \<Rightarrow> headline
           | Some title \<Rightarrow> headline @ '': '' @ quote @ formatArgumentValue env (JStr title) @ quote))"

definition ARGUMENT_PREVIEW_LIMIT :: nat where "ARGUMENT_PREVIEW_LIMIT = 120"

definition truncate :: "string \<Rightarrow> string" where
  "truncate s = (if ARGUMENT_PREVIEW_LIMIT < length s then take ARGUMENT_PREVIEW_LIMIT s @ ''...'' else s)"

definition writeFileArgumentsSummary :: "json \<Rightarrow> string option" where
  "writeFileArgumentsSummary args =
     (case stringField args ''path'' of
        None \<Rightarrow> None
      | Some path \<Rightarrow>
          Some (path @ (case field ''content'' args of
                          Some (JStr c) \<Rightarrow> '': '' @ quote @ truncate (redactText c) @ quote
                        | _ \<Rightarrow> [])))"

definition genericArgumentsSummary :: "json_env \<Rightarrow> json \<Rightarrow> string option" where
  "genericArgumentsSummary env args =
     (let entries = redactRecord (entries_of args) in
      if entries = [] then None
      else Some (truncate (join '', '' (map (\<lambda>(k, v). k @ '': '' @ formatArgumentValue env v) entries))))"

definition argumentsSummaryFor :: "json_env \<Rightarrow> json \<Rightarrow> json \<Rightarrow> string option" where
  "argumentsSummaryFor env d args =
     (if \<not> is_compound args then None
      else or_else_opt (if toolNameFor d = Some ''write_file'' then writeFileArgumentsSummary args else None)
             (genericArgumentsSummary env args))"

section \<open>What is displayed\<close>

record approval_display =
  ad_id :: string
  ad_agentAddress :: string
  ad_agentName :: string
  ad_headline :: string
  ad_toolName :: "string option"
  ad_argumentsSummary :: "string option"
  ad_arguments :: "(string \<times> json) list"
  ad_status :: approval_status
  ad_createdAt :: string

definition UNNAMED_AGENT :: string where "UNNAMED_AGENT = ''An agent''"

definition composeApproval :: "json_env \<Rightarrow> approval_row \<Rightarrow> string \<Rightarrow> approval_display" where
  "composeApproval env r agentName =
     (let d = JObj (aw_toolDefinition r); args = JObj (aw_toolArguments r) in
      \<lparr>ad_id = aw_id r, ad_agentAddress = aw_agentAddress r, ad_agentName = agentName, ad_headline = headlineFor env d args,
       ad_toolName = toolNameFor d, ad_argumentsSummary = argumentsSummaryFor env d args, ad_arguments = aw_toolArguments r,
       ad_status = aw_status r, ad_createdAt = aw_createdAt r\<rparr>)"

definition parse_approval_status :: "json \<Rightarrow> approval_status option" where
  "parse_approval_status j =
     (case j of
        JStr s \<Rightarrow> map_of [(''pending'', PendingApproval), (''approved'', Approved), (''rejected'', Rejected), (''timeout'', TimedOut), (''expired'', Expired)] s
      | _ \<Rightarrow> None)"

definition as_fields :: "json \<Rightarrow> (string \<times> json) list option" where
  "as_fields j = (case j of JObj fs \<Rightarrow> Some fs | _ \<Rightarrow> None)"

definition approval_rest_ok :: "json \<Rightarrow> bool" where
  "approval_rest_ok j \<longleftrightarrow>
     list_all (\<lambda>k. str_field k j \<noteq> None) [''tenantId'', ''anchorRunId'', ''correlationId'', ''updatedAt''] \<and>
     list_all (\<lambda>k. Option.bind (field k j) as_str_or_null \<noteq> None) [''timeoutAt'', ''resolvedAt''] \<and>
     (case field ''scope'' j of Some JNull \<Rightarrow> True | Some (JStr s) \<Rightarrow> s = ''once'' \<or> s = ''always'' | _ \<Rightarrow> False)"

definition parse_approval :: "json \<Rightarrow> approval_row option" where
  "parse_approval j =
     (case (str_field ''id'' j, str_field ''runId'' j, str_field ''agentAddress'' j, Option.bind (field ''toolDefinition'' j) as_fields,
            Option.bind (field ''toolArguments'' j) as_fields, Option.bind (field ''status'' j) parse_approval_status, str_field ''createdAt'' j) of
        (Some i, Some r, Some a, Some d, Some args, Some st, Some c) \<Rightarrow>
          if approval_rest_ok j
          then Some \<lparr>aw_id = i, aw_runId = r, aw_agentAddress = a, aw_toolDefinition = d, aw_toolArguments = args, aw_status = st, aw_createdAt = c\<rparr>
          else None
      | _ \<Rightarrow> None)"

definition pendingApprovalsPath :: "string \<Rightarrow> string" where
  "pendingApprovalsPath t = ''/api/tenants/'' @ t @ ''/approvals''"

definition runViewPath :: "string \<Rightarrow> string \<Rightarrow> string" where
  "runViewPath t r = ''/api/tenants/'' @ t @ ''/runs/'' @ r"

definition parse_run_name :: "json \<Rightarrow> string option" where
  "parse_run_name j = (if parse_run j = None then None else str_field ''definitionName'' j)"

definition fetchAgentName :: "'w hub \<Rightarrow> string \<Rightarrow> string \<Rightarrow> ('w, string) client" where
  "fetchAgentName hub t r =
     bindE (fetchE hub (get (runViewPath t r))) (\<lambda>response.
       if \<not> resp_ok response then returnE UNNAMED_AGENT
       else bindE (json_body response) (\<lambda>j. returnE (case parse_run_name j of None \<Rightarrow> UNNAMED_AGENT | Some n \<Rightarrow> n)))"

text \<open>The name of the asker: what the run says, else what the roster knows the address by.\<close>

definition name_for_row :: "(string \<times> string) list \<Rightarrow> chat_agent list \<Rightarrow> approval_row \<Rightarrow> string" where
  "name_for_row names roster r =
     (let fromRun = (case last_of names (aw_runId r) of Some n \<Rightarrow> n | None \<Rightarrow> UNNAMED_AGENT) in
      if fromRun \<noteq> UNNAMED_AGENT then fromRun
      else (case last_of (concat (map (\<lambda>a. map (\<lambda>x. (x, ca_name a)) (ca_addresses a)) roster)) (aw_agentAddress r) of
              Some n \<Rightarrow> n | None \<Rightarrow> UNNAMED_AGENT))"

datatype approval_detail =
    DetailReady approval_display
  | DetailForbidden
  | DetailNotFound
  | DetailError string

definition getApprovalDetail :: "'w hub \<Rightarrow> json_env \<Rightarrow> string \<Rightarrow> string \<Rightarrow> ('w, approval_detail) client" where
  "getApprovalDetail hub env t approvalId =
     bindE (fetchE hub (get (pendingApprovalsPath t @ ''/'' @ approvalId))) (\<lambda>r.
       if rs_status r = 403 then returnE DetailForbidden
       else if rs_status r = 404 then returnE DetailNotFound
       else if \<not> resp_ok r then returnE (DetailError (''The server answered '' @ dec (rs_status r) @ '' for this approval.''))
       else bindE (json_body r) (\<lambda>j.
         case on_json ''ApprovalResponse'' parse_approval (Some j) of
           Inl summary \<Rightarrow> returnE (DetailError summary)
         | Inr row \<Rightarrow> bindE (fetchAgentName hub t (aw_runId row)) (\<lambda>name. returnE (DetailReady (composeApproval env row name)))))"

section \<open>The decision\<close>

datatype decision = Once | Always | Reject "string option"

definition decision_request :: "string \<Rightarrow> string \<Rightarrow> decision \<Rightarrow> request" where
  "decision_request t approvalId d =
     (let path = ''/api/tenants/'' @ t @ ''/approvals/'' @ approvalId in
      case d of
        Once \<Rightarrow> post (path @ ''/approve'') (JObj [(''scope'', JStr ''once'')])
      | Always \<Rightarrow> post (path @ ''/approve'') (JObj [(''scope'', JStr ''always'')])
      | Reject message \<Rightarrow> post (path @ ''/reject'') (JObj (case message of None \<Rightarrow> [] | Some m \<Rightarrow> [(''message'', JStr m)])))"

definition send_decision :: "'w hub \<Rightarrow> string \<Rightarrow> string \<Rightarrow> decision \<Rightarrow> ('w, approval_row) client" where
  "send_decision hub t approvalId d =
     apiRequest hub (decision_request t approvalId d) (on_json ''ApprovalResponse'' parse_approval) None ''ApiQueryError'' False"

datatype decision_result =
    DecisionResolved approval_status
  | DecisionForbidden string
  | DecisionConflict string
  | DecisionError string

definition forbidden_message :: "decision \<Rightarrow> string" where
  "forbidden_message d =
     (case d of Reject _ \<Rightarrow> ''You do not have permission to deny this.'' | _ \<Rightarrow> ''You do not have permission to act on this.'')"

definition generic_message :: "decision \<Rightarrow> string" where
  "generic_message d =
     (case d of Reject _ \<Rightarrow> ''Couldn't deny this request.'' | _ \<Rightarrow> ''Couldn't reach the approval -- try again.'')"

text \<open>
  \<open>resolve\<close>: the cache of the workbench changes only when the hub took the decision. What is thrown is an
  \<open>Error\<close>, so the generic message is for the one error that has no text of its own here.
\<close>

definition resolve :: "'w hub \<Rightarrow> int \<Rightarrow> string \<Rightarrow> string \<Rightarrow> decision \<Rightarrow> bench \<Rightarrow> 'w net \<Rightarrow> (decision_result \<times> bench) \<times> 'w net" where
  "resolve hub now t approvalId d b n =
     (case send_decision hub t approvalId d n of
        (Inr _, n') \<Rightarrow>
          ((DecisionResolved (case d of Reject _ \<Rightarrow> Rejected | _ \<Rightarrow> Approved), markApprovalAnswered now approvalId b), n')
      | (Inl e, n') \<Rightarrow>
          (((case e of
              Thrown cls message status _ \<Rightarrow>
                if cls = ''ApiQueryError'' \<and> status = Some 403 then DecisionForbidden (forbidden_message d)
                else if cls = ''ApiQueryError'' \<and> status = Some 409 then DecisionConflict message
                else DecisionError message
            | FetchError message \<Rightarrow> DecisionError message
            | BadJson \<Rightarrow> DecisionError (generic_message d)), b), n'))"

section \<open>The card\<close>

record platform_detail =
  pd_agentName :: string
  pd_headline :: string
  pd_arguments :: "(string \<times> json) list"
  pd_toolName :: "string option"
  pd_argumentsSummary :: "string option"

datatype status_query =
    QueryLoading
  | QueryReady approval_status bool platform_detail
  | QueryForbidden
  | QueryNotFound
  | QueryError string

definition detail_of :: "approval_display \<Rightarrow> platform_detail" where
  "detail_of d = \<lparr>pd_agentName = ad_agentName d, pd_headline = ad_headline d, pd_arguments = ad_arguments d,
     pd_toolName = ad_toolName d, pd_argumentsSummary = ad_argumentsSummary d\<rparr>"

definition getStatus :: "'w hub \<Rightarrow> json_env \<Rightarrow> string \<Rightarrow> string \<Rightarrow> ('w, status_query) client" where
  "getStatus hub env t approvalId =
     bindE (getApprovalDetail hub env t approvalId) (\<lambda>r. returnE
       (case r of
          DetailReady item \<Rightarrow> QueryReady (ad_status item) (ad_status item = PendingApproval) (detail_of item)
        | DetailForbidden \<Rightarrow> QueryForbidden
        | DetailNotFound \<Rightarrow> QueryNotFound
        | DetailError m \<Rightarrow> QueryError m))"

datatype deciding = NotDeciding | Approving | Rejecting

datatype card_view =
    Unwired
  | CardLoading
  | Actionable platform_detail deciding "string option"
  | Spectator approval_status platform_detail
  | Undetermined deciding "string option"
  | CardResolved approval_status platform_detail bool
  | CardNotFound
  | LoadError string

definition TERMINAL_STATUSES :: "approval_status list" where
  "TERMINAL_STATUSES = [Approved, Rejected, TimedOut, Expired]"

definition isTerminalStatus :: "approval_status \<Rightarrow> bool" where
  "isTerminalStatus s \<longleftrightarrow> s \<in> set TERMINAL_STATUSES"

definition deriveApproveCardView :: "bool \<Rightarrow> status_query \<Rightarrow> deciding \<Rightarrow> string option \<Rightarrow> bool option \<Rightarrow> card_view" where
  "deriveApproveCardView wired live deciding decisionError resolvedElsewhere =
     (if \<not> wired then Unwired
      else (case live of
              QueryLoading \<Rightarrow> CardLoading
            | QueryNotFound \<Rightarrow> CardNotFound
            | QueryError m \<Rightarrow> LoadError m
            | QueryForbidden \<Rightarrow> Undetermined deciding decisionError
            | QueryReady st canAct detail \<Rightarrow>
                if isTerminalStatus st then CardResolved st detail (case resolvedElsewhere of None \<Rightarrow> False | Some b \<Rightarrow> b)
                else if \<not> canAct then Spectator st detail
                else Actionable detail deciding decisionError))"

text \<open>The card has buttons.\<close>

definition has_buttons :: "card_view \<Rightarrow> bool" where
  "has_buttons v \<longleftrightarrow> (case v of Actionable _ _ _ \<Rightarrow> True | Undetermined _ _ \<Rightarrow> True | _ \<Rightarrow> False)"

section \<open>Secrets do not show\<close>

text \<open>The arguments without what stands under a sensitive name, at any depth.\<close>

fun scrub :: "string \<Rightarrow> json \<Rightarrow> json" where
  "scrub k (JArr xs) = (if sensitive_key k then JNull else JArr (map (scrub k) xs))"
| "scrub k (JObj fs) = (if sensitive_key k then JNull else JObj (map (\<lambda>(k', v). (k', scrub k' v)) fs))"
| "scrub k v = (if sensitive_key k then JNull else v)"

definition scrub_fields :: "(string \<times> json) list \<Rightarrow> (string \<times> json) list" where
  "scrub_fields fs = map (\<lambda>(k, v). (k, scrub k v)) fs"

lemma redactValue_scrub: "redactValue k (scrub k v) = redactValue k v"
  by (induction k v rule: scrub.induct) auto

lemma redactRecord_scrub: "redactRecord (scrub_fields fs) = redactRecord fs"
  by (simp add: redactRecord_def scrub_fields_def redactValue_scrub case_prod_beta comp_def)

lemma map_of_scrub: "map_of (scrub_fields fs) k = map_option (scrub k) (map_of fs k)"
  by (induction fs) (auto simp: scrub_fields_def)

lemma str_field_scrub: "\<not> sensitive_key k \<Longrightarrow> str_field k (JObj (scrub_fields fs)) = str_field k (JObj fs)"
proof -
  assume k: "\<not> sensitive_key k"
  show ?thesis
  proof (cases "map_of fs k")
    case (Some v)
    with k show ?thesis by (cases v) (simp_all add: str_field_def map_of_scrub)
  qed (simp add: str_field_def map_of_scrub)
qed

lemma stringField_str: "stringField j k = (case str_field k j of Some s \<Rightarrow> if trim s \<noteq> [] then Some s else None | None \<Rightarrow> None)"
  by (simp add: stringField_def str_field_def split: option.splits json.splits)

lemma shown_names:
  "\<not> sensitive_key ''commitSha''" "\<not> sensitive_key ''packageName''" "\<not> sensitive_key ''assetId''" "\<not> sensitive_key ''title''"
  "\<not> sensitive_key ''path''" "\<not> sensitive_key ''content''" "\<not> sensitive_key ''toolPackagePins''" "\<not> sensitive_key ''name''"
  "\<not> sensitive_key ''version''"
  by code_simp+

lemma stringField_scrub:
  "stringField (JObj (scrub_fields fs)) ''commitSha'' = stringField (JObj fs) ''commitSha''"
  "stringField (JObj (scrub_fields fs)) ''packageName'' = stringField (JObj fs) ''packageName''"
  "stringField (JObj (scrub_fields fs)) ''assetId'' = stringField (JObj fs) ''assetId''"
  "stringField (JObj (scrub_fields fs)) ''title'' = stringField (JObj fs) ''title''"
  "stringField (JObj (scrub_fields fs)) ''path'' = stringField (JObj fs) ''path''"
  using shown_names by (simp_all add: stringField_str str_field_scrub)

lemma pin_of_scrub: "\<not> sensitive_key k \<Longrightarrow> pin_of (scrub k j) = pin_of j"
  using shown_names str_field_scrub [of "''name''"] str_field_scrub [of "''version''"]
  by (cases j) (simp_all add: pin_of_def str_field_def [of _ "JArr _"] scrub_fields_def)

lemma pins_scrub:
  "toolPackagePinsField (JObj (scrub_fields fs)) ''toolPackagePins'' = toolPackagePinsField (JObj fs) ''toolPackagePins''"
proof -
  have "List.map_filter pin_of (map (scrub ''toolPackagePins'') xs) = List.map_filter pin_of xs" for xs
    using shown_names(7) by (simp add: List.map_filter_def pin_of_scrub comp_def filter_map)
  then show ?thesis using shown_names(7)
    by (cases "map_of fs ''toolPackagePins''") (auto simp: toolPackagePinsField_def map_of_scrub split: json.splits)
qed


section \<open>Decisions\<close>


definition demo_json_env :: json_env where
  "demo_json_env = \<lparr>je_parse = (\<lambda>_. None), je_stringify = (\<lambda>_. []), je_fraction = []\<rparr>"

definition refusing_hub :: "unit hub" where
  "refusing_hub rq w = (Inr \<lparr>rs_status = 403, rs_body = None\<rparr>, w)"


text \<open>
  Also shown. A decision is one request, and the cache of the workbench follows the hub: only when the hub took it is the
  approval out of the cache and the turn pending again; whatever else happened, the cache is as it was, a lost
  permission and a conflict are told apart, and both carry the hub's refusal.
\<close>

theorem decision_outcome:
  assumes "resolve hub now t approvalId d b n = ((res, b'), n')"
  shows "\<exists>a w. hub (decision_request t approvalId d) (server n) = (a, w) \<and>
    n' = n\<lparr>server := w, sent := sent n @ [(decision_request t approvalId d, a)]\<rparr> \<and>
    (case res of
       DecisionResolved _ \<Rightarrow> b' = markApprovalAnswered now approvalId b \<and> bn_pending b' = Some now \<and>
         list_all (\<lambda>r. aw_id r \<noteq> approvalId) (or_empty (bn_approvals b')) \<and>
         (case a of Inr r \<Rightarrow> resp_ok r | Inl _ \<Rightarrow> False)
     | DecisionForbidden _ \<Rightarrow> b' = b \<and> (case a of Inr r \<Rightarrow> rs_status r = 403 | Inl _ \<Rightarrow> False)
     | DecisionConflict _ \<Rightarrow> b' = b \<and> (case a of Inr r \<Rightarrow> rs_status r = 409 | Inl _ \<Rightarrow> False)
     | DecisionError _ \<Rightarrow> b' = b)"
proof -
  obtain a w where hub: "hub (decision_request t approvalId d) (server n) = (a, w)"
    by (cases "hub (decision_request t approvalId d) (server n)")
  have answered: "bn_pending (markApprovalAnswered now approvalId b) = Some now"
    "list_all (\<lambda>r. aw_id r \<noteq> approvalId) (or_empty (bn_approvals (markApprovalAnswered now approvalId b)))"
    by (auto simp: markApprovalAnswered_def markTurnPending_def or_empty_def list_all_iff split: option.splits)
  from assms hub show ?thesis
    by (cases a) (auto simp: resolve_def send_decision_def apiRequest_def fetch_raw_def bindE_def throwE_def returnE_def answered
        split: sum.splits if_splits)
qed

definition taking_hub :: "unit hub" where
  "taking_hub rq w = (Inr \<lparr>rs_status = 409, rs_body = None\<rparr>, w)"

theorem decision_outcome_witness:
  "\<exists>m. fst (fst (resolve taking_hub 7 ''t'' ''a'' Once empty_bench \<lparr>server = (), sent = []\<rparr>)) = DecisionConflict m \<and>
     snd (fst (resolve taking_hub 7 ''t'' ''a'' Once empty_bench \<lparr>server = (), sent = []\<rparr>)) = empty_bench"
proof -
  let ?run = "resolve taking_hub 7 ''t'' ''a'' Once empty_bench \<lparr>server = (), sent = []\<rparr>"
  have res: "fst (fst ?run) = DecisionConflict ''The server answered 409.''" by code_simp
  have "?run = ((fst (fst ?run), snd (fst ?run)), snd ?run)" by simp
  from decision_outcome [OF this] res show ?thesis by auto
qed

text \<open>The arguments themselves are handed to the card as they came.\<close>

lemma card_has_raw_arguments: "pd_arguments (detail_of (composeApproval env r name)) = aw_toolArguments r"
  by (simp add: detail_of_def composeApproval_def Let_def)

end
