(* ===== verification/App_Paths.thy ===== *)
theory App_Paths
  imports Http
begin

text \<open>
  The paths of the web app, \<open>apps/web/src\<close>: a workbench and its settings (\<open>workbench-path.ts\<close>), the flat routes
  (\<open>path-ids.ts\<close>), the Insights routes (\<open>insights-path.ts\<close>, \<open>insights-deeplinks.ts\<close>), slugs (\<open>lib/slug/slug.ts\<close>,
  \<open>command-palette/detail-paths.ts\<close>), decoding a segment (\<open>lib/url-path.ts\<close>) and where a sign-in goes on
  (\<open>login-next.ts\<close>). \<open>normalize("NFKD")\<close> without its combining marks is a parameter of \<open>slugify\<close>.
\<close>

definition decodedOrNull :: "string \<Rightarrow> string option" where
  "decodedOrNull segment = decodeURIComponent segment"

section \<open>Slugs\<close>

definition SLUG_MAX_LENGTH :: nat where "SLUG_MAX_LENGTH = 64"

definition slug_char :: "char \<Rightarrow> bool" where
  "slug_char c \<longleftrightarrow> is_digit c \<or> is_ascii_lower c"

text \<open>\<open>^[a-z0-9]+(?:-[a-z0-9]+)*$\<close>: the parts between hyphens are words.\<close>

definition slug_pattern :: "string \<Rightarrow> bool" where
  "slug_pattern s \<longleftrightarrow> list_all (\<lambda>w. w \<noteq> [] \<and> list_all slug_char w) (split_on CHR ''-'' s)"

definition isValidSlug :: "string \<Rightarrow> bool" where
  "isValidSlug s \<longleftrightarrow> length s \<le> SLUG_MAX_LENGTH \<and> slug_pattern s"

text \<open>\<open>replace(/[^a-z0-9]+/g, "-")\<close> and \<open>replace(/^-+|-+$/g, "")\<close>.\<close>

function hyphenate :: "string \<Rightarrow> string" where
  "hyphenate [] = []"
| "hyphenate (c # s) =
     (if slug_char c then c # hyphenate s else CHR ''-'' # hyphenate (dropWhile (\<lambda>d. \<not> slug_char d) s))"
  by pat_completeness auto
termination by (relation "measure length") (auto simp: le_imp_less_Suc length_dropWhile_le)

definition strip_hyphens :: "string \<Rightarrow> string" where
  "strip_hyphens s = rev (dropWhile (\<lambda>c. c = CHR ''-'') (rev (dropWhile (\<lambda>c. c = CHR ''-'') s)))"

definition slugify :: "(string \<Rightarrow> string) \<Rightarrow> string \<Rightarrow> string" where
  "slugify nfkd name = strip_hyphens (take SLUG_MAX_LENGTH (hyphenate (to_lower (nfkd name))))"

definition detailPath :: "string \<Rightarrow> string \<Rightarrow> string \<Rightarrow> string" where
  "detailPath roster slug i = (if isValidSlug slug then roster @ ''/'' @ slug else roster @ ''/'' @ encodeURIComponent i)"

section \<open>Flat routes\<close>

definition SETTINGS_PATH_PREFIX :: string where "SETTINGS_PATH_PREFIX = ''/settings''"
definition WORKERS_PATH_PREFIX :: string where "WORKERS_PATH_PREFIX = ''/workers''"
definition SKILLS_PATH_PREFIX :: string where "SKILLS_PATH_PREFIX = ''/skills''"
definition WORKFLOWS_PATH_PREFIX :: string where "WORKFLOWS_PATH_PREFIX = ''/workflows''"
definition INSIGHTS_PATH_PREFIX :: string where "INSIGHTS_PATH_PREFIX = ''/insights''"
definition INSIGHTS_RUNS_PATH :: string where "INSIGHTS_RUNS_PATH = INSIGHTS_PATH_PREFIX @ ''/runs''"

definition rawSegmentFromTopLevelPath :: "string \<Rightarrow> string \<Rightarrow> string option" where
  "rawSegmentFromTopLevelPath path pre =
     (if path = pre then None
      else if \<not> starts_with (pre @ ''/'') path then None
      else let rest = drop (length pre + 1) path in if rest = [] then None else Some rest)"

definition detailSlugFromPath :: "string \<Rightarrow> string \<Rightarrow> string option" where
  "detailSlugFromPath path pre =
     (case rawSegmentFromTopLevelPath path pre of
        None \<Rightarrow> None | Some segment \<Rightarrow> if isValidSlug segment then Some segment else None)"

definition entityIdFromTopLevelPath :: "string \<Rightarrow> string \<Rightarrow> string option" where
  "entityIdFromTopLevelPath path pre = Option.bind (rawSegmentFromTopLevelPath path pre) decodedOrNull"

definition skillIdFromPath :: "string \<Rightarrow> string option" where
  "skillIdFromPath path = entityIdFromTopLevelPath path SKILLS_PATH_PREFIX"

definition workerIdFromPath :: "string \<Rightarrow> string option" where
  "workerIdFromPath path =
     (case entityIdFromTopLevelPath path WORKERS_PATH_PREFIX of
        None \<Rightarrow> None | Some i \<Rightarrow> if CHR ''/'' \<in> set i then None else Some i)"

definition routineSegmentFromPath :: "string \<Rightarrow> string option" where
  "routineSegmentFromPath path = entityIdFromTopLevelPath path WORKFLOWS_PATH_PREFIX"

definition settingsSectionIdFromPath :: "string \<Rightarrow> string option" where
  "settingsSectionIdFromPath path =
     (if \<not> starts_with (SETTINGS_PATH_PREFIX @ ''/'') path then None
      else let rest = drop (length SETTINGS_PATH_PREFIX + 1) path; i = hd (split_on CHR ''/'' rest) in
        if rest = [] \<or> i = [] then None else decodedOrNull i)"

definition settingsEntityIdFromPath :: "string \<Rightarrow> string \<Rightarrow> string option" where
  "settingsEntityIdFromPath path sectionId =
     (let prefix = SETTINGS_PATH_PREFIX @ ''/'' @ sectionId @ ''/'' in
      if \<not> starts_with prefix path then None
      else let rest = drop (length prefix) path in if rest = [] then None else decodedOrNull rest)"

section \<open>Workbenches\<close>

definition WORKBENCH_SETTINGS_SECTION_IDS :: "string list" where
  "WORKBENCH_SETTINGS_SECTION_IDS = [''general'', ''members'', ''agents'', ''danger'']"

definition WORKBENCH_PATH_PREFIX :: string where "WORKBENCH_PATH_PREFIX = ''/w''"
definition LEGACY_CHAT_PATH_PREFIX :: string where "LEGACY_CHAT_PATH_PREFIX = ''/chat''"
definition SETTINGS_SUFFIX :: string where "SETTINGS_SUFFIX = ''/settings''"

definition withoutSettingsSuffix :: "string \<Rightarrow> string" where
  "withoutSettingsSuffix path =
     (case index_of SETTINGS_SUFFIX path of
        None \<Rightarrow> path
      | Some i \<Rightarrow>
          let rest = drop (i + length SETTINGS_SUFFIX) path in
          if rest \<noteq> [] \<and> \<not> starts_with ''/'' rest then path else take i path)"

fun id_under :: "string list \<Rightarrow> string \<Rightarrow> string option" where
  "id_under [] base = None"
| "id_under (pre # pres) base =
     (if base = pre then None
      else if \<not> starts_with (pre @ ''/'') base then id_under pres base
      else let rest = drop (length pre + 1) base in if rest = [] then None else decodedOrNull rest)"

definition workbenchIdFromPath :: "string \<Rightarrow> string option" where
  "workbenchIdFromPath path = id_under [WORKBENCH_PATH_PREFIX, LEGACY_CHAT_PATH_PREFIX] (withoutSettingsSuffix path)"

definition isWorkbenchPath :: "string \<Rightarrow> bool" where
  "isWorkbenchPath path \<longleftrightarrow>
     path = WORKBENCH_PATH_PREFIX \<or> starts_with (WORKBENCH_PATH_PREFIX @ ''/'') path \<or>
     path = LEGACY_CHAT_PATH_PREFIX \<or> starts_with (LEGACY_CHAT_PATH_PREFIX @ ''/'') path"

definition ends_with :: "string \<Rightarrow> string \<Rightarrow> bool" where
  "ends_with p s \<longleftrightarrow> starts_with (rev p) (rev s)"

definition isWorkbenchSettingsPath :: "string \<Rightarrow> bool" where
  "isWorkbenchSettingsPath path \<longleftrightarrow>
     isWorkbenchPath path \<and> (ends_with SETTINGS_SUFFIX path \<or> contains (SETTINGS_SUFFIX @ ''/'') path)"

definition workbenchPath :: "string option \<Rightarrow> string" where
  "workbenchPath i = (case i of None \<Rightarrow> WORKBENCH_PATH_PREFIX | Some x \<Rightarrow> WORKBENCH_PATH_PREFIX @ ''/'' @ encodeURIComponent x)"

definition workbenchSettingsPath :: "string \<Rightarrow> string option \<Rightarrow> string option \<Rightarrow> string" where
  "workbenchSettingsPath i section entity =
     (let base = workbenchPath (Some i) @ SETTINGS_SUFFIX in
      case section of
        None \<Rightarrow> base
      | Some s \<Rightarrow>
          (case entity of None \<Rightarrow> base @ ''/'' @ s | Some e \<Rightarrow> base @ ''/'' @ s @ ''/'' @ encodeURIComponent e))"

definition workbenchSettingsSectionFromPath :: "string \<Rightarrow> string option" where
  "workbenchSettingsSectionFromPath path =
     (case index_of (SETTINGS_SUFFIX @ ''/'') path of
        None \<Rightarrow> None
      | Some i \<Rightarrow>
          let rest = drop (i + length SETTINGS_SUFFIX + 1) path; section = hd (split_on CHR ''/'' rest) in
          if rest = [] \<or> section = [] then None
          else (case decodedOrNull section of
                  None \<Rightarrow> None | Some d \<Rightarrow> if d \<in> set WORKBENCH_SETTINGS_SECTION_IDS then Some d else None))"

definition workbenchSettingsEntityIdFromPath :: "string \<Rightarrow> string \<Rightarrow> string option" where
  "workbenchSettingsEntityIdFromPath path sectionId =
     (let prefix = SETTINGS_SUFFIX @ ''/'' @ sectionId @ ''/'' in
      case index_of prefix path of
        None \<Rightarrow> None
      | Some i \<Rightarrow> let rest = drop (i + length prefix) path in if rest = [] then None else decodedOrNull rest)"

section \<open>Insights\<close>

datatype insights_route = Landing | InsightsRuns | InsightsRun string | InsightsWorkbench string

text \<open>The one segment of \<open>^prefix/([^/]+)/?$\<close>.\<close>

definition one_segment :: "string \<Rightarrow> string \<Rightarrow> string option" where
  "one_segment pre path =
     (if \<not> starts_with (pre @ ''/'') path then None
      else (case split_on CHR ''/'' (drop (length pre + 1) path) of
              [s] \<Rightarrow> if s = [] then None else Some s
            | [s, e] \<Rightarrow> if s = [] \<or> e \<noteq> [] then None else Some s
            | _ \<Rightarrow> None))"

definition parseInsightsPath :: "string \<Rightarrow> insights_route" where
  "parseInsightsPath path =
     (case Option.bind (one_segment (INSIGHTS_PATH_PREFIX @ ''/workbench'') path) decodedOrNull of
        Some i \<Rightarrow> InsightsWorkbench i
      | None \<Rightarrow>
          if path = INSIGHTS_PATH_PREFIX \<or> path = INSIGHTS_PATH_PREFIX @ ''/'' then Landing
          else if path = INSIGHTS_RUNS_PATH \<or> path = INSIGHTS_RUNS_PATH @ ''/'' then InsightsRuns
          else (case Option.bind (one_segment INSIGHTS_RUNS_PATH path) decodedOrNull of
                  Some i \<Rightarrow> InsightsRun i | None \<Rightarrow> Landing))"

definition runDetailPath :: "string \<Rightarrow> string" where
  "runDetailPath i = INSIGHTS_RUNS_PATH @ ''/'' @ encodeURIComponent i"

definition workbenchInsightsPath :: "string \<Rightarrow> string" where
  "workbenchInsightsPath i = INSIGHTS_PATH_PREFIX @ ''/workbench/'' @ encodeURIComponent i"

section \<open>After a sign-in\<close>

definition LOGIN_PATH :: string where "LOGIN_PATH = ''/login''"

definition buildLoginRedirect :: "string \<Rightarrow> string" where
  "buildLoginRedirect path = LOGIN_PATH @ ''?next='' @ encodeURIComponent path"

text \<open>\<open>next\<close> is what \<open>URLSearchParams.get("next")\<close> answers.\<close>

definition validatedNextPath :: "string option \<Rightarrow> string" where
  "validatedNextPath next_param =
     (case next_param of
        None \<Rightarrow> ''/''
      | Some p \<Rightarrow>
          if \<not> starts_with ''/'' p then ''/''
          else if starts_with ''//'' p \<or> starts_with [CHR ''/'', CHR 0x5C] p then ''/''
          else if contains ''://'' p then ''/''
          else if p = LOGIN_PATH \<or> starts_with (LOGIN_PATH @ ''/'') p then ''/''
          else if starts_with (LOGIN_PATH @ ''?'') p then ''/''
          else p)"

section \<open>Slugs are slugs\<close>

lemma hyphen_not_slug: "\<not> slug_char (CHR ''-'')"
  by (simp add: slug_char_def is_digit_def is_ascii_lower_def in_range_def char_code_def)

text \<open>A text of words and hyphens in which no two hyphens meet.\<close>

definition dashed :: "string \<Rightarrow> bool" where
  "dashed s \<longleftrightarrow> list_all (\<lambda>c. slug_char c \<or> c = CHR ''-'') s \<and> successively (\<lambda>a b. a \<noteq> CHR ''-'' \<or> b \<noteq> CHR ''-'') s"

lemma dashed_Cons_word: "dashed s \<Longrightarrow> slug_char c \<Longrightarrow> dashed (c # s)"
  using hyphen_not_slug by (cases s) (auto simp: dashed_def)

lemma dashed_Cons_hyphen: "dashed s \<Longrightarrow> s = [] \<or> slug_char (hd s) \<Longrightarrow> dashed (CHR ''-'' # s)"
  using hyphen_not_slug by (cases s) (auto simp: dashed_def)

lemma hyphenate_hd: "s = [] \<or> slug_char (hd s) \<Longrightarrow> hyphenate s = [] \<or> slug_char (hd (hyphenate s))"
  by (cases s) simp_all

lemma dropWhile_hd: "dropWhile P s = [] \<or> \<not> P (hd (dropWhile P s))"
  using hd_dropWhile [of P s] by blast

lemma hyphenate_dashed: "dashed (hyphenate s)"
proof (induction s rule: hyphenate.induct)
  case 1
  then show ?case by (simp add: dashed_def)
next
  case (2 c s)
  show ?case
  proof (cases "slug_char c")
    case True
    with 2(1) show ?thesis by (simp add: dashed_Cons_word)
  next
    case False
    let ?t = "dropWhile (\<lambda>d. \<not> slug_char d) s"
    have "hyphenate ?t = [] \<or> slug_char (hd (hyphenate ?t))"
      using dropWhile_hd [of "\<lambda>d. \<not> slug_char d" s] by (intro hyphenate_hd) simp
    with 2(2) [OF False] have "dashed (CHR ''-'' # hyphenate ?t)" by (rule dashed_Cons_hyphen)
    with False show ?thesis by simp
  qed
qed

lemma dashed_sublist: "dashed (u @ s @ v) \<Longrightarrow> dashed s"
  by (auto simp: dashed_def successively_append_iff)

lemma dashed_take: "dashed s \<Longrightarrow> dashed (take n s)"
  using dashed_sublist [of "[]" "take n s" "drop n s"] by simp

lemma strip_hyphens_sublist: "\<exists>u v. s = u @ strip_hyphens s @ v"
proof -
  let ?t = "dropWhile (\<lambda>c. c = CHR ''-'') s"
  have "s = takeWhile (\<lambda>c. c = CHR ''-'') s @ ?t" by simp
  moreover have "?t = strip_hyphens s @ rev (takeWhile (\<lambda>c. c = CHR ''-'') (rev ?t))"
    unfolding strip_hyphens_def by (metis rev_append rev_rev_ident takeWhile_dropWhile_id)
  ultimately show ?thesis by metis
qed

lemma strip_hyphens_ends:
  "strip_hyphens s \<noteq> [] \<Longrightarrow> hd (strip_hyphens s) \<noteq> CHR ''-'' \<and> last (strip_hyphens s) \<noteq> CHR ''-''"
proof -
  assume ne: "strip_hyphens s \<noteq> []"
  let ?t = "dropWhile (\<lambda>c. c = CHR ''-'') s"
  let ?r = "dropWhile (\<lambda>c. c = CHR ''-'') (rev ?t)"
  have r: "?r \<noteq> []" using ne by (simp add: strip_hyphens_def)
  then have "hd ?r \<noteq> CHR ''-''" using hd_dropWhile [of "\<lambda>c. c = CHR ''-''" "rev ?t"] by blast
  moreover have "last (strip_hyphens s) = hd ?r" using r by (simp add: strip_hyphens_def last_rev)
  moreover have "hd (strip_hyphens s) \<noteq> CHR ''-''"
  proof -
    have t: "?t = strip_hyphens s @ rev (takeWhile (\<lambda>c. c = CHR ''-'') (rev ?t))"
    unfolding strip_hyphens_def by (metis rev_append rev_rev_ident takeWhile_dropWhile_id)
    have "hd ?t = hd (strip_hyphens s)" by (subst t) (simp add: ne)
    moreover have "?t \<noteq> []" using r by (metis dropWhile.simps(1) rev.simps(1))
    ultimately show ?thesis using hd_dropWhile [of "\<lambda>c. c = CHR ''-''" s] by metis
  qed
  ultimately show ?thesis by simp
qed

lemma dashed_slug:
  "dashed s \<Longrightarrow> s \<noteq> [] \<Longrightarrow> hd s \<noteq> CHR ''-'' \<Longrightarrow> last s \<noteq> CHR ''-'' \<Longrightarrow> slug_pattern s"
proof (induction s rule: length_induct)
  case (1 s)
  then obtain c t where s: "s = c # t" by (cases s) auto
  with 1(2,4) have c: "slug_char c" "c \<noteq> CHR ''-''" by (auto simp: dashed_def)
  show ?case
  proof (cases t)
    case Nil
    with c s show ?thesis by (simp add: slug_pattern_def)
  next
    case t: (Cons d u)
    show ?thesis
    proof (cases "d = CHR ''-''")
      case False
      have "dashed t" using 1(2) s dashed_sublist [of "[c]" t "[]"] by simp
      with 1(1,5) s t False have "slug_pattern t" by simp
      with c s t False show ?thesis by (auto simp: slug_pattern_def split: list.splits)
    next
      case True
      have u: "u \<noteq> []" using 1(5) s t True by auto
      have "dashed u" using 1(2) s t dashed_sublist [of "[c, d]" u "[]"] by simp
      moreover have "hd u \<noteq> CHR ''-''" using 1(2) s t True u by (cases u) (auto simp: dashed_def)
      ultimately have "slug_pattern u" using 1(1,5) s t u by simp
      with c s t True show ?thesis by (simp add: slug_pattern_def)
    qed
  qed
qed

text \<open>
  Also shown. What \<open>slugify\<close> makes of a name is a slug or nothing: lowercase words of ASCII letters and digits joined by
  single hyphens, at most 64 characters, whatever the name and however it is normalized, also where the cut at 64
  falls on a hyphen.
\<close>

theorem slugify_valid: "slugify nfkd name = [] \<or> isValidSlug (slugify nfkd name)"
proof -
  let ?t = "take SLUG_MAX_LENGTH (hyphenate (to_lower (nfkd name)))"
  obtain u v where uv: "?t = u @ strip_hyphens ?t @ v" using strip_hyphens_sublist by blast
  have "dashed (strip_hyphens ?t)"
    using dashed_take [OF hyphenate_dashed] uv by (metis dashed_sublist)
  moreover have "length (strip_hyphens ?t) \<le> SLUG_MAX_LENGTH"
    using arg_cong [OF uv, of length] by simp
  ultimately show ?thesis
    using dashed_slug [of "strip_hyphens ?t"] strip_hyphens_ends [of ?t] by (auto simp: slugify_def isValidSlug_def)
qed

section \<open>A path leads back to what it was made of\<close>

lemma index_of_skip: "c \<notin> set s \<Longrightarrow> index_of (c # p) (s @ t) = map_option ((+) (length s)) (index_of (c # p) t)"
proof (induction s)
  case Nil
  then show ?case by (simp add: option.map_id0 flip: id_def)
next
  case (Cons x s)
  then have "\<not> starts_with (c # p) ((x # s) @ t)" by (auto simp: starts_with_def)
  with Cons show ?case by (simp add: option.map_comp comp_def)
qed

text \<open>An unreserved character stands for itself, so an encoded text begins as the text does.\<close>

lemma encode_starts:
  "list_all uri_unreserved p \<Longrightarrow> starts_with p (encodeURIComponent s) \<longleftrightarrow> starts_with p s"
proof (induction p arbitrary: s)
  case Nil
  then show ?case by (simp add: starts_with_def)
next
  case (Cons c p)
  show ?case
  proof (cases s)
    case Nil
    then show ?thesis by (simp add: encodeURIComponent_def starts_with_def)
  next
    case s: (Cons d u)
    show ?thesis
    proof (cases "uri_unreserved d")
      case True
      with Cons s show ?thesis by (auto simp: encodeURIComponent_def encode_char_def starts_with_def)
    next
      case False
      with Cons.prems have "c \<noteq> d" by auto
      moreover obtain v where "encode_char d = CHR ''%'' # v" using escaped_percent [OF False] ..
      moreover have "c \<noteq> CHR ''%''" using Cons.prems percent_not_unreserved by auto
      ultimately show ?thesis using s by (auto simp: encodeURIComponent_def starts_with_def)
    qed
  qed
qed

lemma encode_ne: "s \<noteq> [] \<Longrightarrow> encodeURIComponent s \<noteq> []"
  using encode_char_ne by (cases s) (auto simp: encodeURIComponent_def)

definition settings_id :: "string \<Rightarrow> bool" where
  "settings_id i \<longleftrightarrow> starts_with ''settings'' i"

text \<open>Where the settings suffix is found in a path of a workbench.\<close>

lemma no_settings_in_id:
  assumes "\<not> settings_id i" and "rest = [] \<or> starts_with ''/'' rest"
  shows "\<not> starts_with ''/settings'' (CHR ''/'' # encodeURIComponent i @ rest)"
proof
  assume "starts_with ''/settings'' (CHR ''/'' # encodeURIComponent i @ rest)"
  then have st: "take 8 (encodeURIComponent i @ rest) = ''settings''" by (simp add: starts_with_def eval_nat_numeral)
  have "list_all uri_unreserved ''settings''" by code_simp
  with assms(1) have no: "take 8 (encodeURIComponent i) \<noteq> ''settings''"
    using encode_starts [of "''settings''" i] by (simp add: settings_id_def starts_with_def eval_nat_numeral)
  show False
  proof (cases "length (encodeURIComponent i) < 8")
    case True
    from st have "length (take 8 (encodeURIComponent i @ rest)) = 8" by simp
    with True have "rest \<noteq> []" by auto
    with assms(2) obtain r where r: "rest = CHR ''/'' # r" by (auto simp: starts_with_iff)
    have "CHR ''/'' \<in> set (take 8 (encodeURIComponent i @ rest))" using True r by (simp add: take_Cons')
    with st show False by simp
  next
    case False
    with st no show False by simp
  qed
qed

lemma settings_found:
  assumes "\<not> settings_id i"
  shows "index_of (''/settings'' @ q) (''/w/'' @ encodeURIComponent i @ ''/settings'' @ q @ rest) =
     Some (3 + length (encodeURIComponent i))"
proof -
  let ?tail = "''/settings'' @ q @ rest"
  have "index_of (CHR ''/'' # ''settings'' @ q) (encodeURIComponent i @ ?tail) = Some (length (encodeURIComponent i))"
    using index_of_skip [OF encode_no_slash, of "''settings'' @ q" i ?tail] by (simp add: starts_with_def)
  moreover have "\<not> starts_with (''/settings'' @ q) (CHR ''/'' # encodeURIComponent i @ ?tail)"
    using no_settings_in_id [OF assms, of ?tail] by (auto simp: starts_with_iff)
  ultimately show ?thesis by (simp add: starts_with_def)
qed

lemma drop_at: "n = length u \<Longrightarrow> drop n (u @ v) = v"
  by simp

lemma settings_not_found:
  assumes "\<not> settings_id i"
  shows "index_of ''/settings'' (''/w/'' @ encodeURIComponent i) = None"
proof -
  have "index_of ''/settings'' (encodeURIComponent i) = None"
    using index_of_skip [OF encode_no_slash, of "''settings''" i "[]"] by simp
  moreover have "\<not> starts_with ''/settings'' (CHR ''/'' # encodeURIComponent i)"
    using no_settings_in_id [OF assms, of "[]"] by simp
  ultimately show ?thesis by (simp add: starts_with_def)
qed

lemmas path_defs = WORKBENCH_PATH_PREFIX_def LEGACY_CHAT_PATH_PREFIX_def SETTINGS_SUFFIX_def workbenchPath_def
  workbenchSettingsPath_def decodedOrNull_def

lemma id_under_base:
  "i \<noteq> [] \<Longrightarrow> id_under [WORKBENCH_PATH_PREFIX, LEGACY_CHAT_PATH_PREFIX] (''/w/'' @ encodeURIComponent i) = Some i"
  using encode_ne [of i] by (simp add: path_defs decode_encode starts_with_def)

lemma id_of_path: "i \<noteq> [] \<Longrightarrow> \<not> settings_id i \<Longrightarrow> workbenchIdFromPath (workbenchPath (Some i)) = Some i"
  using settings_not_found [of i] id_under_base [of i]
  by (simp add: workbenchIdFromPath_def withoutSettingsSuffix_def path_defs)

lemma without_suffix:
  assumes "\<not> settings_id i" and "rest = [] \<or> starts_with ''/'' rest"
  shows "withoutSettingsSuffix (''/w/'' @ encodeURIComponent i @ ''/settings'' @ rest) = ''/w/'' @ encodeURIComponent i"
proof -
  have found: "index_of SETTINGS_SUFFIX (''/w/'' @ encodeURIComponent i @ ''/settings'' @ rest) =
      Some (length (''/w/'' @ encodeURIComponent i))"
    using settings_found [OF assms(1), of "[]" rest] by (simp add: path_defs)
  have "drop (length (''/w/'' @ encodeURIComponent i) + length SETTINGS_SUFFIX)
      (''/w/'' @ encodeURIComponent i @ ''/settings'' @ rest) = rest"
    by (simp add: path_defs)
  then show ?thesis
    using assms(2) unfolding withoutSettingsSuffix_def found by (auto simp: Let_def)
qed

lemma id_of_settings:
  "i \<noteq> [] \<Longrightarrow> \<not> settings_id i \<Longrightarrow> workbenchIdFromPath (workbenchSettingsPath i secn entity) = Some i"
proof -
  assume i: "i \<noteq> []" "\<not> settings_id i"
  obtain rest where "workbenchSettingsPath i secn entity = ''/w/'' @ encodeURIComponent i @ ''/settings'' @ rest"
    and "rest = [] \<or> starts_with ''/'' rest"
    by (cases secn; cases entity) (auto simp: path_defs starts_with_def)
  with i show ?thesis using without_suffix [of i rest] id_under_base [of i] by (simp add: workbenchIdFromPath_def)
qed

lemma section_facts:
  "secn \<in> set WORKBENCH_SETTINGS_SECTION_IDS \<Longrightarrow>
   secn \<noteq> [] \<and> CHR ''/'' \<notin> set secn \<and> decodeURIComponent secn = Some secn"
proof -
  assume "secn \<in> set WORKBENCH_SETTINGS_SECTION_IDS"
  moreover have "list_all (\<lambda>s. s \<noteq> [] \<and> CHR ''/'' \<notin> set s \<and> encodeURIComponent s = s) WORKBENCH_SETTINGS_SECTION_IDS"
    by code_simp
  ultimately show ?thesis using decode_encode [of secn] by (auto simp: list_all_iff)
qed

lemma section_of_settings:
  assumes "\<not> settings_id i" and "secn \<in> set WORKBENCH_SETTINGS_SECTION_IDS"
  shows "workbenchSettingsSectionFromPath (workbenchSettingsPath i (Some secn) entity) = Some secn"
proof -
  obtain rest where rest: "rest = [] \<or> (\<exists>r. rest = CHR ''/'' # r)"
    and path: "workbenchSettingsPath i (Some secn) entity = ''/w/'' @ encodeURIComponent i @ ''/settings'' @ ''/'' @ secn @ rest"
    by (cases entity) (auto simp: path_defs)
  have found: "index_of (SETTINGS_SUFFIX @ ''/'') (workbenchSettingsPath i (Some secn) entity) = Some (3 + length (encodeURIComponent i))"
    unfolding path using settings_found [OF assms(1), of "''/''" "secn @ rest"] by (simp add: path_defs)
  have "workbenchSettingsPath i (Some secn) entity = (''/w/'' @ encodeURIComponent i @ ''/settings/'') @ secn @ rest"
    unfolding path by simp
  then have "drop (3 + length (encodeURIComponent i) + length SETTINGS_SUFFIX + 1) (workbenchSettingsPath i (Some secn) entity) = secn @ rest"
    by (simp only: drop_at [of _ "''/w/'' @ encodeURIComponent i @ ''/settings/''"] SETTINGS_SUFFIX_def length_append list.size)
  moreover have "hd (split_on CHR ''/'' (secn @ rest)) = secn"
    using rest section_facts [OF assms(2)] by (auto simp: split_on_append split_on_no_sep)
  ultimately show ?thesis
    unfolding workbenchSettingsSectionFromPath_def found
    using section_facts [OF assms(2)] assms(2) by (simp add: Let_def decodedOrNull_def)
qed

lemma entity_of_settings:
  assumes "\<not> settings_id i" and "entity \<noteq> []"
  shows "workbenchSettingsEntityIdFromPath (workbenchSettingsPath i (Some secn) (Some entity)) secn = Some entity"
proof -
  let ?q = "CHR ''/'' # secn @ ''/''"
  let ?path = "workbenchSettingsPath i (Some secn) (Some entity)"
  have path: "?path = ''/w/'' @ encodeURIComponent i @ ''/settings'' @ ?q @ encodeURIComponent entity"
    by (simp add: path_defs)
  have found: "index_of (SETTINGS_SUFFIX @ ''/'' @ secn @ ''/'') ?path = Some (3 + length (encodeURIComponent i))"
    unfolding path using settings_found [OF assms(1), of ?q "encodeURIComponent entity"] by (simp add: path_defs)
  have "?path = (''/w/'' @ encodeURIComponent i @ ''/settings/'' @ secn @ ''/'') @ encodeURIComponent entity"
    unfolding path by simp
  then have "drop (3 + length (encodeURIComponent i) + length (SETTINGS_SUFFIX @ ''/'' @ secn @ ''/'')) ?path = encodeURIComponent entity"
    by (simp only: drop_at [of _ "''/w/'' @ encodeURIComponent i @ ''/settings/'' @ secn @ ''/''"] SETTINGS_SUFFIX_def length_append list.size)
  then show ?thesis
    unfolding workbenchSettingsEntityIdFromPath_def Let_def found using encode_ne [OF assms(2)]
    by (simp add: decodedOrNull_def decode_encode)
qed

text \<open>
  Also shown. A deep link to a workbench leads back to it: of the path built for a workbench, and of the path of its
  settings with a section and an entity, the parsers give the id, the section and the entity, whatever characters
  they are made of. The id must not be empty and must not begin with "settings".
\<close>

theorem workbench_paths_roundtrip:
  assumes "i \<noteq> []" and "\<not> settings_id i" and "secn \<in> set WORKBENCH_SETTINGS_SECTION_IDS" and "entity \<noteq> []"
  shows "workbenchIdFromPath (workbenchPath (Some i)) = Some i \<and>
    workbenchIdFromPath (workbenchSettingsPath i sec ent) = Some i \<and>
    workbenchSettingsSectionFromPath (workbenchSettingsPath i (Some secn) ent) = Some secn \<and>
    workbenchSettingsEntityIdFromPath (workbenchSettingsPath i (Some secn) (Some entity)) secn = Some entity"
  by (intro conjI id_of_path id_of_settings section_of_settings entity_of_settings assms)

theorem workbench_paths_roundtrip_witness:
  "workbenchIdFromPath (workbenchSettingsPath ''a/b'' (Some ''agents'') (Some ''x'')) = Some ''a/b'' \<and>
   workbenchSettingsEntityIdFromPath (workbenchSettingsPath ''a/b'' (Some ''agents'') (Some ''x'')) ''agents'' = Some ''x''"
proof -
  have "''agents'' \<in> set WORKBENCH_SETTINGS_SECTION_IDS" by code_simp
  moreover have "\<not> settings_id ''a/b''" by code_simp
  ultimately show ?thesis
    using workbench_paths_roundtrip [of "''a/b''" "''agents''" "''x''" "Some ''agents''" "Some ''x''"]
    by (simp only: not_Cons_self2 list.distinct simp_thms)
qed

text \<open>An id that begins with "settings" is taken for the settings suffix, and the path of the workbench names none.\<close>

lemma settings_id_lost:
  "workbenchIdFromPath (workbenchPath (Some ''settings'')) = None \<and>
   workbenchIdFromPath (workbenchSettingsPath ''settings-team'' None None) = Some ''settings-team/settings''"
  by code_simp

section \<open>The Insights routes\<close>

lemma one_segment_encode:
  "i \<noteq> [] \<Longrightarrow> one_segment pre (pre @ ''/'' @ encodeURIComponent i) = Some (encodeURIComponent i)"
  using encode_ne [of i] encode_no_slash [of i] by (simp add: one_segment_def split_on_no_sep starts_with_iff)

lemma insights_paths_roundtrip:
  assumes "i \<noteq> []"
  shows "parseInsightsPath (workbenchInsightsPath i) = InsightsWorkbench i \<and> parseInsightsPath (runDetailPath i) = InsightsRun i"
proof -
  have "one_segment (INSIGHTS_PATH_PREFIX @ ''/workbench'') (workbenchInsightsPath i) = Some (encodeURIComponent i)"
    using one_segment_encode [OF assms, of "INSIGHTS_PATH_PREFIX @ ''/workbench''"] by (simp add: workbenchInsightsPath_def)
  moreover have "one_segment (INSIGHTS_PATH_PREFIX @ ''/workbench'') (runDetailPath i) = None"
    by (simp add: one_segment_def runDetailPath_def INSIGHTS_RUNS_PATH_def INSIGHTS_PATH_PREFIX_def starts_with_def)
  moreover have "one_segment INSIGHTS_RUNS_PATH (runDetailPath i) = Some (encodeURIComponent i)"
    using one_segment_encode [OF assms, of INSIGHTS_RUNS_PATH] by (simp add: runDetailPath_def)
  moreover have "runDetailPath i \<noteq> INSIGHTS_PATH_PREFIX \<and> runDetailPath i \<noteq> INSIGHTS_PATH_PREFIX @ ''/'' \<and>
      runDetailPath i \<noteq> INSIGHTS_RUNS_PATH \<and> runDetailPath i \<noteq> INSIGHTS_RUNS_PATH @ ''/''"
    using encode_ne [OF assms] by (simp add: runDetailPath_def INSIGHTS_RUNS_PATH_def INSIGHTS_PATH_PREFIX_def)
  ultimately show ?thesis by (simp add: parseInsightsPath_def decodedOrNull_def decode_encode)
qed

section \<open>No sign-in leads away\<close>

text \<open>
  Also shown. Wherever a sign-in goes on, it is a path of the app: it begins with one slash, that no slash or backslash
  follows, holds no scheme, and is not the login page again. A safe \<open>next\<close> is kept as it is.
\<close>

theorem next_path_in_app:
  "starts_with ''/'' (validatedNextPath p) \<and> \<not> starts_with ''//'' (validatedNextPath p) \<and>
   \<not> starts_with [CHR ''/'', CHR 0x5C] (validatedNextPath p) \<and> \<not> contains ''://'' (validatedNextPath p) \<and>
   validatedNextPath p \<noteq> LOGIN_PATH \<and> \<not> starts_with (LOGIN_PATH @ ''/'') (validatedNextPath p) \<and>
   \<not> starts_with (LOGIN_PATH @ ''?'') (validatedNextPath p) \<and> validatedNextPath (Some (validatedNextPath p)) = validatedNextPath p"
proof -
  have root: "starts_with ''/'' ''/'' \<and> \<not> starts_with ''//'' ''/'' \<and> \<not> starts_with [CHR ''/'', CHR 0x5C] ''/'' \<and>
      \<not> contains ''://'' ''/'' \<and> ''/'' \<noteq> LOGIN_PATH \<and> \<not> starts_with (LOGIN_PATH @ ''/'') ''/'' \<and>
      \<not> starts_with (LOGIN_PATH @ ''?'') ''/''"
    by code_simp
  then show ?thesis by (cases p) (simp_all add: validatedNextPath_def)
qed

text \<open>A tab after the slash passes: a URL parser drops it and reads what follows as a host.\<close>

lemma tab_passes: "validatedNextPath (Some [CHR ''/'', CHR 0x09, CHR ''/'', CHR ''e'']) = [CHR ''/'', CHR 0x09, CHR ''/'', CHR ''e'']"
  by code_simp

end
