(* ===== verification/Shell_Canvas.thy ===== *)
theory Shell_Canvas
  imports App_Paths
begin

text \<open>
  The canvas column of the shell, \<open>apps/web/src/shell\<close>: its transitions (\<open>layout/canvas-column-state.ts\<close>), when the
  viewport has room for it (\<open>layout/breakpoints.ts\<close>), the host that drives it (\<open>shell-chrome-provider.tsx\<close>) as a
  step function over what the person and the router do, and the flag of a dialog asked for from another page
  (\<open>layout/pending-dialog-request.ts\<close>).
\<close>

section \<open>The column\<close>

record ('p, 'a, 'r) canvas =
  cv_open :: bool
  cv_profile :: "'p option"
  cv_artifact :: "'a option"
  cv_routine :: "'r option"
  cv_focus :: bool

definition initialCanvasColumnState :: "('p, 'a, 'r) canvas" where
  "initialCanvasColumnState = \<lparr>cv_open = False, cv_profile = None, cv_artifact = None, cv_routine = None, cv_focus = False\<rparr>"

definition clearCanvasForTenantSwitch :: "('p, 'a, 'r) canvas" where
  "clearCanvasForTenantSwitch = initialCanvasColumnState"

definition openProfileInCanvas :: "'p \<Rightarrow> ('p, 'a, 'r) canvas \<Rightarrow> ('p, 'a, 'r) canvas" where
  "openProfileInCanvas p s = s\<lparr>cv_open := True, cv_profile := Some p, cv_artifact := None, cv_routine := None\<rparr>"

definition clearProfileInCanvas :: "('p, 'a, 'r) canvas \<Rightarrow> ('p, 'a, 'r) canvas" where
  "clearProfileInCanvas s = s\<lparr>cv_open := False, cv_profile := None, cv_focus := False\<rparr>"

definition openArtifactInCanvas :: "'a \<Rightarrow> ('p, 'a, 'r) canvas \<Rightarrow> ('p, 'a, 'r) canvas" where
  "openArtifactInCanvas a s = s\<lparr>cv_open := True, cv_artifact := Some a, cv_profile := None, cv_routine := None\<rparr>"

definition clearArtifactInCanvas :: "('p, 'a, 'r) canvas \<Rightarrow> ('p, 'a, 'r) canvas" where
  "clearArtifactInCanvas s = s\<lparr>cv_open := False, cv_artifact := None, cv_focus := False\<rparr>"

definition openRoutineInCanvas :: "'r \<Rightarrow> ('p, 'a, 'r) canvas \<Rightarrow> ('p, 'a, 'r) canvas" where
  "openRoutineInCanvas r s = s\<lparr>cv_open := True, cv_routine := Some r, cv_profile := None, cv_artifact := None\<rparr>"

definition clearRoutineInCanvas :: "('p, 'a, 'r) canvas \<Rightarrow> ('p, 'a, 'r) canvas" where
  "clearRoutineInCanvas s = s\<lparr>cv_open := False, cv_routine := None, cv_focus := False\<rparr>"

definition focusCanvas :: "('p, 'a, 'r) canvas \<Rightarrow> ('p, 'a, 'r) canvas" where
  "focusCanvas s = s\<lparr>cv_open := True, cv_focus := True\<rparr>"

definition unfocusCanvas :: "('p, 'a, 'r) canvas \<Rightarrow> ('p, 'a, 'r) canvas" where
  "unfocusCanvas s = s\<lparr>cv_focus := False\<rparr>"

definition toggleCanvasFocus :: "('p, 'a, 'r) canvas \<Rightarrow> ('p, 'a, 'r) canvas" where
  "toggleCanvasFocus s = (if \<not> cv_open s then s else if cv_focus s then unfocusCanvas s else focusCanvas s)"

definition closeCanvasContent :: "('p, 'a, 'r) canvas \<Rightarrow> ('p, 'a, 'r) canvas" where
  "closeCanvasContent s =
     (if cv_profile s \<noteq> None then clearProfileInCanvas s
      else if cv_artifact s \<noteq> None then clearArtifactInCanvas s
      else if cv_routine s \<noteq> None then clearRoutineInCanvas s
      else s\<lparr>cv_open := False, cv_focus := False\<rparr>)"

definition resolveCanvasVisibility :: "('p, 'a, 'r) canvas \<Rightarrow> bool \<Rightarrow> bool" where
  "resolveCanvasVisibility s allowed \<longleftrightarrow> cv_open s \<and> allowed"

definition resolveCanvasFocus :: "('p, 'a, 'r) canvas \<Rightarrow> bool \<Rightarrow> bool" where
  "resolveCanvasFocus s allowed \<longleftrightarrow> cv_open s \<and> cv_focus s \<and> allowed"

lemmas canvas_defs = initialCanvasColumnState_def clearCanvasForTenantSwitch_def openProfileInCanvas_def clearProfileInCanvas_def
  openArtifactInCanvas_def clearArtifactInCanvas_def openRoutineInCanvas_def clearRoutineInCanvas_def focusCanvas_def
  unfocusCanvas_def toggleCanvasFocus_def closeCanvasContent_def

subsection \<open>The viewport\<close>

datatype layout_mode = Expanded | Compact | Narrow

definition COMPACT_MAX_WIDTH :: nat where "COMPACT_MAX_WIDTH = 1100"
definition NARROW_MAX_WIDTH :: nat where "NARROW_MAX_WIDTH = 700"

definition shellLayoutModeFromMatches :: "bool \<Rightarrow> bool \<Rightarrow> layout_mode" where
  "shellLayoutModeFromMatches narrow compact = (if narrow then Narrow else if compact then Compact else Expanded)"

definition shellLayoutModeForWidth :: "nat \<Rightarrow> layout_mode" where
  "shellLayoutModeForWidth w = shellLayoutModeFromMatches (w < NARROW_MAX_WIDTH) (w < COMPACT_MAX_WIDTH)"

definition canvasColumnAllowed :: "layout_mode \<Rightarrow> bool" where
  "canvasColumnAllowed m \<longleftrightarrow> m = Expanded"

text \<open>The queries of \<open>use-shell-layout.ts\<close>: the widest width each matches.\<close>

definition narrow_query :: "nat \<Rightarrow> bool" where "narrow_query w \<longleftrightarrow> w \<le> NARROW_MAX_WIDTH - 1"
definition compact_query :: "nat \<Rightarrow> bool" where "compact_query w \<longleftrightarrow> w \<le> COMPACT_MAX_WIDTH - 1"

lemma queries_agree: "shellLayoutModeFromMatches (narrow_query w) (compact_query w) = shellLayoutModeForWidth w"
  by (auto simp: shellLayoutModeFromMatches_def shellLayoutModeForWidth_def narrow_query_def compact_query_def
      NARROW_MAX_WIDTH_def COMPACT_MAX_WIDTH_def)

section \<open>The host\<close>

record ('p, 'a, 'r) shell =
  sh_canvas :: "('p, 'a, 'r) canvas"
  sh_appliedTenant :: "string option"
  sh_appliedPrefix :: string

definition inAppRoutePrefix :: "string \<Rightarrow> string" where
  "inAppRoutePrefix path =
     (let pathname = hd (split_on CHR ''#'' (hd (split_on CHR ''?'' path)));
          trimmed = (if starts_with ''/'' pathname then tl pathname else pathname)
      in hd (split_on CHR ''/'' trimmed))"

text \<open>What a render does to the state before it paints.\<close>

definition render :: "string option \<Rightarrow> string \<Rightarrow> ('p, 'a, 'r) shell \<Rightarrow> ('p, 'a, 'r) shell" where
  "render tenant path s =
     (let prefix = inAppRoutePrefix path in
      if sh_appliedTenant s \<noteq> tenant then
        s\<lparr>sh_canvas := (if sh_appliedTenant s \<noteq> None \<and> tenant \<noteq> None then clearCanvasForTenantSwitch else sh_canvas s),
          sh_appliedTenant := tenant, sh_appliedPrefix := prefix\<rparr>
      else if sh_appliedPrefix s \<noteq> prefix then s\<lparr>sh_canvas := closeCanvasContent (sh_canvas s), sh_appliedPrefix := prefix\<rparr>
      else s)"

text \<open>Where the same render sends the person, on a microtask.\<close>

definition render_navigates :: "string option \<Rightarrow> string \<Rightarrow> ('p, 'a, 'r) shell \<Rightarrow> string option" where
  "render_navigates tenant path s =
     (if sh_appliedTenant s \<noteq> tenant \<and> sh_appliedTenant s \<noteq> None \<and> tenant \<noteq> None \<and>
         isWorkbenchPath path \<and> workbenchIdFromPath path \<noteq> None
      then Some (workbenchPath None) else None)"

datatype ('p, 'a, 'r) host_event =
    Render "string option" string
  | OpenProfile 'p
  | OpenArtifact 'a
  | OpenRoutine 'r
  | CloseCanvas
  | ToggleFocus

text \<open>\<open>openRoutine\<close> of the host does nothing.\<close>

fun host_step :: "('p, 'a, 'r) host_event \<Rightarrow> ('p, 'a, 'r) shell \<Rightarrow> ('p, 'a, 'r) shell" where
  "host_step (Render tenant path) s = render tenant path s"
| "host_step (OpenProfile p) s = s\<lparr>sh_canvas := openProfileInCanvas p (sh_canvas s)\<rparr>"
| "host_step (OpenArtifact a) s = s\<lparr>sh_canvas := openArtifactInCanvas a (sh_canvas s)\<rparr>"
| "host_step (OpenRoutine r) s = s"
| "host_step CloseCanvas s = s\<lparr>sh_canvas := closeCanvasContent (sh_canvas s)\<rparr>"
| "host_step ToggleFocus s = s\<lparr>sh_canvas := toggleCanvasFocus (sh_canvas s)\<rparr>"

definition initial_shell :: "string option \<Rightarrow> string \<Rightarrow> ('p, 'a, 'r) shell" where
  "initial_shell tenant path =
     \<lparr>sh_canvas = initialCanvasColumnState, sh_appliedTenant = tenant, sh_appliedPrefix = inAppRoutePrefix path\<rparr>"

text \<open>What a person opens belongs to the workbench selected then; \<open>of_p\<close> and \<open>of_a\<close> tell which.\<close>

definition opens_own :: "('p \<Rightarrow> string option) \<Rightarrow> ('a \<Rightarrow> string option) \<Rightarrow> ('p, 'a, 'r) host_event \<Rightarrow> ('p, 'a, 'r) shell \<Rightarrow> bool" where
  "opens_own of_p of_a e s \<longleftrightarrow>
     (case e of OpenProfile p \<Rightarrow> of_p p = sh_appliedTenant s | OpenArtifact a \<Rightarrow> of_a a = sh_appliedTenant s
      | Render tenant _ \<Rightarrow> tenant \<noteq> None | _ \<Rightarrow> True)"

inductive host_run :: "('p \<Rightarrow> string option) \<Rightarrow> ('a \<Rightarrow> string option) \<Rightarrow> ('p, 'a, 'r) shell \<Rightarrow> bool"
  for of_p of_a where
  start: "tenant \<noteq> None \<Longrightarrow> host_run of_p of_a (initial_shell tenant path)"
| event: "host_run of_p of_a s \<Longrightarrow> opens_own of_p of_a e s \<Longrightarrow> host_run of_p of_a (host_step e s)"

text \<open>
  The column's invariant: it holds at most one thing, it is open exactly when it holds one, it has the focus only
  when it is open; and what it holds belongs to the tenant the host last applied.
\<close>

definition canvas_ok :: "('p, 'a, 'r) canvas \<Rightarrow> bool" where
  "canvas_ok c \<longleftrightarrow>
     length (filter id [cv_profile c \<noteq> None, cv_artifact c \<noteq> None, cv_routine c \<noteq> None]) = (if cv_open c then 1 else 0) \<and>
     (cv_focus c \<longrightarrow> cv_open c)"

definition owned :: "('p \<Rightarrow> string option) \<Rightarrow> ('a \<Rightarrow> string option) \<Rightarrow> ('p, 'a, 'r) shell \<Rightarrow> bool" where
  "owned of_p of_a s \<longleftrightarrow>
     (case cv_profile (sh_canvas s) of None \<Rightarrow> True | Some p \<Rightarrow> of_p p = sh_appliedTenant s) \<and>
     (case cv_artifact (sh_canvas s) of None \<Rightarrow> True | Some a \<Rightarrow> of_a a = sh_appliedTenant s)"

lemma canvas_ok_initial [simp]: "canvas_ok initialCanvasColumnState"
  by (simp add: canvas_ok_def canvas_defs)

lemma canvas_ok_open [simp]:
  "canvas_ok c \<Longrightarrow> canvas_ok (openProfileInCanvas p c)" "canvas_ok c \<Longrightarrow> canvas_ok (openArtifactInCanvas a c)"
  "canvas_ok c \<Longrightarrow> canvas_ok (openRoutineInCanvas r c)"
  by (simp_all add: canvas_ok_def canvas_defs)

lemma canvas_ok_close [simp]: "canvas_ok c \<Longrightarrow> canvas_ok (closeCanvasContent c)"
  by (auto simp: canvas_ok_def canvas_defs split: if_splits)

lemma canvas_ok_toggle [simp]: "canvas_ok c \<Longrightarrow> canvas_ok (toggleCanvasFocus c)"
  by (auto simp: canvas_ok_def canvas_defs split: if_splits)

text \<open>Closing leaves nothing, and the control of the focus undoes itself.\<close>

lemma close_is_initial: "canvas_ok c \<Longrightarrow> closeCanvasContent c = initialCanvasColumnState"
  by (auto simp: canvas_ok_def canvas_defs intro: canvas.equality split: if_splits)

lemma toggle_twice: "canvas_ok c \<Longrightarrow> toggleCanvasFocus (toggleCanvasFocus c) = c"
  by (auto simp: canvas_ok_def canvas_defs)

lemma host_step_ok: "canvas_ok (sh_canvas s) \<Longrightarrow> canvas_ok (sh_canvas (host_step e s))"
  by (cases e) (simp_all add: render_def Let_def clearCanvasForTenantSwitch_def)

lemma host_step_owned:
  assumes "owned of_p of_a s" and "canvas_ok (sh_canvas s)" and "opens_own of_p of_a e s" and "sh_appliedTenant s \<noteq> None"
  shows "owned of_p of_a (host_step e s) \<and> sh_appliedTenant (host_step e s) \<noteq> None"
proof (cases e)
  case (Render tenant path)
  with assms close_is_initial [OF assms(2)] show ?thesis
    by (auto simp: owned_def opens_own_def render_def Let_def clearCanvasForTenantSwitch_def initialCanvasColumnState_def)
next
  case CloseCanvas
  with assms close_is_initial [OF assms(2)] show ?thesis by (simp add: owned_def initialCanvasColumnState_def)
next
  case ToggleFocus
  with assms show ?thesis by (auto simp: owned_def toggleCanvasFocus_def focusCanvas_def unfocusCanvas_def split: option.splits)
qed (use assms in \<open>auto simp: owned_def opens_own_def openProfileInCanvas_def openArtifactInCanvas_def\<close>)

text \<open>
  C36. The canvas never shows a frame of another workbench: whatever is opened, closed, focused and navigated, as long
  as a workbench stays selected, the column holds at most one thing, is open exactly when it holds one, has the focus
  only when open, and what it holds was opened in the workbench that is selected now.
\<close>

theorem canvas_invariant:
  assumes "host_run of_p of_a s"
  shows "canvas_ok (sh_canvas s) \<and> owned of_p of_a s \<and> sh_appliedTenant s \<noteq> None"
  using assms
proof (induction rule: host_run.induct)
  case (start tenant path)
  then show ?case by (simp add: initial_shell_def owned_def canvas_ok_def initialCanvasColumnState_def)
next
  case (event s e)
  then show ?case using host_step_ok [of s e] host_step_owned [of of_p of_a s e] by blast
qed

definition demo_start :: "(string option, string option, string option) shell" where
  "demo_start = initial_shell (Some ''a'') ''/w''"

lemma demo_opened: "host_run id id (host_step (OpenProfile (Some ''a'')) demo_start)"
  unfolding demo_start_def by (rule host_run.event [OF host_run.start]) (simp_all add: opens_own_def initial_shell_def)

theorem canvas_invariant_witness:
  "cv_profile (sh_canvas (host_step (OpenProfile (Some ''a'')) demo_start)) = Some (Some ''a'') \<and>
   owned id id (host_step (OpenProfile (Some ''a'')) demo_start)"
  using canvas_invariant [OF demo_opened] by (simp add: openProfileInCanvas_def)

text \<open>After a switch the path names no workbench, so the next render does not navigate again.\<close>

lemma switch_leaves_conversation:
  "render_navigates tenant path s = Some p \<Longrightarrow> workbenchIdFromPath p = None \<and> render_navigates other p s' = None"
  by (auto simp: render_navigates_def workbenchPath_def workbenchIdFromPath_def withoutSettingsSuffix_def
      WORKBENCH_PATH_PREFIX_def SETTINGS_SUFFIX_def starts_with_def split: if_splits)

text \<open>When no workbench is selected for a moment between two, what the first had open is still there in the second.\<close>

lemma content_survives_no_workbench:
  "let s = fold host_step [OpenProfile (Some ''a''), Render None ''/w'', Render (Some ''b'') ''/w''] demo_start in
     sh_appliedTenant s = Some ''b'' \<and> cv_profile (sh_canvas s) = Some (Some ''a'') \<and> cv_open (sh_canvas s)"
  by code_simp

section \<open>A dialog asked for elsewhere\<close>

text \<open>\<open>request\<close> answers whether the dialog opens now; otherwise the page navigated to takes the flag.\<close>

definition pending_request :: "bool \<Rightarrow> bool \<Rightarrow> bool \<times> bool" where
  "pending_request alreadyThere pending = (if alreadyThere then (True, pending) else (False, True))"

definition consumePending :: "bool \<Rightarrow> bool \<times> bool" where
  "consumePending pending = (if \<not> pending then (False, pending) else (True, False))"

text \<open>What was asked for is taken by exactly one page.\<close>

lemma request_consumed_once:
  "consumePending (snd (pending_request False pending)) = (True, False) \<and> consumePending False = (False, False)"
  by (simp add: pending_request_def consumePending_def)

end
