(* ===== verification/App_Routes.thy ===== *)
theory App_Routes
  imports App_Paths
begin

text \<open>
  Routing in the web app, \<open>apps/web/src\<close>: the routes and the retired paths (\<open>routes.tsx\<close>), the path store outside
  React (\<open>router-store.ts\<close>), what the root shows for a session (\<open>app.tsx\<close>) and the page behind the settings dialog.
  The browser's URL parser is the parameter \<open>url\<close>: for a reference resolved against the app's origin it gives
  whether the result is of the same origin, its path and its query, or nothing when it does not parse.
\<close>

section \<open>Routes\<close>

definition ONBOARDING_PATH :: string where "ONBOARDING_PATH = ''/onboarding''"
definition SETTINGS_PATH :: string where "SETTINGS_PATH = ''/settings''"
definition NEW_WORKBENCH_PATH :: string where "NEW_WORKBENCH_PATH = ''/new''"
definition SLUG_SEGMENT :: string where "SLUG_SEGMENT = ''/:slug''"
definition WORKER_DETAIL_PATH :: string where "WORKER_DETAIL_PATH = WORKERS_PATH_PREFIX @ ''/:worker''"
definition SKILL_DETAIL_PATH :: string where "SKILL_DETAIL_PATH = SKILLS_PATH_PREFIX @ SLUG_SEGMENT"
definition ROUTINE_DETAIL_PATH :: string where "ROUTINE_DETAIL_PATH = WORKFLOWS_PATH_PREFIX @ ''/:routine''"

definition slugForDetailRoute :: "string \<Rightarrow> string \<Rightarrow> string option" where
  "slugForDetailRoute routePath path =
     detailSlugFromPath path (take (length routePath - length SLUG_SEGMENT) routePath)"

definition ROSTER_PATHS :: "string list" where
  "ROSTER_PATHS = [''/workflows'', ''/artifacts'', ''/insights'', WORKERS_PATH_PREFIX, ''/skills'', SETTINGS_PATH]"

definition matchesRoute :: "string \<Rightarrow> string \<Rightarrow> bool" where
  "matchesRoute routePath path \<longleftrightarrow>
     (if routePath = WORKBENCH_PATH_PREFIX then isWorkbenchPath path \<or> path = ''/''
      else if routePath = ROUTINE_DETAIL_PATH then
        (case routineSegmentFromPath path of None \<Rightarrow> False | Some s \<Rightarrow> CHR ''/'' \<notin> set s)
      else if routePath = WORKER_DETAIL_PATH then workerIdFromPath path \<noteq> None
      else if ends_with SLUG_SEGMENT routePath then slugForDetailRoute routePath path \<noteq> None
      else if routePath \<in> set ROSTER_PATHS then path = routePath \<or> starts_with (routePath @ ''/'') path
      else routePath = path)"

definition APP_ROUTES :: "string list" where
  "APP_ROUTES =
     [''/'', NEW_WORKBENCH_PATH, WORKBENCH_PATH_PREFIX, ROUTINE_DETAIL_PATH, ''/workflows'', ''/artifacts'', WORKER_DETAIL_PATH,
      WORKERS_PATH_PREFIX, SKILL_DETAIL_PATH, ''/skills'', ''/tools'', ''/insights'', SETTINGS_PATH]"

definition route_for :: "string \<Rightarrow> string option" where
  "route_for path = find (\<lambda>r. matchesRoute r path) APP_ROUTES"

definition RETIRED_PREFIXES :: "(string \<times> string) list" where
  "RETIRED_PREFIXES =
     [(''/mission-control'', ''/''), (''/inbox'', ''/''), (''/routines'', ''/workflows''), (''/files'', ''/artifacts''),
      (''/library'', ''/artifacts''), (''/settings/agents'', WORKERS_PATH_PREFIX), (''/settings/skills'', ''/skills'')]"

fun redirect_in :: "(string \<times> string) list \<Rightarrow> string \<Rightarrow> string option" where
  "redirect_in [] path = None"
| "redirect_in ((old, new) # ps) path =
     (if path = old then Some new
      else if starts_with (old @ ''/'') path then
        (let rest = drop (length old + 1) path in Some (if new = ''/'' then ''/'' else new @ ''/'' @ rest))
      else redirect_in ps path)"

definition redirectTargetFor :: "string \<Rightarrow> string option" where
  "redirectTargetFor path = redirect_in RETIRED_PREFIXES path"

definition canonicalPath :: "string \<Rightarrow> string" where
  "canonicalPath pathname = (case redirectTargetFor pathname of None \<Rightarrow> pathname | Some p \<Rightarrow> p)"

section \<open>The path store\<close>

type_synonym url_parser = "string \<Rightarrow> (bool \<times> string \<times> string) option"

text \<open>The two variables of the module, the location of the window, and the entries of its history.\<close>

record router =
  rt_path :: string
  rt_search :: string
  rt_loc_path :: string
  rt_loc_search :: string
  rt_entries :: nat

definition boot :: "string \<Rightarrow> string \<Rightarrow> router" where
  "boot pathname search =
     (let p = canonicalPath pathname in
      \<lparr>rt_path = p, rt_search = search, rt_loc_path = p, rt_loc_search = (if p \<noteq> pathname then [] else search), rt_entries = 1\<rparr>)"

definition setPath :: "string \<Rightarrow> router \<Rightarrow> router" where
  "setPath p r =
     (if p = rt_path r \<and> rt_loc_search r = rt_search r then r else r\<lparr>rt_path := p, rt_search := rt_loc_search r\<rparr>)"

definition popstate :: "string \<Rightarrow> string \<Rightarrow> router \<Rightarrow> router" where
  "popstate pathname search r =
     (let p = canonicalPath pathname;
          r1 = r\<lparr>rt_loc_path := p, rt_loc_search := (if p \<noteq> pathname then [] else search)\<rparr>
      in setPath p r1)"

text \<open>\<open>None\<close> is an exception: the reference does not parse, or \<open>pushState\<close> refuses another origin.\<close>

definition navigateTo :: "url_parser \<Rightarrow> string \<Rightarrow> router \<Rightarrow> router option" where
  "navigateTo url to r =
     (case url to of
        None \<Rightarrow> None
      | Some (same, pathname, search) \<Rightarrow>
          let p = canonicalPath pathname in
          if p = rt_path r \<and> search = rt_search r then Some r
          else if p = pathname then
            (if \<not> same then None
             else Some (setPath p (r\<lparr>rt_loc_path := pathname, rt_loc_search := search, rt_entries := rt_entries r + 1\<rparr>)))
          else Some (setPath p (r\<lparr>rt_loc_path := p, rt_loc_search := [], rt_entries := rt_entries r + 1\<rparr>)))"

inductive routed :: "url_parser \<Rightarrow> router \<Rightarrow> bool" for url where
  boot: "routed url (boot pathname search)"
| pop: "routed url r \<Longrightarrow> routed url (popstate pathname search r)"
| nav: "routed url r \<Longrightarrow> navigateTo url to r = Some r' \<Longrightarrow> routed url r'"

section \<open>What the root shows\<close>

datatype session_kind = Loading | SignedOut | SessionError string | SignedIn

datatype screen =
    ProvisioningErrorScreen string
  | BootFrame
  | RedirectTo string
  | AuthScreen
  | ConnectionLost string
  | Onboarding
  | ShellScreen

definition renderApp :: "session_kind \<Rightarrow> string \<Rightarrow> string option \<Rightarrow> screen" where
  "renderApp session path provisioningError =
     (case (session, provisioningError) of
        (SignedIn, Some e) \<Rightarrow> if e \<noteq> [] then ProvisioningErrorScreen e
          else if path = LOGIN_PATH then RedirectTo ''/'' else if path = ONBOARDING_PATH then Onboarding else ShellScreen
      | (Loading, _) \<Rightarrow> BootFrame
      | (SignedOut, _) \<Rightarrow> if path \<noteq> LOGIN_PATH then RedirectTo (buildLoginRedirect path) else AuthScreen
      | (SessionError e, _) \<Rightarrow> ConnectionLost e
      | (SignedIn, None) \<Rightarrow>
          if path = LOGIN_PATH then RedirectTo ''/'' else if path = ONBOARDING_PATH then Onboarding else ShellScreen)"

text \<open>The page behind the settings dialog: what is first there, and what each render keeps and shows.\<close>

definition initial_backdrop :: "string \<Rightarrow> string" where
  "initial_backdrop path = (if matchesRoute SETTINGS_PATH path then ''/new'' else path)"

definition next_backdrop :: "string \<Rightarrow> string \<Rightarrow> string" where
  "next_backdrop path backdrop = (if \<not> matchesRoute SETTINGS_PATH path then path else backdrop)"

definition pagePath :: "string \<Rightarrow> string \<Rightarrow> string" where
  "pagePath path backdrop = (if matchesRoute SETTINGS_PATH path then backdrop else path)"

section \<open>Retired paths\<close>

lemmas route_consts = WORKERS_PATH_PREFIX_def SKILLS_PATH_PREFIX_def WORKFLOWS_PATH_PREFIX_def WORKBENCH_PATH_PREFIX_def
  LEGACY_CHAT_PATH_PREFIX_def ONBOARDING_PATH_def SETTINGS_PATH_def NEW_WORKBENCH_PATH_def SLUG_SEGMENT_def
  WORKER_DETAIL_PATH_def SKILL_DETAIL_PATH_def ROUTINE_DETAIL_PATH_def ROSTER_PATHS_def LOGIN_PATH_def

lemma redirect_in_None:
  "redirect_in ps p = None \<longleftrightarrow> list_all (\<lambda>(old, _). p \<noteq> old \<and> \<not> starts_with (old @ ''/'') p) ps"
  by (induction ps p rule: redirect_in.induct) (simp_all add: Let_def)

definition diverge :: "string \<Rightarrow> string \<Rightarrow> bool" where
  "diverge p q \<longleftrightarrow> \<not> starts_with p q \<and> \<not> starts_with q p"

lemma comparable: "starts_with p s \<Longrightarrow> starts_with q s \<Longrightarrow> \<not> diverge p q"
  by (auto simp: diverge_def starts_with_iff append_eq_append_conv2)

lemma settled_under:
  assumes "list_all (\<lambda>(old, _). diverge old (new @ ''/'')) ps" and "q = new \<or> starts_with (new @ ''/'') q"
  shows "redirect_in ps q = None"
  unfolding redirect_in_None list_all_iff
proof (intro ballI, clarify)
  fix old home
  assume "(old, home) \<in> set ps"
  with assms(1) have d: "diverge old (new @ ''/'')" by (auto simp: list_all_iff)
  have "starts_with (new @ ''/'') (q @ ''/'')" using assms(2) by (auto simp: starts_with_iff)
  then have no: "\<not> starts_with old (q @ ''/'')" using d comparable by blast
  then have "q \<noteq> old" by (auto simp: starts_with_iff)
  moreover from no have "\<not> starts_with (old @ ''/'') q" by (auto simp: starts_with_iff)
  ultimately show "q \<noteq> old \<and> \<not> starts_with (old @ ''/'') q" ..
qed

lemma targets_diverge:
  "list_all (\<lambda>(_, new). new = ''/'' \<or> list_all (\<lambda>(old, _). diverge old (new @ ''/'')) RETIRED_PREFIXES) RETIRED_PREFIXES"
  by code_simp

lemma root_settled: "redirectTargetFor ''/'' = None"
  by code_simp

lemma redirect_in_Some: "redirect_in ps p = Some q \<Longrightarrow> q = ''/'' \<or> (\<exists>new \<in> snd ` set ps. new \<noteq> ''/'' \<and> (q = new \<or> starts_with (new @ ''/'') q))"
  by (induction ps p rule: redirect_in.induct) (auto simp: Let_def starts_with_iff split: if_splits)

lemma retired_once:
  assumes "redirectTargetFor p = Some q"
  shows "redirectTargetFor q = None"
proof (cases "q = ''/''")
  case True
  then show ?thesis using root_settled by simp
next
  case False
  with assms redirect_in_Some obtain old new where "(old, new) \<in> set RETIRED_PREFIXES" "new \<noteq> ''/''"
    "q = new \<or> starts_with (new @ ''/'') q"
    unfolding redirectTargetFor_def by fastforce
  moreover from this targets_diverge have "list_all (\<lambda>(old, _). diverge old (new @ ''/'')) RETIRED_PREFIXES"
    by (auto simp: list_all_iff)
  ultimately show ?thesis unfolding redirectTargetFor_def by (intro settled_under)
qed

lemma canonical_settled: "redirectTargetFor (canonicalPath p) = None"
  using retired_once by (auto simp: canonicalPath_def split: option.splits)

lemma canonical_idem [simp]: "canonicalPath (canonicalPath p) = canonicalPath p"
  using canonical_settled [of p] by (simp add: canonicalPath_def)

subsection \<open>The store\<close>

definition router_ok :: "router \<Rightarrow> bool" where
  "router_ok r \<longleftrightarrow> rt_path r = rt_loc_path r \<and> redirectTargetFor (rt_path r) = None"

lemma setPath_ok: "router_ok (setPath p r) \<longleftrightarrow> rt_loc_path r = p \<and> redirectTargetFor p = None"
  by (auto simp: router_ok_def setPath_def)

lemma canonical_fixed: "canonicalPath p = p \<Longrightarrow> redirectTargetFor p = None"
  using canonical_settled [of p] by simp

lemma navigateTo_ok: "router_ok r \<Longrightarrow> navigateTo url to r = Some r' \<Longrightarrow> router_ok r'"
  by (auto simp: navigateTo_def Let_def setPath_ok canonical_settled canonical_fixed split: option.splits if_splits prod.splits)

lemma popstate_ok: "router_ok (popstate pathname search r)"
  by (simp add: popstate_def Let_def setPath_ok canonical_settled)

text \<open>
  Also shown. The store shows what the address bar shows, and never a retired path: however the app was booted, whatever is
  navigated to and however the person goes back and forth, the path of the store is the path of the location, and no
  redirect is left for it. A retired path is resolved in one hop.
\<close>

theorem router_settled:
  assumes "routed url r"
  shows "rt_path r = rt_loc_path r \<and> redirectTargetFor (rt_path r) = None"
proof -
  have "router_ok r"
    using assms
  proof (induction rule: routed.induct)
    case (boot pathname search)
    then show ?case by (simp add: router_ok_def boot_def Let_def canonical_settled)
  qed (simp_all add: popstate_ok navigateTo_ok)
  then show ?thesis unfolding router_ok_def .
qed

definition demo_url :: url_parser where
  "demo_url to = Some (True, hd (split_on CHR ''?'' to), drop (length (hd (split_on CHR ''?'' to))) to)"

definition demo_router :: router where
  "demo_router = boot ''/files/a1'' ''?x=1''"

lemma demo_routed: "routed demo_url (the (navigateTo demo_url ''/inbox/7'' demo_router))"
proof -
  have "routed demo_url demo_router" unfolding demo_router_def by (rule routed.boot)
  moreover have "navigateTo demo_url ''/inbox/7'' demo_router = Some (the (navigateTo demo_url ''/inbox/7'' demo_router))"
    by code_simp
  ultimately show ?thesis by (rule routed.nav)
qed

theorem router_settled_witness:
  "rt_loc_path (the (navigateTo demo_url ''/inbox/7'' demo_router)) = ''/''"
proof -
  have "rt_path (the (navigateTo demo_url ''/inbox/7'' demo_router)) = ''/''" by code_simp
  then show ?thesis using router_settled [OF demo_routed] by simp
qed

text \<open>A navigation leaves the query of the store and of the location equal, and adds at most one entry.\<close>

lemma navigation_search:
  "navigateTo url to r = Some r' \<Longrightarrow>
   r' = r \<or> (rt_search r' = rt_loc_search r' \<and> rt_entries r' = rt_entries r + 1)"
  by (auto simp: navigateTo_def Let_def setPath_def split: option.splits if_splits prod.splits)

text \<open>
  A retired path loses its query: the store keeps it after the boot, so that navigating to it again does nothing; and
  a hop to the path already showing stacks an entry each time.
\<close>

lemma retired_query_lost:
  "rt_search demo_router = ''?x=1'' \<and> rt_loc_search demo_router = [] \<and>
   navigateTo demo_url ''/artifacts/a1?x=1'' demo_router = Some demo_router"
  by code_simp

lemma retired_hop_stacks:
  "(let r = boot ''/artifacts'' []; go = (\<lambda>r. the (navigateTo demo_url ''/files?x=1'' r)) in
    map rt_entries [r, go r, go (go r)] = [1, 2, 3] \<and> rt_path (go (go r)) = rt_path r \<and> rt_search (go (go r)) = rt_search r)"
  by code_simp

section \<open>Routes of the links the app builds\<close>

lemma segment_of_link: "i \<noteq> [] \<Longrightarrow> rawSegmentFromTopLevelPath (pre @ ''/'' @ i) pre = Some i"
  by (simp add: rawSegmentFromTopLevelPath_def starts_with_iff)

lemma entity_of_link:
  "i \<noteq> [] \<Longrightarrow> entityIdFromTopLevelPath (pre @ ''/'' @ encodeURIComponent i) pre = Some i"
  using segment_of_link [OF encode_ne, of i pre] by (simp add: entityIdFromTopLevelPath_def decodedOrNull_def decode_encode)

lemma other_prefix:
  "\<not> starts_with (pre @ ''/'') path \<Longrightarrow> rawSegmentFromTopLevelPath path pre = None"
  by (simp add: rawSegmentFromTopLevelPath_def)


lemma matches_routes:
  "matchesRoute ''/'' p \<longleftrightarrow> p = ''/''" "matchesRoute NEW_WORKBENCH_PATH p \<longleftrightarrow> p = ''/new''"
  "matchesRoute WORKBENCH_PATH_PREFIX p \<longleftrightarrow> isWorkbenchPath p \<or> p = ''/''"
  "matchesRoute ROUTINE_DETAIL_PATH p \<longleftrightarrow> (case routineSegmentFromPath p of None \<Rightarrow> False | Some s \<Rightarrow> CHR ''/'' \<notin> set s)"
  "matchesRoute ''/workflows'' p \<longleftrightarrow> p = ''/workflows'' \<or> starts_with ''/workflows/'' p"
  "matchesRoute ''/artifacts'' p \<longleftrightarrow> p = ''/artifacts'' \<or> starts_with ''/artifacts/'' p"
  "matchesRoute WORKER_DETAIL_PATH p \<longleftrightarrow> workerIdFromPath p \<noteq> None"
  "matchesRoute WORKERS_PATH_PREFIX p \<longleftrightarrow> p = ''/workers'' \<or> starts_with ''/workers/'' p"
  "matchesRoute SKILL_DETAIL_PATH p \<longleftrightarrow> detailSlugFromPath p ''/skills'' \<noteq> None"
  "matchesRoute ''/skills'' p \<longleftrightarrow> p = ''/skills'' \<or> starts_with ''/skills/'' p"
  "matchesRoute ''/tools'' p \<longleftrightarrow> p = ''/tools''"
  "matchesRoute ''/insights'' p \<longleftrightarrow> p = ''/insights'' \<or> starts_with ''/insights/'' p"
  "matchesRoute SETTINGS_PATH p \<longleftrightarrow> p = ''/settings'' \<or> starts_with ''/settings/'' p"
  by (auto simp: matchesRoute_def route_consts ends_with_def starts_with_def slugForDetailRoute_def eval_nat_numeral)

lemma workbench_starts: "isWorkbenchPath p \<Longrightarrow> starts_with ''/w/'' p \<or> starts_with ''/chat/'' p \<or> p = ''/w'' \<or> p = ''/chat''"
  by (auto simp: isWorkbenchPath_def WORKBENCH_PATH_PREFIX_def LEGACY_CHAT_PATH_PREFIX_def)

lemma under_segment: "rawSegmentFromTopLevelPath p pre = Some seg \<Longrightarrow> starts_with (pre @ ''/'') p"
  by (auto simp: rawSegmentFromTopLevelPath_def split: if_splits)


lemma route_for_eq:
  "route_for p =
     (if p = ''/'' then Some ''/'' else if p = ''/new'' then Some NEW_WORKBENCH_PATH
      else if isWorkbenchPath p \<or> p = ''/'' then Some WORKBENCH_PATH_PREFIX
      else if (case routineSegmentFromPath p of None \<Rightarrow> False | Some s \<Rightarrow> CHR ''/'' \<notin> set s) then Some ROUTINE_DETAIL_PATH
      else if p = ''/workflows'' \<or> starts_with ''/workflows/'' p then Some ''/workflows''
      else if p = ''/artifacts'' \<or> starts_with ''/artifacts/'' p then Some ''/artifacts''
      else if workerIdFromPath p \<noteq> None then Some WORKER_DETAIL_PATH
      else if p = ''/workers'' \<or> starts_with ''/workers/'' p then Some WORKERS_PATH_PREFIX
      else if detailSlugFromPath p ''/skills'' \<noteq> None then Some SKILL_DETAIL_PATH
      else if p = ''/skills'' \<or> starts_with ''/skills/'' p then Some ''/skills''
      else if p = ''/tools'' then Some ''/tools''
      else if p = ''/insights'' \<or> starts_with ''/insights/'' p then Some ''/insights''
      else if p = ''/settings'' \<or> starts_with ''/settings/'' p then Some SETTINGS_PATH
      else None)"
  by (simp only: route_for_def APP_ROUTES_def find.simps matches_routes)

lemma workbench_route: "route_for (workbenchPath i) = Some WORKBENCH_PATH_PREFIX"
proof -
  have "isWorkbenchPath (workbenchPath i) \<and> workbenchPath i \<noteq> ''/'' \<and> workbenchPath i \<noteq> ''/new''"
    by (cases i) (simp_all add: isWorkbenchPath_def workbenchPath_def WORKBENCH_PATH_PREFIX_def starts_with_def)
  then show ?thesis by (simp add: route_for_eq)
qed

text \<open>A path under one of the flat prefixes is not a workbench's, and has no segment under another prefix.\<close>

lemma flat_path:
  assumes "p = pre @ ''/'' @ q" and "pre \<in> {''/workflows'', ''/workers'', ''/insights''}"
  shows "p \<noteq> ''/'' \<and> p \<noteq> ''/new'' \<and> \<not> isWorkbenchPath p \<and> p \<noteq> ''/artifacts'' \<and> \<not> starts_with ''/artifacts/'' p \<and>
    p \<noteq> ''/skills'' \<and> \<not> starts_with ''/skills/'' p \<and> p \<noteq> ''/tools'' \<and> p \<noteq> pre \<and> starts_with (pre @ ''/'') p"
  using assms by (auto simp: isWorkbenchPath_def WORKBENCH_PATH_PREFIX_def LEGACY_CHAT_PATH_PREFIX_def starts_with_def)

lemma not_under:
  assumes "p = pre @ ''/'' @ q" and "pre \<in> {''/workflows'', ''/workers'', ''/insights''}"
    and "other \<in> {''/workflows'', ''/workers'', ''/skills''}" and "other \<noteq> pre"
  shows "rawSegmentFromTopLevelPath p other = None \<and> p \<noteq> other \<and> \<not> starts_with (other @ ''/'') p"
  using assms by (auto simp: rawSegmentFromTopLevelPath_def starts_with_def)

lemma routine_route:
  assumes "i \<noteq> []" and "CHR ''/'' \<notin> set i"
  shows "route_for (WORKFLOWS_PATH_PREFIX @ ''/'' @ encodeURIComponent i) = Some ROUTINE_DETAIL_PATH"
proof -
  let ?p = "WORKFLOWS_PATH_PREFIX @ ''/'' @ encodeURIComponent i"
  have "routineSegmentFromPath ?p = Some i"
    using entity_of_link [OF assms(1)] by (simp add: routineSegmentFromPath_def)
  moreover have "?p \<noteq> ''/'' \<and> ?p \<noteq> ''/new'' \<and> \<not> isWorkbenchPath ?p"
    using flat_path [of ?p "''/workflows''"] by (simp add: WORKFLOWS_PATH_PREFIX_def)
  ultimately show ?thesis using assms(2) by (simp add: route_for_eq)
qed

lemma worker_route:
  assumes "i \<noteq> []" and "CHR ''/'' \<notin> set i"
  shows "route_for (WORKERS_PATH_PREFIX @ ''/'' @ encodeURIComponent i) = Some WORKER_DETAIL_PATH"
proof -
  let ?p = "WORKERS_PATH_PREFIX @ ''/'' @ encodeURIComponent i"
  have "workerIdFromPath ?p = Some i"
    using entity_of_link [OF assms(1)] assms(2) by (simp add: workerIdFromPath_def)
  moreover have "?p \<noteq> ''/'' \<and> ?p \<noteq> ''/new'' \<and> \<not> isWorkbenchPath ?p \<and> ?p \<noteq> ''/artifacts'' \<and> \<not> starts_with ''/artifacts/'' ?p"
    using flat_path [of ?p "''/workers''"] by (simp add: WORKERS_PATH_PREFIX_def)
  moreover have "rawSegmentFromTopLevelPath ?p ''/workflows'' = None \<and> ?p \<noteq> ''/workflows'' \<and> \<not> starts_with ''/workflows/'' ?p"
    using not_under [of ?p "''/workers''" "encodeURIComponent i" "''/workflows''"] by (simp add: WORKERS_PATH_PREFIX_def)
  moreover from this have "routineSegmentFromPath ?p = None"
    by (simp add: routineSegmentFromPath_def entityIdFromTopLevelPath_def WORKFLOWS_PATH_PREFIX_def)
  ultimately show ?thesis by (simp add: route_for_eq)
qed

lemma insights_route:
  assumes "p = INSIGHTS_PATH_PREFIX @ ''/'' @ q"
  shows "route_for p = Some INSIGHTS_PATH_PREFIX"
proof -
  have p: "p = ''/insights'' @ ''/'' @ q" using assms by (simp add: INSIGHTS_PATH_PREFIX_def)
  have flat: "p \<noteq> ''/'' \<and> p \<noteq> ''/new'' \<and> \<not> isWorkbenchPath p \<and> p \<noteq> ''/artifacts'' \<and> \<not> starts_with ''/artifacts/'' p \<and>
      p \<noteq> ''/skills'' \<and> \<not> starts_with ''/skills/'' p \<and> p \<noteq> ''/tools'' \<and> starts_with ''/insights/'' p"
    using flat_path [OF p] by simp
  have wf: "rawSegmentFromTopLevelPath p ''/workflows'' = None \<and> p \<noteq> ''/workflows'' \<and> \<not> starts_with ''/workflows/'' p"
    using not_under [OF p, of "''/workflows''"] by simp
  have wk: "rawSegmentFromTopLevelPath p ''/workers'' = None \<and> p \<noteq> ''/workers'' \<and> \<not> starts_with ''/workers/'' p"
    using not_under [OF p, of "''/workers''"] by simp
  have sk: "rawSegmentFromTopLevelPath p ''/skills'' = None" using not_under [OF p, of "''/skills''"] by simp
  have "routineSegmentFromPath p = None" "workerIdFromPath p = None" "detailSlugFromPath p ''/skills'' = None"
    using wf wk sk by (simp_all add: routineSegmentFromPath_def workerIdFromPath_def entityIdFromTopLevelPath_def
        detailSlugFromPath_def WORKFLOWS_PATH_PREFIX_def WORKERS_PATH_PREFIX_def)
  with flat wf wk show ?thesis by (simp add: route_for_eq INSIGHTS_PATH_PREFIX_def)
qed

text \<open>
  Also shown. A link the app builds opens the page it is meant for: of all routes, in their order, the first that matches the
  path of a workbench, of its settings, of a workflow, of a worker, of a run or of a workbench's insights is the
  page of that thing, and the page reads the same id back. An id of a workflow or a worker has no slash.
\<close>

theorem links_reach_their_page:
  assumes "i \<noteq> []" and "CHR ''/'' \<notin> set i"
  shows "route_for (workbenchPath (Some i)) = Some WORKBENCH_PATH_PREFIX \<and>
    route_for (WORKFLOWS_PATH_PREFIX @ ''/'' @ encodeURIComponent i) = Some ROUTINE_DETAIL_PATH \<and>
    routineSegmentFromPath (WORKFLOWS_PATH_PREFIX @ ''/'' @ encodeURIComponent i) = Some i \<and>
    route_for (WORKERS_PATH_PREFIX @ ''/'' @ encodeURIComponent i) = Some WORKER_DETAIL_PATH \<and>
    workerIdFromPath (WORKERS_PATH_PREFIX @ ''/'' @ encodeURIComponent i) = Some i \<and>
    route_for (runDetailPath i) = Some INSIGHTS_PATH_PREFIX \<and> parseInsightsPath (runDetailPath i) = InsightsRun i \<and>
    route_for (workbenchInsightsPath i) = Some INSIGHTS_PATH_PREFIX \<and>
    parseInsightsPath (workbenchInsightsPath i) = InsightsWorkbench i"
proof -
  have "route_for (runDetailPath i) = Some INSIGHTS_PATH_PREFIX"
    by (rule insights_route [of _ "''runs/'' @ encodeURIComponent i"]) (simp add: runDetailPath_def INSIGHTS_RUNS_PATH_def)
  moreover have "route_for (workbenchInsightsPath i) = Some INSIGHTS_PATH_PREFIX"
    by (rule insights_route [of _ "''workbench/'' @ encodeURIComponent i"]) (simp add: workbenchInsightsPath_def)
  ultimately show ?thesis
    using assms insights_paths_roundtrip [OF assms(1)] workbench_route routine_route worker_route
      entity_of_link [OF assms(1), of WORKFLOWS_PATH_PREFIX] entity_of_link [OF assms(1), of WORKERS_PATH_PREFIX]
    by (simp add: routineSegmentFromPath_def workerIdFromPath_def)
qed

theorem links_reach_their_page_witness:
  "route_for (WORKERS_PATH_PREFIX @ ''/'' @ encodeURIComponent ''a b'') = Some WORKER_DETAIL_PATH"
  using links_reach_their_page [of "''a b''"] by simp

section \<open>The gate\<close>

text \<open>Only a session that is signed in reaches the app, and every redirect of the root ends after one hop.\<close>

lemma gate:
  "(case renderApp session path e of
      ShellScreen \<Rightarrow> session = SignedIn \<and> path \<noteq> LOGIN_PATH \<and> path \<noteq> ONBOARDING_PATH
    | Onboarding \<Rightarrow> session = SignedIn \<and> path = ONBOARDING_PATH
    | AuthScreen \<Rightarrow> session = SignedOut \<and> path = LOGIN_PATH
    | _ \<Rightarrow> True)"
  by (cases session; cases e) (simp_all add: renderApp_def)

text \<open>Behind the settings dialog there is never the dialog's own route.\<close>

lemma backdrop_not_settings:
  "\<not> matchesRoute SETTINGS_PATH (initial_backdrop path) \<and>
   (\<not> matchesRoute SETTINGS_PATH b \<longrightarrow> \<not> matchesRoute SETTINGS_PATH (next_backdrop path b) \<and> \<not> matchesRoute SETTINGS_PATH (pagePath path b))"
  by (simp add: initial_backdrop_def next_backdrop_def pagePath_def matches_routes(13)) (simp add: starts_with_def)

end
