(* ===== verification/Query_Cache.thy ===== *)
theory Query_Cache
  imports Http "HOL-Library.AList"
begin

text \<open>
  The cache of the hub's answers, \<open>apps/web/src\<close>: how it is kept in IndexedDB
  (\<open>query-cache-persistence.ts\<close>) and the policies of the one client (\<open>query-client.ts\<close>). The
  query client itself is TanStack's: it appears through the state of a query as its events
  carry it. A transaction is a job; IndexedDB runs the jobs in the order they were opened.
\<close>

section \<open>Entries and events\<close>

record ('k, 'd) cache_entry =
  en_hash :: string
  en_key :: 'k
  en_data :: 'd
  en_at :: int

datatype query_status = QPending | QError | QSuccess

record ('k, 'd) query_state =
  q_hash :: string
  q_key :: 'k
  q_data :: "'d option"
  q_at :: int
  q_invalidated :: bool
  q_status :: query_status

datatype cache_event_type = Added | Removed | Updated | Observed

section \<open>The store\<close>

datatype ('k, 'd) job = Flush "string list" "('k, 'd) cache_entry list" | ClearAll

type_synonym ('k, 'd) rows = "(string \<times> ('k, 'd) cache_entry) list"

definition put_row :: "('k, 'd) cache_entry \<Rightarrow> ('k, 'd) rows \<Rightarrow> ('k, 'd) rows" where
  "put_row e db = AList.update (en_hash e) e db"

fun run_job :: "('k, 'd) job \<Rightarrow> ('k, 'd) rows \<Rightarrow> ('k, 'd) rows" where
  "run_job (Flush dels puts) db = fold put_row puts (fold AList.delete dels db)"
| "run_job ClearAll db = []"

section \<open>Persistence\<close>

text \<open>The two pending collections and the scheduling of the flush, with the jobs opened and the rows on disk.\<close>

record ('k, 'd) persistence =
  pc_writes :: "('k, 'd) rows"
  pc_deletes :: "string list"
  pc_timer :: bool
  pc_microtask :: bool
  pc_queued :: nat
  pc_subscribed :: bool
  pc_jobs :: "('k, 'd) job list"
  pc_rows :: "('k, 'd) rows"

definition attach :: "('k, 'd) rows \<Rightarrow> ('k, 'd) persistence" where
  "attach db = \<lparr>pc_writes = [], pc_deletes = [], pc_timer = False, pc_microtask = False, pc_queued = 0,
     pc_subscribed = True, pc_jobs = [], pc_rows = db\<rparr>"

definition set_add :: "'a \<Rightarrow> 'a list \<Rightarrow> 'a list" where
  "set_add x xs = (if x \<in> set xs then xs else xs @ [x])"

definition flush :: "('k, 'd) persistence \<Rightarrow> ('k, 'd) persistence" where
  "flush s =
     (let s1 = s\<lparr>pc_timer := False, pc_microtask := False, pc_writes := [], pc_deletes := []\<rparr> in
      if pc_writes s = [] \<and> pc_deletes s = [] then s1
      else s1\<lparr>pc_jobs := pc_jobs s @ [Flush (pc_deletes s) (map snd (pc_writes s))]\<rparr>)"

definition scheduleFlush :: "nat \<Rightarrow> ('k, 'd) persistence \<Rightarrow> ('k, 'd) persistence" where
  "scheduleFlush debounceMs s =
     (if debounceMs = 0 then
        (if pc_microtask s then s else s\<lparr>pc_microtask := True, pc_queued := pc_queued s + 1\<rparr>)
      else if pc_timer s then s else s\<lparr>pc_timer := True\<rparr>)"

definition entry_of :: "('k, 'd) query_state \<Rightarrow> 'd \<Rightarrow> ('k, 'd) cache_entry" where
  "entry_of q d = \<lparr>en_hash = q_hash q, en_key = q_key q, en_data = d, en_at = q_at q\<rparr>"

definition on_event :: "nat \<Rightarrow> cache_event_type \<Rightarrow> ('k, 'd) query_state \<Rightarrow> ('k, 'd) persistence \<Rightarrow> ('k, 'd) persistence" where
  "on_event debounceMs ty q s =
     (if ty = Removed then
        scheduleFlush debounceMs (s\<lparr>pc_writes := AList.delete (q_hash q) (pc_writes s), pc_deletes := set_add (q_hash q) (pc_deletes s)\<rparr>)
      else if ty = Updated \<or> ty = Added then
        (if q_invalidated q then
           (let s1 = s\<lparr>pc_writes := AList.delete (q_hash q) (pc_writes s)\<rparr> in
            if 0 < q_at q then scheduleFlush debounceMs (s1\<lparr>pc_deletes := set_add (q_hash q) (pc_deletes s1)\<rparr>) else s1)
         else (case q_data q of
                 None \<Rightarrow> s
               | Some d \<Rightarrow>
                   if q_status q = QSuccess \<and> 0 < q_at q then
                     scheduleFlush debounceMs
                       (s\<lparr>pc_deletes := removeAll (q_hash q) (pc_deletes s),
                          pc_writes := AList.update (q_hash q) (entry_of q d) (pc_writes s)\<rparr>)
                   else s))
      else s)"

definition detach :: "('k, 'd) persistence \<Rightarrow> ('k, 'd) persistence" where
  "detach s = s\<lparr>pc_timer := False, pc_microtask := False, pc_subscribed := False\<rparr>"

text \<open>What happens to it: an event of the cache, a queued flush, the end of a transaction, a clear.\<close>

datatype ('k, 'd) pc_event =
    CacheEvent cache_event_type "('k, 'd) query_state"
  | Microtask
  | TimerFires
  | Commit
  | Abort
  | Clear
  | Detach

fun pc_step :: "nat \<Rightarrow> ('k, 'd) pc_event \<Rightarrow> ('k, 'd) persistence \<Rightarrow> ('k, 'd) persistence" where
  "pc_step ms (CacheEvent ty q) s = (if pc_subscribed s then on_event ms ty q s else s)"
| "pc_step ms Microtask s = (if pc_queued s = 0 then s else flush (s\<lparr>pc_queued := pc_queued s - 1\<rparr>))"
| "pc_step ms TimerFires s = (if pc_timer s then flush s else s)"
| "pc_step ms Commit s = (case pc_jobs s of [] \<Rightarrow> s | j # js \<Rightarrow> s\<lparr>pc_jobs := js, pc_rows := run_job j (pc_rows s)\<rparr>)"
| "pc_step ms Abort s = s\<lparr>pc_jobs := tl (pc_jobs s)\<rparr>"
| "pc_step ms Clear s = s\<lparr>pc_jobs := pc_jobs s @ [ClearAll]\<rparr>"
| "pc_step ms Detach s = detach s"

section \<open>Hydration\<close>

definition DEFAULT_MAX_AGE_MS :: int where "DEFAULT_MAX_AGE_MS = 24 * 60 * 60 * 1000"

text \<open>A live query, as the client has it: its data and whether it is fetching.\<close>

type_synonym ('k, 'd) client_state = "'k \<Rightarrow> ('d option \<times> bool) option"

text \<open>
  A row is what is stored, or \<open>None\<close> where it does not fit the schema. The answer is what is set, all with
  \<open>updatedAt\<close> 0, and the keys that are then invalidated.
\<close>

fun hydrate_rows ::
  "int \<Rightarrow> ('k, 'd) client_state \<Rightarrow> ('k, 'd) cache_entry option list \<Rightarrow> ('k, 'd) client_state \<times> 'k list" where
  "hydrate_rows minAt cl [] = (cl, [])"
| "hydrate_rows minAt cl (r # rs) =
     (case r of
        None \<Rightarrow> hydrate_rows minAt cl rs
      | Some e \<Rightarrow>
          if en_at e < minAt then hydrate_rows minAt cl rs
          else (case cl (en_key e) of
                  Some (d, fetching) \<Rightarrow>
                    if d \<noteq> None \<or> fetching then hydrate_rows minAt cl rs
                    else (let (cl', ks) = hydrate_rows minAt (cl(en_key e := Some (Some (en_data e), fetching))) rs
                          in (cl', en_key e # ks))
                | None \<Rightarrow>
                    let (cl', ks) = hydrate_rows minAt (cl(en_key e := Some (Some (en_data e), False))) rs
                    in (cl', en_key e # ks)))"

definition hydrate ::
  "int \<Rightarrow> int \<Rightarrow> ('k, 'd) client_state \<Rightarrow> ('k, 'd) cache_entry option list \<Rightarrow> ('k, 'd) client_state \<times> 'k list" where
  "hydrate now maxAgeMs cl rs = hydrate_rows (now - maxAgeMs) cl rs"

section \<open>Policies of the client\<close>

fun is_unauthenticated :: "js_error \<Rightarrow> bool" where
  "is_unauthenticated (Thrown n _ _ _) = (n = ''UnauthenticatedError'')"
| "is_unauthenticated _ = False"

fun is_query_error :: "js_error \<Rightarrow> bool" where
  "is_query_error (Thrown n _ _ _) = (n = ''ApiQueryError'')"
| "is_query_error _ = False"

definition shouldRetryQuery :: "nat \<Rightarrow> js_error \<Rightarrow> bool" where
  "shouldRetryQuery failureCount e =
     (if is_unauthenticated e then False
      else if is_query_error e \<and> status_of e = Some 404 then False
      else failureCount < 3)"

definition isAuthInvalidError :: "js_error \<Rightarrow> bool" where
  "isAuthInvalidError e = (if is_unauthenticated e then True else is_query_error e \<and> status_of e = Some 401)"


text \<open>
  \<open>pathToQueryKey\<close>. A tenant's path is taken apart at the first slash behind the prefix; the
  pattern of the artifacts lets a query follow, on one line.
\<close>

definition tenant_rest :: "string \<Rightarrow> (string \<times> string) option" where
  "tenant_rest path =
     (if \<not> starts_with ''/api/tenants/'' path then None
      else let rest = drop 13 path; t = takeWhile (\<lambda>c. c \<noteq> CHR ''/'') rest; after = drop (length t) rest in
        if t = [] \<or> after = [] then None else Some (t, tl after))"

definition line_end :: "char \<Rightarrow> bool" where
  "line_end c \<longleftrightarrow> c = CHR 0x0A \<or> c = CHR 0x0D"

definition artifacts_query :: "string \<Rightarrow> string option" where
  "artifacts_query after =
     (if after = ''artifacts'' then Some []
      else if starts_with ''artifacts?'' after \<and> list_all (\<lambda>c. \<not> line_end c) (drop 10 after) then Some (drop 10 after)
      else None)"

definition pathToQueryKey :: "string \<Rightarrow> string list" where
  "pathToQueryKey path =
     (if path = ''/api/me'' then [''me'', ''profile'']
      else if path = ''/api/me/principals'' then [''me'', ''principals'']
      else (case tenant_rest path of
              None \<Rightarrow> [''path'', path]
            | Some (t, after) \<Rightarrow>
                if after = ''approvals'' then [''tenant'', t, ''approvals'']
                else if after = ''assets'' then [''tenant'', t, ''assets'']
                else (case artifacts_query after of
                        Some q \<Rightarrow> [''tenant'', t, ''artifacts'', q]
                      | None \<Rightarrow> [''path'', path])))"

section \<open>The rows a run leaves\<close>

definition wf_pc :: "('k, 'd) persistence \<Rightarrow> bool" where
  "wf_pc s \<longleftrightarrow>
     list_all (\<lambda>(h, e). en_hash e = h) (pc_writes s) \<and> distinct (map fst (pc_writes s)) \<and>
     set (pc_deletes s) \<inter> fst ` set (pc_writes s) = {}"

definition opened :: "('k, 'd) persistence \<Rightarrow> ('k, 'd) rows" where
  "opened s = fold run_job (pc_jobs s) (pc_rows s)"

text \<open>The rows once everything pending is flushed and every transaction is done.\<close>

definition settled :: "('k, 'd) persistence \<Rightarrow> ('k, 'd) rows" where
  "settled s = run_job (Flush (pc_deletes s) (map snd (pc_writes s))) (opened s)"

lemma map_of_put: "map_of (put_row e db) = (map_of db)(en_hash e \<mapsto> e)"
  by (simp add: put_row_def update_conv')

lemma map_of_puts:
  "list_all (\<lambda>(h, e). en_hash e = h) ws \<Longrightarrow> distinct (map fst ws) \<Longrightarrow>
   map_of (fold put_row (map snd ws) db) = map_of db ++ map_of ws"
proof (induction ws arbitrary: db)
  case (Cons w ws)
  then have "fst w \<notin> dom (map_of ws)" by (simp add: dom_map_of_conv_image_fst)
  with Cons show ?case
    by (cases w) (auto simp: map_of_put map_add_def fun_eq_iff split: option.splits)
qed simp

lemma map_of_deletes: "map_of (fold AList.delete ds db) h = (if h \<in> set ds then None else map_of db h)"
  by (induction ds arbitrary: db) (auto simp: delete_conv')

lemma map_of_settled:
  assumes "wf_pc s"
  shows "map_of (settled s) h =
    (case map_of (pc_writes s) h of Some e \<Rightarrow> Some e
     | None \<Rightarrow> if h \<in> set (pc_deletes s) then None else map_of (opened s) h)"
  using assms by (auto simp: settled_def wf_pc_def map_of_puts map_add_def map_of_deletes split: option.splits)

lemma wf_attach: "wf_pc (attach db)"
  by (simp add: wf_pc_def attach_def)

lemma schedule_fields [simp]:
  "pc_writes (scheduleFlush ms s) = pc_writes s" "pc_deletes (scheduleFlush ms s) = pc_deletes s"
  "pc_jobs (scheduleFlush ms s) = pc_jobs s" "pc_rows (scheduleFlush ms s) = pc_rows s"
  "pc_subscribed (scheduleFlush ms s) = pc_subscribed s"
  by (simp_all add: scheduleFlush_def)

lemma set_set_add [simp]: "set (set_add x xs) = insert x (set xs)"
  by (auto simp: set_add_def)

lemma wf_schedule [simp]: "wf_pc (scheduleFlush ms s) = wf_pc s"
  by (simp add: wf_pc_def)

lemma keyed_delete: "list_all P ws \<Longrightarrow> list_all P (AList.delete h ws)"
  by (auto simp: list_all_iff AList.delete_eq)

lemma hashed_update: "list_all (\<lambda>(h, e). en_hash e = h) ws \<Longrightarrow> en_hash e = h \<Longrightarrow> list_all (\<lambda>(h, e). en_hash e = h) (AList.update h e ws)"
  by (induction ws) auto

lemma keys_delete: "fst ` set (AList.delete h ws) = fst ` set ws - {h}"
proof -
  have "set (map fst (AList.delete h ws)) = set (removeAll h (map fst ws))" by (simp only: delete_keys)
  then show ?thesis by simp
qed

lemma wf_evict: "wf_pc s \<Longrightarrow> wf_pc (s\<lparr>pc_writes := AList.delete h (pc_writes s), pc_deletes := set_add h (pc_deletes s)\<rparr>)"
  by (auto simp: wf_pc_def keyed_delete distinct_delete keys_delete)

lemma wf_forget: "wf_pc s \<Longrightarrow> wf_pc (s\<lparr>pc_writes := AList.delete h (pc_writes s)\<rparr>)"
  by (auto simp: wf_pc_def keyed_delete distinct_delete keys_delete)

lemma wf_keep:
  "wf_pc s \<Longrightarrow> en_hash e = h \<Longrightarrow>
   wf_pc (s\<lparr>pc_deletes := removeAll h (pc_deletes s), pc_writes := AList.update h e (pc_writes s)\<rparr>)"
  by (auto simp: wf_pc_def hashed_update distinct_update dom_update)

lemma on_event_cases:
  obtains (evict) "on_event ms ty q s = scheduleFlush ms (s\<lparr>pc_writes := AList.delete (q_hash q) (pc_writes s), pc_deletes := set_add (q_hash q) (pc_deletes s)\<rparr>)"
      and "ty = Removed \<or> (ty \<noteq> Observed \<and> q_invalidated q \<and> 0 < q_at q)"
  | (forget) "on_event ms ty q s = s\<lparr>pc_writes := AList.delete (q_hash q) (pc_writes s)\<rparr>"
      and "ty = Updated \<or> ty = Added" and "q_invalidated q" and "q_at q \<le> 0"
  | (keep) d where "on_event ms ty q s = scheduleFlush ms
        (s\<lparr>pc_deletes := removeAll (q_hash q) (pc_deletes s), pc_writes := AList.update (q_hash q) (entry_of q d) (pc_writes s)\<rparr>)"
      and "ty = Updated \<or> ty = Added" and "\<not> q_invalidated q" and "q_data q = Some d" and "q_status q = QSuccess" and "0 < q_at q"
  | (nothing) "on_event ms ty q s = s"
      and "ty = Observed \<or> (ty \<noteq> Removed \<and> \<not> q_invalidated q \<and> (q_data q = None \<or> q_status q \<noteq> QSuccess \<or> q_at q \<le> 0))"
  by (cases ty; cases "q_invalidated q"; cases "q_data q"; cases "q_status q = QSuccess"; cases "0 < q_at q")
    (auto simp: on_event_def Let_def)

lemma wf_on_event: "wf_pc s \<Longrightarrow> wf_pc (on_event ms ty q s)"
  by (rule on_event_cases [of ms ty q s]) (simp_all add: wf_evict wf_forget wf_keep entry_of_def)

lemma wf_flush: "wf_pc s \<Longrightarrow> wf_pc (flush s)"
  by (simp add: flush_def Let_def wf_pc_def)

lemma wf_same: "pc_writes t = pc_writes s \<Longrightarrow> pc_deletes t = pc_deletes s \<Longrightarrow> wf_pc t = wf_pc s"
  by (simp add: wf_pc_def)

lemma wf_step: "wf_pc s \<Longrightarrow> wf_pc (pc_step ms ev s)"
  by (cases ev) (auto simp: wf_on_event detach_def intro!: wf_flush split: list.splits elim: wf_same [THEN iffD1, rotated 2])


subsection \<open>A flush and a transaction lose nothing\<close>

text \<open>What an event asks of the row of its query.\<close>

datatype ('k, 'd) effect = Evict | Keep "('k, 'd) cache_entry" | Forget | Nothing

definition effect_of :: "cache_event_type \<Rightarrow> ('k, 'd) query_state \<Rightarrow> ('k, 'd) effect" where
  "effect_of ty q =
     (if ty = Observed then Nothing
      else if ty = Removed \<or> q_invalidated q \<and> 0 < q_at q then Evict
      else if q_invalidated q then Forget
      else (case q_data q of Some d \<Rightarrow> if q_status q = QSuccess \<and> 0 < q_at q then Keep (entry_of q d) else Nothing | None \<Rightarrow> Nothing))"

lemma opened_schedule [simp]: "opened (scheduleFlush ms s) = opened s"
  by (simp add: opened_def)

lemma opened_pending [simp]: "opened (s\<lparr>pc_writes := w\<rparr>) = opened s" "opened (s\<lparr>pc_deletes := d\<rparr>) = opened s"
  by (simp_all add: opened_def)

lemma settled_evict:
  "wf_pc s \<Longrightarrow>
   map_of (settled (scheduleFlush ms (s\<lparr>pc_writes := AList.delete h (pc_writes s), pc_deletes := set_add h (pc_deletes s)\<rparr>)))
   = (map_of (settled s))(h := None)"
  by (rule ext) (simp add: map_of_settled wf_evict delete_conv' split: option.splits)

lemma settled_keep:
  "wf_pc s \<Longrightarrow> en_hash e = h \<Longrightarrow>
   map_of (settled (scheduleFlush ms (s\<lparr>pc_deletes := removeAll h (pc_deletes s), pc_writes := AList.update h e (pc_writes s)\<rparr>)))
   = (map_of (settled s))(h \<mapsto> e)"
  by (rule ext) (simp add: map_of_settled wf_keep update_conv' split: option.splits)

lemma settled_forget:
  "wf_pc s \<Longrightarrow> map_of (pc_writes s) h = None \<Longrightarrow> map_of (settled (s\<lparr>pc_writes := AList.delete h (pc_writes s)\<rparr>)) = map_of (settled s)"
  by (rule ext) (auto simp add: map_of_settled wf_forget delete_conv' split: option.splits)

lemma settled_event:
  assumes "wf_pc s" and "effect_of ty q = Forget \<Longrightarrow> map_of (pc_writes s) (q_hash q) = None"
  shows "map_of (settled (on_event ms ty q s)) =
    (case effect_of ty q of Evict \<Rightarrow> (map_of (settled s))(q_hash q := None)
     | Keep e \<Rightarrow> (map_of (settled s))(q_hash q \<mapsto> e) | _ \<Rightarrow> map_of (settled s))"
proof (rule on_event_cases [of ms ty q s])
  assume "on_event ms ty q s = scheduleFlush ms (s\<lparr>pc_writes := AList.delete (q_hash q) (pc_writes s), pc_deletes := set_add (q_hash q) (pc_deletes s)\<rparr>)"
    and "ty = Removed \<or> (ty \<noteq> Observed \<and> q_invalidated q \<and> 0 < q_at q)"
  then show ?thesis using settled_evict [OF assms(1)] by (auto simp: effect_of_def)
next
  assume "on_event ms ty q s = s\<lparr>pc_writes := AList.delete (q_hash q) (pc_writes s)\<rparr>" and "ty = Updated \<or> ty = Added"
    and "q_invalidated q" "q_at q \<le> 0"
  then show ?thesis using settled_forget [OF assms(1)] assms(2) by (auto simp: effect_of_def)
next
  fix d
  assume "on_event ms ty q s = scheduleFlush ms
        (s\<lparr>pc_deletes := removeAll (q_hash q) (pc_deletes s), pc_writes := AList.update (q_hash q) (entry_of q d) (pc_writes s)\<rparr>)"
    and "ty = Updated \<or> ty = Added" "\<not> q_invalidated q" "q_data q = Some d" "q_status q = QSuccess" "0 < q_at q"
  then show ?thesis using settled_keep [OF assms(1), of "entry_of q d" "q_hash q"] by (auto simp: effect_of_def entry_of_def)
next
  assume "on_event ms ty q s = s"
    and "ty = Observed \<or> (ty \<noteq> Removed \<and> \<not> q_invalidated q \<and> (q_data q = None \<or> q_status q \<noteq> QSuccess \<or> q_at q \<le> 0))"
  then show ?thesis by (auto simp: effect_of_def split: option.splits)
qed

lemma settled_flush: "map_of (settled (flush s)) = map_of (settled s)"
  by (simp add: flush_def Let_def settled_def opened_def)

lemma settled_commit: "settled (pc_step ms Commit s) = settled s"
  by (simp add: settled_def opened_def split: list.splits)

lemma settled_other [simp]:
  "settled (s\<lparr>pc_queued := n\<rparr>) = settled s" "settled (detach s) = settled s"
  by (simp_all add: settled_def opened_def detach_def)

text \<open>
  C12. What IndexedDB is left with is what the query cache last said of each query. Taken through everything pending
  and every open transaction, an event that removes a query or invalidates live data takes its row away, a success
  writes its row, and nothing else moves any row: a flush, whenever it runs and however the events before it were
  batched, and the end of a transaction keep that outcome. Only a failed transaction or a clear lose anything.
\<close>

theorem persistence_refines:
  assumes "wf_pc s" and "pc_subscribed s"
    and "case ev of CacheEvent ty q \<Rightarrow> effect_of ty q = Forget \<longrightarrow> map_of (pc_writes s) (q_hash q) = None | Abort \<Rightarrow> False | Clear \<Rightarrow> False | _ \<Rightarrow> True"
  shows "wf_pc (pc_step ms ev s) \<and>
    map_of (settled (pc_step ms ev s)) =
      (case ev of
         CacheEvent ty q \<Rightarrow>
           (case effect_of ty q of Evict \<Rightarrow> (map_of (settled s))(q_hash q := None)
            | Keep e \<Rightarrow> (map_of (settled s))(q_hash q \<mapsto> e) | _ \<Rightarrow> map_of (settled s))
       | _ \<Rightarrow> map_of (settled s))"
proof
  show "wf_pc (pc_step ms ev s)" using assms(1) by (rule wf_step)
  show "map_of (settled (pc_step ms ev s)) =
      (case ev of
         CacheEvent ty q \<Rightarrow>
           (case effect_of ty q of Evict \<Rightarrow> (map_of (settled s))(q_hash q := None)
            | Keep e \<Rightarrow> (map_of (settled s))(q_hash q \<mapsto> e) | _ \<Rightarrow> map_of (settled s))
       | _ \<Rightarrow> map_of (settled s))"
    using assms settled_commit [of ms s] by (cases ev) (simp_all add: settled_event settled_flush)
qed

definition demo_query :: "(string, nat) query_state" where
  "demo_query = \<lparr>q_hash = ''h'', q_key = ''k'', q_data = Some 7, q_at = 5, q_invalidated = False, q_status = QSuccess\<rparr>"

theorem persistence_refines_witness:
  "map_of (settled (pc_step 0 (CacheEvent Updated demo_query) (attach []))) ''h'' = Some (entry_of demo_query 7)"
proof -
  have "effect_of Updated demo_query = Keep (entry_of demo_query 7)" by (simp add: effect_of_def demo_query_def)
  moreover have "pc_subscribed (attach [] :: (string, nat) persistence)" by (simp add: attach_def)
  ultimately show ?thesis
    using persistence_refines [OF wf_attach, of "[] :: (string, nat) rows" "CacheEvent Updated demo_query" 0]
    by (simp add: demo_query_def del: pc_step.simps)
qed

subsection \<open>Everything is written\<close>

definition scheduled :: "nat \<Rightarrow> ('k, 'd) persistence \<Rightarrow> bool" where
  "scheduled ms s \<longleftrightarrow>
     (pc_writes s \<noteq> [] \<or> pc_deletes s \<noteq> [] \<longrightarrow> (if ms = 0 then 0 < pc_queued s else pc_timer s)) \<and> (pc_microtask s \<longrightarrow> 0 < pc_queued s)"

lemma scheduled_schedule: "pc_microtask s \<longrightarrow> 0 < pc_queued s \<Longrightarrow> scheduled ms (scheduleFlush ms s)"
  by (simp add: scheduled_def scheduleFlush_def)

lemma scheduled_on_event: "scheduled ms s \<Longrightarrow> scheduled ms (on_event ms ty q s)"
proof (rule on_event_cases [of ms ty q s])
  assume "scheduled ms s" "on_event ms ty q s = s\<lparr>pc_writes := AList.delete (q_hash q) (pc_writes s)\<rparr>"
  then show ?thesis by (auto simp: scheduled_def)
qed (simp_all add: scheduled_schedule scheduled_def [of ms s])

lemma scheduled_step: "scheduled ms s \<Longrightarrow> ev \<noteq> Detach \<Longrightarrow> scheduled ms (pc_step ms ev s)"
proof (cases ev)
  case (CacheEvent ty q)
  assume "scheduled ms s"
  with CacheEvent show ?thesis by (simp add: scheduled_on_event)
qed (auto simp: scheduled_def flush_def Let_def split: list.splits)

lemma commits_run_jobs: "pc_rows (fold (pc_step ms) (replicate (length (pc_jobs s)) Commit) s) = opened s"
proof (induction "pc_jobs s" arbitrary: s)
  case Nil
  then show ?case by (simp add: opened_def flip: Nil)
next
  case (Cons j js)
  let ?t = "s\<lparr>pc_jobs := js, pc_rows := run_job j (pc_rows s)\<rparr>"
  have "pc_rows (fold (pc_step ms) (replicate (length (pc_jobs ?t)) Commit) ?t) = opened ?t" by (rule Cons.hyps) simp
  then show ?case by (simp add: opened_def flip: Cons.hyps(2))
qed

text \<open>The states of a client that is never detached, as \<open>createAppQueryClient\<close> leaves it.\<close>

inductive kept :: "nat \<Rightarrow> ('k, 'd) persistence \<Rightarrow> bool" for ms where
  attach: "kept ms (attach db)"
| step: "kept ms s \<Longrightarrow> ev \<noteq> Detach \<Longrightarrow> kept ms (pc_step ms ev s)"

lemma kept_ok: "kept ms s \<Longrightarrow> wf_pc s \<and> scheduled ms s"
proof (induction rule: kept.induct)
  case (attach db)
  then show ?case by (simp add: wf_attach) (simp add: scheduled_def attach_def)
next
  case (step s ev)
  then show ?case by (simp add: wf_step scheduled_step)
qed

lemma flush_due: "scheduled 0 s \<Longrightarrow> settled s = opened (pc_step 0 Microtask s)"
  by (auto simp: scheduled_def flush_def Let_def settled_def opened_def)

text \<open>
  C24. Nothing pending is forgotten: in every state of the running app one more microtask and the end of the
  transactions then open bring the rows on disk to what the cache last said; pending work always has its flush queued.
\<close>

theorem cache_is_written:
  assumes "kept 0 s"
  shows "let t = pc_step 0 Microtask s in
    pc_rows (fold (pc_step 0) (replicate (length (pc_jobs t)) Commit) t) = settled s"
  using flush_due [of s] kept_ok [OF assms] unfolding Let_def commits_run_jobs by simp

theorem cache_is_written_witness:
  "map_of (pc_rows (pc_step 0 Commit (pc_step 0 Microtask (pc_step 0 (CacheEvent Updated demo_query) (attach []))))) ''h''
   = Some (entry_of demo_query 7)"
proof -
  let ?s = "pc_step 0 (CacheEvent Updated demo_query) (attach [])"
  have "kept 0 ?s" by (rule kept.step [OF kept.attach]) simp
  moreover have "length (pc_jobs (pc_step 0 Microtask ?s)) = 1" by code_simp
  moreover have "map_of (settled ?s) ''h'' = Some (entry_of demo_query 7)" by code_simp
  ultimately show ?thesis using cache_is_written [of ?s] by (simp add: Let_def del: pc_step.simps)
qed

subsection \<open>Signing out\<close>

lemma delete_none: "fold AList.delete ds [] = []"
  by (induction ds) simp_all

lemma clear_wipes: "pc_writes s = [] \<Longrightarrow> settled (pc_step ms Clear s) = []"
  by (simp add: settled_def opened_def delete_none)

text \<open>A write that is pending when the cache is cleared comes after it, and so does every later success.\<close>

lemma written_after_clear:
  "map fst (pc_rows (fold (pc_step 0) [CacheEvent Updated demo_query, Clear, Microtask, Commit, Commit] (attach []))) = [''h''] \<and>
   map fst (pc_rows (fold (pc_step 0) [Clear, Commit, CacheEvent Updated demo_query, Microtask, Commit] (attach []))) = [''h'']"
  by code_simp


section \<open>A reload shows the cache and nothing older or in the way\<close>

definition is_live :: "('d option \<times> bool) option \<Rightarrow> bool" where
  "is_live q = (case q of None \<Rightarrow> False | Some (d, fetching) \<Rightarrow> d \<noteq> None \<or> fetching)"

lemma hydrate_rows_Cons:
  "hydrate_rows minAt cl (Some e # rs) =
     (if en_at e < minAt \<or> is_live (cl (en_key e)) then hydrate_rows minAt cl rs
      else let (cl', ks) = hydrate_rows minAt (cl(en_key e := Some (Some (en_data e), False))) rs in (cl', en_key e # ks))"
  by (auto simp: is_live_def split: option.splits)

lemma hydrated:
  assumes "hydrate_rows minAt cl rs = (cl', ks)"
  shows "(if k \<in> set ks
      then \<not> is_live (cl k) \<and> (\<exists>e. Some e \<in> set rs \<and> en_key e = k \<and> minAt \<le> en_at e \<and> cl' k = Some (Some (en_data e), False))
      else cl' k = cl k) \<and> distinct ks"
  using assms
proof (induction rs arbitrary: cl cl' ks k)
  case Nil
  then show ?case by simp
next
  case (Cons r rs)
  show ?case
  proof (cases r)
    case None
    with Cons.prems have "hydrate_rows minAt cl rs = (cl', ks)" by simp
    from Cons.IH [OF this, of k] show ?thesis by (auto split: if_splits)
  next
    case (Some e)
    show ?thesis
    proof (cases "en_at e < minAt \<or> is_live (cl (en_key e))")
      case True
      with Cons.prems Some have "hydrate_rows minAt cl rs = (cl', ks)" by (simp only: hydrate_rows_Cons if_True)
      from Cons.IH [OF this, of k] show ?thesis by (auto split: if_splits)
    next
      case False
      let ?cl = "cl(en_key e := Some (Some (en_data e), False))"
      obtain c ks' where rest: "hydrate_rows minAt ?cl rs = (c, ks')" by fastforce
      with Cons.prems Some False have "cl' = c" "ks = en_key e # ks'"
        by (auto simp only: hydrate_rows_Cons if_False Let_def prod.case prod.inject)
      moreover have "is_live (?cl (en_key e))" by (simp add: is_live_def)
      moreover have key: "en_key e \<notin> set ks' \<and> c (en_key e) = Some (Some (en_data e), False)"
        using Cons.IH [OF rest, of "en_key e"] \<open>is_live (?cl (en_key e))\<close> by (auto split: if_splits)
      ultimately show ?thesis using False Some Cons.IH [OF rest, of k] by (cases "k = en_key e") (auto split: if_splits)
    qed
  qed
qed

text \<open>
  Also shown. A reload shows what was kept and never undoes what is there: a query that has data or is already fetching stays
  as it is, and a query that is filled in had neither, gets the data of a row of its key that is no older than the
  given age, and is among those invalidated, so that it is fetched again.
\<close>

theorem hydrate_keeps_live:
  "case hydrate now maxAgeMs cl rs of (cl', ks) \<Rightarrow>
     distinct ks \<and>
     (if k \<in> set ks
      then \<not> is_live (cl k) \<and> (\<exists>e. Some e \<in> set rs \<and> en_key e = k \<and> now - maxAgeMs \<le> en_at e \<and> cl' k = Some (Some (en_data e), False))
      else cl' k = cl k)"
  using hydrated [of "now - maxAgeMs" cl rs] by (cases "hydrate now maxAgeMs cl rs") (auto simp: hydrate_def)

section \<open>The policies\<close>

text \<open>A query is retried three times at most, and never on a 404 or without a session.\<close>

lemma retry_bounded: "shouldRetryQuery failures e \<Longrightarrow> failures < 3 \<and> \<not> is_unauthenticated e"
  by (simp add: shouldRetryQuery_def split: if_splits)

lemma no_retry_on_404: "is_query_error e \<Longrightarrow> status_of e = Some 404 \<Longrightarrow> \<not> shouldRetryQuery failures e"
  by (simp add: shouldRetryQuery_def)

text \<open>The path a key stands for.\<close>

fun paths_of :: "string list \<Rightarrow> string list" where
  "paths_of [a, b] =
     (if a = ''path'' then [b] else if b = ''profile'' then [''/api/me''] else [''/api/me/principals''])"
| "paths_of [a, t, b] = [''/api/tenants/'' @ t @ ''/'' @ b]"
| "paths_of [a, t, b, q] = [''/api/tenants/'' @ t @ ''/artifacts'' @ (if q = [] then [] else CHR ''?'' # q), ''/api/tenants/'' @ t @ ''/artifacts?'' @ q]"
| "paths_of _ = []"

lemma tenant_rest_path: "tenant_rest path = Some (t, after) \<Longrightarrow> path = ''/api/tenants/'' @ t @ ''/'' @ after"
proof -
  assume a: "tenant_rest path = Some (t, after)"
  then obtain rest where p: "path = ''/api/tenants/'' @ rest" by (auto simp: tenant_rest_def starts_with_iff split: if_splits)
  have r: "drop 13 path = rest" by (simp add: p)
  have t: "t = takeWhile (\<lambda>c. c \<noteq> CHR ''/'') rest" and ne: "drop (length t) rest \<noteq> []" and af: "after = tl (drop (length t) rest)"
    using a by (auto simp: tenant_rest_def r Let_def split: if_splits)
  have d: "drop (length t) rest = dropWhile (\<lambda>c. c \<noteq> CHR ''/'') rest" by (simp add: t dropWhile_eq_drop)
  with ne have "hd (drop (length t) rest) = CHR ''/''" using hd_dropWhile [of "\<lambda>c. c \<noteq> CHR ''/''" rest] by simp
  with ne af have "drop (length t) rest = CHR ''/'' # after" by (cases "drop (length t) rest") auto
  with t d show ?thesis using takeWhile_dropWhile_id [of "\<lambda>c. c \<noteq> CHR ''/''" rest] p by simp
qed

lemma artifacts_query_path: "artifacts_query after = Some q \<Longrightarrow> after = ''artifacts'' \<and> q = [] \<or> after = ''artifacts?'' @ q"
  by (auto simp: artifacts_query_def starts_with_iff split: if_splits)

lemma path_of_key: "path \<in> set (paths_of (pathToQueryKey path))"
proof (cases "tenant_rest path")
  case None
  then show ?thesis by (simp add: pathToQueryKey_def)
next
  case (Some p)
  obtain t after where p: "p = (t, after)" by (cases p)
  with Some have path: "path = ''/api/tenants/'' @ t @ ''/'' @ after" using tenant_rest_path by simp
  show ?thesis
  proof (cases "artifacts_query after")
    case None
    with Some p path show ?thesis by (auto simp: pathToQueryKey_def)
  next
    case (Some q)
    with \<open>tenant_rest path = Some p\<close> p path artifacts_query_path [OF Some] show ?thesis
      by (auto simp: pathToQueryKey_def)
  qed
qed

text \<open>
  Also shown. Two paths never share an entry of the cache by accident: paths of the same key are the same, or differ in an
  empty query.
\<close>

theorem query_keys_apart:
  assumes "pathToQueryKey p = pathToQueryKey q"
  shows "p = q \<or> p = q @ ''?'' \<or> q = p @ ''?''"
proof -
  have "p \<in> set (paths_of (pathToQueryKey p))" "q \<in> set (paths_of (pathToQueryKey p))"
    using path_of_key [of p] path_of_key [of q] assms by simp_all
  then show ?thesis by (cases "pathToQueryKey p" rule: paths_of.cases) (auto split: if_splits)
qed

theorem query_keys_apart_witness:
  "pathToQueryKey ''/api/tenants/t/artifacts'' = pathToQueryKey ''/api/tenants/t/artifacts?''"
proof -
  have "pathToQueryKey ''/api/tenants/t/artifacts'' = pathToQueryKey ''/api/tenants/t/artifacts?''" by code_simp
  from query_keys_apart [OF this] this show ?thesis by simp
qed

end
