(* ===== verification/Agent_Roles.thy ===== *)
theory Agent_Roles
  imports Stock_Hub
begin

text \<open>
  The roles an agent carries, \<open>apps/web/src/agent-roles.ts\<close>: the roles of a tenant read page by page and resolved by
  name, the agent's workflow principal, and the assignment of each role.
\<close>

section \<open>Reading pages\<close>

definition roles_error :: "string \<Rightarrow> js_error" where
  "roles_error m = error_of ''AgentRolesError'' m None"

record role_option =
  ro_id :: string
  ro_name :: string
  ro_isSystem :: bool

definition bool_field :: "string \<Rightarrow> json \<Rightarrow> bool option" where
  "bool_field k j = (case field k j of Some (JBool b) \<Rightarrow> Some b | _ \<Rightarrow> None)"

text \<open>\<open>RoleResponse\<close> of \<open>@intx/types\<close>.\<close>

definition parse_role_response :: "json \<Rightarrow> role_option option" where
  "parse_role_response j =
     (case (str_field ''id'' j, str_field ''tenantId'' j, str_field ''name'' j, opt_field as_str_or_null ''description'' j,
            bool_field ''isSystem'' j, str_field ''createdAt'' j, str_field ''updatedAt'' j) of
        (Some i, Some _, Some n, Some _, Some b, Some _, Some _) \<Rightarrow> Some \<lparr>ro_id = i, ro_name = n, ro_isSystem = b\<rparr>
      | _ \<Rightarrow> None)"

record role_principal =
  rp_id :: string
  rp_kind :: string
  rp_refId :: string
  rp_displayName :: string
  rp_status :: string

definition parse_role_principal :: "json \<Rightarrow> role_principal option" where
  "parse_role_principal j =
     (case (str_field ''id'' j, str_field ''kind'' j, str_field ''refId'' j, str_field ''displayName'' j, str_field ''status'' j) of
        (Some i, Some k, Some r, Some d, Some s) \<Rightarrow>
          Some \<lparr>rp_id = i, rp_kind = k, rp_refId = r, rp_displayName = d, rp_status = s\<rparr>
      | _ \<Rightarrow> None)"

definition readPage :: "response \<Rightarrow> (json \<Rightarrow> 'a option) \<Rightarrow> string \<Rightarrow> ('w, 'a list \<times> string option) client" where
  "readPage r f what =
     (if rs_status r = 401 then throwE unauthenticated
      else if \<not> resp_ok r then throwE (roles_error (what @ '' failed.''))
      else (case Option.bind (rs_body r) (parse_page f) of
              None \<Rightarrow> throwE (roles_error (what @ '' came back an unexpected shape.''))
            | Some p \<Rightarrow> returnE p))"

definition fetchPage :: "'w hub \<Rightarrow> string \<Rightarrow> (json \<Rightarrow> 'a option) \<Rightarrow> string \<Rightarrow> ('w, 'a list \<times> string option) client" where
  "fetchPage hub path f what =
     bindE (fetch_raw hub (get path)) (\<lambda>a. case a of Inl m \<Rightarrow> throwE (roles_error m) | Inr r \<Rightarrow> readPage r f what)"

definition cursor_path :: "string \<Rightarrow> string option \<Rightarrow> string" where
  "cursor_path base cursor = (case cursor of None \<Rightarrow> base | Some c \<Rightarrow> base @ ''&cursor='' @ encodeURIComponent c)"

section \<open>The roles of a tenant\<close>

definition roles_base :: "string \<Rightarrow> string" where
  "roles_base t = tenantPath t ''/roles'' @ ''?limit=100''"

partial_function (option) list_roles :: "'w hub \<Rightarrow> string \<Rightarrow> role_option list \<Rightarrow> string option \<Rightarrow> ('w, role_option list) pclient" where
  "list_roles hub base roles cursor n =
     (case fetchPage hub (cursor_path base cursor) parse_role_response ''Listing this workbench's roles'' n of
        (Inl e, n') \<Rightarrow> Some (Inl e, n')
      | (Inr (rows, next), n') \<Rightarrow>
          (case next of None \<Rightarrow> Some (Inr (roles @ rows), n') | Some c \<Rightarrow> list_roles hub base (roles @ rows) (Some c) n'))"

declare list_roles.simps [code]

definition listTenantRoles :: "'w hub \<Rightarrow> string \<Rightarrow> ('w, role_option list) pclient" where
  "listTenantRoles hub t = list_roles hub (roles_base t) [] None"

text \<open>\<open>[...new Set(names)]\<close> keeps the first of equal names.\<close>

definition uniq :: "'a list \<Rightarrow> 'a list" where
  "uniq xs = rev (remdups (rev xs))"

fun role_ids :: "role_option list \<Rightarrow> string list \<Rightarrow> js_error + string list" where
  "role_ids roles [] = Inr []"
| "role_ids roles (name # names) =
     (case find (\<lambda>r. ro_name r = name) roles of
        None \<Rightarrow> Inl (roles_error (''This workbench has no role named \"'' @ name @ ''\".''))
      | Some r \<Rightarrow> (case role_ids roles names of Inl e \<Rightarrow> Inl e | Inr ids \<Rightarrow> Inr (ro_id r # ids)))"

definition resolveAgentRoleIds :: "'w hub \<Rightarrow> string \<Rightarrow> string list \<Rightarrow> ('w, string list) pclient" where
  "resolveAgentRoleIds hub t names =
     (let wanted = uniq names in
      if wanted = [] then liftP (returnE [])
      else bindP (listTenantRoles hub t) (\<lambda>roles.
        liftP (case role_ids roles wanted of Inl e \<Rightarrow> throwE e | Inr ids \<Rightarrow> returnE ids)))"

section \<open>The principal of an agent\<close>

record principal_ref =
  pf_deploymentId :: string
  pf_address :: "string option"

definition principal_matches :: "principal_ref \<Rightarrow> role_principal \<Rightarrow> bool" where
  "principal_matches ref p \<longleftrightarrow>
     rp_status p \<noteq> ''removed'' \<and>
     (rp_refId p = pf_deploymentId ref \<or>
      (case pf_address ref of None \<Rightarrow> False | Some a \<Rightarrow> rp_displayName p = ''Workflow ('' @ a @ '')''))"

definition principals_base :: "string \<Rightarrow> string" where
  "principals_base t = tenantPath t ''/principals'' @ ''?kind=workflow&limit=100''"

partial_function (option) find_principal :: "'w hub \<Rightarrow> string \<Rightarrow> principal_ref \<Rightarrow> string option \<Rightarrow> ('w, string option) pclient" where
  "find_principal hub base ref cursor n =
     (case fetchPage hub (cursor_path base cursor) parse_role_principal ''Listing this workbench's people'' n of
        (Inl e, n') \<Rightarrow> Some (Inl e, n')
      | (Inr (rows, next), n') \<Rightarrow>
          (case find (principal_matches ref) rows of
             Some p \<Rightarrow> Some (Inr (Some (rp_id p)), n')
           | None \<Rightarrow>
               (case next of None \<Rightarrow> Some (Inr None, n') | Some c \<Rightarrow> find_principal hub base ref (Some c) n')))"

declare find_principal.simps [code]

definition resolveAgentPrincipalId :: "'w hub \<Rightarrow> string \<Rightarrow> principal_ref \<Rightarrow> ('w, string option) pclient" where
  "resolveAgentPrincipalId hub t ref = find_principal hub (principals_base t) ref None"

section \<open>Assigning\<close>

definition readAssignError :: "response \<Rightarrow> string" where
  "readAssignError r =
     (let err = Option.bind (rs_body r) (field ''error'');
          txt = (\<lambda>k. Option.bind err (opt_field as_str k))
      in case (Option.bind err (str_field ''code''), txt ''message'', txt ''userMessage'') of
           (Some _, Some m, Some u) \<Rightarrow>
             (case u of Some x \<Rightarrow> x | None \<Rightarrow> (case m of Some x \<Rightarrow> x | None \<Rightarrow> ''HTTP '' @ dec (rs_status r)))
         | _ \<Rightarrow> ''HTTP '' @ dec (rs_status r))"

definition assign_request :: "string \<Rightarrow> string \<Rightarrow> string \<Rightarrow> request" where
  "assign_request t p roleId =
     \<lparr>rq_method = POST, rq_path = tenantPath t (''/principals/'' @ encodeURIComponent p @ ''/roles/'' @ encodeURIComponent roleId),
      rq_body = None\<rparr>"

fun assignAgentRoles :: "'w hub \<Rightarrow> string \<Rightarrow> string \<Rightarrow> string list \<Rightarrow> ('w, unit) client" where
  "assignAgentRoles hub t p [] = returnE ()"
| "assignAgentRoles hub t p (roleId # roleIds) =
     bindE (fetch_raw hub (assign_request t p roleId)) (\<lambda>a.
     case a of
       Inl m \<Rightarrow> throwE (roles_error m)
     | Inr r \<Rightarrow>
         if \<not> resp_ok r then throwE (roles_error (''Assigning this role failed: '' @ readAssignError r))
         else assignAgentRoles hub t p roleIds)"

definition assignRolesToAgent :: "'w hub \<Rightarrow> string \<Rightarrow> string list \<Rightarrow> principal_ref \<Rightarrow> ('w, unit) pclient" where
  "assignRolesToAgent hub t roleIds ref =
     (if roleIds = [] then liftP (returnE ())
      else bindP (resolveAgentPrincipalId hub t ref) (\<lambda>p.
        case p of
          None \<Rightarrow> liftP (throwE (roles_error
            ''This agent hasn't run yet, so its roles can't be assigned. Send it a message, then try again and the roles will apply.''))
        | Some pid \<Rightarrow> liftP (assignAgentRoles hub t pid roleIds)))"


section \<open>Only reads before the deploy\<close>

lemma sends_fetchPage: "sends is_get (fetchPage hub path f what)"
  unfolding fetchPage_def readPage_def by (intro sends_rules) simp

lemma fetchPage_sent:
  assumes "fetchPage hub path f what n = (r, n')"
  obtains t where "sent n' = sent n @ t" and "\<forall>x \<in> set t. is_get (fst x)"
  using sendsE [OF sends_fetchPage assms] by blast

lemma list_roles_sends: "sendsP is_get (list_roles hub base roles cursor)"
  unfolding sendsP_def
proof (intro allI impI)
  fix n r n'
  assume run: "list_roles hub base roles cursor n = Some (r, n')"
  have "\<exists>t. sent (snd (r, n')) = sent n @ t \<and> (\<forall>x \<in> set t. is_get (fst x))"
  proof (rule list_roles.raw_induct [where P = "\<lambda>hub base roles cursor n p. \<exists>t. sent (snd p) = sent n @ t \<and> (\<forall>x \<in> set t. is_get (fst x))", OF _ run])
    fix rec and hub :: "'a hub" and base roles cursor n p
    assume IH: "\<And>(hub :: 'a hub) base roles cursor n p. rec hub base roles cursor n = Some p \<Longrightarrow>
        \<exists>t. sent (snd p) = sent n @ t \<and> (\<forall>x \<in> set t. is_get (fst x))"
      and step: "(case fetchPage hub (cursor_path base cursor) parse_role_response ''Listing this workbench's roles'' n of
          (Inl e, n') \<Rightarrow> Some (Inl e, n')
        | (Inr (rows, next), n') \<Rightarrow>
            (case next of None \<Rightarrow> Some (Inr (roles @ rows), n') | Some c \<Rightarrow> rec hub base (roles @ rows) (Some c) n')) = Some p"
    obtain q n1 where q: "fetchPage hub (cursor_path base cursor) parse_role_response ''Listing this workbench's roles'' n = (q, n1)"
      by (cases "fetchPage hub (cursor_path base cursor) parse_role_response ''Listing this workbench's roles'' n")
    then obtain t where t: "sent n1 = sent n @ t" "\<forall>x \<in> set t. is_get (fst x)" by (rule fetchPage_sent)
    show "\<exists>t. sent (snd p) = sent n @ t \<and> (\<forall>x \<in> set t. is_get (fst x))"
    proof (cases "\<exists>rows c. q = Inr (rows, Some c)")
      case True
      with step q obtain rows c where "rec hub base (roles @ rows) (Some c) n1 = Some p" by auto
      with IH obtain u where "sent (snd p) = sent n1 @ u" "\<forall>x \<in> set u. is_get (fst x)" by blast
      with t show ?thesis by (intro exI [of _ "t @ u"]) auto
    next
      case False
      with step q have "snd p = n1" by (auto split: sum.splits option.splits)
      with t show ?thesis by blast
    qed
  qed
  then show "\<exists>t. sent n' = sent n @ t \<and> (\<forall>x \<in> set t. is_get (fst x))" by simp
qed

lemma sends_role_ids: "sends P (case role_ids roles names of Inl e \<Rightarrow> throwE e | Inr ids \<Rightarrow> returnE ids)"
  by (intro sends_rules)

lemma resolveAgentRoleIds_sends [sends_rules]: "sendsP is_get (resolveAgentRoleIds hub t names)"
  unfolding resolveAgentRoleIds_def listTenantRoles_def Let_def
  by (intro sends_rules list_roles_sends)

lemma role_ids_Inr:
  "role_ids roles names = Inr ids \<Longrightarrow> list_all2 (\<lambda>name i. \<exists>r \<in> set roles. ro_name r = name \<and> ro_id r = i) names ids"
proof (induction names arbitrary: ids)
  case (Cons name names)
  then show ?case by (auto split: option.splits sum.splits dest: find_SomeD)
qed simp

lemma role_ids_Inl:
  "role_ids roles names = Inl e \<Longrightarrow> \<exists>name \<in> set names. name \<notin> ro_name ` set roles"
  by (induction names) (auto simp: find_None_iff split: option.splits sum.splits)

text \<open>
  Also shown. A selection of roles is resolved whole or not at all, before anything is written: whatever the hub answers only
  reads are sent, a result gives for every selected name, each once, the id of a listed role of that name, and a name
  that no listed role has fails the deploy.
\<close>

theorem roles_resolved_whole:
  assumes "resolveAgentRoleIds hub t names n = Some (res, n')"
  shows "(\<exists>tr. sent n' = sent n @ tr \<and> list_all (is_get \<circ> fst) tr) \<and>
    (case res of
       Inl e \<Rightarrow> (\<exists>n1. listTenantRoles hub t n = Some (Inl e, n1)) \<or>
         (\<exists>roles n1. listTenantRoles hub t n = Some (Inr roles, n1) \<and> \<not> set names \<subseteq> ro_name ` set roles)
     | Inr ids \<Rightarrow> names = [] \<and> ids = [] \<or>
         (\<exists>roles. listTenantRoles hub t n = Some (Inr roles, n') \<and>
            list_all2 (\<lambda>name i. \<exists>r \<in> set roles. ro_name r = name \<and> ro_id r = i) (uniq names) ids))"
proof
  show "\<exists>tr. sent n' = sent n @ tr \<and> list_all (is_get \<circ> fst) tr"
    using resolveAgentRoleIds_sends [of hub t names] assms by (fastforce simp: sendsP_def list_all_iff)
  have set_uniq: "set (uniq names) = set names" by (simp add: uniq_def)
  have uniq_Nil: "uniq names = [] \<longleftrightarrow> names = []" by (simp add: uniq_def)
  show "case res of
       Inl e \<Rightarrow> (\<exists>n1. listTenantRoles hub t n = Some (Inl e, n1)) \<or>
         (\<exists>roles n1. listTenantRoles hub t n = Some (Inr roles, n1) \<and> \<not> set names \<subseteq> ro_name ` set roles)
     | Inr ids \<Rightarrow> names = [] \<and> ids = [] \<or>
         (\<exists>roles. listTenantRoles hub t n = Some (Inr roles, n') \<and>
            list_all2 (\<lambda>name i. \<exists>r \<in> set roles. ro_name r = name \<and> ro_id r = i) (uniq names) ids)"
  proof (cases "names = []")
    case True
    with assms uniq_Nil show ?thesis by (auto simp: resolveAgentRoleIds_def Let_def liftP_def returnE_def)
  next
    case False
    with assms uniq_Nil obtain q n1 where q: "listTenantRoles hub t n = Some (q, n1)"
      by (auto simp: resolveAgentRoleIds_def Let_def bindP_def split: option.splits)
    show ?thesis
    proof (cases q)
      case (Inl e)
      with q assms False uniq_Nil show ?thesis by (auto simp: resolveAgentRoleIds_def Let_def bindP_def)
    next
      case (Inr roles)
      with q assms False uniq_Nil have run: "(case role_ids roles (uniq names) of Inl e \<Rightarrow> throwE e | Inr ids \<Rightarrow> returnE ids) n1 = (res, n')"
        by (simp add: resolveAgentRoleIds_def Let_def bindP_def liftP_def)
      show ?thesis
      proof (cases "role_ids roles (uniq names)")
        case (Inl e)
        from role_ids_Inl [OF Inl] set_uniq have "\<not> set names \<subseteq> ro_name ` set roles" by blast
        with run Inl Inr have "res = Inl e" by (simp add: throwE_def)
        with q Inr \<open>\<not> set names \<subseteq> ro_name ` set roles\<close> show ?thesis by simp
      next
        case ids: (Inr ids)
        with run have "res = Inr ids" "n' = n1" by (simp_all add: returnE_def)
        with Inr q role_ids_Inr [OF ids] show ?thesis by simp
      qed
    qed
  qed
qed


definition demo_roles_hub :: "unit hub" where
  "demo_roles_hub rq w =
     (Inr \<lparr>rs_status = 200, rs_body = Some (JObj [(''data'', JArr [JObj [(''id'', JStr ''r1''), (''tenantId'', JStr ''t''), (''name'', JStr ''member''),
        (''isSystem'', JBool True), (''createdAt'', JStr ''c''), (''updatedAt'', JStr ''u'')]]), (''nextCursor'', JNull)])\<rparr>, w)"

definition demo_net :: "unit net" where
  "demo_net = \<lparr>server = (), sent = []\<rparr>"

lemma demo_page:
  "fst (fetchPage demo_roles_hub path parse_role_response what demo_net) = Inr ([\<lparr>ro_id = ''r1'', ro_name = ''member'', ro_isSystem = True\<rparr>], None)"
  by (simp add: fetchPage_def readPage_def bindE_def fetch_raw_def demo_roles_hub_def demo_net_def resp_ok_def returnE_def
      parse_page_def page_of_def array_of_def parse_role_response_def str_field_def bool_field_def opt_field_def)

lemma demo_roles_run:
  "map_option fst (resolveAgentRoleIds demo_roles_hub ''t'' [''member''] demo_net) = Some (Inr [''r1''])"
proof -
  obtain n1 where page: "fetchPage demo_roles_hub (cursor_path (roles_base ''t'') None) parse_role_response ''Listing this workbench's roles'' demo_net
      = (Inr ([\<lparr>ro_id = ''r1'', ro_name = ''member'', ro_isSystem = True\<rparr>], None), n1)"
    using demo_page [of "cursor_path (roles_base ''t'') None" "''Listing this workbench's roles''"]
    by (cases "fetchPage demo_roles_hub (cursor_path (roles_base ''t'') None) parse_role_response ''Listing this workbench's roles'' demo_net") auto
  then have "listTenantRoles demo_roles_hub ''t'' demo_net = Some (Inr [\<lparr>ro_id = ''r1'', ro_name = ''member'', ro_isSystem = True\<rparr>], n1)"
    unfolding listTenantRoles_def by (subst list_roles.simps) simp
  then show ?thesis
    by (simp add: resolveAgentRoleIds_def uniq_def bindP_def liftP_def returnE_def)
qed

theorem roles_resolved_whole_witness:
  "\<exists>n'. resolveAgentRoleIds demo_roles_hub ''t'' [''member''] demo_net = Some (Inr [''r1''], n') \<and>
     (\<exists>tr. sent n' = tr \<and> list_all (is_get \<circ> fst) tr)"
proof -
  obtain n' where run: "resolveAgentRoleIds demo_roles_hub ''t'' [''member''] demo_net = Some (Inr [''r1''], n')"
    using demo_roles_run by (cases "resolveAgentRoleIds demo_roles_hub ''t'' [''member''] demo_net") auto
  show ?thesis using roles_resolved_whole [OF run] run by (simp add: demo_net_def)
qed

section \<open>Assigning stops at the first refusal\<close>

definition accepted :: "string + response \<Rightarrow> bool" where
  "accepted a = (case a of Inl _ \<Rightarrow> False | Inr r \<Rightarrow> resp_ok r)"

text \<open>
  Also shown. The roles are assigned in order, one request each, up to the first that is not accepted: the assignment
  succeeds exactly when every one was accepted, and fails with nothing sent behind the one that was not.
\<close>

theorem assign_stops_at_refusal:
  assumes "assignAgentRoles hub t p ids n = (res, n')"
  shows "\<exists>tr. sent n' = sent n @ tr \<and> map fst tr = map (assign_request t p) (take (length tr) ids) \<and>
    (case res of
       Inr _ \<Rightarrow> length tr = length ids \<and> list_all (accepted \<circ> snd) tr
     | Inl _ \<Rightarrow> tr \<noteq> [] \<and> list_all (accepted \<circ> snd) (butlast tr) \<and> \<not> accepted (snd (last tr)))"
  using assms
proof (induction ids arbitrary: n)
  case Nil
  then show ?case by (auto simp: returnE_def)
next
  case (Cons i ids)
  obtain a w where hub: "hub (assign_request t p i) (server n) = (a, w)" by (cases "hub (assign_request t p i) (server n)")
  let ?n = "n\<lparr>server := w, sent := sent n @ [(assign_request t p i, a)]\<rparr>"
  have fetch: "fetch_raw hub (assign_request t p i) n = (Inr a, ?n)" using hub by (simp add: fetch_raw_def)
  show ?case
  proof (cases "accepted a")
    case True
    with Cons.prems fetch have "assignAgentRoles hub t p ids ?n = (res, n')"
      by (simp add: bindE_def accepted_def split: sum.splits)
    from Cons.IH [OF this] obtain tr where tr: "sent n' = sent ?n @ tr" "map fst tr = map (assign_request t p) (take (length tr) ids)"
      "case res of Inr _ \<Rightarrow> length tr = length ids \<and> list_all (accepted \<circ> snd) tr
       | Inl _ \<Rightarrow> tr \<noteq> [] \<and> list_all (accepted \<circ> snd) (butlast tr) \<and> \<not> accepted (snd (last tr))" by blast
    with True show ?thesis
      by (intro exI [of _ "(assign_request t p i, a) # tr"]) (auto split: sum.splits)
  next
    case False
    with Cons.prems fetch have "n' = ?n" "\<exists>e. res = Inl e"
      by (auto simp: bindE_def accepted_def throwE_def split: sum.splits)
    with False show ?thesis by (intro exI [of _ "[(assign_request t p i, a)]"]) auto
  qed
qed

theorem assign_stops_at_refusal_witness:
  "let hub = (\<lambda>rq w. (Inr \<lparr>rs_status = 403, rs_body = None\<rparr>, w)) in
   length (sent (snd (assignAgentRoles hub ''t'' ''p'' [''a'', ''b''] demo_net))) = 1"
proof -
  define hub where "hub = (\<lambda>(rq::request) (w::unit). (Inr \<lparr>rs_status = 403, rs_body = None\<rparr> :: string + response, w))"
  obtain res n' where run: "assignAgentRoles hub ''t'' ''p'' [''a'', ''b''] demo_net = (res, n')"
    by (cases "assignAgentRoles hub ''t'' ''p'' [''a'', ''b''] demo_net")
  from assign_stops_at_refusal [OF run] have "length (sent n') \<le> 2" by (auto simp: demo_net_def dest: arg_cong [where f = length])
  moreover have "length (sent n') = 1"
    using run by (simp add: hub_def bindE_def fetch_raw_def throwE_def resp_ok_def demo_net_def) auto
  ultimately show ?thesis using run by (simp add: hub_def)
qed

section \<open>Which principal\<close>

text \<open>
  An older run of the same agent that is listed first, with the agent's address as its name, is found before the
  run that carries the id of the deployment.
\<close>

lemma older_run_found_first:
  "find (principal_matches \<lparr>pf_deploymentId = ''new'', pf_address = Some ''s@d''\<rparr>)
     [\<lparr>rp_id = ''p1'', rp_kind = ''workflow'', rp_refId = ''old'', rp_displayName = ''Workflow (s@d)'', rp_status = ''active''\<rparr>,
      \<lparr>rp_id = ''p2'', rp_kind = ''workflow'', rp_refId = ''new'', rp_displayName = ''Workflow (s@d)'', rp_status = ''active''\<rparr>]
   = Some \<lparr>rp_id = ''p1'', rp_kind = ''workflow'', rp_refId = ''old'', rp_displayName = ''Workflow (s@d)'', rp_status = ''active''\<rparr>"
  by code_simp

end
