(* ===== verification/Git_Push.thy ===== *)
theory Git_Push
  imports Http
begin

text \<open>
  The source of an agent on the hub's git server, \<open>apps/web/src/git-push.ts\<close>: the pkt-line wire, the advertised
  refs, the report of a push, and \<open>pushSourceTree\<close>. Bytes are characters; a binary body is the \<open>JStr\<close> of its
  bytes. What \<open>isomorphic-git\<close> does is a parameter: the object ids of a tree and of a commit, the pack, and the
  fetch of \<open>main\<close>. \<open>TextDecoder\<close> is a parameter too; of it only matters that it keeps ASCII text.
\<close>

section \<open>The pkt-line wire\<close>

definition lower_hex :: "nat \<Rightarrow> char" where
  "lower_hex n = char_of (if n < 10 then 48 + n else 87 + n)"

text \<open>\<open>toString(16).padStart(4, "0")\<close>.\<close>

fun hex :: "nat \<Rightarrow> string" where
  "hex n = (if n < 16 then [lower_hex n] else hex (n div 16) @ [lower_hex (n mod 16)])"

declare hex.simps [simp del]

definition pad4 :: "string \<Rightarrow> string" where
  "pad4 s = replicate (4 - length s) (CHR ''0'') @ s"

definition text_encode :: "string \<Rightarrow> string" where
  "text_encode s = concat (map (\<lambda>c. map char_of (utf8 c)) s)"

definition pktLine :: "string \<Rightarrow> string" where
  "pktLine text = (let payload = text_encode text in text_encode (pad4 (hex (length payload + 4))) @ payload)"

text \<open>\<open>parseInt(text, 16)\<close>: white space, a sign, an optional prefix, then as many digits as there are; \<open>None\<close> is \<open>NaN\<close>.\<close>

fun hex_prefix :: "string \<Rightarrow> nat list" where
  "hex_prefix [] = []"
| "hex_prefix (c # s) = (case hex_digit c of None \<Rightarrow> [] | Some d \<Rightarrow> d # hex_prefix s)"

definition parse_int16 :: "string \<Rightarrow> int option" where
  "parse_int16 s =
     (let t = dropWhile is_space s;
          neg = (t \<noteq> [] \<and> hd t = CHR ''-'');
          u = (if t \<noteq> [] \<and> hd t \<in> {CHR ''-'', CHR ''+''} then tl t else t);
          v = (if take 2 u \<in> {''0x'', ''0X''} then drop 2 u else u);
          ds = hex_prefix v
      in if ds = [] then None
         else (let n = int (foldl (\<lambda>n d. 16 * n + d) 0 ds) in Some (if neg then - n else n)))"

text \<open>\<open>subarray\<close>: a negative index counts from the end, and both are clamped.\<close>

definition clamp_index :: "nat \<Rightarrow> int \<Rightarrow> nat" where
  "clamp_index len i = (if i < 0 then nat (int len + i) else min (nat i) len)"

definition subarray :: "string \<Rightarrow> int \<Rightarrow> int \<Rightarrow> string" where
  "subarray body b e = (let b' = clamp_index (length body) b; e' = clamp_index (length body) e in take (e' - b') (drop b' body))"

datatype git_error = MalformedHeader | GitError string

text \<open>The loop of \<open>readPktLines\<close>, which need not end: an offset can move back.\<close>

partial_function (option) read_pkts ::
  "(string \<Rightarrow> string) \<Rightarrow> string \<Rightarrow> int \<Rightarrow> string list \<Rightarrow> (git_error + string list) option" where
  "read_pkts decode body off ls =
     (if off + 4 \<le> int (length body) then
        (case parse_int16 (decode (subarray body off (off + 4))) of
           None \<Rightarrow> Some (Inl MalformedHeader)
         | Some n \<Rightarrow>
             if n = 0 then read_pkts decode body (off + 4) ls
             else read_pkts decode body (off + 4 + n - 4) (ls @ [decode (subarray body (off + 4) (off + 4 + n - 4))]))
      else Some (Inr ls))"

declare read_pkts.simps [code]

definition readPktLines :: "(string \<Rightarrow> string) \<Rightarrow> string \<Rightarrow> (git_error + string list) option" where
  "readPktLines decode body = read_pkts decode body 0 []"

section \<open>Refs and reports\<close>

definition MAIN_REF :: string where "MAIN_REF = ''refs/heads/main''"
definition ZERO_OID :: string where "ZERO_OID = replicate 40 (CHR ''0'')"

text \<open>The two first words of an advertised line, and the sha of \<open>main\<close>.\<close>

definition ref_of_line :: "string \<Rightarrow> string \<times> string option" where
  "ref_of_line line =
     (case split_on CHR '' '' line of
        [] \<Rightarrow> ([], None) | [sha] \<Rightarrow> (sha, None) | sha # rest # _ \<Rightarrow> (sha, Some (trim (hd (split_on (CHR 0x00) rest)))))"

definition main_sha :: "string list \<Rightarrow> string" where
  "main_sha ls =
     (case find (\<lambda>l. snd (ref_of_line l) = Some MAIN_REF) ls of None \<Rightarrow> ZERO_OID | Some l \<Rightarrow> fst (ref_of_line l))"

definition is_refusal :: "string \<Rightarrow> bool" where
  "is_refusal l \<longleftrightarrow> starts_with ''ng '' l \<or> (starts_with ''unpack '' l \<and> trim l \<noteq> ''unpack ok'')"

definition push_verdict :: "string list \<Rightarrow> git_error option" where
  "push_verdict report =
     (case find is_refusal report of
        Some l \<Rightarrow> Some (GitError (''git push was refused: '' @ trim l))
      | None \<Rightarrow>
          if \<not> list_ex (\<lambda>l. trim l = ''ok '' @ MAIN_REF) report
          then Some (GitError (''git push reported no result for '' @ MAIN_REF))
          else None)"

section \<open>Pushing a tree\<close>

text \<open>What \<open>isomorphic-git\<close> computes: ids of trees and commits, the pack of a commit, the tree of the fetched commit.\<close>

record 'w git_ext =
  gx_decode :: "string \<Rightarrow> string"
  gx_tree :: "(string \<times> string) list \<Rightarrow> string"
  gx_commit :: "string \<Rightarrow> string \<Rightarrow> string list \<Rightarrow> int \<Rightarrow> string"
  gx_pack :: "string \<Rightarrow> (string \<times> string) list \<Rightarrow> string option"
  gx_fetch :: "string \<Rightarrow> string \<Rightarrow> string \<Rightarrow> ('w, string) client"

definition bytes_of :: "response \<Rightarrow> string" where
  "bytes_of r = (case rs_body r of Some (JStr b) \<Rightarrow> b | _ \<Rightarrow> [])"

fun git_throw :: "git_error \<Rightarrow> ('w, 'a) client" where
  "git_throw MalformedHeader = throwE (error_of ''GitPushError'' ''malformed pkt-line header from the hub'' None)"
| "git_throw (GitError m) = throwE (error_of ''GitPushError'' m None)"

definition linesP :: "'w git_ext \<Rightarrow> response \<Rightarrow> ('w, string list) pclient" where
  "linesP gx r n =
     (case readPktLines (gx_decode gx) (bytes_of r) of
        None \<Rightarrow> None | Some (Inl e) \<Rightarrow> Some (git_throw e n) | Some (Inr ls) \<Rightarrow> Some (returnE ls n))"

definition advertisedMainSha :: "'w hub \<Rightarrow> 'w git_ext \<Rightarrow> string \<Rightarrow> ('w, string) pclient" where
  "advertisedMainSha hub gx url =
     bindP (liftP (fetchE hub (get (url @ ''/info/refs?service=git-receive-pack'')))) (\<lambda>r.
     if \<not> resp_ok r then liftP (git_throw (GitError (''ref advertisement failed: HTTP '' @ dec (rs_status r))))
     else bindP (linesP gx r) (\<lambda>ls. liftP (returnE (main_sha ls))))"

definition push_command :: "string \<Rightarrow> string \<Rightarrow> string" where
  "push_command old_sha sha = old_sha @ '' '' @ sha @ '' '' @ MAIN_REF @ [CHR 0x00] @ ''report-status'' @ [CHR 0x0A]"

definition send_pack :: "'w hub \<Rightarrow> 'w git_ext \<Rightarrow> string \<Rightarrow> string \<Rightarrow> string \<Rightarrow> string \<Rightarrow> ('w, string \<times> bool) pclient" where
  "send_pack hub gx url old_sha sha pack =
     bindP (liftP (fetchE hub (post (url @ ''/git-receive-pack'') (JStr (pktLine (push_command old_sha sha) @ ''0000'' @ pack))))) (\<lambda>r.
     if \<not> resp_ok r then liftP (git_throw (GitError (''git push failed: HTTP '' @ dec (rs_status r))))
     else bindP (linesP gx r) (\<lambda>report.
       case push_verdict report of Some e \<Rightarrow> liftP (git_throw e) | None \<Rightarrow> liftP (returnE (sha, True))))"

definition pushSourceTree ::
  "'w hub \<Rightarrow> 'w git_ext \<Rightarrow> (string \<Rightarrow> string) \<Rightarrow> int \<Rightarrow> string \<Rightarrow> string \<Rightarrow> (string \<times> string) list \<Rightarrow> string \<Rightarrow> ('w, string \<times> bool) pclient" where
  "pushSourceTree hub gx quote now url token tree message =
     (case find (\<lambda>(p, _). CHR ''/'' \<in> set p) tree of
        Some (p, _) \<Rightarrow> liftP (git_throw (GitError (''pushSourceTree writes a flat tree; got '' @ quote p)))
      | None \<Rightarrow>
          let treeOid = gx_tree gx tree in
          bindP (advertisedMainSha hub gx url) (\<lambda>old_sha.
          bindP (if old_sha \<noteq> ZERO_OID then bindP (liftP (gx_fetch gx url token old_sha)) (\<lambda>t. liftP (returnE (Some t))) else liftP (returnE None)) (\<lambda>current.
          if current = Some treeOid then liftP (returnE (old_sha, False))
          else
            let sha = gx_commit gx message treeOid (if old_sha = ZERO_OID then [] else [old_sha]) now in
            (case gx_pack gx sha tree of
               None \<Rightarrow> liftP (git_throw (GitError ''packObjects returned no packfile''))
             | Some pack \<Rightarrow> send_pack hub gx url old_sha sha pack))))"


section \<open>What is written is read back\<close>

definition ascii :: "char \<Rightarrow> bool" where
  "ascii c \<longleftrightarrow> char_code c < 128"

lemma hex_digit_lower: "n < 16 \<Longrightarrow> hex_digit (lower_hex n) = Some n"
  by (auto simp: hex_digit_def lower_hex_def is_digit_def in_range_def char_code_def)

lemma encode_ascii: "list_all ascii s \<Longrightarrow> text_encode s = s"
  by (induction s) (simp_all add: text_encode_def utf8_def ascii_def char_code_def)

lemma lower_hex_ascii: "n < 16 \<Longrightarrow> ascii (lower_hex n)"
  by (auto simp: ascii_def lower_hex_def char_code_def)

lemma hex_all: "list_all (\<lambda>c. hex_digit c \<noteq> None \<and> ascii c) (hex n)"
proof (induction n rule: hex.induct)
  case (1 n)
  then show ?case by (subst hex.simps) (simp add: hex_digit_lower lower_hex_ascii)
qed

lemma hex_ne: "hex n \<noteq> []"
  by (subst hex.simps) simp

definition hex_value :: "string \<Rightarrow> nat" where
  "hex_value s = foldl (\<lambda>n d. 16 * n + d) 0 (hex_prefix s)"

lemma hex_prefix_all: "list_all (\<lambda>c. hex_digit c \<noteq> None) s \<Longrightarrow> hex_prefix s = map (the \<circ> hex_digit) s"
  by (induction s) (auto split: option.splits)

lemma hex_value_snoc:
  "list_all (\<lambda>c. hex_digit c \<noteq> None) s \<Longrightarrow> hex_digit c = Some d \<Longrightarrow> hex_value (s @ [c]) = 16 * hex_value s + d"
  by (simp add: hex_value_def hex_prefix_all)

lemma hex_value_hex: "hex_value (hex n) = n"
proof (induction n rule: hex.induct)
  case (1 n)
  show ?case
  proof (cases "n < 16")
    case True
    then show ?thesis by (subst hex.simps) (simp add: hex_value_def hex_digit_lower)
  next
    case False
    have "list_all (\<lambda>c. hex_digit c \<noteq> None) (hex (n div 16))"
      using hex_all [of "n div 16"] by (simp add: list_all_iff)
    then have "hex_value (hex (n div 16) @ [lower_hex (n mod 16)]) = 16 * hex_value (hex (n div 16)) + n mod 16"
      by (intro hex_value_snoc) (simp_all add: hex_digit_lower)
    with False 1 show ?thesis by (subst hex.simps) simp
  qed
qed

lemma hex_digit_0: "hex_digit (CHR ''0'') = Some 0"
  by (simp add: hex_digit_def is_digit_def in_range_def char_code_def)

lemma hex_value_zeros: "hex_value (replicate k (CHR ''0'') @ s) = hex_value s"
proof (induction k)
  case (Suc k)
  then show ?case by (simp add: hex_value_def hex_digit_0)
qed simp

lemma hex_value_pad: "hex_value (pad4 s) = hex_value s"
  by (simp add: pad4_def hex_value_zeros)

lemma hex_short: "n < 16 ^ k \<Longrightarrow> 0 < k \<Longrightarrow> length (hex n) \<le> k"
proof (induction n arbitrary: k rule: hex.induct)
  case (1 n)
  show ?case
  proof (cases "n < 16")
    case True
    with 1 show ?thesis by (subst hex.simps) simp
  next
    case False
    with 1(2,3) obtain j where k: "k = Suc j" "0 < j" by (cases k; cases "k - 1") auto
    with 1(2) have "n div 16 < 16 ^ j" by (simp add: less_mult_imp_div_less mult.commute)
    with 1(1) False k show ?thesis by (subst hex.simps) simp
  qed
qed

lemma hex_char_plain:
  "hex_digit c \<noteq> None \<Longrightarrow> \<not> is_space c \<and> c \<noteq> CHR ''-'' \<and> c \<noteq> CHR ''+'' \<and> c \<noteq> CHR ''x'' \<and> c \<noteq> CHR ''X''"
  by (auto simp: hex_digit_def is_digit_def in_range_def is_space_def char_code_def split: if_splits)

lemma parse_int16_hex:
  assumes "list_all (\<lambda>c. hex_digit c \<noteq> None) s" and "s \<noteq> []"
  shows "parse_int16 s = Some (int (hex_value s))"
proof -
  obtain c t where s: "s = c # t" using assms(2) by (cases s) auto
  with assms(1) have c: "hex_digit c \<noteq> None" and t: "list_all (\<lambda>c. hex_digit c \<noteq> None) t" by simp_all
  have "take 2 s \<notin> {''0x'', ''0X''}"
  proof (cases t)
    case Nil
    with s show ?thesis by simp
  next
    case (Cons d u)
    with t have "hex_digit d \<noteq> None" by simp
    with Cons s hex_char_plain [of d] show ?thesis by (simp add: numeral_2_eq_2)
  qed
  moreover have "hex_prefix s \<noteq> []" using s c by auto
  ultimately show ?thesis
    using s hex_char_plain [OF c] by (auto simp: parse_int16_def hex_value_def Let_def)
qed

lemma header_parses: "n < 65536 \<Longrightarrow> parse_int16 (pad4 (hex n)) = Some (int n) \<and> length (pad4 (hex n)) = 4 \<and> list_all ascii (pad4 (hex n))"
proof -
  assume "n < 65536"
  then have len: "length (hex n) \<le> 4" using hex_short [of n 4] by simp
  have all: "list_all (\<lambda>c. hex_digit c \<noteq> None \<and> ascii c) (pad4 (hex n))"
    using hex_all [of n] by (auto simp: pad4_def list_all_iff hex_digit_0 ascii_def char_code_def)
  then have "list_all (\<lambda>c. hex_digit c \<noteq> None) (pad4 (hex n))" "pad4 (hex n) \<noteq> []"
    using hex_ne [of n] by (simp_all add: list_all_iff pad4_def)
  with all len show ?thesis
    by (simp add: parse_int16_hex hex_value_pad hex_value_hex) (simp add: pad4_def list_all_iff)
qed

lemma subarray_middle:
  "subarray (pre @ m @ suf) (int (length pre)) (int (length pre) + int (length m)) = m"
  by (simp add: subarray_def clamp_index_def nat_add_distrib)

definition keeps_ascii :: "(string \<Rightarrow> string) \<Rightarrow> bool" where
  "keeps_ascii decode \<longleftrightarrow> (\<forall>s. list_all ascii s \<longrightarrow> decode s = s)"

lemma read_flush:
  assumes "keeps_ascii decode"
  shows "read_pkts decode (pre @ ''0000'') (int (length pre)) ls = Some (Inr ls)"
proof -
  have "subarray (pre @ ''0000'') (int (length pre)) (int (length pre) + 4) = ''0000''"
    using subarray_middle [of pre "''0000''" "[]"] by simp
  moreover have "decode ''0000'' = ''0000''" using assms by (simp add: keeps_ascii_def ascii_def char_code_def)
  moreover have "parse_int16 ''0000'' = Some 0" by code_simp
  ultimately show ?thesis
    by (subst read_pkts.simps) (simp, subst read_pkts.simps, simp)
qed

lemma read_written:
  assumes d: "keeps_ascii decode"
  shows "list_all (\<lambda>t. list_all ascii t \<and> length t < 65532) ts \<Longrightarrow>
    read_pkts decode (pre @ concat (map pktLine ts) @ ''0000'') (int (length pre)) ls = Some (Inr (ls @ ts))"
proof (induction ts arbitrary: pre ls)
  case Nil
  then show ?case using read_flush [OF d] by simp
next
  case (Cons t ts)
  then have t: "list_all ascii t" "length t + 4 < 65536" by simp_all
  let ?h = "pad4 (hex (length t + 4))"
  let ?post = "concat (map pktLine ts) @ ''0000''"
  let ?body = "pre @ concat (map pktLine (t # ts)) @ ''0000''"
  note h = header_parses [OF t(2)]
  have line: "pktLine t = ?h @ t" using t h by (simp add: pktLine_def Let_def encode_ascii)
  have body: "?body = pre @ ?h @ (t @ ?post)" "?body = (pre @ ?h) @ t @ ?post" "?body = (pre @ ?h @ t) @ ?post"
    by (simp_all add: line)
  have "subarray ?body (int (length pre)) (int (length pre) + 4) = ?h"
    unfolding body(1) using subarray_middle [of pre ?h "t @ ?post"] h by simp
  moreover have "decode ?h = ?h" "decode t = t" using d h t by (simp_all add: keeps_ascii_def)
  moreover have "subarray ?body (int (length pre) + 4) (int (length pre) + 4 + int (length t + 4) - 4) = t"
    unfolding body(2) using subarray_middle [of "pre @ ?h" t ?post] h by (simp add: algebra_simps)
  moreover have "int (length pre) + 4 \<le> int (length ?body)" using h by (simp add: line)
  ultimately have "read_pkts decode ?body (int (length pre)) ls = read_pkts decode ?body (int (length pre) + 4 + int (length t + 4) - 4) (ls @ [t])"
    using h by (subst read_pkts.simps) simp
  also have "\<dots> = read_pkts decode ((pre @ ?h @ t) @ ?post) (int (length (pre @ ?h @ t))) (ls @ [t])"
    unfolding body(3) using h by (simp add: algebra_simps)
  also have "\<dots> = Some (Inr ((ls @ [t]) @ ts))" using Cons by (intro Cons.IH) simp
  finally show ?case by simp
qed


text \<open>
  Also shown. The wire is read as it is written: whatever ASCII lines shorter than 65532 characters are written as pkt-lines
  and closed with a flush, \<open>readPktLines\<close> returns exactly those lines, in order; in particular it ends.
\<close>

theorem pkt_lines_roundtrip:
  assumes "keeps_ascii decode" and "list_all (\<lambda>t. list_all ascii t \<and> length t < 65532) ts"
  shows "readPktLines decode (concat (map pktLine ts) @ ''0000'') = Some (Inr ts)"
  using read_written [OF assms, of "[]" "[]"] by (simp add: readPktLines_def)

theorem pkt_lines_roundtrip_witness:
  "readPktLines id (concat (map pktLine [''ok refs/heads/main'', ''x'']) @ ''0000'') = Some (Inr [''ok refs/heads/main'', ''x''])"
proof (rule pkt_lines_roundtrip)
  show "keeps_ascii id" by (simp add: keeps_ascii_def)
  show "list_all (\<lambda>t. list_all ascii t \<and> length t < 65532) [''ok refs/heads/main'', ''x'']"
    by (simp add: ascii_def char_code_def)
qed

subsection \<open>A body that is read forever\<close>

text \<open>The second header is a negative number, which leads back to the first.\<close>

definition hanging_body :: string where
  "hanging_body = ''0008abcd-008''"

lemma hanging_headers:
  "parse_int16 (subarray hanging_body 0 4) = Some 8" "parse_int16 (subarray hanging_body 8 12) = Some (- 8)" "length hanging_body = 12"
  by code_simp+

lemma reads_forever:
  assumes "read_pkts decode body off ls = Some r"
  shows "decode = id \<and> body = hanging_body \<and> (off = 0 \<or> off = 8) \<longrightarrow> False"
proof (rule read_pkts.raw_induct [where P = "\<lambda>decode body off ls r. decode = id \<and> body = hanging_body \<and> (off = 0 \<or> off = 8) \<longrightarrow> False", OF _ assms])
  fix rec and decode :: "string \<Rightarrow> string" and body off ls r
  assume IH: "\<And>body off ls b y. rec body off ls b = Some y \<Longrightarrow> body = id \<and> off = hanging_body \<and> (ls = 0 \<or> ls = 8) \<longrightarrow> False"
    and step: "(if off + 4 \<le> int (length body)
      then case parse_int16 (decode (subarray body off (off + 4))) of
           None \<Rightarrow> Some (Inl MalformedHeader)
         | Some n \<Rightarrow>
             if n = 0 then rec decode body (off + 4) ls
             else rec decode body (off + 4 + n - 4) (ls @ [decode (subarray body (off + 4) (off + 4 + n - 4))])
      else Some (Inr ls)) = Some r"
  show "decode = id \<and> body = hanging_body \<and> (off = 0 \<or> off = 8) \<longrightarrow> False"
  proof
    assume a: "decode = id \<and> body = hanging_body \<and> (off = 0 \<or> off = 8)"
    then obtain ls' where "rec decode body (8 - off) ls' = Some r"
      using step hanging_headers by (auto split: if_splits)
    from IH [OF this] a show False by auto
  qed
qed

lemma hanging_body_hangs: "readPktLines id hanging_body = None"
  using reads_forever [of id hanging_body 0 "[]"] by (cases "readPktLines id hanging_body") (auto simp: readPktLines_def)

section \<open>A push counts when the hub says so\<close>

lemma git_throw_Inr [simp]: "git_throw e n \<noteq> (Inr x, n')"
  by (cases e) (simp_all add: throwE_def)

declare git_throw.simps [simp del]

lemma linesP_Inr: "linesP gx r n = Some (Inr ls, n') \<longleftrightarrow> readPktLines (gx_decode gx) (bytes_of r) = Some (Inr ls) \<and> n' = n"
  by (auto simp: linesP_def returnE_def split: option.splits sum.splits)

lemma send_pack_Inr:
  assumes "send_pack hub gx url old_sha sha pack n = Some (Inr (s, ch), n')"
  shows "s = sha \<and> ch \<and> (\<exists>r ls. sent n' = sent n @ [(post (url @ ''/git-receive-pack'') (JStr (pktLine (push_command old_sha sha) @ ''0000'' @ pack)), Inr r)] \<and>
    resp_ok r \<and> readPktLines (gx_decode gx) (bytes_of r) = Some (Inr ls) \<and> push_verdict ls = None)"
  using assms unfolding send_pack_def bindP_Inr liftP_Some fetchE_Inr
  by (auto simp: bindP_Inr liftP_Some linesP_Inr returnE_Inr split: if_splits option.splits)

lemma verdict_ok: "push_verdict ls = None \<Longrightarrow> (\<exists>l \<in> set ls. trim l = ''ok '' @ MAIN_REF) \<and> list_all (\<lambda>l. \<not> is_refusal l) ls"
  by (auto simp: push_verdict_def find_None_iff list_ex_iff list_all_iff split: option.splits if_splits)



definition demo_git :: "unit git_ext" where
  "demo_git = \<lparr>gx_decode = id, gx_tree = (\<lambda>_. ''t''), gx_commit = (\<lambda>_ _ _ _. ''c1''), gx_pack = (\<lambda>_ _. Some ''PACK''),
     gx_fetch = (\<lambda>_ _ _. returnE ''t'')\<rparr>"

definition demo_git_hub :: "unit hub" where
  "demo_git_hub rq w =
     (Inr \<lparr>rs_status = 200, rs_body = Some (JStr (concat (map pktLine (if rq_method rq = GET then [] else [''ok refs/heads/main''])) @ ''0000''))\<rparr>, w)"

lemma demo_lines: "list_all (\<lambda>t. list_all ascii t \<and> length t < 65532) ts \<Longrightarrow>
  readPktLines id (concat (map pktLine ts) @ ''0000'') = Some (Inr ts)"
  using read_written [of id ts "[]" "[]"] by (simp add: readPktLines_def keeps_ascii_def)

lemma demo_none: "readPktLines id ''0000'' = Some (Inr [])"
  using demo_lines [of "[]"] by simp

lemma demo_ok: "readPktLines id (pktLine ''ok refs/heads/main'' @ ''0000'') = Some (Inr [''ok refs/heads/main''])"
  using demo_lines [of "[''ok refs/heads/main'']"] by (simp add: ascii_def char_code_def)

lemma demo_verdict: "push_verdict [''ok refs/heads/main''] = None" "main_sha [] = ZERO_OID"
  by code_simp+

lemma demo_push:
  "map_option fst (pushSourceTree demo_git_hub demo_git id 0 ''u'' ''s'' [(''index.ts'', ''x'')] ''m'' \<lparr>server = (), sent = []\<rparr>) = Some (Inr (''c1'', True))"
proof -
  have git: "gx_decode demo_git = id" "gx_tree demo_git f = ''t''" "gx_commit demo_git m t ps k = ''c1''" "gx_pack demo_git c f = Some ''PACK''" for f m t ps k c
    by (simp_all add: demo_git_def)
  have get: "fetchE demo_git_hub (get u) n = (Inr \<lparr>rs_status = 200, rs_body = Some (JStr ''0000'')\<rparr>,
      n\<lparr>sent := sent n @ [(get u, Inr \<lparr>rs_status = 200, rs_body = Some (JStr ''0000'')\<rparr>)]\<rparr>)" for u n
    by (simp add: fetchE_def fetch_raw_def bindE_def demo_git_hub_def returnE_def get_def)
  have post: "\<exists>n1. fetchE demo_git_hub (post u b) n = (Inr \<lparr>rs_status = 200, rs_body = Some (JStr (pktLine ''ok refs/heads/main'' @ ''0000''))\<rparr>, n1)" for u b n
    by (simp add: fetchE_def fetch_raw_def bindE_def demo_git_hub_def returnE_def post_def)
  have adv: "advertisedMainSha demo_git_hub demo_git ''u'' n = Some (Inr ZERO_OID, snd (fetchE demo_git_hub (get ''u/info/refs?service=git-receive-pack'') n))" for n
    unfolding advertisedMainSha_def
    by (simp add: bindP_def liftP_def get resp_ok_def linesP_def git bytes_of_def demo_none returnE_def demo_verdict)
  have send: "map_option fst (send_pack demo_git_hub demo_git ''u'' o1 ''c1'' ''PACK'' n) = Some (Inr (''c1'', True))" for o1 n
  proof -
    obtain n1 where "fetchE demo_git_hub (post (''u'' @ ''/git-receive-pack'') (JStr (pktLine (push_command o1 ''c1'') @ ''0000'' @ ''PACK''))) n
        = (Inr \<lparr>rs_status = 200, rs_body = Some (JStr (pktLine ''ok refs/heads/main'' @ ''0000''))\<rparr>, n1)" using post by blast
    then show ?thesis unfolding send_pack_def
      by (simp add: bindP_def liftP_def resp_ok_def linesP_def git bytes_of_def demo_ok returnE_def demo_verdict)
  qed
  show ?thesis
    using send unfolding pushSourceTree_def Let_def git by (simp add: bindP_def [of "advertisedMainSha _ _ _"] adv) (simp add: bindP_def liftP_def returnE_def)
qed


end
