(* ===== verification/Install.thy ===== *)
theory Install
  imports Git_Push Mcp_Servers
begin

text \<open>
  Installing a package, \<open>apps/web/src\<close>: the short-lived git token around a use of the remote (\<open>git-token.ts\<close>), the
  one install path (\<open>install-package.ts\<close>) and the hub credential of an agent (\<open>agent-hub-credential.ts\<close>).

  \<open>env\<close> holds what these take from elsewhere: the origin, random ids and the expiry of a token as texts,
  \<open>JSON.stringify\<close>, the schema library's summary, and the git library.
\<close>

record 'w install_env =
  ie_origin :: string
  ie_uuid :: string
  ie_expiry :: string
  ie_now :: int
  ie_stringify :: "json \<Rightarrow> string"
  ie_quote :: "string \<Rightarrow> string"
  ie_summary :: "json \<Rightarrow> string"
  ie_git :: "'w git_ext"

section \<open>A token around a use\<close>

text \<open>\<open>try ... finally\<close>: the last call is made whatever became of the first, and its own failure wins.\<close>

definition finallyP :: "('w, 'a) pclient \<Rightarrow> ('w, 'b) client \<Rightarrow> ('w, 'a) pclient" where
  "finallyP m fin n =
     (case m n of
        None \<Rightarrow> None
      | Some (r, n1) \<Rightarrow> (case fin n1 of (Inl e, n2) \<Rightarrow> Some (Inl e, n2) | (Inr _, n2) \<Rightarrow> Some (r, n2)))"

definition parse_token :: "json \<Rightarrow> (string \<times> string) option" where
  "parse_token j = (case (str_field ''id'' j, str_field ''secret'' j) of (Some i, Some s) \<Rightarrow> Some (i, s) | _ \<Rightarrow> None)"

text \<open>Mint, check the answer, use the secret, revoke: what \<open>withGitToken\<close> and \<open>installPackage\<close> both do.\<close>

definition with_token ::
  "'w hub \<Rightarrow> request \<Rightarrow> (response \<Rightarrow> js_error) \<Rightarrow> (json \<Rightarrow> js_error) \<Rightarrow> (string \<Rightarrow> request) \<Rightarrow> (string \<Rightarrow> ('w, 'a) pclient) \<Rightarrow> ('w, 'a) pclient" where
  "with_token hub mint refused malformed revoke use =
     bindP (liftP (fetchE hub mint)) (\<lambda>minted.
     if \<not> resp_ok minted then liftP (throwE (refused minted))
     else bindP (liftP (json_body minted)) (\<lambda>j.
       case parse_token j of
         None \<Rightarrow> liftP (throwE (malformed j))
       | Some (i, secret) \<Rightarrow> finallyP (use secret) (fetchE hub (revoke i))))"

definition mint_body :: "string \<Rightarrow> string \<Rightarrow> string list \<Rightarrow> string \<Rightarrow> json" where
  "mint_body name assetId actions expiry =
     JObj [(''name'', JStr name), (''resource'', JStr (''asset:'' @ assetId)), (''refPattern'', JStr ''refs/heads/main''),
           (''actions'', JArr (map JStr actions)), (''expiresAt'', JStr expiry)]"

definition git_token_error_body :: "response \<Rightarrow> string" where
  "git_token_error_body r =
     (let err = Option.bind (rs_body r) (field ''error'') in
      case (Option.bind err (str_field ''code''), Option.bind err (str_field ''userMessage''), Option.bind err (str_field ''refId'')) of
        (Some _, Some u, Some _) \<Rightarrow> u | _ \<Rightarrow> ''HTTP '' @ dec (rs_status r))"

definition git_token_path :: "string \<Rightarrow> string \<Rightarrow> string" where
  "git_token_path base i = base @ ''/git-tokens/'' @ encodeURIComponent i"

definition withGitToken ::
  "'w hub \<Rightarrow> 'w install_env \<Rightarrow> string \<Rightarrow> string \<Rightarrow> string list \<Rightarrow> (string \<Rightarrow> ('w, 'a) pclient) \<Rightarrow> ('w, 'a) pclient" where
  "withGitToken hub env t assetId actions use =
     (let base = tenantPath t [] in
      with_token hub (post (base @ ''/git-tokens'') (mint_body (''git-token-'' @ ie_uuid env) assetId actions (ie_expiry env)))
        (\<lambda>r. error_of ''GitTokenError'' (''minting a git token failed: '' @ git_token_error_body r) None)
        (\<lambda>j. error_of ''GitTokenError'' (''the git token came back an unexpected shape: '' @ ie_summary env j) None)
        (\<lambda>i. del (git_token_path base i)) use)"

section \<open>Installing a package\<close>

type_synonym tree = "(string \<times> string) list"

record 'w install_args =
  ia_tenantId :: string
  ia_assetName :: string
  ia_displayName :: string
  ia_files :: "string \<Rightarrow> ('w, tree) client"
  ia_entry :: string
  ia_sourceOfferingIds :: "string list"
  ia_defaultSourceOfferingId :: string
  ia_redeploy :: bool

record installed =
  in_assetId :: string
  in_commitSha :: string
  in_deploymentId :: string

definition INSTALL_INPUT_PATH :: string where "INSTALL_INPUT_PATH = ''.workbench-install.json''"

definition install_error :: "string \<Rightarrow> js_error" where
  "install_error m = error_of ''InstallPackageError'' m None"

definition readError :: "response \<Rightarrow> string" where
  "readError r =
     (let err = Option.bind (rs_body r) (field ''error''); http = ''HTTP '' @ dec (rs_status r) in
      case err of
        None \<Rightarrow> http
      | Some e \<Rightarrow>
          if \<not> is_object e then http
          else (case (optional as_str (field ''userMessage'' e), optional as_str (field ''message'' e)) of
                  (Some (Some u), Some _) \<Rightarrow> u | (Some None, Some (Some m)) \<Rightarrow> m | _ \<Rightarrow> http))"

definition install_base :: "'w install_env \<Rightarrow> 'w install_args \<Rightarrow> string" where
  "install_base env a = ie_origin env @ tenantPath (ia_tenantId a) []"

definition parse_id :: "json \<Rightarrow> string option" where
  "parse_id j = str_field ''id'' j"

definition parse_asset :: "json \<Rightarrow> (string \<times> string) option" where
  "parse_asset j = (case (str_field ''id'' j, str_field ''name'' j) of (Some i, Some n) \<Rightarrow> Some (i, n) | _ \<Rightarrow> None)"

definition asset_request :: "'w install_env \<Rightarrow> 'w install_args \<Rightarrow> request" where
  "asset_request env a = post (install_base env a @ ''/assets'')
     (JObj [(''kind'', JStr ''workflow''), (''name'', JStr (ia_assetName a)), (''displayName'', JStr (ia_displayName a))])"

definition ensureWorkflowAsset :: "'w hub \<Rightarrow> 'w install_env \<Rightarrow> 'w install_args \<Rightarrow> ('w, string) client" where
  "ensureWorkflowAsset hub env a =
     bindE (fetchE hub (asset_request env a)) (\<lambda>created.
     if rs_status created = 201 then
       bindE (json_body created) (\<lambda>j. case parse_id j of
         None \<Rightarrow> throwE (install_error (''the asset came back an unexpected shape: '' @ ie_summary env j))
       | Some i \<Rightarrow> returnE i)
     else if rs_status created \<noteq> 409 then throwE (install_error (''creating the asset failed: '' @ readError created))
     else
       bindE (fetchE hub (get (install_base env a @ ''/assets?kind=workflow&inherited=false''))) (\<lambda>listed.
       if \<not> resp_ok listed then throwE (install_error (''listing assets failed: '' @ readError listed))
       else bindE (json_body listed) (\<lambda>j. case array_of parse_asset j of
         None \<Rightarrow> throwE (install_error (''the asset list came back an unexpected shape: '' @ ie_summary env j))
       | Some rows \<Rightarrow>
           (case find (\<lambda>r. snd r = ia_assetName a) rows of
              None \<Rightarrow> throwE (install_error (''asset '' @ ia_assetName a @ '' conflicts but is not listed''))
            | Some r \<Rightarrow> returnE (fst r)))))"

definition parse_deployment_row :: "json \<Rightarrow> (string \<times> string \<times> string) option" where
  "parse_deployment_row j =
     (case (str_field ''id'' j, str_field ''definitionAssetId'' j, str_field ''status'' j) of
        (Some i, Some d, Some s) \<Rightarrow> Some (i, d, s) | _ \<Rightarrow> None)"

definition latestDeploymentId :: "'w hub \<Rightarrow> 'w install_env \<Rightarrow> 'w install_args \<Rightarrow> string \<Rightarrow> ('w, string option) client" where
  "latestDeploymentId hub env a assetId =
     bindE (fetchE hub (get (install_base env a @ ''/workflows/deployments''))) (\<lambda>listed.
     if \<not> resp_ok listed then throwE (install_error (''listing deployments failed: '' @ readError listed))
     else bindE (json_body listed) (\<lambda>j. case array_of parse_deployment_row j of
       None \<Rightarrow> throwE (install_error (''the deployment list came back an unexpected shape: '' @ ie_summary env j))
     | Some rows \<Rightarrow>
         returnE (case find (\<lambda>(_, d, _). d = assetId) rows of
            None \<Rightarrow> None | Some (i, _, s) \<Rightarrow> if s = ''deployed'' then Some i else None)))"

definition deploy_request :: "'w install_env \<Rightarrow> 'w install_args \<Rightarrow> string \<Rightarrow> string \<Rightarrow> request" where
  "deploy_request env a assetId sha =
     post (install_base env a @ ''/workflows/deployments'')
       (JObj [(''source'', JObj [(''kind'', JStr ''asset''), (''assetId'', JStr assetId),
                (''package'', JObj [(''format'', JStr ''source''), (''commitSha'', JStr sha)])]),
              (''entry'', JStr (ia_entry a)), (''sourceOfferingIds'', JArr (map JStr (ia_sourceOfferingIds a))),
              (''defaultSourceOfferingId'', JStr (ia_defaultSourceOfferingId a))])"

definition deploy_commit :: "'w hub \<Rightarrow> 'w install_env \<Rightarrow> 'w install_args \<Rightarrow> string \<Rightarrow> string \<Rightarrow> ('w, installed) client" where
  "deploy_commit hub env a assetId sha =
     bindE (fetchE hub (deploy_request env a assetId sha)) (\<lambda>deployed.
     if \<not> resp_ok deployed
     then throwE (install_error (''deploying '' @ ia_assetName a @ '' failed: '' @ readError deployed))
     else bindE (json_body deployed) (\<lambda>j. case parse_id j of
       None \<Rightarrow> throwE (install_error (''the deployment came back an unexpected shape: '' @ ie_summary env j))
     | Some d \<Rightarrow> returnE \<lparr>in_assetId = assetId, in_commitSha = sha, in_deploymentId = d\<rparr>))"

definition install_tree :: "'w install_env \<Rightarrow> 'w install_args \<Rightarrow> tree \<Rightarrow> tree" where
  "install_tree env a source =
     AList.update INSTALL_INPUT_PATH
       (ie_stringify env (JObj [(''entry'', JStr (ia_entry a)), (''sourceOfferingIds'', JArr (map JStr (ia_sourceOfferingIds a))),
          (''defaultSourceOfferingId'', JStr (ia_defaultSourceOfferingId a))])) source"

definition push_under_token :: "'w hub \<Rightarrow> 'w install_env \<Rightarrow> 'w install_args \<Rightarrow> string \<Rightarrow> tree \<Rightarrow> ('w, string \<times> bool) pclient" where
  "push_under_token hub env a assetId files =
     (let base = install_base env a in
      with_token hub (post (base @ ''/git-tokens'') (mint_body (''install-'' @ ie_uuid env) assetId [''can_read'', ''can_push''] (ie_expiry env)))
        (\<lambda>r. install_error (''minting a push token failed: '' @ readError r))
        (\<lambda>j. install_error (''the push token came back an unexpected shape: '' @ ie_summary env j))
        (\<lambda>i. del (git_token_path base i))
        (\<lambda>secret. pushSourceTree hub (ie_git env) (ie_quote env) (ie_now env)
           (base @ ''/assets/workflow/'' @ ia_assetName a @ ''.git'') secret files (''Publish '' @ ia_assetName a)))"

definition after_push :: "'w hub \<Rightarrow> 'w install_env \<Rightarrow> 'w install_args \<Rightarrow> string \<Rightarrow> string \<times> bool \<Rightarrow> ('w, installed) client" where
  "after_push hub env a assetId pushed =
     (case pushed of (sha, changed) \<Rightarrow>
        if \<not> changed \<and> \<not> ia_redeploy a then
          bindE (latestDeploymentId hub env a assetId) (\<lambda>existing.
          case existing of
            Some d \<Rightarrow> returnE \<lparr>in_assetId = assetId, in_commitSha = sha, in_deploymentId = d\<rparr>
          | None \<Rightarrow> deploy_commit hub env a assetId sha)
        else deploy_commit hub env a assetId sha)"

definition installPackage :: "'w hub \<Rightarrow> 'w install_env \<Rightarrow> 'w install_args \<Rightarrow> ('w, installed) pclient" where
  "installPackage hub env a =
     bindP (liftP (ensureWorkflowAsset hub env a)) (\<lambda>assetId.
     bindP (liftP (ia_files a assetId)) (\<lambda>source.
     bindP (push_under_token hub env a assetId (install_tree env a source)) (\<lambda>pushed.
     liftP (after_push hub env a assetId pushed))))"


section \<open>The hub credential of an agent\<close>

definition HUB_PROVIDER_PLUGIN :: string where "HUB_PROVIDER_PLUGIN = ''http-raw-authorization''"

definition hub_credential_error :: "string \<Rightarrow> js_error" where
  "hub_credential_error m = error_of ''AgentHubCredentialError'' m None"

definition read_hub_json :: "'w install_env \<Rightarrow> response \<Rightarrow> (json \<Rightarrow> 'a option) \<Rightarrow> string \<Rightarrow> ('w, 'a) client" where
  "read_hub_json env r shape what =
     bindE (json_body r) (\<lambda>j.
     case shape j of
       None \<Rightarrow> throwE (hub_credential_error (what @ '' came back an unexpected shape: '' @ ie_summary env j))
     | Some v \<Rightarrow> returnE v)"

definition ensureHubProvider :: "'w hub \<Rightarrow> 'w install_env \<Rightarrow> string \<Rightarrow> ('w, string) client" where
  "ensureHubProvider hub env t =
     bindE (fetchE hub (get (tenantPath t ''/providers''))) (\<lambda>listed.
     if \<not> resp_ok listed then throwE (hub_credential_error ''listing this workbench's providers failed'')
     else bindE (read_hub_json env listed (page_of parse_asset) ''this workbench's providers'') (\<lambda>rows.
       case find (\<lambda>p. snd p = HUB_PROVIDER_NAME) rows of
         Some p \<Rightarrow> returnE (fst p)
       | None \<Rightarrow>
           bindE (fetchE hub (post (tenantPath t ''/providers'')
             (JObj [(''name'', JStr HUB_PROVIDER_NAME), (''plugin'', JStr HUB_PROVIDER_PLUGIN), (''apiBaseUrl'', JStr (ie_origin env))]))) (\<lambda>created.
           if \<not> resp_ok created then throwE (hub_credential_error ''preparing this workbench's hub provider failed'')
           else bindE (read_hub_json env created parse_asset ''this workbench's hub provider'') (\<lambda>p. returnE (fst p)))))"

record hub_credential =
  hc_id :: string
  hc_name :: string
  hc_metadata :: "json option"

definition parse_hub_credential :: "json \<Rightarrow> hub_credential option" where
  "parse_hub_credential j =
     (case (str_field ''id'' j, str_field ''name'' j, optional (\<lambda>m. if is_object m \<or> m = JNull then Some m else None) (field ''metadata'' j)) of
        (Some i, Some n, Some m) \<Rightarrow> Some \<lparr>hc_id = i, hc_name = n, hc_metadata = m\<rparr>
      | _ \<Rightarrow> None)"

definition prior_token :: "hub_credential \<Rightarrow> string option" where
  "prior_token c =
     (case Option.bind (hc_metadata c) (str_field ''agentTokenId'') of Some (x # xs) \<Rightarrow> Some (x # xs) | _ \<Rightarrow> None)"

definition revoke_request :: "string \<Rightarrow> string \<Rightarrow> request" where
  "revoke_request t tok = del (tenantPath t (''/agent-tokens/'' @ encodeURIComponent tok))"

definition drop_request :: "string \<Rightarrow> string \<Rightarrow> request" where
  "drop_request t cid = del (tenantPath t (''/credentials/'' @ encodeURIComponent cid))"

definition drop_credential :: "'w hub \<Rightarrow> string \<Rightarrow> hub_credential \<Rightarrow> ('w, unit) client" where
  "drop_credential hub t c =
     bindE (case prior_token c of
              None \<Rightarrow> returnE ()
            | Some tok \<Rightarrow>
                bindE (fetchE hub (revoke_request t tok)) (\<lambda>revoked.
                if \<not> resp_ok revoked \<and> rs_status revoked \<noteq> 404
                then throwE (hub_credential_error ''revoking this agent's previous hub token failed'')
                else returnE ())) (\<lambda>_.
     bindE (fetchE hub (drop_request t (hc_id c))) (\<lambda>dropped.
     if \<not> resp_ok dropped then throwE (hub_credential_error ''replacing this agent's hub credential failed'')
     else returnE ()))"

fun drop_credentials :: "'w hub \<Rightarrow> string \<Rightarrow> hub_credential list \<Rightarrow> ('w, unit) client" where
  "drop_credentials hub t [] = returnE ()"
| "drop_credentials hub t (c # cs) = bindE (drop_credential hub t c) (\<lambda>_. drop_credentials hub t cs)"

definition parse_minted :: "json \<Rightarrow> (string \<times> string) option" where
  "parse_minted j =
     (case Option.bind (field ''token'' j) (str_field ''id'') of
        None \<Rightarrow> None
      | Some i \<Rightarrow> map_option (Pair i) (Option.bind (field ''token'' j) (str_field ''token'')))"

definition mint_agent_token :: "string \<Rightarrow> string \<Rightarrow> string \<Rightarrow> request" where
  "mint_agent_token t assetId name = post (tenantPath t ''/agent-tokens'') (JObj [(''definitionId'', JStr assetId), (''name'', JStr name)])"

definition store_request :: "string \<Rightarrow> string \<Rightarrow> string \<Rightarrow> string \<times> string \<Rightarrow> request" where
  "store_request t providerId name token =
     post (tenantPath t ''/credentials'')
       (JObj [(''providerId'', JStr providerId), (''name'', JStr name), (''type'', JStr ''api_key''),
              (''secret'', JStr (''Bearer '' @ snd token)), (''metadata'', JObj [(''agentTokenId'', JStr (fst token))])])"

definition mint_and_store :: "'w hub \<Rightarrow> 'w install_env \<Rightarrow> string \<Rightarrow> string \<Rightarrow> string \<Rightarrow> string \<Rightarrow> ('w, string) client" where
  "mint_and_store hub env t providerId name assetId =
     bindE (fetchE hub (mint_agent_token t assetId name)) (\<lambda>minted.
     if \<not> resp_ok minted then throwE (hub_credential_error ''minting this agent's hub token failed'')
     else bindE (read_hub_json env minted parse_minted ''this agent's hub token'') (\<lambda>token.
       bindE (fetchE hub (store_request t providerId name token)) (\<lambda>stored.
       if \<not> resp_ok stored then throwE (hub_credential_error ''storing this agent's hub token failed'')
       else bindE (read_hub_json env stored parse_hub_credential ''this agent's hub credential'') (\<lambda>c. returnE (hc_id c)))))"

definition ensureAgentHubCredential :: "'w hub \<Rightarrow> 'w install_env \<Rightarrow> string \<Rightarrow> string \<Rightarrow> string \<Rightarrow> ('w, string) client" where
  "ensureAgentHubCredential hub env t definitionId assetId =
     (let name = agentHubCredentialName definitionId in
      bindE (ensureHubProvider hub env t) (\<lambda>providerId.
      bindE (fetchE hub (get (tenantPath t ''/credentials''))) (\<lambda>listed.
      if \<not> resp_ok listed then throwE (hub_credential_error ''listing this workbench's credentials failed'')
      else bindE (read_hub_json env listed (page_of parse_hub_credential) ''this workbench's credentials'') (\<lambda>rows.
        bindE (drop_credentials hub t (filter (\<lambda>c. hc_name c = name) rows)) (\<lambda>_.
        mint_and_store hub env t providerId name assetId)))))"


section \<open>No token outlives its use\<close>

lemma bindP_cases:
  assumes "bindP m f n = Some (r, n')"
  obtains (fails) e where "m n = Some (Inl e, n')" and "r = Inl e"
  | (goes_on) x n1 where "m n = Some (Inr x, n1)" and "f x n1 = Some (r, n')"
proof (cases "m n")
  case None
  with assms show ?thesis by (simp add: bindP_def)
next
  case (Some p)
  obtain q n1 where p: "p = (q, n1)" by (cases p)
  show ?thesis
  proof (cases q)
    case (Inl e)
    with Some p assms fails show ?thesis by (auto simp: bindP_def)
  next
    case (Inr x)
    with Some p assms goes_on show ?thesis by (auto simp: bindP_def)
  qed
qed

lemma fetchE_sent:
  assumes "fetchE hub rq n = (r, n')"
  obtains a where "sent n' = sent n @ [(rq, a)]" and "r = (case a of Inl m \<Rightarrow> Inl (FetchError m) | Inr x \<Rightarrow> Inr x)"
  using assms by (cases "hub rq (server n)") (auto simp: fetchE_def fetch_raw_def bindE_def throwE_def returnE_def split: sum.splits)

lemma json_body_run: "json_body r n = (case rs_body r of None \<Rightarrow> (Inl BadJson, n) | Some j \<Rightarrow> (Inr j, n))"
  by (simp add: json_body_def throwE_def returnE_def split: option.splits)

lemma with_token_run:
  assumes "with_token hub mint refused malformed revoke use n = Some (res, n')"
  shows "(\<exists>e ans. res = Inl e \<and> sent n' = sent n @ [(mint, ans)]) \<or>
    (\<exists>r i secret q n1 n2 ans. sent n1 = sent n @ [(mint, Inr r)] \<and> Option.bind (rs_body r) parse_token = Some (i, secret) \<and>
       use secret n1 = Some (q, n2) \<and> sent n' = sent n2 @ [(revoke i, ans)] \<and>
       (case ans of Inl m \<Rightarrow> res = Inl (FetchError m) | Inr _ \<Rightarrow> res = q))"
  using assms unfolding with_token_def
proof (cases rule: bindP_cases)
  case (fails e)
  then have "fetchE hub mint n = (Inl e, n')" by (simp add: liftP_Some)
  then show ?thesis using fails by (auto elim: fetchE_sent)
next
  case (goes_on r n1)
  then have "fetchE hub mint n = (Inr r, n1)" by (simp add: liftP_Some)
  then have n1: "sent n1 = sent n @ [(mint, Inr r)]" by (rule fetchE_sent) (auto split: sum.splits)
  show ?thesis
  proof (cases "resp_ok r")
    case False
    with goes_on n1 show ?thesis by (auto simp: liftP_Some throwE_def)
  next
    case True
    from goes_on(2) True have "bindP (liftP (json_body r)) (\<lambda>j. case parse_token j of None \<Rightarrow> liftP (throwE (malformed j))
        | Some (i, secret) \<Rightarrow> finallyP (use secret) (fetchE hub (revoke i))) n1 = Some (res, n')" by simp
    then show ?thesis
    proof (cases rule: bindP_cases)
      case (fails e)
      with n1 show ?thesis by (auto simp: liftP_Some json_body_run split: option.splits)
    next
      case (goes_on j m)
      then have m: "m = n1" "rs_body r = Some j" by (auto simp: liftP_Some json_body_run split: option.splits)
      show ?thesis
      proof (cases "parse_token j")
        case None
        with goes_on m n1 show ?thesis by (auto simp: liftP_Some throwE_def)
      next
        case (Some tok)
        obtain i secret where tok: "tok = (i, secret)" by (cases tok)
        with Some goes_on m have fin: "finallyP (use secret) (fetchE hub (revoke i)) n1 = Some (res, n')" by simp
        then obtain q n2 where q: "use secret n1 = Some (q, n2)" by (cases "use secret n1") (auto simp: finallyP_def)
        obtain v n3 where v: "fetchE hub (revoke i) n2 = (v, n3)" by (cases "fetchE hub (revoke i) n2")
        from v obtain ans where ans: "sent n3 = sent n2 @ [(revoke i, ans)]"
          "v = (case ans of Inl m \<Rightarrow> Inl (FetchError m) | Inr x \<Rightarrow> Inr x)" by (rule fetchE_sent)
        have "n' = n3" "case ans of Inl x \<Rightarrow> res = Inl (FetchError x) | Inr _ \<Rightarrow> res = q"
          using fin q v ans(2) by (auto simp: finallyP_def split: sum.splits)
        with q ans(1) n1 m Some tok show ?thesis by (intro disjI2) (auto intro!: exI)
      qed
    qed
  qed
qed

definition push_mint :: "'w install_env \<Rightarrow> 'w install_args \<Rightarrow> string \<Rightarrow> request" where
  "push_mint env a assetId = post (install_base env a @ ''/git-tokens'')
     (mint_body (''install-'' @ ie_uuid env) assetId [''can_read'', ''can_push''] (ie_expiry env))"

text \<open>
  Also shown. The token of a push does not outlive it: either no token came out of the mint, and the mint is all that was sent,
  or the last request is the revocation of the token that was minted, whatever became of the push in between; the
  outcome is that of the push, unless the revocation itself could not be sent.
\<close>

theorem push_token_revoked:
  assumes "push_under_token hub env a assetId files n = Some (res, n')"
  shows "(\<exists>e ans. res = Inl e \<and> sent n' = sent n @ [(push_mint env a assetId, ans)]) \<or>
    (\<exists>r i secret q n1 n2 ans. sent n1 = sent n @ [(push_mint env a assetId, Inr r)] \<and>
       Option.bind (rs_body r) parse_token = Some (i, secret) \<and>
       pushSourceTree hub (ie_git env) (ie_quote env) (ie_now env) (install_base env a @ ''/assets/workflow/'' @ ia_assetName a @ ''.git'')
         secret files (''Publish '' @ ia_assetName a) n1 = Some (q, n2) \<and>
       sent n' = sent n2 @ [(del (git_token_path (install_base env a) i), ans)] \<and>
       (case ans of Inl m \<Rightarrow> res = Inl (FetchError m) | Inr _ \<Rightarrow> res = q))"
  using with_token_run [OF assms [unfolded push_under_token_def Let_def]] by (simp only: push_mint_def)


section \<open>What is deployed is what was pushed\<close>

lemma fetchE_sent_ok: "fetchE hub rq n = (Inr x, n') \<Longrightarrow> sent n' = sent n @ [(rq, Inr x)]"
  by (auto simp: fetchE_Inr)

lemma json_body_Inr: "json_body r n = (Inr j, n') \<longleftrightarrow> rs_body r = Some j \<and> n' = n"
  by (auto simp: json_body_run split: option.splits)

declare throwE_Inr [simp]

lemma deploy_commit_Inr:
  assumes "deploy_commit hub env a assetId sha n = (Inr i, n')"
  shows "in_assetId i = assetId \<and> in_commitSha i = sha \<and>
    (\<exists>r. sent n' = sent n @ [(deploy_request env a assetId sha, Inr r)] \<and> resp_ok r \<and> Option.bind (rs_body r) parse_id = Some (in_deploymentId i))"
  using assms unfolding deploy_commit_def bindE_Inr_iff
  by (auto simp: bindE_Inr_iff json_body_Inr returnE_Inr dest!: fetchE_sent_ok split: if_splits option.splits)

lemma latestDeploymentId_Inr:
  assumes "latestDeploymentId hub env a assetId n = (Inr d, n')"
  shows "\<exists>r rows. sent n' = sent n @ [(get (install_base env a @ ''/workflows/deployments''), Inr r)] \<and>
    Option.bind (rs_body r) (array_of parse_deployment_row) = Some rows \<and>
    d = (case find (\<lambda>(_, d, _). d = assetId) rows of None \<Rightarrow> None | Some (i, _, s) \<Rightarrow> if s = ''deployed'' then Some i else None)"
proof -
  from assms obtain r n1 where r: "fetchE hub (get (install_base env a @ ''/workflows/deployments'')) n = (Inr r, n1)"
    and rest: "(if \<not> resp_ok r then throwE (install_error (''listing deployments failed: '' @ readError r))
      else bindE (json_body r) (\<lambda>j. case array_of parse_deployment_row j of
        None \<Rightarrow> throwE (install_error (''the deployment list came back an unexpected shape: '' @ ie_summary env j))
      | Some rows \<Rightarrow> returnE (case find (\<lambda>(_, d, _). d = assetId) rows of
            None \<Rightarrow> None | Some (i, _, s) \<Rightarrow> if s = ''deployed'' then Some i else None))) n1 = (Inr d, n')"
    unfolding latestDeploymentId_def bindE_Inr_iff by blast
  from rest have ok: "resp_ok r" by (cases "resp_ok r") simp_all
  from rest ok obtain j where j: "rs_body r = Some j" by (cases "rs_body r") (simp_all add: bindE_def json_body_run)
  obtain rows where rows: "array_of parse_deployment_row j = Some rows"
    using rest ok j by (cases "array_of parse_deployment_row j") (simp_all add: bindE_def json_body_run)
  from rest ok j rows show ?thesis
    by (intro exI [of _ r] exI [of _ rows]) (simp add: bindE_def json_body_run returnE_Inr fetchE_sent_ok [OF r])
qed

definition live_deployment :: "(string \<times> string \<times> string) list \<Rightarrow> string \<Rightarrow> string \<Rightarrow> bool" where
  "live_deployment rows assetId d \<longleftrightarrow> find (\<lambda>(_, x, _). x = assetId) rows = Some (d, assetId, ''deployed'')"

lemma found_live:
  "(case find (\<lambda>(_, d, _). d = assetId) rows of None \<Rightarrow> None | Some (i, _, s) \<Rightarrow> if s = ''deployed'' then Some i else None) = Some d
   \<Longrightarrow> live_deployment rows assetId d"
  by (auto simp: live_deployment_def dest: find_SomeD split: option.splits if_splits)

lemma after_push_Inr:
  assumes "after_push hub env a assetId (sha, changed) n = (Inr i, n')"
  shows "in_assetId i = assetId \<and> in_commitSha i = sha \<and>
    ((\<not> changed \<and> \<not> ia_redeploy a \<and>
        (\<exists>r rows. sent n' = sent n @ [(get (install_base env a @ ''/workflows/deployments''), Inr r)] \<and>
           Option.bind (rs_body r) (array_of parse_deployment_row) = Some rows \<and> live_deployment rows assetId (in_deploymentId i))) \<or>
     (\<exists>u r. sent n' = sent n @ u @ [(deploy_request env a assetId sha, Inr r)] \<and> list_all (is_get \<circ> fst) u \<and>
        resp_ok r \<and> Option.bind (rs_body r) parse_id = Some (in_deploymentId i)))"
proof (cases "\<not> changed \<and> \<not> ia_redeploy a")
  case False
  with assms have "deploy_commit hub env a assetId sha n = (Inr i, n')" by (simp add: after_push_def)
  from deploy_commit_Inr [OF this] obtain r where "in_assetId i = assetId \<and> in_commitSha i = sha"
    "sent n' = sent n @ [] @ [(deploy_request env a assetId sha, Inr r)]" "resp_ok r" "Option.bind (rs_body r) parse_id = Some (in_deploymentId i)"
    by auto
  moreover have "list_all (is_get \<circ> fst) []" by simp
  ultimately show ?thesis by blast
next
  case True
  with assms obtain d n1 where latest: "latestDeploymentId hub env a assetId n = (Inr d, n1)"
    and rest: "(case d of Some d \<Rightarrow> returnE \<lparr>in_assetId = assetId, in_commitSha = sha, in_deploymentId = d\<rparr>
       | None \<Rightarrow> deploy_commit hub env a assetId sha) n1 = (Inr i, n')"
    by (auto simp: after_push_def bindE_Inr_iff)
  from latestDeploymentId_Inr [OF latest] obtain r rows where r: "sent n1 = sent n @ [(get (install_base env a @ ''/workflows/deployments''), Inr r)]"
    "Option.bind (rs_body r) (array_of parse_deployment_row) = Some rows"
    "d = (case find (\<lambda>(_, d, _). d = assetId) rows of None \<Rightarrow> None | Some (i, _, s) \<Rightarrow> if s = ''deployed'' then Some i else None)"
    by blast
  show ?thesis
  proof (cases d)
    case None
    with rest have "deploy_commit hub env a assetId sha n1 = (Inr i, n')" by simp
    from deploy_commit_Inr [OF this] r(1) obtain q where q: "in_assetId i = assetId \<and> in_commitSha i = sha"
      "sent n' = sent n @ [(get (install_base env a @ ''/workflows/deployments''), Inr r)] @ [(deploy_request env a assetId sha, Inr q)]"
      "resp_ok q" "Option.bind (rs_body q) parse_id = Some (in_deploymentId i)"
      by auto
    moreover have "list_all (is_get \<circ> fst) [(get (install_base env a @ ''/workflows/deployments''), Inr r)]"
      by simp
    ultimately show ?thesis by blast
  next
    case (Some e)
    with rest have i: "i = \<lparr>in_assetId = assetId, in_commitSha = sha, in_deploymentId = e\<rparr>" "n' = n1" by (simp_all add: returnE_Inr)
    from found_live [OF r(3) [unfolded Some, symmetric]] have "live_deployment rows assetId e" .
    with True r i show ?thesis by auto
  qed
qed


lemma liftP_run [simp]: "liftP m n = Some (r, n') \<longleftrightarrow> m n = (r, n')"
  by (simp add: liftP_Some)

lemma push_mint_fold: "push_under_token hub env a assetId files n = Some (Inr p, n') \<Longrightarrow>
  \<exists>r i secret n1 n2 ans. sent n1 = sent n @ [(push_mint env a assetId, Inr r)] \<and> Option.bind (rs_body r) parse_token = Some (i, secret) \<and>
     pushSourceTree hub (ie_git env) (ie_quote env) (ie_now env) (install_base env a @ ''/assets/workflow/'' @ ia_assetName a @ ''.git'')
       secret files (''Publish '' @ ia_assetName a) n1 = Some (Inr p, n2) \<and>
     sent n' = sent n2 @ [(del (git_token_path (install_base env a) i), ans)]"
  unfolding push_under_token_def Let_def push_mint_def
  by (drule with_token_run, elim disjE exE conjE, blast, rename_tac r i secret q n1 n2 ans, case_tac ans) (simp, simp only: sum.case, blast)

lemma installPackage_Inr:
  assumes "installPackage hub env a n = Some (Inr i, n')"
  obtains assetId source sha changed n1 n2 n3 where "ensureWorkflowAsset hub env a n = (Inr assetId, n1)"
    and "ia_files a assetId n1 = (Inr source, n2)"
    and "push_under_token hub env a assetId (install_tree env a source) n2 = Some (Inr (sha, changed), n3)"
    and "after_push hub env a assetId (sha, changed) n3 = (Inr i, n')"
  using assms unfolding installPackage_def bindP_Inr by auto

text \<open>
  C7. An install that succeeds names the commit that was pushed under a token minted for the asset and revoked right
  after the push; the tree of that commit is the package's own files with the entry and the offerings beside them. What
  follows is either the deploy of exactly that commit, or, when the tree was already there and no redeploy is asked for,
  the live deployment that the hub lists first for the asset and no deploy at all.
\<close>

theorem install_deploys_pushed:
  assumes "installPackage hub env a n = Some (Inr i, n')"
  shows "\<exists>source changed secret r tok revoked m m1 n1 n2.
    ensureWorkflowAsset hub env a n = (Inr (in_assetId i), m) \<and> ia_files a (in_assetId i) m = (Inr source, m1) \<and>
    sent n1 = sent m1 @ [(push_mint env a (in_assetId i), Inr r)] \<and> Option.bind (rs_body r) parse_token = Some (tok, secret) \<and>
    pushSourceTree hub (ie_git env) (ie_quote env) (ie_now env) (install_base env a @ ''/assets/workflow/'' @ ia_assetName a @ ''.git'')
      secret (install_tree env a source) (''Publish '' @ ia_assetName a) n1 = Some (Inr (in_commitSha i, changed), n2) \<and>
    ((\<not> changed \<and> \<not> ia_redeploy a \<and>
        (\<exists>q rows. sent n' = sent n2 @ [(del (git_token_path (install_base env a) tok), revoked), (get (install_base env a @ ''/workflows/deployments''), Inr q)] \<and>
           Option.bind (rs_body q) (array_of parse_deployment_row) = Some rows \<and>
           live_deployment rows (in_assetId i) (in_deploymentId i))) \<or>
     (\<exists>u q. sent n' = sent n2 @ [(del (git_token_path (install_base env a) tok), revoked)] @ u @ [(deploy_request env a (in_assetId i) (in_commitSha i), Inr q)] \<and>
        list_all (is_get \<circ> fst) u \<and> resp_ok q \<and> Option.bind (rs_body q) parse_id = Some (in_deploymentId i)))"
proof -
  from assms obtain assetId source sha changed m m1 n3 where run: "ensureWorkflowAsset hub env a n = (Inr assetId, m)"
    "ia_files a assetId m = (Inr source, m1)"
    "push_under_token hub env a assetId (install_tree env a source) m1 = Some (Inr (sha, changed), n3)"
    "after_push hub env a assetId (sha, changed) n3 = (Inr i, n')"
    by (rule installPackage_Inr)
  from after_push_Inr [OF run(4)] have ids: "in_assetId i = assetId" "in_commitSha i = sha"
    and after: "(\<not> changed \<and> \<not> ia_redeploy a \<and>
        (\<exists>r rows. sent n' = sent n3 @ [(get (install_base env a @ ''/workflows/deployments''), Inr r)] \<and>
           Option.bind (rs_body r) (array_of parse_deployment_row) = Some rows \<and> live_deployment rows assetId (in_deploymentId i))) \<or>
     (\<exists>u r. sent n' = sent n3 @ u @ [(deploy_request env a assetId sha, Inr r)] \<and> list_all (is_get \<circ> fst) u \<and>
        resp_ok r \<and> Option.bind (rs_body r) parse_id = Some (in_deploymentId i))" by blast+
  from push_mint_fold [OF run(3)] obtain r tok secret n1 n2 revoked where "sent n1 = sent m1 @ [(push_mint env a assetId, Inr r)]"
    "Option.bind (rs_body r) parse_token = Some (tok, secret)"
    "pushSourceTree hub (ie_git env) (ie_quote env) (ie_now env) (install_base env a @ ''/assets/workflow/'' @ ia_assetName a @ ''.git'')
       secret (install_tree env a source) (''Publish '' @ ia_assetName a) n1 = Some (Inr (sha, changed), n2)"
    "sent n3 = sent n2 @ [(del (git_token_path (install_base env a) tok), revoked)]" by blast
  with run(1,2) after show ?thesis unfolding ids [symmetric]
    by (intro exI conjI) (assumption+, simp)
qed


section \<open>Replacing the credential of an agent\<close>

text \<open>What a replaced credential leaves on the wire: its token revoked, or already gone, and then its row dropped.\<close>

definition replaced :: "string \<Rightarrow> hub_credential \<Rightarrow> (request \<times> (string + response)) list \<Rightarrow> bool" where
  "replaced t c u \<longleftrightarrow>
     (\<exists>d. resp_ok d \<and>
        (case prior_token c of
           None \<Rightarrow> u = [(drop_request t (hc_id c), Inr d)]
         | Some tok \<Rightarrow> (\<exists>r. (resp_ok r \<or> rs_status r = 404) \<and> u = [(revoke_request t tok, Inr r), (drop_request t (hc_id c), Inr d)])))"

lemma drop_row_Inr:
  "bindE (fetchE hub rq) (\<lambda>r. if bad r then throwE e else returnE ()) n = (Inr x, n') \<longleftrightarrow>
   (\<exists>r. fetchE hub rq n = (Inr r, n') \<and> \<not> bad r)"
  by (auto simp: bindE_Inr_iff returnE_Inr split: if_splits)

lemma drop_credential_Inr:
  assumes "drop_credential hub t c n = (Inr x, n')"
  shows "\<exists>u. replaced t c u \<and> sent n' = sent n @ u"
proof -
  from assms obtain n1 where one: "(case prior_token c of None \<Rightarrow> returnE () | Some tok \<Rightarrow>
        bindE (fetchE hub (revoke_request t tok)) (\<lambda>r. if \<not> resp_ok r \<and> rs_status r \<noteq> 404
          then throwE (hub_credential_error ''revoking this agent's previous hub token failed'') else returnE ())) n = (Inr (), n1)"
    and two: "bindE (fetchE hub (drop_request t (hc_id c))) (\<lambda>d. if \<not> resp_ok d
        then throwE (hub_credential_error ''replacing this agent's hub credential failed'') else returnE ()) n1 = (Inr x, n')"
    unfolding drop_credential_def bindE_Inr_iff [of _ "\<lambda>_. _"] by (auto simp: bindE_Inr_iff [of _ "\<lambda>_. _"])
  from two obtain d where d: "resp_ok d" "sent n' = sent n1 @ [(drop_request t (hc_id c), Inr d)]"
    unfolding drop_row_Inr by (auto dest: fetchE_sent_ok)
  show ?thesis
  proof (cases "prior_token c")
    case None
    with one d show ?thesis by (auto simp: replaced_def returnE_Inr)
  next
    case (Some tok)
    with one obtain r where "resp_ok r \<or> rs_status r = 404" "sent n1 = sent n @ [(revoke_request t tok, Inr r)]"
      by (auto simp: drop_row_Inr dest: fetchE_sent_ok)
    with Some d show ?thesis by (auto simp: replaced_def)
  qed
qed

lemma drop_credentials_Inr:
  "drop_credentials hub t cs n = (Inr x, n') \<Longrightarrow> \<exists>us. list_all2 (replaced t) cs us \<and> sent n' = sent n @ concat us"
proof (induction cs arbitrary: n)
  case Nil
  then show ?case by (simp add: returnE_Inr)
next
  case (Cons c cs)
  then obtain n1 y where one: "drop_credential hub t c n = (Inr y, n1)" and rest: "drop_credentials hub t cs n1 = (Inr x, n')"
    by (auto simp: bindE_Inr_iff)
  from drop_credential_Inr [OF one] obtain u where u: "replaced t c u" "sent n1 = sent n @ u" by blast
  from Cons.IH [OF rest] obtain us where us: "list_all2 (replaced t) cs us" "sent n' = sent n1 @ concat us" by blast
  from u us show ?case by (intro exI [of _ "u # us"]) simp
qed


lemma read_hub_json_Inr: "read_hub_json env r shape what n = (Inr v, n') \<longleftrightarrow> Option.bind (rs_body r) shape = Some v \<and> n' = n"
  by (auto simp: read_hub_json_def bindE_Inr_iff json_body_Inr returnE_Inr bind_eq_Some_conv split: option.splits)


text \<open>A token whose storing fails is not revoked: it stays valid on the hub and no credential names it.\<close>

lemma unstored_token_stays:
  assumes "fetchE hub (mint_agent_token t assetId name) n = (Inr m, n1)" and "resp_ok m" and "Option.bind (rs_body m) parse_minted = Some tok"
    and "fetchE hub (store_request t providerId name tok) n1 = (Inr q, n2)" and "\<not> resp_ok q"
  shows "mint_and_store hub env t providerId name assetId n = (Inl (hub_credential_error ''storing this agent's hub token failed''), n2) \<and>
    sent n2 = sent n @ [(mint_agent_token t assetId name, Inr m), (store_request t providerId name tok, Inr q)]"
proof -
  have read: "read_hub_json env m parse_minted ''this agent's hub token'' n1 = (Inr tok, n1)"
    using assms(3) by (simp add: read_hub_json_Inr)
  from assms read show ?thesis
    by (simp add: mint_and_store_def bindE_def throwE_def fetchE_sent_ok [OF assms(1)] fetchE_sent_ok [OF assms(4)])
qed


section \<open>Concrete runs\<close>

definition ok_with :: "json \<Rightarrow> response" where
  "ok_with j = \<lparr>rs_status = 201, rs_body = Some j\<rparr>"

lemma ok_with_simps [simp]: "rs_status (ok_with j) = 201" "rs_body (ok_with j) = Some j" "resp_ok (ok_with j)"
  by (simp_all add: ok_with_def resp_ok_def)

definition demo_env :: "response list install_env" where
  "demo_env = \<lparr>ie_origin = ''o'', ie_uuid = ''u'', ie_expiry = ''x'', ie_now = 0, ie_stringify = (\<lambda>_. ''{}''), ie_quote = id,
     ie_summary = (\<lambda>_. ''?''),
     ie_git = \<lparr>gx_decode = id, gx_tree = (\<lambda>_. ''t''), gx_commit = (\<lambda>_ _ _ _. ''c1''), gx_pack = (\<lambda>_ _. Some ''PACK''),
       gx_fetch = (\<lambda>_ _ _. returnE ''t'')\<rparr>\<rparr>"

definition demo_args :: "response list install_args" where
  "demo_args = \<lparr>ia_tenantId = ''t'', ia_assetName = ''a'', ia_displayName = ''A'', ia_files = (\<lambda>_. returnE [(''index.ts'', ''x'')]),
     ia_entry = ''index.ts'', ia_sourceOfferingIds = [''m''], ia_defaultSourceOfferingId = ''m'', ia_redeploy = False\<rparr>"

definition demo_install_answers :: "response list" where
  "demo_install_answers =
     [ok_with (JObj [(''id'', JStr ''asset'')]), ok_with (JObj [(''id'', JStr ''tok''), (''secret'', JStr ''s'')]),
      ok_with (JStr ''0000''), ok_with (JStr (pktLine ''ok refs/heads/main'' @ ''0000'')), ok_with JNull,
      ok_with (JObj [(''id'', JStr ''dep'')])]"

lemma demo_push_script:
  "\<exists>n1. pushSourceTree scripted (ie_git demo_env) q k u secret [(''index.ts'', ''x''), (''.workbench-install.json'', ''{}'')] msg
     \<lparr>server = ok_with (JStr ''0000'') # ok_with (JStr (pktLine ''ok refs/heads/main'' @ ''0000'')) # rs, sent = tr\<rparr>
   = Some (Inr (''c1'', True), n1) \<and> server n1 = rs"
proof -
  have git: "gx_decode (ie_git demo_env) = id" "gx_tree (ie_git demo_env) f = ''t''" "gx_commit (ie_git demo_env) m t ps k = ''c1''"
    "gx_pack (ie_git demo_env) c f = Some ''PACK''" for f m t ps k c
    by (simp_all add: demo_env_def)
  have flat: "find (\<lambda>(p, _). CHR ''/'' \<in> set p) [(''index.ts'', ''x''), (''.workbench-install.json'', ''{}'')] = None" by simp
  show ?thesis
    unfolding pushSourceTree_def advertisedMainSha_def send_pack_def Let_def git flat
    by (simp add: bindP_def liftP_def linesP_def git bytes_of_def demo_none demo_ok demo_verdict returnE_def)
qed


lemma demo_tree: "install_tree demo_env demo_args [(''index.ts'', ''x'')] = [(''index.ts'', ''x''), (''.workbench-install.json'', ''{}'')]"
  by (simp add: install_tree_def demo_env_def INSTALL_INPUT_PATH_def)

lemma demo_install:
  "map_option fst (installPackage scripted demo_env demo_args (script demo_install_answers))
   = Some (Inr \<lparr>in_assetId = ''asset'', in_commitSha = ''c1'', in_deploymentId = ''dep''\<rparr>)"
proof -
  have asset: "\<exists>n1. ensureWorkflowAsset scripted demo_env demo_args (script demo_install_answers) = (Inr ''asset'', n1) \<and>
      n1 = \<lparr>server = tl demo_install_answers, sent = sent n1\<rparr>"
    by (simp add: ensureWorkflowAsset_def demo_install_answers_def script_def bindE_def json_body_def returnE_def parse_id_def str_field_def)
  have args: "ia_files demo_args x = returnE [(''index.ts'', ''x'')]" "ia_redeploy demo_args = False" for x by (simp_all add: demo_args_def)
  have push: "\<exists>n1. push_under_token scripted demo_env demo_args ''asset'' [(''index.ts'', ''x''), (''.workbench-install.json'', ''{}'')]
      \<lparr>server = tl demo_install_answers, sent = tr\<rparr> = Some (Inr (''c1'', True), n1) \<and> server n1 = [ok_with (JObj [(''id'', JStr ''dep'')])]" for tr
  proof -
    let ?rest = "[ok_with JNull, ok_with (JObj [(''id'', JStr ''dep'')])]"
    let ?push = "\<lambda>tr. pushSourceTree scripted (ie_git demo_env) (ie_quote demo_env) (ie_now demo_env)
        (install_base demo_env demo_args @ ''/assets/workflow/'' @ ia_assetName demo_args @ ''.git'') ''s''
        [(''index.ts'', ''x''), (''.workbench-install.json'', ''{}'')] (''Publish '' @ ia_assetName demo_args)
        \<lparr>server = ok_with (JStr ''0000'') # ok_with (JStr (pktLine ''ok refs/heads/main'' @ ''0000'')) # ?rest, sent = tr\<rparr>"
    have pushed: "\<exists>t1. ?push tr = Some (Inr (''c1'', True), \<lparr>server = ?rest, sent = t1\<rparr>)" for tr
    proof -
      obtain n1 where "?push tr = Some (Inr (''c1'', True), n1)" "server n1 = ?rest" using demo_push_script by blast
      then show ?thesis by (cases n1) simp
    qed
    obtain t1 where "?push (tr @ [(push_mint demo_env demo_args ''asset'', Inr (ok_with (JObj [(''id'', JStr ''tok''), (''secret'', JStr ''s'')])))])
        = Some (Inr (''c1'', True), \<lparr>server = ?rest, sent = t1\<rparr>)" using pushed by blast
    then show ?thesis
      unfolding push_under_token_def with_token_def Let_def push_mint_def [symmetric] demo_install_answers_def
      by (simp add: bindP_def liftP_def json_body_def returnE_def parse_token_def str_field_def finallyP_def)
  qed
  from asset obtain n1 where n1: "ensureWorkflowAsset scripted demo_env demo_args (script demo_install_answers) = (Inr ''asset'', n1)"
    "n1 = \<lparr>server = tl demo_install_answers, sent = sent n1\<rparr>" by blast
  from push [of "sent n1"] n1(2) obtain n2 where n2: "push_under_token scripted demo_env demo_args ''asset'' [(''index.ts'', ''x''), (''.workbench-install.json'', ''{}'')] n1
      = Some (Inr (''c1'', True), n2)" "server n2 = [ok_with (JObj [(''id'', JStr ''dep'')])]" by auto
  from n2(2) have "n2 = \<lparr>server = [ok_with (JObj [(''id'', JStr ''dep'')])], sent = sent n2\<rparr>" by simp
  then have "fst (after_push scripted demo_env demo_args ''asset'' (''c1'', True) n2)
      = Inr \<lparr>in_assetId = ''asset'', in_commitSha = ''c1'', in_deploymentId = ''dep''\<rparr>"
    by (cases n2) (simp add: after_push_def deploy_commit_def bindE_def json_body_def returnE_def parse_id_def str_field_def)
  with n1(1) n2(1) show ?thesis
    unfolding installPackage_def by (simp add: bindP_def liftP_def args returnE_def demo_tree)
qed

theorem install_deploys_pushed_witness:
  "\<exists>n'. installPackage scripted demo_env demo_args (script demo_install_answers)
       = Some (Inr \<lparr>in_assetId = ''asset'', in_commitSha = ''c1'', in_deploymentId = ''dep''\<rparr>, n') \<and>
     (\<exists>m source m1. ensureWorkflowAsset scripted demo_env demo_args (script demo_install_answers) = (Inr ''asset'', m) \<and>
        ia_files demo_args ''asset'' m = (Inr source, m1))"
proof -
  obtain n' where run: "installPackage scripted demo_env demo_args (script demo_install_answers)
      = Some (Inr \<lparr>in_assetId = ''asset'', in_commitSha = ''c1'', in_deploymentId = ''dep''\<rparr>, n')"
    using demo_install by (cases "installPackage scripted demo_env demo_args (script demo_install_answers)") auto
  show ?thesis using install_deploys_pushed [OF run] run by auto
qed

text \<open>One old credential is replaced: its token was already gone, its row is dropped, a new token is minted and stored.\<close>

definition demo_credential :: "string \<Rightarrow> json" where
  "demo_credential i = JObj [(''id'', JStr i), (''name'', JStr (agentHubCredentialName ''d'')), (''metadata'', JObj [(''agentTokenId'', JStr ''k0'')])]"

definition demo_credential_answers :: "response list" where
  "demo_credential_answers =
     [ok_with (JObj [(''data'', JArr [JObj [(''id'', JStr ''p''), (''name'', JStr HUB_PROVIDER_NAME)]])]),
      ok_with (JObj [(''data'', JArr [demo_credential ''c0''])]), \<lparr>rs_status = 404, rs_body = None\<rparr>, ok_with JNull,
      ok_with (JObj [(''token'', JObj [(''id'', JStr ''k1''), (''token'', JStr ''s'')])]), ok_with (demo_credential ''c1'')]"

lemma demo_credential_run:
  "fst (ensureAgentHubCredential scripted demo_env ''t'' ''d'' ''a'' (script demo_credential_answers)) = Inr ''c1''"
proof -
  have c: "parse_hub_credential (demo_credential i) = Some \<lparr>hc_id = i, hc_name = agentHubCredentialName ''d'', hc_metadata = Some (JObj [(''agentTokenId'', JStr ''k0'')])\<rparr>" for i
    by (simp add: parse_hub_credential_def demo_credential_def str_field_def optional_def)
  show ?thesis
    unfolding ensureAgentHubCredential_def ensureHubProvider_def Let_def
    by (simp add: demo_credential_answers_def script_def bindE_def read_hub_json_def json_body_def returnE_def page_of_def array_of_def
        parse_asset_def str_field_def c drop_credential_def prior_token_def mint_and_store_def parse_minted_def resp_ok_def)
qed


end
