(* ===== verification/Js_Double.thy ===== *)
theory Js_Double
  imports Prelude "HOL-Library.Log_Nat"
begin

text \<open>
  The doubles of JavaScript where a number shown to a person depends on their rounding: \<open>double_of\<close> rounds a positive
  rational to the nearest double (ties to even), which is what an operation on two numbers returns; \<open>Math.round\<close> and
  \<open>toFixed(1)\<close> of such a value. Values from
  2 ^ 53 on, and subnormal ones, are outside the model.
\<close>

section \<open>Rounding to a double\<close>

definition half_even :: "rat \<Rightarrow> int" where
  "half_even x =
     (let n = \<lfloor>x\<rfloor>; r = x - of_int n in
      if r < 1 / 2 then n else if 1 / 2 < r then n + 1 else if even n then n else n + 1)"

text \<open>The least \<open>k\<close>, of either sign, with \<open>x < 2^k\<close>: the position of the leading bit of \<open>x\<close>.\<close>

definition leading_bit :: "rat \<Rightarrow> int" where
  "leading_bit x =
     (if 1 \<le> x then bitlen \<lfloor>x\<rfloor>
      else (case quotient_of x of (a, b) \<Rightarrow> 1 - bitlen ((b - 1) div a)))"

definition double_of :: "rat \<Rightarrow> rat" where
  "double_of x =
     (if x \<le> 0 then 0
      else (let s = 2 ^ nat (53 - leading_bit x) in of_int (half_even (x * s)) / s))"

section \<open>Rounding for display\<close>

definition js_round :: "rat \<Rightarrow> int" where
  "js_round x = \<lfloor>x + 1 / 2\<rfloor>"

definition dec_int :: "int \<Rightarrow> string" where
  "dec_int i = (if i < 0 then CHR ''-'' # dec (nat (- i)) else dec (nat i))"

text \<open>\<open>toFixed(1)\<close> of a value that is not negative: the nearest tenth, the larger of two.\<close>

definition to_fixed1 :: "rat \<Rightarrow> string" where
  "to_fixed1 x = (let n = nat \<lfloor>10 * x + 1 / 2\<rfloor> in dec (n div 10) @ ''.'' @ dec (n mod 10))"

section \<open>What rounding keeps\<close>

lemma half_even_near: "of_int (half_even x) \<le> x + 1 / 2" "x - 1 / 2 \<le> of_int (half_even x)"
  by (auto simp: half_even_def Let_def) linarith+

lemma half_even_le: "x \<le> of_int n \<Longrightarrow> half_even x \<le> n"
proof -
  assume le: "x \<le> of_int n"
  then have "\<lfloor>x\<rfloor> \<le> n" by linarith
  show ?thesis
  proof (cases "\<lfloor>x\<rfloor> = n")
    case True
    with le have "x = of_int n" by linarith
    then show ?thesis by (simp add: half_even_def)
  next
    case False
    with \<open>\<lfloor>x\<rfloor> \<le> n\<close> have "\<lfloor>x\<rfloor> + 1 \<le> n" by simp
    then show ?thesis by (auto simp: half_even_def Let_def)
  qed
qed

lemma half_even_int [simp]: "half_even (of_int n) = n"
  by (simp add: half_even_def)

lemma half_even_nonneg: "0 \<le> x \<Longrightarrow> 0 \<le> half_even x"
proof -
  assume "0 \<le> x"
  then have "0 \<le> \<lfloor>x\<rfloor>" by simp
  then show ?thesis by (auto simp: half_even_def Let_def)
qed

lemma double_of_nonneg: "0 \<le> double_of x"
  by (auto simp: double_of_def Let_def intro!: divide_nonneg_pos half_even_nonneg)

text \<open>A bound that is a double itself is kept.\<close>

lemma double_of_le_int: "x \<le> of_int n \<Longrightarrow> 0 \<le> n \<Longrightarrow> double_of x \<le> of_int n"
proof -
  assume x: "x \<le> of_int n" and n: "0 \<le> n"
  show ?thesis
  proof (cases "x \<le> 0")
    case True
    with n show ?thesis by (simp add: double_of_def)
  next
    case False
    define s :: int where "s = 2 ^ nat (53 - leading_bit x)"
    have s: "0 < s" by (simp add: s_def)
    have "x * of_int s \<le> of_int (n * s)" using x s by (simp add: mult_right_mono)
    then have "half_even (x * of_int s) \<le> n * s" by (rule half_even_le)
    then have "of_int (half_even (x * of_int s)) \<le> (of_int (n * s) :: rat)" by (simp only: of_int_le_iff)
    then have "of_int (half_even (x * of_int s)) / of_int s \<le> (of_int n :: rat)" using s by (simp add: divide_le_eq)
    with False show ?thesis by (simp add: double_of_def s_def Let_def)
  qed
qed

lemma double_of_int: "0 \<le> n \<Longrightarrow> double_of (of_int n) = of_int n"
proof (cases "n = 0")
  case False
  assume "0 \<le> n"
  have "half_even (of_int n * 2 ^ k) = n * 2 ^ k" for k
    using half_even_int [of "n * 2 ^ k"] by simp
  with False \<open>0 \<le> n\<close> show ?thesis by (simp add: double_of_def Let_def)
qed (simp add: double_of_def)

end
