(* ===== verification/Insights.thy ===== *)
theory Insights
  imports Js_Double Worker_Status
begin

text \<open>
  The rollups of the Insights surfaces, \<open>apps/web/src/insights-stats.ts\<close>, with the paths and \<open>runFailureMessage\<close> of
  \<open>insights-api.ts\<close>: grouping of runs, the counts per day and per workflow, medians, labels, and the approvals.

  \<open>calendar\<close> is the local time zone: \<open>Date.parse\<close>, the number of the local day of a time and the time of its midnight.
  \<open>setHours(0, 0, 0, 0)\<close> and \<open>setDate(getDate() - i)\<close> are moves in it. \<open>cmp\<close> is \<open>localeCompare\<close>, \<open>locale_int\<close> is
  \<open>toLocaleString\<close>. The em dash of an unknown value is \<open>--\<close>.
\<close>

section \<open>Runs\<close>

record insights_run =
  ir_id :: string
  ir_definitionId :: string
  ir_definitionName :: string
  ir_status :: string
  ir_createdAt :: string
  ir_endedAt :: "string option"
  ir_routineId :: "string option"
  ir_routineName :: "string option"

record calendar =
  cal_parse :: "string \<Rightarrow> int option"
  cal_day :: "int \<Rightarrow> int"
  cal_midnight :: "int \<Rightarrow> int"

definition formatCount :: "(nat \<Rightarrow> string) \<Rightarrow> nat option \<Rightarrow> string" where
  "formatCount locale_int v = (case v of None \<Rightarrow> ''--'' | Some n \<Rightarrow> locale_int n)"

definition durationLabel :: "rat \<Rightarrow> string" where
  "durationLabel ms =
     (if ms < 1000 then dec_int (js_round ms) @ ''ms''
      else if ms < 60000 then to_fixed1 (double_of (ms / 1000)) @ ''s''
      else to_fixed1 (double_of (ms / 60000)) @ ''m'')"

definition purposeRunsForInsights :: "insights_run list \<Rightarrow> insights_run list" where
  "purposeRunsForInsights runs =
     filter (\<lambda>r. ir_definitionName r \<noteq> worker_assetName \<and> \<not> isAgentDeploySourceAssetName (ir_definitionName r)) runs"

definition runDisplayName :: "insights_run \<Rightarrow> string" where
  "runDisplayName r = (case ir_routineName r of None \<Rightarrow> ir_definitionName r | Some n \<Rightarrow> n)"

definition group_key :: "insights_run \<Rightarrow> string" where
  "group_key r = (case ir_routineId r of None \<Rightarrow> ir_definitionId r | Some i \<Rightarrow> i)"

text \<open>The groups of a list, as both rollups build them: a map in order of first use, each run at the end of its own.\<close>

definition add_run :: "insights_run \<Rightarrow> (string \<times> insights_run list) list \<Rightarrow> (string \<times> insights_run list) list" where
  "add_run r groups =
     AList.update (group_key r) ((case map_of groups (group_key r) of None \<Rightarrow> [] | Some rs \<Rightarrow> rs) @ [r]) groups"

definition newest_first :: "(string \<Rightarrow> string \<Rightarrow> int) \<Rightarrow> insights_run list \<Rightarrow> insights_run list" where
  "newest_first cmp = js_sort (\<lambda>a b. cmp (ir_createdAt b) (ir_createdAt a) \<le> 0)"

record definition_group =
  dg_groupKey :: string
  dg_displayName :: string
  dg_runs :: "insights_run list"

definition newest_created :: "insights_run list \<Rightarrow> string" where
  "newest_created rs = (case rs of [] \<Rightarrow> [] | r # _ \<Rightarrow> ir_createdAt r)"

definition definition_group_of :: "(string \<Rightarrow> string \<Rightarrow> int) \<Rightarrow> string \<times> insights_run list \<Rightarrow> definition_group" where
  "definition_group_of cmp g =
     (let rs = newest_first cmp (snd g) in
      \<lparr>dg_groupKey = fst g, dg_displayName = (case rs of [] \<Rightarrow> fst g | r # _ \<Rightarrow> runDisplayName r), dg_runs = rs\<rparr>)"

definition groupRunsByDefinition :: "(string \<Rightarrow> string \<Rightarrow> int) \<Rightarrow> insights_run list \<Rightarrow> definition_group list" where
  "groupRunsByDefinition cmp runs =
     js_sort (\<lambda>a b. cmp (newest_created (dg_runs b)) (newest_created (dg_runs a)) \<le> 0)
       (map (definition_group_of cmp) (fold add_run runs []))"

section \<open>Medians and outcomes\<close>

definition medianMs :: "int list \<Rightarrow> rat option" where
  "medianMs vals =
     (if vals = [] then None
      else (let s = js_sort (\<lambda>a b. a - b \<le> 0) vals; mid = length s div 2; hi = s ! mid in
            Some (if odd (length s) then of_int hi else of_int (s ! (mid - 1) + hi) / 2)))"

definition runDurationMs :: "calendar \<Rightarrow> insights_run \<Rightarrow> int option" where
  "runDurationMs cal r =
     (case ir_endedAt r of
        None \<Rightarrow> None
      | Some e \<Rightarrow>
          (case (cal_parse cal e, cal_parse cal (ir_createdAt r)) of
             (Some t, Some s) \<Rightarrow> if t - s < 0 then None else Some (t - s)
           | _ \<Rightarrow> None))"

datatype bucket = OkBucket | FailBucket | OtherBucket

definition bucketOf :: "insights_run \<Rightarrow> bucket" where
  "bucketOf r =
     (let outcome = runOutcomeStatus (ir_status r) (ir_endedAt r) in
      if outcome = ''completed'' then OkBucket else if isRunFailed outcome then FailBucket else OtherBucket)"

section \<open>The rollup of a range\<close>

definition DAY_MS :: int where "DAY_MS = 86400000"

record bench_day =
  bd_date :: int
  bd_ok :: nat
  bd_fail :: nat
  bd_other :: nat

record workflow_row =
  wf_key :: string
  wf_name :: string
  wf_definitionName :: string
  wf_runs :: nat
  wf_ok :: nat
  wf_fail :: nat
  wf_medianMs :: "rat option"
  wf_lastRun :: string

record bench_insights =
  bi_total :: nat
  bi_ok :: nat
  bi_fail :: nat
  bi_medianMs :: "rat option"
  bi_days :: "bench_day list"
  bi_workflows :: "workflow_row list"
  bi_failures :: "insights_run list"

definition days_of :: "calendar \<Rightarrow> nat \<Rightarrow> int \<Rightarrow> bench_day list" where
  "days_of cal window now =
     map (\<lambda>i. \<lparr>bd_date = cal_midnight cal (cal_day cal now - int i), bd_ok = 0, bd_fail = 0, bd_other = 0\<rparr>) (rev [0..<window])"

definition range_start :: "calendar \<Rightarrow> nat \<Rightarrow> int \<Rightarrow> int" where
  "range_start cal window now = (case days_of cal window now of [] \<Rightarrow> 0 | d # _ \<Rightarrow> bd_date d)"

definition in_window :: "calendar \<Rightarrow> int \<Rightarrow> int \<Rightarrow> insights_run \<Rightarrow> bool" where
  "in_window cal start now r = (case cal_parse cal (ir_createdAt r) of None \<Rightarrow> False | Some t \<Rightarrow> start \<le> t \<and> t \<le> now)"

text \<open>\<open>Math.round((midnight - start) / DAY_MS)\<close>, and \<open>days[...]\<close> at it.\<close>

definition day_index :: "calendar \<Rightarrow> int \<Rightarrow> insights_run \<Rightarrow> int" where
  "day_index cal start r =
     (case cal_parse cal (ir_createdAt r) of None \<Rightarrow> - 1
      | Some t \<Rightarrow> js_round (of_int (cal_midnight cal (cal_day cal t) - start) / of_int DAY_MS))"

definition bump :: "bucket \<Rightarrow> bench_day \<Rightarrow> bench_day" where
  "bump b d =
     (case b of OkBucket \<Rightarrow> d\<lparr>bd_ok := bd_ok d + 1\<rparr> | FailBucket \<Rightarrow> d\<lparr>bd_fail := bd_fail d + 1\<rparr> | OtherBucket \<Rightarrow> d\<lparr>bd_other := bd_other d + 1\<rparr>)"

definition bump_at :: "int \<Rightarrow> bucket \<Rightarrow> bench_day list \<Rightarrow> bench_day list" where
  "bump_at i b days = (if 0 \<le> i \<and> nat i < length days then days[nat i := bump b (days ! nat i)] else days)"

record tally =
  ta_ok :: nat
  ta_fail :: nat
  ta_days :: "bench_day list"
  ta_groups :: "(string \<times> insights_run list) list"

definition count_run :: "calendar \<Rightarrow> int \<Rightarrow> insights_run \<Rightarrow> tally \<Rightarrow> tally" where
  "count_run cal start r s =
     (let b = bucketOf r in
      \<lparr>ta_ok = (if b = OkBucket then ta_ok s + 1 else ta_ok s), ta_fail = (if b = FailBucket then ta_fail s + 1 else ta_fail s),
       ta_days = bump_at (day_index cal start r) b (ta_days s), ta_groups = add_run r (ta_groups s)\<rparr>)"

definition durations :: "calendar \<Rightarrow> insights_run list \<Rightarrow> int list" where
  "durations cal rs = List.map_filter (runDurationMs cal) rs"

definition workflow_row_of :: "(string \<Rightarrow> string \<Rightarrow> int) \<Rightarrow> calendar \<Rightarrow> string \<times> insights_run list \<Rightarrow> workflow_row" where
  "workflow_row_of cmp cal g =
     (let rs = snd g; newest = newest_first cmp rs in
      \<lparr>wf_key = fst g,
       wf_name = (case newest of [] \<Rightarrow> fst g | r # _ \<Rightarrow> runDisplayName r),
       wf_definitionName = (case newest of [] \<Rightarrow> fst g | r # _ \<Rightarrow> ir_definitionName r),
       wf_runs = length rs,
       wf_ok = length (filter (\<lambda>r. bucketOf r = OkBucket) rs),
       wf_fail = length (filter (\<lambda>r. bucketOf r = FailBucket) rs),
       wf_medianMs = medianMs (durations cal rs),
       wf_lastRun = newest_created newest\<rparr>)"

definition runs_in_range :: "calendar \<Rightarrow> nat \<Rightarrow> int \<Rightarrow> insights_run list \<Rightarrow> insights_run list" where
  "runs_in_range cal window now runs = filter (in_window cal (range_start cal window now) now) (purposeRunsForInsights runs)"

definition computeBenchInsights ::
  "(string \<Rightarrow> string \<Rightarrow> int) \<Rightarrow> calendar \<Rightarrow> insights_run list \<Rightarrow> nat \<Rightarrow> int \<Rightarrow> bench_insights" where
  "computeBenchInsights cmp cal runs window now =
     (let inRange = runs_in_range cal window now runs;
          s = fold (count_run cal (range_start cal window now)) inRange
                \<lparr>ta_ok = 0, ta_fail = 0, ta_days = days_of cal window now, ta_groups = []\<rparr>
      in \<lparr>bi_total = length inRange, bi_ok = ta_ok s, bi_fail = ta_fail s, bi_medianMs = medianMs (durations cal inRange),
          bi_days = ta_days s,
          bi_workflows = js_sort (\<lambda>a b. cmp (wf_lastRun b) (wf_lastRun a) \<le> 0) (map (workflow_row_of cmp cal) (ta_groups s)),
          bi_failures = take 5 (newest_first cmp (filter (\<lambda>r. bucketOf r = FailBucket) inRange))\<rparr>)"

section \<open>Tiles, approvals and paths\<close>

definition countSavedArtifacts :: "calendar \<Rightarrow> (string option \<times> string) list \<Rightarrow> int \<Rightarrow> nat" where
  "countSavedArtifacts cal artifacts sinceMs =
     length (filter (\<lambda>(archivedAt, createdAt). archivedAt = None \<and>
        (case cal_parse cal createdAt of None \<Rightarrow> False | Some t \<Rightarrow> sinceMs \<le> t)) artifacts)"

text \<open>\<open>Math.round((ok / finished) * 100)\<close>, both operations on doubles.\<close>

definition success_percent :: "nat \<Rightarrow> nat \<Rightarrow> int" where
  "success_percent ok finished = js_round (double_of (double_of (of_nat ok / of_nat finished) * 100))"

definition benchInsightTiles :: "(nat \<Rightarrow> string) \<Rightarrow> bench_insights \<Rightarrow> string \<Rightarrow> (string \<times> string) list" where
  "benchInsightTiles locale_int stats saved =
     (let finished = bi_ok stats + bi_fail stats in
      [(''Runs'', formatCount locale_int (Some (bi_total stats))),
       (''Succeeded'', if finished = 0 then ''--'' else dec_int (success_percent (bi_ok stats) finished) @ ''%''),
       (''Median run'', case bi_medianMs stats of None \<Rightarrow> ''--'' | Some m \<Rightarrow> durationLabel m),
       (''Artifacts saved'', saved)])"

definition APPROVAL_RUN_CAP :: nat where "APPROVAL_RUN_CAP = 50"

record approval_runs =
  ar_runs :: "insights_run list"
  ar_capped :: bool

definition approvalRunsInRange :: "(string \<Rightarrow> string \<Rightarrow> int) \<Rightarrow> calendar \<Rightarrow> insights_run list \<Rightarrow> nat \<Rightarrow> int \<Rightarrow> approval_runs" where
  "approvalRunsInRange cmp cal runs window now =
     (let start = cal_midnight cal (cal_day cal now - (int window - 1));
          inRange = newest_first cmp (filter (in_window cal start now) (purposeRunsForInsights runs))
      in \<lparr>ar_runs = take APPROVAL_RUN_CAP inRange, ar_capped = APPROVAL_RUN_CAP < length inRange\<rparr>)"

record approval_counts =
  ac_once :: nat
  ac_always :: nat
  ac_denied :: nat
  ac_waiting :: nat

text \<open>An approval is its status and, when approved, its scope.\<close>

definition count_approval :: "string \<times> string option \<Rightarrow> approval_counts \<Rightarrow> approval_counts" where
  "count_approval a c =
     (if fst a = ''pending'' then c\<lparr>ac_waiting := ac_waiting c + 1\<rparr>
      else if fst a = ''rejected'' then c\<lparr>ac_denied := ac_denied c + 1\<rparr>
      else if fst a = ''approved'' then
        (if snd a = Some ''always'' then c\<lparr>ac_always := ac_always c + 1\<rparr> else c\<lparr>ac_once := ac_once c + 1\<rparr>)
      else c)"

definition countApprovals :: "(string \<times> string option) list \<Rightarrow> approval_counts" where
  "countApprovals as = fold count_approval as \<lparr>ac_once = 0, ac_always = 0, ac_denied = 0, ac_waiting = 0\<rparr>"

definition insightsTopLevelRunsPath :: "string \<Rightarrow> string" where
  "insightsTopLevelRunsPath t = ''/api/tenants/'' @ t @ ''/workflows/runs?limit=100''"

definition insightsRunEventsPath :: "string \<Rightarrow> string \<Rightarrow> string" where
  "insightsRunEventsPath t r = ''/api/tenants/'' @ t @ ''/workflows/runs/'' @ encodeURIComponent r @ ''/events''"

definition insightsRunApprovalsPath :: "string \<Rightarrow> string \<Rightarrow> string" where
  "insightsRunApprovalsPath t r = ''/api/tenants/'' @ t @ ''/workflows/runs/'' @ encodeURIComponent r @ ''/approvals''"

text \<open>The newest failure event with a text: the message of its error, its own message, or the error itself.\<close>

definition nonempty :: "string option \<Rightarrow> string option" where
  "nonempty s = (case s of Some (c # t) \<Rightarrow> Some (c # t) | _ \<Rightarrow> None)"

definition event_message :: "string \<times> json \<Rightarrow> string option" where
  "event_message e =
     (if \<not> (contains ''error'' (to_lower (fst e)) \<or> contains ''fail'' (to_lower (fst e))) then None
      else (case nonempty (Option.bind (field ''error'' (snd e)) (str_field ''message'')) of
              Some m \<Rightarrow> Some m
            | None \<Rightarrow> (case nonempty (str_field ''message'' (snd e)) of Some m \<Rightarrow> Some m | None \<Rightarrow> nonempty (str_field ''error'' (snd e)))))"

definition runFailureMessage :: "(string \<times> json) list \<Rightarrow> string option" where
  "runFailureMessage events = (case List.map_filter event_message (rev events) of [] \<Rightarrow> None | m # _ \<Rightarrow> Some m)"


section \<open>The groups of a list\<close>

lemma fold_add_run:
  "fold add_run rs [] = map (\<lambda>k. (k, filter (\<lambda>r. group_key r = k) rs)) (first_seen (map group_key rs))"
proof (induction rs rule: rev_induct)
  case Nil
  then show ?case by (simp add: first_seen_def)
next
  case (snoc r rs)
  let ?of = "\<lambda>k. filter (\<lambda>r. group_key r = k) rs"
  have old: "(case map_of (map (\<lambda>k. (k, ?of k)) (first_seen (map group_key rs))) (group_key r) of None \<Rightarrow> [] | Some x \<Rightarrow> x) = ?of (group_key r)"
    by (auto simp: map_of_keyed image_iff intro!: filter_False [symmetric])
  have "fold add_run (rs @ [r]) [] = AList.update (group_key r) (?of (group_key r) @ [r]) (map (\<lambda>k. (k, ?of k)) (first_seen (map group_key rs)))"
    using snoc by (simp add: add_run_def [of r] old)
  also have "\<dots> = map (\<lambda>k. (k, if k = group_key r then ?of (group_key r) @ [r] else ?of k)) (set_add (group_key r) (first_seen (map group_key rs)))"
    by (rule update_keyed) simp
  also have "\<dots> = map (\<lambda>k. (k, filter (\<lambda>r. group_key r = k) (rs @ [r]))) (first_seen (map group_key (rs @ [r])))"
    by (auto simp: first_seen_snoc)
  finally show ?case .
qed

lemma sum_one: "distinct ks \<Longrightarrow> x \<in> set ks \<Longrightarrow> sum_list (map (\<lambda>k. if x = k then 1 else 0 :: nat) ks) = 1"
  by (induction ks) (auto simp: sum_list_0 intro!: sum_list_0 cong: map_cong)

lemma length_partition:
  "distinct ks \<Longrightarrow> (\<And>r. r \<in> set rs \<Longrightarrow> f r \<in> set ks) \<Longrightarrow>
   sum_list (map (\<lambda>k. length (filter (\<lambda>r. f r = k \<and> P r) rs)) ks) = length (filter P rs)"
proof (induction rs)
  case Nil
  then show ?case by simp
next
  case (Cons r rs)
  have "sum_list (map (\<lambda>k. length (filter (\<lambda>r. f r = k \<and> P r) (r # rs))) ks) =
      sum_list (map (\<lambda>k. (if f r = k then if P r then 1 else 0 else 0) + length (filter (\<lambda>r. f r = k \<and> P r) rs)) ks)"
    by (intro arg_cong [where f = sum_list] map_cong) auto
  also have "\<dots> = sum_list (map (\<lambda>k. if f r = k then if P r then 1 else 0 else 0) ks) + length (filter P rs)"
    using Cons by (simp add: sum_list_addf)
  also have "sum_list (map (\<lambda>k. if f r = k then if P r then 1 else 0 else 0 :: nat) ks) = (if P r then 1 else 0)"
    using sum_one [of ks "f r"] Cons.prems by simp
  finally show ?case by simp
qed

lemma sum_js_sort: "sum_list (map f (js_sort le xs)) = sum_list (map (f :: 'a \<Rightarrow> nat) xs)"
  by (metis mset_js_sort mset_map sum_mset_sum_list)


section \<open>Each run falls on its own day\<close>

text \<open>
  What is relied on of the local time zone: a time lies between the midnights of its day and of the next, midnights come
  in order, and within a window a day starts less than half a day off a multiple of 24 hours.
\<close>

definition calendar_ok :: "calendar \<Rightarrow> nat \<Rightarrow> bool" where
  "calendar_ok cal window \<longleftrightarrow>
     (\<forall>t. cal_midnight cal (cal_day cal t) \<le> t \<and> t < cal_midnight cal (cal_day cal t + 1)) \<and>
     (\<forall>d e. d \<le> e \<longrightarrow> cal_midnight cal d \<le> cal_midnight cal e) \<and>
     (\<forall>d k. k < window \<longrightarrow> 2 * \<bar>cal_midnight cal (d + int k) - cal_midnight cal d - int k * DAY_MS\<bar> < DAY_MS)"

definition run_day :: "calendar \<Rightarrow> insights_run \<Rightarrow> int option" where
  "run_day cal r = map_option (cal_day cal) (cal_parse cal (ir_createdAt r))"

definition day_counts :: "calendar \<Rightarrow> int \<Rightarrow> insights_run list \<Rightarrow> nat \<Rightarrow> bench_day" where
  "day_counts cal now rs i =
     (let d = cal_day cal now - int i; count = \<lambda>b. length (filter (\<lambda>r. run_day cal r = Some d \<and> bucketOf r = b) rs) in
      \<lparr>bd_date = cal_midnight cal d, bd_ok = count OkBucket, bd_fail = count FailBucket, bd_other = count OtherBucket\<rparr>)"

lemma js_round_near: "2 * \<bar>a - k * b\<bar> < b \<Longrightarrow> js_round (of_int a / of_int b) = k"
proof -
  assume near: "2 * \<bar>a - k * b\<bar> < b"
  have b: "0 < b" by (rule le_less_trans [OF _ near]) simp
  define x where "x = a - k * b"
  have "2 * x < b" "- b < 2 * x" using near abs_ge_self [of x] abs_ge_minus_self [of x] unfolding x_def [symmetric] by linarith+
  then have bounds: "k * (2 * b) \<le> 2 * a + b" "2 * a + b < (k + 1) * (2 * b)" by (simp_all add: x_def algebra_simps)
  have eq: "(of_int a / of_int b + 1 / 2 :: rat) = of_int (2 * a + b) / of_int (2 * b)" using b by (simp add: field_simps)
  have b2: "(0 :: rat) < of_int (2 * b)" using b by simp
  have "of_int (k * (2 * b)) \<le> (of_int (2 * a + b) :: rat)" "(of_int (2 * a + b) :: rat) < of_int ((k + 1) * (2 * b))"
    using bounds by (simp_all only: of_int_le_iff of_int_less_iff)
  then have "of_int k \<le> (of_int (2 * a + b) / of_int (2 * b) :: rat)" "(of_int (2 * a + b) / of_int (2 * b) :: rat) < of_int (k + 1)"
    using b2 by (simp_all only: le_divide_eq divide_less_eq of_int_mult if_True)
  then show ?thesis unfolding js_round_def eq by (intro floor_unique) simp_all
qed

lemma window_day:
  assumes cal: "calendar_ok cal window" and r: "in_window cal (range_start cal window now) now r" and w: "0 < window"
  obtains k where "k < window" and "run_day cal r = Some (cal_day cal now - int (window - 1 - k))"
    and "day_index cal (range_start cal window now) r = int k"
proof -
  let ?m = "cal_midnight cal" and ?day = "cal_day cal"
  let ?d0 = "?day now - int (window - 1)"
  have start: "range_start cal window now = ?m ?d0"
  proof -
    from w have "rev [0..<window] = (window - 1) # rev [0..<window - 1]" by (cases window) simp_all
    then show ?thesis by (simp add: range_start_def days_of_def)
  qed
  from r start obtain t where t: "cal_parse cal (ir_createdAt r) = Some t" "?m ?d0 \<le> t" "t \<le> now"
    by (auto simp: in_window_def split: option.splits)
  from cal have between: "?m (?day s) \<le> s" "s < ?m (?day s + 1)" for s by (auto simp: calendar_ok_def)
  from cal have mono: "d \<le> e \<Longrightarrow> ?m d \<le> ?m e" for d e by (auto simp: calendar_ok_def)
  have lower: "?d0 \<le> ?day t"
  proof (rule ccontr)
    assume "\<not> ?thesis"
    then have "?day t + 1 \<le> ?d0" by simp
    from mono [OF this] between [of t] t show False by linarith
  qed
  have upper: "?day t \<le> ?day now"
  proof (rule ccontr)
    assume "\<not> ?thesis"
    then have "?day now + 1 \<le> ?day t" by simp
    from mono [OF this] between [of t] between [of now] t show False by linarith
  qed
  define k where "k = nat (?day t - ?d0)"
  have k: "int k = ?day t - ?d0" "k < window" using lower upper w by (auto simp: k_def)
  then have day: "?day t = ?d0 + int k" by simp
  have "2 * \<bar>?m (?d0 + int k) - ?m ?d0 - int k * DAY_MS\<bar> < DAY_MS" using cal k(2) by (simp add: calendar_ok_def)
  then have "js_round (of_int (?m (?d0 + int k) - ?m ?d0) / of_int DAY_MS) = int k" by (rule js_round_near)
  then have "day_index cal (range_start cal window now) r = int k" by (simp add: day_index_def t(1) day start)
  moreover have "run_day cal r = Some (?day now - int (window - 1 - k))" using k day t(1) by (simp add: run_day_def of_nat_diff)
  ultimately show ?thesis using that k(2) by blast
qed

lemma ta_days_fold:
  "ta_days (fold (count_run cal start) rs s) = fold (\<lambda>r. bump_at (day_index cal start r) (bucketOf r)) rs (ta_days s)"
  by (induction rs arbitrary: s) (simp_all add: count_run_def Let_def)

lemma bump_counts:
  "run_day cal r = Some (cal_day cal now - int i) \<Longrightarrow> bump (bucketOf r) (day_counts cal now rs i) = day_counts cal now (rs @ [r]) i"
  by (cases "bucketOf r") (simp_all add: bump_def day_counts_def Let_def)

lemma days_counted:
  assumes cal: "calendar_ok cal window" and rs: "list_all (in_window cal (range_start cal window now) now) rs"
  shows "fold (\<lambda>r. bump_at (day_index cal (range_start cal window now) r) (bucketOf r)) rs (days_of cal window now)
    = map (day_counts cal now rs) (rev [0..<window])"
  using rs
proof (induction rs rule: rev_induct)
  case Nil
  then show ?case by (simp add: days_of_def day_counts_def)
next
  case (snoc r rs)
  show ?case
  proof (cases "window = 0")
    case True
    with snoc show ?thesis by (simp add: bump_at_def)
  next
    case False
    from snoc.prems have "in_window cal (range_start cal window now) now r" by simp
    with cal False obtain k where k: "k < window" "run_day cal r = Some (cal_day cal now - int (window - 1 - k))"
      "day_index cal (range_start cal window now) r = int k" by (auto elim: window_day)
    have others: "day_counts cal now (rs @ [r]) i = day_counts cal now rs i" if "i < window" "i \<noteq> window - 1 - k" for i
    proof -
      have "run_day cal r \<noteq> Some (cal_day cal now - int i)" using that k(1,2) by auto
      then show ?thesis by (simp add: day_counts_def Let_def)
    qed
    have "map (day_counts cal now (rs @ [r])) (rev [0..<window]) =
        (map (day_counts cal now rs) (rev [0..<window]))[k := day_counts cal now (rs @ [r]) (window - 1 - k)]"
      using k(1) others by (intro nth_equalityI) (auto simp: rev_nth nth_list_update)
    with snoc k bump_counts [OF k(2)] show ?thesis by (simp add: bump_at_def rev_nth)
  qed
qed


lemma runs_in_window: "list_all (in_window cal (range_start cal window now) now) (runs_in_range cal window now runs)"
  by (simp add: runs_in_range_def list_all_iff)

lemma bi_days_eq:
  assumes "calendar_ok cal window"
  shows "bi_days (computeBenchInsights cmp cal runs window now) = map (day_counts cal now (runs_in_range cal window now runs)) (rev [0..<window])"
  using days_counted [OF assms runs_in_window] by (simp add: computeBenchInsights_def Let_def ta_days_fold)

text \<open>
  C14. The chart shows each run on the local day it was created: the days of a rollup are the days of the window, oldest
  first, each with exactly the runs of the window whose creation falls on it, counted by outcome, even where days are 23
  or 25 hours long.
\<close>

theorem chart_days_exact:
  assumes "calendar_ok cal window"
  shows "bi_days (computeBenchInsights cmp cal runs window now) =
    map (\<lambda>i. let d = cal_day cal now - int i;
                 count = \<lambda>b. length (filter (\<lambda>r. run_day cal r = Some d \<and> bucketOf r = b) (runs_in_range cal window now runs)) in
             \<lparr>bd_date = cal_midnight cal d, bd_ok = count OkBucket, bd_fail = count FailBucket, bd_other = count OtherBucket\<rparr>)
      (rev [0..<window])"
  unfolding bi_days_eq [OF assms] by (simp add: day_counts_def Let_def)

text \<open>The calendar of a place on UTC.\<close>

definition utc :: "(string \<Rightarrow> int option) \<Rightarrow> calendar" where
  "utc parse = \<lparr>cal_parse = parse, cal_day = (\<lambda>t. t div DAY_MS), cal_midnight = (\<lambda>d. d * DAY_MS)\<rparr>"

lemma utc_ok: "calendar_ok (utc parse) window"
proof -
  have "t div DAY_MS * DAY_MS \<le> t \<and> t < (t div DAY_MS + 1) * DAY_MS" for t
  proof -
    have "0 < DAY_MS" by (simp add: DAY_MS_def)
    with div_mult_mod_eq [of t DAY_MS] pos_mod_bound [of DAY_MS t] pos_mod_sign [of DAY_MS t]
    show ?thesis unfolding distrib_right by linarith
  qed
  then show ?thesis by (simp add: calendar_ok_def utc_def algebra_simps) (simp add: DAY_MS_def)
qed

definition demo_insights_run :: insights_run where
  "demo_insights_run = \<lparr>ir_id = ''r'', ir_definitionId = ''d'', ir_definitionName = ''n'', ir_status = ''error'', ir_createdAt = ''t'',
     ir_endedAt = None, ir_routineId = None, ir_routineName = None\<rparr>"

lemma demo_in_range: "runs_in_range (utc (\<lambda>_. Some 5)) 7 10 [demo_insights_run] = [demo_insights_run]"
proof -
  have "isAgentDeploySourceAssetName ''n'' = False" by code_simp
  then show ?thesis
    by (simp add: runs_in_range_def purposeRunsForInsights_def demo_insights_run_def worker_assetName_def in_window_def utc_def
        range_start_def days_of_def DAY_MS_def upt_rec)
qed

theorem chart_days_exact_witness:
  "calendar_ok (utc (\<lambda>_. Some 5)) 7 \<and>
   last (bi_days (computeBenchInsights (\<lambda>_ _. 0) (utc (\<lambda>_. Some 5)) [demo_insights_run] 7 10))
     = \<lparr>bd_date = 0, bd_ok = 0, bd_fail = 1, bd_other = 0\<rparr>"
proof -
  have "bucketOf demo_insights_run = FailBucket"
    by (simp add: bucketOf_def demo_insights_run_def runOutcomeStatus_def isRunFailed_def)
  then show ?thesis
    using chart_days_exact [OF utc_ok, of "\<lambda>_ _. 0" "\<lambda>_. Some 5" "[demo_insights_run]" 7 10, unfolded demo_in_range] utc_ok
    by (simp add: last_map Let_def run_day_def utc_def DAY_MS_def upt_rec)
qed

section \<open>The totals add up\<close>

lemma tally_fold:
  "ta_ok (fold (count_run cal start) rs s) = ta_ok s + length (filter (\<lambda>r. bucketOf r = OkBucket) rs)"
  "ta_fail (fold (count_run cal start) rs s) = ta_fail s + length (filter (\<lambda>r. bucketOf r = FailBucket) rs)"
  "ta_groups (fold (count_run cal start) rs s) = fold add_run rs (ta_groups s)"
  by (induction rs arbitrary: s) (simp_all add: count_run_def Let_def)

lemma sum_over_days:
  assumes cal: "calendar_ok cal window" and w: "0 < window"
  shows "sum_list (map (\<lambda>i. length (filter (\<lambda>r. run_day cal r = Some (cal_day cal now - int i) \<and> P r) (runs_in_range cal window now runs))) (rev [0..<window]))
    = length (filter P (runs_in_range cal window now runs))"
proof -
  have "run_day cal r \<in> set (map (\<lambda>i. Some (cal_day cal now - int i)) (rev [0..<window]))" if "r \<in> set (runs_in_range cal window now runs)" for r
  proof -
    from that have "in_window cal (range_start cal window now) now r" by (simp add: runs_in_range_def)
    with cal w obtain k where "k < window" "run_day cal r = Some (cal_day cal now - int (window - 1 - k))" by (auto elim: window_day)
    then show ?thesis by (auto intro!: image_eqI [of _ _ "window - 1 - k"])
  qed
  from length_partition [OF _ this, where P = P] show ?thesis by (simp add: o_def distinct_map inj_on_def)
qed

lemma sum_over_groups:
  "sum_list (map (\<lambda>g. length (filter P (snd g))) (fold add_run rs [])) = length (filter P rs)"
  using length_partition [of "first_seen (map group_key rs)" rs group_key P]
  by (simp add: fold_add_run o_def)

text \<open>
  C27. The figures of a rollup agree with each other: the total is what the bars of the chart hold together and what the
  rows of the workflows hold together, and so are the runs that succeeded and those that failed; no more than five
  failures are listed, each one of the window that failed.
\<close>

theorem totals_add_up:
  assumes "calendar_ok cal window" and "0 < window" and "stats = computeBenchInsights cmp cal runs window now"
  shows "sum_list (map (\<lambda>d. bd_ok d + bd_fail d + bd_other d) (bi_days stats)) = bi_total stats \<and>
    sum_list (map bd_ok (bi_days stats)) = bi_ok stats \<and> sum_list (map bd_fail (bi_days stats)) = bi_fail stats \<and>
    sum_list (map wf_runs (bi_workflows stats)) = bi_total stats \<and>
    sum_list (map wf_ok (bi_workflows stats)) = bi_ok stats \<and> sum_list (map wf_fail (bi_workflows stats)) = bi_fail stats \<and>
    distinct (map wf_key (bi_workflows stats)) \<and>
    length (bi_failures stats) \<le> 5 \<and> list_all (\<lambda>r. bucketOf r = FailBucket \<and> r \<in> set runs) (bi_failures stats)"
proof -
  let ?rs = "runs_in_range cal window now runs"
  note stats = assms(3)
  have ok: "bi_ok stats = length (filter (\<lambda>r. bucketOf r = OkBucket) ?rs)" "bi_fail stats = length (filter (\<lambda>r. bucketOf r = FailBucket) ?rs)"
    "bi_total stats = length ?rs"
    by (simp_all add: stats computeBenchInsights_def Let_def tally_fold)
  have days: "bi_days stats = map (day_counts cal now ?rs) (rev [0..<window])" unfolding stats by (rule bi_days_eq [OF assms(1)])
  have rows: "bi_workflows stats = js_sort (\<lambda>a b. cmp (wf_lastRun b) (wf_lastRun a) \<le> 0) (map (workflow_row_of cmp cal) (fold add_run ?rs []))"
    by (simp add: stats computeBenchInsights_def Let_def tally_fold)
  have row: "wf_runs (workflow_row_of cmp cal g) = length (filter (\<lambda>_. True) (snd g))"
    "wf_ok (workflow_row_of cmp cal g) = length (filter (\<lambda>r. bucketOf r = OkBucket) (snd g))"
    "wf_fail (workflow_row_of cmp cal g) = length (filter (\<lambda>r. bucketOf r = FailBucket) (snd g))" "wf_key (workflow_row_of cmp cal g) = fst g" for g
    by (simp_all add: workflow_row_of_def Let_def)
  have split: "length (filter (\<lambda>r. P r \<and> bucketOf r = OkBucket) rs) + length (filter (\<lambda>r. P r \<and> bucketOf r = FailBucket) rs)
      + length (filter (\<lambda>r. P r \<and> bucketOf r = OtherBucket) rs) = length (filter (\<lambda>r. P r \<and> True) rs)" for P rs
    by (induction rs) (auto, metis bucket.exhaust)
  note per_day = sum_over_days [OF assms(1,2), of now _ runs]
  have "sum_list (map (\<lambda>d. bd_ok d + bd_fail d + bd_other d) (bi_days stats)) = bi_total stats"
    using per_day [of "\<lambda>_. True"] by (simp add: days ok o_def day_counts_def Let_def split [simplified])
  moreover have "sum_list (map bd_ok (bi_days stats)) = bi_ok stats" "sum_list (map bd_fail (bi_days stats)) = bi_fail stats"
    using per_day [of "\<lambda>r. bucketOf r = OkBucket"] per_day [of "\<lambda>r. bucketOf r = FailBucket"] by (simp_all add: days ok o_def day_counts_def Let_def)
  moreover have "sum_list (map wf_runs (bi_workflows stats)) = bi_total stats" "sum_list (map wf_ok (bi_workflows stats)) = bi_ok stats"
    "sum_list (map wf_fail (bi_workflows stats)) = bi_fail stats"
    by (simp_all only: rows sum_js_sort map_map o_def row ok sum_over_groups) simp_all
  moreover have "distinct (map wf_key (bi_workflows stats))"
  proof -
    have "distinct (map wf_key (map (workflow_row_of cmp cal) (fold add_run ?rs [])))" by (simp add: row o_def fold_add_run)
    then show ?thesis unfolding rows by (metis mset_js_sort mset_map mset_eq_imp_distinct_iff)
  qed
  moreover have "length (bi_failures stats) \<le> 5 \<and> list_all (\<lambda>r. bucketOf r = FailBucket \<and> r \<in> set runs) (bi_failures stats)"
    by (auto simp: stats computeBenchInsights_def Let_def list_all_iff newest_first_def runs_in_range_def purposeRunsForInsights_def
        dest: in_set_takeD)
  ultimately show ?thesis by blast
qed


theorem totals_add_up_witness:
  "bi_total (computeBenchInsights (\<lambda>_ _. 0) (utc (\<lambda>_. Some 5)) [demo_insights_run] 7 10) = 1 \<and>
   sum_list (map (\<lambda>d. bd_ok d + bd_fail d + bd_other d) (bi_days (computeBenchInsights (\<lambda>_ _. 0) (utc (\<lambda>_. Some 5)) [demo_insights_run] 7 10))) = 1"
proof -
  have "bi_total (computeBenchInsights (\<lambda>_ _. 0) (utc (\<lambda>_. Some 5)) [demo_insights_run] 7 10) = 1"
    by (simp add: computeBenchInsights_def Let_def demo_in_range)
  with totals_add_up [OF utc_ok _ refl, of 7 "\<lambda>_ _. 0" "\<lambda>_. Some 5" "[demo_insights_run]" 10] show ?thesis by simp
qed

section \<open>Groups\<close>

lemma mset_partition:
  "distinct ks \<Longrightarrow> (\<And>r. r \<in> set rs \<Longrightarrow> f r \<in> set ks) \<Longrightarrow>
   sum_list (map (\<lambda>k. mset (filter (\<lambda>r. f r = k) rs)) ks) = mset rs"
proof (induction ks arbitrary: rs)
  case Nil
  then show ?case by (cases rs) auto
next
  case (Cons k ks)
  let ?rest = "filter (\<lambda>r. f r \<noteq> k) rs"
  have same: "filter (\<lambda>r. f r = x) rs = filter (\<lambda>r. f r = x) ?rest" if "x \<in> set ks" for x
    using that Cons.prems(1) unfolding filter_filter by (intro filter_cong) auto
  have "map (\<lambda>x. mset (filter (\<lambda>r. f r = x) rs)) ks = map (\<lambda>x. mset (filter (\<lambda>r. f r = x) ?rest)) ks"
    by (intro map_cong refl arg_cong [where f = mset] same)
  moreover have "sum_list (map (\<lambda>x. mset (filter (\<lambda>r. f r = x) ?rest)) ks) = mset ?rest"
    using Cons.prems by (intro Cons.IH) auto
  ultimately have "sum_list (map (\<lambda>x. mset (filter (\<lambda>r. f r = x) rs)) (k # ks)) = mset (filter (\<lambda>r. f r = k) rs) + mset ?rest"
    by (simp only: list.map sum_list.Cons)
  also have "\<dots> = mset rs" by (induction rs) auto
  finally show ?case .
qed

text \<open>
  Also shown. The groups of the runs partition them: every run is in exactly one group, the group of its routine or else of its
  definition; no key has two groups and no group is empty; the runs of a group are newest first, its name is that of the
  newest one, and the groups themselves come in the order of their newest runs.
\<close>

theorem groups_partition:
  assumes "compare_ok cmp" and "gs = groupRunsByDefinition cmp runs"
  shows "sum_list (map (mset \<circ> dg_runs) gs) = mset runs \<and> distinct (map dg_groupKey gs) \<and>
    sorted_wrt (\<lambda>a b. cmp (newest_created (dg_runs b)) (newest_created (dg_runs a)) \<le> 0) gs \<and>
    list_all (\<lambda>g. dg_runs g \<noteq> [] \<and> list_all (\<lambda>r. group_key r = dg_groupKey g) (dg_runs g) \<and>
      dg_displayName g = runDisplayName (hd (dg_runs g)) \<and>
      sorted_wrt (\<lambda>a b. cmp (ir_createdAt b) (ir_createdAt a) \<le> 0) (dg_runs g)) gs"
proof -
  let ?gs = "map (definition_group_of cmp) (fold add_run runs [])"
  have flip: "comparator (\<lambda>a b. cmp (h b) (h a) \<le> 0)" for h :: "'x \<Rightarrow> string"
  proof -
    have "compare_ok (\<lambda>a b. cmp (h b) (h a))"
      using assms(1) unfolding compare_ok_def by blast
    then show ?thesis by (rule compare_comparator)
  qed
  have gs: "mset gs = mset ?gs" "set gs = set ?gs" by (simp_all add: assms(2) groupRunsByDefinition_def)
  have group: "dg_runs (definition_group_of cmp g) = newest_first cmp (snd g)" "dg_groupKey (definition_group_of cmp g) = fst g" for g
    by (simp_all add: definition_group_of_def Let_def)
  have "sum_list (map (mset \<circ> dg_runs) gs) = sum_list (map (mset \<circ> dg_runs) ?gs)"
    using gs(1) by (metis mset_map sum_mset_sum_list)
  also have "\<dots> = mset runs"
    using mset_partition [of "first_seen (map group_key runs)" runs group_key]
    by (simp add: o_def group newest_first_def fold_add_run)
  finally have part: "sum_list (map (mset \<circ> dg_runs) gs) = mset runs" .
  have "distinct (map dg_groupKey ?gs)" by (simp add: o_def group fold_add_run)
  then have keys: "distinct (map dg_groupKey gs)" using gs(1) by (metis mset_map mset_eq_imp_distinct_iff)
  have order: "sorted_wrt (\<lambda>a b. cmp (newest_created (dg_runs b)) (newest_created (dg_runs a)) \<le> 0) gs"
    unfolding assms(2) groupRunsByDefinition_def
    by (rule comparator.sorted_sort [OF flip [of "\<lambda>g. newest_created (dg_runs g)"]])
  have "dg_runs g \<noteq> [] \<and> list_all (\<lambda>r. group_key r = dg_groupKey g) (dg_runs g) \<and> dg_displayName g = runDisplayName (hd (dg_runs g)) \<and>
      sorted_wrt (\<lambda>a b. cmp (ir_createdAt b) (ir_createdAt a) \<le> 0) (dg_runs g)" if "g \<in> set gs" for g
  proof -
    from that gs(2) obtain k where k: "k \<in> set (map group_key runs)" "g = definition_group_of cmp (k, filter (\<lambda>r. group_key r = k) runs)"
      by (auto simp: fold_add_run)
    let ?rs = "newest_first cmp (filter (\<lambda>r. group_key r = k) runs)"
    have "set ?rs \<noteq> {}" using k(1) by (auto simp: newest_first_def)
    then obtain r rs where rs: "?rs = r # rs" by (cases ?rs) auto
    have "sorted_wrt (\<lambda>a b. cmp (ir_createdAt b) (ir_createdAt a) \<le> 0) ?rs"
      unfolding newest_first_def by (rule comparator.sorted_sort [OF flip])
    moreover have "list_all (\<lambda>r. group_key r = k) ?rs" by (simp add: newest_first_def list_all_iff)
    ultimately show ?thesis using rs by (simp add: k(2) definition_group_of_def Let_def)
  qed
  with part keys order show ?thesis by (simp add: list_all_iff)
qed

theorem groups_partition_witness:
  "let gs = groupRunsByDefinition (\<lambda>_ _. 0) [demo_insights_run, demo_insights_run\<lparr>ir_routineId := Some ''x''\<rparr>] in
   sum_list (map (mset \<circ> dg_runs) gs) = mset [demo_insights_run, demo_insights_run\<lparr>ir_routineId := Some ''x''\<rparr>] \<and> distinct (map dg_groupKey gs)"
  using groups_partition [of "\<lambda>_ _. 0", OF _ refl, of "[demo_insights_run, demo_insights_run\<lparr>ir_routineId := Some ''x''\<rparr>]"]
  by (simp add: compare_ok_def Let_def)

section \<open>Bounds of the figures\<close>

lemma median_bounds:
  assumes "medianMs vals = Some m"
  shows "of_int (Min (set vals)) \<le> m \<and> m \<le> of_int (Max (set vals))"
proof -
  let ?s = "js_sort (\<lambda>a b. a - b \<le> 0) vals"
  from assms have ne: "vals \<noteq> []" by (auto simp: medianMs_def)
  have len: "length ?s = length vals" by simp
  from ne have "0 < length ?s" by simp
  then have mid: "length ?s div 2 < length ?s" "length ?s div 2 - 1 < length ?s" by linarith+
  have mem: "?s ! i \<in> set vals" if "i < length ?s" for i using nth_mem [OF that] by simp
  have "Min (set vals) \<le> ?s ! i \<and> ?s ! i \<le> Max (set vals)" if "i < length ?s" for i using mem [OF that] by simp
  from this [OF mid(1)] this [OF mid(2)] assms ne show ?thesis
    by (auto simp: medianMs_def Let_def simp del: length_js_sort split: if_splits)
qed

text \<open>
  Also shown. The figures stay in bounds: a median lies between the least and the greatest duration and is missing only when
  there is none, the share that succeeded is between 0 and 100 percent in spite of two roundings to a double, and no
  more than 50 runs have their approvals read, all of them unless the result says it is capped.
\<close>

theorem figures_bounded:
  "(case medianMs vals of None \<Rightarrow> vals = [] | Some m \<Rightarrow> of_int (Min (set vals)) \<le> m \<and> m \<le> of_int (Max (set vals))) \<and>
   0 \<le> success_percent ok (ok + fail) \<and> success_percent ok (ok + fail) \<le> 100 \<and>
   length (ar_runs (approvalRunsInRange cmp cal runs window now)) \<le> 50 \<and>
   (if ar_capped (approvalRunsInRange cmp cal runs window now) then length (ar_runs (approvalRunsInRange cmp cal runs window now)) = 50
    else mset (ar_runs (approvalRunsInRange cmp cal runs window now)) =
      mset (filter (in_window cal (cal_midnight cal (cal_day cal now - (int window - 1))) now) (purposeRunsForInsights runs)))"
proof (intro conjI)
  show "case medianMs vals of None \<Rightarrow> vals = [] | Some m \<Rightarrow> of_int (Min (set vals)) \<le> m \<and> m \<le> of_int (Max (set vals))"
    using median_bounds [of vals] by (cases "medianMs vals") (auto simp: medianMs_def Let_def split: if_splits)
  have "(of_nat ok / of_nat (ok + fail) :: rat) \<le> of_int 1" by (cases "ok + fail = 0") (simp_all add: divide_le_eq)
  from double_of_le_int [OF this] have "double_of (of_nat ok / of_nat (ok + fail)) * 100 \<le> of_int 100" by simp
  from double_of_le_int [OF this] have le: "double_of (double_of (of_nat ok / of_nat (ok + fail)) * 100) \<le> 100" by simp
  then show "success_percent ok (ok + fail) \<le> 100" unfolding success_percent_def js_round_def by linarith
  show "0 \<le> success_percent ok (ok + fail)"
    using double_of_nonneg [of "double_of (of_nat ok / of_nat (ok + fail)) * 100"] unfolding success_percent_def js_round_def by linarith
qed (auto simp: approvalRunsInRange_def Let_def APPROVAL_RUN_CAP_def newest_first_def)

text \<open>A minute that is not quite full is labelled in seconds, and one failure among 200 runs is rounded away.\<close>

lemma labels_round_up: "durationLabel 59999 = ''60.0s''" "durationLabel 60000 = ''1.0m''" "success_percent 199 200 = 100"
  by code_simp+

end
