(* ===== verification/Settings_Api.thy ===== *)
theory Settings_Api
  imports Workbench_Chat
begin

text \<open>
  The settings' clients of the stock routes, \<open>apps/web/src\<close>: principals, roles and grants
  (\<open>settings/tenancy-api.ts\<close>), credentials and providers (\<open>settings/credentials-api.ts\<close>), skills (\<open>skills-api.ts\<close>) and
  the tool grants of a worker's live run (\<open>worker-tool-grants.ts\<close>).

  The response schemas come from \<open>@intx/types\<close>: \<open>rows\<close> says which row a body is, with the fields the code reads.
  \<open>cmp\<close> is \<open>localeCompare\<close>.
\<close>

datatype grant_effect = AllowEffect | AskEffect | DenyEffect

fun effect_text :: "grant_effect \<Rightarrow> string" where
  "effect_text AllowEffect = ''allow''"
| "effect_text AskEffect = ''ask''"
| "effect_text DenyEffect = ''deny''"

record grant =
  gr_id :: string
  gr_resource :: string
  gr_action :: string
  gr_effect :: grant_effect
  gr_principalId :: "string option"
  gr_roleId :: "string option"

record principal_row =
  pr_id :: string
  pr_kind :: string
  pr_refId :: string
  pr_displayName :: string
  pr_status :: string

record named_row =
  nr_id :: string
  nr_name :: string

record row_types =
  rt_principal :: "json \<Rightarrow> principal_row option"
  rt_role :: "json \<Rightarrow> named_row option"
  rt_grant :: "json \<Rightarrow> grant option"
  rt_credential :: "json \<Rightarrow> named_row option"
  rt_provider :: "json \<Rightarrow> named_row option"
  rt_evaluate :: "json \<Rightarrow> bool option"

section \<open>Principals, roles and grants\<close>

definition TAE :: string where "TAE = ''TenancyApiError''"

definition isNotFoundError :: "js_error \<Rightarrow> bool" where
  "isNotFoundError e = (case e of Thrown cls _ s _ \<Rightarrow> cls = TAE \<and> s = Some 404 | _ \<Rightarrow> False)"

definition request_ten :: "'w hub \<Rightarrow> request \<Rightarrow> (json \<Rightarrow> 'a option) \<Rightarrow> ('w, 'a) client" where
  "request_ten hub rq parse = apiRequest hub rq (on_json ''shape'' parse) None TAE True"

definition void_ten :: "'w hub \<Rightarrow> request \<Rightarrow> ('w, unit) client" where
  "void_ten hub rq = requestVoid hub rq None TAE True"

definition tenant_base :: "string \<Rightarrow> string \<Rightarrow> string" where
  "tenant_base t rest = ''/api/tenants/'' @ t @ rest"

definition page_rows :: "('w, 'a list \<times> string option) client \<Rightarrow> ('w, 'a list) client" where
  "page_rows m = bindE m (\<lambda>(rows, _). returnE rows)"

definition listPrincipals :: "'w hub \<Rightarrow> row_types \<Rightarrow> string \<Rightarrow> ('w, principal_row list) client" where
  "listPrincipals hub ty t = page_rows (request_ten hub (get (tenant_base t ''/principals'')) (parse_page (rt_principal ty)))"

definition updatePrincipalStatus :: "'w hub \<Rightarrow> row_types \<Rightarrow> string \<Rightarrow> string \<Rightarrow> string \<Rightarrow> ('w, principal_row) client" where
  "updatePrincipalStatus hub ty t p status =
     request_ten hub (patch (tenant_base t (''/principals/'' @ p)) (JObj [(''status'', JStr status)])) (rt_principal ty)"

definition removePrincipal :: "'w hub \<Rightarrow> string \<Rightarrow> string \<Rightarrow> ('w, unit) client" where
  "removePrincipal hub t p = void_ten hub (del (tenant_base t (''/principals/'' @ p)))"

definition inviteMember :: "'w hub \<Rightarrow> row_types \<Rightarrow> string \<Rightarrow> json \<Rightarrow> ('w, principal_row) client" where
  "inviteMember hub ty t input = request_ten hub (post (tenant_base t ''/members/invite'') input) (rt_principal ty)"

definition listRoles :: "'w hub \<Rightarrow> row_types \<Rightarrow> string \<Rightarrow> ('w, named_row list) client" where
  "listRoles hub ty t = page_rows (request_ten hub (get (tenant_base t ''/roles'')) (parse_page (rt_role ty)))"

definition named_json :: "string option \<Rightarrow> string option \<Rightarrow> json" where
  "named_json name description = JObj (opt_json ''name'' JStr name @ opt_json ''description'' JStr description)"

definition createRole :: "'w hub \<Rightarrow> row_types \<Rightarrow> string \<Rightarrow> string \<Rightarrow> string option \<Rightarrow> ('w, named_row) client" where
  "createRole hub ty t name description = request_ten hub (post (tenant_base t ''/roles'') (named_json (Some name) description)) (rt_role ty)"

definition renameRole :: "'w hub \<Rightarrow> row_types \<Rightarrow> string \<Rightarrow> string \<Rightarrow> string option \<Rightarrow> string option \<Rightarrow> ('w, named_row) client" where
  "renameRole hub ty t r name description =
     request_ten hub (patch (tenant_base t (''/roles/'' @ r)) (named_json name description)) (rt_role ty)"

definition deleteRole :: "'w hub \<Rightarrow> string \<Rightarrow> string \<Rightarrow> ('w, unit) client" where
  "deleteRole hub t r = void_ten hub (del (tenant_base t (''/roles/'' @ r)))"

definition assignment_path :: "string \<Rightarrow> string \<Rightarrow> string \<Rightarrow> string" where
  "assignment_path t p r = tenant_base t (''/principals/'' @ p @ ''/roles/'' @ r)"

definition assignRole :: "'w hub \<Rightarrow> string \<Rightarrow> string \<Rightarrow> string \<Rightarrow> ('w, unit) client" where
  "assignRole hub t p r = void_ten hub \<lparr>rq_method = POST, rq_path = assignment_path t p r, rq_body = None\<rparr>"

definition unassignRole :: "'w hub \<Rightarrow> string \<Rightarrow> string \<Rightarrow> string \<Rightarrow> ('w, unit) client" where
  "unassignRole hub t p r = void_ten hub (del (assignment_path t p r))"

record grant_filters =
  gf_principalId :: "string option"
  gf_roleId :: "string option"
  gf_resource :: "string option"
  gf_effect :: "grant_effect option"

text \<open>
  \<open>URLSearchParams.toString\<close>: a space is a plus, and besides letters and digits only four characters stay as they are.
\<close>

definition form_char :: "char \<Rightarrow> string" where
  "form_char c =
     (if c = CHR '' '' then ''+'' else if is_alnum c \<or> c \<in> set ''*-._'' then [c] else concat (map percent (utf8 c)))"

definition form_encode :: "string \<Rightarrow> string" where
  "form_encode s = concat (map form_char s)"

definition grant_params :: "grant_filters \<Rightarrow> (string \<times> string) list" where
  "grant_params f =
     List.map_filter (\<lambda>(k, v). map_option (Pair k) v)
       [(''principalId'', gf_principalId f), (''roleId'', gf_roleId f), (''resource'', gf_resource f),
        (''effect'', map_option effect_text (gf_effect f))]"

definition grantQuery :: "grant_filters \<Rightarrow> string" where
  "grantQuery f =
     (let query = join ''&'' (map (\<lambda>(k, v). form_encode k @ ''='' @ form_encode v) (grant_params f)) in
      if query = [] then [] else CHR ''?'' # query)"

definition no_filter :: grant_filters where
  "no_filter = \<lparr>gf_principalId = None, gf_roleId = None, gf_resource = None, gf_effect = None\<rparr>"

definition listGrants :: "'w hub \<Rightarrow> row_types \<Rightarrow> string \<Rightarrow> grant_filters \<Rightarrow> ('w, grant list) client" where
  "listGrants hub ty t f = page_rows (request_ten hub (get (tenant_base t (''/grants'' @ grantQuery f))) (parse_page (rt_grant ty)))"

record new_grant =
  ng_roleId :: "string option"
  ng_principalId :: "string option"
  ng_resource :: string
  ng_action :: string
  ng_effect :: grant_effect
  ng_origin :: string
  ng_expiresAt :: "string option"

definition new_grant_json :: "new_grant \<Rightarrow> json" where
  "new_grant_json g = JObj (opt_json ''roleId'' JStr (ng_roleId g) @ opt_json ''principalId'' JStr (ng_principalId g) @
     [(''resource'', JStr (ng_resource g)), (''action'', JStr (ng_action g)), (''effect'', JStr (effect_text (ng_effect g))),
      (''origin'', JStr (ng_origin g))] @ opt_json ''expiresAt'' JStr (ng_expiresAt g))"

definition createGrant :: "'w hub \<Rightarrow> row_types \<Rightarrow> string \<Rightarrow> new_grant \<Rightarrow> ('w, grant) client" where
  "createGrant hub ty t g = request_ten hub (post (tenant_base t ''/grants'') (new_grant_json g)) (rt_grant ty)"

definition updateGrant :: "'w hub \<Rightarrow> row_types \<Rightarrow> string \<Rightarrow> string \<Rightarrow> grant_effect \<Rightarrow> ('w, grant) client" where
  "updateGrant hub ty t g e =
     request_ten hub (patch (tenant_base t (''/grants/'' @ g)) (JObj [(''effect'', JStr (effect_text e))])) (rt_grant ty)"

definition revokeGrant :: "'w hub \<Rightarrow> string \<Rightarrow> string \<Rightarrow> ('w, unit) client" where
  "revokeGrant hub t g = void_ten hub (del (tenant_base t (''/grants/'' @ g)))"

definition evaluate_grant :: "'w hub \<Rightarrow> row_types \<Rightarrow> string \<Rightarrow> string \<Rightarrow> string \<Rightarrow> string \<Rightarrow> ('w, bool) client" where
  "evaluate_grant hub ty t p resource action =
     request_ten hub (post (tenant_base t (''/principals/'' @ p @ ''/evaluate''))
       (JObj [(''resource'', JStr resource), (''action'', JStr action)])) (rt_evaluate ty)"

section \<open>Credentials and skills\<close>

definition CRE :: string where "CRE = ''CredentialsApiError''"

definition request_cred :: "'w hub \<Rightarrow> request \<Rightarrow> (json \<Rightarrow> 'a option) \<Rightarrow> string \<Rightarrow> ('w, 'a) client" where
  "request_cred hub rq parse verb = apiRequest hub rq (on_json ''shape'' parse) (Some verb) CRE False"

definition listSettingsCredentials :: "'w hub \<Rightarrow> row_types \<Rightarrow> string \<Rightarrow> ('w, named_row list) client" where
  "listSettingsCredentials hub ty t =
     page_rows (request_cred hub (get (tenant_base t ''/credentials'')) (parse_page (rt_credential ty)) ''loading credentials'')"

definition listSettingsProviders :: "'w hub \<Rightarrow> row_types \<Rightarrow> string \<Rightarrow> ('w, named_row list) client" where
  "listSettingsProviders hub ty t =
     page_rows (request_cred hub (get (tenant_base t ''/providers'')) (parse_page (rt_provider ty)) ''loading providers'')"

definition createProvider :: "'w hub \<Rightarrow> row_types \<Rightarrow> string \<Rightarrow> string \<Rightarrow> ('w, named_row) client" where
  "createProvider hub ty t name =
     request_cred hub (post (tenant_base t ''/providers'') (JObj [(''name'', JStr name), (''plugin'', JStr ''custom'')]))
       (rt_provider ty) ''creating that provider''"

record new_credential =
  nc_providerId :: string
  nc_name :: string
  nc_type :: string
  nc_secret :: string
  nc_description :: "string option"

definition createCredential :: "'w hub \<Rightarrow> row_types \<Rightarrow> string \<Rightarrow> new_credential \<Rightarrow> ('w, named_row) client" where
  "createCredential hub ty t c =
     request_cred hub (post (tenant_base t ''/credentials'')
       (JObj ([(''providerId'', JStr (nc_providerId c)), (''name'', JStr (nc_name c)), (''type'', JStr (nc_type c)),
               (''secret'', JStr (nc_secret c))] @ opt_json ''description'' JStr (nc_description c))))
       (rt_credential ty) ''storing that credential''"

definition deleteSettingsCredential :: "'w hub \<Rightarrow> string \<Rightarrow> string \<Rightarrow> ('w, unit) client" where
  "deleteSettingsCredential hub t c =
     requestVoid hub (del (tenant_base t (''/credentials/'' @ c))) (Some ''revoking that credential'') CRE False"

definition updateCredential :: "'w hub \<Rightarrow> row_types \<Rightarrow> string \<Rightarrow> string \<Rightarrow> string option \<Rightarrow> string option \<Rightarrow> ('w, named_row) client" where
  "updateCredential hub ty t c name description =
     request_cred hub (patch (tenant_base t (''/credentials/'' @ c)) (named_json name description)) (rt_credential ty) ''updating that credential''"

record skill_summary =
  sk_assetId :: string
  sk_name :: string
  sk_displayName :: "string option"
  sk_description :: string
  sk_creatorPrincipalId :: "string option"
  sk_updatedAtIso :: string

definition parse_skill :: "json \<Rightarrow> skill_summary option" where
  "parse_skill j =
     (case (str_field ''id'' j, str_field ''tenantId'' j, str_field ''kind'' j, str_field ''name'' j,
            Option.bind (field ''displayName'' j) as_str_or_null, Option.bind (field ''creatorPrincipalId'' j) as_str_or_null,
            str_field ''createdAt'' j, str_field ''updatedAt'' j) of
        (Some i, Some _, Some _, Some n, Some d, Some c, Some _, Some u) \<Rightarrow>
          Some \<lparr>sk_assetId = i, sk_name = n, sk_displayName = d, sk_description = [], sk_creatorPrincipalId = c, sk_updatedAtIso = u\<rparr>
      | _ \<Rightarrow> None)"

definition AQE :: string where "AQE = ''ApiQueryError''"

definition skills_base :: "string \<Rightarrow> string" where "skills_base t = tenant_base t ''/assets''"

definition matching_skills :: "string \<Rightarrow> skill_summary list \<Rightarrow> skill_summary list" where
  "matching_skills query skills =
     (let needle = to_lower (trim query) in
      if needle = [] then skills else filter (\<lambda>s. contains needle (to_lower (sk_name s))) skills)"

definition listSkills :: "'w hub \<Rightarrow> string \<Rightarrow> string \<Rightarrow> ('w, skill_summary list) client" where
  "listSkills hub t query =
     bindE (apiRequest hub (get (skills_base t @ ''?kind=skill&inherited=false'')) (on_json ''shape'' (array_of parse_skill)) None AQE False)
       (\<lambda>skills. returnE (matching_skills query skills))"

definition loadSkill :: "'w hub \<Rightarrow> string \<Rightarrow> string \<Rightarrow> ('w, skill_summary) client" where
  "loadSkill hub t name =
     bindE (listSkills hub t []) (\<lambda>skills.
     case find (\<lambda>s. sk_name s = name) skills of
       None \<Rightarrow> throwE (error_of AQE (''No skill named '' @ CHR 0x22 # name @ CHR 0x22 # '' in this workbench.'') (Some 404))
     | Some s \<Rightarrow> returnE s)"

definition createSkill :: "'w hub \<Rightarrow> string \<Rightarrow> string \<Rightarrow> string option \<Rightarrow> ('w, skill_summary) client" where
  "createSkill hub t name displayName =
     apiRequest hub (post (skills_base t)
       (JObj ([(''kind'', JStr ''skill''), (''name'', JStr name)] @ opt_json ''displayName'' JStr displayName)))
       (on_json ''shape'' parse_skill) None AQE False"

section \<open>The tool grants of a worker\<close>

definition TOOL_PREFIX :: string where "TOOL_PREFIX = ''tool:''"

definition is_tool_grant :: "grant \<Rightarrow> bool" where
  "is_tool_grant g \<longleftrightarrow> starts_with TOOL_PREFIX (gr_resource g) \<and> gr_action g = ''invoke''"

definition readWorkerToolGrants ::
  "'w hub \<Rightarrow> row_types \<Rightarrow> (string \<Rightarrow> string \<Rightarrow> int) \<Rightarrow> string \<Rightarrow> string option \<Rightarrow> ('w, (string \<times> grant list) option) client" where
  "readWorkerToolGrants hub ty cmp t liveAddress =
     (case liveAddress of
        None \<Rightarrow> returnE None
      | Some a \<Rightarrow>
          bindE (bothE (listTopLevelRuns hub t) (listPrincipals hub ty t)) (\<lambda>(runs, principals).
          let run = map_option rv_id (find (\<lambda>r. rv_address r = a) runs) in
          case find (\<lambda>p. pr_kind p = ''workflow'' \<and> Some (pr_refId p) = run) principals of
            None \<Rightarrow> returnE None
          | Some p \<Rightarrow>
              bindE (listGrants hub ty t (no_filter\<lparr>gf_principalId := Some (pr_id p)\<rparr>)) (\<lambda>grants.
              returnE (Some (pr_id p, js_sort (\<lambda>x y. cmp (gr_resource x) (gr_resource y) \<le> 0) (filter is_tool_grant grants))))))"

fun effect_rank :: "grant_effect \<Rightarrow> nat" where
  "effect_rank AllowEffect = 0"
| "effect_rank AskEffect = 1"
| "effect_rank DenyEffect = 2"

definition hold_stronger :: "grant \<Rightarrow> (string \<times> grant) list \<Rightarrow> (string \<times> grant) list" where
  "hold_stronger g m =
     (case map_of m (gr_resource g) of
        None \<Rightarrow> AList.update (gr_resource g) g m
      | Some held \<Rightarrow> if effect_rank (gr_effect held) < effect_rank (gr_effect g) then AList.update (gr_resource g) g m else m)"

definition effectiveToolGrants :: "grant list \<Rightarrow> grant list" where
  "effectiveToolGrants tools = map snd (fold hold_stronger tools [])"

text \<open>What a redeploy declares again: a resource and allow (\<open>True\<close>) or deny.\<close>

definition toolEffectsToCarry :: "grant list \<Rightarrow> (string \<times> bool) list" where
  "toolEffectsToCarry tools =
     List.map_filter (\<lambda>g. if gr_effect g = AskEffect then None else Some (gr_resource g, gr_effect g = AllowEffect)) (effectiveToolGrants tools)"

section \<open>The strongest effect wins\<close>

definition strongest :: "grant list \<Rightarrow> string \<Rightarrow> grant_effect option" where
  "strongest tools r =
     (if list_ex (\<lambda>g. gr_resource g = r \<and> gr_effect g = DenyEffect) tools then Some DenyEffect
      else if list_ex (\<lambda>g. gr_resource g = r \<and> gr_effect g = AskEffect) tools then Some AskEffect
      else if list_ex (\<lambda>g. gr_resource g = r) tools then Some AllowEffect else None)"

definition held_ok :: "grant list \<Rightarrow> (string \<times> grant) list \<Rightarrow> bool" where
  "held_ok tools m \<longleftrightarrow> distinct (map fst m) \<and> list_all (\<lambda>(r, g). gr_resource g = r) m \<and>
     (\<forall>r. map_option gr_effect (map_of m r) = strongest tools r)"

lemma strongest_snoc:
  "strongest (tools @ [g]) r =
     (if gr_resource g \<noteq> r then strongest tools r
      else (case strongest tools r of
              None \<Rightarrow> Some (gr_effect g)
            | Some e \<Rightarrow> if effect_rank e < effect_rank (gr_effect g) then Some (gr_effect g) else Some e))"
  by (cases "gr_effect g") (simp_all add: strongest_def list_ex_append)

lemma update_resources:
  "list_all (\<lambda>(r, g). gr_resource g = r) m \<Longrightarrow> gr_resource g = r \<Longrightarrow> list_all (\<lambda>(r, g). gr_resource g = r) (AList.update r g m)"
  by (induction m) auto

lemma hold_stronger_ok: "held_ok tools m \<Longrightarrow> held_ok (tools @ [g]) (hold_stronger g m)"
proof -
  assume m: "held_ok tools m"
  then have eff: "map_option gr_effect (map_of m r) = strongest tools r" for r by (simp add: held_ok_def)
  have "map_option gr_effect (map_of (hold_stronger g m) r) = strongest (tools @ [g]) r" for r
    using eff [of r, symmetric] by (auto simp: hold_stronger_def strongest_snoc split: option.splits)
  moreover have "distinct (map fst (hold_stronger g m))" using m by (auto simp: held_ok_def hold_stronger_def distinct_update split: option.splits)
  moreover have "list_all (\<lambda>(r, g). gr_resource g = r) (hold_stronger g m)"
    using m update_resources by (auto simp: held_ok_def hold_stronger_def split: option.splits)
  ultimately show ?thesis by (simp add: held_ok_def)
qed

lemma held_fold: "held_ok tools (fold hold_stronger tools [])"
proof (induction tools rule: rev_induct)
  case Nil
  then show ?case by (simp add: held_ok_def strongest_def)
next
  case (snoc g tools)
  then show ?case using hold_stronger_ok by simp
qed

definition carried :: "grant \<Rightarrow> (string \<times> bool) option" where
  "carried g = (if gr_effect g = AskEffect then None else Some (gr_resource g, gr_effect g = AllowEffect))"

lemma carried_keyed:
  "distinct (map fst m) \<Longrightarrow> list_all (\<lambda>(r, g). gr_resource g = r) m \<Longrightarrow>
   distinct (map fst (List.map_filter carried (map snd m))) \<and> fst ` set (List.map_filter carried (map snd m)) \<subseteq> fst ` set m \<and>
   map_of (List.map_filter carried (map snd m)) r =
     (case map_of m r of None \<Rightarrow> None | Some g \<Rightarrow> if gr_effect g = AskEffect then None else Some (gr_effect g = AllowEffect))"
proof (induction m)
  case Nil
  then show ?case by (simp add: map_filter_simps)
next
  case (Cons p m)
  obtain k g where p: "p = (k, g)" by (cases p)
  from Cons.prems p have k: "gr_resource g = k" "k \<notin> fst ` set m" by auto
  have m: "distinct (map fst m)" "list_all (\<lambda>(r, g). gr_resource g = r) m" using Cons.prems by simp_all
  from Cons.IH [OF m] k(2) have new: "k \<notin> fst ` set (List.map_filter carried (map snd m))" "map_of m k = None"
    by (auto simp: map_of_eq_None_iff)
  show ?case
  proof (cases "gr_effect g = AskEffect")
    case True
    with Cons.IH [OF m] p k new show ?thesis by (auto simp: map_filter_simps carried_def)
  next
    case False
    with Cons.IH [OF m] p k new show ?thesis by (auto simp: map_filter_simps carried_def)
  qed
qed

text \<open>
  Also shown. What a redeploy declares again is the effect that wins at runtime: each tool resource is declared at most once, and
  it is declared with deny when any grant of it denies, with allow when all of them allow, and not at all when one asks and
  none denies.
\<close>

theorem carried_effects_win:
  "distinct (map fst (toolEffectsToCarry tools)) \<and>
   map_of (toolEffectsToCarry tools) r =
     (if list_ex (\<lambda>g. gr_resource g = r \<and> gr_effect g = DenyEffect) tools then Some False
      else if list_ex (\<lambda>g. gr_resource g = r \<and> gr_effect g = AskEffect) tools then None
      else if list_ex (\<lambda>g. gr_resource g = r) tools then Some True else None)"
proof -
  let ?m = "fold hold_stronger tools []"
  have "held_ok tools ?m" by (rule held_fold)
  then have m: "distinct (map fst ?m)" "list_all (\<lambda>(r, g). gr_resource g = r) ?m" "map_option gr_effect (map_of ?m r) = strongest tools r"
    by (simp_all add: held_ok_def)
  have carry: "toolEffectsToCarry tools = List.map_filter carried (map snd ?m)"
    by (simp only: toolEffectsToCarry_def effectiveToolGrants_def carried_def [abs_def])
  have "map_of (toolEffectsToCarry tools) r =
      (case map_of ?m r of None \<Rightarrow> None | Some g \<Rightarrow> if gr_effect g = AskEffect then None else Some (gr_effect g = AllowEffect))"
    unfolding carry using carried_keyed [OF m(1,2)] by blast
  also have "\<dots> = (case strongest tools r of None \<Rightarrow> None | Some e \<Rightarrow> if e = AskEffect then None else Some (e = AllowEffect))"
    unfolding m(3) [symmetric] by (cases "map_of ?m r") simp_all
  also have "\<dots> = (if list_ex (\<lambda>g. gr_resource g = r \<and> gr_effect g = DenyEffect) tools then Some False
      else if list_ex (\<lambda>g. gr_resource g = r \<and> gr_effect g = AskEffect) tools then None
      else if list_ex (\<lambda>g. gr_resource g = r) tools then Some True else None)" by (simp add: strongest_def)
  finally show ?thesis unfolding carry using carried_keyed [OF m(1,2)] by blast
qed

end
