(* ===== verification/Agent_Deploy.thy ===== *)
theory Agent_Deploy
  imports Install Agent_Roles Worker_Definition App_Paths Workbench_Chat Inference_Api
begin

text \<open>
  Deploying an agent, \<open>apps/web/src\<close>: the source tree of a worker (\<open>workflow-source.ts\<close>, \<open>worker-deploy.ts\<close>), the deploy
  of a created agent with its checks, its schedule and its roles (\<open>agent-deploy.ts\<close>), the offering it runs on
  (\<open>resolveExistingOffering\<close> of \<open>onboarding/provider-connect-step.tsx\<close>), reading a source back (\<open>agent-source-read.ts\<close>)
  and moving to another offering (\<open>agent-model-redeploy.ts\<close>, \<open>settings/worker-model-redeploy.ts\<close>).

  \<open>deploy_env\<close> holds what comes from elsewhere: the environment of an install, the schemas, the bundles the build
  generates, \<open>JSON.stringify\<close> and \<open>JSON.parse\<close> at the types used here, and the git fetch of a file.
\<close>

record catalog_offering =
  co_offeringId :: string
  co_plugin :: string
  co_priority :: int

record catalog_model =
  cm_canonicalName :: string
  cm_offerings :: "catalog_offering list"

record agent_source_json =
  as_systemPrompt :: string
  as_sources :: "(string \<times> string) list"
  as_toolPackagePins :: "(string \<times> string) list option"

record workflow_json =
  wj_credentialBindings :: "(string \<times> string) list option"
  wj_steps :: "agent_source_json list"

record 'w deploy_env =
  de_install :: "'w install_env"
  de_types :: types
  de_mcp :: mcp_ext
  de_model :: "json \<Rightarrow> catalog_model"
  de_nfkd :: "string \<Rightarrow> string"
  de_bundle :: string
  de_directors :: string
  de_buildExport :: string
  de_toolNames :: "string + worker_tool_names"
  de_workerPrompt :: string
  de_pretty :: "json \<Rightarrow> string"
  de_inputText :: "worker_input \<Rightarrow> string"
  de_definitionText :: "unit workflow_def \<Rightarrow> string"
  de_parse :: "string \<Rightarrow> json option"
  de_workflow :: "json \<Rightarrow> workflow_json option"
  de_readFile :: "string \<Rightarrow> string \<Rightarrow> string \<Rightarrow> ('w, string) client"
  de_jsonMessage :: string

section \<open>The source tree\<close>

definition WORKFLOW_SOURCE_DEFINITION_PATH :: string where "WORKFLOW_SOURCE_DEFINITION_PATH = ''definition.json''"

definition manifestFor :: "'w deploy_env \<Rightarrow> string \<Rightarrow> string" where
  "manifestFor env packageName =
     de_pretty env (JObj [(''name'', JStr packageName), (''version'', JStr ''0.0.0''), (''private'', JBool True), (''type'', JStr ''module''),
       (''interchange'', JObj [(''workflow'', JStr ''./workflow.js''), (''directors'', JStr ''./directors.js'')])]) @ [CHR 0x0A]"

definition renderBundledWorkflowSourceTree :: "'w deploy_env \<Rightarrow> string \<Rightarrow> worker_input \<Rightarrow> string \<Rightarrow> tree" where
  "renderBundledWorkflowSourceTree env packageName input workflowJson =
     (let call = de_buildExport env @ ''('' @ de_inputText env input @ '')'' in
      [(''package.json'', manifestFor env packageName),
       (''workflow.js'', de_bundle env @ CHR 0x0A # ''export default '' @ call @ CHR '';'' # [CHR 0x0A]),
       (''directors.js'', de_directors env),
       (WORKFLOW_SOURCE_DEFINITION_PATH, workflowJson @ [CHR 0x0A])])"

definition renderWorkerSourceTree ::
  "'w deploy_env \<Rightarrow> string \<Rightarrow> worker_input \<Rightarrow> tool_effect list \<Rightarrow> ('w, tree) client" where
  "renderWorkerSourceTree env packageName input effects =
     (case de_toolNames env of
        Inl summary \<Rightarrow> throwE (error_of ''Error'' (''the worker's tool names are malformed: '' @ summary) None)
      | Inr names \<Rightarrow>
          returnE (renderBundledWorkflowSourceTree env packageName input (de_definitionText env (buildWorkerDefinitionJson input names effects))))"

text \<open>The definition beside the entry, when it is JSON at all.\<close>

definition parseWorkflowSourceDefinition :: "'w deploy_env \<Rightarrow> string \<Rightarrow> string \<Rightarrow> ('w, string) client" where
  "parseWorkflowSourceDefinition env definitionJson assetId =
     (let trimmed = trim definitionJson in
      case de_parse env trimmed of
        None \<Rightarrow> throwE (error_of ''RetiredWorkflowEnvelopeError''
          (''Asset '' @ CHR 0x22 # assetId @ CHR 0x22 # '' carries no definition.json beside its workflow.js source entry. '' @
           ''Re-author and re-deploy the definition to write its source tree; nothing can read or edit it until then.'') None)
      | Some _ \<Rightarrow> returnE trimmed)"

section \<open>The offering\<close>

record existing_offering =
  eo_sourceOfferingIds :: "string list"
  eo_defaultSourceOfferingId :: string
  eo_declaredSources :: "(string \<times> string) list"

definition offerings_of :: "catalog_model list \<Rightarrow> (catalog_offering \<times> string) list" where
  "offerings_of models =
     js_sort (\<lambda>a b. co_priority (fst a) - co_priority (fst b) \<le> 0)
       (concat (map (\<lambda>m. map (\<lambda>off. (off, cm_canonicalName m)) (cm_offerings m)) models))"

definition offering_of :: "catalog_model list \<Rightarrow> existing_offering option" where
  "offering_of models =
     (case offerings_of models of
        [] \<Rightarrow> None
      | (first, _) # _ \<Rightarrow>
          Some \<lparr>eo_sourceOfferingIds = map (co_offeringId \<circ> fst) (offerings_of models), eo_defaultSourceOfferingId = co_offeringId first,
            eo_declaredSources = map (\<lambda>(off, m). (co_plugin off, m)) (offerings_of models)\<rparr>)"

definition resolveExistingOffering :: "'w hub \<Rightarrow> 'w deploy_env \<Rightarrow> string \<Rightarrow> ('w, existing_offering option) client" where
  "resolveExistingOffering hub env t =
     bindE (getResolvedCatalog hub (de_types env) t) (\<lambda>rows. returnE (offering_of (map (de_model env) rows)))"

definition inference_sources :: "(string \<times> string) list \<Rightarrow> inference_source list" where
  "inference_sources = map (\<lambda>(p, m). \<lparr>is_provider = p, is_model = m, is_parameters = None\<rparr>)"

section \<open>The default worker\<close>

record worker_args =
  wa_tenantId :: string
  wa_tenantDomain :: string
  wa_offering :: existing_offering
  wa_redeploy :: bool

definition worker_packageName :: string where "worker_packageName = ''@workbench/worker''"
definition worker_entryPath :: string where "worker_entryPath = ''./workflow.js''"

definition deployWorkerSource :: "'w hub \<Rightarrow> 'w deploy_env \<Rightarrow> worker_args \<Rightarrow> ('w, installed) pclient" where
  "deployWorkerSource hub env a =
     (let t = wa_tenantId a; off = wa_offering a in
      bindP (liftP (ensureBuiltInMcpServers hub (de_mcp env) t)) (\<lambda>servers.
      installPackage hub (de_install env)
        \<lparr>ia_tenantId = t, ia_assetName = worker_assetName, ia_displayName = worker_displayName,
         ia_files = (\<lambda>assetId.
           bindE (ensureAgentHubCredential hub (de_install env) t WORKER_WORKFLOW_ID assetId) (\<lambda>cid.
           renderWorkerSourceTree env worker_packageName
             \<lparr>wi_workflowId = WORKER_WORKFLOW_ID, wi_triggerAddress = ''worker@'' @ wa_tenantDomain a,
              wi_inferencePreferences = inference_sources (eo_declaredSources off), wi_systemPrompt = de_workerPrompt env,
              wi_hubCredentialId = cid, wi_mcpServers = map toMcpServerDeployment servers\<rparr> [])),
         ia_entry = worker_entryPath, ia_sourceOfferingIds = eo_sourceOfferingIds off,
         ia_defaultSourceOfferingId = eo_defaultSourceOfferingId off, ia_redeploy = wa_redeploy a\<rparr>))"

section \<open>A created agent\<close>

record new_agent =
  na_name :: string
  na_systemPrompt :: string
  na_slug :: "string option"
  na_mcpHandles :: "string list"
  na_schedule :: "string option"
  na_toolEffects :: "tool_effect list"
  na_roles :: "string list"
  na_redeploy :: bool

definition deploy_error :: "string \<Rightarrow> js_error" where
  "deploy_error m = error_of ''AgentDeployError'' m None"

text \<open>\<open>cause.message\<close>.\<close>

definition message_of :: "'w deploy_env \<Rightarrow> js_error \<Rightarrow> string" where
  "message_of env e = (case e of FetchError m \<Rightarrow> m | BadJson \<Rightarrow> de_jsonMessage env | Thrown _ m _ _ \<Rightarrow> m)"

definition wrapP :: "(js_error \<Rightarrow> js_error) \<Rightarrow> ('w, 'a) pclient \<Rightarrow> ('w, 'a) pclient" where
  "wrapP f m n = (case m n of Some (Inl e, n') \<Rightarrow> Some (Inl (f e), n') | r \<Rightarrow> r)"

fun resolveMcpServerDeployments :: "mcp_server list \<Rightarrow> string list \<Rightarrow> js_error + mcp_deployment list" where
  "resolveMcpServerDeployments catalog [] = Inr []"
| "resolveMcpServerDeployments catalog (h # hs) =
     (case find (\<lambda>s. ms_handle s = h) catalog of
        None \<Rightarrow> Inl (deploy_error (''the '' @ h @ '' server is not in this workspace's catalog''))
      | Some s \<Rightarrow>
          (case resolveMcpServerDeployments catalog hs of Inl e \<Rightarrow> Inl e | Inr ds \<Rightarrow> Inr (toMcpServerDeployment s # ds)))"

definition cronPath :: "string \<Rightarrow> string" where
  "cronPath t = tenantPath t ''/cron''"

definition buildScheduledRunBody :: "string option \<Rightarrow> string" where
  "buildScheduledRunBody deployer =
     (let task = ''Do the work your definition describes.'' in
      case deployer of
        None \<Rightarrow> ''This is your scheduled run. '' @ task @ '' Reply with the result.''
      | Some a \<Rightarrow> ''This is your scheduled run. '' @ task @ '' Mail the result to '' @ a @
          '' (pass it as a single-item `to` list) with a short, descriptive subject.'')"

text \<open>A session that cannot be read names nobody.\<close>

definition resolveDeployerAddress :: "'w hub \<Rightarrow> string \<Rightarrow> ('w, string option) client" where
  "resolveDeployerAddress hub domain =
     bindE (fetch_raw hub (get ''/api/auth/get-session'')) (\<lambda>a.
     returnE (case a of
        Inl _ \<Rightarrow> None
      | Inr r \<Rightarrow>
          if \<not> resp_ok r then None
          else map_option (\<lambda>i. personMailAddress i domain)
                 (Option.bind (Option.bind (rs_body r) (field ''user'')) (str_field ''id''))))"

definition cron_request :: "string \<Rightarrow> string \<Rightarrow> string \<Rightarrow> string option \<Rightarrow> request" where
  "cron_request t expression definitionName deployer =
     post (cronPath t) (JObj [(''expression'', JStr expression), (''definitionName'', JStr definitionName),
       (''subject'', JStr ''Scheduled run''), (''body'', JStr (buildScheduledRunBody deployer))])"

definition scheduleAgentRun :: "'w hub \<Rightarrow> string \<Rightarrow> string \<Rightarrow> string \<Rightarrow> string \<Rightarrow> ('w, unit) client" where
  "scheduleAgentRun hub t expression definitionName domain =
     bindE (resolveDeployerAddress hub domain) (\<lambda>deployer.
     bindE (fetchE hub (cron_request t expression definitionName deployer)) (\<lambda>created.
     if \<not> resp_ok created then throwE (deploy_error (''scheduling this agent failed: '' @ git_token_error_body created))
     else returnE ()))"

text \<open>What the checks before the install find out.\<close>

record deploy_plan =
  dp_slug :: string
  dp_name :: string
  dp_prompt :: string
  dp_roleIds :: "string list"
  dp_domain :: string
  dp_offering :: existing_offering
  dp_servers :: "mcp_deployment list"

definition read_domain :: "'w hub \<Rightarrow> 'w deploy_env \<Rightarrow> (string \<Rightarrow> js_error) \<Rightarrow> string \<Rightarrow> ('w, string) client" where
  "read_domain hub env err t =
     bindE (fetchE hub (get (tenantPath t []))) (\<lambda>r.
     if \<not> resp_ok r then throwE (err (''resolving this workbench's domain failed: '' @ git_token_error_body r))
     else bindE (json_body r) (\<lambda>j. case str_field ''domain'' j of
            None \<Rightarrow> throwE (err (''this workbench came back an unexpected shape: '' @ ie_summary (de_install env) j))
          | Some d \<Rightarrow> returnE d))"

definition requested_servers :: "'w hub \<Rightarrow> 'w deploy_env \<Rightarrow> string \<Rightarrow> string list \<Rightarrow> ('w, mcp_deployment list) client" where
  "requested_servers hub env t handles =
     (if handles = [] then returnE []
      else bindE (resolveWorkspaceTenantId hub t) (\<lambda>ws.
           bindE (listMcpServers hub (de_mcp env) ws) (\<lambda>catalog.
           case resolveMcpServerDeployments catalog handles of Inl e \<Rightarrow> throwE e | Inr ds \<Rightarrow> returnE ds)))"

definition check_input :: "'w deploy_env \<Rightarrow> new_agent \<Rightarrow> js_error + string" where
  "check_input env input =
     (let slug = (case na_slug input of Some s \<Rightarrow> s | None \<Rightarrow> slugify (de_nfkd env) (trim (na_name input))) in
      if trim (na_name input) = [] then Inl (deploy_error ''an agent needs a name'')
      else if trim (na_systemPrompt input) = [] then Inl (deploy_error ''an agent needs a system prompt'')
      else if \<not> isValidSlug slug then Inl (deploy_error ''this name doesn't produce a usable agent address'')
      else Inr slug)"

definition prepare_deploy :: "'w hub \<Rightarrow> 'w deploy_env \<Rightarrow> string \<Rightarrow> new_agent \<Rightarrow> ('w, deploy_plan) pclient" where
  "prepare_deploy hub env t input =
     (case check_input env input of
        Inl e \<Rightarrow> liftP (throwE e)
      | Inr slug \<Rightarrow>
          bindP (wrapP (\<lambda>e. deploy_error (message_of env e)) (resolveAgentRoleIds hub t (na_roles input))) (\<lambda>roleIds.
          bindP (liftP (read_domain hub env deploy_error t)) (\<lambda>domain.
          bindP (liftP (resolveExistingOffering hub env t)) (\<lambda>offering.
          case offering of
            None \<Rightarrow> liftP (throwE (deploy_error ''connect a model provider in Settings before deploying an agent''))
          | Some off \<Rightarrow>
              bindP (liftP (requested_servers hub env t (na_mcpHandles input))) (\<lambda>servers.
              liftP (returnE \<lparr>dp_slug = slug, dp_name = trim (na_name input), dp_prompt = trim (na_systemPrompt input),
                dp_roleIds = roleIds, dp_domain = domain, dp_offering = off, dp_servers = servers\<rparr>))))))"

definition agent_trigger :: "deploy_plan \<Rightarrow> string" where
  "agent_trigger p = dp_slug p @ ''@'' @ dp_domain p"

definition agent_install :: "'w hub \<Rightarrow> 'w deploy_env \<Rightarrow> string \<Rightarrow> new_agent \<Rightarrow> deploy_plan \<Rightarrow> 'w install_args" where
  "agent_install hub env t input p =
     \<lparr>ia_tenantId = t, ia_assetName = agentDeploySourceAssetName (dp_slug p), ia_displayName = dp_name p,
      ia_files = (\<lambda>assetId.
        bindE (ensureAgentHubCredential hub (de_install env) t (dp_slug p) assetId) (\<lambda>cid.
        renderWorkerSourceTree env (''@workbench-agent/'' @ dp_slug p)
          \<lparr>wi_workflowId = dp_slug p, wi_triggerAddress = agent_trigger p,
           wi_inferencePreferences = inference_sources (eo_declaredSources (dp_offering p)), wi_systemPrompt = dp_prompt p,
           wi_hubCredentialId = cid, wi_mcpServers = dp_servers p\<rparr> (na_toolEffects input))),
      ia_entry = ''./workflow.js'', ia_sourceOfferingIds = eo_sourceOfferingIds (dp_offering p),
      ia_defaultSourceOfferingId = eo_defaultSourceOfferingId (dp_offering p), ia_redeploy = na_redeploy input\<rparr>"

definition finish_deploy :: "'w hub \<Rightarrow> 'w deploy_env \<Rightarrow> string \<Rightarrow> new_agent \<Rightarrow> deploy_plan \<Rightarrow> installed \<Rightarrow> ('w, installed) pclient" where
  "finish_deploy hub env t input p inst =
     bindP (case na_schedule input of
              None \<Rightarrow> liftP (returnE ())
            | Some e \<Rightarrow> liftP (scheduleAgentRun hub t e (agentDeploySourceAssetName (dp_slug p)) (dp_domain p))) (\<lambda>_.
     bindP (if dp_roleIds p = [] then liftP (returnE ())
            else wrapP (\<lambda>e. deploy_error (message_of env e))
                   (assignRolesToAgent hub t (dp_roleIds p) \<lparr>pf_deploymentId = in_deploymentId inst, pf_address = Some (agent_trigger p)\<rparr>)) (\<lambda>_.
     liftP (returnE inst)))"

definition deployAgentSource :: "'w hub \<Rightarrow> 'w deploy_env \<Rightarrow> string \<Rightarrow> new_agent \<Rightarrow> ('w, installed) pclient" where
  "deployAgentSource hub env t input =
     bindP (prepare_deploy hub env t input) (\<lambda>p.
     bindP (installPackage hub (de_install env) (agent_install hub env t input p)) (\<lambda>inst.
     finish_deploy hub env t input p inst))"

section \<open>Reading a source back\<close>

definition source_error :: "string \<Rightarrow> js_error" where
  "source_error m = error_of ''AgentSourceReadError'' m None"

definition no_steps :: js_error where
  "no_steps = source_error ''this agent's source has no steps to read a prompt from''"

definition readAgentWorkflowStep :: "'w hub \<Rightarrow> 'w deploy_env \<Rightarrow> string \<Rightarrow> string \<Rightarrow> string \<Rightarrow> ('w, workflow_json) pclient" where
  "readAgentWorkflowStep hub env t assetId assetName =
     withGitToken hub (de_install env) t assetId [''can_read''] (\<lambda>token. liftP (
       bindE (de_readFile env (ie_origin (de_install env) @ tenantPath t (''/assets/workflow/'' @ assetName @ ''.git'')) token
                WORKFLOW_SOURCE_DEFINITION_PATH) (\<lambda>file.
       bindE (parseWorkflowSourceDefinition env file assetId) (\<lambda>text.
       case de_parse env text of
         None \<Rightarrow> throwE BadJson
       | Some j \<Rightarrow>
           (case de_workflow env j of
              None \<Rightarrow> throwE (source_error (''this agent's source came back an unexpected shape: '' @ ie_summary (de_install env) j))
            | Some w \<Rightarrow> if wj_steps w = [] then throwE no_steps else returnE w)))))"

definition onlyStep :: "workflow_json \<Rightarrow> ('w, agent_source_json) client" where
  "onlyStep w = (case wj_steps w of [] \<Rightarrow> throwE no_steps | s # _ \<Rightarrow> returnE s)"

definition readAgentSource :: "'w hub \<Rightarrow> 'w deploy_env \<Rightarrow> string \<Rightarrow> string \<Rightarrow> string \<Rightarrow> ('w, string \<times> (string \<times> string) list) pclient" where
  "readAgentSource hub env t assetId assetName =
     bindP (readAgentWorkflowStep hub env t assetId assetName) (\<lambda>w.
     liftP (bindE (onlyStep w) (\<lambda>s. returnE (as_systemPrompt s, as_sources s))))"

definition readAgentToolPackagePins :: "'w hub \<Rightarrow> 'w deploy_env \<Rightarrow> string \<Rightarrow> string \<Rightarrow> string \<Rightarrow> ('w, (string \<times> string) list) pclient" where
  "readAgentToolPackagePins hub env t assetId assetName =
     bindP (readAgentWorkflowStep hub env t assetId assetName) (\<lambda>w.
     liftP (bindE (onlyStep w) (\<lambda>s. returnE (case as_toolPackagePins s of None \<Rightarrow> [] | Some ps \<Rightarrow> ps))))"

definition readAgentMcpHandles :: "'w hub \<Rightarrow> 'w deploy_env \<Rightarrow> string \<Rightarrow> string \<Rightarrow> string \<Rightarrow> ('w, string list) pclient" where
  "readAgentMcpHandles hub env t assetId assetName =
     bindP (readAgentWorkflowStep hub env t assetId assetName) (\<lambda>w.
     liftP (returnE (map snd (filter (\<lambda>b. fst b = MCP_TOOLS_PACKAGE) (case wj_credentialBindings w of None \<Rightarrow> [] | Some bs \<Rightarrow> bs)))))"

section \<open>Moving to another offering\<close>

text \<open>\<open>indexOf\<close>.\<close>

fun position_of :: "'a \<Rightarrow> 'a list \<Rightarrow> nat option" where
  "position_of x [] = None"
| "position_of x (y # ys) = (if y = x then Some 0 else map_option Suc (position_of x ys))"

definition swapDeclaredOffering :: "existing_offering \<Rightarrow> string \<Rightarrow> string \<Rightarrow> string \<Rightarrow> string \<Rightarrow> existing_offering option" where
  "swapDeclaredOffering before oldId newId provider canonicalName =
     (case position_of oldId (eo_sourceOfferingIds before) of
        None \<Rightarrow> None
      | Some i \<Rightarrow>
          let swappedIds = map (\<lambda>x. if x = oldId then newId else x) (eo_sourceOfferingIds before);
              swappedSources = map (\<lambda>(position, s). if position = i then (provider, canonicalName) else s) (List.enumerate 0 (eo_declaredSources before));
              firstSeen = (\<lambda>x position. position_of x swappedIds = Some position)
          in Some \<lparr>eo_sourceOfferingIds = map snd (filter (\<lambda>(position, x). firstSeen x position) (List.enumerate 0 swappedIds)),
               eo_defaultSourceOfferingId = (if eo_defaultSourceOfferingId before = oldId then newId else eo_defaultSourceOfferingId before),
               eo_declaredSources = map snd (filter (\<lambda>(position, _). firstSeen (if position < length swappedIds then swappedIds ! position else []) position)
                 (List.enumerate 0 swappedSources))\<rparr>)"

section \<open>Refused before anything is written\<close>

lemma sendsP_wrap [sends_rules]: "sendsP P m \<Longrightarrow> sendsP P (wrapP f m)"
  by (fastforce simp: sendsP_def wrapP_def split: option.splits sum.splits)

lemma sendsP_sum [sends_rules]:
  "(\<And>x. sendsP P (f x)) \<Longrightarrow> (\<And>x. sendsP P (g x)) \<Longrightarrow> sendsP P (case v of Inl x \<Rightarrow> f x | Inr x \<Rightarrow> g x)"
  by (cases v) auto

lemma sends_read_domain [sends_rules]: "sends is_get (read_domain hub env err t)"
  unfolding read_domain_def by (intro sends_rules) simp

lemma sends_resolveExistingOffering [sends_rules]: "sends is_get (resolveExistingOffering hub env t)"
  unfolding resolveExistingOffering_def getResolvedCatalog_def request_inf_def by (intro sends_rules) simp

lemma sends_parent [sends_rules]:
  "sends P m \<Longrightarrow> (\<And>p. sends P (f p)) \<Longrightarrow> sends P k \<Longrightarrow>
   sends P (case field ''parentId'' j of None \<Rightarrow> m | Some JNull \<Rightarrow> m | Some (JStr p) \<Rightarrow> f p | Some _ \<Rightarrow> k)"
  by (simp split: option.split json.split)

lemma sends_resolveWorkspace [sends_rules]: "sends is_get (resolveWorkspaceTenantId hub t)"
  unfolding resolveWorkspaceTenantId_def
  by (intro sends_bind sends_fetchE sends_if sends_throw sends_json sends_parent sends_return) simp

lemma sends_listMcpServers [sends_rules]: "sends is_get (listMcpServers hub x t)"
  unfolding listMcpServers_def listCredentials_def by (intro sends_rules) simp_all

lemma sends_requested_servers [sends_rules]: "sends is_get (requested_servers hub env t handles)"
  unfolding requested_servers_def by (intro sends_rules)

lemma sendsP_prepare: "sendsP is_get (prepare_deploy hub env t input)"
  unfolding prepare_deploy_def by (intro sends_rules)

lemma resolved_handles:
  "resolveMcpServerDeployments catalog hs = Inr ds \<Longrightarrow> map md_handle ds = hs"
  by (induction hs arbitrary: ds) (auto simp: toMcpServerDeployment_def split: option.splits sum.splits dest: find_SomeD)

lemma requested_handles: "requested_servers hub env t hs n = (Inr ds, n') \<Longrightarrow> map md_handle ds = hs"
proof -
  assume run: "requested_servers hub env t hs n = (Inr ds, n')"
  show ?thesis
  proof (cases "hs = []")
    case True
    with run show ?thesis by (simp add: requested_servers_def returnE_def)
  next
    case False
    with run obtain catalog n1 where
      "(case resolveMcpServerDeployments catalog hs of Inl e \<Rightarrow> throwE e | Inr ds \<Rightarrow> returnE ds) n1 = (Inr ds, n')"
      by (auto simp: requested_servers_def bindE_Inr_iff)
    then have "resolveMcpServerDeployments catalog hs = Inr ds"
      by (cases "resolveMcpServerDeployments catalog hs") (simp_all add: throwE_def returnE_def)
    then show ?thesis by (rule resolved_handles)
  qed
qed

lemma role_ids_length: "resolveAgentRoleIds hub t names n = Some (Inr ids, n') \<Longrightarrow> length ids = length (uniq names)"
proof -
  assume run: "resolveAgentRoleIds hub t names n = Some (Inr ids, n')"
  show ?thesis
  proof (cases "uniq names = []")
    case True
    with run show ?thesis by (simp add: resolveAgentRoleIds_def liftP_def returnE_def)
  next
    case False
    with run obtain roles n1 where
      "(case role_ids roles (uniq names) of Inl e \<Rightarrow> throwE e | Inr ids \<Rightarrow> returnE ids) n1 = (Inr ids, n')"
      by (auto simp: resolveAgentRoleIds_def bindP_Inr liftP_Some)
    then have "role_ids roles (uniq names) = Inr ids"
      by (cases "role_ids roles (uniq names)") (simp_all add: throwE_def returnE_def)
    from list_all2_lengthD [OF role_ids_Inr [OF this]] show ?thesis by simp
  qed
qed

lemma check_input_Inr:
  "check_input env input = Inr slug \<Longrightarrow> isValidSlug slug \<and> trim (na_name input) \<noteq> [] \<and> trim (na_systemPrompt input) \<noteq> []"
  by (auto simp: check_input_def Let_def split: if_splits)

lemma wrapP_Inr: "wrapP f m n = Some (Inr x, n') \<longleftrightarrow> m n = Some (Inr x, n')"
  by (auto simp: wrapP_def split: option.splits sum.splits)

definition plan_ok :: "'w deploy_env \<Rightarrow> new_agent \<Rightarrow> deploy_plan \<Rightarrow> bool" where
  "plan_ok env input p \<longleftrightarrow>
     isValidSlug (dp_slug p) \<and> dp_name p = trim (na_name input) \<and> dp_name p \<noteq> [] \<and> dp_prompt p = trim (na_systemPrompt input) \<and>
     dp_prompt p \<noteq> [] \<and> map md_handle (dp_servers p) = na_mcpHandles input \<and> length (dp_roleIds p) = length (uniq (na_roles input)) \<and>
     eo_sourceOfferingIds (dp_offering p) \<noteq> []"

lemma resolved_offering_ne: "resolveExistingOffering hub env t n = (Inr (Some off), n') \<Longrightarrow> eo_sourceOfferingIds off \<noteq> []"
proof -
  assume "resolveExistingOffering hub env t n = (Inr (Some off), n')"
  then obtain models where "offering_of models = Some off"
    by (auto simp: resolveExistingOffering_def bindE_Inr_iff returnE_def)
  then show ?thesis by (cases "offerings_of models") (auto simp: offering_of_def)
qed

lemma prepare_ok:
  assumes "prepare_deploy hub env t input n = Some (Inr p, n')"
  shows "plan_ok env input p"
proof (cases "check_input env input")
  case (Inl e)
  with assms show ?thesis by (simp add: prepare_deploy_def liftP_Some throwE_def)
next
  case (Inr slug)
  note ok = check_input_Inr [OF Inr]
  from assms Inr obtain roleIds domain offering n1 n2 n3 where
    r: "resolveAgentRoleIds hub t (na_roles input) n = Some (Inr roleIds, n1)"
    and o: "resolveExistingOffering hub env t n2 = (Inr offering, n3)"
    and rest: "(case offering of None \<Rightarrow> liftP (throwE (deploy_error ''connect a model provider in Settings before deploying an agent''))
      | Some off \<Rightarrow> bindP (liftP (requested_servers hub env t (na_mcpHandles input))) (\<lambda>servers.
          liftP (returnE \<lparr>dp_slug = slug, dp_name = trim (na_name input), dp_prompt = trim (na_systemPrompt input),
            dp_roleIds = roleIds, dp_domain = domain, dp_offering = off, dp_servers = servers\<rparr>))) n3 = Some (Inr p, n')"
    by (auto simp: prepare_deploy_def bindP_Inr wrapP_Inr liftP_Some)
  show ?thesis
  proof (cases offering)
    case None
    with rest show ?thesis by (simp add: liftP_Some throwE_def)
  next
    case (Some off)
    with rest obtain servers n4 where s: "requested_servers hub env t (na_mcpHandles input) n3 = (Inr servers, n4)"
      and p: "p = \<lparr>dp_slug = slug, dp_name = trim (na_name input), dp_prompt = trim (na_systemPrompt input),
            dp_roleIds = roleIds, dp_domain = domain, dp_offering = off, dp_servers = servers\<rparr>"
      by (auto simp: bindP_Inr liftP_Some returnE_def)
    from o Some have "eo_sourceOfferingIds off \<noteq> []" by (simp add: resolved_offering_ne)
    with ok p requested_handles [OF s] role_ids_length [OF r] show ?thesis by (simp add: plan_ok_def)
  qed
qed

text \<open>
  C8. An agent that cannot be deployed is refused before anything is written: up to the end of the checks only reads are
  sent, and either a check fails and the deploy ends right there with its error, or the plan it goes on with has a usable
  slug, a name and a prompt, every requested server and role, and an offering to run on.
\<close>

theorem deploy_refused_before_writing:
  assumes "deployAgentSource hub env t input n = Some (res, n')"
  shows "\<exists>q n1 tr. prepare_deploy hub env t input n = Some (q, n1) \<and> sent n1 = sent n @ tr \<and> list_all (is_get \<circ> fst) tr \<and>
    (case q of
       Inl e \<Rightarrow> res = Inl e \<and> n' = n1
     | Inr p \<Rightarrow>
         isValidSlug (dp_slug p) \<and> dp_name p = trim (na_name input) \<and> dp_name p \<noteq> [] \<and> dp_prompt p = trim (na_systemPrompt input) \<and>
         dp_prompt p \<noteq> [] \<and> map md_handle (dp_servers p) = na_mcpHandles input \<and>
         length (dp_roleIds p) = length (uniq (na_roles input)) \<and> eo_sourceOfferingIds (dp_offering p) \<noteq> [])"
proof -
  obtain q n1 where q: "prepare_deploy hub env t input n = Some (q, n1)"
    using assms by (cases "prepare_deploy hub env t input n") (auto simp: deployAgentSource_def bindP_def)
  then obtain tr where tr: "sent n1 = sent n @ tr" "list_all (is_get \<circ> fst) tr"
    using sendsP_prepare [of hub env t input] by (fastforce simp: sendsP_def list_all_iff)
  show ?thesis
  proof (cases q)
    case (Inl e)
    with q assms have "res = Inl e \<and> n' = n1" by (simp add: deployAgentSource_def bindP_def)
    with q tr Inl show ?thesis by (intro exI [of _ q] exI [of _ n1] exI [of _ tr]) simp
  next
    case (Inr p)
    with q have plan: "plan_ok env input p" using prepare_ok by blast
    have "case q of Inl e \<Rightarrow> res = Inl e \<and> n' = n1 | Inr p \<Rightarrow>
         isValidSlug (dp_slug p) \<and> dp_name p = trim (na_name input) \<and> dp_name p \<noteq> [] \<and> dp_prompt p = trim (na_systemPrompt input) \<and>
         dp_prompt p \<noteq> [] \<and> map md_handle (dp_servers p) = na_mcpHandles input \<and>
         length (dp_roleIds p) = length (uniq (na_roles input)) \<and> eo_sourceOfferingIds (dp_offering p) \<noteq> []"
      unfolding Inr sum.case using plan unfolding plan_ok_def .
    with q tr show ?thesis by blast
  qed
qed

definition demo_deploy_env :: "response list deploy_env" where
  "demo_deploy_env = \<lparr>de_install = demo_env,
     de_types = \<lparr>refuse = (\<lambda>_ _. None), refuse_base_url = (\<lambda>_. None), read_row = (\<lambda>_ _. None), read_page = (\<lambda>_ _. Inr []),
       read_catalog = (\<lambda>b. case b of Some (JArr xs) \<Rightarrow> Inr xs | _ \<Rightarrow> Inl ''shape'')\<rparr>,
     de_mcp = \<lparr>x_provider_key = ''mcp'', x_no_token = ''none'', x_origin = Some, x_summary = (\<lambda>_. ''?''), x_compare = (\<lambda>_ _. 0)\<rparr>,
     de_model = (\<lambda>_. \<lparr>cm_canonicalName = ''m'', cm_offerings = [\<lparr>co_offeringId = ''o'', co_plugin = ''p'', co_priority = 0\<rparr>]\<rparr>),
     de_nfkd = id, de_bundle = ''b'', de_directors = ''d'', de_buildExport = ''f'', de_toolNames = Inl ''?'', de_workerPrompt = ''w'',
     de_pretty = (\<lambda>_. ''{}''), de_inputText = (\<lambda>_. ''{}''), de_definitionText = (\<lambda>_. ''{}''), de_parse = (\<lambda>_. None),
     de_workflow = (\<lambda>_. None), de_readFile = (\<lambda>_ _ _. returnE ''{}''), de_jsonMessage = ''json''\<rparr>"

definition demo_new_agent :: new_agent where
  "demo_new_agent = \<lparr>na_name = ''Ed'', na_systemPrompt = ''Edit.'', na_slug = Some ''ed'', na_mcpHandles = [], na_schedule = None,
     na_toolEffects = [], na_roles = [], na_redeploy = False\<rparr>"

definition demo_no_provider :: "response list" where
  "demo_no_provider = [\<lparr>rs_status = 200, rs_body = Some (JObj [(''domain'', JStr ''x.y'')])\<rparr>, \<lparr>rs_status = 200, rs_body = Some (JArr [])\<rparr>]"

lemma demo_slug_ok: "isValidSlug ''ed''"
  by (simp add: isValidSlug_def SLUG_MAX_LENGTH_def slug_pattern_def slug_char_def is_ascii_lower_def in_range_def char_code_def)

lemma demo_check_input: "check_input demo_deploy_env demo_new_agent = Inr ''ed''"
  using demo_slug_ok
  by (simp add: check_input_def demo_new_agent_def trim_def trim_start_def trim_end_def is_space_def in_range_def char_code_def)

lemma demo_no_provider_run:
  "\<exists>n'. deployAgentSource scripted demo_deploy_env ''t'' demo_new_agent (script demo_no_provider) =
     Some (Inl (deploy_error ''connect a model provider in Settings before deploying an agent''), n') \<and> length (sent n') = 2"
  unfolding deployAgentSource_def prepare_deploy_def demo_check_input
  by (simp add: resolveAgentRoleIds_def uniq_def demo_new_agent_def
      read_domain_def resolveExistingOffering_def getResolvedCatalog_def request_inf_def apiRequest_def demo_no_provider_def script_def
      demo_deploy_env_def bindP_def wrapP_def liftP_def bindE_def returnE_def throwE_def json_body_def resp_ok_def str_field_def
      offering_of_def offerings_of_def Let_def)

theorem deploy_refused_before_writing_witness:
  "\<exists>e n'. deployAgentSource scripted demo_deploy_env ''t'' demo_new_agent (script demo_no_provider) = Some (Inl e, n') \<and>
     length (sent n') = 2 \<and>
     (\<exists>q n1. prepare_deploy scripted demo_deploy_env ''t'' demo_new_agent (script demo_no_provider) = Some (q, n1) \<and>
        list_all (is_get \<circ> fst) (sent n1))"
proof -
  obtain n' where run: "deployAgentSource scripted demo_deploy_env ''t'' demo_new_agent (script demo_no_provider) =
     Some (Inl (deploy_error ''connect a model provider in Settings before deploying an agent''), n')" "length (sent n') = 2"
    using demo_no_provider_run by blast
  from deploy_refused_before_writing [OF run(1)] obtain q n1 tr where
    "prepare_deploy scripted demo_deploy_env ''t'' demo_new_agent (script demo_no_provider) = Some (q, n1)"
    "sent n1 = sent (script demo_no_provider) @ tr" "list_all (is_get \<circ> fst) tr" by blast
  moreover from this have "list_all (is_get \<circ> fst) (sent n1)" by (simp add: script_def)
  ultimately show ?thesis using run by blast
qed

section \<open>Swapping an offering\<close>

text \<open>The first of the entries of each key, as \<open>firstSeen\<close> keeps them.\<close>

fun first_by :: "('a \<Rightarrow> 'k) \<Rightarrow> 'k set \<Rightarrow> 'a list \<Rightarrow> 'a list" where
  "first_by k seen [] = []"
| "first_by k seen (z # zs) = (if k z \<in> seen then first_by k seen zs else z # first_by k (insert (k z) seen) zs)"

lemma position_of_None: "position_of x xs = None \<longleftrightarrow> x \<notin> set xs"
  by (induction xs) auto

lemma position_of_here: "position_of x (us @ x # vs) = Some (length us) \<longleftrightarrow> x \<notin> set us"
proof (induction us)
  case Nil
  then show ?case by simp
next
  case (Cons u us)
  then show ?case by (cases "u = x") auto
qed

lemma enumerate_first:
  "map snd (filter (\<lambda>(position, x). position_of x (us @ xs) = Some position) (List.enumerate (length us) xs)) = first_by id (set us) xs"
proof (induction xs arbitrary: us)
  case Nil
  then show ?case by simp
next
  case (Cons x xs)
  from Cons [of "us @ [x]"] show ?case by (cases "x \<in> set us") (simp_all add: position_of_here insert_absorb)
qed

lemma enumerate_first_zip:
  "length ss = length xs \<Longrightarrow>
   map snd (filter (\<lambda>(position, _). position_of (if position < length (us @ xs) then (us @ xs) ! position else []) (us @ xs) = Some position)
     (List.enumerate (length us) ss)) = map snd (first_by fst (set us) (zip xs ss))"
proof (induction xs arbitrary: us ss)
  case Nil
  then show ?case by simp
next
  case (Cons x xs)
  then obtain s ss' where ss: "ss = s # ss'" "length ss' = length xs" by (cases ss) auto
  have us: "(us @ [x]) @ xs = us @ x # xs" by simp
  from Cons.IH [OF ss(2), of "us @ [x]", unfolded us] ss show ?case by (cases "x \<in> set us") (simp_all add: position_of_here insert_absorb)
qed

lemma first_by_map: "first_by id seen (map k zs) = map k (first_by k seen zs)"
  by (induction zs arbitrary: seen) simp_all

lemma first_by_distinct: "distinct (map k (first_by k seen zs)) \<and> k ` set (first_by k seen zs) = k ` set zs - seen"
proof (induction zs arbitrary: seen)
  case Nil
  then show ?case by simp
next
  case (Cons z zs)
  show ?case
  proof (cases "k z \<in> seen")
    case True
    with Cons [of seen] show ?thesis by auto
  next
    case False
    with Cons [of "insert (k z) seen"] show ?thesis by auto
  qed
qed

lemma first_by_map_of: "x \<notin> seen \<Longrightarrow> map_of (first_by fst seen zs) x = map_of zs x"
proof (induction zs arbitrary: seen)
  case Nil
  then show ?case by simp
next
  case (Cons z zs)
  show ?case
  proof (cases "fst z \<in> seen")
    case True
    with Cons.prems have "fst z \<noteq> x" by blast
    with True Cons show ?thesis by (cases z) auto
  next
    case False
    show ?thesis
    proof (cases "fst z = x")
      case True
      with False show ?thesis by (cases z) simp
    next
      case ne: False
      with Cons.prems Cons.IH [of "insert (fst z) seen"] False show ?thesis by (cases z) auto
    qed
  qed
qed

lemma position_of_nth: "position_of x xs = Some i \<Longrightarrow> i < length xs \<and> xs ! i = x"
  by (induction xs arbitrary: i) (auto split: if_splits)

lemma swap_sources:
  assumes "distinct ids" and "length ids = length sources" and "position_of old ids = Some i"
  shows "zip (map (\<lambda>x. if x = old then new else x) ids)
      (map (\<lambda>(position, s). if position = i then q else s) (List.enumerate 0 sources)) =
    map (\<lambda>(x, s). if x = old then (new, q) else (x, s)) (zip ids sources)"
proof (rule nth_equalityI)
  fix j
  assume "j < length (zip (map (\<lambda>x. if x = old then new else x) ids)
      (map (\<lambda>(position, s). if position = i then q else s) (List.enumerate 0 sources)))"
  then have j: "j < length ids" "j < length sources" using assms(2) by simp_all
  have "ids ! j = old \<longleftrightarrow> j = i" using position_of_nth [OF assms(3)] assms(1) j by (auto simp: nth_eq_iff_index_eq)
  with j show "zip (map (\<lambda>x. if x = old then new else x) ids)
      (map (\<lambda>(position, s). if position = i then q else s) (List.enumerate 0 sources)) ! j =
    map (\<lambda>(x, s). if x = old then (new, q) else (x, s)) (zip ids sources) ! j"
    by (simp add: nth_enumerate_eq)
qed (simp add: assms(2))

text \<open>
  Also shown. Swapping one offering for another gives a chain the hub accepts and leaves the rest alone. Of a chain that names each
  offering once, with a source for each, there is a swap exactly when the old offering is in it; the chain that comes out
  again names each once, with a source for each, has the new offering where the old one is gone, keeps its default in
  the chain, and every offering in it is declared with the source it has in the plain replacement, the first one
  where the new offering was already there.
\<close>

theorem swap_declared_offering:
  assumes "distinct (eo_sourceOfferingIds b)" and "length (eo_sourceOfferingIds b) = length (eo_declaredSources b)"
    and "eo_defaultSourceOfferingId b \<in> set (eo_sourceOfferingIds b)"
  shows "case swapDeclaredOffering b old new provider model of
      None \<Rightarrow> old \<notin> set (eo_sourceOfferingIds b)
    | Some r \<Rightarrow>
        old \<in> set (eo_sourceOfferingIds b) \<and> distinct (eo_sourceOfferingIds r) \<and>
        length (eo_sourceOfferingIds r) = length (eo_declaredSources r) \<and>
        set (eo_sourceOfferingIds r) = insert new (set (eo_sourceOfferingIds b) - {old}) \<and>
        eo_defaultSourceOfferingId r \<in> set (eo_sourceOfferingIds r) \<and>
        map_of (zip (eo_sourceOfferingIds r) (eo_declaredSources r)) x =
          map_of (map (\<lambda>(x, s). if x = old then (new, (provider, model)) else (x, s))
            (zip (eo_sourceOfferingIds b) (eo_declaredSources b))) x"
proof (cases "position_of old (eo_sourceOfferingIds b)")
  case None
  then have "swapDeclaredOffering b old new provider model = None" by (simp add: swapDeclaredOffering_def)
  with None show ?thesis by (simp add: position_of_None)
next
  case (Some i)
  let ?ids = "eo_sourceOfferingIds b" and ?q = "(provider, model)"
  let ?xs = "map (\<lambda>x. if x = old then new else x) ?ids"
  let ?ss = "map (\<lambda>(position, s). if position = i then ?q else s) (List.enumerate 0 (eo_declaredSources b))"
  let ?zs = "first_by fst {} (zip ?xs ?ss)"
  have len: "length ?ss = length ?xs" using assms(2) by simp
  define r where "r = \<lparr>eo_sourceOfferingIds = first_by id {} ?xs,
     eo_defaultSourceOfferingId = (if eo_defaultSourceOfferingId b = old then new else eo_defaultSourceOfferingId b),
     eo_declaredSources = map snd ?zs\<rparr>"
  have r: "swapDeclaredOffering b old new provider model = Some r"
    unfolding swapDeclaredOffering_def Some option.case Let_def r_def
      enumerate_first [of "[]", unfolded list.size append_Nil list.set] enumerate_first_zip [OF len, of "[]", unfolded list.size append_Nil list.set] ..
  have ids: "eo_sourceOfferingIds r = first_by id {} ?xs" and srcs: "eo_declaredSources r = map snd ?zs" and
    d: "eo_defaultSourceOfferingId r = (if eo_defaultSourceOfferingId b = old then new else eo_defaultSourceOfferingId b)"
    by (simp_all add: r_def)
  have xs: "map fst (zip ?xs ?ss) = ?xs" using len by simp
  have keys: "eo_sourceOfferingIds r = map fst ?zs" unfolding ids by (subst xs [symmetric]) (rule first_by_map)
  have zip: "zip (eo_sourceOfferingIds r) (eo_declaredSources r) = ?zs" unfolding keys srcs by (rule zip_map_fst_snd)
  have fs: "fst ` set (zip ?xs ?ss) = set ?xs" using arg_cong [OF xs, of set] by simp
  note dist = first_by_distinct [of fst "{}" "zip ?xs ?ss"]
  have old: "old \<in> set ?ids" using position_of_nth [OF Some] nth_mem by blast
  have set_xs: "set ?xs = insert new (set ?ids - {old})" using old by auto
  have set_r: "set (eo_sourceOfferingIds r) = insert new (set ?ids - {old})"
    using dist fs set_xs unfolding keys by simp
  have "eo_defaultSourceOfferingId r \<in> set (eo_sourceOfferingIds r)" unfolding set_r d using assms(3) by simp
  moreover have "map_of ?zs x = map_of (map (\<lambda>(x, s). if x = old then (new, ?q) else (x, s)) (zip ?ids (eo_declaredSources b))) x"
    unfolding swap_sources [OF assms(1,2) Some, symmetric] by (rule first_by_map_of) simp
  moreover have "distinct (eo_sourceOfferingIds r)" unfolding keys using dist by blast
  moreover have "length (eo_sourceOfferingIds r) = length (eo_declaredSources r)" unfolding keys srcs by simp
  ultimately show ?thesis using r old set_r zip by simp
qed

definition demo_offering :: existing_offering where
  "demo_offering = \<lparr>eo_sourceOfferingIds = [''o1'', ''o2'', ''o3''], eo_defaultSourceOfferingId = ''o1'',
     eo_declaredSources = [(''p1'', ''m1''), (''p2'', ''m2''), (''p3'', ''m3'')]\<rparr>"

theorem swap_declared_offering_witness:
  "swapDeclaredOffering demo_offering ''o1'' ''o3'' ''p3'' ''m3'' =
     Some \<lparr>eo_sourceOfferingIds = [''o3'', ''o2''], eo_defaultSourceOfferingId = ''o3'', eo_declaredSources = [(''p3'', ''m3''), (''p2'', ''m2'')]\<rparr> \<and>
   ''o1'' \<in> set (eo_sourceOfferingIds demo_offering)"
proof -
  have run: "swapDeclaredOffering demo_offering ''o1'' ''o3'' ''p3'' ''m3'' =
     Some \<lparr>eo_sourceOfferingIds = [''o3'', ''o2''], eo_defaultSourceOfferingId = ''o3'', eo_declaredSources = [(''p3'', ''m3''), (''p2'', ''m2'')]\<rparr>"
    by code_simp
  from swap_declared_offering [of demo_offering "''o1''" "''o3''" "''p3''" "''m3''" "''o2''"] show ?thesis
    unfolding run by (simp add: demo_offering_def)
qed

end
