(* ===== verification/Workbench_Create.thy ===== *)
theory Workbench_Create
  imports Agent_Deploy Settings_Api
begin

text \<open>
  Creating a workbench and keeping its agents deployed, \<open>apps/web/src\<close>: the opening message parked for the new page
  (\<open>opening-message.ts\<close>), the creation with the agents that join (\<open>workbench-create.ts\<close>), the restart of one agent, and
  the moves to another offering (\<open>agent-model-redeploy.ts\<close>, \<open>settings/worker-model-redeploy.ts\<close>).

  A tab is the network with \<open>sessionStorage\<close>, the two sets of \<open>redeploy-failures.ts\<close> and the reports made.
\<close>

section \<open>A tab\<close>

record 'w tab =
  tb_net :: "'w net"
  tb_session :: "(string \<times> string) list"
  tb_denied :: bool
  tb_full :: bool
  tb_redeploys :: redeploys
  tb_reports :: "(string \<times> string) list"

type_synonym ('w, 'e, 'a) tclient = "'w tab \<Rightarrow> (('e + 'a) \<times> 'w tab) option"

definition doneT :: "('w tab \<Rightarrow> 'w tab) \<Rightarrow> ('w, 'e, unit) tclient" where
  "doneT f s = Some (Inr (), f s)"

definition throwT :: "'e \<Rightarrow> ('w, 'e, 'a) tclient" where
  "throwT e s = Some (Inl e, s)"

definition returnT :: "'a \<Rightarrow> ('w, 'e, 'a) tclient" where
  "returnT x s = Some (Inr x, s)"

definition bindT :: "('w, 'e, 'a) tclient \<Rightarrow> ('a \<Rightarrow> ('w, 'e, 'b) tclient) \<Rightarrow> ('w, 'e, 'b) tclient" where
  "bindT m f s = (case m s of None \<Rightarrow> None | Some (Inl e, s') \<Rightarrow> Some (Inl e, s') | Some (Inr x, s') \<Rightarrow> f x s')"

definition catchT :: "('w, 'e, 'a) tclient \<Rightarrow> ('e \<Rightarrow> ('w, 'f, 'a) tclient) \<Rightarrow> ('w, 'f, 'a) tclient" where
  "catchT m h s = (case m s of None \<Rightarrow> None | Some (Inl e, s') \<Rightarrow> h e s' | Some (Inr x, s') \<Rightarrow> Some (Inr x, s'))"

text \<open>A call of the hub, its error as the tab's code sees it.\<close>

definition onNet :: "(js_error \<Rightarrow> 'e) \<Rightarrow> ('w, 'a) pclient \<Rightarrow> ('w, 'e, 'a) tclient" where
  "onNet err m s =
     (case m (tb_net s) of
        None \<Rightarrow> None
      | Some (Inl e, n) \<Rightarrow> Some (Inl (err e), s\<lparr>tb_net := n\<rparr>)
      | Some (Inr x, n) \<Rightarrow> Some (Inr x, s\<lparr>tb_net := n\<rparr>))"

section \<open>The opening message\<close>

definition opening_key :: "string \<Rightarrow> string" where
  "opening_key t = ''workbench-opening-message:'' @ t"

definition report_op :: "string \<Rightarrow> string \<Rightarrow> 'w tab \<Rightarrow> 'w tab" where
  "report_op operation t s = s\<lparr>tb_reports := tb_reports s @ [(operation, t)]\<rparr>"

definition parkOpeningMessage :: "string \<Rightarrow> string \<Rightarrow> 'w tab \<Rightarrow> 'w tab" where
  "parkOpeningMessage t msg s =
     (if tb_denied s \<or> tb_full s then report_op ''opening_message_park'' t s
      else s\<lparr>tb_session := AList.update (opening_key t) msg (tb_session s)\<rparr>)"

definition readOpeningMessage :: "string \<Rightarrow> 'w tab \<Rightarrow> string option \<times> 'w tab" where
  "readOpeningMessage t s =
     (if tb_denied s then (None, report_op ''opening_message_read'' t s) else (map_of (tb_session s) (opening_key t), s))"

definition clearOpeningMessage :: "string \<Rightarrow> 'w tab \<Rightarrow> 'w tab" where
  "clearOpeningMessage t s =
     (if tb_denied s then report_op ''opening_message_clear'' t s
      else s\<lparr>tb_session := AList.delete (opening_key t) (tb_session s)\<rparr>)"

section \<open>The slug of a workbench\<close>

text \<open>\<open>n.toString(36)\<close>.\<close>

definition base36_digit :: "nat \<Rightarrow> char" where
  "base36_digit d = char_of (if d < 10 then 48 + d else 87 + d)"

fun base36 :: "nat \<Rightarrow> string" where
  "base36 n = (if n < 36 then [base36_digit n] else base36 (n div 36) @ [base36_digit (n mod 36)])"

declare base36.simps [simp del]

text \<open>\<open>replace(/^-|-$/g, "")\<close>: one hyphen at either end.\<close>

definition drop_end_hyphens :: "string \<Rightarrow> string" where
  "drop_end_hyphens s =
     (let t = (case s of c # u \<Rightarrow> if c = CHR ''-'' then u else s | [] \<Rightarrow> []) in
      if t \<noteq> [] \<and> last t = CHR ''-'' then butlast t else t)"

text \<open>\<open>lower\<close> is \<open>toLocaleLowerCase\<close>, \<open>now\<close> is \<open>Date.now()\<close>.\<close>

definition workbenchSlug :: "(string \<Rightarrow> string) \<Rightarrow> string \<Rightarrow> nat \<Rightarrow> string" where
  "workbenchSlug lower name now =
     (let base = take 32 (drop_end_hyphens (hyphenate (lower name))) in
      (if base = [] then ''workbench'' else base) @ CHR ''-'' # base36 now)"

section \<open>Creating a workbench\<close>

datatype create_stage = CreateStage | DeployStage

record create_failure =
  cf_message :: string
  cf_stage :: create_stage
  cf_tenantId :: "string option"

datatype cause = CreateCause create_failure | OtherCause js_error

definition cause_message :: "'w deploy_env \<Rightarrow> cause \<Rightarrow> string" where
  "cause_message env c = (case c of CreateCause f \<Rightarrow> cf_message f | OtherCause e \<Rightarrow> message_of env e)"

definition failure :: "'w deploy_env \<Rightarrow> cause \<Rightarrow> create_stage \<Rightarrow> string option \<Rightarrow> create_failure" where
  "failure env c stage t = \<lparr>cf_message = cause_message env c, cf_stage = stage, cf_tenantId = t\<rparr>"

record picked_agent =
  pa_id :: string
  pa_name :: string
  pa_assetName :: string

record create_input =
  ci_benchTenantId :: string
  ci_name :: string
  ci_openingMessage :: "string option"
  ci_pickedAgents :: "picked_agent list"

definition plain_error :: "string \<Rightarrow> js_error" where
  "plain_error m = error_of ''Error'' m None"

definition deploy_failure :: "string \<Rightarrow> cause" where
  "deploy_failure m = CreateCause \<lparr>cf_message = m, cf_stage = DeployStage, cf_tenantId = None\<rparr>"

definition worker_args_of :: "string \<Rightarrow> string \<Rightarrow> existing_offering \<Rightarrow> bool \<Rightarrow> worker_args" where
  "worker_args_of t domain off again = \<lparr>wa_tenantId = t, wa_tenantDomain = domain, wa_offering = off, wa_redeploy = again\<rparr>"

text \<open>What a joining or restarted agent is deployed with: a name, a prompt and a slug, nothing else of it.\<close>

definition bare_agent :: "string \<Rightarrow> string \<Rightarrow> string \<Rightarrow> bool \<Rightarrow> new_agent" where
  "bare_agent name prompt slug again =
     \<lparr>na_name = name, na_systemPrompt = prompt, na_slug = Some slug, na_mcpHandles = [], na_schedule = None, na_toolEffects = [],
      na_roles = [], na_redeploy = again\<rparr>"

definition deploy_as ::
  "'w hub \<Rightarrow> 'w deploy_env \<Rightarrow> string \<Rightarrow> string \<Rightarrow> picked_agent \<Rightarrow> string \<Rightarrow> bool \<Rightarrow> ('w, installed) pclient" where
  "deploy_as hub env from t p slug again =
     bindP (readAgentSource hub env from (pa_id p) (pa_assetName p)) (\<lambda>(prompt, _).
     deployAgentSource hub env t (bare_agent (pa_name p) prompt slug again))"

fun join_agents :: "'w hub \<Rightarrow> 'w deploy_env \<Rightarrow> string \<Rightarrow> string \<Rightarrow> picked_agent list \<Rightarrow> ('w, unit) pclient" where
  "join_agents hub env bench t [] = liftP (returnE ())"
| "join_agents hub env bench t (p # ps) =
     (case agentSlugFromSourceAssetName (pa_assetName p) of
        None \<Rightarrow> liftP (throwE (plain_error (pa_assetName p @ '' isn't a recognized agent source asset'')))
      | Some slug \<Rightarrow> bindP (deploy_as hub env bench t p slug False) (\<lambda>_. join_agents hub env bench t ps))"

definition deploy_all :: "'w hub \<Rightarrow> 'w deploy_env \<Rightarrow> create_input \<Rightarrow> string \<Rightarrow> string \<Rightarrow> ('w, unit) pclient" where
  "deploy_all hub env input t domain =
     bindP (liftP (resolveExistingOffering hub env t)) (\<lambda>offering.
     case offering of
       None \<Rightarrow> liftP (throwE (plain_error ''Connect a model provider in Settings before starting a workbench.''))
     | Some off \<Rightarrow>
         bindP (deployWorkerSource hub env (worker_args_of t domain off False)) (\<lambda>_.
         join_agents hub env (ci_benchTenantId input) t (ci_pickedAgents input)))"

definition park_opening :: "create_input \<Rightarrow> string \<Rightarrow> 'w tab \<Rightarrow> 'w tab" where
  "park_opening input t s =
     (case ci_openingMessage input of
        None \<Rightarrow> s | Some msg \<Rightarrow> if msg = [] then s else parkOpeningMessage t msg s)"

definition createWorkbench ::
  "'w hub \<Rightarrow> 'w deploy_env \<Rightarrow> string \<Rightarrow> (string \<Rightarrow> string) \<Rightarrow> nat \<Rightarrow> create_input \<Rightarrow> ('w, create_failure, string) tclient" where
  "createWorkbench hub env summary lower now input =
     bindT
       (catchT
          (bindT (onNet OtherCause (liftP (createTenant hub summary (ci_name input) (workbenchSlug lower (ci_name input) now)
                    (Some (ci_benchTenantId input))))) (\<lambda>created.
           bindT (doneT (park_opening input (ht_id created))) (\<lambda>_. returnT (ht_id created, ht_domain created))))
          (\<lambda>c. throwT (failure env c CreateStage None))) (\<lambda>(t, domain).
     bindT
       (catchT (onNet OtherCause (deploy_all hub env input t domain))
          (\<lambda>c. case c of CreateCause f \<Rightarrow> throwT f | OtherCause _ \<Rightarrow> throwT (failure env c DeployStage (Some t)))) (\<lambda>_.
     returnT t))"

section \<open>Restarting an agent\<close>

definition GENERIC_RESTART_FAILURE :: string where
  "GENERIC_RESTART_FAILURE = ''Couldn't restart this agent. Try again.''"

definition describeRestartFailure :: "cause \<Rightarrow> string" where
  "describeRestartFailure c =
     (case c of
        OtherCause _ \<Rightarrow> GENERIC_RESTART_FAILURE
      | CreateCause f \<Rightarrow> if cf_stage f = DeployStage then ''This agent couldn't be deployed. Try again.'' else GENERIC_RESTART_FAILURE)"

definition reportRestartFailure :: "cause \<Rightarrow> string \<Rightarrow> 'w tab \<Rightarrow> string \<times> 'w tab" where
  "reportRestartFailure c t s = (describeRestartFailure c, report_op ''agent_restart'' t s)"

definition restart_worker :: "'w hub \<Rightarrow> 'w deploy_env \<Rightarrow> string \<Rightarrow> string \<Rightarrow> ('w, cause, unit) tclient" where
  "restart_worker hub env summary t =
     bindT (onNet OtherCause (liftP (bothE (getTenant hub summary t) (resolveExistingOffering hub env t)))) (\<lambda>(tenant, offering).
     case (tenant, offering) of
       (None, _) \<Rightarrow> throwT (deploy_failure ''this workbench no longer exists'')
     | (Some _, None) \<Rightarrow> throwT (deploy_failure ''Connect a model provider in Settings before restarting the worker.'')
     | (Some w, Some off) \<Rightarrow>
         bindT (onNet OtherCause (deployWorkerSource hub env (worker_args_of t (ht_domain w) off True))) (\<lambda>_. returnT ()))"

definition deployExistingAgent :: "'w hub \<Rightarrow> 'w deploy_env \<Rightarrow> string \<Rightarrow> string \<Rightarrow> picked_agent \<Rightarrow> ('w, cause, unit) tclient" where
  "deployExistingAgent hub env summary t a =
     (if pa_assetName a = worker_assetName then restart_worker hub env summary t
      else (case agentSlugFromSourceAssetName (pa_assetName a) of
              None \<Rightarrow> throwT (deploy_failure (pa_assetName a @ '' isn't a recognized agent source asset''))
            | Some slug \<Rightarrow> bindT (onNet OtherCause (deploy_as hub env t t a slug True)) (\<lambda>_. returnT ())))"

definition set_redeploys :: "(redeploys \<Rightarrow> redeploys) \<Rightarrow> 'w tab \<Rightarrow> 'w tab" where
  "set_redeploys f s = s\<lparr>tb_redeploys := f (tb_redeploys s)\<rparr>"

definition redeployWorkbenchAgent :: "'w hub \<Rightarrow> 'w deploy_env \<Rightarrow> string \<Rightarrow> string \<Rightarrow> picked_agent \<Rightarrow> ('w, cause, unit) tclient" where
  "redeployWorkbenchAgent hub env summary t a =
     catchT
       (bindT (deployExistingAgent hub env summary t a) (\<lambda>_. doneT (set_redeploys (clearRedeployFailure (pa_id a)))))
       (\<lambda>c. bindT (doneT (set_redeploys (markRedeployFailed (pa_id a)))) (\<lambda>_. throwT c))"

section \<open>Moving to another offering\<close>

definition needsAgentRedeployForProviderChange :: "(string \<times> string) list \<Rightarrow> (string \<times> string) list option \<Rightarrow> bool" where
  "needsAgentRedeployForProviderChange declared current =
     (case current of
        None \<Rightarrow> False
      | Some cur \<Rightarrow>
          length declared \<noteq> length cur \<or>
          list_ex (\<lambda>(i, s). let c = (if i < length cur then Some (cur ! i) else None) in
              Some (fst s) \<noteq> map_option fst c \<or> Some (snd s) \<noteq> map_option snd c) (List.enumerate 0 declared))"

definition carry_effect :: "string \<times> bool \<Rightarrow> tool_effect" where
  "carry_effect e = \<lparr>te_resource = fst e, te_effect = (if snd e then AllowTool else DenyTool)\<rparr>"

definition buildAgentRedeployInput :: "string \<Rightarrow> string \<Rightarrow> string \<Rightarrow> string list \<Rightarrow> grant list \<Rightarrow> new_agent" where
  "buildAgentRedeployInput name slug prompt handles grants =
     \<lparr>na_name = name, na_systemPrompt = prompt, na_slug = Some slug, na_mcpHandles = handles, na_schedule = None,
      na_toolEffects = map carry_effect (toolEffectsToCarry grants), na_roles = [], na_redeploy = True\<rparr>"

definition readCurrentOfferingSources :: "'w hub \<Rightarrow> 'w deploy_env \<Rightarrow> string \<Rightarrow> ('w, (string \<times> string) list option) client" where
  "readCurrentOfferingSources hub env t =
     bindE (resolveExistingOffering hub env t) (\<lambda>off. returnE (map_option eo_declaredSources off))"

definition bothP :: "('w, 'a) pclient \<Rightarrow> ('w, 'b) pclient \<Rightarrow> ('w, 'a \<times> 'b) pclient" where
  "bothP m k n =
     (case m n of
        None \<Rightarrow> None
      | Some (r, n1) \<Rightarrow>
          (case k n1 of
             None \<Rightarrow> None
           | Some (q, n2) \<Rightarrow>
               Some (case (r, q) of (Inl e, _) \<Rightarrow> Inl e | (Inr _, Inl e) \<Rightarrow> Inl e | (Inr x, Inr y) \<Rightarrow> Inr (x, y), n2)))"

definition redeployAgentForProviderChange ::
  "'w hub \<Rightarrow> 'w deploy_env \<Rightarrow> row_types \<Rightarrow> (string \<Rightarrow> string \<Rightarrow> int) \<Rightarrow> string \<Rightarrow> picked_agent \<Rightarrow> string option \<Rightarrow> ('w, installed) pclient" where
  "redeployAgentForProviderChange hub env ty cmp t a liveAddress =
     (case agentSlugFromSourceAssetName (pa_assetName a) of
        None \<Rightarrow> liftP (throwE (error_of ''AgentRedeployError'' (pa_assetName a @ '' was not deployed by this workbench'') None))
      | Some slug \<Rightarrow>
          bindP (bothP (readAgentSource hub env t (pa_id a) (pa_assetName a))
                 (bothP (readAgentMcpHandles hub env t (pa_id a) (pa_assetName a)) (liftP (readWorkerToolGrants hub ty cmp t liveAddress))))
            (\<lambda>((prompt, _), handles, grants).
          deployAgentSource hub env t
            (buildAgentRedeployInput (pa_name a) slug prompt handles (case grants of None \<Rightarrow> [] | Some g \<Rightarrow> snd g))))"

definition worker_redeploy_error :: "string \<Rightarrow> js_error" where
  "worker_redeploy_error m = error_of ''WorkerRedeployError'' m None"

definition redeployWorkerForModelChange ::
  "'w hub \<Rightarrow> 'w deploy_env \<Rightarrow> string \<Rightarrow> string \<Rightarrow> string \<Rightarrow> string \<Rightarrow> string \<Rightarrow> ('w, bool) pclient" where
  "redeployWorkerForModelChange hub env t oldId newId provider canonicalName =
     bindP (liftP (resolveExistingOffering hub env t)) (\<lambda>before.
     case Option.bind before (\<lambda>b. swapDeclaredOffering b oldId newId provider canonicalName) of
       None \<Rightarrow> liftP (returnE False)
     | Some swapped \<Rightarrow>
         bindP (liftP (read_domain hub env worker_redeploy_error t)) (\<lambda>domain.
         bindP (deployWorkerSource hub env (worker_args_of t domain swapped True)) (\<lambda>_. liftP (returnE True))))"

section \<open>The name of an agent's asset\<close>

lemma lit_ends: "match_ends (lit w) s (i, cs) = (if starts_with w (drop i s) then [(i + length w, cs)] else [])"
proof (induction w arbitrary: i)
  case Nil
  then show ?case by (simp add: starts_with_def)
next
  case (Cons c w)
  show ?case
  proof (cases "i < length s")
    case True
    then have "drop i s = s ! i # drop (Suc i) s" by (simp add: Cons_nth_drop_Suc)
    with Cons True show ?thesis by (auto simp: ch_def starts_with_Cons)
  next
    case False
    then show ?thesis by (simp add: ch_def starts_with_Cons)
  qed
qed

text \<open>The match ends after \<open>k\<close> characters of the middle only when what is left is the suffix.\<close>

definition middle_end :: "string \<Rightarrow> string \<Rightarrow> string \<Rightarrow> nat \<Rightarrow> bool" where
  "middle_end pre suf s k \<longleftrightarrow> starts_with suf (drop (length pre + k) s) \<and> length pre + k + length suf = length s"

lemma concat_if: "concat (map (\<lambda>k. if P k then [f k] else []) ks) = map f (filter P ks)"
  by (induction ks) simp_all

lemma framed_ends:
  "match_ends (seq [Bos, lit pre, Grp 1 (Rep 1 P), lit suf, Eos]) s (i, []) =
     (if i = 0 \<and> starts_with pre s
      then map (\<lambda>k. (length pre + k + length suf, [(1, length pre, length pre + k)]))
             (filter (middle_end pre suf s) (rev [1..<run_length P s (length pre) + 1]))
      else [])"
proof (cases "i = 0 \<and> starts_with pre s")
  case True
  have tail: "match_ends (Seq (lit suf) (Seq Eos Empty)) s (length pre + k, cs) =
      (if middle_end pre suf s k then [(length pre + k + length suf, cs)] else [])" for k cs
    by (simp add: lit_ends middle_end_def)
  have mid: "match_ends (Grp 1 (Rep 1 P)) s (length pre, []) =
      map (\<lambda>k. (length pre + k, [(1, length pre, length pre + k)])) (rev [1..<run_length P s (length pre) + 1])"
    by (simp add: Let_def o_def del: upt_Suc)
  have rest: "match_ends (Seq (Grp 1 (Rep 1 P)) (Seq (lit suf) (Seq Eos Empty))) s (length pre, []) =
      map (\<lambda>k. (length pre + k + length suf, [(1, length pre, length pre + k)]))
        (filter (middle_end pre suf s) (rev [1..<run_length P s (length pre) + 1]))"
    unfolding match_ends.simps(9) [of "Grp 1 (Rep 1 P)"] mid map_map o_def tail by (rule concat_if)
  from True rest show ?thesis by (simp add: lit_ends del: match_ends.simps(9) add: match_ends.simps(9) [of Bos] match_ends.simps(9) [of "lit pre"])
next
  case False
  then show ?thesis by (auto simp: lit_ends)
qed

lemma takeWhile_length: "k \<le> length (takeWhile P xs) \<longleftrightarrow> k \<le> length xs \<and> list_all P (take k xs)"
proof (induction xs arbitrary: k)
  case Nil
  then show ?case by simp
next
  case (Cons x xs)
  then show ?case by (cases k) auto
qed

lemma asset_ends:
  "match_ends AGENT_DEPLOY_SOURCE_ASSET_NAME s (i, []) =
     (if i = 0 \<and> starts_with ''agent-'' s
      then map (\<lambda>k. (13 + k, [(1, 6, 6 + k)]))
             (filter (middle_end ''agent-'' ''-source'' s) (rev [1..<run_length (\<lambda>c. \<not> line_end c) s 6 + 1]))
      else [])"
proof -
  have len: "length ''agent-'' = 6" "length ''-source'' = 7" by simp_all
  have "6 + k + 7 = 13 + k" for k :: nat by simp
  with framed_ends [of "''agent-''" _ "''-source''" s i, unfolded len] show ?thesis
    unfolding AGENT_DEPLOY_SOURCE_ASSET_NAME_def by simp
qed

lemma asset_middle: "middle_end ''agent-'' ''-source'' s k \<longleftrightarrow> starts_with ''-source'' (drop (6 + k) s) \<and> 13 + k = length s"
proof -
  have len: "length ''agent-'' = 6" "length ''-source'' = 7" by simp_all
  have "6 + k + 7 = 13 + k" by simp
  then show ?thesis unfolding middle_end_def len by simp
qed

text \<open>
  Also shown. The name of an agent's source asset gives its slug back, and no other name gives one: a slug is read from a name
  exactly when the name is the asset name of that slug, for slugs on one line.
\<close>

theorem agent_asset_roundtrip:
  "agentSlugFromSourceAssetName name = Some slug \<longleftrightarrow>
     name = agentDeploySourceAssetName slug \<and> slug \<noteq> [] \<and> list_all (\<lambda>c. \<not> line_end c) slug"
proof
  let ?P = "\<lambda>c. \<not> line_end c" and ?pre = "''agent-''" and ?suf = "''-source''"
  assume "agentSlugFromSourceAssetName name = Some slug"
  then obtain k j cs where e: "exec_from AGENT_DEPLOY_SOURCE_ASSET_NAME name 0 = Some (k, j, cs)" and c: "slug = captured name cs 1"
    by (auto simp: agentSlugFromSourceAssetName_def split: option.splits)
  from match_at_mem exec_from_bounds [OF e] have "(j, cs) \<in> set (match_ends AGENT_DEPLOY_SOURCE_ASSET_NAME name (k, []))" by blast
  then obtain l where pre: "starts_with ?pre name" and l: "1 \<le> l" "l \<le> run_length ?P name 6" and
    suf: "starts_with ?suf (drop (6 + l) name)" "13 + l = length name" and cs: "cs = [(1, 6, 6 + l)]"
    unfolding asset_ends by (auto simp: asset_middle split: if_splits)
  from pre obtain u where u: "name = ?pre @ u" by (auto simp: starts_with_iff)
  have slug: "slug = take l u" using c cs u by (simp add: captured_def slice_def)
  have "drop (6 + l) name = drop l u" unfolding u by (simp add: numeral_eq_Suc)
  with suf u obtain v where v: "drop l u = ?suf @ v" "13 + l = 6 + length u" by (auto simp: starts_with_iff)
  have "length (?suf @ v) = length u - l" unfolding v(1) [symmetric] by (rule length_drop)
  moreover have "length u - l = 7" using v(2) by arith
  ultimately have "length v = 0" by simp
  with v(1) have "drop l u = ?suf" by simp
  with slug u have "name = agentDeploySourceAssetName slug"
    unfolding agentDeploySourceAssetName_def by (metis append_take_drop_id)
  moreover have "l \<le> length u \<and> list_all ?P (take l u)" using l u by (simp add: run_length_def takeWhile_length)
  moreover from this l slug have "slug \<noteq> []" by auto
  ultimately show "name = agentDeploySourceAssetName slug \<and> slug \<noteq> [] \<and> list_all ?P slug" using slug by simp
next
  let ?P = "\<lambda>c. \<not> line_end c" and ?pre = "''agent-''" and ?suf = "''-source''"
  assume "name = agentDeploySourceAssetName slug \<and> slug \<noteq> [] \<and> list_all ?P slug"
  then have name: "name = ?pre @ slug @ ?suf" and a: "slug \<noteq> []" "list_all ?P slug" by (simp_all add: agentDeploySourceAssetName_def)
  have run: "length slug \<le> run_length ?P name 6" using a name by (simp add: run_length_def takeWhile_length)
  have only: "middle_end ?pre ?suf name k \<longleftrightarrow> k = length slug" for k
  proof
    assume "k = length slug"
    moreover have "drop (6 + length slug) name = ?suf" unfolding name by (simp add: numeral_eq_Suc)
    ultimately show "middle_end ?pre ?suf name k" by (simp add: asset_middle name starts_with_def)
  qed (simp add: asset_middle name)
  have "filter (middle_end ?pre ?suf name) (rev [1..<run_length ?P name 6 + 1]) = [length slug]"
  proof -
    have "filter (\<lambda>k. k = m) [1..<b + 1] = (if 1 \<le> m \<and> m \<le> b then [m] else [])" for m b :: nat
      by (induction b) auto
    moreover have "middle_end ?pre ?suf name = (\<lambda>k. k = length slug)" by (rule ext) (rule only)
    ultimately show ?thesis using run a by (simp add: rev_filter [symmetric] Suc_le_eq del: upt_Suc)
  qed
  moreover have "starts_with ?pre name" by (simp add: name starts_with_def)
  ultimately have "match_at AGENT_DEPLOY_SOURCE_ASSET_NAME name 0 = Some (13 + length slug, [(1, 6, 6 + length slug)])"
    unfolding match_at_def asset_ends by (simp del: upt_Suc)
  then have "exec_from AGENT_DEPLOY_SOURCE_ASSET_NAME name 0 = Some (0, 13 + length slug, [(1, 6, 6 + length slug)])"
    using upt_conv_Cons [of 0 "length name + 1"] by (simp add: exec_from_def del: upt_Suc)
  then show "agentSlugFromSourceAssetName name = Some slug"
    by (simp add: agentSlugFromSourceAssetName_def captured_def slice_def name)
qed

section \<open>What a creation leaves behind\<close>

lemma onNet_run:
  "onNet err m s = Some (r, s') \<longleftrightarrow>
     (\<exists>q n. m (tb_net s) = Some (q, n) \<and> r = (case q of Inl e \<Rightarrow> Inl (err e) | Inr x \<Rightarrow> Inr x) \<and> s' = s\<lparr>tb_net := n\<rparr>)"
  by (auto simp: onNet_def split: option.splits sum.splits)

lemma parked_message:
  "\<not> tb_denied s \<Longrightarrow> \<not> tb_full s \<Longrightarrow> msg \<noteq> [] \<Longrightarrow> ci_openingMessage input = Some msg \<Longrightarrow>
   park_opening input t s = s\<lparr>tb_session := AList.update (opening_key t) msg (tb_session s)\<rparr>"
  by (simp add: park_opening_def parkOpeningMessage_def)

text \<open>
  C22. A creation that fails says how far it came, and what was typed is kept: when the tenant could not be created the
  failure is of the first stage, carries no tenant and leaves the storage of the tab alone; once it was created every
  outcome names it, a failure as one of the deploy, and the opening message can be read back under it.
\<close>

theorem create_workbench_outcome:
  assumes "createWorkbench hub env summary lower now input s = Some (res, s')"
  shows "case fst (createTenant hub summary (ci_name input) (workbenchSlug lower (ci_name input) now) (Some (ci_benchTenantId input)) (tb_net s)) of
      Inl e \<Rightarrow> res = Inl \<lparr>cf_message = message_of env e, cf_stage = CreateStage, cf_tenantId = None\<rparr> \<and> tb_session s' = tb_session s
    | Inr w \<Rightarrow>
        (case res of Inl f \<Rightarrow> cf_stage f = DeployStage \<and> cf_tenantId f = Some (ht_id w) | Inr t \<Rightarrow> t = ht_id w) \<and>
        (\<not> tb_denied s \<and> \<not> tb_full s \<and> msg \<noteq> [] \<and> ci_openingMessage input = Some msg \<longrightarrow>
           fst (readOpeningMessage (ht_id w) s') = Some msg)"
proof -
  let ?create = "createTenant hub summary (ci_name input) (workbenchSlug lower (ci_name input) now) (Some (ci_benchTenantId input))"
  obtain q n1 where q: "?create (tb_net s) = (q, n1)" by (cases "?create (tb_net s)")
  show ?thesis
  proof (cases q)
    case (Inl e)
    with q assms show ?thesis
      by (simp add: createWorkbench_def bindT_def catchT_def onNet_def liftP_def throwT_def failure_def cause_message_def) auto
  next
    case (Inr w)
    let ?s = "park_opening input (ht_id w) (s\<lparr>tb_net := n1\<rparr>)"
    from q Inr assms have run: "bindT (catchT (onNet OtherCause (deploy_all hub env input (ht_id w) (ht_domain w)))
          (\<lambda>c. case c of CreateCause f \<Rightarrow> throwT f | OtherCause _ \<Rightarrow> throwT (failure env c DeployStage (Some (ht_id w)))))
        (\<lambda>_. returnT (ht_id w)) ?s = Some (res, s')"
      by (simp add: createWorkbench_def bindT_def catchT_def onNet_def liftP_def doneT_def returnT_def)
    then obtain d n2 where d: "deploy_all hub env input (ht_id w) (ht_domain w) (tb_net ?s) = Some (d, n2)"
      by (cases "deploy_all hub env input (ht_id w) (ht_domain w) (tb_net ?s)") (auto simp: bindT_def catchT_def onNet_def)
    with run have s': "s' = ?s\<lparr>tb_net := n2\<rparr>" and
      res: "res = (case d of Inl e \<Rightarrow> Inl (failure env (OtherCause e) DeployStage (Some (ht_id w))) | Inr _ \<Rightarrow> Inr (ht_id w))"
      by (auto simp: bindT_def catchT_def onNet_def throwT_def returnT_def split: sum.splits)
    have "case res of Inl f \<Rightarrow> cf_stage f = DeployStage \<and> cf_tenantId f = Some (ht_id w) | Inr t \<Rightarrow> t = ht_id w"
      unfolding res by (cases d) (simp_all add: failure_def)
    moreover have "fst (readOpeningMessage (ht_id w) s') = Some msg"
      if "\<not> tb_denied s \<and> \<not> tb_full s \<and> msg \<noteq> [] \<and> ci_openingMessage input = Some msg"
      using that parked_message [of "s\<lparr>tb_net := n1\<rparr>" msg input "ht_id w"] by (simp add: s' readOpeningMessage_def)
    ultimately show ?thesis using q Inr by simp
  qed
qed

definition demo_tab :: "response list \<Rightarrow> response list tab" where
  "demo_tab rs = \<lparr>tb_net = script rs, tb_session = [], tb_denied = False, tb_full = False,
     tb_redeploys = \<lparr>rd_failed = [], rd_inFlight = []\<rparr>, tb_reports = []\<rparr>"

definition demo_create :: create_input where
  "demo_create = \<lparr>ci_benchTenantId = ''b'', ci_name = ''Ops'', ci_openingMessage = Some ''hi'', ci_pickedAgents = []\<rparr>"

definition demo_create_answers :: "response list" where
  "demo_create_answers = [\<lparr>rs_status = 201, rs_body = Some (JObj [(''id'', JStr ''t''), (''name'', JStr ''Ops''), (''slug'', JStr ''ops''),
     (''domain'', JStr ''d'')])\<rparr>, \<lparr>rs_status = 200, rs_body = Some (JArr [])\<rparr>]"

theorem create_workbench_outcome_witness:
  "\<exists>f s'. createWorkbench scripted demo_deploy_env ''s'' id 0 demo_create (demo_tab demo_create_answers) = Some (Inl f, s') \<and>
     cf_tenantId f = Some ''t'' \<and> fst (readOpeningMessage ''t'' s') = Some ''hi''"
proof -
  let ?run = "createWorkbench scripted demo_deploy_env ''s'' id 0 demo_create (demo_tab demo_create_answers)"
  have create: "fst (createTenant scripted ''s'' (ci_name demo_create) (workbenchSlug id (ci_name demo_create) 0)
      (Some (ci_benchTenantId demo_create)) (tb_net (demo_tab demo_create_answers))) =
    Inr \<lparr>ht_id = ''t'', ht_name = ''Ops'', ht_slug = ''ops'', ht_parentId = None, ht_domain = ''d''\<rparr>"
    by (simp add: createTenant_def demo_tab_def demo_create_answers_def script_def bindE_def readJson_def resp_ok_def json_body_def
        returnE_def parseBoundary_def parse_tenant_def str_field_def opt_field_def)
  have "\<exists>f s'. ?run = Some (Inl f, s')"
    by (simp add: createWorkbench_def createTenant_def demo_tab_def demo_create_answers_def script_def bindE_def readJson_def resp_ok_def
        json_body_def returnE_def parseBoundary_def parse_tenant_def str_field_def opt_field_def bindT_def catchT_def onNet_def liftP_def
        doneT_def returnT_def throwT_def park_opening_def parkOpeningMessage_def demo_create_def deploy_all_def bindP_def
        resolveExistingOffering_def getResolvedCatalog_def request_inf_def apiRequest_def demo_deploy_env_def offering_of_def
        offerings_of_def throwE_def)
  then obtain f s' where run: "?run = Some (Inl f, s')" by blast
  from create_workbench_outcome [OF run, of "''hi''"] show ?thesis
    unfolding create using run by (simp add: demo_tab_def demo_create_def)
qed

section \<open>A restart that failed is remembered\<close>

lemma net_keeps: "onNet err m s = Some (r, s') \<Longrightarrow> tb_redeploys s' = tb_redeploys s"
  by (auto simp: onNet_run)

lemma bindT_cases:
  assumes "bindT m f s = Some (r, s')"
  obtains (fails) e where "m s = Some (Inl e, s')" and "r = Inl e"
  | (goes_on) x s1 where "m s = Some (Inr x, s1)" and "f x s1 = Some (r, s')"
  using assms by (auto simp: bindT_def split: option.splits sum.splits)

lemma restart_keeps: "restart_worker hub env summary t s = Some (r, s') \<Longrightarrow> tb_redeploys s' = tb_redeploys s"
  unfolding restart_worker_def
proof (erule bindT_cases)
  fix x s1
  assume "onNet OtherCause (liftP (bothE (getTenant hub summary t) (resolveExistingOffering hub env t))) s = Some (Inr x, s1)"
    and rest: "(case x of (tenant, offering) \<Rightarrow> case (tenant, offering) of
       (None, _) \<Rightarrow> throwT (deploy_failure ''this workbench no longer exists'')
     | (Some _, None) \<Rightarrow> throwT (deploy_failure ''Connect a model provider in Settings before restarting the worker.'')
     | (Some w, Some off) \<Rightarrow>
         bindT (onNet OtherCause (deployWorkerSource hub env (worker_args_of t (ht_domain w) off True))) (\<lambda>_. returnT ())) s1 = Some (r, s')"
  then have "tb_redeploys s1 = tb_redeploys s" by (simp add: net_keeps)
  moreover have "tb_redeploys s' = tb_redeploys s1"
    using rest by (auto simp: throwT_def returnT_def split: option.splits prod.splits elim!: bindT_cases dest: net_keeps)
  ultimately show ?thesis by simp
qed (simp add: net_keeps)

lemma deploy_existing_keeps: "deployExistingAgent hub env summary t a s = Some (r, s') \<Longrightarrow> tb_redeploys s' = tb_redeploys s"
  by (auto simp: deployExistingAgent_def throwT_def returnT_def restart_keeps split: if_splits option.splits elim!: bindT_cases dest: net_keeps)

text \<open>
  Also shown. A restart that failed is remembered until one succeeds: after a restart the agent counts as failed exactly when the
  restart threw, and no other agent's mark has changed.
\<close>

theorem restart_failure_marked:
  assumes "redeployWorkbenchAgent hub env summary t a s = Some (res, s')"
  shows "hasRedeployFailed (tb_redeploys s') b =
    (if b = pa_id a then (case res of Inl _ \<Rightarrow> True | Inr _ \<Rightarrow> False) else hasRedeployFailed (tb_redeploys s) b)"
proof -
  obtain d s1 where d: "deployExistingAgent hub env summary t a s = Some (d, s1)"
    using assms by (cases "deployExistingAgent hub env summary t a s") (auto simp: redeployWorkbenchAgent_def catchT_def bindT_def)
  have keep: "tb_redeploys s1 = tb_redeploys s" by (rule deploy_existing_keeps [OF d])
  show ?thesis
  proof (cases d)
    case (Inl c)
    with assms d have "res = Inl c" "s' = set_redeploys (markRedeployFailed (pa_id a)) s1"
      by (simp_all add: redeployWorkbenchAgent_def catchT_def bindT_def doneT_def throwT_def)
    with keep show ?thesis by (auto simp: hasRedeployFailed_def set_redeploys_def markRedeployFailed_def set_add_def)
  next
    case (Inr u)
    with assms d have "res = Inr ()" "s' = set_redeploys (clearRedeployFailure (pa_id a)) s1"
      by (simp_all add: redeployWorkbenchAgent_def catchT_def bindT_def doneT_def)
    with keep show ?thesis by (simp add: hasRedeployFailed_def set_redeploys_def clearRedeployFailure_def)
  qed
qed

definition demo_picked :: picked_agent where
  "demo_picked = \<lparr>pa_id = ''a'', pa_name = ''Ed'', pa_assetName = ''notes''\<rparr>"

lemma demo_not_agent: "agentSlugFromSourceAssetName ''notes'' = None"
proof -
  have False if "agentSlugFromSourceAssetName ''notes'' = Some slug" for slug
    using that unfolding agentSlugFromSourceAssetName_def AGENT_DEPLOY_SOURCE_ASSET_NAME_def by code_simp
  then show ?thesis by (cases "agentSlugFromSourceAssetName ''notes''") auto
qed

theorem restart_failure_marked_witness:
  "\<exists>c s'. redeployWorkbenchAgent scripted demo_deploy_env ''s'' ''t'' demo_picked (demo_tab []) = Some (Inl c, s') \<and>
     hasRedeployFailed (tb_redeploys s') ''a''"
proof -
  have "\<exists>c s'. redeployWorkbenchAgent scripted demo_deploy_env ''s'' ''t'' demo_picked (demo_tab []) = Some (Inl c, s')"
    by (simp add: redeployWorkbenchAgent_def deployExistingAgent_def demo_picked_def demo_not_agent worker_assetName_def catchT_def
        bindT_def throwT_def doneT_def)
  then obtain c s' where run: "redeployWorkbenchAgent scripted demo_deploy_env ''s'' ''t'' demo_picked (demo_tab []) = Some (Inl c, s')" by blast
  from restart_failure_marked [OF run, of "''a''"] run show ?thesis by (simp add: demo_picked_def)
qed

text \<open>A restarted agent is deployed without the servers, permissions and roles it had.\<close>

lemma restart_drops_settings:
  "na_mcpHandles (bare_agent name prompt slug again) = [] \<and> na_toolEffects (bare_agent name prompt slug again) = [] \<and>
   na_roles (bare_agent name prompt slug again) = []"
  by (simp add: bare_agent_def)

section \<open>The slug of a workbench is one\<close>

text \<open>\<open>TenantSlug\<close> of \<open>@intx/types\<close>: letters, digits and inner hyphens, at most 63.\<close>

definition tenant_slug :: "string \<Rightarrow> bool" where
  "tenant_slug s \<longleftrightarrow> s \<noteq> [] \<and> length s \<le> 63 \<and> list_all (\<lambda>c. is_alnum c \<or> c = CHR ''-'') s \<and> is_alnum (hd s) \<and> is_alnum (last s)"

lemma slug_char_alnum: "slug_char c \<Longrightarrow> is_alnum c"
  by (auto simp: slug_char_def is_alnum_def)

lemma base36_digit_char: "d < 36 \<Longrightarrow> slug_char (base36_digit d)"
  by (auto simp: slug_char_def is_digit_def is_ascii_lower_def in_range_def base36_digit_def)

lemma base36_chars: "list_all slug_char (base36 n) \<and> base36 n \<noteq> []"
  by (induction n rule: base36.induct) (subst (1 2) base36.simps, auto simp: base36_digit_char)

lemma base36_length: "n < 36 ^ Suc k \<Longrightarrow> length (base36 n) \<le> Suc k"
proof (induction k arbitrary: n)
  case 0
  then show ?case by (subst base36.simps) simp
next
  case (Suc k)
  have "n div 36 < 36 ^ Suc k" using Suc.prems by (simp add: less_mult_imp_div_less mult.commute)
  with Suc.IH show ?case by (subst base36.simps) auto
qed

lemma base36_digit_inject: "c < 36 \<Longrightarrow> d < 36 \<Longrightarrow> base36_digit c = base36_digit d \<Longrightarrow> c = d"
proof -
  assume cd: "c < 36" "d < 36" "base36_digit c = base36_digit d"
  have code: "char_code (base36_digit k) = (if k < 10 then 48 + k else 87 + k)" if "k < 36" for k
    using that by (simp add: base36_digit_def)
  from arg_cong [OF cd(3), of char_code] cd(1,2) show ?thesis by (auto simp: code split: if_splits)
qed

lemma base36_inject: "base36 m = base36 n \<Longrightarrow> m = n"
proof (induction m arbitrary: n rule: base36.induct)
  case (1 m)
  have one: "m < 36 \<longleftrightarrow> length (base36 m) = 1" for m
    using base36_chars [of "m div 36"] by (subst base36.simps) (cases "base36 (m div 36)", auto)
  show ?case
  proof (cases "m < 36")
    case True
    moreover from this one 1(2) have "n < 36" by simp
    ultimately have "base36_digit m = base36_digit n" using 1(2) by (subst (asm) (1 2) base36.simps) simp
    with True \<open>n < 36\<close> show ?thesis using base36_digit_inject by blast
  next
    case False
    moreover from this one 1(2) have "\<not> n < 36" by simp
    ultimately have "base36 (m div 36) @ [base36_digit (m mod 36)] = base36 (n div 36) @ [base36_digit (n mod 36)]"
      using 1(2) by (subst (asm) (1 2) base36.simps) simp
    then have "base36 (m div 36) = base36 (n div 36)" "base36_digit (m mod 36) = base36_digit (n mod 36)" by simp_all
    with 1(1) [OF False] base36_digit_inject have "m div 36 = n div 36" "m mod 36 = n mod 36" by simp_all
    then show ?thesis by (metis div_mult_mod_eq)
  qed
qed

lemma drop_end_hyphens_ok:
  assumes "dashed s"
  shows "list_all (\<lambda>c. slug_char c \<or> c = CHR ''-'') (drop_end_hyphens s) \<and>
    (drop_end_hyphens s = [] \<or> slug_char (hd (drop_end_hyphens s)))"
proof -
  define t where "t = (case s of c # u \<Rightarrow> if c = CHR ''-'' then u else s | [] \<Rightarrow> [])"
  have t: "list_all (\<lambda>c. slug_char c \<or> c = CHR ''-'') t \<and> (t = [] \<or> slug_char (hd t))"
  proof (cases s)
    case Nil
    then show ?thesis by (simp add: t_def)
  next
    case (Cons c u)
    show ?thesis
    proof (cases "c = CHR ''-''")
      case True
      with assms Cons have "list_all (\<lambda>c. slug_char c \<or> c = CHR ''-'') u" "u = [] \<or> hd u \<noteq> CHR ''-''"
        by (cases u; simp add: dashed_def)+
      with True Cons show ?thesis by (cases u) (auto simp: t_def)
    next
      case False
      with assms Cons show ?thesis by (auto simp: t_def dashed_def)
    qed
  qed
  have drop: "drop_end_hyphens s = (if t \<noteq> [] \<and> last t = CHR ''-'' then butlast t else t)"
    by (simp add: drop_end_hyphens_def t_def Let_def)
  show ?thesis
  proof (cases "t \<noteq> [] \<and> last t = CHR ''-''")
    case False
    with t drop show ?thesis by auto
  next
    case True
    with t have "list_all (\<lambda>c. slug_char c \<or> c = CHR ''-'') (butlast t)" "butlast t = [] \<or> slug_char (hd (butlast t))"
      by (auto simp: list_all_iff dest: in_set_butlastD) (cases t; auto split: if_splits)
    with True drop show ?thesis by simp
  qed
qed

text \<open>
  Also shown. The slug a workbench is created under is one the hub takes, whatever its name: letters, digits and inner hyphens,
  at most 63 of them, at every time a JavaScript date can have; and at two different times no two names give the same
  slug.
\<close>

theorem workbench_slug_accepted:
  assumes "now \<le> 8640000000000000" and "now' \<noteq> now"
  shows "tenant_slug (workbenchSlug lower name now) \<and> workbenchSlug lower name' now' \<noteq> workbenchSlug lower name now"
proof
  let ?base = "take 32 (drop_end_hyphens (hyphenate (lower name)))"
  let ?front = "if ?base = [] then ''workbench'' else ?base"
  note ok = drop_end_hyphens_ok [OF hyphenate_dashed, of "lower name"]
  have chars: "list_all (\<lambda>c. is_alnum c \<or> c = CHR ''-'') ?base"
    using ok slug_char_alnum by (auto simp: list_all_iff dest!: in_set_takeD)
  have hd: "is_alnum (hd ?front)"
  proof (cases "?base = []")
    case True
    then show ?thesis by (simp add: is_alnum_def is_ascii_lower_def in_range_def char_code_def)
  next
    case False
    with ok slug_char_alnum show ?thesis by (cases "drop_end_hyphens (hyphenate (lower name))") auto
  qed
  have word: "list_all is_alnum ''workbench''" by (simp add: is_alnum_def is_ascii_lower_def in_range_def char_code_def)
  have front: "list_all (\<lambda>c. is_alnum c \<or> c = CHR ''-'') ?front" "length ?front \<le> 32" "?front \<noteq> []"
    using chars word by (auto simp: list_all_iff)
  have digits: "list_all is_alnum (base36 now)" "base36 now \<noteq> []"
    using base36_chars [of now] slug_char_alnum by (auto simp: list_all_iff)
  have "now < 36 ^ Suc 10" using assms(1) by (rule le_less_trans) simp
  then have "length (base36 now) \<le> Suc 10" by (rule base36_length)
  then have "length (workbenchSlug lower name now) \<le> 63" using front(2) by (simp add: workbenchSlug_def Let_def)
  moreover have "is_alnum (last (base36 now))" using digits by (auto simp: list_all_iff)
  moreover have slug: "workbenchSlug lower name now = ?front @ CHR ''-'' # base36 now" by (simp add: workbenchSlug_def Let_def)
  moreover have "list_all (\<lambda>c. is_alnum c \<or> c = CHR ''-'') (base36 now)" using digits(1) by (auto simp: list_all_iff)
  ultimately show "tenant_slug (workbenchSlug lower name now)"
    unfolding tenant_slug_def slug using front hd digits(2) by simp
  show "workbenchSlug lower name' now' \<noteq> workbenchSlug lower name now"
  proof
    assume eq: "workbenchSlug lower name' now' = workbenchSlug lower name now"
    have tail: "rev (takeWhile (\<lambda>c. c \<noteq> CHR ''-'') (rev (workbenchSlug lower nm k))) = base36 k" for nm k
    proof -
      have "c \<noteq> CHR ''-''" if "c \<in> set (rev (base36 k))" for c
        using that base36_chars [of k] hyphen_not_slug by (auto simp: list_all_iff)
      then have "takeWhile (\<lambda>c. c \<noteq> CHR ''-'') (rev (base36 k) @ CHR ''-'' # ys) = rev (base36 k)" for ys
        by (subst takeWhile_append2) auto
      then show ?thesis by (simp add: workbenchSlug_def Let_def)
    qed
    from eq tail [of name' now'] tail [of name now] have "base36 now' = base36 now" by simp
    then have "now' = now" by (rule base36_inject)
    with assms(2) show False by blast
  qed
qed

theorem workbench_slug_accepted_witness:
  "tenant_slug (workbenchSlug id ''My team!'' 1700000000000) \<and>
   workbenchSlug id ''My team!'' 1700000000001 \<noteq> workbenchSlug id ''My team!'' 1700000000000"
  using workbench_slug_accepted [of 1700000000000 1700000000001 id "''My team!''" "''My team!''"] by simp

end
