(* ===== verification/Deployable_Package.thy ===== *)
theory Deployable_Package
  imports Workbench_Chat
begin

text \<open>
  The package an agent offers in a message, \<open>apps/web/src/chat/deployable-package.ts\<close>: its two files as attachments, or
  as two named fenced blocks of the body, which are then taken out of what is rendered.

  \<open>package_env\<close> holds \<open>JSON.parse\<close> and what the schema library says of a definition that does not fit.
\<close>

record package_env =
  pe_parse :: "string \<Rightarrow> json option"
  pe_manifest_field :: "json \<Rightarrow> string"
  pe_definition_field :: "json \<Rightarrow> string"
  pe_definition_problem :: "json \<Rightarrow> string option"

record deployable_package =
  dk_name :: string
  dk_systemPrompt :: string
  dk_description :: "string option"
  dk_schedule :: "string option"
  dk_mcpHandles :: "string list option"

definition PACKAGE_MANIFEST_NAME :: string where "PACKAGE_MANIFEST_NAME = ''package.json''"
definition AGENT_DEFINITION_NAME :: string where "AGENT_DEFINITION_NAME = ''definition.json''"

text \<open>A rejection with its reason, or the package.\<close>

type_synonym package_outcome = "string + deployable_package"

section \<open>Fields\<close>

text \<open>\<open>s.split(/\s+/)\<close>.\<close>

function split_spaces :: "string \<Rightarrow> string list" where
  "split_spaces s =
     (case dropWhile (\<lambda>c. \<not> is_space c) s of
        [] \<Rightarrow> [s]
      | _ # rest \<Rightarrow> takeWhile (\<lambda>c. \<not> is_space c) s # split_spaces (dropWhile is_space rest))"
  by pat_completeness auto
termination
proof (relation "measure length")
  fix s c and rest :: string
  assume "dropWhile (\<lambda>c. \<not> is_space c) s = c # rest"
  then have "Suc (length rest) \<le> length s" using length_dropWhile_le [of "\<lambda>c. \<not> is_space c" s] by simp
  moreover have "length (dropWhile is_space rest) \<le> length rest" by (rule length_dropWhile_le)
  ultimately show "(dropWhile is_space rest, s) \<in> measure length" by simp
qed simp

declare split_spaces.simps [simp del]

definition isFiveFieldCron :: "string \<Rightarrow> bool" where
  "isFiveFieldCron schedule \<longleftrightarrow> length (split_spaces (trim schedule)) = 5"

section \<open>The two files\<close>

definition definitionRejectionReason :: "package_env \<Rightarrow> json \<Rightarrow> string" where
  "definitionRejectionReason env j =
     (let field = pe_definition_field env j in
      case pe_definition_problem env j of
        None \<Rightarrow> ''definition.json is missing '' @ field
      | Some problem \<Rightarrow> ''definition.json's '' @ field @ '' '' @ problem)"

text \<open>The schema of the manifest: an object (an array is one, without a name) whose name, if any, is a string.\<close>

definition parse_manifest :: "json \<Rightarrow> string option option" where
  "parse_manifest j = (case j of JObj _ \<Rightarrow> opt_field as_str ''name'' j | JArr _ \<Rightarrow> Some None | _ \<Rightarrow> None)"

definition parse_definition :: "json \<Rightarrow> (string option \<times> deployable_package) option" where
  "parse_definition j =
     (case (opt_field as_str ''name'' j, str_field ''systemPrompt'' j, opt_field as_str ''description'' j,
            opt_field as_str ''schedule'' j, opt_field (array_of as_str) ''mcpHandles'' j) of
        (Some n, Some p, Some d, Some s, Some h) \<Rightarrow>
          Some (n, \<lparr>dk_name = [], dk_systemPrompt = p, dk_description = d, dk_schedule = s, dk_mcpHandles = h\<rparr>)
      | _ \<Rightarrow> None)"

text \<open>\<open>definition.name?.trim() || manifest.name?.trim()\<close>.\<close>

definition package_name :: "string option \<Rightarrow> string option \<Rightarrow> string option" where
  "package_name fromDefinition fromManifest =
     (case map_option trim fromDefinition of Some (c # s) \<Rightarrow> Some (c # s) | _ \<Rightarrow> map_option trim fromManifest)"

definition usable_handles :: "string list \<Rightarrow> string list" where
  "usable_handles hs = filter (\<lambda>h. h \<noteq> []) (map trim hs)"

definition build_package :: "string option \<Rightarrow> string option \<times> deployable_package \<Rightarrow> package_outcome" where
  "build_package fromManifest d =
     (case package_name (fst d) fromManifest of
        None \<Rightarrow> Inl ''definition.json is missing name''
      | Some name \<Rightarrow>
          if name = [] then Inl ''definition.json is missing name''
          else if trim (dk_systemPrompt (snd d)) = [] then Inl ''definition.json is missing systemPrompt''
          else Inr ((snd d)\<lparr>dk_name := name, dk_mcpHandles := map_option usable_handles (dk_mcpHandles (snd d))\<rparr>))"

text \<open>The outcome, with the parse failures that are reported.\<close>

definition parsePackageFiles :: "package_env \<Rightarrow> string \<Rightarrow> string \<Rightarrow> package_outcome \<times> string list" where
  "parsePackageFiles env manifestText definitionText =
     (case pe_parse env manifestText of
        None \<Rightarrow> (Inl ''package.json is not valid JSON'', [''chat_deployable_package_manifest_parse''])
      | Some m \<Rightarrow>
          (case parse_manifest m of
             None \<Rightarrow> (Inl (''package.json's '' @ pe_manifest_field env m @ '' is invalid''), [])
           | Some fromManifest \<Rightarrow>
               (case pe_parse env definitionText of
                  None \<Rightarrow> (Inl ''definition.json is not valid JSON'', [''chat_deployable_package_definition_parse''])
                | Some d \<Rightarrow>
                    (case parse_definition d of
                       None \<Rightarrow> (Inl (definitionRejectionReason env d), [])
                     | Some p \<Rightarrow> (build_package fromManifest p, [])))))"

definition attached :: "string \<Rightarrow> attachment list \<Rightarrow> attachment option" where
  "attached name = find (\<lambda>a. at_name a = name)"

definition deployablePackage :: "package_env \<Rightarrow> attachment list \<Rightarrow> (package_outcome \<times> string list) option" where
  "deployablePackage env attachments =
     (case (attached PACKAGE_MANIFEST_NAME attachments, attached AGENT_DEFINITION_NAME attachments) of
        (Some m, Some d) \<Rightarrow> Some (parsePackageFiles env (at_text m) (at_text d))
      | _ \<Rightarrow> None)"

section \<open>Named fences\<close>

definition backtick :: char where "backtick = CHR 0x60"

definition strip_comment :: "string \<Rightarrow> string" where
  "strip_comment s =
     (if starts_with ''//'' s then dropWhile is_space (drop 2 s)
      else if starts_with ''#'' s then dropWhile is_space (drop 1 s) else s)"

definition strip_colon :: "string \<Rightarrow> string" where
  "strip_colon s = (if s \<noteq> [] \<and> last s = CHR '':'' then butlast s else s)"

definition namedFile :: "string \<Rightarrow> string option" where
  "namedFile s =
     (let ticked = dropWhile (\<lambda>c. c = backtick) (strip_comment (trim s));
          stripped = trim (strip_colon (rev (dropWhile (\<lambda>c. c = backtick) (rev ticked))));
          base = to_lower (last (split_on CHR ''/'' stripped)) in
      if base = PACKAGE_MANIFEST_NAME then Some PACKAGE_MANIFEST_NAME
      else if base = AGENT_DEFINITION_NAME then Some AGENT_DEFINITION_NAME
      else None)"

definition namedFileFromInfoString :: "string \<Rightarrow> string option" where
  "namedFileFromInfoString info =
     (case namedFile info of Some n \<Rightarrow> Some n | None \<Rightarrow> namedFile (last (split_spaces (trim info))))"

record fenced_block =
  fb_content :: string
  fb_start :: nat
  fb_end :: nat

definition fence :: string where "fence = [backtick, backtick, backtick]"

definition fence_info :: "string \<Rightarrow> string option" where
  "fence_info line =
     (let t = trim line in if starts_with fence t \<and> list_all (\<lambda>c. \<not> line_end c) (drop 3 t) then Some (drop 3 t) else None)"

definition closes :: "string \<Rightarrow> bool" where
  "closes line \<longleftrightarrow> trim line = fence"

definition newline :: char where "newline = CHR 0x0A"

definition content_of :: "string list \<Rightarrow> nat \<Rightarrow> string list" where
  "content_of lines i = takeWhile (\<lambda>l. \<not> closes l) (drop (Suc i) lines)"

definition block_end :: "string list \<Rightarrow> nat \<Rightarrow> nat" where
  "block_end lines i = min (Suc (Suc (i + length (content_of lines i)))) (length lines)"

text \<open>The label above the fence, when the fence names no file itself.\<close>

definition label_above :: "string list \<Rightarrow> nat \<Rightarrow> string option" where
  "label_above lines i = (if 0 < i then namedFile (lines ! (i - 1)) else None)"

text \<open>The label on the first line with a text, and what follows it.\<close>

definition label_inside :: "string list \<Rightarrow> (string \<times> string list) option" where
  "label_inside content =
     (case dropWhile (\<lambda>l. trim l = []) content of
        [] \<Rightarrow> None
      | l # rest \<Rightarrow> map_option (\<lambda>n. (n, rest)) (namedFile l))"

definition block_at :: "string list \<Rightarrow> nat \<Rightarrow> string \<Rightarrow> (string \<times> fenced_block) option" where
  "block_at lines i info =
     (let content = content_of lines i;
          block = (\<lambda>ls start. \<lparr>fb_content = join [newline] ls, fb_start = start, fb_end = block_end lines i\<rparr>) in
      case namedFileFromInfoString info of
        Some n \<Rightarrow> Some (n, block content i)
      | None \<Rightarrow>
          (case label_above lines i of
             Some n \<Rightarrow> Some (n, block content (i - 1))
           | None \<Rightarrow> map_option (\<lambda>(n, rest). (n, block rest i)) (label_inside content)))"

definition add_found :: "(string \<times> fenced_block) option \<Rightarrow> (string \<times> fenced_block) list \<Rightarrow> (string \<times> fenced_block) list" where
  "add_found b found =
     (case b of None \<Rightarrow> found | Some (n, block) \<Rightarrow> if map_of found n = None then found @ [(n, block)] else found)"

function find_blocks :: "string list \<Rightarrow> nat \<Rightarrow> (string \<times> fenced_block) list \<Rightarrow> (string \<times> fenced_block) list" where
  "find_blocks lines i found =
     (if i < length lines then
        (case fence_info (lines ! i) of
           None \<Rightarrow> find_blocks lines (Suc i) found
         | Some info \<Rightarrow> find_blocks lines (block_end lines i) (add_found (block_at lines i info) found))
      else found)"
  by pat_completeness auto
termination by (relation "measure (\<lambda>(lines, i, found). length lines - i)") (auto simp: block_end_def)

declare find_blocks.simps [simp del]

definition findNamedFencedBlocks :: "string list \<Rightarrow> (string \<times> fenced_block) list" where
  "findNamedFencedBlocks lines = find_blocks lines 0 []"

section \<open>The body of a message\<close>

fun kept_lines :: "string list \<Rightarrow> nat \<Rightarrow> fenced_block list \<Rightarrow> string list" where
  "kept_lines lines cursor [] = drop cursor lines"
| "kept_lines lines cursor (r # rs) = take (fb_start r - cursor) (drop cursor lines) @ kept_lines lines (fb_end r) rs"

text \<open>\<open>replace(/\n{3,}/g, "\n\n")\<close>.\<close>

function squeeze :: "string \<Rightarrow> string" where
  "squeeze [] = []"
| "squeeze (c # s) =
     (if c \<noteq> newline then c # squeeze s
      else (let n = length (takeWhile (\<lambda>d. d = newline) s) in
            (if 2 \<le> n then [newline, newline] else replicate (Suc n) newline) @ squeeze (dropWhile (\<lambda>d. d = newline) s)))"
  by pat_completeness auto
termination by (relation "measure length") (auto simp: le_imp_less_Suc length_dropWhile_le)

definition stripped_body :: "string list \<Rightarrow> fenced_block \<Rightarrow> fenced_block \<Rightarrow> string" where
  "stripped_body lines m d =
     trim (squeeze (join [newline] (kept_lines lines 0 (js_sort (\<lambda>a b. fb_start a \<le> fb_start b) [m, d]))))"

definition deployablePackageFromBody :: "package_env \<Rightarrow> string \<Rightarrow> ((package_outcome \<times> string list) \<times> string) option" where
  "deployablePackageFromBody env body =
     (let lines = split_on newline body; blocks = findNamedFencedBlocks lines in
      case (map_of blocks PACKAGE_MANIFEST_NAME, map_of blocks AGENT_DEFINITION_NAME) of
        (Some m, Some d) \<Rightarrow> Some (parsePackageFiles env (fb_content m) (fb_content d), stripped_body lines m d)
      | _ \<Rightarrow> None)"

text \<open>The package of a message, the parse failures that are reported, and the body to render.\<close>

definition resolveMessagePackage :: "package_env \<Rightarrow> attachment list \<Rightarrow> string \<Rightarrow> package_outcome option \<times> string list \<times> string" where
  "resolveMessagePackage env attachments body =
     (case deployablePackage env attachments of
        Some (outcome, reports) \<Rightarrow> (Some outcome, reports, body)
      | None \<Rightarrow>
          (case deployablePackageFromBody env body of
             Some ((outcome, reports), stripped) \<Rightarrow> (Some outcome, reports, stripped)
           | None \<Rightarrow> (None, [], body)))"

text \<open>The colon is taken off after the backticks, so a code span before a colon names no file.\<close>

lemma label_with_colon_missed:
  "namedFile (backtick # PACKAGE_MANIFEST_NAME @ [backtick, CHR '':'']) = None \<and>
   namedFile (backtick # PACKAGE_MANIFEST_NAME @ [CHR '':'', backtick]) = Some PACKAGE_MANIFEST_NAME"
  by code_simp

section \<open>What is taken out of the body\<close>

lemma namedFile_closing: "closes line \<Longrightarrow> namedFile line = None"
proof -
  assume "closes line"
  then have "trim line = fence" by (simp add: closes_def)
  then show ?thesis
    by (simp add: namedFile_def strip_comment_def fence_def backtick_def starts_with_def strip_colon_def trim_def trim_start_def
        trim_end_def PACKAGE_MANIFEST_NAME_def AGENT_DEFINITION_NAME_def to_lower_def)
qed

text \<open>The blocks found so far, when the search is at line \<open>i\<close>.\<close>

definition blocks_ok :: "string list \<Rightarrow> nat \<Rightarrow> (string \<times> fenced_block) list \<Rightarrow> bool" where
  "blocks_ok lines i found \<longleftrightarrow>
     sorted_wrt (\<lambda>a b. fb_end (snd a) \<le> fb_start (snd b)) found \<and> distinct (map fst found) \<and>
     list_all (\<lambda>(_, b). fb_start b < fb_end b \<and> fb_end b \<le> i \<and> fb_end b \<le> length lines \<and>
       (fb_end b = i \<longrightarrow> i < length lines \<longrightarrow> closes (lines ! (i - 1)))) found"

lemma closing_line:
  assumes "i < length lines" and "block_end lines i < length lines"
  shows "closes (lines ! (block_end lines i - 1))"
proof -
  let ?d = "drop (Suc i) lines"
  from assms have n: "length (content_of lines i) < length ?d" "block_end lines i = Suc (Suc (i + length (content_of lines i)))"
    by (auto simp: block_end_def)
  then have "\<not> \<not> closes (?d ! length (content_of lines i))"
    unfolding content_of_def by (rule_tac nth_length_takeWhile) simp
  with n show ?thesis by simp
qed

lemma block_end_bounds: "i < length lines \<Longrightarrow> i < block_end lines i \<and> block_end lines i \<le> length lines"
  by (auto simp: block_end_def)

lemma block_at_range:
  "block_at lines i info = Some (n, b) \<Longrightarrow>
   fb_end b = block_end lines i \<and> (fb_start b = i \<or> 0 < i \<and> fb_start b = i - 1 \<and> namedFile (lines ! (i - 1)) \<noteq> None)"
  by (auto simp: block_at_def label_above_def Let_def split: option.splits if_splits)

lemma blocks_step:
  assumes ok: "blocks_ok lines i found" and i: "i < length lines"
  shows "blocks_ok lines (block_end lines i) (add_found (block_at lines i info) found)"
proof -
  note e = block_end_bounds [OF i]
  have old: "blocks_ok lines (block_end lines i) found"
    using ok e by (fastforce simp: blocks_ok_def list_all_iff)
  show ?thesis
  proof (cases "\<exists>n b. block_at lines i info = Some (n, b) \<and> map_of found n = None")
    case False
    then show ?thesis using old by (auto simp: add_found_def split: option.splits)
  next
    case True
    then obtain n b where b: "block_at lines i info = Some (n, b)" and new: "map_of found n = None" by blast
    note r = block_at_range [OF b]
    have before: "fb_end c \<le> fb_start b" if "(m, c) \<in> set found" for m c
    proof -
      from ok that have c: "fb_end c \<le> i" "fb_end c = i \<longrightarrow> closes (lines ! (i - 1))"
        using i by (auto simp: blocks_ok_def list_all_iff)
      with r namedFile_closing show ?thesis by (cases "fb_end c = i") auto
    qed
    have "fb_start b < fb_end b" using r e by auto
    moreover have "closes (lines ! (block_end lines i - 1))" if "block_end lines i < length lines"
      using closing_line [OF i that] .
    moreover have "n \<notin> fst ` set found" using new by (simp add: map_of_eq_None_iff)
    ultimately show ?thesis using old b new r e before
      by (auto simp: add_found_def blocks_ok_def sorted_wrt_append list_all_iff)
  qed
qed

lemma blocks_skip: "blocks_ok lines i found \<Longrightarrow> blocks_ok lines (Suc i) found"
  by (fastforce simp: blocks_ok_def list_all_iff)

lemma find_blocks_ok: "blocks_ok lines i found \<Longrightarrow> \<exists>k. blocks_ok lines k (find_blocks lines i found)"
proof (induction lines i found rule: find_blocks.induct)
  case (1 lines i found)
  show ?case
  proof (cases "i < length lines")
    case False
    with 1(3) show ?thesis by (subst find_blocks.simps) auto
  next
    case i: True
    show ?thesis
    proof (cases "fence_info (lines ! i)")
      case None
      with 1(1) [OF i None] 1(3) i blocks_skip show ?thesis by (subst find_blocks.simps) auto
    next
      case (Some info)
      with 1(2) [OF i Some] blocks_step [OF 1(3) i] i show ?thesis by (subst find_blocks.simps) auto
    qed
  qed
qed

lemma found_ok:
  assumes "map_of (findNamedFencedBlocks lines) n = Some b"
  shows "fb_start b < fb_end b \<and> fb_end b \<le> length lines"
proof -
  obtain k where "blocks_ok lines k (findNamedFencedBlocks lines)"
    using find_blocks_ok [of lines 0 "[]"] by (auto simp: blocks_ok_def findNamedFencedBlocks_def)
  with map_of_SomeD [OF assms] show ?thesis by (auto simp: blocks_ok_def list_all_iff)
qed

lemma found_apart:
  assumes "map_of (findNamedFencedBlocks lines) n = Some b" and "map_of (findNamedFencedBlocks lines) m = Some c" and "n \<noteq> m"
  shows "fb_end b \<le> fb_start c \<or> fb_end c \<le> fb_start b"
proof -
  let ?found = "findNamedFencedBlocks lines"
  obtain k where ok: "blocks_ok lines k ?found"
    using find_blocks_ok [of lines 0 "[]"] by (auto simp: blocks_ok_def findNamedFencedBlocks_def)
  from map_of_SomeD [OF assms(1)] obtain i where i: "i < length ?found" "?found ! i = (n, b)" by (meson in_set_conv_nth)
  from map_of_SomeD [OF assms(2)] obtain j where j: "j < length ?found" "?found ! j = (m, c)" by (meson in_set_conv_nth)
  have "sorted_wrt (\<lambda>a b. fb_end (snd a) \<le> fb_start (snd b)) ?found" using ok by (simp add: blocks_ok_def)
  then have "x < y \<Longrightarrow> y < length ?found \<Longrightarrow> fb_end (snd (?found ! x)) \<le> fb_start (snd (?found ! y))" for x y
    by (rule sorted_wrt_nth_less)
  moreover have "i \<noteq> j" using i j assms(3) by auto
  ultimately show ?thesis using i j by (metis linorder_neqE_nat snd_conv)
qed

definition inside :: "nat \<Rightarrow> fenced_block \<Rightarrow> bool" where
  "inside k b \<longleftrightarrow> fb_start b \<le> k \<and> k < fb_end b"

lemma upt_split: "i \<le> j \<Longrightarrow> j \<le> k \<Longrightarrow> [i..<k] = [i..<j] @ [j..<k]"
  by (metis le_add_diff_inverse upt_add_eq_append)

lemma kept_outside:
  "cursor \<le> length lines \<Longrightarrow> sorted_wrt (\<lambda>a b. fb_end a \<le> fb_start b) rs \<Longrightarrow>
   list_all (\<lambda>r. cursor \<le> fb_start r \<and> fb_start r \<le> fb_end r \<and> fb_end r \<le> length lines) rs \<Longrightarrow>
   kept_lines lines cursor rs = map ((!) lines) (filter (\<lambda>k. \<not> list_ex (inside k) rs) [cursor..<length lines])"
proof (induction rs arbitrary: cursor)
  case Nil
  have "drop cursor lines = map ((!) lines) [cursor..<length lines]" by (rule nth_equalityI) (use Nil in simp_all)
  then show ?case by simp
next
  case (Cons r rs)
  from Cons.prems have r: "cursor \<le> fb_start r" "fb_start r \<le> fb_end r" "fb_end r \<le> length lines"
    "\<forall>q \<in> set rs. fb_end r \<le> fb_start q" by (auto simp: list_all_iff)
  have IH: "kept_lines lines (fb_end r) rs = map ((!) lines) (filter (\<lambda>k. \<not> list_ex (inside k) rs) [fb_end r..<length lines])"
    using Cons.prems r by (intro Cons.IH) (auto simp: list_all_iff)
  have ranges: "[cursor..<length lines] = [cursor..<fb_start r] @ [fb_start r..<fb_end r] @ [fb_end r..<length lines]"
    using r upt_split [of cursor "fb_start r" "length lines"] upt_split [of "fb_start r" "fb_end r" "length lines"] by simp
  have front: "filter (\<lambda>k. \<not> list_ex (inside k) (r # rs)) [cursor..<fb_start r] = [cursor..<fb_start r]"
    using r by (intro filter_True) (auto simp: inside_def list_ex_iff)
  have mid: "filter (\<lambda>k. \<not> list_ex (inside k) (r # rs)) [fb_start r..<fb_end r] = []" by (auto simp: inside_def filter_empty_conv)
  have behind: "filter (\<lambda>k. \<not> list_ex (inside k) (r # rs)) [fb_end r..<length lines] = filter (\<lambda>k. \<not> list_ex (inside k) rs) [fb_end r..<length lines]"
    by (rule filter_cong) (auto simp: inside_def)
  have "take (fb_start r - cursor) (drop cursor lines) = map ((!) lines) [cursor..<fb_start r]"
    by (rule nth_equalityI) (use r Cons.prems(1) in auto)
  with IH ranges front mid behind show ?case by simp
qed

text \<open>
  Also shown. What is rendered of a message that offers a package in its body is the message without exactly the lines of its two
  blocks: the blocks are two ranges of its lines that do not overlap, every line outside both is kept, in order, and
  then runs of empty lines are shortened and the ends trimmed.
\<close>

theorem body_without_blocks:
  assumes "deployablePackageFromBody env body = Some (outcome, rendered)"
  shows "\<exists>m d. map_of (findNamedFencedBlocks (split_on newline body)) PACKAGE_MANIFEST_NAME = Some m \<and>
    map_of (findNamedFencedBlocks (split_on newline body)) AGENT_DEFINITION_NAME = Some d \<and>
    (fb_end m \<le> fb_start d \<or> fb_end d \<le> fb_start m) \<and>
    outcome = parsePackageFiles env (fb_content m) (fb_content d) \<and>
    rendered = trim (squeeze (join [newline] (map ((!) (split_on newline body))
      (filter (\<lambda>k. \<not> inside k m \<and> \<not> inside k d) [0..<length (split_on newline body)]))))"
proof -
  let ?lines = "split_on newline body" and ?le = "\<lambda>a b. fb_start a \<le> fb_start b"
  from assms obtain m d where m: "map_of (findNamedFencedBlocks ?lines) PACKAGE_MANIFEST_NAME = Some m"
    and d: "map_of (findNamedFencedBlocks ?lines) AGENT_DEFINITION_NAME = Some d"
    and out: "outcome = parsePackageFiles env (fb_content m) (fb_content d)" and rendered: "rendered = stripped_body ?lines m d"
    by (auto simp: deployablePackageFromBody_def Let_def split: option.splits)
  have apart: "fb_end m \<le> fb_start d \<or> fb_end d \<le> fb_start m"
    using m d by (rule found_apart) (simp add: PACKAGE_MANIFEST_NAME_def AGENT_DEFINITION_NAME_def)
  note okm = found_ok [OF m] and okd = found_ok [OF d]
  have "kept_lines ?lines 0 (js_sort ?le [m, d]) =
      map ((!) ?lines) (filter (\<lambda>k. \<not> list_ex (inside k) (js_sort ?le [m, d])) [0..<length ?lines])"
    using okm okd apart by (intro kept_outside) (auto split: if_splits)
  moreover have "(\<lambda>k. \<not> list_ex (inside k) (js_sort ?le [m, d])) = (\<lambda>k. \<not> inside k m \<and> \<not> inside k d)" by auto
  ultimately have "kept_lines ?lines 0 (js_sort ?le [m, d]) =
      map ((!) ?lines) (filter (\<lambda>k. \<not> inside k m \<and> \<not> inside k d) [0..<length ?lines])" by simp
  with m d apart out rendered show ?thesis unfolding stripped_body_def by auto
qed

section \<open>A package written into a message is read back\<close>

text \<open>A line of the message around the two files, and a line of a file.\<close>

definition plain_line :: "string \<Rightarrow> bool" where
  "plain_line l \<longleftrightarrow> newline \<notin> set l \<and> fence_info l = None"

definition file_line :: "string \<Rightarrow> bool" where
  "file_line l \<longleftrightarrow> newline \<notin> set l \<and> \<not> closes l"

definition fenced :: "string \<Rightarrow> string list \<Rightarrow> string list" where
  "fenced name content = (fence @ name) # content @ [fence]"

lemma skip_plain:
  "list_all plain_line seg \<Longrightarrow> find_blocks (us @ seg @ vs) (length us) found = find_blocks (us @ seg @ vs) (length us + length seg) found"
proof (induction seg arbitrary: us)
  case Nil
  then show ?case by simp
next
  case (Cons l seg)
  have "find_blocks (us @ (l # seg) @ vs) (length us) found = find_blocks (us @ (l # seg) @ vs) (Suc (length us)) found"
    using Cons.prems by (subst find_blocks.simps) (simp add: plain_line_def nth_append)
  also have "\<dots> = find_blocks (us @ (l # seg) @ vs) (length us + length (l # seg)) found"
    using Cons.IH [of "us @ [l]"] Cons.prems by simp
  finally show ?case .
qed

lemma closes_fence: "closes fence"
  by (simp add: closes_def fence_def backtick_def trim_def trim_start_def trim_end_def is_space_def in_range_def char_code_def)

lemma content_fenced:
  "list_all file_line content \<Longrightarrow> content_of (us @ fenced name content @ vs) (length us) = content"
  unfolding content_of_def fenced_def using closes_fence
  by (simp add: takeWhile_append2 list_all_iff file_line_def)

lemma read_fenced:
  assumes "list_all file_line content" and "fence_info (fence @ name) = Some name" and "namedFileFromInfoString name = Some name"
    and "map_of found name = None"
  shows "find_blocks (us @ fenced name content @ vs) (length us) found =
    find_blocks (us @ fenced name content @ vs) (length us + length (fenced name content))
      (found @ [(name, \<lparr>fb_content = join [newline] content, fb_start = length us, fb_end = length us + length (fenced name content)\<rparr>)])"
proof -
  let ?lines = "us @ fenced name content @ vs"
  have e: "block_end ?lines (length us) = length us + length (fenced name content)"
    unfolding block_end_def content_fenced [OF assms(1)] by (simp add: fenced_def)
  have line: "?lines ! length us = fence @ name" by (simp add: fenced_def nth_append)
  have "block_at ?lines (length us) name =
      Some (name, \<lparr>fb_content = join [newline] content, fb_start = length us, fb_end = length us + length (fenced name content)\<rparr>)"
    unfolding block_at_def content_fenced [OF assms(1)] e assms(3) by simp
  with assms(4) e show ?thesis
    by (subst find_blocks.simps) (simp add: line assms(2) add_found_def fenced_def)
qed

lemma names_read:
  "fence_info (fence @ PACKAGE_MANIFEST_NAME) = Some PACKAGE_MANIFEST_NAME"
  "fence_info (fence @ AGENT_DEFINITION_NAME) = Some AGENT_DEFINITION_NAME"
  "namedFileFromInfoString PACKAGE_MANIFEST_NAME = Some PACKAGE_MANIFEST_NAME"
  "namedFileFromInfoString AGENT_DEFINITION_NAME = Some AGENT_DEFINITION_NAME"
  by code_simp+

lemma find_blocks_end: "find_blocks lines (length lines) found = found"
  by (subst find_blocks.simps) simp

lemma find_written:
  assumes "list_all plain_line before" "list_all plain_line between" "list_all plain_line after"
    and "list_all file_line m" "list_all file_line d"
  defines "a \<equiv> before @ fenced PACKAGE_MANIFEST_NAME m"
  defines "b \<equiv> a @ between @ fenced AGENT_DEFINITION_NAME d"
  shows "findNamedFencedBlocks (b @ after) =
    [(PACKAGE_MANIFEST_NAME, \<lparr>fb_content = join [newline] m, fb_start = length before, fb_end = length a\<rparr>),
     (AGENT_DEFINITION_NAME, \<lparr>fb_content = join [newline] d, fb_start = length a + length between, fb_end = length b\<rparr>)]"
proof -
  let ?M = "fenced PACKAGE_MANIFEST_NAME m" and ?D = "fenced AGENT_DEFINITION_NAME d" and ?all = "b @ after"
  let ?fm = "(PACKAGE_MANIFEST_NAME, \<lparr>fb_content = join [newline] m, fb_start = length before, fb_end = length a\<rparr>)"
  let ?fd = "(AGENT_DEFINITION_NAME, \<lparr>fb_content = join [newline] d, fb_start = length a + length between, fb_end = length b\<rparr>)"
  have all: "?all = [] @ before @ (?M @ between @ ?D @ after)" "?all = before @ ?M @ (between @ ?D @ after)"
    "?all = a @ between @ (?D @ after)" "?all = (a @ between) @ ?D @ after"
    by (simp_all add: a_def b_def)
  have la: "length before + length ?M = length a" and lb: "length a + length between + length ?D = length b" by (simp_all add: a_def b_def)
  have second: "find_blocks ((a @ between) @ ?D @ after) (length (a @ between)) [?fm] =
      find_blocks ((a @ between) @ ?D @ after) (length (a @ between) + length ?D)
        ([?fm] @ [(AGENT_DEFINITION_NAME, \<lparr>fb_content = join [newline] d, fb_start = length (a @ between), fb_end = length (a @ between) + length ?D\<rparr>)])"
    by (rule read_fenced [OF assms(5) names_read(2,4)]) (simp add: PACKAGE_MANIFEST_NAME_def AGENT_DEFINITION_NAME_def)
  have "find_blocks ?all 0 [] = find_blocks ?all (length before) []"
    using skip_plain [OF assms(1), of "[]" "?M @ between @ ?D @ after" "[]"] all(1) by simp
  also have "\<dots> = find_blocks ?all (length a) [?fm]"
    using read_fenced [OF assms(4) names_read(1,3), of "[]" before "between @ ?D @ after"] all(2) la by simp
  also have "\<dots> = find_blocks ?all (length (a @ between)) [?fm]"
    using skip_plain [OF assms(2), of a "?D @ after" "[?fm]"] all(3) by simp
  also have "\<dots> = find_blocks ?all (length b) [?fm, ?fd]"
    using second unfolding length_append lb all(4) [symmetric] append_Cons append_Nil .
  also have "\<dots> = find_blocks ?all (length ?all) [?fm, ?fd]"
    using skip_plain [OF assms(3), of b "[]" "[?fm, ?fd]"] by simp
  also have "\<dots> = [?fm, ?fd]" by (rule find_blocks_end)
  finally show ?thesis by (simp add: findNamedFencedBlocks_def)
qed

text \<open>
  C33. A package written into a message is read back: of lines without fences with the two files between them, each in
  a fence that names it, the two texts come out as they were written, and what is rendered is the lines around them.
\<close>

theorem written_package_read:
  assumes "list_all plain_line before" "list_all plain_line between" "list_all plain_line after"
    and "list_all file_line m" "list_all file_line d"
  shows "deployablePackageFromBody env (join [newline]
      (before @ fenced PACKAGE_MANIFEST_NAME m @ between @ fenced AGENT_DEFINITION_NAME d @ after)) =
    Some (parsePackageFiles env (join [newline] m) (join [newline] d), trim (squeeze (join [newline] (before @ between @ after))))"
proof -
  let ?M = "fenced PACKAGE_MANIFEST_NAME m" and ?D = "fenced AGENT_DEFINITION_NAME d"
  let ?lines = "before @ ?M @ between @ ?D @ after"
  have free: "newline \<notin> set l" if "l \<in> set ?lines" for l
  proof -
    have "newline \<notin> set fence" "newline \<notin> set PACKAGE_MANIFEST_NAME" "newline \<notin> set AGENT_DEFINITION_NAME"
      by (simp_all add: newline_def fence_def backtick_def PACKAGE_MANIFEST_NAME_def AGENT_DEFINITION_NAME_def)
    with that assms show ?thesis by (auto simp: fenced_def plain_line_def file_line_def list_all_iff)
  qed
  have lines: "split_on newline (join [newline] ?lines) = ?lines"
    by (rule split_on_join) (use free in \<open>auto simp: fenced_def\<close>)
  have "findNamedFencedBlocks ?lines =
    [(PACKAGE_MANIFEST_NAME, \<lparr>fb_content = join [newline] m, fb_start = length before, fb_end = length before + length ?M\<rparr>),
     (AGENT_DEFINITION_NAME, \<lparr>fb_content = join [newline] d, fb_start = length before + length ?M + length between,
        fb_end = length before + length ?M + length between + length ?D\<rparr>)]"
    using find_written [OF assms] by (simp add: add.assoc)
  then show ?thesis unfolding deployablePackageFromBody_def lines Let_def
    by (simp add: PACKAGE_MANIFEST_NAME_def AGENT_DEFINITION_NAME_def stripped_body_def)
qed

definition demo_package_env :: package_env where
  "demo_package_env = \<lparr>pe_parse = (\<lambda>_. Some (JObj [(''name'', JStr '' Ed ''), (''systemPrompt'', JStr ''Edit.'')])),
     pe_manifest_field = (\<lambda>_. ''name''), pe_definition_field = (\<lambda>_. ''name''), pe_definition_problem = (\<lambda>_. None)\<rparr>"

definition demo_lines :: "string list" where
  "demo_lines = [''Hi''] @ fenced PACKAGE_MANIFEST_NAME [''m''] @ [] @ fenced AGENT_DEFINITION_NAME [''d''] @ [''Bye'']"

lemma demo_plain: "list_all plain_line [''Hi'']" "list_all plain_line []" "list_all plain_line [''Bye'']"
  "list_all file_line [''m'']" "list_all file_line [''d'']"
  by (simp_all add: plain_line_def file_line_def newline_def fence_info_def closes_def fence_def backtick_def trim_def trim_start_def
      trim_end_def is_space_def in_range_def char_code_def starts_with_def Let_def)

lemma demo_parsed: "parsePackageFiles demo_package_env m d =
    (Inr \<lparr>dk_name = ''Ed'', dk_systemPrompt = ''Edit.'', dk_description = None, dk_schedule = None, dk_mcpHandles = None\<rparr>, [])"
  by (simp add: parsePackageFiles_def demo_package_env_def parse_manifest_def parse_definition_def opt_field_def str_field_def
      build_package_def package_name_def trim_def trim_start_def trim_end_def is_space_def in_range_def char_code_def)

theorem written_package_read_witness:
  "deployablePackageFromBody demo_package_env (join [newline] demo_lines) =
     Some ((Inr \<lparr>dk_name = ''Ed'', dk_systemPrompt = ''Edit.'', dk_description = None, dk_schedule = None, dk_mcpHandles = None\<rparr>, []),
       ''Hi'' @ newline # ''Bye'')"
proof -
  have "trim (squeeze (join [newline] ([''Hi''] @ [] @ [''Bye'']))) = ''Hi'' @ newline # ''Bye''"
    by (simp add: newline_def trim_def trim_start_def trim_end_def is_space_def in_range_def char_code_def)
  with written_package_read [OF demo_plain, of demo_package_env] show ?thesis
    unfolding demo_lines_def by (simp add: demo_parsed)
qed

theorem body_without_blocks_witness:
  "\<exists>outcome rendered (m :: fenced_block) (d :: fenced_block). deployablePackageFromBody demo_package_env (join [newline] demo_lines) = Some (outcome, rendered) \<and>
     outcome = parsePackageFiles demo_package_env (fb_content m) (fb_content d) \<and> (fb_end m \<le> fb_start d \<or> fb_end d \<le> fb_start m)"
proof -
  have lines: "split_on newline (join [newline] demo_lines) = demo_lines"
    by (rule split_on_join) (auto simp: demo_lines_def fenced_def newline_def fence_def backtick_def PACKAGE_MANIFEST_NAME_def
        AGENT_DEFINITION_NAME_def)
  obtain out rendered where run: "deployablePackageFromBody demo_package_env (join [newline] demo_lines) = Some (out, rendered)"
    using find_written [OF demo_plain] lines by (simp add: deployablePackageFromBody_def demo_lines_def Let_def
        PACKAGE_MANIFEST_NAME_def AGENT_DEFINITION_NAME_def)
  from body_without_blocks [OF run] obtain m d :: fenced_block where "fb_end m \<le> fb_start d \<or> fb_end d \<le> fb_start m"
    "out = parsePackageFiles demo_package_env (fb_content m) (fb_content d)" by blast
  with run show ?thesis by blast
qed

section \<open>A package that parsed can be used\<close>

lemma dropWhile_idem: "dropWhile P (dropWhile P s) = dropWhile P s"
  using hd_dropWhile [of P s] by (cases "dropWhile P s") auto

lemma trim_ends: "trim s = [] \<or> \<not> is_space (hd (trim s)) \<and> \<not> is_space (last (trim s))"
proof -
  let ?t = "trim_start s"
  have t: "?t = [] \<or> \<not> is_space (hd ?t)" using hd_dropWhile [of is_space s] by (auto simp: trim_start_def)
  let ?u = "dropWhile is_space (rev ?t)"
  have u: "?u = [] \<or> \<not> is_space (hd ?u)" using hd_dropWhile [of is_space "rev ?t"] by auto
  obtain w where w: "rev ?t = w @ ?u" by (metis takeWhile_dropWhile_id)
  then have split: "?t = rev ?u @ rev w" by (metis rev_append rev_rev_ident)
  have trim: "trim s = rev ?u" by (simp add: trim_def trim_end_def)
  show ?thesis
  proof (cases "?u = []")
    case True
    with trim show ?thesis by simp
  next
    case False
    then have "hd ?t = hd (rev ?u)" by (subst split) simp
    moreover have "?t \<noteq> []" using False by auto
    ultimately show ?thesis using t u trim False by (simp add: last_rev)
  qed
qed

lemma trim_again [simp]: "trim (trim s) = trim s"
proof (cases "trim s = []")
  case True
  have "trim [] = []" by (simp add: trim_def trim_start_def trim_end_def)
  with True show ?thesis by simp
next
  case False
  with trim_ends [of s] have "\<not> is_space (hd (trim s))" "\<not> is_space (last (trim s))" by auto
  with False have "trim_start (trim s) = trim s" by (cases "trim s") (simp_all add: trim_start_def)
  moreover have "trim_end (trim s) = trim s"
    using False \<open>\<not> is_space (last (trim s))\<close> by (cases "trim s" rule: rev_cases) (simp_all add: trim_end_def)
  ultimately show ?thesis by (simp add: trim_def)
qed

text \<open>
  Also shown. A package is offered only when it can be deployed as it is: its name is trimmed and not empty, it has a prompt with
  a text, no server handle is blank or has blanks around it, and nothing was reported while it was read.
\<close>

theorem package_usable:
  assumes "parsePackageFiles env m d = (Inr p, reports)"
  shows "dk_name p \<noteq> [] \<and> trim (dk_name p) = dk_name p \<and> trim (dk_systemPrompt p) \<noteq> [] \<and> reports = [] \<and>
    (case dk_mcpHandles p of None \<Rightarrow> True | Some hs \<Rightarrow> list_all (\<lambda>h. h \<noteq> [] \<and> trim h = h) hs)"
proof -
  from assms obtain fromManifest q where q: "build_package fromManifest q = Inr p" and r: "reports = []"
    by (auto simp: parsePackageFiles_def split: option.splits)
  obtain nm where nm: "package_name (fst q) fromManifest = Some nm" "nm \<noteq> []" "trim (dk_systemPrompt (snd q)) \<noteq> []"
    and p: "p = (snd q)\<lparr>dk_name := nm, dk_mcpHandles := map_option usable_handles (dk_mcpHandles (snd q))\<rparr>"
    using q by (auto simp: build_package_def split: option.splits if_splits)
  have "\<exists>raw. nm = trim raw" using nm(1) by (auto simp: package_name_def split: option.splits list.splits)
  then have "trim nm = nm" by auto
  with nm p r show ?thesis
    by (cases "dk_mcpHandles (snd q)") (auto simp: usable_handles_def list_all_iff)
qed

theorem package_usable_witness:
  "\<exists>p. parsePackageFiles demo_package_env ''m'' ''d'' = (Inr p, []) \<and> trim (dk_name p) = dk_name p \<and> dk_name p \<noteq> []"
  using package_usable [OF demo_parsed [of "''m''" "''d''"]] demo_parsed by blast

end
