(* ===== verification/Mcp_Names.thy ===== *)
theory Mcp_Names
  imports Prelude
begin

text \<open>
  The name and the handle suggested for a server added by URL, \<open>apps/web/src/mcp-server-name.ts\<close>.

  A host can hold any character, so texts are lists of UTF-16 code units here. \<open>name_env\<close> holds what comes from the
  platform: the locale's lower and upper case, which code points are letters or numbers, and the host of a URL, if the text is
  one. Numbers are natural: a label that came out of a URL parser decodes without an overflow.
\<close>

type_synonym u16 = "nat list"

record name_env =
  ne_lower :: "u16 \<Rightarrow> u16"
  ne_upper :: "u16 \<Rightarrow> u16"
  ne_word :: "nat \<Rightarrow> bool"
  ne_hostname :: "u16 \<Rightarrow> u16 option"

definition units :: "string \<Rightarrow> u16" where
  "units s = map char_code s"

definition space_unit :: "nat \<Rightarrow> bool" where
  "space_unit c \<longleftrightarrow>
     9 \<le> c \<and> c \<le> 13 \<or> c \<in> {32, 160, 0x1680, 0x2028, 0x2029, 0x202F, 0x205F, 0x3000, 0xFEFF} \<or> 0x2000 \<le> c \<and> c \<le> 0x200A"

definition trim_units :: "u16 \<Rightarrow> u16" where
  "trim_units s = rev (dropWhile space_unit (rev (dropWhile space_unit s)))"

definition FALLBACK_NAME :: u16 where "FALLBACK_NAME = units ''MCP server''"
definition MAX_NAME_LENGTH :: nat where "MAX_NAME_LENGTH = 60"

definition cleanCandidate :: "u16 \<Rightarrow> u16 option" where
  "cleanCandidate value =
     (let trimmed = trim_units (take MAX_NAME_LENGTH (trim_units value)) in if trimmed = [] then None else Some trimmed)"

definition GENERIC_HOST_LABELS :: "u16 list" where
  "GENERIC_HOST_LABELS = map units [''api'', ''app'', ''apps'', ''gateway'', ''mcp'', ''proxy'', ''server'', ''servers'']"

section \<open>Punycode\<close>

definition digitFor :: "nat \<Rightarrow> nat option" where
  "digitFor code =
     (if 48 \<le> code \<and> code \<le> 57 then Some (code - 22)
      else if 65 \<le> code \<and> code \<le> 90 then Some (code - 65)
      else if 97 \<le> code \<and> code \<le> 122 then Some (code - 97)
      else None)"

function shrink :: "nat \<Rightarrow> nat \<Rightarrow> nat \<times> nat" where
  "shrink d k = (if 35 * 26 div 2 < d then shrink (d div 35) (k + 36) else (d, k))"
  by pat_completeness auto
termination by (relation "measure fst") auto

declare shrink.simps [simp del]

definition adapt :: "nat \<Rightarrow> nat \<Rightarrow> bool \<Rightarrow> nat" where
  "adapt delta numPoints first =
     (let d0 = (if first then delta div 700 else delta div 2) in
      case shrink (d0 + d0 div numPoints) 0 of (d, k) \<Rightarrow> k + 36 * d div (d + 38))"

definition threshold :: "nat \<Rightarrow> nat \<Rightarrow> nat" where
  "threshold k bias = (if k \<le> bias then 1 else if bias + 26 \<le> k then 26 else k - bias)"

text \<open>One variable-length number: added to \<open>i\<close>, with what is left. A missing or bad digit throws.\<close>

fun read_delta :: "u16 \<Rightarrow> nat \<Rightarrow> nat \<Rightarrow> nat \<Rightarrow> nat \<Rightarrow> (nat \<times> u16) option" where
  "read_delta [] i w k bias = None"
| "read_delta (c # cs) i w k bias =
     (case digitFor c of
        None \<Rightarrow> None
      | Some digit \<Rightarrow>
          if digit < threshold k bias then Some (i + digit * w, cs)
          else read_delta cs (i + digit * w) (w * (36 - threshold k bias)) (k + 36) bias)"

lemma read_delta_shorter: "read_delta cs i w k bias = Some (j, rest) \<Longrightarrow> length rest < length cs"
  by (induction cs i w k bias rule: read_delta.induct) (auto split: option.splits if_splits)

text \<open>\<open>String.fromCodePoint\<close>; above the last code point it throws.\<close>

definition fromCodePoint :: "nat \<Rightarrow> u16 option" where
  "fromCodePoint n =
     (if n < 0x10000 then Some [n]
      else if n \<le> 0x10FFFF then Some [0xD800 + (n - 0x10000) div 0x400, 0xDC00 + (n - 0x10000) mod 0x400]
      else None)"

function decode_tail :: "u16 \<Rightarrow> u16 \<Rightarrow> nat \<Rightarrow> nat \<Rightarrow> nat \<Rightarrow> u16 option" where
  "decode_tail [] out n i bias = Some out"
| "decode_tail (c # cs) out n i bias =
     (case read_delta (c # cs) i 1 36 bias of
        None \<Rightarrow> None
      | Some (j, rest) \<Rightarrow>
          let points = length out + 1; n' = n + j div points; pos = j mod points in
          (case fromCodePoint n' of
             None \<Rightarrow> None
           | Some p \<Rightarrow> decode_tail rest (take pos out @ p @ drop pos out) n' (pos + 1) (adapt (j - i) points (i = 0))))"
  by pat_completeness auto
termination by (relation "measure (\<lambda>(cs, _). length cs)") (auto simp del: read_delta.simps dest!: read_delta_shorter)

definition hyphen :: nat where "hyphen = 45"

fun last_position :: "nat \<Rightarrow> u16 \<Rightarrow> nat option" where
  "last_position c [] = None"
| "last_position c (x # xs) =
     (case last_position c xs of Some k \<Rightarrow> Some (Suc k) | None \<Rightarrow> if x = c then Some 0 else None)"

definition decodePunycodeLabel :: "u16 \<Rightarrow> u16" where
  "decodePunycodeLabel label =
     (if take 4 label \<noteq> units ''xn--'' then label
      else
        let payload = drop 4 label;
            split = (case last_position hyphen payload of Some (Suc k) \<Rightarrow> Some (Suc k) | _ \<Rightarrow> None);
            out = (case split of None \<Rightarrow> [] | Some k \<Rightarrow> take k payload);
            tail = (case split of None \<Rightarrow> payload | Some k \<Rightarrow> drop (k + 1) payload) in
        (case decode_tail tail out 128 0 72 of None \<Rightarrow> label | Some text \<Rightarrow> text))"

section \<open>The host of a URL\<close>

fun split_units :: "nat \<Rightarrow> u16 \<Rightarrow> u16 list" where
  "split_units c [] = [[]]"
| "split_units c (x # xs) =
     (if x = c then [] # split_units c xs
      else (case split_units c xs of [] \<Rightarrow> [[x]] | y # ys \<Rightarrow> (x # y) # ys))"

text \<open>\<open>/^www\./i\<close>.\<close>

definition without_www :: "u16 \<Rightarrow> u16" where
  "without_www h =
     (if length h \<ge> 4 \<and> list_all (\<lambda>c. c = 119 \<or> c = 87) (take 3 h) \<and> h ! 3 = 46 then drop 4 h else h)"

definition is_literal :: "u16 \<Rightarrow> bool" where
  "is_literal h \<longleftrightarrow> h \<noteq> [] \<and> list_all (\<lambda>c. 48 \<le> c \<and> c \<le> 57 \<or> c = 46) h"

definition distinctiveHostLabel :: "name_env \<Rightarrow> u16 \<Rightarrow> u16 option" where
  "distinctiveHostLabel env hostname =
     (let bare = without_www hostname in
      if bare = [] then None
      else if bare = units ''[::1]'' \<or> bare = units ''::1'' then Some (units ''localhost'')
      else if 46 \<notin> set bare \<or> is_literal bare \<or> 58 \<in> set bare then Some bare
      else
        (case split_units 46 bare of
           first # second # _ \<Rightarrow> if ne_lower env first \<in> set GENERIC_HOST_LABELS then Some second else Some first
         | [first] \<Rightarrow> Some first
         | [] \<Rightarrow> Some []))"

text \<open>The code points of a text, each with its units.\<close>

fun code_points :: "u16 \<Rightarrow> (nat \<times> u16) list" where
  "code_points [] = []"
| "code_points [c] = [(c, [c])]"
| "code_points (c # d # cs) =
     (if 0xD800 \<le> c \<and> c < 0xDC00 \<and> 0xDC00 \<le> d \<and> d < 0xE000
      then (0x10000 + (c - 0xD800) * 0x400 + (d - 0xDC00), [c, d]) # code_points cs
      else (c, [c]) # code_points (d # cs))"

text \<open>\<open>split(/[^\p{L}\p{N}]+/u)\<close> without the empty parts: the runs of letters and numbers.\<close>

function word_runs :: "(nat \<Rightarrow> bool) \<Rightarrow> (nat \<times> u16) list \<Rightarrow> u16 list" where
  "word_runs P ps =
     (case dropWhile (\<lambda>p. \<not> P (fst p)) ps of
        [] \<Rightarrow> []
      | q # qs \<Rightarrow> concat (map snd (takeWhile (\<lambda>p. P (fst p)) (q # qs))) # word_runs P (dropWhile (\<lambda>p. P (fst p)) qs))"
  by pat_completeness auto
termination
proof (relation "measure (\<lambda>(_, ps). length ps)")
  fix P and ps :: "(nat \<times> u16) list" and q qs
  assume "dropWhile (\<lambda>p. \<not> P (fst p)) ps = q # qs"
  then have "Suc (length qs) \<le> length ps" using length_dropWhile_le [of "\<lambda>p. \<not> P (fst p)" ps] by simp
  moreover have "length (dropWhile (\<lambda>p. P (fst p)) qs) \<le> length qs" by (rule length_dropWhile_le)
  ultimately show "((P, dropWhile (\<lambda>p. P (fst p)) qs), (P, ps)) \<in> measure (\<lambda>(_, ps). length ps)" by simp
qed simp

declare word_runs.simps [simp del]

fun join_units :: "u16 list \<Rightarrow> u16" where
  "join_units [] = []"
| "join_units [w] = w"
| "join_units (w # v # ws) = w @ 32 # join_units (v # ws)"

definition humanizeHostLabel :: "name_env \<Rightarrow> u16 \<Rightarrow> u16 option" where
  "humanizeHostLabel env label =
     (let runs = word_runs (ne_word env) (code_points (ne_lower env (decodePunycodeLabel label))) in
      if runs = [] then None else Some (join_units (map (\<lambda>w. ne_upper env (take 1 w) @ drop 1 w) runs)))"

definition host_label :: "name_env \<Rightarrow> u16 \<Rightarrow> u16 option" where
  "host_label env url =
     (let trimmed = trim_units url in
      if trimmed = [] then None else Option.bind (ne_hostname env trimmed) (distinctiveHostLabel env))"

definition displayNameFromUrl :: "name_env \<Rightarrow> u16 \<Rightarrow> u16 option" where
  "displayNameFromUrl env url =
     Option.bind (host_label env url)
       (\<lambda>label. if is_literal label \<or> 58 \<in> set label then Some label else humanizeHostLabel env label)"

definition slug_unit :: "nat \<Rightarrow> bool" where
  "slug_unit c \<longleftrightarrow> 97 \<le> c \<and> c \<le> 122 \<or> 48 \<le> c \<and> c \<le> 57"

function dash_units :: "u16 \<Rightarrow> u16" where
  "dash_units [] = []"
| "dash_units (c # s) = (if slug_unit c then c # dash_units s else hyphen # dash_units (dropWhile (\<lambda>d. \<not> slug_unit d) s))"
  by pat_completeness auto
termination by (relation "measure length") (auto simp: le_imp_less_Suc length_dropWhile_le)

definition handleFromUrl :: "name_env \<Rightarrow> u16 \<Rightarrow> u16 option" where
  "handleFromUrl env url =
     Option.bind (host_label env url)
       (\<lambda>label.
         let slug = rev (dropWhile (\<lambda>c. c = hyphen) (rev (dropWhile (\<lambda>c. c = hyphen) (dash_units (ne_lower env label))))) in
         if slug = [] then None else Some slug)"

section \<open>Names nobody has\<close>

definition taken_names :: "name_env \<Rightarrow> u16 list \<Rightarrow> u16 list" where
  "taken_names env existing = map (\<lambda>name. ne_lower env (trim_units name)) existing"

definition numbered :: "nat \<Rightarrow> u16 \<Rightarrow> nat \<Rightarrow> u16" where
  "numbered sep base next = base @ sep # units (dec next)"

partial_function (option) next_free :: "name_env \<Rightarrow> nat \<Rightarrow> u16 list \<Rightarrow> u16 \<Rightarrow> nat \<Rightarrow> u16 option" where
  "next_free env sep taken base next =
     (if ne_lower env (numbered sep base next) \<in> set taken then next_free env sep taken base (next + 1)
      else Some (numbered sep base next))"

declare next_free.simps [code]

definition dedupe :: "name_env \<Rightarrow> nat \<Rightarrow> u16 \<Rightarrow> u16 list \<Rightarrow> u16 option" where
  "dedupe env sep base existing =
     (let taken = taken_names env existing in
      if ne_lower env base \<notin> set taken then Some base else next_free env sep taken base 2)"

definition dedupeMcpName :: "name_env \<Rightarrow> u16 \<Rightarrow> u16 list \<Rightarrow> u16 option" where
  "dedupeMcpName env = dedupe env 32"

definition dedupeMcpHandle :: "name_env \<Rightarrow> u16 \<Rightarrow> u16 list \<Rightarrow> u16 option" where
  "dedupeMcpHandle env = dedupe env hyphen"

section \<open>The suggestion\<close>

text \<open>What the schema took from \<open>serverInfo\<close>, when it took it.\<close>

record server_info =
  si_title :: "u16 option"
  si_name :: "u16 option"

definition serverReportedName :: "server_info option \<Rightarrow> u16 option" where
  "serverReportedName info =
     (case info of
        None \<Rightarrow> None
      | Some i \<Rightarrow>
          (case Option.bind (si_title i) cleanCandidate of
             Some title \<Rightarrow> Some title
           | None \<Rightarrow> Option.bind (si_name i) cleanCandidate))"

definition redirectUrlName :: "name_env \<Rightarrow> u16 \<Rightarrow> u16 list \<Rightarrow> u16 option option" where
  "redirectUrlName env typed existing =
     (case displayNameFromUrl env typed of None \<Rightarrow> Some None | Some e \<Rightarrow> map_option Some (dedupeMcpName env e existing))"

datatype name_source = FromServer | FromUrl | Fallback

definition suggestMcpServerName ::
  "name_env \<Rightarrow> u16 \<Rightarrow> server_info option \<Rightarrow> u16 list \<Rightarrow> (u16 \<times> name_source) option" where
  "suggestMcpServerName env url info existing =
     (case serverReportedName info of
        Some n \<Rightarrow> map_option (\<lambda>r. (r, FromServer)) (dedupeMcpName env n existing)
      | None \<Rightarrow>
          (case displayNameFromUrl env url of
             Some n \<Rightarrow> map_option (\<lambda>r. (r, FromUrl)) (dedupeMcpName env n existing)
           | None \<Rightarrow> map_option (\<lambda>r. (r, Fallback)) (dedupeMcpName env FALLBACK_NAME existing)))"

section \<open>A suggestion nobody has\<close>

lemma next_free_stops:
  assumes "ne_lower env (numbered sep base (next + m)) \<notin> set taken"
    and "\<forall>j < m. ne_lower env (numbered sep base (next + j)) \<in> set taken"
  shows "next_free env sep taken base next = Some (numbered sep base (next + m))"
  using assms
proof (induction m arbitrary: "next")
  case 0
  then show ?case by (subst next_free.simps) simp
next
  case (Suc m)
  have "next_free env sep taken base (next + 1) = Some (numbered sep base ((next + 1) + m))"
    using Suc.prems by (intro Suc.IH) auto
  moreover have "ne_lower env (numbered sep base next) \<in> set taken" using Suc.prems(2) by force
  ultimately show ?case by (subst next_free.simps) simp
qed

text \<open>Of more numbered names than there are taken ones, one is free.\<close>

lemma some_free:
  fixes f :: "nat \<Rightarrow> u16"
  assumes "inj f"
  shows "\<exists>m \<le> length taken. f m \<notin> set taken \<and> (\<forall>j < m. f j \<in> set taken)"
proof -
  have "\<exists>m \<le> length taken. f m \<notin> set taken"
  proof (rule ccontr)
    assume "\<not> ?thesis"
    then have "f ` {..length taken} \<subseteq> set taken" by auto
    then have "card (f ` {..length taken}) \<le> card (set taken)" by (rule card_mono [OF finite_set])
    also have "\<dots> \<le> length taken" by (rule card_length)
    finally show False using card_image [of f "{..length taken}"] assms by (simp add: inj_on_subset)
  qed
  then obtain m where m: "m \<le> length taken" "f m \<notin> set taken" by blast
  let ?m = "LEAST m. f m \<notin> set taken"
  have "f ?m \<notin> set taken" using m(2) by (rule LeastI)
  moreover have "?m \<le> m" using m(2) by (rule Least_le)
  moreover have "\<forall>j < ?m. f j \<in> set taken" using not_less_Least by blast
  ultimately show ?thesis using le_trans [OF _ m(1)] by blast
qed

lemma dedupe_ends:
  assumes "inj (\<lambda>k. ne_lower env (numbered sep base k))"
  shows "\<exists>r. dedupe env sep base existing = Some r \<and> ne_lower env r \<notin> set (taken_names env existing) \<and>
    (r = base \<or> ne_lower env base \<in> set (taken_names env existing) \<and>
       (\<exists>k. 2 \<le> k \<and> k \<le> length existing + 2 \<and> r = numbered sep base k \<and>
          (\<forall>j. 2 \<le> j \<and> j < k \<longrightarrow> ne_lower env (numbered sep base j) \<in> set (taken_names env existing))))"
proof (cases "ne_lower env base \<in> set (taken_names env existing)")
  case False
  then show ?thesis by (simp add: dedupe_def)
next
  case True
  let ?taken = "taken_names env existing"
  have "inj (\<lambda>m. ne_lower env (numbered sep base (2 + m)))" using assms by (auto simp: inj_def)
  from some_free [OF this, of ?taken] obtain m where m: "m \<le> length existing" "ne_lower env (numbered sep base (2 + m)) \<notin> set ?taken"
    "\<forall>j < m. ne_lower env (numbered sep base (2 + j)) \<in> set ?taken" by (auto simp: taken_names_def)
  have run: "dedupe env sep base existing = Some (numbered sep base (2 + m))"
    using True next_free_stops [OF m(2,3)] by (simp add: dedupe_def Let_def)
  have "ne_lower env (numbered sep base j) \<in> set ?taken" if "2 \<le> j" "j < 2 + m" for j
    using m(3) that by (metis add_diff_inverse_nat add_less_cancel_left not_less)
  then have "\<exists>k. 2 \<le> k \<and> k \<le> length existing + 2 \<and> numbered sep base (2 + m) = numbered sep base k \<and>
      (\<forall>j. 2 \<le> j \<and> j < k \<longrightarrow> ne_lower env (numbered sep base j) \<in> set ?taken)"
    using m(1) by (intro exI [of _ "2 + m"]) auto
  with run m(2) True show ?thesis by blast
qed

text \<open>
  Also shown. A suggestion is always found, and nobody has it: where lower case keeps numbered names apart, the name made of any
  base is the base itself or the base with the least free number from two on, at most two more than there are servers,
  and no server has it, whatever case or blanks its name is written with.
\<close>

theorem deduped_name_free:
  assumes "inj (\<lambda>k. ne_lower env (numbered 32 base k))"
  shows "\<exists>r. dedupeMcpName env base existing = Some r \<and>
    list_all (\<lambda>name. ne_lower env (trim_units name) \<noteq> ne_lower env r) existing \<and>
    (r = base \<or> (\<exists>k. 2 \<le> k \<and> k \<le> length existing + 2 \<and> r = numbered 32 base k \<and>
       (\<forall>j. 2 \<le> j \<and> j < k \<longrightarrow> list_ex (\<lambda>name. ne_lower env (trim_units name) = ne_lower env (numbered 32 base j)) existing)))"
proof -
  from dedupe_ends [OF assms, of existing] obtain r where r: "dedupe env 32 base existing = Some r"
    "ne_lower env r \<notin> set (taken_names env existing)"
    "r = base \<or> (\<exists>k. 2 \<le> k \<and> k \<le> length existing + 2 \<and> r = numbered 32 base k \<and>
       (\<forall>j. 2 \<le> j \<and> j < k \<longrightarrow> ne_lower env (numbered 32 base j) \<in> set (taken_names env existing)))" by blast
  have taken: "x \<in> set (taken_names env existing) \<longleftrightarrow> list_ex (\<lambda>name. ne_lower env (trim_units name) = x) existing" for x
    by (auto simp: taken_names_def list_ex_iff)
  from r(2) have "list_all (\<lambda>name. ne_lower env (trim_units name) \<noteq> ne_lower env r) existing"
    by (auto simp: taken list_ex_iff list_all_iff)
  with r(1,3) show ?thesis unfolding taken dedupeMcpName_def by (intro exI [of _ r]) simp
qed

section \<open>The cap\<close>

lemma trim_units_length: "length (trim_units s) \<le> length s"
proof -
  have "length (trim_units s) \<le> length (dropWhile space_unit s)"
    unfolding trim_units_def using length_dropWhile_le [of space_unit "rev (dropWhile space_unit s)"] by simp
  also have "\<dots> \<le> length s" by (rule length_dropWhile_le)
  finally show ?thesis .
qed

lemma cleanCandidate_capped: "cleanCandidate v = Some s \<Longrightarrow> s \<noteq> [] \<and> length s \<le> 60"
proof -
  assume "cleanCandidate v = Some s"
  then have "s = trim_units (take 60 (trim_units v))" "s \<noteq> []"
    by (auto simp: cleanCandidate_def Let_def MAX_NAME_LENGTH_def split: if_splits)
  then show ?thesis using trim_units_length [of "take 60 (trim_units v)"] by auto
qed

lemma next_free_numbered:
  assumes "next_free env sep taken base next = Some r"
  shows "\<exists>k. r = numbered sep base k"
  by (rule next_free.raw_induct [where P = "\<lambda>env sep taken base next r. \<exists>k. r = numbered sep base k", OF _ assms])
    (auto split: if_splits)

lemma dedupe_shape: "dedupe env sep base existing = Some r \<Longrightarrow> r = base \<or> (\<exists>k. r = numbered sep base k)"
  by (auto simp: dedupe_def Let_def dest: next_free_numbered split: if_splits)

text \<open>
  Also shown. A name the server reports is capped before it is suggested: what is suggested then is a text of at most 60
  characters, with at most a number after it.
\<close>

theorem reported_name_capped:
  assumes "suggestMcpServerName env url info existing = Some (r, FromServer)"
  shows "\<exists>base. base \<noteq> [] \<and> length base \<le> 60 \<and> (r = base \<or> (\<exists>k. r = numbered 32 base k))"
proof -
  from assms obtain base where b: "serverReportedName info = Some base" "dedupe env 32 base existing = Some r"
    by (auto simp: suggestMcpServerName_def dedupeMcpName_def split: option.splits)
  then obtain v where "cleanCandidate v = Some base" by (auto simp: serverReportedName_def Option.bind_eq_Some_conv split: option.splits)
  from cleanCandidate_capped [OF this] dedupe_shape [OF b(2)] show ?thesis by (intro exI [of _ base]) simp
qed

definition demo_name_env :: name_env where
  "demo_name_env = \<lparr>ne_lower = id, ne_upper = id, ne_word = (\<lambda>c. c \<noteq> 46), ne_hostname = Some\<rparr>"

lemma punycode_sample: "decodePunycodeLabel (units ''xn--mnchen-3ya'') = [109, 252, 110, 99, 104, 101, 110]"
  by (simp add: decodePunycodeLabel_def units_def char_code_def hyphen_def digitFor_def threshold_def fromCodePoint_def adapt_def
      shrink.simps Let_def)

lemma units_inject: "units s = units t \<longleftrightarrow> s = t"
  by (simp add: units_def inj_map_eq_map inj_def char_code_eq_iff)

lemma dec_value: "foldl (\<lambda>a c. 10 * a + (char_code c - 48)) 0 (dec n) = n"
proof (induction n rule: dec.induct)
  case (1 n)
  then show ?case by (subst dec.simps) simp
qed

lemma dec_inject: "dec m = dec n \<longleftrightarrow> m = n"
  by (metis dec_value)

lemma numbered_inject: "inj (numbered sep base)"
  by (auto simp: inj_def numbered_def units_inject dec_inject)

theorem deduped_name_free_witness:
  "\<exists>r. dedupeMcpName demo_name_env (units ''Exa'') [units ''Exa'', units ''Exa 2''] = Some r \<and> r \<noteq> units ''Exa 2''"
proof -
  have "inj (\<lambda>k. ne_lower demo_name_env (numbered 32 (units ''Exa'') k))"
    using numbered_inject [of 32 "units ''Exa''"] by (simp add: demo_name_env_def)
  from deduped_name_free [OF this, of "[units ''Exa'', units ''Exa 2'']"] obtain r where
    r: "dedupeMcpName demo_name_env (units ''Exa'') [units ''Exa'', units ''Exa 2''] = Some r"
    "ne_lower demo_name_env (trim_units (units ''Exa 2'')) \<noteq> ne_lower demo_name_env r" by auto
  have "trim_units (units ''Exa 2'') = units ''Exa 2''" by (simp add: trim_units_def units_def space_unit_def char_code_def)
  with r show ?thesis by (auto simp: demo_name_env_def)
qed

theorem reported_name_capped_witness:
  "\<exists>base. suggestMcpServerName demo_name_env [] (Some \<lparr>si_title = Some (units ''Linear''), si_name = None\<rparr>) [] =
     Some (units ''Linear'', FromServer) \<and> length base \<le> 60 \<and> (units ''Linear'' = base \<or> (\<exists>k. units ''Linear'' = numbered 32 base k))"
proof -
  have run: "suggestMcpServerName demo_name_env [] (Some \<lparr>si_title = Some (units ''Linear''), si_name = None\<rparr>) [] =
     Some (units ''Linear'', FromServer)"
    by (simp add: suggestMcpServerName_def serverReportedName_def cleanCandidate_def trim_units_def units_def space_unit_def
        char_code_def MAX_NAME_LENGTH_def dedupeMcpName_def dedupe_def taken_names_def)
  from reported_name_capped [OF run] run show ?thesis by blast
qed

end
