(* ===== verification/Routines.thy ===== *)
theory Routines
  imports Workbench_Chat
begin

text \<open>
  Scheduled workflows, \<open>apps/web/src\<close>: the schedules of a tenant, the deployments joined with them and the manual run
  (\<open>routines-api.ts\<close>), the roster over every bench and its run action (\<open>global-routines.ts\<close>), and the sentence of a
  schedule (\<open>cron-sentence.ts\<close>), with the cron describer as a parameter.
\<close>

section \<open>Schedules\<close>

record cron_schedule =
  cs_id :: string
  cs_expression :: string
  cs_definitionName :: string
  cs_subject :: string
  cs_body :: string
  cs_stoppedAt :: "string option"
  cs_enabled :: bool

definition nullable_text :: "string \<Rightarrow> json \<Rightarrow> string option option" where
  "nullable_text k j = Option.bind (field k j) as_str_or_null"

definition parse_schedule :: "json \<Rightarrow> cron_schedule option" where
  "parse_schedule j =
     (if list_all (\<lambda>k. str_field k j \<noteq> None) [''tenantId'', ''createdAt''] \<and>
         list_all (\<lambda>k. nullable_text k j \<noteq> None) [''lastFiredAt'', ''waitingSince'', ''stoppedReason''] then
        (case (str_field ''id'' j, str_field ''expression'' j, str_field ''definitionName'' j, str_field ''subject'' j,
               str_field ''body'' j, nullable_text ''stoppedAt'' j, field ''enabled'' j) of
           (Some i, Some e, Some n, Some s, Some b, Some st, Some (JBool en)) \<Rightarrow>
             Some \<lparr>cs_id = i, cs_expression = e, cs_definitionName = n, cs_subject = s, cs_body = b, cs_stoppedAt = st, cs_enabled = en\<rparr>
         | _ \<Rightarrow> None)
      else None)"

definition cron_path :: "string \<Rightarrow> string" where
  "cron_path t = ''/api/tenants/'' @ t @ ''/cron''"

definition schedule_path :: "string \<Rightarrow> string \<Rightarrow> string" where
  "schedule_path t i = cron_path t @ ''/'' @ encodeURIComponent i"

definition query_error :: "string \<Rightarrow> nat option \<Rightarrow> js_error" where
  "query_error m status = error_of ''ApiQueryError'' m status"

definition answered :: "nat \<Rightarrow> string" where
  "answered status = ''The server answered '' @ dec status @ ''.''"

definition fetch_json :: "'w hub \<Rightarrow> request \<Rightarrow> (json \<Rightarrow> 'a option) \<Rightarrow> ('w, 'a) client" where
  "fetch_json hub rq parse = apiRequest hub rq (on_json ''shape'' parse) None ''ApiQueryError'' True"

definition created_schedule :: "json \<Rightarrow> cron_schedule option" where
  "created_schedule j = Option.bind (field ''schedule'' j) parse_schedule"

text \<open>The body of an accepted answer, or the shape error.\<close>

definition shaped :: "response \<Rightarrow> (json \<Rightarrow> 'a option) \<Rightarrow> ('w, 'a) client" where
  "shaped r parse =
     bindE (json_body r) (\<lambda>j. case parse j of
       None \<Rightarrow> throwE (query_error ''Unexpected response shape: shape'' None) | Some x \<Rightarrow> returnE x)"

record new_schedule =
  ns_expression :: string
  ns_definitionName :: string
  ns_subject :: string
  ns_body :: string

definition new_schedule_json :: "new_schedule \<Rightarrow> json" where
  "new_schedule_json s = JObj [(''expression'', JStr (ns_expression s)), (''definitionName'', JStr (ns_definitionName s)),
     (''subject'', JStr (ns_subject s)), (''body'', JStr (ns_body s))]"

definition unknown_definition :: js_error where
  "unknown_definition = error_of ''UnknownDefinitionError'' ''No agent here carries that name.'' None"

definition createCronSchedule :: "'w hub \<Rightarrow> string \<Rightarrow> new_schedule \<Rightarrow> ('w, cron_schedule) client" where
  "createCronSchedule hub t input =
     bindE (fetchE hub (post (cron_path t) (new_schedule_json input))) (\<lambda>r.
     if rs_status r = 401 then throwE unauthenticated
     else if rs_status r = 400 \<and> Option.bind (rs_body r) (str_field ''error'') = Some ''unknown_definition'' then throwE unknown_definition
     else if \<not> resp_ok r then throwE (query_error (answered (rs_status r)) (Some (rs_status r)))
     else shaped r created_schedule)"

definition setScheduleEnabled :: "'w hub \<Rightarrow> string \<Rightarrow> string \<Rightarrow> string \<Rightarrow> ('w, cron_schedule) client" where
  "setScheduleEnabled hub t i action =
     fetch_json hub \<lparr>rq_method = POST, rq_path = schedule_path t i @ ''/'' @ action, rq_body = None\<rparr> created_schedule"

definition pauseSchedule :: "'w hub \<Rightarrow> string \<Rightarrow> string \<Rightarrow> ('w, cron_schedule) client" where
  "pauseSchedule hub t i = setScheduleEnabled hub t i ''pause''"

definition resumeSchedule :: "'w hub \<Rightarrow> string \<Rightarrow> string \<Rightarrow> ('w, cron_schedule) client" where
  "resumeSchedule hub t i = setScheduleEnabled hub t i ''resume''"

definition deleteCronSchedule :: "'w hub \<Rightarrow> string \<Rightarrow> string \<Rightarrow> ('w, unit) client" where
  "deleteCronSchedule hub t i =
     bindE (fetchE hub (del (schedule_path t i))) (\<lambda>r.
     if rs_status r = 401 then throwE unauthenticated
     else if \<not> resp_ok r then throwE (query_error (answered (rs_status r)) (Some (rs_status r)))
     else returnE ())"

definition parse_schedules :: "json \<Rightarrow> cron_schedule list option" where
  "parse_schedules j = Option.bind (field ''schedules'' j) (array_of parse_schedule)"

definition listCronSchedules :: "'w hub \<Rightarrow> string \<Rightarrow> ('w, cron_schedule list) client" where
  "listCronSchedules hub t = fetch_json hub (get (cron_path t)) parse_schedules"

section \<open>The workflows of a tenant\<close>

record routine_deployment =
  rd_id :: string
  rd_tenantId :: string
  rd_assetId :: string
  rd_status :: deployment_status
  rd_createdAt :: string

definition parse_routine_deployment :: "json \<Rightarrow> routine_deployment option" where
  "parse_routine_deployment j =
     (case (str_field ''id'' j, str_field ''tenantId'' j, str_field ''definitionAssetId'' j,
            Option.bind (field ''status'' j) parse_deployment_status, str_field ''createdAt'' j) of
        (Some i, Some t, Some a, Some st, Some c) \<Rightarrow>
          Some \<lparr>rd_id = i, rd_tenantId = t, rd_assetId = a, rd_status = st, rd_createdAt = c\<rparr>
      | _ \<Rightarrow> None)"

record scheduled_workflow =
  sw_definitionId :: string
  sw_assetId :: string
  sw_name :: string
  sw_tenantId :: string
  sw_stopped :: bool
  sw_createdAt :: string
  sw_schedule :: "string option"
  sw_scheduleId :: "string option"
  sw_scheduleEnabled :: bool

definition isAgentAssetName :: "string \<Rightarrow> bool" where
  "isAgentAssetName name \<longleftrightarrow> name = worker_assetName \<or> isAgentDeploySourceAssetName name"

text \<open>\<open>new Map(entries)\<close>: the last entry of a key.\<close>

definition js_map :: "('k \<times> 'v) list \<Rightarrow> 'k \<Rightarrow> 'v option" where
  "js_map entries = map_of (rev entries)"

definition asset_name :: "(string \<times> string) list \<Rightarrow> routine_deployment \<Rightarrow> string option" where
  "asset_name assets d = js_map assets (rd_assetId d)"

definition live_schedules :: "cron_schedule list \<Rightarrow> cron_schedule list" where
  "live_schedules schedules = filter (\<lambda>s. cs_stoppedAt s = None) schedules"

definition schedule_for :: "cron_schedule list \<Rightarrow> string \<Rightarrow> cron_schedule option" where
  "schedule_for schedules = js_map (map (\<lambda>s. (cs_definitionName s, s)) (live_schedules schedules))"

definition is_workflow :: "(string \<times> string) list \<Rightarrow> routine_deployment \<Rightarrow> bool" where
  "is_workflow assets d = (case asset_name assets d of None \<Rightarrow> True | Some n \<Rightarrow> \<not> isAgentAssetName n)"

definition scheduled_row ::
  "(string \<times> string) list \<Rightarrow> cron_schedule list \<Rightarrow> run_view list \<Rightarrow> routine_deployment \<Rightarrow> scheduled_workflow" where
  "scheduled_row assets schedules runs d =
     (let name = asset_name assets d;
          row = Option.bind name (schedule_for schedules);
          run = js_map (map (\<lambda>r. (rv_id r, rv_status r)) runs) (rd_id d) in
      \<lparr>sw_definitionId = rd_id d, sw_assetId = rd_assetId d,
       sw_name = (case name of None \<Rightarrow> ''Untitled workflow'' | Some n \<Rightarrow> n), sw_tenantId = rd_tenantId d,
       sw_stopped = (deploymentLiveness (rd_status d) run = Stopped), sw_createdAt = rd_createdAt d,
       sw_schedule = map_option cs_expression row, sw_scheduleId = map_option cs_id row,
       sw_scheduleEnabled = (case row of None \<Rightarrow> True | Some r \<Rightarrow> cs_enabled r)\<rparr>)"

definition scheduled_rows ::
  "routine_deployment list \<Rightarrow> (string \<times> string) list \<Rightarrow> cron_schedule list \<Rightarrow> run_view list \<Rightarrow> scheduled_workflow list" where
  "scheduled_rows ds assets schedules runs = map (scheduled_row assets schedules runs) (filter (is_workflow assets) ds)"

definition listScheduledWorkflows :: "'w hub \<Rightarrow> string \<Rightarrow> ('w, scheduled_workflow list) client" where
  "listScheduledWorkflows hub t =
     bindE (bothE (fetch_json hub (get (''/api/tenants/'' @ t @ ''/workflows/deployments'')) (array_of parse_routine_deployment))
       (bothE (fetch_json hub (get (''/api/tenants/'' @ t @ ''/assets?kind=workflow&inherited=false'')) (array_of parse_asset))
       (bothE (listCronSchedules hub t) (listTopLevelRuns hub t))))
       (\<lambda>(ds, assets, schedules, runs). returnE (scheduled_rows ds assets schedules runs))"

section \<open>A manual run\<close>

definition parse_trigger :: "json \<Rightarrow> string option" where
  "parse_trigger j =
     (case (str_field ''runId'' j, str_field ''address'' j, str_field ''messageId'' j) of
        (Some r, Some _, Some _) \<Rightarrow> Some r | _ \<Rightarrow> None)"

definition run_content :: "cron_schedule list \<Rightarrow> string option \<Rightarrow> string" where
  "run_content schedules name =
     (case find (\<lambda>s. cs_stoppedAt s = None \<and> Some (cs_definitionName s) = name) schedules of
        None \<Rightarrow> ''Run now''
      | Some s \<Rightarrow> cs_subject s @ [CHR 0x0A, CHR 0x0A] @ cs_body s)"

definition run_request :: "string \<Rightarrow> string \<Rightarrow> string \<Rightarrow> request" where
  "run_request t definitionId content =
     post (''/api/tenants/'' @ t @ ''/workflows/'' @ encodeURIComponent definitionId @ ''/mail'') (JObj [(''content'', JStr content)])"

definition runScheduledWorkflowNow :: "'w hub \<Rightarrow> string \<Rightarrow> string \<Rightarrow> string option \<Rightarrow> ('w, string) client" where
  "runScheduledWorkflowNow hub t definitionId name =
     bindE (listCronSchedules hub t) (\<lambda>schedules.
     bindE (fetchE hub (run_request t definitionId (run_content schedules name))) (\<lambda>r.
     if rs_status r = 401 then throwE unauthenticated
     else if rs_status r = 409 then throwE (query_error ''This workflow has ended; redeploy to run it again.'' (Some 409))
     else if \<not> resp_ok r then throwE (query_error (answered (rs_status r)) (Some (rs_status r)))
     else shaped r parse_trigger))"

section \<open>The roster over every bench\<close>

record routine_bench =
  rb_tenantId :: string
  rb_tenantName :: string

record routine_row =
  rr_definition :: scheduled_workflow
  rr_tenantId :: string
  rr_tenantName :: string

text \<open>The state of one query, and of what a page shows.\<close>

datatype 'a query_state = QLoading | QFailed js_error | QData 'a
datatype 'a shown = ShownLoading | ShownError string | ShownReady 'a

definition memberBenches :: "string option \<Rightarrow> bool \<Rightarrow> routine_bench list \<Rightarrow> routine_bench list option" where
  "memberBenches fromBench membershipsReady benches =
     (case fromBench of
        Some t \<Rightarrow> Some [\<lparr>rb_tenantId = t, rb_tenantName = []\<rparr>]
      | None \<Rightarrow> if membershipsReady then Some benches else None)"

fun rows_of :: "routine_bench list \<Rightarrow> scheduled_workflow list query_state list \<Rightarrow> routine_row list" where
  "rows_of (b # bs) (q # qs) =
     (case q of
        QData items \<Rightarrow> map (\<lambda>d. \<lparr>rr_definition = d, rr_tenantId = rb_tenantId b, rr_tenantName = rb_tenantName b\<rparr>) items
      | _ \<Rightarrow> []) @ rows_of bs qs"
| "rows_of _ _ = []"

fun first_failure :: "'a query_state list \<Rightarrow> js_error option" where
  "first_failure [] = None"
| "first_failure (q # qs) = (case q of QFailed e \<Rightarrow> Some e | _ \<Rightarrow> first_failure qs)"

definition globalRoutines ::
  "(js_error \<Rightarrow> string) \<Rightarrow> routine_bench list option \<Rightarrow> scheduled_workflow list query_state list \<Rightarrow> routine_row list shown" where
  "globalRoutines message benches results =
     (case benches of
        None \<Rightarrow> ShownLoading
      | Some bs \<Rightarrow>
          if QLoading \<in> set results then ShownLoading
          else (case first_failure results of
                  Some e \<Rightarrow> ShownError (message e)
                | None \<Rightarrow> ShownReady (rows_of bs results)))"

definition routineDetailPath :: "string \<Rightarrow> string" where
  "routineDetailPath definitionId = ''/workflows/'' @ encodeURIComponent definitionId"

text \<open>The run action: what it invalidates, says and reports besides the calls of the hub.\<close>

record run_effects =
  re_invalidated :: "string list"
  re_toasts :: "string list"
  re_reports :: "string list"

definition runNow :: "'w hub \<Rightarrow> routine_row \<Rightarrow> 'w net \<Rightarrow> run_effects \<times> 'w net" where
  "runNow hub row n =
     (let d = rr_definition row in
      case runScheduledWorkflowNow hub (rr_tenantId row) (sw_definitionId d) (Some (sw_name d)) n of
        (Inr _, n') \<Rightarrow> (\<lparr>re_invalidated = [rr_tenantId row], re_toasts = [sw_name d @ '' started''], re_reports = []\<rparr>, n')
      | (Inl e, n') \<Rightarrow>
          (\<lparr>re_invalidated = [],
            re_toasts = [''Couldn't start '' @ sw_name d @ '': '' @ describeApiError e ''starting this routine''],
            re_reports = [''scheduled_workflow_run_now'']\<rparr>, n'))"

section \<open>The sentence of a schedule\<close>

definition fieldIsUnpinned :: "string \<Rightarrow> bool" where
  "fieldIsUnpinned f =
     (case f of
        [] \<Rightarrow> False
      | c # rest \<Rightarrow> c = CHR ''*'' \<and> (rest = [] \<or> hd rest = CHR ''/'' \<and> tl rest \<noteq> [] \<and> list_all is_digit (tl rest)))"

text \<open>The first two fields, where there are two.\<close>

definition first_fields :: "string \<Rightarrow> (string \<times> string) option" where
  "first_fields expression =
     (let t = trim expression; minute = takeWhile (\<lambda>c. \<not> is_space c) t;
          rest = dropWhile is_space (dropWhile (\<lambda>c. \<not> is_space c) t) in
      if dropWhile (\<lambda>c. \<not> is_space c) t = [] then None else Some (minute, takeWhile (\<lambda>c. \<not> is_space c) rest))"

definition cronHasWallClock :: "string \<Rightarrow> bool" where
  "cronHasWallClock expression =
     (case first_fields expression of
        None \<Rightarrow> False | Some (minute, hour) \<Rightarrow> \<not> fieldIsUnpinned minute \<or> \<not> fieldIsUnpinned hour)"

definition cronSentence :: "(string \<Rightarrow> string option) \<Rightarrow> string \<Rightarrow> string \<Rightarrow> string option" where
  "cronSentence describe expression timezone =
     (case describe expression of
        None \<Rightarrow> None
      | Some [] \<Rightarrow> None
      | Some (c # s) \<Rightarrow> Some (if cronHasWallClock expression then (c # s) @ '' ('' @ timezone @ '')'' else c # s))"

section \<open>What is listed\<close>

lemma js_map_Some: "js_map entries k = Some v \<Longrightarrow> (k, v) \<in> set entries"
  unfolding js_map_def by (drule map_of_SomeD) simp

lemma js_map_None: "js_map entries k = None \<longleftrightarrow> k \<notin> fst ` set entries"
  by (simp add: js_map_def map_of_eq_None_iff)

lemma schedule_for_Some: "schedule_for schedules n = Some s \<Longrightarrow> s \<in> set schedules \<and> cs_stoppedAt s = None \<and> cs_definitionName s = n"
  unfolding schedule_for_def by (drule js_map_Some) (auto simp: live_schedules_def)

lemma schedule_for_None: "schedule_for schedules n = None \<longleftrightarrow> \<not> list_ex (\<lambda>s. cs_stoppedAt s = None \<and> cs_definitionName s = n) schedules"
  by (auto simp: schedule_for_def js_map_None live_schedules_def list_ex_iff image_iff)

text \<open>
  Also shown. The list of workflows is the deployments of the tenant that are no agent's, each once and in the order of the hub.
  A row carries a schedule exactly when one that is not stopped names its asset, and then it is such a schedule: what a
  stopped schedule says is never shown.
\<close>

theorem workflows_listed:
  "map sw_definitionId (scheduled_rows ds assets schedules runs) =
     map rd_id (filter (\<lambda>d. case asset_name assets d of None \<Rightarrow> True | Some n \<Rightarrow> \<not> isAgentAssetName n) ds) \<and>
   list_all2 (\<lambda>d row.
       case asset_name assets d of
         None \<Rightarrow> sw_name row = ''Untitled workflow'' \<and> sw_scheduleId row = None \<and> sw_schedule row = None \<and> sw_scheduleEnabled row
       | Some n \<Rightarrow> sw_name row = n \<and>
           (if list_ex (\<lambda>s. cs_stoppedAt s = None \<and> cs_definitionName s = n) schedules
            then list_ex (\<lambda>s. cs_stoppedAt s = None \<and> cs_definitionName s = n \<and> sw_scheduleId row = Some (cs_id s) \<and>
                   sw_schedule row = Some (cs_expression s) \<and> sw_scheduleEnabled row = cs_enabled s) schedules
            else sw_scheduleId row = None \<and> sw_schedule row = None \<and> sw_scheduleEnabled row))
     (filter (is_workflow assets) ds) (scheduled_rows ds assets schedules runs)"
proof
  show "map sw_definitionId (scheduled_rows ds assets schedules runs) =
     map rd_id (filter (\<lambda>d. case asset_name assets d of None \<Rightarrow> True | Some n \<Rightarrow> \<not> isAgentAssetName n) ds)"
    by (simp add: scheduled_rows_def scheduled_row_def o_def is_workflow_def [abs_def] Let_def)
  have row: "case asset_name assets d of
         None \<Rightarrow> sw_name row = ''Untitled workflow'' \<and> sw_scheduleId row = None \<and> sw_schedule row = None \<and> sw_scheduleEnabled row
       | Some n \<Rightarrow> sw_name row = n \<and>
           (if list_ex (\<lambda>s. cs_stoppedAt s = None \<and> cs_definitionName s = n) schedules
            then list_ex (\<lambda>s. cs_stoppedAt s = None \<and> cs_definitionName s = n \<and> sw_scheduleId row = Some (cs_id s) \<and>
                   sw_schedule row = Some (cs_expression s) \<and> sw_scheduleEnabled row = cs_enabled s) schedules
            else sw_scheduleId row = None \<and> sw_schedule row = None \<and> sw_scheduleEnabled row)"
    if "row = scheduled_row assets schedules runs d" for d row
  proof (cases "asset_name assets d")
    case None
    with that show ?thesis by (simp add: scheduled_row_def)
  next
    case (Some n)
    show ?thesis
    proof (cases "schedule_for schedules n")
      case None
      with that Some schedule_for_None [of schedules n] show ?thesis by (simp add: scheduled_row_def)
    next
      case (Some s)
      from schedule_for_Some [OF this] have "s \<in> set schedules" "cs_stoppedAt s = None" "cs_definitionName s = n" by simp_all
      with that Some \<open>asset_name assets d = Some n\<close> show ?thesis by (auto simp: scheduled_row_def list_ex_iff)
    qed
  qed
  then show "list_all2 (\<lambda>d row.
       case asset_name assets d of
         None \<Rightarrow> sw_name row = ''Untitled workflow'' \<and> sw_scheduleId row = None \<and> sw_schedule row = None \<and> sw_scheduleEnabled row
       | Some n \<Rightarrow> sw_name row = n \<and>
           (if list_ex (\<lambda>s. cs_stoppedAt s = None \<and> cs_definitionName s = n) schedules
            then list_ex (\<lambda>s. cs_stoppedAt s = None \<and> cs_definitionName s = n \<and> sw_scheduleId row = Some (cs_id s) \<and>
                   sw_schedule row = Some (cs_expression s) \<and> sw_scheduleEnabled row = cs_enabled s) schedules
            else sw_scheduleId row = None \<and> sw_schedule row = None \<and> sw_scheduleEnabled row))
     (filter (is_workflow assets) ds) (scheduled_rows ds assets schedules runs)"
    by (simp add: scheduled_rows_def list_all2_map2 list_all2_refl)
qed

section \<open>What a manual run does\<close>

lemma run_after_list:
  assumes "listCronSchedules hub t n = (Inr schedules, n1)" and "runScheduledWorkflowNow hub t i name n = (res, n')"
  shows "\<exists>a. sent n' = sent n1 @ [(run_request t i (run_content schedules name), a)] \<and>
    ((\<exists>x. res = Inr x) \<longleftrightarrow> (\<exists>r. a = Inr r \<and> resp_ok r \<and> Option.bind (rs_body r) parse_trigger \<noteq> None))"
  using assms
  by (auto simp: runScheduledWorkflowNow_def bindE_def fetchE_def fetch_raw_def throwE_def returnE_def shaped_def json_body_def
      resp_ok_def split: prod.splits sum.splits if_splits option.splits)

text \<open>
  Also shown. A manual run sends the mail of the schedule and says what became of it: when the schedules could be read exactly one
  mail goes to the deployment, with the subject and body of the first live schedule of its name or with the words of a run
  without one, and the bench is read again exactly when the hub accepted the mail and named the run; when they could not,
  nothing is sent. A toast is shown in every case, and a failure is reported.
\<close>

theorem manual_run_outcome:
  assumes "runNow hub row n = (fx, n')"
  shows "\<exists>q n1. listCronSchedules hub (rr_tenantId row) n = (q, n1) \<and> length (re_toasts fx) = 1 \<and>
    (re_reports fx = [] \<longleftrightarrow> re_invalidated fx = [rr_tenantId row]) \<and>
    (case q of
       Inl e \<Rightarrow> n' = n1 \<and> re_invalidated fx = []
     | Inr schedules \<Rightarrow>
         \<exists>a. sent n' = sent n1 @ [(run_request (rr_tenantId row) (sw_definitionId (rr_definition row))
                (run_content schedules (Some (sw_name (rr_definition row)))), a)] \<and>
           re_invalidated fx = (if \<exists>r. a = Inr r \<and> resp_ok r \<and> Option.bind (rs_body r) parse_trigger \<noteq> None then [rr_tenantId row] else []))"
proof -
  let ?t = "rr_tenantId row" and ?i = "sw_definitionId (rr_definition row)" and ?name = "Some (sw_name (rr_definition row))"
  obtain q n1 where q: "listCronSchedules hub ?t n = (q, n1)" by (cases "listCronSchedules hub ?t n")
  obtain res n2 where run: "runScheduledWorkflowNow hub ?t ?i ?name n = (res, n2)" by (cases "runScheduledWorkflowNow hub ?t ?i ?name n")
  have fx: "n' = n2" "length (re_toasts fx) = 1" "re_invalidated fx = (case res of Inr _ \<Rightarrow> [?t] | Inl _ \<Rightarrow> [])"
    "re_reports fx = [] \<longleftrightarrow> re_invalidated fx = [?t]"
    using assms run by (auto simp: runNow_def Let_def split: sum.splits)
  show ?thesis
  proof (cases q)
    case (Inl e)
    with q run have "res = Inl e" "n2 = n1" by (simp_all add: runScheduledWorkflowNow_def bindE_def)
    with q Inl fx show ?thesis by simp
  next
    case (Inr schedules)
    from run_after_list [OF q [unfolded Inr] run] obtain a where
      a: "sent n2 = sent n1 @ [(run_request ?t ?i (run_content schedules ?name), a)] \<and>
        ((\<exists>x. res = Inr x) \<longleftrightarrow> (\<exists>r. a = Inr r \<and> resp_ok r \<and> Option.bind (rs_body r) parse_trigger \<noteq> None))" ..
    have "re_invalidated fx = (if \<exists>r. a = Inr r \<and> resp_ok r \<and> Option.bind (rs_body r) parse_trigger \<noteq> None then [?t] else [])"
      unfolding conjunct2 [OF a, symmetric] fx(3) by (cases res) simp_all
    moreover have "sent n' = sent n1 @ [(run_request ?t ?i (run_content schedules ?name), a)]" unfolding fx(1) by (rule conjunct1 [OF a])
    ultimately have "\<exists>a. sent n' = sent n1 @ [(run_request ?t ?i (run_content schedules ?name), a)] \<and>
        re_invalidated fx = (if \<exists>r. a = Inr r \<and> resp_ok r \<and> Option.bind (rs_body r) parse_trigger \<noteq> None then [?t] else [])" by (intro exI [of _ a] conjI)
    with q Inr fx(2,4) show ?thesis by (intro exI [of _ q] exI [of _ n1] conjI) (assumption | simp only: sum.case)+
  qed
qed

definition demo_schedule :: "string \<Rightarrow> string \<Rightarrow> cron_schedule" where
  "demo_schedule i subject = \<lparr>cs_id = i, cs_expression = ''0 9 * * *'', cs_definitionName = ''digest'', cs_subject = subject,
     cs_body = ''b'', cs_stoppedAt = None, cs_enabled = True\<rparr>"

definition demo_deployment :: routine_deployment where
  "demo_deployment = \<lparr>rd_id = ''d'', rd_tenantId = ''t'', rd_assetId = ''a'', rd_status = Deployed, rd_createdAt = ''c''\<rparr>"

text \<open>Of two live schedules of one workflow the list shows the second and a manual run sends the first.\<close>

lemma list_and_run_differ:
  "sw_scheduleId (scheduled_row [(''a'', ''digest'')] [demo_schedule ''1'' ''first'', demo_schedule ''2'' ''second''] [] demo_deployment) = Some ''2'' \<and>
   run_content [demo_schedule ''1'' ''first'', demo_schedule ''2'' ''second''] (Some ''digest'') = ''first'' @ [CHR 0x0A, CHR 0x0A] @ ''b''"
  by (simp add: scheduled_row_def asset_name_def js_map_def demo_deployment_def schedule_for_def live_schedules_def demo_schedule_def
      run_content_def)

definition demo_row :: routine_row where
  "demo_row = \<lparr>rr_definition = scheduled_row [(''a'', ''digest'')] [] [] demo_deployment, rr_tenantId = ''t'', rr_tenantName = ''T''\<rparr>"

definition demo_run_answers :: "response list" where
  "demo_run_answers = [\<lparr>rs_status = 200, rs_body = Some (JObj [(''schedules'', JArr [])])\<rparr>,
     \<lparr>rs_status = 201, rs_body = Some (JObj [(''runId'', JStr ''r''), (''address'', JStr ''a''), (''messageId'', JStr ''m'')])\<rparr>]"

theorem manual_run_outcome_witness:
  "\<exists>fx n'. runNow scripted demo_row (script demo_run_answers) = (fx, n') \<and> re_invalidated fx = [''t''] \<and> length (re_toasts fx) = 1"
proof -
  obtain fx n' where run: "runNow scripted demo_row (script demo_run_answers) = (fx, n')" by (cases "runNow scripted demo_row (script demo_run_answers)")
  have "re_invalidated fx = [''t'']"
    using run by (simp add: runNow_def demo_row_def runScheduledWorkflowNow_def listCronSchedules_def fetch_json_def apiRequest_def
        script_def demo_run_answers_def bindE_def returnE_def resp_ok_def on_json_def parse_schedules_def array_of_def shaped_def
        json_body_def parse_trigger_def str_field_def Let_def split: prod.splits sum.splits)
      (auto simp: returnE_def)
  moreover from manual_run_outcome [OF run] have "length (re_toasts fx) = 1" by auto
  ultimately show ?thesis using run by blast
qed

end
