(* ===== verification/Sidecar_Config.thy ===== *)
theory Sidecar_Config
  imports Js_Number Js_Double
begin

text \<open>
  What the sidecar reads from its environment at boot, \<open>apps/sidecar/src\<close>: the readers of \<open>config.ts\<close>, the ones written
  out in \<open>index.ts\<close>, and the environment it hands to the child that runs a workflow. The environment is a map from names to
  texts; the schema of capacities, \<open>hexDecode\<close> and \<open>parseAdapterManifestEnv\<close> are parameters.
\<close>

section \<open>Numbers\<close>

text \<open>
  A \<open>number\<close> read from a text: the double nearest to what the text says, or one of \<open>NaN\<close> and the infinities, which
  \<open>Number.isFinite\<close> rejects. A value below half of the smallest double is 0, one that rounds beyond the largest is infinite.
  An integer above \<open>2^53\<close> is kept as it is written.
\<close>

datatype js_value = Finite rat | NotFinite

definition to_double :: "rat \<Rightarrow> js_value" where
  "to_double x =
     (if 2 ^ 1024 - 2 ^ 970 \<le> \<bar>x\<bar> then NotFinite
      else if \<bar>x\<bar> * 2 ^ 1075 \<le> 1 then Finite 0
      else Finite (sgn x * double_of \<bar>x\<bar>))"

definition scaled_value :: "nat \<Rightarrow> int \<Rightarrow> rat" where
  "scaled_value m e = (if 0 \<le> e then of_nat m * 10 ^ nat e else of_nat m / 10 ^ nat (- e))"

definition radix_value :: "nat \<Rightarrow> string \<Rightarrow> rat option" where
  "radix_value b ds =
     (if ds \<noteq> [] \<and> list_all (\<lambda>c. digit_value c < b) ds then Some (of_nat (digits_value b ds)) else None)"

definition decimal_value :: "string \<Rightarrow> rat option" where
  "decimal_value s =
     (let ip = takeWhile is_digit s;
          r = dropWhile is_digit s;
          dot = (r \<noteq> [] \<and> hd r = CHR ''.'');
          fp = (if dot then takeWhile is_digit (tl r) else []);
          rest = (if dot then dropWhile is_digit (tl r) else r)
      in if ip @ fp = [] then None
         else map_option (\<lambda>e. scaled_value (digits_value 10 (ip @ fp)) (e - int (length fp))) (exponent rest))"

definition text_value :: "string \<Rightarrow> rat option" where
  "text_value t =
     (if t = [] then Some 0
      else if take 2 t \<in> {''0x'', ''0X''} then radix_value 16 (drop 2 t)
      else if take 2 t \<in> {''0o'', ''0O''} then radix_value 8 (drop 2 t)
      else if take 2 t \<in> {''0b'', ''0B''} then radix_value 2 (drop 2 t)
      else (case signed t of (neg, body) \<Rightarrow>
              map_option (\<lambda>x. if neg then - x else x) (decimal_value body)))"

text \<open>\<open>Number(raw)\<close>.\<close>

definition number_of :: "string \<Rightarrow> js_value" where
  "number_of raw = (case text_value (trim raw) of None \<Rightarrow> NotFinite | Some x \<Rightarrow> to_double x)"

text \<open>
  \<open>Number.parseInt(raw, 10)\<close>: white space and a sign are skipped, then as many digits are read as there are; whatever follows
  them is ignored.
\<close>

definition parse_int10 :: "string \<Rightarrow> js_value" where
  "parse_int10 raw =
     (case signed (trim_start raw) of (neg, body) \<Rightarrow>
        let ds = takeWhile is_digit body in
        if ds = [] then NotFinite
        else to_double (if neg then - of_nat (digits_value 10 ds) else of_nat (digits_value 10 ds)))"

fun positive :: "js_value \<Rightarrow> bool" where
  "positive (Finite x) = (0 < x)"
| "positive NotFinite = False"

fun integral :: "js_value \<Rightarrow> bool" where
  "integral (Finite x) = (snd (quotient_of x) = 1)"
| "integral NotFinite = False"

section \<open>The readers of \<open>config.ts\<close>\<close>

type_synonym environment = "string \<Rightarrow> string option"

text \<open>\<open>raw === undefined || raw.trim() === ""\<close>.\<close>

fun is_blank :: "string option \<Rightarrow> bool" where
  "is_blank None = True"
| "is_blank (Some raw) = (trim raw = [])"

definition DEFAULT_CACHE_MAX_BYTES :: rat where
  "DEFAULT_CACHE_MAX_BYTES = 10 * 1024 * 1024 * 1024"

definition DEFAULT_REGISTRY_MAX_TARBALL_BYTES :: rat where
  "DEFAULT_REGISTRY_MAX_TARBALL_BYTES = 10 * 1024 * 1024"

definition read_bytes :: "string \<Rightarrow> rat \<Rightarrow> environment \<Rightarrow> string + rat" where
  "read_bytes name fallback env =
     (if is_blank (env name) then Inr fallback
      else (let raw = the (env name) in
            case number_of raw of
              Finite n \<Rightarrow> if 0 < n then Inr n else Inl (name @ '' must be a positive number; got '' @ raw)
            | NotFinite \<Rightarrow> Inl (name @ '' must be a positive number; got '' @ raw)))"

definition readCacheMaxBytes :: "environment \<Rightarrow> string + rat" where
  "readCacheMaxBytes = read_bytes ''SIDECAR_CACHE_MAX_BYTES'' DEFAULT_CACHE_MAX_BYTES"

definition readRegistryMaxTarballBytes :: "environment \<Rightarrow> string + rat" where
  "readRegistryMaxTarballBytes =
     read_bytes ''SIDECAR_REGISTRY_MAX_TARBALL_BYTES'' DEFAULT_REGISTRY_MAX_TARBALL_BYTES"

text \<open>A delay in milliseconds; \<open>None\<close> leaves the hub link its own.\<close>

definition parseReconnectDelayMs :: "string option \<Rightarrow> string + rat option" where
  "parseReconnectDelayMs raw =
     (if is_blank raw then Inr None
      else (let n = number_of (the raw) in
            if integral n \<and> positive n then Inr (case n of Finite x \<Rightarrow> Some x | NotFinite \<Rightarrow> None)
            else Inl (''SIDECAR_RECONNECT_DELAY_MS must be a positive integer (milliseconds), got '' @ the raw)))"

record capacity =
  maxActiveDeployments :: js_value
  maxRetainedDeployments :: js_value

text \<open>The schema answers the summary of what it objects to, or the capacity.\<close>

definition parseDeploymentCapacity ::
  "capacity \<Rightarrow> (capacity \<Rightarrow> string + capacity) \<Rightarrow> string option \<Rightarrow> string option \<Rightarrow> string + capacity" where
  "parseDeploymentCapacity default_capacity schema active retained =
     (case schema \<lparr> maxActiveDeployments =
                     (if is_blank active then maxActiveDeployments default_capacity else number_of (the active)),
                   maxRetainedDeployments =
                     (if is_blank retained then maxRetainedDeployments default_capacity else number_of (the retained)) \<rparr> of
        Inl summary \<Rightarrow>
          Inl (''Invalid SIDECAR_MAX_ACTIVE_DEPLOYMENTS or SIDECAR_MAX_RETAINED_DEPLOYMENTS: '' @ summary)
      | Inr c \<Rightarrow> Inr c)"

definition readCredentialEncryptionKey :: "(string \<Rightarrow> string + 'key) \<Rightarrow> environment \<Rightarrow> string + 'key" where
  "readCredentialEncryptionKey hexDecode env =
     (if is_blank (env ''SIDECAR_CREDENTIAL_ENCRYPTION_KEY'')
      then Inl ''SIDECAR_CREDENTIAL_ENCRYPTION_KEY environment variable is required''
      else hexDecode (the (env ''SIDECAR_CREDENTIAL_ENCRYPTION_KEY'')))"

text \<open>\<open>parseAdapterManifestEnv\<close> answers \<open>None\<close> for a variable that is not set.\<close>

definition readAdapterManifest ::
  "(string option \<Rightarrow> string + 'adapter list option) \<Rightarrow> environment \<Rightarrow> string + 'adapter list" where
  "readAdapterManifest parse env =
     (case parse (env ''SIDECAR_ADAPTER_MANIFEST'') of
        Inl e \<Rightarrow> Inl e
      | Inr None \<Rightarrow> Inr []
      | Inr (Some manifest) \<Rightarrow> Inr manifest)"

section \<open>What \<open>index.ts\<close> reads\<close>

definition requireEnv :: "string \<Rightarrow> environment \<Rightarrow> string + string" where
  "requireEnv name env =
     (case env name of None \<Rightarrow> Inl (name @ '' environment variable is required'') | Some v \<Rightarrow> Inr v)"

text \<open>
  The optional positive integers, \<open>unit_text\<close> being what the message says of the unit. An integer is read with
  \<open>Number.parseInt\<close>.
\<close>

definition optional_positive :: "string \<Rightarrow> string \<Rightarrow> environment \<Rightarrow> string + rat option" where
  "optional_positive name unit_text env =
     (if is_blank (env name) then Inr None
      else (let raw = the (env name) in
            case parse_int10 raw of
              Finite n \<Rightarrow>
                if n \<le> 0 then Inl (name @ '' must be a positive integer'' @ unit_text @ '', got '' @ raw) else Inr (Some n)
            | NotFinite \<Rightarrow> Inl (name @ '' must be a positive integer'' @ unit_text @ '', got '' @ raw)))"

definition repackEveryMessages :: "environment \<Rightarrow> string + rat option" where
  "repackEveryMessages = optional_positive ''SIDECAR_REPACK_EVERY_MESSAGES'' []"

definition consumedRetentionMs :: "environment \<Rightarrow> string + rat option" where
  "consumedRetentionMs = optional_positive ''CONSUMED_RETENTION_MS'' '' (milliseconds)''"

definition readyTimeoutMs :: "environment \<Rightarrow> string + rat option" where
  "readyTimeoutMs = optional_positive ''CHILD_READY_TIMEOUT_MS'' '' (milliseconds)''"

subsection \<open>Paths\<close>

text \<open>\<open>path.join\<close> of POSIX paths: the non-empty parts are joined and \<open>.\<close> and \<open>..\<close> resolved.\<close>

fun normal_parts :: "bool \<Rightarrow> string list \<Rightarrow> string list \<Rightarrow> string list" where
  "normal_parts up acc [] = rev acc"
| "normal_parts up acc (p # ps) =
     (if p = [] \<or> p = ''.'' then normal_parts up acc ps
      else if p = ''..''
      then (if acc \<noteq> [] \<and> hd acc \<noteq> ''..'' then normal_parts up (tl acc) ps
            else if up then normal_parts up (p # acc) ps
            else normal_parts up acc ps)
      else normal_parts up (p # acc) ps)"

definition path_normalize :: "string \<Rightarrow> string" where
  "path_normalize p =
     (if p = [] then ''.''
      else (let absolute = hd p = CHR ''/'';
                trailing = last p = CHR ''/'';
                body = join ''/'' (normal_parts (\<not> absolute) [] (split_on CHR ''/'' p))
            in if body = [] then (if absolute then ''/'' else if trailing then ''./'' else ''.'')
               else (if absolute then ''/'' else []) @ body @ (if trailing then ''/'' else [])))"

definition path_join :: "string list \<Rightarrow> string" where
  "path_join ps = (let qs = filter (\<lambda>p. p \<noteq> []) ps in if qs = [] then ''.'' else path_normalize (join ''/'' qs))"

definition cacheRoot :: "string \<Rightarrow> environment \<Rightarrow> string" where
  "cacheRoot dataDir env =
     (if is_blank (env ''SIDECAR_CACHE_DIR'') then path_join [dataDir, ''cache'', ''tarballs'']
      else the (env ''SIDECAR_CACHE_DIR''))"

definition SIDECAR_SIGNING_DIR :: "string \<Rightarrow> string" where
  "SIDECAR_SIGNING_DIR dataDir = path_join [dataDir, ''.sidecar-signing'']"

definition probe_scratch_root :: "string \<Rightarrow> string" where
  "probe_scratch_root dataDir = path_join [dataDir, ''workflow-probe'', ''closures'']"

subsection \<open>The lines of the latency benchmark\<close>

record leg_counters =
  runsFanOut :: int
  consumedFanOut :: int
  looseObjects :: int
  gitBytes :: int

datatype timing_mark =
    Roundtrip string string rat
  | Leg string string string rat "leg_counters option"

text \<open>\<open>toFixed(3)\<close> of a time that is not negative: the nearest thousandth, the larger of two.\<close>

definition to_fixed3 :: "rat \<Rightarrow> string" where
  "to_fixed3 x =
     (let n = nat \<lfloor>1000 * x + 1 / 2\<rfloor>; f = dec (n mod 1000)
      in dec (n div 1000) @ ''.'' @ replicate (3 - length f) CHR ''0'' @ f)"

fun timing_line :: "timing_mark \<Rightarrow> string" where
  "timing_line (Roundtrip messageId marker atMs) =
     messageId @ '' '' @ marker @ '' '' @ to_fixed3 atMs @ [CHR 0x0A]"
| "timing_line (Leg messageId leg phase atMs counters) =
     messageId @ '' leg '' @ leg @ '' '' @ phase @ '' '' @ to_fixed3 atMs @
     (case counters of
        None \<Rightarrow> []
      | Some c \<Rightarrow> '' '' @ string_of_int (runsFanOut c) @ '' '' @ string_of_int (consumedFanOut c) @ '' '' @
                  string_of_int (looseObjects c) @ '' '' @ string_of_int (gitBytes c)) @ [CHR 0x0A]"

text \<open>The observer, \<open>None\<close> where no file is named: it appends the line of each mark to the file.\<close>

definition onDispatchTiming :: "environment \<Rightarrow> (timing_mark \<Rightarrow> string \<times> string) option" where
  "onDispatchTiming env =
     (if is_blank (env ''SIDECAR_LATENCY_BENCH_FILE'') then None
      else Some (\<lambda>mark. (the (env ''SIDECAR_LATENCY_BENCH_FILE''), timing_line mark)))"

section \<open>The environment of a workflow child\<close>

type_synonym substrate_env = "(string \<times> string) list"

definition add_if_set :: "string \<Rightarrow> environment \<Rightarrow> substrate_env \<Rightarrow> substrate_env" where
  "add_if_set name env sub = (case env name of None \<Rightarrow> sub | Some v \<Rightarrow> sub @ [(name, v)])"

text \<open>The texts of the keys (\<open>hexEncode\<close>), the caps (\<open>String\<close>) and the manifest (\<open>JSON.stringify\<close>) are arguments.\<close>

record substrate_texts =
  public_key_hex :: string
  private_key_hex :: string
  cache_max_text :: string
  registry_max_text :: string
  manifest_json :: string

definition multistepSubstrateEnv :: "string \<Rightarrow> substrate_texts \<Rightarrow> environment \<Rightarrow> string + substrate_env" where
  "multistepSubstrateEnv dataDir t env =
     (case requireEnv ''PATH'' env of
        Inl e \<Rightarrow> Inl e
      | Inr search_path \<Rightarrow>
          Inr (add_if_set ''TMPDIR'' env (add_if_set ''HOME'' env
            [(''SIDECAR_DATA_DIR'', dataDir),
             (''SIDECAR_SIGNING_PUBLIC_KEY'', public_key_hex t),
             (''SIDECAR_SIGNING_PRIVATE_KEY'', private_key_hex t),
             (''PATH'', search_path),
             (''SIDECAR_CACHE_MAX_BYTES'', cache_max_text t),
             (''SIDECAR_REGISTRY_MAX_TARBALL_BYTES'', registry_max_text t),
             (''SIDECAR_ADAPTER_MANIFEST'', manifest_json t)])))"

section \<open>What a boot relies on\<close>

lemma to_double_of_nat: "n < 2 ^ 1023 \<Longrightarrow> to_double (of_nat n) = Finite (of_nat n)"
proof -
  assume n: "n < 2 ^ 1023"
  have "(of_nat n :: rat) < 2 ^ 1023" using n by (metis of_nat_less_iff of_nat_numeral of_nat_power)
  moreover have "(2 :: rat) ^ 1023 \<le> 2 ^ 1024 - 2 ^ 970" by simp
  ultimately have big: "\<not> 2 ^ 1024 - 2 ^ 970 \<le> (of_nat n :: rat)" by linarith
  show ?thesis
  proof (cases "n = 0")
    case False
    then have "1 \<le> (of_nat n :: rat)" by simp
    then have "\<not> (of_nat n :: rat) * 2 ^ 1075 \<le> 1"
      using mult_mono [of 1 "of_nat n :: rat" 2 "2 ^ 1075"] by simp
    with big False show ?thesis
      using double_of_int [of "int n"] by (simp add: to_double_def)
  qed (simp add: to_double_def)
qed

text \<open>
  \<open>Number.parseInt\<close> stops at the first character that is no digit, so whatever follows the digits passes the checks of
  \<open>index.ts\<close>; \<open>Number\<close>, which \<open>config.ts\<close> uses for the same kind of setting, takes the whole text or nothing.
\<close>

lemma parse_int10_prefix:
  assumes "ds \<noteq> []" and "list_all is_digit ds" and "rest = [] \<or> \<not> is_digit (hd rest)"
    and "digits_value 10 ds < 2 ^ 1023"
  shows "parse_int10 (ds @ rest) = Finite (of_nat (digits_value 10 ds))"
proof -
  obtain d ds' where ds: "ds = d # ds'" using assms(1) by (cases ds) auto
  have d: "is_digit d" using assms(2) ds by simp
  then have "d \<noteq> CHR ''-''" "d \<noteq> CHR ''+''" by (auto simp: is_digit_def in_range_def char_code_def)
  moreover have "trim_start (ds @ rest) = ds @ rest"
    using d is_digit_not_space ds by (simp add: trim_start_def)
  moreover have "takeWhile is_digit (ds @ rest) = ds"
    using assms(2,3) by (cases rest) (auto simp: list_all_iff takeWhile_append)
  ultimately show ?thesis
    using ds assms(4) to_double_of_nat by (simp add: parse_int10_def)
qed

lemma unit_suffix_accepted:
  assumes "env ''CHILD_READY_TIMEOUT_MS'' = Some (ds @ ''s'')" and "ds \<noteq> []" and "list_all is_digit ds"
    and "0 < digits_value 10 ds" and "digits_value 10 ds < 2 ^ 1023"
  shows "readyTimeoutMs env = Inr (Some (of_nat (digits_value 10 ds)))"
proof -
  have ns: "\<not> is_space c" if "c \<in> set (ds @ ''s'')" for c
    using that assms(3) is_digit_not_space by (auto simp: list_all_iff is_space_def in_range_def char_code_def)
  have "trim (ds @ ''s'') = ds @ ''s''" by (rule trim_id) (rule ns)
  moreover have "parse_int10 (ds @ ''s'') = Finite (of_nat (digits_value 10 ds))"
    using assms by (intro parse_int10_prefix) (auto simp: is_digit_def in_range_def char_code_def)
  ultimately show ?thesis
    using assms by (simp add: readyTimeoutMs_def optional_positive_def)
qed

lemma unit_suffix_rejected: "parseReconnectDelayMs (Some ''3000ms'') = Inl
    ''SIDECAR_RECONNECT_DELAY_MS must be a positive integer (milliseconds), got 3000ms''"
  by code_simp

text \<open>A number the boot goes on with is positive, and a variable that is not set or blank gives the default.\<close>

lemma read_bytes_positive:
  "read_bytes name fallback env = Inr n \<Longrightarrow> 0 < fallback \<Longrightarrow> 0 < n \<and> (is_blank (env name) \<longrightarrow> n = fallback)"
  by (auto simp: read_bytes_def Let_def split: if_splits js_value.splits)

lemma optional_positive_positive:
  "optional_positive name unit_text env = Inr (Some n) \<Longrightarrow> 0 < n \<and> \<not> is_blank (env name)"
  by (auto simp: optional_positive_def Let_def split: if_splits js_value.splits)

text \<open>
  Also shown. The environment of a workflow child names each of its variables once, and has neither the token
  of the sidecar nor the key its credentials are sealed with nor the address of the hub, and nothing of it depends on any
  variable of the sidecar but the three it passes on.
\<close>

theorem child_env_closed:
  assumes "multistepSubstrateEnv dataDir t env = Inr sub"
  shows "distinct (map fst sub) \<and>
    set (map fst sub) \<inter> {''SIDECAR_TOKEN'', ''SIDECAR_CREDENTIAL_ENCRYPTION_KEY'', ''HUB_WS_URL'', ''SIDECAR_ID''} = {} \<and>
    map_of sub ''PATH'' = env ''PATH'' \<and> map_of sub ''HOME'' = env ''HOME'' \<and> map_of sub ''TMPDIR'' = env ''TMPDIR'' \<and>
    (\<forall>other. (\<forall>name \<in> {''PATH'', ''HOME'', ''TMPDIR''}. other name = env name) \<longrightarrow>
       multistepSubstrateEnv dataDir t other = Inr sub)"
  using assms
  by (auto simp: multistepSubstrateEnv_def requireEnv_def add_if_set_def split: option.splits)

theorem child_env_closed_witness:
  "multistepSubstrateEnv ''/data'' (substrate_texts.make ''aa'' ''bb'' ''1'' ''2'' ''[]'')
     [''PATH'' \<mapsto> ''/bin'', ''SIDECAR_TOKEN'' \<mapsto> ''t'', ''HOME'' \<mapsto> ''/root''] =
   Inr [(''SIDECAR_DATA_DIR'', ''/data''), (''SIDECAR_SIGNING_PUBLIC_KEY'', ''aa''), (''SIDECAR_SIGNING_PRIVATE_KEY'', ''bb''),
        (''PATH'', ''/bin''), (''SIDECAR_CACHE_MAX_BYTES'', ''1''), (''SIDECAR_REGISTRY_MAX_TARBALL_BYTES'', ''2''),
        (''SIDECAR_ADAPTER_MANIFEST'', ''[]''), (''HOME'', ''/root'')] \<and>
   map_of [(''SIDECAR_DATA_DIR'', ''/data''), (''SIDECAR_SIGNING_PUBLIC_KEY'', ''aa''), (''SIDECAR_SIGNING_PRIVATE_KEY'', ''bb''),
        (''PATH'', ''/bin''), (''SIDECAR_CACHE_MAX_BYTES'', ''1''), (''SIDECAR_REGISTRY_MAX_TARBALL_BYTES'', ''2''),
        (''SIDECAR_ADAPTER_MANIFEST'', ''[]''), (''HOME'', ''/root'')] ''TMPDIR'' = None"
proof -
  have run: "multistepSubstrateEnv ''/data'' (substrate_texts.make ''aa'' ''bb'' ''1'' ''2'' ''[]'')
     [''PATH'' \<mapsto> ''/bin'', ''SIDECAR_TOKEN'' \<mapsto> ''t'', ''HOME'' \<mapsto> ''/root''] =
   Inr [(''SIDECAR_DATA_DIR'', ''/data''), (''SIDECAR_SIGNING_PUBLIC_KEY'', ''aa''), (''SIDECAR_SIGNING_PRIVATE_KEY'', ''bb''),
        (''PATH'', ''/bin''), (''SIDECAR_CACHE_MAX_BYTES'', ''1''), (''SIDECAR_REGISTRY_MAX_TARBALL_BYTES'', ''2''),
        (''SIDECAR_ADAPTER_MANIFEST'', ''[]''), (''HOME'', ''/root'')]"
    by (simp add: multistepSubstrateEnv_def requireEnv_def add_if_set_def substrate_texts.make_def)
  from child_env_closed [OF run] run show ?thesis by simp
qed

end
