(* ===== verification/Sidecar_Process.thy ===== *)
theory Sidecar_Process
  imports Sidecar_Config
begin

text \<open>
  The process of the sidecar, \<open>apps/sidecar/src\<close>: the signing key it keeps (\<open>signing-keypair.ts\<close>), the pipes and the
  process group of a workflow child (\<open>workflow-child-spawner.ts\<close>, \<open>workflow-probe-spawner.ts\<close>), the files a step's tools
  are read from (\<open>step-tool-materialization.ts\<close>), and the boot with the callbacks it gives the hub link (\<open>index.ts\<close>).
  Keys, the decoder of addresses and the vendored orchestrator are parameters.
\<close>

section \<open>The signing key\<close>

type_synonym octets = "nat list"

record keypair =
  privateKey :: octets
  publicKey :: octets

text \<open>
  What the file system answers during one boot: whether \<open>access\<close> succeeds on a file that is there, and the error of a read, of
  \<open>mkdir\<close> and of a write, which may leave the file absent, or there with any content.
\<close>

record fs_answers =
  access_ok :: "string \<Rightarrow> bool"
  read_error :: "string \<Rightarrow> string option"
  mkdir_error :: "string option"
  write_error :: "string \<Rightarrow> (string \<times> octets option) option"

type_synonym disk = "string \<Rightarrow> octets option"

definition private_key_path :: "string \<Rightarrow> string" where
  "private_key_path dir = path_join [dir, ''ed25519.private'']"

definition public_key_path :: "string \<Rightarrow> string" where
  "public_key_path dir = path_join [dir, ''ed25519.public'']"

definition file_exists :: "fs_answers \<Rightarrow> disk \<Rightarrow> string \<Rightarrow> bool" where
  "file_exists fs d p = (d p \<noteq> None \<and> access_ok fs p)"

definition readFile :: "fs_answers \<Rightarrow> string \<Rightarrow> (disk, string, octets) comp" where
  "readFile fs p d =
     (case read_error fs p of
        Some e \<Rightarrow> (Inl e, d)
      | None \<Rightarrow> (case d p of None \<Rightarrow> (Inl (''ENOENT: no such file or directory, open '' @ p), d) | Some b \<Rightarrow> (Inr b, d)))"

definition writeFile :: "fs_answers \<Rightarrow> string \<Rightarrow> octets \<Rightarrow> (disk, string, unit) comp" where
  "writeFile fs p b d =
     (case write_error fs p of
        Some (e, remains) \<Rightarrow> (Inl e, d (p := remains))
      | None \<Rightarrow> (Inr (), d (p := Some b)))"

text \<open>\<open>Promise.all\<close> of two writes: both are made, and the first error is the error of both.\<close>

definition both_writes :: "(disk, string, unit) comp \<Rightarrow> (disk, string, unit) comp \<Rightarrow> (disk, string, unit) comp" where
  "both_writes m n d =
     (case m d of (r, d') \<Rightarrow> (case n d' of (r', d'') \<Rightarrow> ((case r of Inl e \<Rightarrow> Inl e | Inr _ \<Rightarrow> r'), d'')))"

fun bytesEqual :: "octets \<Rightarrow> octets \<Rightarrow> bool" where
  "bytesEqual [] [] = True"
| "bytesEqual (x # xs) (y # ys) = (x = y \<and> bytesEqual xs ys)"
| "bytesEqual _ _ = False"

definition bool_text :: "bool \<Rightarrow> string" where
  "bool_text b = (if b then ''true'' else ''false'')"

definition partial_message :: "string \<Rightarrow> bool \<Rightarrow> bool \<Rightarrow> string" where
  "partial_message dir havePriv havePub =
     ''sidecar signing keypair under '' @ dir @ '' is partial: privateKey='' @ bool_text havePriv @ '' publicKey='' @
     bool_text havePub @ ''; remove the directory to reset''"

definition bad_seed_message :: "string \<Rightarrow> string" where
  "bad_seed_message dir =
     ''sidecar signing seed at '' @ private_key_path dir @ '' is not a valid Ed25519 seed; remove '' @ dir @ '' to reset''"

definition mismatch_message :: "string \<Rightarrow> string" where
  "mismatch_message dir =
     ''sidecar signing public key at '' @ public_key_path dir @ '' does not match the key derived from the seed at '' @
     private_key_path dir @ ''; the sidecar would advertise a public key it cannot sign with, so every signature would fail '' @
     ''verification at the hub; restore the matching seed, or remove '' @ dir @ '' to mint a fresh identity''"

text \<open>\<open>derive\<close> is \<open>derivePublicKeyBytes\<close>, \<open>None\<close> where it throws, and \<open>fresh\<close> the pair \<open>generateKeyPair\<close> makes.\<close>

definition loadOrMintSidecarKeypair ::
  "(octets \<Rightarrow> octets option) \<Rightarrow> fs_answers \<Rightarrow> keypair \<Rightarrow> string \<Rightarrow> (disk, string, keypair) comp" where
  "loadOrMintSidecarKeypair derive fs fresh dir =
     bindE (getsE (\<lambda>d. (file_exists fs d (private_key_path dir), file_exists fs d (public_key_path dir))))
       (\<lambda>(havePriv, havePub).
          if havePriv \<noteq> havePub then throwE (partial_message dir havePriv havePub)
          else if havePriv \<and> havePub
          then bindE (readFile fs (private_key_path dir)) (\<lambda>seed.
               bindE (readFile fs (public_key_path dir)) (\<lambda>stored.
                 case derive seed of
                   None \<Rightarrow> throwE (bad_seed_message dir)
                 | Some derived \<Rightarrow>
                     if \<not> bytesEqual derived stored then throwE (mismatch_message dir)
                     else returnE \<lparr> privateKey = seed, publicKey = derived \<rparr>))
          else (case mkdir_error fs of
                  Some e \<Rightarrow> throwE e
                | None \<Rightarrow>
                    bindE (both_writes (writeFile fs (private_key_path dir) (privateKey fresh))
                                       (writeFile fs (public_key_path dir) (publicKey fresh)))
                      (\<lambda>_. returnE fresh)))"

section \<open>The control pipe\<close>

text \<open>
  \<open>TextDecoder("utf-8")\<close> fed in chunks, byte by byte: the bytes of the code point being read are held back until it is complete,
  a byte that cannot go on with it gives U+FFFD, and a byte order mark at the beginning of the stream is dropped.
\<close>

record utf8_state =
  needed :: nat
  code_point :: nat
  lower_bound :: nat
  upper_bound :: nat
  started :: bool

definition new_decoder :: utf8_state where
  "new_decoder = \<lparr> needed = 0, code_point = 0, lower_bound = 128, upper_bound = 191, started = False \<rparr>"

text \<open>A code point in UTF-16.\<close>

definition utf16 :: "nat \<Rightarrow> nat list" where
  "utf16 c = (if c < 65536 then [c] else [55296 + (c - 65536) div 1024, 56320 + (c - 65536) mod 1024])"

definition emit :: "nat \<Rightarrow> utf8_state \<Rightarrow> nat list \<times> utf8_state" where
  "emit c st =
     ((if \<not> started st \<and> c = 65279 then [] else utf16 c),
      st \<lparr> needed := 0, code_point := 0, lower_bound := 128, upper_bound := 191, started := True \<rparr>)"

definition first_byte :: "nat \<Rightarrow> utf8_state \<Rightarrow> nat list \<times> utf8_state" where
  "first_byte b st =
     (if b < 128 then emit b st
      else if 194 \<le> b \<and> b \<le> 223 then ([], st \<lparr> needed := 1, code_point := b - 192 \<rparr>)
      else if 224 \<le> b \<and> b \<le> 239
      then ([], st \<lparr> needed := 2, code_point := b - 224,
                    lower_bound := (if b = 224 then 160 else 128), upper_bound := (if b = 237 then 159 else 191) \<rparr>)
      else if 240 \<le> b \<and> b \<le> 244
      then ([], st \<lparr> needed := 3, code_point := b - 240,
                    lower_bound := (if b = 240 then 144 else 128), upper_bound := (if b = 244 then 143 else 191) \<rparr>)
      else emit 65533 st)"

definition decode_byte :: "nat \<Rightarrow> utf8_state \<Rightarrow> nat list \<times> utf8_state" where
  "decode_byte b st =
     (if needed st = 0 then first_byte b st
      else if lower_bound st \<le> b \<and> b \<le> upper_bound st
      then (let c = code_point st * 64 + (b - 128) in
            if needed st = 1 then emit c st
            else ([], st \<lparr> needed := needed st - 1, code_point := c, lower_bound := 128, upper_bound := 191 \<rparr>))
      else (case emit 65533 st of (u, st') \<Rightarrow> (case first_byte b st' of (v, st'') \<Rightarrow> (u @ v, st''))))"

fun decode_chunk :: "octets \<Rightarrow> utf8_state \<Rightarrow> nat list \<times> utf8_state" where
  "decode_chunk [] st = ([], st)"
| "decode_chunk (b # bs) st =
     (case decode_byte b st of (u, st') \<Rightarrow> (case decode_chunk bs st' of (v, st'') \<Rightarrow> (u @ v, st'')))"

text \<open>The lines a pending text is complete for, and what is left; \<open>line.replace(/\r$/, "")\<close>.\<close>

definition strip_cr :: "nat list \<Rightarrow> nat list" where
  "strip_cr l = (if l \<noteq> [] \<and> last l = 13 then butlast l else l)"

function drain_lines :: "nat list \<Rightarrow> nat list list \<times> nat list" where
  "drain_lines pending =
     (if 10 \<in> set pending
      then (let line = strip_cr (takeWhile (\<lambda>u. u \<noteq> 10) pending);
                rest = tl (dropWhile (\<lambda>u. u \<noteq> 10) pending)
            in case drain_lines rest of (ls, p) \<Rightarrow> ((if line \<noteq> [] then line # ls else ls), p))
      else ([], pending))"
  by auto
termination
proof (relation "measure length")
  fix pending :: "nat list" and line rest
  assume nl: "10 \<in> set pending" and "rest = tl (dropWhile (\<lambda>u. u \<noteq> 10) pending)"
  moreover have "length (dropWhile (\<lambda>u. u \<noteq> 10) pending) \<le> length pending" by (rule length_dropWhile_le)
  moreover have "dropWhile (\<lambda>u. u \<noteq> 10) pending \<noteq> []" using nl by (simp add: dropWhile_eq_Nil_conv)
  ultimately show "(rest, pending) \<in> measure length"
    by (cases "dropWhile (\<lambda>u. u \<noteq> 10) pending") auto
qed simp

declare drain_lines.simps [simp del]

text \<open>
  The reader of the child's stdout: the lines it yields for the chunks that arrive before the stream ends (\<open>None\<close>) or fails with
  an error, which the iteration throws after them.
\<close>

fun read_chunks :: "utf8_state \<Rightarrow> nat list \<Rightarrow> octets list \<Rightarrow> string option \<Rightarrow> nat list list \<times> string option" where
  "read_chunks st pending [] failure =
     (case failure of
        Some e \<Rightarrow> ([], Some e)
      | None \<Rightarrow> ((if pending \<noteq> [] then [pending] else []), None))"
| "read_chunks st pending (c # cs) failure =
     (case decode_chunk c st of (u, st') \<Rightarrow>
      (case drain_lines (pending @ u) of (ls, p) \<Rightarrow>
      (case read_chunks st' p cs failure of (ls', e) \<Rightarrow> (ls @ ls', e))))"

definition ndjsonReaderFromReadableStream :: "octets list \<Rightarrow> string option \<Rightarrow> nat list list \<times> string option" where
  "ndjsonReaderFromReadableStream = read_chunks new_decoder []"

text \<open>The event pipe: the chunks that hold something, as they come.\<close>

definition frameReaderFromFd :: "octets list \<Rightarrow> octets list" where
  "frameReaderFromFd chunks = filter (\<lambda>c. c \<noteq> []) chunks"

text \<open>The writer of the child's stdin: each line is written and flushed before the write resolves.\<close>

datatype 'l sink_call = SinkWrite 'l | SinkFlush

definition ndjsonWriterFromFileSink :: "'l \<Rightarrow> 'l sink_call list" where
  "ndjsonWriterFromFileSink line = [SinkWrite line, SinkFlush]"

subsection \<open>How the pipe is cut does not matter\<close>

lemma decode_chunk_append:
  "decode_chunk (a @ b) st =
     (case decode_chunk a st of (u, st') \<Rightarrow> (case decode_chunk b st' of (v, st'') \<Rightarrow> (u @ v, st'')))"
  by (induction a arbitrary: st) (auto split: prod.splits)

lemma drain_none: "10 \<notin> set p \<Longrightarrow> drain_lines p = ([], p)"
  by (subst drain_lines.simps) simp

lemma first_line:
  "10 \<notin> set l \<Longrightarrow> takeWhile (\<lambda>u. u \<noteq> 10) (l @ 10 # rest) = l"
  "10 \<notin> set l \<Longrightarrow> tl (dropWhile (\<lambda>u. u \<noteq> 10) (l @ 10 # rest)) = (rest :: nat list)"
  by (induction l) auto

lemma drain_line:
  "10 \<notin> set l \<Longrightarrow> drain_lines (l @ 10 # rest) =
     (case drain_lines rest of (ls, p) \<Rightarrow> ((if strip_cr l \<noteq> [] then strip_cr l # ls else ls), p))"
  by (subst drain_lines.simps) (simp add: Let_def first_line)

lemma split_first_line:
  assumes "(10 :: nat) \<in> set p"
  shows "\<exists>l rest. p = l @ 10 # rest \<and> 10 \<notin> set l \<and> length rest < length p"
proof -
  from split_list_first [OF assms] obtain l rest where "p = l @ 10 # rest" "10 \<notin> set l" by blast
  then show ?thesis by (intro exI [of _ l] exI [of _ rest]) simp
qed

lemma drain_append:
  "drain_lines (p @ q) = (case drain_lines p of (ls, r) \<Rightarrow> (case drain_lines (r @ q) of (ls', r') \<Rightarrow> (ls @ ls', r')))"
proof (induction p rule: length_induct)
  case (1 p)
  show ?case
  proof (cases "10 \<in> set p")
    case True
    from split_first_line [OF this] obtain l rest
      where p: "p = l @ 10 # rest" and l: "10 \<notin> set l" and len: "length rest < length p" by blast
    from 1 len have "drain_lines (rest @ q) =
        (case drain_lines rest of (ls, r) \<Rightarrow> (case drain_lines (r @ q) of (ls', r') \<Rightarrow> (ls @ ls', r')))" by blast
    then show ?thesis using p l by (simp add: drain_line split: prod.splits)
  next
    case False
    then show ?thesis by (simp add: drain_none split: prod.splits)
  qed
qed

lemma drain_rest: "drain_lines p = (ls, r) \<Longrightarrow> 10 \<notin> set r"
proof (induction p arbitrary: ls rule: length_induct)
  case (1 p)
  show ?case
  proof (cases "10 \<in> set p")
    case True
    from split_first_line [OF this] obtain l rest
      where p: "p = l @ 10 # rest" and l: "10 \<notin> set l" and len: "length rest < length p" by blast
    then obtain ls' where "drain_lines rest = (ls', r)"
      using 1(2) by (auto simp: drain_line split: prod.splits if_splits)
    with 1(1) len show ?thesis by blast
  next
    case False
    with 1(2) show ?thesis by (simp add: drain_none)
  qed
qed

lemma read_chunks_flat:
  "10 \<notin> set pending \<Longrightarrow> read_chunks st pending cs failure =
     (case decode_chunk (concat cs) st of (u, st') \<Rightarrow>
      (case drain_lines (pending @ u) of (ls, p) \<Rightarrow>
      (case read_chunks st' p [] failure of (ls', e) \<Rightarrow> (ls @ ls', e))))"
proof (induction cs arbitrary: st pending)
  case Nil
  then show ?case by (simp add: drain_none split: prod.splits option.splits)
next
  case (Cons c cs)
  obtain u st1 where c: "decode_chunk c st = (u, st1)" by (cases "decode_chunk c st")
  obtain ls p where d: "drain_lines (pending @ u) = (ls, p)" by (cases "drain_lines (pending @ u)")
  have p: "10 \<notin> set p" by (rule drain_rest [OF d])
  obtain v st2 where v: "decode_chunk (concat cs) st1 = (v, st2)" by (cases "decode_chunk (concat cs) st1")
  have "drain_lines (pending @ u @ v) = (case drain_lines (p @ v) of (ls', r') \<Rightarrow> (ls @ ls', r'))"
    using drain_append [of "pending @ u" v] d by simp
  moreover have "decode_chunk (concat (c # cs)) st = (u @ v, st2)" by (simp add: decode_chunk_append c v)
  moreover note Cons.IH [OF p, of st1]
  ultimately show ?case by (simp add: c d v split: prod.splits)
qed

theorem lines_whatever_chunks:
  assumes "concat cs = concat cs'"
  shows "ndjsonReaderFromReadableStream cs failure = ndjsonReaderFromReadableStream cs' failure"
  unfolding ndjsonReaderFromReadableStream_def
  by (simp only: read_chunks_flat [of "[]", simplified] assms)

subsection \<open>What was written is read\<close>

text \<open>The UTF-8 of a code point, which is how the line of a writer goes over the pipe.\<close>

definition utf8_code :: "nat \<Rightarrow> octets" where
  "utf8_code c =
     (if c < 128 then [c]
      else if c < 2048 then [192 + c div 64, 128 + c mod 64]
      else if c < 65536 then [224 + c div 4096, 128 + c div 64 mod 64, 128 + c mod 64]
      else [240 + c div 262144, 128 + c div 4096 mod 64, 128 + c div 64 mod 64, 128 + c mod 64])"

definition scalar :: "nat \<Rightarrow> bool" where
  "scalar c \<longleftrightarrow> c < 55296 \<or> 57344 \<le> c \<and> c < 1114112"

definition idle :: "utf8_state \<Rightarrow> bool" where
  "idle st \<longleftrightarrow> needed st = 0 \<and> code_point st = 0 \<and> lower_bound st = 128 \<and> upper_bound st = 191"

lemma decode_two:
  assumes "idle st" and "2 \<le> a" and "a < 32" and "b < 64"
  shows "decode_chunk [192 + a, 128 + b] st = emit (64 * a + b) st"
  using assms by (simp add: decode_byte_def first_byte_def idle_def emit_def mult.commute)

lemma decode_three:
  assumes "idle st" and "a < 16" and "b < 64" and "d < 64" and "a = 0 \<Longrightarrow> 32 \<le> b" and "a = 13 \<Longrightarrow> b < 32"
  shows "decode_chunk [224 + a, 128 + b, 128 + d] st = emit (64 * (64 * a + b) + d) st"
  using assms by (cases "a = 0"; cases "a = 13") (auto simp: decode_byte_def first_byte_def idle_def emit_def mult.commute)

lemma decode_four:
  assumes "idle st" and "a < 5" and "b < 64" and "d < 64" and "e < 64" and "a = 0 \<Longrightarrow> 16 \<le> b" and "a = 4 \<Longrightarrow> b < 16"
  shows "decode_chunk [240 + a, 128 + b, 128 + d, 128 + e] st = emit (64 * (64 * (64 * a + b) + d) + e) st"
  using assms by (cases "a = 0"; cases "a = 4") (auto simp: decode_byte_def first_byte_def idle_def emit_def mult.commute)

lemma decode_scalar:
  assumes st: "idle st" and c: "scalar c"
  shows "decode_chunk (utf8_code c) st = emit c st"
proof -
  consider "c < 128" | "128 \<le> c" "c < 2048" | "2048 \<le> c" "c < 65536" | "65536 \<le> c" by linarith
  then show ?thesis
  proof cases
    case 1
    with st show ?thesis by (simp add: utf8_code_def decode_byte_def first_byte_def idle_def emit_def)
  next
    case 2
    then have "2 \<le> c div 64" "c div 64 < 32" by linarith+
    with 2 decode_two [OF st, of "c div 64" "c mod 64"] show ?thesis by (simp add: utf8_code_def)
  next
    case 3
    define a where "a = c div 4096"
    define b where "b = c div 64 mod 64"
    define d where "d = c mod 64"
    have eq: "c = 64 * (64 * a + b) + d"
      using div_mult_mod_eq [of c 64] div_mult_mod_eq [of "c div 64" 64]
      by (simp add: a_def b_def d_def div_mult2_eq [of c 64 64, simplified])
    have lt: "b < 64" "d < 64" by (simp_all add: b_def d_def)
    have flat: "c = 4096 * a + 64 * b + d" using eq by simp
    have "a < 16" using flat 3 by simp
    moreover have "a = 0 \<Longrightarrow> 32 \<le> b" using flat 3 lt by simp
    moreover have "a = 13 \<Longrightarrow> b < 32" using flat c lt by (simp add: scalar_def)
    ultimately have "decode_chunk [224 + a, 128 + b, 128 + d] st = emit (64 * (64 * a + b) + d) st"
      using decode_three [OF st] lt by blast
    moreover have "utf8_code c = [224 + a, 128 + b, 128 + d]" using 3 by (simp add: utf8_code_def a_def b_def d_def)
    ultimately show ?thesis by (simp only: eq [symmetric])
  next
    case 4
    define a where "a = c div 262144"
    define b where "b = c div 4096 mod 64"
    define d where "d = c div 64 mod 64"
    define e where "e = c mod 64"
    have q: "c div 64 div 64 = c div 4096" "c div 4096 div 64 = c div 262144"
      using div_mult2_eq [of c 64 64] div_mult2_eq [of c 4096 64] by simp_all
    have "c = 64 * (c div 64) + e" by (simp add: e_def)
    moreover have "c div 64 = 64 * (c div 4096) + d" unfolding d_def q(1) [symmetric] by simp
    moreover have "c div 4096 = 64 * a + b" unfolding a_def b_def q(2) [symmetric] by simp
    ultimately have eq: "c = 64 * (64 * (64 * a + b) + d) + e" by simp
    have lt: "b < 64" "d < 64" "e < 64" by (simp_all add: b_def d_def e_def)
    have flat: "c = 262144 * a + 4096 * b + 64 * d + e" using eq by simp
    have c': "c < 1114112" using c 4 by (auto simp: scalar_def)
    have "a < 5" using flat c' by simp
    moreover have "a = 0 \<Longrightarrow> 16 \<le> b" using flat 4 lt by simp
    moreover have "a = 4 \<Longrightarrow> b < 16" using flat c' lt by simp
    ultimately have "decode_chunk [240 + a, 128 + b, 128 + d, 128 + e] st = emit (64 * (64 * (64 * a + b) + d) + e) st"
      using decode_four [OF st] lt by blast
    moreover have "utf8_code c = [240 + a, 128 + b, 128 + d, 128 + e]"
      using 4 by (simp add: utf8_code_def a_def b_def d_def e_def)
    ultimately show ?thesis by (simp only: eq [symmetric])
  qed
qed

lemma emit_idle: "idle (snd (emit c st))" "started (snd (emit c st))"
  by (simp_all add: emit_def idle_def)

lemma emit_started: "started st \<or> c \<noteq> 65279 \<Longrightarrow> fst (emit c st) = utf16 c"
  by (auto simp: emit_def)

lemma decode_scalars:
  assumes "idle st" and "list_all scalar cs" and "started st \<or> cs = [] \<or> hd cs \<noteq> 65279"
  shows "fst (decode_chunk (concat (map utf8_code cs)) st) = concat (map utf16 cs)"
  using assms
proof (induction cs arbitrary: st)
  case (Cons c cs)
  have c: "decode_chunk (utf8_code c) st = emit c st" using Cons.prems by (simp add: decode_scalar)
  have "fst (emit c st) = utf16 c" using Cons.prems by (intro emit_started) auto
  moreover have "fst (decode_chunk (concat (map utf8_code cs)) (snd (emit c st))) = concat (map utf16 cs)"
    using Cons.prems emit_idle [of c st] by (intro Cons.IH) auto
  ultimately show ?case by (auto simp: decode_chunk_append c split: prod.splits)
qed simp

text \<open>A line as it can be told apart: not empty, no line feed in it, no carriage return at its end.\<close>

definition clean_line :: "nat list \<Rightarrow> bool" where
  "clean_line l \<longleftrightarrow> l \<noteq> [] \<and> 10 \<notin> set l \<and> last l \<noteq> 13 \<and> list_all scalar l"

lemma utf16_units: "scalar c \<Longrightarrow> u \<in> set (utf16 c) \<Longrightarrow> u = c \<or> 55296 \<le> u"
  by (auto simp: utf16_def split: if_splits)

lemma clean_units:
  assumes "clean_line l"
  shows "concat (map utf16 l) \<noteq> []" and "10 \<notin> set (concat (map utf16 l))"
    and "strip_cr (concat (map utf16 l)) = concat (map utf16 l)"
proof -
  from assms have l: "l \<noteq> []" "10 \<notin> set l" "last l \<noteq> 13" "list_all scalar l" by (auto simp: clean_line_def)
  have ne: "utf16 c \<noteq> []" for c by (simp add: utf16_def)
  show "concat (map utf16 l) \<noteq> []" using l(1) ne by (cases l) auto
  show "10 \<notin> set (concat (map utf16 l))" using l(2,4) utf16_units by (fastforce simp: list_all_iff)
  from l(1) have ls: "l = butlast l @ [last l]" by simp
  have "last (concat (map utf16 l)) = last (utf16 (last l))"
    by (subst ls) (simp add: ne)
  moreover have "last (utf16 (last l)) \<noteq> 13"
  proof
    assume u: "last (utf16 (last l)) = 13"
    then have "13 \<in> set (utf16 (last l))" using last_in_set [OF ne, of "last l"] by simp
    moreover have "scalar (last l)" using l last_in_set [OF l(1)] by (simp add: list_all_iff)
    ultimately show False using utf16_units [of "last l" 13] l(3) by simp
  qed
  ultimately show "strip_cr (concat (map utf16 l)) = concat (map utf16 l)" by (simp add: strip_cr_def)
qed

lemma drain_units: "(\<And>l. l \<in> set ls \<Longrightarrow> l \<noteq> [] \<and> 10 \<notin> set l \<and> strip_cr l = l) \<Longrightarrow>
    drain_lines (concat (map (\<lambda>l. l @ [10]) ls)) = (ls, [])"
proof (induction ls)
  case Nil
  show ?case by (simp add: drain_none)
next
  case (Cons l ls)
  then have "drain_lines (concat (map (\<lambda>l. l @ [10]) ls)) = (ls, [])" by simp
  moreover have "l \<noteq> []" "10 \<notin> set l" "strip_cr l = l" using Cons.prems by auto
  ultimately show ?case by (simp add: drain_line)
qed

lemma utf8_lines:
  "concat (map (\<lambda>l. concat (map utf8_code l) @ [10]) ls) = concat (map utf8_code (concat (map (\<lambda>l. l @ [10]) ls)))"
  by (induction ls) (simp_all add: utf8_code_def [of 10])

text \<open>
  C20. Lines written over the control pipe as UTF-8, a line feed after each, are read as they were written, however the
  pipe cuts the bytes into chunks, and before the reader reports a failure of the pipe.
\<close>

theorem control_lines_read:
  assumes "list_all clean_line ls" and "ls = [] \<or> hd (hd ls) \<noteq> 65279"
    and "concat cs = concat (map (\<lambda>l. concat (map utf8_code l) @ [10]) ls)"
  shows "ndjsonReaderFromReadableStream cs failure = (map (\<lambda>l. concat (map utf16 l)) ls, failure)"
proof -
  let ?text = "concat (map (\<lambda>l. l @ [10]) ls)"
  let ?units = "map (\<lambda>l. concat (map utf16 l)) ls"
  have clean: "clean_line l" if "l \<in> set ls" for l using assms(1) that by (simp add: list_all_iff)
  have sc: "list_all scalar ?text" using clean by (auto simp: list_all_iff clean_line_def scalar_def)
  have first: "?text = [] \<or> hd ?text \<noteq> 65279"
    using assms(2) clean by (cases ls) (auto simp: clean_line_def)
  have bytes: "concat cs = concat (map utf8_code ?text)"
    using assms(3) by (simp only: utf8_lines)
  have units: "concat (map utf16 ?text) = concat (map (\<lambda>l. l @ [10]) ?units)"
    by (induction ls) (simp_all add: utf16_def [of 10])
  have "fst (decode_chunk (concat cs) new_decoder) = concat (map (\<lambda>l. l @ [10]) ?units)"
    unfolding bytes units [symmetric] by (rule decode_scalars [OF _ sc]) (use first in \<open>auto simp: idle_def new_decoder_def\<close>)
  moreover have "drain_lines (concat (map (\<lambda>l. l @ [10]) ?units)) = (?units, [])"
  proof (rule drain_units)
    fix u assume "u \<in> set ?units"
    then obtain l where "l \<in> set ls" and u: "u = concat (map utf16 l)" by auto
    from clean [OF this(1)] show "u \<noteq> [] \<and> 10 \<notin> set u \<and> strip_cr u = u" unfolding u using clean_units by blast
  qed
  ultimately show ?thesis
    unfolding ndjsonReaderFromReadableStream_def read_chunks_flat [of "[]", simplified]
    by (auto split: prod.splits option.splits)
qed

theorem control_lines_read_witness:
  "ndjsonReaderFromReadableStream [[123, 195], [169, 125, 10, 240, 159], [152, 128, 10]] None =
     ([[123, 233, 125], [55357, 56832]], None)"
proof -
  have ls: "list_all clean_line [[123, 233, 125], [128512]]"
    by (simp add: clean_line_def scalar_def)
  have "ndjsonReaderFromReadableStream [[123, 195], [169, 125, 10, 240, 159], [152, 128, 10]] None =
     (map (\<lambda>l. concat (map utf16 l)) [[123, 233, 125], [128512]], None)"
    by (rule control_lines_read [OF ls]) (simp_all add: utf8_code_def)
  then show ?thesis by (simp add: utf16_def)
qed

section \<open>The identity of a sidecar\<close>

text \<open>The boots of a sidecar on one disk: what each finds the file system to answer and the pair it would mint.\<close>

fun boots :: "(octets \<Rightarrow> octets option) \<Rightarrow> string \<Rightarrow> (fs_answers \<times> keypair) list \<Rightarrow> disk \<Rightarrow> (string + keypair) list \<times> disk" where
  "boots derive dir [] d = ([], d)"
| "boots derive dir ((fs, fresh) # bs) d =
     (case loadOrMintSidecarKeypair derive fs fresh dir d of
        (r, d') \<Rightarrow> (case boots derive dir bs d' of (rs, d'') \<Rightarrow> (r # rs, d'')))"

definition holds_pair :: "string \<Rightarrow> keypair \<Rightarrow> disk \<Rightarrow> bool" where
  "holds_pair dir k d \<longleftrightarrow> d (private_key_path dir) = Some (privateKey k) \<and> d (public_key_path dir) = Some (publicKey k)"

definition accessible :: "string \<Rightarrow> fs_answers \<times> keypair \<Rightarrow> bool" where
  "accessible dir b \<longleftrightarrow> access_ok (fst b) (private_key_path dir) \<and> access_ok (fst b) (public_key_path dir)"

lemma bytesEqual_iff: "bytesEqual xs ys \<longleftrightarrow> xs = ys"
  by (induction xs ys rule: bytesEqual.induct) auto

lemma normal_parts_snoc:
  "x \<noteq> [] \<Longrightarrow> x \<noteq> ''.'' \<Longrightarrow> x \<noteq> ''..'' \<Longrightarrow> normal_parts up acc (ps @ [x]) = normal_parts up acc ps @ [x]"
  by (induction up acc ps rule: normal_parts.induct) auto

lemma join_snoc: "\<exists>u. join ''/'' (ps @ [x]) = u @ x"
  by (cases "ps = []") (auto simp: join_append)

lemma normalize_last:
  assumes "CHR ''/'' \<notin> set x" and "x \<noteq> []" and "x \<noteq> ''.''" and "x \<noteq> ''..''"
    and "split_on CHR ''/'' p = ps @ [x]" and "p \<noteq> []" and "last p = last x"
  shows "last (path_normalize p) = last x"
proof -
  have parts: "normal_parts up [] (ps @ [x]) = normal_parts up [] ps @ [x]" for up
    by (rule normal_parts_snoc [OF assms(2-4)])
  obtain u where "join ''/'' (normal_parts (hd p \<noteq> CHR ''/'') [] ps @ [x]) = u @ x"
    using join_snoc [of "normal_parts (hd p \<noteq> CHR ''/'') [] ps" x] by blast
  moreover have "last x \<noteq> CHR ''/''" using assms(1,2) last_in_set by metis
  ultimately show ?thesis
    using assms by (simp add: path_normalize_def Let_def parts)
qed

lemma join_path_last:
  assumes "CHR ''/'' \<notin> set x" and "x \<noteq> []" and "x \<noteq> ''.''" and "x \<noteq> ''..''"
  shows "last (path_join [dir, x]) = last x"
proof (cases "dir = []")
  case True
  with assms normalize_last [of x x "[]"] show ?thesis by (simp add: path_join_def split_on_no_sep)
next
  case False
  with assms normalize_last [of x "dir @ CHR ''/'' # x" "split_on CHR ''/'' dir"] show ?thesis
    by (simp add: path_join_def split_on_sep split_on_no_sep)
qed

lemma key_paths_differ: "private_key_path dir \<noteq> public_key_path dir"
proof
  assume "private_key_path dir = public_key_path dir"
  moreover have "last (private_key_path dir) = CHR ''e''" by (simp add: private_key_path_def join_path_last)
  moreover have "last (public_key_path dir) = CHR ''c''" by (simp add: public_key_path_def join_path_last)
  ultimately show False by simp
qed

lemma bind_gets: "bindE (getsE f) g w = g (f w) w"
  by (simp add: monad_defs)

lemma mint_holds:
  assumes "both_writes (writeFile fs (private_key_path dir) a) (writeFile fs (public_key_path dir) b) d = (Inr u, d')"
  shows "d' (private_key_path dir) = Some a \<and> d' (public_key_path dir) = Some b"
  using assms key_paths_differ [of dir]
  by (cases "write_error fs (private_key_path dir)"; cases "write_error fs (public_key_path dir)")
     (auto simp: both_writes_def writeFile_def)

lemma minted_or_loaded:
  assumes "loadOrMintSidecarKeypair derive fs fresh dir d = (Inr k, d')"
  shows "holds_pair dir k d'"
proof (cases "file_exists fs d (private_key_path dir) \<and> file_exists fs d (public_key_path dir)")
  case True
  with assms show ?thesis
    by (auto simp: loadOrMintSidecarKeypair_def monad_defs holds_pair_def readFile_def bytesEqual_iff
             split: if_splits option.splits)
next
  case False
  with assms have "bindE (both_writes (writeFile fs (private_key_path dir) (privateKey fresh))
      (writeFile fs (public_key_path dir) (publicKey fresh))) (\<lambda>_. returnE fresh) d = (Inr k, d')"
    by (auto simp: loadOrMintSidecarKeypair_def bind_gets throwE_def
             split: if_splits option.splits)
  then show ?thesis by (auto simp: bindE_Inr_iff returnE_Inr holds_pair_def dest: mint_holds)
qed

lemma load_keeps:
  assumes "holds_pair dir k d" and "access_ok fs (private_key_path dir)" and "access_ok fs (public_key_path dir)"
    and "loadOrMintSidecarKeypair derive fs fresh dir d = (r, d')"
  shows "d' = d \<and> (r = Inr k \<or> (\<exists>e. r = Inl e))"
  using assms
  by (auto simp: loadOrMintSidecarKeypair_def monad_defs holds_pair_def readFile_def file_exists_def
        bytesEqual_iff split: if_splits option.splits prod.splits sum.splits)

lemma boots_keep:
  assumes "holds_pair dir k d"
    and "list_all (accessible dir) bs"
    and "boots derive dir bs d = (rs, d')" and "r \<in> set rs"
  shows "r = Inr k \<or> (\<exists>e. r = Inl e)"
  using assms
proof (induction bs arbitrary: d rs)
  case (Cons b bs)
  obtain fs fresh where b: "b = (fs, fresh)" by (cases b)
  obtain q d1 where q: "loadOrMintSidecarKeypair derive fs fresh dir d = (q, d1)"
    by (cases "loadOrMintSidecarKeypair derive fs fresh dir d")
  have "d1 = d" and k: "q = Inr k \<or> (\<exists>e. q = Inl e)"
    using load_keeps [OF Cons.prems(1) _ _ q] Cons.prems(2) b by (auto simp: accessible_def)
  then obtain rs' where rs: "boots derive dir bs d = (rs', d')" "rs = q # rs'"
    using Cons.prems(3) b q by (auto split: prod.splits)
  show ?case
  proof (cases "r = q")
    case False
    then show ?thesis using Cons.IH [OF Cons.prems(1) _ rs(1)] Cons.prems(2,4) rs(2) by simp
  qed (use k in simp)
qed simp

text \<open>
  C15. The key of a sidecar is minted once: after a boot that returned a key pair, every later boot returns the same
  pair or fails, whatever the disk did before and whichever reads and writes fail, as long as \<open>access\<close> does not fail on the
  two files.
\<close>

theorem identity_is_stable:
  assumes "loadOrMintSidecarKeypair derive fs fresh dir d = (Inr k, d')"
    and "list_all (accessible dir) bs"
    and "boots derive dir bs d' = (rs, d'')" and "r \<in> set rs"
  shows "r = Inr k \<or> (\<exists>e. r = Inl e)"
  by (rule boots_keep [OF minted_or_loaded [OF assms(1)] assms(2-4)])

definition working_fs :: fs_answers where
  "working_fs = \<lparr> access_ok = \<lambda>_. True, read_error = \<lambda>_. None, mkdir_error = None, write_error = \<lambda>_. None \<rparr>"

definition key_of :: "nat \<Rightarrow> keypair" where
  "key_of n = \<lparr> privateKey = [n], publicKey = [n + 1] \<rparr>"

theorem identity_is_stable_witness:
  "fst (boots (\<lambda>s. Some [hd s + 1]) ''/keys'' [(working_fs, key_of 1), (working_fs, key_of 5)] Map.empty) =
     [Inr (key_of 1), Inr (key_of 1)]"
proof -
  let ?derive = "\<lambda>s :: octets. Some [hd s + 1]"
  let ?d = "Map.empty (private_key_path ''/keys'' \<mapsto> [1 :: nat], public_key_path ''/keys'' \<mapsto> [1 + 1])"
  have mint: "loadOrMintSidecarKeypair ?derive working_fs (key_of 1) ''/keys'' Map.empty = (Inr (key_of 1), ?d)"
    by (simp add: loadOrMintSidecarKeypair_def monad_defs file_exists_def working_fs_def key_of_def both_writes_def writeFile_def)
  obtain r d' where load: "loadOrMintSidecarKeypair ?derive working_fs (key_of 5) ''/keys'' ?d = (r, d')"
    by (cases "loadOrMintSidecarKeypair ?derive working_fs (key_of 5) ''/keys'' ?d")
  then have run: "boots ?derive ''/keys'' [(working_fs, key_of 5)] ?d = ([r], d')" by simp
  have "r = Inr (key_of 1) \<or> (\<exists>e. r = Inl e)"
    by (rule identity_is_stable [OF mint _ run]) (simp_all add: working_fs_def accessible_def)
  moreover have "\<nexists>e. r = Inl e"
    using load key_paths_differ [of "''/keys''"]
    by (auto simp: loadOrMintSidecarKeypair_def monad_defs file_exists_def working_fs_def readFile_def)
  ultimately have "r = Inr (key_of 1)" by blast
  then show ?thesis using mint load by simp
qed

text \<open>Where \<open>access\<close> fails for both files, for whatever reason, the boot mints a new pair over the one that is there.\<close>

lemma identity_lost:
  "fst (boots (\<lambda>s. Some [hd s + 1]) ''/keys''
     [(working_fs, key_of 1), (working_fs \<lparr> access_ok := \<lambda>_. False \<rparr>, key_of 5)] Map.empty) =
   [Inr (key_of 1), Inr (key_of 5)]"
  by (simp add: loadOrMintSidecarKeypair_def monad_defs file_exists_def working_fs_def key_of_def both_writes_def writeFile_def)

section \<open>The process group of a workflow child\<close>

text \<open>What \<open>process.kill(-pid, signal)\<close> did: it was delivered, the group is gone (\<open>ESRCH\<close>), or another error is thrown.\<close>

datatype kill_result = Delivered | NoSuchGroup | KillError string

datatype signal = Named string | Numbered nat

record child_group =
  groupReleased :: bool
  signals :: "signal list"
  logged :: "string list"

definition new_group :: child_group where
  "new_group = \<lparr> groupReleased = False, signals = [], logged = [] \<rparr>"

definition signalGroup :: "kill_result \<Rightarrow> signal \<Rightarrow> (child_group, string, unit) comp" where
  "signalGroup result s g =
     (if groupReleased g then (Inr (), g)
      else (case result of KillError e \<Rightarrow> Inl e | _ \<Rightarrow> Inr (), g \<lparr> signals := signals g @ [s] \<rparr>))"

definition kill_child :: "kill_result \<Rightarrow> signal option \<Rightarrow> (child_group, string, unit) comp" where
  "kill_child result s = signalGroup result (case s of None \<Rightarrow> Named ''SIGTERM'' | Some s \<Rightarrow> s)"

definition log_error :: "string \<Rightarrow> (child_group, string, unit) comp" where
  "log_error text_of = modifyE (\<lambda>g. g \<lparr> logged := logged g @ [text_of] \<rparr>)"

text \<open>When the child has exited, the rest of its group is killed before \<open>exited\<close> settles.\<close>

definition child_exited :: "string \<Rightarrow> kill_result \<Rightarrow> int \<Rightarrow> (child_group, string, int) comp" where
  "child_exited pid result code =
     bindE (catchE (bindE (signalGroup result (Named ''SIGKILL'')) (\<lambda>_. modifyE (\<lambda>g. g \<lparr> groupReleased := True \<rparr>)))
                   (\<lambda>e. log_error (''Cannot stop processes left by workflow child '' @ pid @ '': '' @ e)))
           (\<lambda>_. returnE code)"

text \<open>The spawn itself: \<open>event_fd\<close> is what Bun gave for the event channel, or the \<open>typeof\<close> of what it gave instead.\<close>

definition spawn_child :: "string \<Rightarrow> kill_result \<Rightarrow> string + nat \<Rightarrow> (child_group, string, nat) comp" where
  "spawn_child pid result event_fd =
     (case event_fd of
        Inr fd \<Rightarrow> returnE fd
      | Inl kind \<Rightarrow>
          bindE (catchE (signalGroup result (Named ''SIGKILL''))
                        (\<lambda>e. log_error (''Cannot stop workflow child '' @ pid @ '' that has no event channel: '' @ e)))
                (\<lambda>_. throwE (''workflow-host-wiring: Bun.spawn did not return a numeric fd at stdio[3] for the event channel; got ''
                       @ kind)))"

datatype group_event = KillCall "signal option" kill_result | Exited kill_result int

fun group_step :: "string \<Rightarrow> group_event \<Rightarrow> child_group \<Rightarrow> child_group" where
  "group_step pid (KillCall s result) g = snd (kill_child result s g)"
| "group_step pid (Exited result code) g = snd (child_exited pid result code g)"

definition kill_failed :: "kill_result \<Rightarrow> bool" where
  "kill_failed r \<longleftrightarrow> (\<exists>e. r = KillError e)"

lemma released_quiet: "groupReleased g \<Longrightarrow>
    groupReleased (fold (group_step pid) es g) \<and> signals (fold (group_step pid) es g) = signals g"
proof (induction es arbitrary: g)
  case (Cons e es)
  have "groupReleased (group_step pid e g) \<and> signals (group_step pid e g) = signals g"
    using Cons.prems by (cases e) (simp_all add: kill_child_def child_exited_def signalGroup_def monad_defs)
  with Cons.IH [of "group_step pid e g"] show ?case by simp
qed simp

text \<open>
  C29. Once the exit of a child has had its group killed, or found it gone, no later call signals the group: its id may
  belong to other processes by then. What was last sent is SIGKILL, so no tool process outlives the child.
\<close>

theorem no_signal_after_release:
  assumes "\<not> groupReleased (fold (group_step pid) es new_group)" and "\<not> kill_failed r"
  shows "signals (fold (group_step pid) (es @ Exited r code # es') new_group) =
         signals (fold (group_step pid) es new_group) @ [Named ''SIGKILL'']"
proof -
  let ?g = "fold (group_step pid) es new_group"
  have "groupReleased (group_step pid (Exited r code) ?g)"
    and "signals (group_step pid (Exited r code) ?g) = signals ?g @ [Named ''SIGKILL'']"
    using assms by (auto simp: child_exited_def signalGroup_def monad_defs kill_failed_def split: kill_result.splits)
  with released_quiet [of "group_step pid (Exited r code) ?g" pid es'] show ?thesis by simp
qed

theorem no_signal_after_release_witness:
  "signals (fold (group_step ''7'') [KillCall None Delivered, Exited NoSuchGroup 0, KillCall (Some (Numbered 9)) Delivered]
     new_group) = [Named ''SIGTERM'', Named ''SIGKILL'']"
  using no_signal_after_release [of "''7''" "[KillCall None Delivered]" NoSuchGroup 0 "[KillCall (Some (Numbered 9)) Delivered]"]
  by (simp add: kill_failed_def new_group_def kill_child_def signalGroup_def)

text \<open>The probe's child is signalled directly; Bun's own default stands where no signal is given.\<close>

definition probe_kill :: "signal option \<Rightarrow> signal option" where
  "probe_kill s = s"

section \<open>Where a step's tools are read from\<close>

record run_address =
  address_run :: string
  address_domain :: string

text \<open>What \<open>@intx\<close> answers: the parts of a run address, the base of a scoped step, the address of a step and its directory.\<close>

record address_ext =
  parseRunAddress :: "string \<Rightarrow> run_address option"
  baseStepId :: "string \<Rightarrow> string"
  resolveStepAddress :: "string \<Rightarrow> string \<Rightarrow> string \<Rightarrow> nat \<Rightarrow> string"
  agentDir :: "string \<Rightarrow> string \<Rightarrow> string"

record step_args =
  arg_dataDir :: string
  arg_mailbox :: string
  arg_step :: string
  arg_step_count :: nat

definition stepDeployTreeDir :: "address_ext \<Rightarrow> (string \<Rightarrow> string) \<Rightarrow> step_args \<Rightarrow> string + string" where
  "stepDeployTreeDir x stringify a =
     (case parseRunAddress x (arg_mailbox a) of
        None \<Rightarrow> Inl (''sidecar workflow-child step tools: deployment mailbox address '' @ stringify (arg_mailbox a) @
                 '' is not a parseable run address; cannot locate the step's deploy tree'')
      | Some r \<Rightarrow> Inr (agentDir x (arg_dataDir a)
                   (resolveStepAddress x (address_run r) (baseStepId x (arg_step a)) (address_domain r) (arg_step_count a))))"

text \<open>What \<open>materializeToolPackages\<close> is asked for; the deploy tree is read from its directory.\<close>

record 't tool_request =
  req_tree :: 't
  req_storeDir :: string
  req_assetRoot :: string
  req_agentAddress :: string
  req_cacheRoot :: string

definition materializeStepTools ::
  "address_ext \<Rightarrow> (string \<Rightarrow> string) \<Rightarrow> (string \<Rightarrow> string + 't) \<Rightarrow> ('t tool_request \<Rightarrow> string + 'f) \<Rightarrow> string \<Rightarrow> step_args
     \<Rightarrow> string + 'f" where
  "materializeStepTools x stringify readDeployTree materialize storeDir a =
     (case stepDeployTreeDir x stringify a of
        Inl e \<Rightarrow> Inl e
      | Inr dir \<Rightarrow>
          (case readDeployTree dir of
             Inl e \<Rightarrow> Inl e
           | Inr tree \<Rightarrow> materialize \<lparr> req_tree = tree, req_storeDir = storeDir, req_assetRoot = path_join [dir, ''workspace''],
               req_agentAddress = arg_mailbox a, req_cacheRoot = path_join [storeDir, ''tarball-cache''] \<rparr>))"

text \<open>Every iteration of a step that is mapped reads the tree of the step it iterates.\<close>

lemma iterations_share_tree:
  "baseStepId x (arg_step a) = baseStepId x (arg_step b) \<Longrightarrow> arg_dataDir a = arg_dataDir b \<Longrightarrow> arg_mailbox a = arg_mailbox b \<Longrightarrow>
     arg_step_count a = arg_step_count b \<Longrightarrow> stepDeployTreeDir x stringify a = stepDeployTreeDir x stringify b"
  by (simp add: stepDeployTreeDir_def cong: option.case_cong)

text \<open>A source can be built when an adapter is registered for its provider (\<open>default-harness.ts\<close>).\<close>

definition canBuildSource :: "(string \<Rightarrow> bool) \<Rightarrow> string \<Rightarrow> string + unit" where
  "canBuildSource registered provider =
     (if registered provider then Inr ()
      else Inl (''Source provider '' @ [CHR 0x22] @ provider @ [CHR 0x22] @ '' is not registered''))"

end
