(* ===== verification/Sidecar_Boot.thy ===== *)
theory Sidecar_Boot
  imports Sidecar_Process
begin

text \<open>
  The boot of the sidecar and the callbacks it gives the hub link, \<open>apps/sidecar/src/index.ts\<close>. What the vendored packages do
  at a step of the boot is whether the step fails; the boot keeps a trace of the steps it took.
\<close>

section \<open>The steps\<close>

datatype boot_event =
    SetUp | LoadAdapters | SweepOrphans | LoadSigningKey | LoadSenderKeys | ReadRegistries | Construct | RestoreRuns | StartLink

record boot_state =
  passed :: "boot_event list"
  boot_disk :: disk

text \<open>
  The packages at this boot: the error of a step, if it fails, whether the construction of the orchestrator calls
  \<open>createDeployRouter\<close>, the schemas and the decoders, the texts for the child, and the file system with the pair that would be
  minted.
\<close>

record ('key, 'adapter) boot_ext =
  step_error :: "boot_event \<Rightarrow> string option"
  creates_router :: bool
  hex_decode :: "string \<Rightarrow> string + 'key"
  default_capacity :: capacity
  capacity_schema :: "capacity \<Rightarrow> string + capacity"
  manifest_env :: "string option \<Rightarrow> string + 'adapter list option"
  child_texts :: "keypair \<Rightarrow> rat \<Rightarrow> rat \<Rightarrow> 'adapter list \<Rightarrow> substrate_texts"
  boot_fs :: fs_answers
  fresh_pair :: keypair
  derive_key :: "octets \<Rightarrow> octets option"

type_synonym 'a boot = "(boot_state, string, 'a) comp"

definition from_env :: "string + 'a \<Rightarrow> 'a boot" where
  "from_env r = (case r of Inl e \<Rightarrow> throwE e | Inr x \<Rightarrow> returnE x)"

definition boot_step :: "('key, 'adapter) boot_ext \<Rightarrow> boot_event \<Rightarrow> unit boot" where
  "boot_step x e s =
     (case step_error x e of
        Some err \<Rightarrow> (Inl err, s \<lparr> passed := passed s @ [e] \<rparr>)
      | None \<Rightarrow> (Inr (), s \<lparr> passed := passed s @ [e] \<rparr>))"

definition load_key :: "('key, 'adapter) boot_ext \<Rightarrow> string \<Rightarrow> keypair boot" where
  "load_key x dir s =
     (case loadOrMintSidecarKeypair (derive_key x) (boot_fs x) (fresh_pair x) dir (boot_disk s) of
        (r, d) \<Rightarrow> (r, s \<lparr> boot_disk := d, passed := passed s @ [LoadSigningKey] \<rparr>))"

text \<open>What the boot goes on with.\<close>

record boot_limits =
  cache_dir :: string
  cache_bytes :: rat
  registry_bytes :: rat
  boot_capacity :: capacity
  repack_every :: "rat option"
  consumed_ms :: "rat option"
  ready_ms :: "rat option"
  reconnect_ms :: "rat option"

record boot_config =
  limits :: boot_limits
  signing_key :: keypair
  hub_url :: string
  sidecar_name :: string
  sidecar_secret :: string
  child_env :: substrate_env

text \<open>The settings, in the order they are read, with the registry of adapters loaded among them.\<close>

definition read_limits :: "('key, 'adapter) boot_ext \<Rightarrow> environment \<Rightarrow> string \<Rightarrow> (boot_limits \<times> 'adapter list) boot" where
  "read_limits x env dataDir =
     bindE (from_env (readCacheMaxBytes env)) (\<lambda>cacheMax.
     bindE (from_env (parseDeploymentCapacity (default_capacity x) (capacity_schema x)
              (env ''SIDECAR_MAX_ACTIVE_DEPLOYMENTS'') (env ''SIDECAR_MAX_RETAINED_DEPLOYMENTS''))) (\<lambda>capacity.
     bindE (from_env (readRegistryMaxTarballBytes env)) (\<lambda>registryMax.
     bindE (from_env (readAdapterManifest (manifest_env x) env)) (\<lambda>manifest.
     bindE (boot_step x LoadAdapters) (\<lambda>_.
     bindE (from_env (repackEveryMessages env)) (\<lambda>repack.
     bindE (from_env (consumedRetentionMs env)) (\<lambda>consumed.
     bindE (from_env (readyTimeoutMs env)) (\<lambda>ready.
     bindE (from_env (parseReconnectDelayMs (env ''SIDECAR_RECONNECT_DELAY_MS''))) (\<lambda>reconnect.
       returnE (\<lparr> cache_dir = cacheRoot dataDir env, cache_bytes = cacheMax, registry_bytes = registryMax,
                  boot_capacity = capacity, repack_every = repack, consumed_ms = consumed, ready_ms = ready,
                  reconnect_ms = reconnect \<rparr>, manifest))))))))))"

definition prepare :: "('key, 'adapter) boot_ext \<Rightarrow> environment \<Rightarrow> boot_config boot" where
  "prepare x env =
     bindE (boot_step x SetUp) (\<lambda>_.
     bindE (from_env (requireEnv ''SIDECAR_DATA_DIR'' env)) (\<lambda>dataDir.
     bindE (from_env (readCredentialEncryptionKey (hex_decode x) env)) (\<lambda>_.
     bindE (read_limits x env dataDir) (\<lambda>(lim, manifest).
     bindE (boot_step x SweepOrphans) (\<lambda>_.
     bindE (load_key x (SIDECAR_SIGNING_DIR dataDir)) (\<lambda>key.
     bindE (boot_step x LoadSenderKeys) (\<lambda>_.
     bindE (from_env (requireEnv ''HUB_WS_URL'' env)) (\<lambda>url.
     bindE (from_env (requireEnv ''SIDECAR_ID'' env)) (\<lambda>name.
     bindE (from_env (requireEnv ''SIDECAR_TOKEN'' env)) (\<lambda>token.
     bindE (from_env (multistepSubstrateEnv dataDir
              (child_texts x key (cache_bytes lim) (registry_bytes lim) manifest) env)) (\<lambda>sub.
     bindE (boot_step x ReadRegistries) (\<lambda>_.
     bindE (boot_step x Construct) (\<lambda>_.
       returnE \<lparr> limits = lim, signing_key = key, hub_url = url, sidecar_name = name, sidecar_secret = token,
                 child_env = sub \<rparr>)))))))))))))"

definition no_router_message :: "string \<Rightarrow> string" where
  "no_router_message moment = ''sidecar boot: deploy router was not constructed before '' @ moment"

definition boot :: "('key, 'adapter) boot_ext \<Rightarrow> environment \<Rightarrow> boot_config boot" where
  "boot x env =
     bindE (prepare x env) (\<lambda>c.
       if \<not> creates_router x then throwE (no_router_message ''workflow-deployment restore'')
       else bindE (boot_step x RestoreRuns) (\<lambda>_. bindE (boot_step x StartLink) (\<lambda>_. returnE c)))"

section \<open>The callbacks of the hub link\<close>

text \<open>What the callbacks have been given: the router, once it is constructed, and the hub link, once the orchestrator is.\<close>

record link_refs =
  deploy_router :: bool
  hub_link :: bool

datatype router_call =
    NotifyAddressRoutable string | ReEmitParkedCorrelations string | ReportStoppedDeployments | MarkAddressUnroutable string

definition getIncarnations :: "'i list \<Rightarrow> link_refs \<Rightarrow> string + 'i list" where
  "getIncarnations held refs =
     (if \<not> deploy_router refs then Inl (no_router_message ''the hub link requested its incarnations'') else Inr held)"

definition onWorkflowAddressesRoutable :: "string list \<Rightarrow> link_refs \<Rightarrow> string + router_call list" where
  "onWorkflowAddressesRoutable addresses refs =
     (if \<not> deploy_router refs then Inl (no_router_message ''a welcome made workflow addresses routable'')
      else Inr (concat (map (\<lambda>a. [NotifyAddressRoutable a, ReEmitParkedCorrelations a]) addresses)
                @ [ReportStoppedDeployments]))"

definition onWorkflowAddressesUnroutable :: "string list \<Rightarrow> router_call list" where
  "onWorkflowAddressesUnroutable addresses = map MarkAddressUnroutable addresses"

definition pushWorkflowRunPack :: "('o \<Rightarrow> string + 'r) \<Rightarrow> link_refs \<Rightarrow> 'o \<Rightarrow> string + 'r" where
  "pushWorkflowRunPack push refs opts =
     (if \<not> hub_link refs
      then Inl ''sidecar boot: workflow-run pack push attempted before hub link was constructed''
      else push opts)"

text \<open>The address a deployment is known by, \<open>registerDeployment\<close> and \<open>unregisterDeployment\<close>, which also forgets its packs.\<close>

type_synonym address_registry = "string \<Rightarrow> (string \<times> nat) option"

definition registerDeployment :: "string \<Rightarrow> string \<Rightarrow> nat \<Rightarrow> address_registry \<Rightarrow> address_registry" where
  "registerDeployment runId agentAddress generation reg = reg(runId \<mapsto> (agentAddress, generation))"

definition unregisterDeployment ::
  "string \<Rightarrow> string \<Rightarrow> address_registry \<times> (string \<times> string) list \<Rightarrow> address_registry \<times> (string \<times> string) list" where
  "unregisterDeployment runId agentAddress = (\<lambda>(reg, forgotten). (reg(runId := None), forgotten @ [(runId, agentAddress)]))"

text \<open>A sender's key is cached under its address once its text is decoded, and dropped with it.\<close>

definition cacheSenderKey :: "(string \<Rightarrow> string + 'key) \<Rightarrow> (string \<Rightarrow> 'key \<Rightarrow> string + unit) \<Rightarrow> string \<Rightarrow> string \<Rightarrow> string + unit" where
  "cacheSenderKey hexDecode put_key address key_text =
     (case hexDecode key_text of Inl e \<Rightarrow> Inl e | Inr key \<Rightarrow> put_key address key)"

section \<open>The sidecar connects last\<close>

abbreviation before_restore :: "boot_state \<Rightarrow> bool" where
  "before_restore s \<equiv> RestoreRuns \<notin> set (passed s) \<and> StartLink \<notin> set (passed s)"

lemma from_env_keeps [valid_rules]: "keepsE P (from_env r)"
  by (cases r) (simp_all add: from_env_def validE_def monad_defs)

lemma boot_step_keeps: "e \<noteq> RestoreRuns \<Longrightarrow> e \<noteq> StartLink \<Longrightarrow> keepsE before_restore (boot_step x e)"
  by (simp add: validE_def boot_step_def split: option.splits)

lemma load_key_keeps: "keepsE before_restore (load_key x dir)"
  by (simp add: validE_def load_key_def split: prod.splits sum.splits)

lemma read_limits_keeps: "keepsE before_restore (read_limits x env dataDir)"
  unfolding read_limits_def
  by (intro keepsE_bind from_env_keeps boot_step_keeps) (simp_all add: keepsE_return)

lemma prepare_keeps: "keepsE before_restore (prepare x env)"
  unfolding prepare_def split_def
  by (intro keepsE_bind from_env_keeps boot_step_keeps load_key_keeps read_limits_keeps) (simp_all add: keepsE_return)

text \<open>
  C37. The link to the hub is started by a boot only as its last step, after the deployments of the last process were
  restored: a boot that fails anywhere earlier, for a variable that is missing or malformed, a key that does not fit its
  file, an adapter that cannot be loaded or a deployment that cannot be restored, never connects, and one that returns did.
\<close>

theorem boot_connects_last:
  assumes "boot x env \<lparr> passed = [], boot_disk = d \<rparr> = (r, s)"
  shows "(case r of
            Inr c \<Rightarrow> \<exists>es. passed s = es @ [RestoreRuns, StartLink] \<and> RestoreRuns \<notin> set es \<and> StartLink \<notin> set es
          | Inl e \<Rightarrow> StartLink \<notin> set (passed s) \<or> step_error x StartLink = Some e)"
proof -
  let ?s0 = "\<lparr> passed = [], boot_disk = d \<rparr>"
  obtain q s1 where p: "prepare x env ?s0 = (q, s1)" by (cases "prepare x env ?s0")
  have s1: "before_restore s1"
    by (rule keepsE_D [OF prepare_keeps _ p]) simp
  show ?thesis
  proof (cases q)
    case (Inl e)
    with assms p s1 show ?thesis by (auto simp: boot_def bindE_def)
  next
    case (Inr c)
    with assms p s1 show ?thesis
      by (auto simp: boot_def bindE_def throwE_def returnE_def boot_step_def split: if_splits option.splits)
  qed
qed

definition demo_ext :: "(unit, unit) boot_ext" where
  "demo_ext = \<lparr> step_error = \<lambda>_. None, creates_router = True, hex_decode = \<lambda>_. Inr (),
     default_capacity = \<lparr> maxActiveDeployments = Finite 1, maxRetainedDeployments = Finite 1 \<rparr>, capacity_schema = Inr,
     manifest_env = \<lambda>_. Inr None, child_texts = \<lambda>_ _ _ _. substrate_texts.make [] [] [] [] [],
     boot_fs = working_fs, fresh_pair = key_of 1, derive_key = \<lambda>_. None \<rparr>"

definition demo_environment :: environment where
  "demo_environment = [''SIDECAR_DATA_DIR'' \<mapsto> ''/d'', ''SIDECAR_CREDENTIAL_ENCRYPTION_KEY'' \<mapsto> ''00'', ''HUB_WS_URL'' \<mapsto> ''ws'',
     ''SIDECAR_ID'' \<mapsto> ''s1'', ''SIDECAR_TOKEN'' \<mapsto> ''t'', ''PATH'' \<mapsto> ''/bin'']"

lemmas boot_defs = boot_def prepare_def read_limits_def from_env_def boot_step_def load_key_def monad_defs
  readCacheMaxBytes_def readRegistryMaxTarballBytes_def read_bytes_def parseDeploymentCapacity_def readAdapterManifest_def
  repackEveryMessages_def consumedRetentionMs_def readyTimeoutMs_def optional_positive_def parseReconnectDelayMs_def
  requireEnv_def readCredentialEncryptionKey_def multistepSubstrateEnv_def add_if_set_def

theorem boot_connects_last_witness:
  "passed (snd (boot demo_ext demo_environment \<lparr> passed = [], boot_disk = Map.empty \<rparr>)) =
     [SetUp, LoadAdapters, SweepOrphans, LoadSigningKey, LoadSenderKeys, ReadRegistries, Construct, RestoreRuns, StartLink] \<and>
   StartLink \<notin> set (passed (snd (boot demo_ext (demo_environment (''SIDECAR_TOKEN'' := None))
     \<lparr> passed = [], boot_disk = Map.empty \<rparr>)))"
proof
  have trim: "trim ''00'' \<noteq> []" by code_simp
  have fresh: "loadOrMintSidecarKeypair derive working_fs (key_of 1) dir Map.empty =
      (Inr (key_of 1), Map.empty (private_key_path dir \<mapsto> [1], public_key_path dir \<mapsto> [1 + 1]))" for derive dir
    by (simp add: loadOrMintSidecarKeypair_def monad_defs file_exists_def working_fs_def key_of_def both_writes_def writeFile_def)
  show "passed (snd (boot demo_ext demo_environment \<lparr> passed = [], boot_disk = Map.empty \<rparr>)) =
     [SetUp, LoadAdapters, SweepOrphans, LoadSigningKey, LoadSenderKeys, ReadRegistries, Construct, RestoreRuns, StartLink]"
    by (simp add: boot_defs demo_ext_def demo_environment_def trim fresh [simplified])
  obtain r s where b: "boot demo_ext (demo_environment (''SIDECAR_TOKEN'' := None)) \<lparr> passed = [], boot_disk = Map.empty \<rparr> = (r, s)"
    by (cases "boot demo_ext (demo_environment (''SIDECAR_TOKEN'' := None)) \<lparr> passed = [], boot_disk = Map.empty \<rparr>")
  moreover have "r = Inl ''SIDECAR_TOKEN environment variable is required''"
    using b by (simp add: boot_defs demo_ext_def demo_environment_def trim fresh [simplified])
  moreover have "step_error demo_ext StartLink = None" by (simp add: demo_ext_def)
  ultimately show "StartLink \<notin> set (passed (snd (boot demo_ext (demo_environment (''SIDECAR_TOKEN'' := None))
     \<lparr> passed = [], boot_disk = Map.empty \<rparr>)))"
    using boot_connects_last [OF b] by simp
qed

end
