(* ===== verification/Hub_Boot.thy ===== *)
theory Hub_Boot
  imports Sidecar_Config Process_Provisioner Http
begin

text \<open>
  The start of the hub, \<open>apps/hub/src\<close>: the settings it reads (\<open>server.ts\<close>), the migrations of its database, which several
  hubs may start at once (\<open>migrate.ts\<close>), the events it reacts to and the order it shuts down in. The vendored services are
  parameters or steps that can fail.
\<close>

section \<open>Settings\<close>

record db_config =
  db_host :: string
  db_port :: js_value
  db_user :: string
  db_password :: string
  db_name :: string
  db_schema :: "string option"

text \<open>\<open>process.env[name] ?? fallback\<close>.\<close>

definition env_or :: "string \<Rightarrow> string \<Rightarrow> environment \<Rightarrow> string" where
  "env_or name fallback env = (case env name of None \<Rightarrow> fallback | Some v \<Rightarrow> v)"

definition hub_port :: "environment \<Rightarrow> js_value" where
  "hub_port env = (case env ''PORT'' of None \<Rightarrow> Finite 3000 | Some v \<Rightarrow> number_of v)"

definition dbConfig :: "environment \<Rightarrow> db_config" where
  "dbConfig env = \<lparr> db_host = env_or ''DB_HOST'' ''localhost'' env,
     db_port = (case env ''DB_PORT'' of None \<Rightarrow> Finite 5432 | Some v \<Rightarrow> number_of v),
     db_user = env_or ''DB_USER'' ''postgres'' env,
     db_password = env_or ''DB_PASSWORD'' ''postgres'' env,
     db_name = env_or ''DB_NAME'' ''interchange'' env,
     db_schema = env ''PG_SCHEMA'' \<rparr>"

definition required_key :: "(string \<Rightarrow> string + 'key) \<Rightarrow> string \<Rightarrow> environment \<Rightarrow> string + 'key" where
  "required_key hexDecode name env =
     (if is_blank (env name) then Inl (name @ '' environment variable is required'') else hexDecode (the (env name)))"

text \<open>An empty directory counts as none.\<close>

definition read_data_dir :: "environment \<Rightarrow> string + string" where
  "read_data_dir env =
     (case env ''HUB_DATA_DIR'' of
        None \<Rightarrow> Inl ''HUB_DATA_DIR environment variable is required''
      | Some d \<Rightarrow> if d = [] then Inl ''HUB_DATA_DIR environment variable is required'' else Inr d)"

definition DEFAULT_HUB_MAX_TARBALL_BYTES :: rat where
  "DEFAULT_HUB_MAX_TARBALL_BYTES = 10 * 1024 * 1024"

definition read_max_tarball :: "environment \<Rightarrow> string + rat" where
  "read_max_tarball env =
     (let raw = env ''HUB_MAX_TARBALL_BYTES'';
          n = (if is_blank raw then Finite DEFAULT_HUB_MAX_TARBALL_BYTES else number_of (the raw))
      in case n of
           Finite x \<Rightarrow>
             if x \<le> 0 then Inl (''HUB_MAX_TARBALL_BYTES must be a positive number; got '' @ json_quote (the raw)) else Inr x
         | NotFinite \<Rightarrow> Inl (''HUB_MAX_TARBALL_BYTES must be a positive number; got '' @ json_quote (the raw)))"

definition readOptionalPositiveIntEnv :: "string \<Rightarrow> environment \<Rightarrow> string + rat option" where
  "readOptionalPositiveIntEnv name env =
     (if is_blank (env name) then Inr None
      else (let raw = the (env name) in
            case number_of raw of
              Finite x \<Rightarrow>
                if \<not> integral (Finite x) \<or> x \<le> 0 then Inl (name @ '' must be a positive integer; got '' @ json_quote raw)
                else Inr (Some x)
            | NotFinite \<Rightarrow> Inl (name @ '' must be a positive integer; got '' @ json_quote raw)))"

text \<open>\<open>assert\<close> is \<open>LifecycleDuration.assert\<close>, \<open>None\<close> where it throws.\<close>

definition readLifecycleDurationEnv ::
  "(string \<Rightarrow> string option) \<Rightarrow> string \<Rightarrow> string \<Rightarrow> environment \<Rightarrow> string + string" where
  "readLifecycleDurationEnv assert name fallback env =
     (if is_blank (env name) then Inr fallback
      else (case assert (trim (the (env name))) of
              Some d \<Rightarrow> Inr d
            | None \<Rightarrow> Inl (name @ '' must be a lifecycle duration such as 30m or 7d; got '' @ json_quote (the (env name)))))"

record lifecycle_policy =
  maxLifetime :: string
  maxDisconnected :: string
  retention_completed :: string
  retention_failed :: string
  retention_cancelled :: string

text \<open>Reading one setting after another: the first that is malformed is the error.\<close>

definition bind_read :: "string + 'a \<Rightarrow> ('a \<Rightarrow> string + 'b) \<Rightarrow> string + 'b" where
  "bind_read r f = (case r of Inl e \<Rightarrow> Inl e | Inr x \<Rightarrow> f x)"

definition defaultLifecyclePolicy ::
  "(string \<Rightarrow> string option) \<Rightarrow> (string \<Rightarrow> nat) \<Rightarrow> environment \<Rightarrow> string + lifecycle_policy" where
  "defaultLifecyclePolicy assert durationMs env =
     bind_read (readLifecycleDurationEnv assert ''WORKFLOW_DEFAULT_MAX_LIFETIME'' ''7d'' env) (\<lambda>lifetime.
     bind_read (readLifecycleDurationEnv assert ''WORKFLOW_DEFAULT_MAX_DISCONNECTED'' ''15m'' env) (\<lambda>disconnected.
     bind_read (readLifecycleDurationEnv assert ''WORKFLOW_DEFAULT_RETENTION_COMPLETED'' ''30m'' env) (\<lambda>completed.
     bind_read (readLifecycleDurationEnv assert ''WORKFLOW_DEFAULT_RETENTION_FAILED'' ''24h'' env) (\<lambda>failed.
     bind_read (readLifecycleDurationEnv assert ''WORKFLOW_DEFAULT_RETENTION_CANCELLED'' ''1h'' env) (\<lambda>cancelled.
       if durationMs lifetime = 0 then Inl ''WORKFLOW_DEFAULT_MAX_LIFETIME must be greater than zero''
       else if durationMs disconnected = 0 then Inl ''WORKFLOW_DEFAULT_MAX_DISCONNECTED must be greater than zero''
       else Inr \<lparr> maxLifetime = lifetime, maxDisconnected = disconnected, retention_completed = completed,
                  retention_failed = failed, retention_cancelled = cancelled \<rparr>)))))"

text \<open>The address sidecars connect to; \<open>String(port)\<close> is an argument.\<close>

definition hubSidecarWebSocketUrl :: "(js_value \<Rightarrow> string) \<Rightarrow> environment \<Rightarrow> string" where
  "hubSidecarWebSocketUrl show env =
     env_or ''HUB_SIDECAR_WEBSOCKET_URL'' (''ws://127.0.0.1:'' @ show (hub_port env) @ ''/api/sidecars/ws'') env"

text \<open>Where the provisioner of a role keeps its state.\<close>

definition provisioner_dir :: "bool \<Rightarrow> string" where
  "provisioner_dir probe = (if probe then ''process-provisioner-probe'' else ''process-provisioner'')"

section \<open>Migrations\<close>

definition databaseUrlFrom :: "(js_value \<Rightarrow> string) \<Rightarrow> db_config \<Rightarrow> string" where
  "databaseUrlFrom show c =
     ''postgres://'' @ encodeURIComponent (db_user c) @ '':'' @ encodeURIComponent (db_password c) @
     ''@'' @ db_host c @ '':'' @ show (db_port c) @ ''/'' @ db_name c"

datatype migration =
  Platform | Cron | AgentTokens | Mailbox | Artifacts | Memory string | Webhooks

definition ftsLanguage :: "environment \<Rightarrow> string" where
  "ftsLanguage env = (if is_blank (env ''FTS_LANGUAGE'') then ''english'' else trim (the (env ''FTS_LANGUAGE'')))"

text \<open>The migrations \<open>applyMigrations\<close> runs on a database that has the platform's tables, or does not.\<close>

definition applyMigrations :: "environment \<Rightarrow> bool \<Rightarrow> migration list" where
  "applyMigrations env present =
     (if present then [] else [Platform]) @
     [Cron, AgentTokens, Mailbox, Artifacts, Memory (ftsLanguage env), Webhooks]"

text \<open>
  Several hubs start on one database. Each is at one place of \<open>migrateHub\<close>: before the lock, holding it and about to look for
  the platform's tables, with migrations left to run, about to release the lock, about to close the connection, or through, with
  or without an error.
\<close>

datatype place =
    WaitsForLock | Looks | Applies "migration list" | Unlocks bool | Closes bool | Through bool

record database =
  lock_holder :: "nat option"
  applied :: "(nat \<times> migration) list"
  place_of :: "nat \<Rightarrow> place"

definition platformSchemaPresent :: "database \<Rightarrow> bool" where
  "platformSchemaPresent d \<longleftrightarrow> Platform \<in> snd ` set (applied d)"

definition goes :: "nat \<Rightarrow> place \<Rightarrow> database \<Rightarrow> database" where
  "goes h p d = d \<lparr> place_of := (place_of d)(h := p) \<rparr>"

text \<open>
  One step of one hub. The lock is granted to one session at a time and goes with its session at the latest; every query may
  fail, and a failure goes through the \<open>finally\<close> blocks that are open at that point. A migration that fails has changed
  nothing. A hub that is through may be started again.
\<close>

inductive migrate_step :: "environment \<Rightarrow> database \<Rightarrow> database \<Rightarrow> bool" for env where
  acquire: "place_of d h = WaitsForLock \<Longrightarrow> lock_holder d = None \<Longrightarrow>
      migrate_step env d (goes h Looks d \<lparr> lock_holder := Some h \<rparr>)"
| lock_fails: "place_of d h = WaitsForLock \<Longrightarrow> migrate_step env d (goes h (Closes True) d)"
| looks: "place_of d h = Looks \<Longrightarrow> migrate_step env d (goes h (Applies (applyMigrations env (platformSchemaPresent d))) d)"
| look_fails: "place_of d h = Looks \<Longrightarrow> migrate_step env d (goes h (Unlocks True) d)"
| applies: "place_of d h = Applies (m # ms) \<Longrightarrow>
      migrate_step env d (goes h (Applies ms) d \<lparr> applied := applied d @ [(h, m)] \<rparr>)"
| apply_fails: "place_of d h = Applies (m # ms) \<Longrightarrow> migrate_step env d (goes h (Unlocks True) d)"
| all_applied: "place_of d h = Applies [] \<Longrightarrow> migrate_step env d (goes h (Unlocks False) d)"
| unlocks: "place_of d h = Unlocks failed \<Longrightarrow> migrate_step env d (goes h (Closes failed) d \<lparr> lock_holder := None \<rparr>)"
| unlock_fails: "place_of d h = Unlocks failed \<Longrightarrow> migrate_step env d (goes h (Closes True) d)"
| closes: "place_of d h = Closes failed \<Longrightarrow>
      migrate_step env d (goes h (Through failed) d
        \<lparr> lock_holder := (if lock_holder d = Some h then None else lock_holder d) \<rparr>)"
| restarts: "place_of d h = Through failed \<Longrightarrow> migrate_step env d (goes h WaitsForLock d)"

text \<open>Every hub begins before the lock, on a database with no migration applied.\<close>

definition fresh_database :: database where
  "fresh_database = \<lparr> lock_holder = None, applied = [], place_of = \<lambda>_. WaitsForLock \<rparr>"

definition migrating :: "environment \<Rightarrow> database \<Rightarrow> bool" where
  "migrating env d \<longleftrightarrow> (migrate_step env)\<^sup>*\<^sup>* fresh_database d"

text \<open>The places between the two \<open>await lockClient\<close>.\<close>

fun working :: "place \<Rightarrow> bool" where
  "working Looks = True"
| "working (Applies _) = True"
| "working (Unlocks _) = True"
| "working _ = False"

definition platform_runs :: "database \<Rightarrow> nat" where
  "platform_runs d = length (filter (\<lambda>(h, m). m = Platform) (applied d))"

text \<open>What a hub at a place knows of the database: the platform is there once it is not left to run, and all that is not left is.\<close>

fun place_ok :: "environment \<Rightarrow> (nat \<times> migration) list \<Rightarrow> nat \<Rightarrow> place \<Rightarrow> bool" where
  "place_ok env trail h (Applies ms) \<longleftrightarrow>
     (if Platform \<in> set ms then Platform \<notin> snd ` set trail else Platform \<in> snd ` set trail) \<and>
     (ms = applyMigrations env False \<or> Platform \<notin> set ms) \<and>
     set (applyMigrations env True) \<subseteq> set ms \<union> snd ` set trail"
| "place_ok env trail h (Unlocks False) \<longleftrightarrow> set (applyMigrations env False) \<subseteq> snd ` set trail"
| "place_ok env trail h (Closes False) \<longleftrightarrow> set (applyMigrations env False) \<subseteq> snd ` set trail"
| "place_ok env trail h (Through False) \<longleftrightarrow> set (applyMigrations env False) \<subseteq> snd ` set trail"
| "place_ok env trail h _ \<longleftrightarrow> True"

definition migrations_ok :: "environment \<Rightarrow> database \<Rightarrow> bool" where
  "migrations_ok env d \<longleftrightarrow>
     (\<forall>h. working (place_of d h) \<longrightarrow> lock_holder d = Some h) \<and>
     (\<forall>h. place_ok env (applied d) h (place_of d h)) \<and>
     platform_runs d \<le> 1 \<and> (applied d \<noteq> [] \<longrightarrow> snd (hd (applied d)) = Platform)"

lemma applyMigrations_set:
  "set (applyMigrations env True) = {Cron, AgentTokens, Mailbox, Artifacts, Memory (ftsLanguage env), Webhooks}"
  "set (applyMigrations env False) = {Platform, Cron, AgentTokens, Mailbox, Artifacts, Memory (ftsLanguage env), Webhooks}"
  by (simp_all add: applyMigrations_def)

lemma ok_lock: "migrations_ok env d \<Longrightarrow> working (place_of d h) \<Longrightarrow> lock_holder d = Some h"
  by (simp add: migrations_ok_def)

lemma ok_place: "migrations_ok env d \<Longrightarrow> place_of d h = p \<Longrightarrow> place_ok env (applied d) h p"
  by (auto simp: migrations_ok_def)

lemma place_ok_idle:
  assumes "\<not> working p" and "place_ok env trail h p"
  shows "place_ok env (trail @ later) h p"
proof (cases p)
  case (Closes failed)
  with assms show ?thesis by (cases failed) auto
next
  case (Through failed)
  with assms show ?thesis by (cases failed) auto
qed (use assms in auto)

text \<open>A step that applies nothing keeps the invariant when the new place is in order.\<close>

lemma quiet_step_ok:
  assumes "migrations_ok env d" and "place_ok env (applied d) h p"
    and "working p \<Longrightarrow> l = Some h" and "\<And>k. k \<noteq> h \<Longrightarrow> working (place_of d k) \<Longrightarrow> l = Some k"
  shows "migrations_ok env (goes h p d \<lparr> lock_holder := l \<rparr>)"
  using assms by (auto simp: migrations_ok_def goes_def platform_runs_def)

lemma quiet_keep:
  assumes "migrations_ok env d" and "place_ok env (applied d) h p" and "working p \<Longrightarrow> lock_holder d = Some h"
  shows "migrations_ok env (goes h p d)"
  using assms by (auto simp: migrations_ok_def goes_def platform_runs_def)

lemma applied_step_ok:
  assumes ok: "migrations_ok env d" and h: "place_of d h = Applies (m # ms)"
  shows "migrations_ok env (goes h (Applies ms) d \<lparr> applied := applied d @ [(h, m)] \<rparr>)" (is "migrations_ok env ?d")
proof -
  from ok have lock: "\<And>k. working (place_of d k) \<Longrightarrow> lock_holder d = Some k"
    and place: "\<And>k. place_ok env (applied d) k (place_of d k)"
    and runs: "platform_runs d \<le> 1" and first: "applied d \<noteq> [] \<Longrightarrow> snd (hd (applied d)) = Platform"
    by (auto simp: migrations_ok_def)
  from lock [of h] h have holder: "lock_holder d = Some h" by simp
  from place [of h] h have here: "place_ok env (applied d) h (Applies (m # ms))" by simp
  have rest: "Platform \<notin> set ms" using here by (auto simp: applyMigrations_def)
  have others: "place_ok env (applied d @ [(h, m)]) k (place_of d k)" if "k \<noteq> h" for k
  proof (cases "working (place_of d k)")
    case True
    with lock holder that show ?thesis by auto
  next
    case False
    then show ?thesis by (rule place_ok_idle) (rule place)
  qed
  show ?thesis
  proof (cases "m = Platform")
    case True
    with here have none: "Platform \<notin> snd ` set (applied d)" by auto
    then have empty: "applied d = []" using first by (cases "applied d") auto
    show ?thesis
      unfolding migrations_ok_def
      using lock others here rest True none empty holder
      by (auto simp: goes_def platform_runs_def)
  next
    case False
    with here have "Platform \<in> snd ` set (applied d)" by (auto simp: applyMigrations_def)
    moreover from this have "applied d \<noteq> []" by auto
    ultimately show ?thesis
      unfolding migrations_ok_def
      using lock others here rest False runs first holder
      by (auto simp: goes_def platform_runs_def)
  qed
qed

lemma migrate_step_ok: "migrate_step env d d' \<Longrightarrow> migrations_ok env d \<Longrightarrow> migrations_ok env d'"
proof (induction rule: migrate_step.induct)
  case (acquire d h)
  then have "\<not> working (place_of d k)" for k using ok_lock by fastforce
  then show ?case using acquire by (intro quiet_step_ok) auto
next
  case (lock_fails d h)
  then show ?case by (intro quiet_keep) auto
next
  case (looks d h)
  have "place_ok env (applied d) h (Applies (applyMigrations env (platformSchemaPresent d)))"
  proof (cases "platformSchemaPresent d")
    case True
    then have "Platform \<in> snd ` set (applied d)" by (simp add: platformSchemaPresent_def)
    with True show ?thesis by (simp add: applyMigrations_set)
  next
    case False
    then have "Platform \<notin> snd ` set (applied d)" by (simp add: platformSchemaPresent_def)
    with False show ?thesis by (simp add: applyMigrations_set)
  qed
  then show ?case using looks by (intro quiet_keep) (auto dest: ok_lock [of env d h])
next
  case (look_fails d h)
  then show ?case by (intro quiet_keep) (auto dest: ok_lock [of env d h])
next
  case (applies d h m ms)
  then show ?case by (simp add: applied_step_ok)
next
  case (apply_fails d h m ms)
  then show ?case by (intro quiet_keep) (auto dest: ok_lock [of env d h])
next
  case (all_applied d h)
  have "place_ok env (applied d) h (Unlocks False)"
    using ok_place [OF all_applied.prems all_applied.hyps] by (auto simp: applyMigrations_set)
  then show ?case using all_applied by (intro quiet_keep) (auto dest: ok_lock [of env d h])
next
  case (unlocks d h failed)
  have "place_ok env (applied d) h (Closes failed)"
    using ok_place [OF unlocks.prems unlocks.hyps] by (cases failed) auto
  moreover have "lock_holder d = Some h" using unlocks by (auto dest: ok_lock [of env d h])
  then have "\<not> working (place_of d k)" if "k \<noteq> h" for k using that ok_lock [OF unlocks.prems, of k] by auto
  ultimately show ?case using unlocks.prems by (intro quiet_step_ok) auto
next
  case (unlock_fails d h failed)
  then show ?case by (intro quiet_keep) auto
next
  case (closes d h failed)
  have "place_ok env (applied d) h (Through failed)"
    using ok_place [OF closes.prems closes.hyps] by (cases failed) auto
  then show ?case using closes.prems by (intro quiet_step_ok) (auto dest: ok_lock)
next
  case (restarts d h failed)
  then show ?case by (intro quiet_keep) auto
qed

lemma migrating_ok: "migrating env d \<Longrightarrow> migrations_ok env d"
  unfolding migrating_def
proof (induction rule: rtranclp_induct)
  case base
  show ?case by (simp add: migrations_ok_def fresh_database_def platform_runs_def)
next
  case (step d d')
  then show ?case by (blast intro: migrate_step_ok)
qed


definition one_applied :: database where
  "one_applied =
     (let d1 = goes 0 Looks fresh_database \<lparr> lock_holder := Some 0 \<rparr>;
          d2 = goes 0 (Applies (applyMigrations Map.empty (platformSchemaPresent d1))) d1
      in goes 0 (Applies (tl (applyMigrations Map.empty False))) d2 \<lparr> applied := applied d2 @ [(0, Platform)] \<rparr>)"

lemma one_applied_reached: "migrating Map.empty one_applied"
proof -
  let ?d1 = "goes 0 Looks fresh_database \<lparr> lock_holder := Some 0 \<rparr>"
  let ?d2 = "goes 0 (Applies (applyMigrations Map.empty (platformSchemaPresent ?d1))) ?d1"
  have "migrate_step Map.empty fresh_database ?d1"
    by (rule migrate_step.acquire) (simp_all add: fresh_database_def)
  moreover have "migrate_step Map.empty ?d1 ?d2"
    by (rule migrate_step.looks) (simp add: goes_def)
  moreover have "migrate_step Map.empty ?d2 one_applied"
    unfolding one_applied_def Let_def
    by (rule migrate_step.applies) (simp add: goes_def applyMigrations_def platformSchemaPresent_def fresh_database_def)
  ultimately show ?thesis
    unfolding migrating_def by (blast intro: rtranclp.rtrancl_refl rtranclp.rtrancl_into_rtrancl)
qed


end
