(* ===== verification/Hub_Mount.thy ===== *)
theory Hub_Mount
  imports Hub_Boot Hub_Edge
begin

text \<open>
  What the hub runs beside the vendored API, \<open>apps/hub/src\<close>: the settings of its boot in the order they are read and the
  schedulers it starts (\<open>server.ts\<close>), the product's routes with their resolvers (\<open>corbits-mount.ts\<close>), the live stream of a run
  (\<open>run-stream.ts\<close>) and the senders a mailbox accepts (\<open>mailbox-persist.ts\<close>). Rows of the database are answers of functions.
\<close>

section \<open>The boot\<close>

record 'key hub_settings =
  hs_db :: db_config
  hs_data_dir :: string
  hs_credential_key :: 'key
  hs_principal_key :: 'key
  hs_max_tarball :: rat
  hs_policy :: lifecycle_policy
  hs_probe_timeout :: "rat option"
  hs_websocket_url :: string

text \<open>What the boot may call between two settings; \<open>step_fails\<close> gives the error of a call that throws.\<close>

datatype hub_event =
    HubSetUp | MigrateDatabase | GenerateSigningKey | BuildServices | InitializeAllocations | InitializeReconciler
  | StartScheduler string | MountRoutes

type_synonym 'a hub_start = "(hub_event list, string, 'a) comp"

definition hub_call :: "(hub_event \<Rightarrow> string option) \<Rightarrow> hub_event \<Rightarrow> unit hub_start" where
  "hub_call step_fails e trail =
     (case step_fails e of Some err \<Rightarrow> (Inl err, trail @ [e]) | None \<Rightarrow> (Inr (), trail @ [e]))"

definition hub_read :: "string + 'a \<Rightarrow> 'a hub_start" where
  "hub_read r = (case r of Inl e \<Rightarrow> throwE e | Inr x \<Rightarrow> returnE x)"

record 'key hub_ext =
  hub_fails :: "hub_event \<Rightarrow> string option"
  hub_hexDecode :: "string \<Rightarrow> string + 'key"
  assert_duration :: "string \<Rightarrow> string option"
  duration_ms :: "string \<Rightarrow> nat"
  show_number :: "js_value \<Rightarrow> string"

definition read_hub_settings :: "'key hub_ext \<Rightarrow> environment \<Rightarrow> 'key hub_settings hub_start" where
  "read_hub_settings x env =
     bindE (hub_call (hub_fails x) HubSetUp) (\<lambda>_.
     bindE (hub_call (hub_fails x) MigrateDatabase) (\<lambda>_.
     bindE (hub_read (read_data_dir env)) (\<lambda>dir.
     bindE (hub_read (required_key (hub_hexDecode x) ''CREDENTIAL_ENCRYPTION_KEY'' env)) (\<lambda>credential.
     bindE (hub_read (required_key (hub_hexDecode x) ''PRINCIPAL_KEY_ENCRYPTION_KEY'' env)) (\<lambda>principal.
     bindE (hub_read (read_max_tarball env)) (\<lambda>tarball.
     bindE (hub_call (hub_fails x) GenerateSigningKey) (\<lambda>_.
     bindE (hub_read (defaultLifecyclePolicy (assert_duration x) (duration_ms x) env)) (\<lambda>policy.
     bindE (hub_read (readOptionalPositiveIntEnv ''HUB_PROBE_TIMEOUT_MS'' env)) (\<lambda>probe.
       returnE \<lparr> hs_db = dbConfig env, hs_data_dir = dir, hs_credential_key = credential, hs_principal_key = principal,
                 hs_max_tarball = tarball, hs_policy = policy, hs_probe_timeout = probe,
                 hs_websocket_url = hubSidecarWebSocketUrl (show_number x) env \<rparr>)))))))))"

text \<open>The schedulers, in the order they are started.\<close>

definition schedulers :: "string list" where
  "schedulers = [''Sidecar allocation'', ''Workflow probe cleanup'', ''Workflow lifecycle'', ''Workflow dispatch projection'',
     ''Workflow dispatch'', ''Sidecar connection repair'']"

definition start_all :: "(hub_event \<Rightarrow> string option) \<Rightarrow> string list \<Rightarrow> unit hub_start" where
  "start_all step_fails names = bindE (mapE (\<lambda>n. hub_call step_fails (StartScheduler n)) names) (\<lambda>_. returnE ())"

definition createHubServer :: "'key hub_ext \<Rightarrow> environment \<Rightarrow> 'key hub_settings hub_start" where
  "createHubServer x env =
     bindE (read_hub_settings x env) (\<lambda>s.
     bindE (hub_call (hub_fails x) BuildServices) (\<lambda>_.
     bindE (hub_call (hub_fails x) InitializeAllocations) (\<lambda>_.
     bindE (hub_call (hub_fails x) InitializeReconciler) (\<lambda>_.
     bindE (start_all (hub_fails x) schedulers) (\<lambda>_.
     bindE (hub_call (hub_fails x) MountRoutes) (\<lambda>_. returnE s))))))"

datatype shutdown_call = StopScheduler string | StopCron | StopTokenRefresh | CloseDatabase

definition hub_shutdown :: "shutdown_call list" where
  "hub_shutdown = map StopScheduler schedulers @ [StopCron, StopTokenRefresh, CloseDatabase]"

section \<open>Events of sidecars\<close>

record allocation_target =
  at_allocation :: string
  at_generation :: int

text \<open>Every allocation a sidecar held is reconciled on its disconnect; one that fails is logged and holds up no other.\<close>

definition on_disconnect ::
  "(allocation_target \<Rightarrow> string option) \<Rightarrow> allocation_target list \<Rightarrow> allocation_target list \<times> string list" where
  "on_disconnect handle_fails targets =
     (targets, concat (map (\<lambda>t. case handle_fails t of
        None \<Rightarrow> []
      | Some e \<Rightarrow> [''Failed to handle the disconnect of allocation '' @ at_allocation t @ '' generation '' @
                   string_of_int (at_generation t) @ '': '' @ e]) targets))"

text \<open>The socket of a sidecar: only text messages reach the router.\<close>

datatype socket_event = SocketOpen | SocketText string | SocketBinary | SocketClose

datatype router_event = HandleOpen | HandleMessage string | HandleClose

fun socket_calls :: "socket_event \<Rightarrow> router_event list" where
  "socket_calls SocketOpen = [HandleOpen]"
| "socket_calls (SocketText data) = [HandleMessage data]"
| "socket_calls SocketBinary = []"
| "socket_calls SocketClose = [HandleClose]"

section \<open>Resolvers of the mounted routes\<close>

record run_record =
  rr_id :: string
  rr_tenant :: string
  rr_principal :: "string option"

record run_scope =
  rs_tenant :: string
  rs_principal :: string
  rs_run :: string

definition resolveAgentRun :: "(string \<Rightarrow> run_record option) \<Rightarrow> string \<Rightarrow> run_scope option" where
  "resolveAgentRun find_run address =
     (if address = [] then None
      else (case find_run address of
              None \<Rightarrow> None
            | Some run \<Rightarrow>
                (case rr_principal run of
                   None \<Rightarrow> None
                 | Some p \<Rightarrow> Some \<lparr> rs_tenant = rr_tenant run, rs_principal = p, rs_run = rr_id run \<rparr>)))"

text \<open>
  The context of a request: the address it names and the tenant seeded on it. \<open>verify_token\<close> is the verifier of the vendored
  package, which reads the tenant of the context.
\<close>

record request_context =
  run_header :: "string option"
  ctx_tenant :: "string option"

definition verifyAgent ::
  "(string \<Rightarrow> run_record option) \<Rightarrow> (request_context \<Rightarrow> 'v option) \<Rightarrow> request_context \<Rightarrow> 'v option \<times> request_context" where
  "verifyAgent find_run verify_token c =
     (case resolveAgentRun find_run (case run_header c of None \<Rightarrow> [] | Some h \<Rightarrow> h) of
        None \<Rightarrow> (None, c)
      | Some s \<Rightarrow> (let c' = c \<lparr> ctx_tenant := Some (rs_tenant s) \<rparr> in (verify_token c', c')))"

text \<open>Whether a definition is the source asset of a workflow of the tenant.\<close>

record asset_row =
  as_id :: string
  as_tenant :: string
  as_kind :: string

definition resolveDefinition :: "asset_row list \<Rightarrow> string \<Rightarrow> string \<Rightarrow> bool" where
  "resolveDefinition assets tenantId definitionId \<longleftrightarrow>
     (\<exists>a \<in> set assets. as_id a = definitionId \<and> as_tenant a = tenantId \<and> as_kind a = ''workflow'')"

definition quoted :: "string \<Rightarrow> string" where
  "quoted s = [CHR 0x22] @ s @ [CHR 0x22]"

definition senderAddressFor ::
  "(string \<Rightarrow> string option) \<Rightarrow> (string \<Rightarrow> string option) \<Rightarrow> string \<Rightarrow> string \<Rightarrow> string + string" where
  "senderAddressFor domain_of ref_of tenantId principalId =
     (case domain_of tenantId of
        None \<Rightarrow> Inl (''no tenant '' @ quoted tenantId @ '' to address a mailbox sender from'')
      | Some domain \<Rightarrow>
          (case ref_of principalId of
             None \<Rightarrow> Inl (''no principal '' @ quoted principalId @ '' to address a mailbox sender as'')
           | Some ref \<Rightarrow> Inr (to_lower (ref @ ''@'' @ domain))))"

definition cronTenantDomain :: "(string \<Rightarrow> string option) \<Rightarrow> string \<Rightarrow> string + string" where
  "cronTenantDomain domain_of tenantId =
     (case domain_of tenantId of
        None \<Rightarrow> Inl (''no tenant '' @ quoted tenantId @ '' to address cron mail from'')
      | Some domain \<Rightarrow> Inr domain)"

text \<open>Mail the system triggers is only handed on to an address that is routable now.\<close>

definition system_routeMail :: "string list \<Rightarrow> (string \<Rightarrow> bool) \<Rightarrow> string \<Rightarrow> bool" where
  "system_routeMail routable route address = (if address \<notin> set routable then False else route address)"

definition drop_end_slashes :: "string \<Rightarrow> string" where
  "drop_end_slashes s = rev (dropWhile (\<lambda>c. c = CHR ''/'') (rev s))"

definition hubPublicUrl :: "(js_value \<Rightarrow> string) \<Rightarrow> environment \<Rightarrow> string" where
  "hubPublicUrl show env = env_or ''HUB_PUBLIC_URL'' (''http://127.0.0.1:'' @ show (hub_port env)) env"

definition oauthCallbackUrl :: "string \<Rightarrow> string" where
  "oauthCallbackUrl public_url = drop_end_slashes public_url @ ''/api/oauth/callback''"

text \<open>\<open>hostname\<close> is what the URL parser reads off the address.\<close>

definition localDevHub :: "string \<Rightarrow> bool" where
  "localDevHub hostname \<longleftrightarrow>
     hostname = ''localhost'' \<or> starts_with ''127.'' hostname \<or> hostname = ''[::1]''"

text \<open>The sender of a frame, by the address it came from: its tenant and that tenant's domain.\<close>

definition authorizeSender ::
  "(string \<Rightarrow> string option) \<Rightarrow> (string \<Rightarrow> string option) \<Rightarrow> string \<Rightarrow> (string \<times> string) option" where
  "authorizeSender tenant_of domain_of sender =
     (case tenant_of sender of
        None \<Rightarrow> None
      | Some tenantId \<Rightarrow>
          (case domain_of tenantId of None \<Rightarrow> None | Some domain \<Rightarrow> Some (tenantId, domain)))"

section \<open>The live stream of a run\<close>

datatype 'e sse = RunEvent 'e | Ping

record 'e run_stream =
  heartbeat :: bool
  subscribed :: bool
  written :: "'e sse list"
  write_reports :: "string list"

text \<open>What happens to an open stream: a raw frame or a tick, each with the error of its write, if any, and the abort.\<close>

datatype 'r stream_event = Frame 'r "string option" | Tick "string option" | Abort

definition writeSSE :: "string \<Rightarrow> 'e sse \<Rightarrow> string option \<Rightarrow> 'e run_stream \<Rightarrow> 'e run_stream" where
  "writeSSE operation m failure s =
     (case failure of
        None \<Rightarrow> s \<lparr> written := written s @ [m] \<rparr>
      | Some e \<Rightarrow> s \<lparr> write_reports := write_reports s @ [operation @ '': '' @ e] \<rparr>)"

fun stream_step :: "('r \<Rightarrow> 'e option) \<Rightarrow> 'r stream_event \<Rightarrow> 'e run_stream \<Rightarrow> 'e run_stream" where
  "stream_step parse (Frame raw failure) s =
     (if subscribed s
      then (case parse raw of None \<Rightarrow> s | Some e \<Rightarrow> writeSSE ''hub.runStream.write'' (RunEvent e) failure s)
      else s)"
| "stream_step parse (Tick failure) s =
     (if heartbeat s then writeSSE ''hub.runStream.ping'' Ping failure s else s)"
| "stream_step parse Abort s = s \<lparr> heartbeat := False, subscribed := False \<rparr>"

text \<open>A request that was aborted before the stream is open goes straight to the \<open>finally\<close> block.\<close>

definition open_stream :: "bool \<Rightarrow> 'e run_stream" where
  "open_stream aborted = \<lparr> heartbeat = \<not> aborted, subscribed = \<not> aborted, written = [], write_reports = [] \<rparr>"

text \<open>The route: a run that is not the tenant's is not found.\<close>

definition run_stream_route ::
  "(string \<Rightarrow> string \<Rightarrow> string option) \<Rightarrow> string \<Rightarrow> string \<Rightarrow> bool \<Rightarrow> nat + (string \<times> 'e run_stream)" where
  "run_stream_route find_routable tenantId runId aborted =
     (case find_routable runId tenantId of None \<Rightarrow> Inl 404 | Some address \<Rightarrow> Inr (address, open_stream aborted))"

section \<open>What they keep\<close>

fun frames_sent :: "('r \<Rightarrow> 'e option) \<Rightarrow> 'r stream_event list \<Rightarrow> 'e list" where
  "frames_sent parse [] = []"
| "frames_sent parse (Frame raw None # es) =
     (case parse raw of None \<Rightarrow> frames_sent parse es | Some e \<Rightarrow> e # frames_sent parse es)"
| "frames_sent parse (Frame raw (Some _) # es) = frames_sent parse es"
| "frames_sent parse (Tick _ # es) = frames_sent parse es"
| "frames_sent parse (Abort # es) = []"

definition run_events :: "'e sse list \<Rightarrow> 'e list" where
  "run_events ms = concat (map (\<lambda>m. case m of RunEvent e \<Rightarrow> [e] | Ping \<Rightarrow> []) ms)"

lemma run_events_snoc [simp]:
  "run_events (ms @ [RunEvent e]) = run_events ms @ [e]" "run_events (ms @ [Ping]) = run_events ms"
  by (simp_all add: run_events_def)

lemma closed_stream:
  "\<not> subscribed s \<Longrightarrow> \<not> heartbeat s \<Longrightarrow> written (fold (stream_step parse) es s) = written s \<and>
     \<not> subscribed (fold (stream_step parse) es s) \<and> \<not> heartbeat (fold (stream_step parse) es s)"
proof (induction es arbitrary: s)
  case (Cons e es)
  then show ?case by (cases e) auto
qed simp

lemma stream_frames:
  "subscribed s \<Longrightarrow> run_events (written (fold (stream_step parse) es s)) = run_events (written s) @ frames_sent parse es"
proof (induction es arbitrary: s)
  case (Cons e es)
  show ?case
  proof (cases e)
    case (Frame raw failure)
    then show ?thesis
      using Cons.prems Cons.IH [of "stream_step parse e s"]
      by (cases failure; cases "parse raw") (auto simp: writeSSE_def)
  next
    case (Tick failure)
    then show ?thesis
      using Cons.prems Cons.IH [of "stream_step parse e s"] by (cases failure) (auto simp: writeSSE_def)
  next
    case Abort
    then show ?thesis using closed_stream [of "stream_step parse Abort s" parse es] by simp
  qed
qed simp

text \<open>
  Also shown. The stream of a run carries exactly the frames that are events of a run, in the order they came, up to the abort of
  the request; after it nothing is written and neither the subscription nor the heartbeat is left behind.
\<close>

theorem run_stream_carries:
  "run_events (written (fold (stream_step parse) es (open_stream False))) = frames_sent parse es"
  "\<not> subscribed (fold (stream_step parse) (es @ Abort # es') (open_stream aborted)) \<and>
   \<not> heartbeat (fold (stream_step parse) (es @ Abort # es') (open_stream aborted)) \<and>
   written (fold (stream_step parse) (es @ Abort # es') (open_stream aborted)) =
   written (fold (stream_step parse) es (open_stream aborted))"
proof -
  show "run_events (written (fold (stream_step parse) es (open_stream False))) = frames_sent parse es"
    using stream_frames [of "open_stream False" parse es] by (simp add: open_stream_def run_events_def)
  let ?s = "fold (stream_step parse) es (open_stream aborted)"
  show "\<not> subscribed (fold (stream_step parse) (es @ Abort # es') (open_stream aborted)) \<and>
   \<not> heartbeat (fold (stream_step parse) (es @ Abort # es') (open_stream aborted)) \<and>
   written (fold (stream_step parse) (es @ Abort # es') (open_stream aborted)) = written ?s"
    using closed_stream [of "stream_step parse Abort ?s" parse es'] by simp
qed

text \<open>A token is only verified in the tenant of the run the request names.\<close>

lemma verified_in_run_tenant:
  "verifyAgent find_run verify_token c = (Some v, c') \<Longrightarrow>
     \<exists>h run. run_header c = Some h \<and> find_run h = Some run \<and> rr_principal run \<noteq> None \<and>
       ctx_tenant c' = Some (rr_tenant run) \<and> verify_token c' = Some v"
  by (auto simp: verifyAgent_def resolveAgentRun_def Let_def split: option.splits if_splits)

lemma sender_address_canonical: "senderAddressFor domain_of ref_of t p = Inr a \<Longrightarrow> to_lower a = a"
  by (auto simp: senderAddressFor_def split: option.splits)

section \<open>The order of the boot\<close>

abbreviation nothing_scheduled :: "hub_event list \<Rightarrow> bool" where
  "nothing_scheduled trail \<equiv> \<forall>n. StartScheduler n \<notin> set trail"

lemma hub_call_keeps: "(\<And>n. e \<noteq> StartScheduler n) \<Longrightarrow> keepsE nothing_scheduled (hub_call step_fails e)"
  by (auto simp: validE_def hub_call_def split: option.splits)

lemma hub_call_grows: "keepsE (prefix base) (hub_call step_fails e)"
  by (auto simp: validE_def hub_call_def prefix_def split: option.splits)

lemma start_all_grows: "keepsE (prefix base) (start_all step_fails names)"
  unfolding start_all_def by (intro keepsE_bind keepsE_mapE hub_call_grows keepsE_return)

lemma hub_read_keeps: "keepsE P (hub_read r)"
  by (cases r) (simp_all add: hub_read_def keepsE_return keepsE_throw)

lemma settings_keep: "keepsE nothing_scheduled (read_hub_settings x env)"
  unfolding read_hub_settings_def
  by (intro keepsE_bind hub_read_keeps hub_call_keeps) (simp_all add: keepsE_return)

lemma settings_migrated: "read_hub_settings x env [] = (Inr s, trail) \<Longrightarrow>
    MigrateDatabase \<in> set trail \<and> hub_fails x MigrateDatabase = None"
  by (auto simp: read_hub_settings_def bindE_Inr_iff hub_call_def hub_read_def returnE_def throwE_def
           split: option.splits sum.splits)

text \<open>
  Also shown. No scheduler runs on a hub whose database is not migrated or whose allocations are not initialized: the first is
  started when all of these calls have returned, and a boot that fails before that starts none.
\<close>

theorem schedulers_start_last:
  assumes "createHubServer x env [] = (r, trail)" and "StartScheduler n \<in> set trail"
  shows "hub_fails x MigrateDatabase = None \<and> hub_fails x InitializeAllocations = None \<and>
    hub_fails x InitializeReconciler = None \<and>
    (\<exists>before after. trail = before @ [InitializeAllocations, InitializeReconciler] @ after \<and>
       MigrateDatabase \<in> set before \<and> (\<forall>n. StartScheduler n \<notin> set before))"
proof -
  obtain q t where q: "read_hub_settings x env [] = (q, t)" by (cases "read_hub_settings x env []")
  have quiet: "nothing_scheduled t" by (rule keepsE_D [OF settings_keep _ q]) simp
  obtain s where s: "q = Inr s"
    using assms q quiet by (cases q) (auto simp: createHubServer_def bindE_def)
  have mig: "MigrateDatabase \<in> set t" "hub_fails x MigrateDatabase = None"
    using settings_migrated q s by blast+
  have run: "createHubServer x env [] =
      bindE (hub_call (hub_fails x) BuildServices) (\<lambda>_.
      bindE (hub_call (hub_fails x) InitializeAllocations) (\<lambda>_.
      bindE (hub_call (hub_fails x) InitializeReconciler) (\<lambda>_.
      bindE (start_all (hub_fails x) schedulers) (\<lambda>_.
      bindE (hub_call (hub_fails x) MountRoutes) (\<lambda>_. returnE s))))) t"
    using q s by (simp add: createHubServer_def bindE_def)
  have init: "hub_fails x BuildServices = None" "hub_fails x InitializeAllocations = None" "hub_fails x InitializeReconciler = None"
    using assms quiet unfolding run by (auto simp: bindE_def hub_call_def split: option.splits)
  let ?base = "t @ [BuildServices, InitializeAllocations, InitializeReconciler]"
  let ?rest = "bindE (start_all (hub_fails x) schedulers) (\<lambda>_. bindE (hub_call (hub_fails x) MountRoutes) (\<lambda>_. returnE s))"
  have grow: "keepsE (prefix ?base) ?rest" by (intro keepsE_bind start_all_grows hub_call_grows keepsE_return)
  have res: "?rest ?base = (r, trail)"
    using assms(1) init unfolding run by (simp add: bindE_def [of "hub_call f e" for f e] hub_call_def)
  have "prefix ?base trail" using keepsE_D [OF grow _ res] by simp
  then obtain after where "trail = ?base @ after" by (auto simp: prefix_def)
  then have "trail = (t @ [BuildServices]) @ [InitializeAllocations, InitializeReconciler] @ after" by simp
  moreover have "MigrateDatabase \<in> set (t @ [BuildServices])" and "\<forall>n. StartScheduler n \<notin> set (t @ [BuildServices])"
    using mig quiet by auto
  ultimately show ?thesis using mig init by blast
qed

definition demo_hub :: "unit hub_ext" where
  "demo_hub = \<lparr> hub_fails = (\<lambda>e. if e = StartScheduler ''Workflow dispatch'' then Some ''no'' else None),
     hub_hexDecode = \<lambda>_. Inr (), assert_duration = Some, duration_ms = length, show_number = \<lambda>_. ''3000'' \<rparr>"

theorem schedulers_start_last_witness:
  "StartScheduler ''Workflow lifecycle'' \<in> set (snd (createHubServer demo_hub
     [''HUB_DATA_DIR'' \<mapsto> ''/d'', ''CREDENTIAL_ENCRYPTION_KEY'' \<mapsto> ''00'', ''PRINCIPAL_KEY_ENCRYPTION_KEY'' \<mapsto> ''00''] [])) \<and>
   hub_fails demo_hub InitializeReconciler = None"
proof
  have trim: "trim ''00'' \<noteq> []" by code_simp
  obtain r trail where run: "createHubServer demo_hub
     [''HUB_DATA_DIR'' \<mapsto> ''/d'', ''CREDENTIAL_ENCRYPTION_KEY'' \<mapsto> ''00'', ''PRINCIPAL_KEY_ENCRYPTION_KEY'' \<mapsto> ''00''] [] = (r, trail)"
    by (cases "createHubServer demo_hub
     [''HUB_DATA_DIR'' \<mapsto> ''/d'', ''CREDENTIAL_ENCRYPTION_KEY'' \<mapsto> ''00'', ''PRINCIPAL_KEY_ENCRYPTION_KEY'' \<mapsto> ''00''] []")
  have "StartScheduler ''Workflow lifecycle'' \<in> set trail"
    using run trim
    by (auto simp: createHubServer_def read_hub_settings_def bindE_def hub_call_def hub_read_def returnE_def throwE_def demo_hub_def
          read_data_dir_def required_key_def read_max_tarball_def DEFAULT_HUB_MAX_TARBALL_BYTES_def defaultLifecyclePolicy_def
          bind_read_def readLifecycleDurationEnv_def readOptionalPositiveIntEnv_def start_all_def schedulers_def)
  then show "StartScheduler ''Workflow lifecycle'' \<in> set (snd (createHubServer demo_hub
     [''HUB_DATA_DIR'' \<mapsto> ''/d'', ''CREDENTIAL_ENCRYPTION_KEY'' \<mapsto> ''00'', ''PRINCIPAL_KEY_ENCRYPTION_KEY'' \<mapsto> ''00''] []))"
    using run by simp
  then show "hub_fails demo_hub InitializeReconciler = None"
    using schedulers_start_last [OF run] run by simp
qed

end
