(* ===== verification/Palette.thy ===== *)
theory Palette
  imports Stock_Hub App_Paths Shell_Canvas
begin

text \<open>
  The command palette, \<open>apps/web/src\<close>: the recent entries it keeps (\<open>command-palette/recents.ts\<close>), matching and paging over the
  entities already fetched (\<open>static-commands.ts\<close>, \<open>entity-search.ts\<close>), the scopes of a query and the groups shown
  (\<open>scope.ts\<close>, \<open>command-groups.ts\<close>), the actions it runs (\<open>command-palette-actions.ts\<close>, \<open>library-upload.ts\<close>) and whether it
  is open (\<open>command-palette-open-store.ts\<close>).
\<close>

section \<open>Recent entries\<close>

record recent_entry =
  re_kind :: string
  re_id :: string
  re_title :: string
  re_subtitle :: "string option"

definition MAX_RECENTS :: nat where "MAX_RECENTS = 5"

definition recentKey :: "recent_entry \<Rightarrow> string" where
  "recentKey e = re_kind e @ '':'' @ re_id e"

text \<open>The lists hold an entry with the JSON value it is stored as, whose other fields are kept.\<close>

type_synonym recents = "(recent_entry \<times> json) list"

definition recent_json :: "recent_entry \<Rightarrow> json" where
  "recent_json e =
     JObj ([(''kind'', JStr (re_kind e)), (''id'', JStr (re_id e)), (''title'', JStr (re_title e))] @
           (case re_subtitle e of None \<Rightarrow> [] | Some s \<Rightarrow> [(''subtitle'', JStr s)]))"

definition addRecentEntry :: "recents \<Rightarrow> recent_entry \<Rightarrow> nat \<Rightarrow> recents" where
  "addRecentEntry entries e max_size =
     take max_size ((e, recent_json e) # filter (\<lambda>x. recentKey (fst x) \<noteq> recentKey e) entries)"

definition removeRecentEntry :: "recents \<Rightarrow> string \<Rightarrow> string \<Rightarrow> recents" where
  "removeRecentEntry entries kind i = filter (\<lambda>x. recentKey (fst x) \<noteq> kind @ '':'' @ i) entries"

definition isRecentEntry :: "json \<Rightarrow> recent_entry option" where
  "isRecentEntry j =
     (case (str_field ''kind'' j, str_field ''id'' j, str_field ''title'' j) of
        (Some k, Some i, Some t) \<Rightarrow>
          (case field ''subtitle'' j of
             None \<Rightarrow> Some \<lparr> re_kind = k, re_id = i, re_title = t, re_subtitle = None \<rparr>
           | Some (JStr s) \<Rightarrow> Some \<lparr> re_kind = k, re_id = i, re_title = t, re_subtitle = Some s \<rparr>
           | Some _ \<Rightarrow> None)
      | _ \<Rightarrow> None)"

definition load_recents :: "string \<Rightarrow> nat \<Rightarrow> storage \<Rightarrow> recents" where
  "load_recents key max_size s = take max_size (load_rows isRecentEntry key s)"

text \<open>A store that cannot be written loses the list for the next start, not for this one.\<close>

definition persist_recents :: "string \<Rightarrow> recents \<Rightarrow> storage \<Rightarrow> storage" where
  "persist_recents key entries s = snd (catchE (setItem key (JArr (map snd entries))) (\<lambda>_. returnE ()) s
     :: (unit + unit) \<times> storage)"

definition push_recent :: "string \<Rightarrow> nat \<Rightarrow> recent_entry \<Rightarrow> storage \<Rightarrow> recents \<times> storage" where
  "push_recent key max_size e s =
     (let next = addRecentEntry (load_recents key max_size s) e max_size in (next, persist_recents key next s))"

definition remove_recent :: "string \<Rightarrow> nat \<Rightarrow> string \<Rightarrow> string \<Rightarrow> storage \<Rightarrow> recents \<times> storage" where
  "remove_recent key max_size kind i s =
     (let next = removeRecentEntry (load_recents key max_size s) kind i in (next, persist_recents key next s))"

datatype recents_op = Push recent_entry | Remove string string | DiskFull bool

fun recents_step :: "string \<Rightarrow> nat \<Rightarrow> recents_op \<Rightarrow> recents \<times> storage \<Rightarrow> recents \<times> storage" where
  "recents_step key n (Push e) (shown, s) = push_recent key n e s"
| "recents_step key n (Remove kind i) (shown, s) = remove_recent key n kind i s"
| "recents_step key n (DiskFull full) (shown, s) = (shown, s \<lparr> st_full := full \<rparr>)"

section \<open>Matching\<close>

definition matchesQuery :: "string \<Rightarrow> string \<Rightarrow> bool" where
  "matchesQuery title query =
     (let needle = to_lower (trim query) in if needle = [] then True else contains needle (to_lower title))"

record static_command =
  sc_id :: string
  sc_title :: string
  sc_category :: string
  sc_path :: string

definition buildStaticCommands :: "(string \<times> string) list \<Rightarrow> static_command list" where
  "buildStaticCommands routes =
     map (\<lambda>(path, label). \<lparr> sc_id = ''route:'' @ path, sc_title = label, sc_category = ''pages'', sc_path = path \<rparr>) routes"

record search_result =
  sr_id :: string
  sr_title :: string
  sr_category :: string

record search_page =
  sp_results :: "search_result list"
  sp_hasMore :: bool

text \<open>A source is its category with the ids and names of its entities.\<close>

type_synonym entity_source = "string \<times> (string \<times> string) list"

definition matched_entities :: "entity_source list \<Rightarrow> string \<Rightarrow> search_result list" where
  "matched_entities sources query =
     concat (map (\<lambda>(category, entities).
       map (\<lambda>(i, name). \<lparr> sr_id = i, sr_title = name, sr_category = category \<rparr>)
         (filter (\<lambda>(i, name). matchesQuery name query) entities)) sources)"

definition searchEntities :: "string \<Rightarrow> entity_source list \<Rightarrow> nat \<Rightarrow> nat \<Rightarrow> search_page" where
  "searchEntities query sources pageSize offset =
     (if trim query = [] then \<lparr> sp_results = [], sp_hasMore = False \<rparr>
      else (let matched = matched_entities sources query
            in \<lparr> sp_results = take pageSize (drop offset matched),
                 sp_hasMore = (offset + pageSize < length matched) \<rparr>))"

section \<open>Scopes and groups\<close>

datatype scope_kind = Workbenches | People | Actions | Pages

record palette_scope =
  ps_prefix :: string
  ps_kind :: scope_kind
  ps_label :: string

definition PALETTE_SCOPES :: "palette_scope list" where
  "PALETTE_SCOPES =
     [\<lparr> ps_prefix = ''#'', ps_kind = Workbenches, ps_label = ''workbenches'' \<rparr>,
      \<lparr> ps_prefix = ''@'', ps_kind = People, ps_label = ''people & agents'' \<rparr>,
      \<lparr> ps_prefix = ''>'', ps_kind = Actions, ps_label = ''actions'' \<rparr>,
      \<lparr> ps_prefix = ''/'', ps_kind = Pages, ps_label = ''pages'' \<rparr>]"

definition parsePaletteQuery :: "string \<Rightarrow> palette_scope option \<times> string" where
  "parsePaletteQuery raw =
     (let scope = List.find (\<lambda>c. ps_prefix c = take 1 raw) PALETTE_SCOPES
      in (scope, trim (case scope of None \<Rightarrow> raw | Some c \<Rightarrow> drop (length (ps_prefix c)) raw)))"

definition isBareScopeQuery :: "string \<Rightarrow> bool" where
  "isBareScopeQuery raw \<longleftrightarrow> (case parsePaletteQuery raw of (scope, query) \<Rightarrow> scope \<noteq> None \<and> query = [])"

record result_item =
  ri_id :: string
  ri_title :: string
  ri_subtitle :: "string option"
  ri_searchText :: "string option"

record result_group =
  rg_id :: string
  rg_heading :: string
  rg_items :: "result_item list"

record palette_source =
  pl_id :: string
  pl_heading :: string
  pl_items :: "result_item list"
  pl_kind :: "scope_kind option"

definition search_text :: "result_item \<Rightarrow> string" where
  "search_text i =
     (case ri_searchText i of
        Some t \<Rightarrow> t
      | None \<Rightarrow> ri_title i @ '' '' @ (case ri_subtitle i of None \<Rightarrow> [] | Some s \<Rightarrow> s))"

definition filterItems :: "result_item list \<Rightarrow> string \<Rightarrow> result_item list" where
  "filterItems items query = (if query = [] then items else filter (\<lambda>i. matchesQuery (search_text i) query) items)"

text \<open>Whether a source shows under a scope: a source without a kind is only in the unscoped view.\<close>

definition source_shows :: "palette_scope option \<Rightarrow> palette_source \<Rightarrow> bool" where
  "source_shows scope src =
     (case pl_kind src of
        None \<Rightarrow> scope = None
      | Some k \<Rightarrow> (case scope of None \<Rightarrow> True | Some c \<Rightarrow> ps_kind c = k))"

definition group_ids :: "result_group list \<Rightarrow> string list" where
  "group_ids gs = concat (map (\<lambda>g. map ri_id (rg_items g)) gs)"

fun add_sources :: "palette_scope option \<Rightarrow> string \<Rightarrow> palette_source list \<Rightarrow> result_group list \<Rightarrow> result_group list" where
  "add_sources scope query [] groups = groups"
| "add_sources scope query (src # srcs) groups =
     (if \<not> source_shows scope src then add_sources scope query srcs groups
      else (let items = filter (\<lambda>i. ri_id i \<notin> set (group_ids groups)) (filterItems (pl_items src) query)
            in add_sources scope query srcs
                 (if items \<noteq> [] then groups @ [\<lparr> rg_id = pl_id src, rg_heading = pl_heading src, rg_items = items \<rparr>]
                  else groups)))"

definition buildCommandPaletteGroups :: "string \<Rightarrow> result_item list \<Rightarrow> palette_source list \<Rightarrow> result_group list" where
  "buildCommandPaletteGroups raw recents sources =
     (case parsePaletteQuery raw of (scope, query) \<Rightarrow>
        add_sources scope query sources
          (if scope = None \<and> query = [] \<and> recents \<noteq> []
           then [\<lparr> rg_id = ''recents'', rg_heading = ''Recent'', rg_items = recents \<rparr>] else []))"

section \<open>Actions\<close>

datatype action_id = NewWorkbench | NewSkill | UploadArtifact | ToggleTheme | CloseCanvas | GoWorkbenches | TakeTour

datatype palette_effect =
    NavigateTo string | DispatchNewSkill | DispatchLibraryUpload | CycleTheme | CloseCanvasColumn | OpenTour

record pending_flags =
  pending_skill :: bool
  pendingUpload :: bool

text \<open>The path \<open>routes.tsx\<close> has for a new workbench is an argument; \<open>under\<close> is the test for the page a flag is for.\<close>

definition under :: "string \<Rightarrow> string \<Rightarrow> bool" where
  "under page path \<longleftrightarrow> path = page \<or> starts_with (page @ ''/'') path"

definition requestLibraryUpload :: "bool \<Rightarrow> pending_flags \<Rightarrow> palette_effect list \<times> pending_flags" where
  "requestLibraryUpload alreadyOnLibrary p =
     (if alreadyOnLibrary then ([DispatchLibraryUpload], p)
      else ([NavigateTo ''/artifacts''], p \<lparr> pendingUpload := True \<rparr>))"

definition consumePendingLibraryUpload :: "pending_flags \<Rightarrow> bool \<times> pending_flags" where
  "consumePendingLibraryUpload p = (if \<not> pendingUpload p then (False, p) else (True, p \<lparr> pendingUpload := False \<rparr>))"

definition requestNewSkill :: "string \<Rightarrow> pending_flags \<Rightarrow> palette_effect list \<times> pending_flags" where
  "requestNewSkill path p =
     (case pending_request (under ''/skills'' path) (pending_skill p) of
        (now, flag) \<Rightarrow> ((if now then [DispatchNewSkill] else [NavigateTo ''/skills'']), p \<lparr> pending_skill := flag \<rparr>))"

fun runActionCommand :: "string \<Rightarrow> string \<Rightarrow> action_id \<Rightarrow> pending_flags \<Rightarrow> palette_effect list \<times> pending_flags" where
  "runActionCommand new_path path NewWorkbench p = ([NavigateTo new_path], p)"
| "runActionCommand new_path path NewSkill p = requestNewSkill path p"
| "runActionCommand new_path path UploadArtifact p = requestLibraryUpload (under ''/artifacts'' path) p"
| "runActionCommand new_path path ToggleTheme p = ([CycleTheme], p)"
| "runActionCommand new_path path CloseCanvas p = ([CloseCanvasColumn], p)"
| "runActionCommand new_path path GoWorkbenches p = ([NavigateTo WORKBENCH_PATH_PREFIX], p)"
| "runActionCommand new_path path TakeTour p = ([OpenTour], p)"

section \<open>Open or closed\<close>

record palette_store =
  po_open :: bool
  po_query :: string
  po_emits :: nat

definition setCommandPaletteOpen :: "bool \<Rightarrow> palette_store \<Rightarrow> palette_store" where
  "setCommandPaletteOpen next s =
     (if po_open s = next then s
      else s \<lparr> po_open := next, po_query := (if next then po_query s else []), po_emits := po_emits s + 1 \<rparr>)"

definition setCommandPaletteQuery :: "string \<Rightarrow> palette_store \<Rightarrow> palette_store" where
  "setCommandPaletteQuery next s =
     (if po_query s = next then s else s \<lparr> po_query := next, po_emits := po_emits s + 1 \<rparr>)"

section \<open>The recent list\<close>

lemma parse_recent_json: "isRecentEntry (recent_json e) = Some e"
  by (cases e) (auto simp: isRecentEntry_def recent_json_def str_field_def split: option.splits)

interpretation recents: row_store isRecentEntry recent_json recentKey "\<lambda>_. True"
  by unfold_locales (rule parse_recent_json)

definition rows_parse :: "recents \<Rightarrow> bool" where
  "rows_parse rows \<longleftrightarrow> (\<forall>row \<in> set rows. isRecentEntry (snd row) = Some (fst row))"

lemma rows_parse_simps [simp]: "rows_parse []" "rows_parse (r # rs) \<longleftrightarrow> isRecentEntry (snd r) = Some (fst r) \<and> rows_parse rs"
  by (auto simp: rows_parse_def)

lemma rows_parse_loaded: "rows_parse (load_recents key n s)"
  unfolding rows_parse_def load_recents_def by (meson in_set_takeD recents.loaded_parse)

lemma rows_parse_add: "rows_parse rows \<Longrightarrow> rows_parse (addRecentEntry rows e n)"
  unfolding rows_parse_def addRecentEntry_def by (auto dest!: in_set_takeD simp: parse_recent_json)

lemma rows_reload: "rows_parse rows \<Longrightarrow>
    List.map_filter (\<lambda>j. map_option (\<lambda>r. (r, j)) (isRecentEntry j)) (map snd rows) = rows"
  by (induction rows) (auto simp: map_filter_def)

lemma load_persisted:
  assumes "rows_parse rows" and "length rows \<le> n"
  shows "load_recents key n (persist_recents key rows s) = (if st_full s then load_recents key n s else rows)"
  using rows_reload [OF assms(1)] assms(2)
  by (simp add: persist_recents_def load_recents_def load_rows_def setItem_def catchE_def returnE_def)

lemma full_persisted [simp]: "st_full (persist_recents key rows s) = st_full s"
  by (simp add: persist_recents_def setItem_def catchE_def returnE_def)

definition keys_once :: "recents \<Rightarrow> bool" where
  "keys_once rows \<longleftrightarrow> distinct (map (recentKey \<circ> fst) rows)"

lemma keys_once_filter: "keys_once rows \<Longrightarrow> keys_once (filter P rows)"
  by (simp add: keys_once_def distinct_map_filter)

lemma keys_once_add: "keys_once rows \<Longrightarrow> keys_once (addRecentEntry rows e n)"
  unfolding addRecentEntry_def keys_once_def take_map [symmetric]
  by (intro distinct_take) (auto simp: distinct_map_filter)

lemma keys_once_remove: "keys_once rows \<Longrightarrow> keys_once (removeRecentEntry rows kind i)"
  by (simp add: removeRecentEntry_def keys_once_filter)

lemma add_length: "length (addRecentEntry rows e n) \<le> n"
  by (simp add: addRecentEntry_def)

lemma remove_length: "length (removeRecentEntry (load_recents key n s) kind i) \<le> n"
  unfolding removeRecentEntry_def
  by (rule le_trans [OF length_filter_le]) (simp add: load_recents_def)

lemma rows_parse_remove: "rows_parse rows \<Longrightarrow> rows_parse (removeRecentEntry rows kind i)"
  by (auto simp: rows_parse_def removeRecentEntry_def)

lemma recents_step_keeps:
  assumes "keys_once (load_recents key n s)" and "recents_step key n opn (shown, s) = (shown', s')"
  shows "keys_once (load_recents key n s')"
proof (cases opn)
  case (Push e)
  with assms show ?thesis
    by (auto simp: push_recent_def Let_def load_persisted rows_parse_add rows_parse_loaded add_length keys_once_add)
next
  case (Remove kind i)
  with assms show ?thesis
    by (auto simp: remove_recent_def Let_def load_persisted rows_parse_remove rows_parse_loaded remove_length keys_once_remove)
next
  case (DiskFull full)
  with assms show ?thesis by (auto simp: load_recents_def load_rows_def)
qed

lemma recents_keep:
  "keys_once (load_recents key n (snd st)) \<Longrightarrow> keys_once (load_recents key n (snd (fold (recents_step key n) ops st)))"
proof (induction ops arbitrary: st)
  case (Cons opn ops)
  obtain shown s where st: "st = (shown, s)" by (cases st)
  obtain shown' s' where step: "recents_step key n opn (shown, s) = (shown', s')" by (cases "recents_step key n opn (shown, s)")
  from recents_step_keeps [OF _ step] Cons.prems st have "keys_once (load_recents key n s')" by simp
  then show ?case using Cons.IH [of "(shown', s')"] st step by simp
qed simp

text \<open>
  C32. Whatever was opened and removed before, and whether or not the browser could store it, the recent list shown after an
  entry is opened has the entry first, holds at most the number it is capped at and no destination twice, and is what the
  next start loads when it could be stored.
\<close>

theorem recents_bounded:
  assumes "keys_once (load_recents key n s)" and "0 < n"
    and "fold (recents_step key n) (ops @ [Push e]) (shown0, s) = (shown, s')"
  shows "length shown \<le> n \<and> fst (hd shown) = e \<and> keys_once shown \<and>
         (\<not> st_full s' \<longrightarrow> load_recents key n s' = shown)"
proof -
  let ?st = "fold (recents_step key n) ops (shown0, s)"
  let ?old = "load_recents key n (snd ?st)"
  have once: "keys_once ?old" using recents_keep [of key n "(shown0, s)" ops] assms(1) by simp
  have "push_recent key n e (snd ?st) = (shown, s')"
    using assms(3) by (cases ?st) simp
  then have shown: "shown = addRecentEntry ?old e n" and s': "s' = persist_recents key shown (snd ?st)"
    by (auto simp: push_recent_def Let_def)
  have "fst (hd shown) = e" using shown assms(2) by (cases n) (simp_all add: addRecentEntry_def)
  moreover have "length shown \<le> n" "keys_once shown" "rows_parse shown"
    using shown once add_length keys_once_add rows_parse_add rows_parse_loaded by simp_all
  ultimately show ?thesis using load_persisted [of shown n key "snd ?st"] s' by simp
qed

theorem recents_bounded_witness:
  "length (fst (fold (recents_step ''r'' 2)
     [Push \<lparr> re_kind = ''w'', re_id = ''1'', re_title = ''A'', re_subtitle = None \<rparr>, DiskFull True,
      Push \<lparr> re_kind = ''w'', re_id = ''2'', re_title = ''B'', re_subtitle = None \<rparr>]
     ([], \<lparr> st_items = [(''r'', None)], st_full = False \<rparr>))) \<le> 2"
proof -
  let ?a = "\<lparr> re_kind = ''w'', re_id = ''1'', re_title = ''A'', re_subtitle = None \<rparr>"
  let ?b = "\<lparr> re_kind = ''w'', re_id = ''2'', re_title = ''B'', re_subtitle = None \<rparr>"
  let ?s = "\<lparr> st_items = [(''r'', None)], st_full = False \<rparr>"
  obtain shown s' where run: "fold (recents_step ''r'' 2) ([Push ?a, DiskFull True] @ [Push ?b]) ([], ?s) = (shown, s')"
    by (cases "fold (recents_step ''r'' 2) ([Push ?a, DiskFull True] @ [Push ?b]) ([], ?s)")
  have "keys_once (load_recents ''r'' 2 ?s)" by (simp add: load_recents_def load_rows_def keys_once_def)
  from recents_bounded [OF this _ run] run show ?thesis by simp
qed

section \<open>Groups and pages\<close>

lemma group_ids_snoc [simp]: "group_ids (gs @ [g]) = group_ids gs @ map ri_id (rg_items g)"
  by (simp add: group_ids_def)

definition shown_items :: "palette_scope option \<Rightarrow> string \<Rightarrow> palette_source list \<Rightarrow> result_item list" where
  "shown_items scope query sources = concat (map (\<lambda>src. filterItems (pl_items src) query) (filter (source_shows scope) sources))"

lemma add_sources_spec:
  assumes "\<And>src. src \<in> set sources \<Longrightarrow> distinct (map ri_id (pl_items src))"
    and "distinct (group_ids groups)" and "\<forall>g \<in> set groups. rg_items g \<noteq> []"
  shows "distinct (group_ids (add_sources scope query sources groups)) \<and>
    set (group_ids (add_sources scope query sources groups)) = set (group_ids groups) \<union> ri_id ` set (shown_items scope query sources) \<and>
    (\<forall>g \<in> set (add_sources scope query sources groups). rg_items g \<noteq> [])"
  using assms
proof (induction sources arbitrary: groups)
  case Nil
  then show ?case by (simp add: shown_items_def)
next
  case (Cons src sources)
  show ?case
  proof (cases "source_shows scope src")
    case False
    then show ?thesis using Cons by (simp add: shown_items_def)
  next
    case True
    let ?items = "filter (\<lambda>i. ri_id i \<notin> set (group_ids groups)) (filterItems (pl_items src) query)"
    let ?groups = "if ?items \<noteq> [] then groups @ [\<lparr> rg_id = pl_id src, rg_heading = pl_heading src, rg_items = ?items \<rparr>] else groups"
    have once: "distinct (map ri_id (filterItems (pl_items src) query))"
      using Cons.prems(1) [of src] by (simp add: filterItems_def distinct_map_filter)
    have ids: "set (group_ids ?groups) = set (group_ids groups) \<union> ri_id ` set (filterItems (pl_items src) query)"
      by (auto simp: filter_empty_conv)
    have "distinct (group_ids ?groups)"
      using Cons.prems(2) once by (auto simp: distinct_map_filter)
    moreover have "\<forall>g \<in> set ?groups. rg_items g \<noteq> []" using Cons.prems(3) by auto
    moreover have "\<And>s. s \<in> set sources \<Longrightarrow> distinct (map ri_id (pl_items s))" using Cons.prems(1) by simp
    ultimately have "distinct (group_ids (add_sources scope query sources ?groups)) \<and>
      set (group_ids (add_sources scope query sources ?groups)) =
        set (group_ids ?groups) \<union> ri_id ` set (shown_items scope query sources) \<and>
      (\<forall>g \<in> set (add_sources scope query sources ?groups). rg_items g \<noteq> [])"
      by (intro Cons.IH)
    moreover have "add_sources scope query (src # sources) groups = add_sources scope query sources ?groups"
      using True by (simp add: Let_def)
    moreover have "shown_items scope query (src # sources) = filterItems (pl_items src) query @ shown_items scope query sources"
      using True by (simp add: shown_items_def)
    ultimately show ?thesis unfolding ids by (simp add: image_Un Un_assoc)
  qed
qed

text \<open>
  Also shown. The palette never shows a result twice, in one group or in two, shows every match of a source its scope admits and
  nothing else but the recent entries of the empty view, and has no empty group.
\<close>

theorem palette_groups_exact:
  assumes "distinct (map ri_id recents)" and "\<And>src. src \<in> set sources \<Longrightarrow> distinct (map ri_id (pl_items src))"
    and "parsePaletteQuery raw = (scope, query)"
  shows "distinct (group_ids (buildCommandPaletteGroups raw recents sources)) \<and>
    set (group_ids (buildCommandPaletteGroups raw recents sources)) =
      (if scope = None \<and> query = [] then ri_id ` set recents else {}) \<union> ri_id ` set (shown_items scope query sources) \<and>
    (\<forall>g \<in> set (buildCommandPaletteGroups raw recents sources). rg_items g \<noteq> [])"
proof -
  let ?start = "if scope = None \<and> query = [] \<and> recents \<noteq> []
    then [\<lparr> rg_id = ''recents'', rg_heading = ''Recent'', rg_items = recents \<rparr>] else []"
  have "distinct (group_ids ?start)" "\<forall>g \<in> set ?start. rg_items g \<noteq> []"
    and "set (group_ids ?start) = (if scope = None \<and> query = [] then ri_id ` set recents else {})"
    using assms(1) by (auto simp: group_ids_def)
  with add_sources_spec [of sources ?start scope query] assms(2,3) show ?thesis
    by (simp add: buildCommandPaletteGroups_def)
qed

theorem palette_groups_exact_witness:
  "let i = (\<lambda>x. \<lparr> ri_id = x, ri_title = x, ri_subtitle = None, ri_searchText = None \<rparr>);
       src = (\<lambda>x xs. \<lparr> pl_id = x, pl_heading = x, pl_items = map i xs, pl_kind = None \<rparr>)
   in distinct (group_ids (buildCommandPaletteGroups [] [i ''a''] [src ''p'' [''a'', ''b''], src ''q'' [''b'']]))"
  unfolding Let_def
  by (rule conjunct1 [OF palette_groups_exact [of _ _ "[]" None "[]"]])
     (auto simp: parsePaletteQuery_def PALETTE_SCOPES_def trim_def trim_start_def trim_end_def)

text \<open>
  Also shown. Reading the pages of a search one after another, until a page says there is no more, gives every match once and in
  order.
\<close>

theorem search_pages_complete:
  assumes "trim query \<noteq> []" and "0 < n"
  shows "concat (map (\<lambda>k. sp_results (searchEntities query sources n (k * n))) [0..<m]) = take (m * n) (matched_entities sources query) \<and>
    (\<not> sp_hasMore (searchEntities query sources n (m * n)) \<longrightarrow>
       concat (map (\<lambda>k. sp_results (searchEntities query sources n (k * n))) [0..<Suc m]) = matched_entities sources query)"
proof -
  have pages: "concat (map (\<lambda>k. sp_results (searchEntities query sources n (k * n))) [0..<j]) = take (j * n) (matched_entities sources query)" for j
  proof (induction j)
    case (Suc j)
    then show ?case
      using assms(1) by (simp add: searchEntities_def Let_def take_add add.commute [of n])
  qed simp
  show ?thesis
    using pages [of m] pages [of "Suc m"] assms(1) by (simp add: searchEntities_def Let_def)
qed

theorem search_pages_complete_witness:
  "concat (map (\<lambda>k. sp_results (searchEntities ''a'' [(''c'', [(''1'', ''a''), (''2'', ''Ba''), (''3'', ''x'')])] 1 (k * 1))) [0..<1]) =
     take (1 * 1) (matched_entities [(''c'', [(''1'', ''a''), (''2'', ''Ba''), (''3'', ''x'')])] ''a'')"
  by (rule conjunct1 [OF search_pages_complete]) code_simp+

text \<open>Closed, the palette keeps no query, and setting it to what it is tells no listener.\<close>

lemma palette_closed_empty: "po_open s \<Longrightarrow> po_query (setCommandPaletteOpen False s) = []"
  by (simp add: setCommandPaletteOpen_def)

text \<open>An upload asked for elsewhere is taken once, by the page it leads to.\<close>

lemma upload_taken_once:
  "requestLibraryUpload False p = (es, p') \<Longrightarrow>
     consumePendingLibraryUpload p' = (True, p' \<lparr> pendingUpload := False \<rparr>) \<and>
     fst (consumePendingLibraryUpload (snd (consumePendingLibraryUpload p'))) = False"
  by (auto simp: requestLibraryUpload_def consumePendingLibraryUpload_def)

end
