(* ===== verification/Session.thy ===== *)
theory Session
  imports Stock_Hub Settings_Api Inference_Routes Sidecar_Config
begin

text \<open>
  Who is signed in and what they may open, \<open>apps/web/src\<close>: the session and the ways to sign in (\<open>session.ts\<close>), the verdict of the
  first login (\<open>onboarding.ts\<close>), the gates of the settings (\<open>settings/access.ts\<close>, \<open>settings-access.ts\<close>), the workbenches listed
  (\<open>chat/workbench-tenants.ts\<close>, \<open>insights-workbench-scope.ts\<close>), the flag of a skipped provider (\<open>provider-skip.ts\<close>), the
  theme (\<open>theme-store.ts\<close>) and the models of a local server (\<open>onboarding/ollama-tags.ts\<close>).
\<close>

section \<open>The session\<close>

record session_user =
  su_id :: string
  su_name :: string
  su_email :: string

datatype session_state = SessionLoading | SignedOut | SessionError string | SignedIn session_user

definition parse_user :: "json \<Rightarrow> session_user option" where
  "parse_user j =
     (case (str_field ''id'' j, str_field ''name'' j, str_field ''email'' j) of
        (Some i, Some n, Some e) \<Rightarrow> Some \<lparr> su_id = i, su_name = n, su_email = e \<rparr>
      | _ \<Rightarrow> None)"

definition session_payload :: "json \<Rightarrow> session_user option" where
  "session_payload j = Option.bind (field ''user'' j) parse_user"

definition unreached_message :: string where
  "unreached_message = ''We couldn't reach Workbench just now. Try again in a moment.''"

definition offline_message :: string where
  "offline_message = ''You're offline, or Workbench isn't reachable. We'll keep trying.''"

definition session_of :: "string + response \<Rightarrow> session_state" where
  "session_of answer =
     (case answer of
        Inl _ \<Rightarrow> SessionError offline_message
      | Inr r \<Rightarrow>
          if rs_status r = 401 then SignedOut
          else if \<not> resp_ok r then SessionError unreached_message
          else (case rs_body r of
                  None \<Rightarrow> SessionError offline_message
                | Some j \<Rightarrow>
                    if j = JNull then SignedOut
                    else (case session_payload j of None \<Rightarrow> SignedOut | Some u \<Rightarrow> SignedIn u)))"

definition fetchSession :: "'w hub \<Rightarrow> ('w, session_state) client" where
  "fetchSession hub = bindE (fetch_raw hub (get ''/api/auth/get-session'')) (\<lambda>answer. returnE (session_of answer))"

section \<open>Signing in\<close>

datatype auth_result = AuthOk session_user | AuthFailed string

definition signing_in_failed :: string where
  "signing_in_failed = ''Something went wrong signing you in. Try again.''"

text \<open>\<open>x-retry-after\<close> of a response is an argument, and so is the text of a number.\<close>

definition rateLimitedResult :: "(js_value \<Rightarrow> string) \<Rightarrow> string option \<Rightarrow> auth_result" where
  "rateLimitedResult show header =
     (let seconds = (case header of None \<Rightarrow> Finite 0 | Some h \<Rightarrow> number_of h) in
      if positive seconds
      then AuthFailed (''Too many sign-in attempts. Try again in '' @ show seconds @ '' second'' @
                       (if seconds = Finite 1 then [] else ''s'') @ ''.'')
      else AuthFailed ''Too many sign-in attempts. Please wait a moment and try again.'')"

definition failure_message :: "json \<Rightarrow> string" where
  "failure_message payload = (case str_field ''message'' payload of None \<Rightarrow> signing_in_failed | Some m \<Rightarrow> m)"

text \<open>A body that is not JSON is taken for \<open>null\<close>.\<close>

definition payload_of :: "response \<Rightarrow> json" where
  "payload_of r = (case rs_body r of None \<Rightarrow> JNull | Some j \<Rightarrow> j)"

definition postAuth ::
  "'w hub \<Rightarrow> (js_value \<Rightarrow> string) \<Rightarrow> (response \<Rightarrow> string option) \<Rightarrow> string \<Rightarrow> json \<Rightarrow> ('w, auth_result) client" where
  "postAuth hub show retry_after path body =
     bindE (fetch_raw hub (post path body)) (\<lambda>answer.
       returnE (case answer of
          Inl _ \<Rightarrow> AuthFailed signing_in_failed
        | Inr r \<Rightarrow>
            if rs_status r = 429 then rateLimitedResult show (retry_after r)
            else if \<not> resp_ok r then AuthFailed (failure_message (payload_of r))
            else (case session_payload (payload_of r) of
                    None \<Rightarrow> AuthFailed signing_in_failed
                  | Some u \<Rightarrow> AuthOk u)))"

definition signIn ::
  "'w hub \<Rightarrow> (js_value \<Rightarrow> string) \<Rightarrow> (response \<Rightarrow> string option) \<Rightarrow> string \<Rightarrow> string \<Rightarrow> ('w, auth_result) client" where
  "signIn hub show retry_after email password =
     postAuth hub show retry_after ''/api/auth/sign-in/email'' (JObj [(''email'', JStr email), (''password'', JStr password)])"

definition signUp ::
  "'w hub \<Rightarrow> (js_value \<Rightarrow> string) \<Rightarrow> (response \<Rightarrow> string option) \<Rightarrow> string \<Rightarrow> string \<Rightarrow> ('w, auth_result) client" where
  "signUp hub show retry_after email password =
     postAuth hub show retry_after ''/api/auth/sign-up/email''
       (JObj [(''name'', JStr (hd (split_on CHR ''@'' email))), (''email'', JStr email), (''password'', JStr password)])"

text \<open>With another service: the answer names the address the browser goes on to, and nothing is left to show.\<close>

datatype social_result = GoesTo string | Shows auth_result

definition signInSocial ::
  "'w hub \<Rightarrow> (js_value \<Rightarrow> string) \<Rightarrow> (response \<Rightarrow> string option) \<Rightarrow> string \<Rightarrow> string \<Rightarrow> ('w, social_result) client" where
  "signInSocial hub show retry_after origin provider =
     bindE (fetch_raw hub (post ''/api/auth/sign-in/social''
         (JObj [(''provider'', JStr provider), (''callbackURL'', JStr origin)]))) (\<lambda>answer.
       returnE (case answer of
          Inl _ \<Rightarrow> Shows (AuthFailed signing_in_failed)
        | Inr r \<Rightarrow>
            if rs_status r = 429 then Shows (rateLimitedResult show (retry_after r))
            else if \<not> resp_ok r then Shows (AuthFailed (failure_message (payload_of r)))
            else (case str_field ''url'' (payload_of r) of
                    None \<Rightarrow> Shows (AuthFailed signing_in_failed)
                  | Some url \<Rightarrow> GoesTo url)))"

definition signOut :: "'w hub \<Rightarrow> ('w, bool) client" where
  "signOut hub = bindE (fetch_raw hub (post ''/api/auth/sign-out'' (JObj [])))
     (\<lambda>answer. returnE (case answer of Inl _ \<Rightarrow> False | Inr r \<Rightarrow> resp_ok r))"

section \<open>The first login\<close>

datatype credential_probe = ProbeActive | ProbeNone | ProbeError

definition credentials_page :: "json \<Rightarrow> string list option" where
  "credentials_page = page_of (str_field ''status'')"

definition hasActiveCredential :: "'w hub \<Rightarrow> string \<Rightarrow> ('w, credential_probe) client" where
  "hasActiveCredential hub tenantId =
     bindE (fetch_raw hub (get (''/api/tenants/'' @ tenantId @ ''/credentials''))) (\<lambda>answer.
       returnE (case answer of
          Inl _ \<Rightarrow> ProbeError
        | Inr r \<Rightarrow>
            if \<not> resp_ok r then ProbeError
            else (case credentials_page (payload_of r) of
                    None \<Rightarrow> ProbeError
                  | Some ss \<Rightarrow> if ''active'' \<in> set ss then ProbeActive else ProbeNone)))"

definition FALLBACK_ERROR_MESSAGE :: string where
  "FALLBACK_ERROR_MESSAGE = ''Setting up your workbench hit a snag -- we're on it. Try again in a moment.''"

text \<open>\<open>report\<close> is the reference id the error sink answers for a caught failure.\<close>

datatype provision_outcome = ExistingMember | NeedsOnboarding | ProvisionError string string

definition triggerFirstLoginProvisioning ::
  "'w hub \<Rightarrow> string \<Rightarrow> (js_error \<Rightarrow> string) \<Rightarrow> 'w net \<Rightarrow> (provision_outcome \<times> 'w net) option" where
  "triggerFirstLoginProvisioning hub summary report n =
     map_option (\<lambda>(r, n').
       case r of
         Inl e \<Rightarrow> (ProvisionError FALLBACK_ERROR_MESSAGE (report e), n')
       | Inr owned \<Rightarrow>
           (case List.find (\<lambda>t. ht_parentId t = None) owned of
              None \<Rightarrow> (NeedsOnboarding, n')
            | Some primary \<Rightarrow>
                (case hasActiveCredential hub (ht_id primary) n' of
                   (Inl e, n'') \<Rightarrow> (ProvisionError FALLBACK_ERROR_MESSAGE (report e), n'')
                 | (Inr p, n'') \<Rightarrow>
                     ((case p of
                         ProbeError \<Rightarrow> ProvisionError FALLBACK_ERROR_MESSAGE
                           (report (error_of ''Error'' ''Checking your model access hit a snag.'' None))
                       | ProbeActive \<Rightarrow> ExistingMember
                       | ProbeNone \<Rightarrow> NeedsOnboarding), n''))))
       (findOwnedTenants hub summary n)"

datatype readiness = Ready | ChatReady | Preparing | RouteGone | ReadinessError string

definition error_envelope :: "json \<Rightarrow> (string \<times> string) option" where
  "error_envelope j =
     (case field ''error'' j of
        None \<Rightarrow> None
      | Some e \<Rightarrow>
          (case (str_field ''code'' e, str_field ''userMessage'' e, str_field ''refId'' e) of
             (Some _, Some m, Some r) \<Rightarrow> Some (m, r)
           | _ \<Rightarrow> None))"

definition provisioning_status :: "json \<Rightarrow> (string \<times> bool) option" where
  "provisioning_status j =
     (case (str_field ''kind'' j, field ''setupAgentReady'' j) of
        (Some k, Some (JBool b)) \<Rightarrow> if k \<in> {''ready'', ''provisioning''} then Some (k, b) else None
      | _ \<Rightarrow> None)"

definition check_failed :: "string \<Rightarrow> readiness" where
  "check_failed ref = ReadinessError (''Couldn't check your agent. Try again. Reference: '' @ ref)"

definition fetchAgentReadiness :: "'w hub \<Rightarrow> (js_error \<Rightarrow> string) \<Rightarrow> string \<Rightarrow> ('w, readiness) client" where
  "fetchAgentReadiness hub report query =
     bindE (fetch_raw hub (get (''/api/onboarding/provisioning-status?'' @ query))) (\<lambda>answer.
       returnE (case answer of
          Inl m \<Rightarrow> check_failed (report (FetchError m))
        | Inr r \<Rightarrow>
            if rs_status r = 404 \<or> rs_status r = 410 then RouteGone
            else (case rs_body r of
                    None \<Rightarrow> check_failed (report BadJson)
                  | Some j \<Rightarrow>
                      if \<not> resp_ok r
                      then (case error_envelope j of
                              Some (m, ref) \<Rightarrow> ReadinessError (m @ '' Reference: '' @ ref)
                            | None \<Rightarrow> check_failed (report (error_of ''Error''
                                (''Agent readiness request failed ('' @ dec (rs_status r) @ '')'') None)))
                      else (case provisioning_status j of
                              None \<Rightarrow> check_failed (report (error_of ''Error'' ''Invalid agent readiness response'' None))
                            | Some (k, b) \<Rightarrow> if k = ''ready'' then Ready else if b then ChatReady else Preparing))))"

section \<open>The gates of the settings\<close>

datatype section_access = AccessLoading | AccessAllowed | AccessDenied | AccessError

text \<open>\<open>evaluate_grant\<close> answers whether the effect is to allow.\<close>

definition probeSectionAccess :: "'w hub \<Rightarrow> row_types \<Rightarrow> string \<Rightarrow> string \<Rightarrow> string \<Rightarrow> ('w, section_access) client" where
  "probeSectionAccess hub ty tenantId principalId resource =
     catchE (bindE (evaluate_grant hub ty tenantId principalId resource ''read'')
               (\<lambda>allowed. returnE (if allowed then AccessAllowed else AccessDenied)))
            (\<lambda>_. returnE AccessError)"

definition coalesceSectionAccess :: "section_access \<Rightarrow> section_access \<Rightarrow> section_access" where
  "coalesceSectionAccess previous next =
     (if next = AccessError \<and> (previous = AccessAllowed \<or> previous = AccessDenied) then previous else next)"

record tenancy_access =
  acc_people :: section_access
  acc_roles :: section_access
  acc_grants :: section_access
  acc_credentials :: section_access

definition LOADING_ACCESS :: tenancy_access where
  "LOADING_ACCESS = \<lparr> acc_people = AccessLoading, acc_roles = AccessLoading, acc_grants = AccessLoading,
     acc_credentials = AccessLoading \<rparr>"

definition coalesceTenancyAccess :: "tenancy_access option \<Rightarrow> tenancy_access \<Rightarrow> tenancy_access" where
  "coalesceTenancyAccess previous next =
     (let prior = (case previous of None \<Rightarrow> LOADING_ACCESS | Some p \<Rightarrow> p) in
      \<lparr> acc_people = coalesceSectionAccess (acc_people prior) (acc_people next),
        acc_roles = coalesceSectionAccess (acc_roles prior) (acc_roles next),
        acc_grants = coalesceSectionAccess (acc_grants prior) (acc_grants next),
        acc_credentials = coalesceSectionAccess (acc_credentials prior) (acc_credentials next) \<rparr>)"

text \<open>The query of a tenant and a principal, once both are known, given what it answered last.\<close>

definition settings_access_query ::
  "'w hub \<Rightarrow> row_types \<Rightarrow> string option \<Rightarrow> string option \<Rightarrow> tenancy_access option \<Rightarrow> ('w, tenancy_access) client" where
  "settings_access_query hub ty tenantId principalId previous =
     (case (tenantId, principalId) of
        (Some t, Some p) \<Rightarrow>
          bindE (allE (map (probeSectionAccess hub ty t p) [''principal'', ''role'', ''grant'', ''credential'']))
            (\<lambda>as. returnE (coalesceTenancyAccess previous
               \<lparr> acc_people = as ! 0, acc_roles = as ! 1, acc_grants = as ! 2, acc_credentials = as ! 3 \<rparr>))
      | _ \<Rightarrow> returnE LOADING_ACCESS)"

section \<open>Workbenches\<close>

record workbench_row =
  wb_id :: string
  wb_title :: string
  wb_slug :: string
  wb_tenancy :: "string option"

definition listWorkbenchTenants ::
  "'w hub \<Rightarrow> string \<Rightarrow> string \<Rightarrow> 'w net \<Rightarrow> ((js_error + workbench_row list) \<times> 'w net) option" where
  "listWorkbenchTenants hub summary tenantId n =
     map_option (\<lambda>(r, n'). (map_sum id (\<lambda>ts.
         map (\<lambda>t. \<lparr> wb_id = ht_id t, wb_title = ht_name t, wb_slug = ht_slug t, wb_tenancy = Some (ht_id t) \<rparr>)
           (filter (\<lambda>t. ht_parentId t = Some tenantId) ts)) r, n'))
       (findOwnedTenants hub summary n)"

datatype insights_scope = ScopeNotFound | ScopeLegacy | ScopeReady string string

definition resolveWorkbenchInsightsScope :: "workbench_row list \<Rightarrow> string \<Rightarrow> insights_scope" where
  "resolveWorkbenchInsightsScope workbenches workbenchId =
     (case List.find (\<lambda>w. wb_id w = workbenchId) workbenches of
        None \<Rightarrow> ScopeNotFound
      | Some w \<Rightarrow> (case wb_tenancy w of None \<Rightarrow> ScopeLegacy | Some t \<Rightarrow> ScopeReady t (wb_title w)))"

section \<open>A skipped provider and the theme\<close>

text \<open>Local storage of plain texts; it throws on every access where it is disabled.\<close>

record text_storage =
  tx_items :: "string \<Rightarrow> string option"
  tx_disabled :: bool

definition provider_skip_key :: "string \<Rightarrow> string" where
  "provider_skip_key userId = ''corbits-provider-skipped:'' @ userId"

definition isProviderSkipped :: "string \<Rightarrow> text_storage \<Rightarrow> bool" where
  "isProviderSkipped userId s \<longleftrightarrow> \<not> tx_disabled s \<and> tx_items s (provider_skip_key userId) = Some ''1''"

definition setProviderSkipped :: "string \<Rightarrow> bool \<Rightarrow> text_storage \<Rightarrow> text_storage" where
  "setProviderSkipped userId skipped s =
     (if tx_disabled s then s
      else s \<lparr> tx_items := (tx_items s)(provider_skip_key userId := (if skipped then Some ''1'' else None)) \<rparr>)"

definition clearProviderSkipWhenUsable :: "string \<Rightarrow> model_info list \<Rightarrow> text_storage \<Rightarrow> text_storage" where
  "clearProviderSkipWhenUsable userId models s =
     (if isProviderSkipped userId s \<and> hasUsableModel models then setProviderSkipped userId False s else s)"

datatype theme = Light | Dark | Canvas

definition THEMES :: "theme list" where "THEMES = [Light, Dark, Canvas]"

fun theme_text :: "theme \<Rightarrow> string" where
  "theme_text Light = ''light''"
| "theme_text Dark = ''dark''"
| "theme_text Canvas = ''canvas''"

definition isTheme :: "string \<Rightarrow> theme option" where
  "isTheme value = List.find (\<lambda>t. theme_text t = value) THEMES"

definition DEFAULT_KEY :: string where "DEFAULT_KEY = ''corbits-theme''"
definition LAST_KEY :: string where "LAST_KEY = ''corbits-theme:last''"

text \<open>The store with the attribute and the classes of the root element it alone writes.\<close>

record theme_store =
  storageKey :: string
  current :: theme
  data_theme :: string
  class_dark :: bool
  class_light :: bool
  color_scheme :: string

definition readStored :: "string \<Rightarrow> text_storage \<Rightarrow> theme" where
  "readStored key s =
     (if tx_disabled s then Light
      else (case tx_items s key of None \<Rightarrow> Light | Some raw \<Rightarrow> (case isTheme raw of None \<Rightarrow> Light | Some t \<Rightarrow> t)))"

definition apply_theme :: "theme \<Rightarrow> theme_store \<Rightarrow> theme_store" where
  "apply_theme t st = st \<lparr> data_theme := theme_text t, class_dark := (t = Dark), class_light := (t \<noteq> Dark),
     color_scheme := (if t = Dark then ''dark'' else ''light'') \<rparr>"

definition commit_theme :: "theme \<Rightarrow> theme_store \<Rightarrow> theme_store" where
  "commit_theme t st = apply_theme t (st \<lparr> current := t \<rparr>)"

definition setThemeStorageKey :: "string \<Rightarrow> text_storage \<Rightarrow> theme_store \<Rightarrow> theme_store" where
  "setThemeStorageKey key s st =
     (if key \<noteq> storageKey st then commit_theme (readStored key s) (st \<lparr> storageKey := key \<rparr>) else st)"

definition setTheme :: "theme \<Rightarrow> theme_store \<times> text_storage \<Rightarrow> theme_store \<times> text_storage" where
  "setTheme t = (\<lambda>(st, s).
     (commit_theme t st,
      if tx_disabled s then s
      else s \<lparr> tx_items := (tx_items s)(storageKey st \<mapsto> theme_text t, LAST_KEY \<mapsto> theme_text t) \<rparr>))"

fun index_in :: "'a \<Rightarrow> 'a list \<Rightarrow> nat" where
  "index_in x [] = 0"
| "index_in x (y # ys) = (if x = y then 0 else Suc (index_in x ys))"

definition cycleTheme :: "theme_store \<times> text_storage \<Rightarrow> theme_store \<times> text_storage" where
  "cycleTheme ss = setTheme (THEMES ! ((index_in (current (fst ss)) THEMES + 1) mod length THEMES)) ss"

definition boot_theme :: "text_storage \<Rightarrow> theme_store" where
  "boot_theme s = commit_theme (readStored DEFAULT_KEY s)
     \<lparr> storageKey = DEFAULT_KEY, current = Light, data_theme = [], class_dark = False, class_light = False, color_scheme = [] \<rparr>"

datatype theme_op = Pick theme | Cycle | UseKey string

fun theme_step :: "theme_op \<Rightarrow> theme_store \<times> text_storage \<Rightarrow> theme_store \<times> text_storage" where
  "theme_step (Pick t) ss = setTheme t ss"
| "theme_step Cycle ss = cycleTheme ss"
| "theme_step (UseKey key) (st, s) = (setThemeStorageKey key s st, s)"

section \<open>A local model server\<close>

definition drop_v1 :: "string \<Rightarrow> string" where
  "drop_v1 s =
     (let n = length s in
      if 4 \<le> n \<and> drop (n - 4) s = ''/v1/'' then take (n - 4) s
      else if 3 \<le> n \<and> drop (n - 3) s = ''/v1'' then take (n - 3) s
      else s)"

definition drop_last_slashes :: "string \<Rightarrow> string" where
  "drop_last_slashes s = rev (dropWhile (\<lambda>c. c = CHR ''/'') (rev s))"

definition ollamaOrigin :: "string \<Rightarrow> string" where
  "ollamaOrigin baseURL = drop_last_slashes (drop_v1 (trim baseURL))"

definition tags_response :: "json \<Rightarrow> string list option" where
  "tags_response j = Option.bind (field ''models'' j) (array_of (str_field ''name''))"

definition fetchOllamaTags :: "'w hub \<Rightarrow> string \<Rightarrow> ('w, string list) client" where
  "fetchOllamaTags hub baseURL =
     (let origin = ollamaOrigin baseURL in
      if origin = [] then throwE (error_of ''OllamaTagsError'' ''Enter a base URL first.'' None)
      else bindE (fetch_raw hub (get (origin @ ''/api/tags''))) (\<lambda>answer.
        case answer of
          Inl m \<Rightarrow> throwE (error_of ''OllamaTagsError'' (''Couldn't reach Ollama at '' @ origin @ '': '' @ m) None)
        | Inr r \<Rightarrow>
            if \<not> resp_ok r
            then throwE (error_of ''OllamaTagsError''
              (''Ollama at '' @ origin @ '' answered '' @ dec (rs_status r) @ '' for /api/tags.'') None)
            else (case Option.bind (rs_body r) tags_response of
                    None \<Rightarrow> throwE (error_of ''OllamaTagsError''
                      (''Unexpected response shape from '' @ origin @ ''/api/tags.'') None)
                  | Some names \<Rightarrow> returnE names)))"

section \<open>What is shown of a session\<close>

text \<open>
  A failure to reach the hub never signs a person out: the session is signed out only by the hub's own answer, a 401 or a
  successful answer that holds no session.
\<close>

lemma signed_out_by_hub:
  "fetchSession hub n = (Inr SignedOut, n') \<longleftrightarrow>
     (\<exists>r w. hub (get ''/api/auth/get-session'') (server n) = (Inr r, w) \<and>
        (rs_status r = 401 \<or> resp_ok r \<and> (\<exists>j. rs_body r = Some j \<and> session_payload j = None)) \<and>
        n' = n \<lparr> server := w, sent := sent n @ [(get ''/api/auth/get-session'', Inr r)] \<rparr>)"
proof -
  have nul: "session_payload JNull = None" by (simp add: session_payload_def)
  show ?thesis
    by (cases "hub (get ''/api/auth/get-session'') (server n)")
       (auto simp: fetchSession_def fetch_raw_def bindE_def returnE_def session_of_def nul
             split: sum.splits option.splits if_splits)
qed

text \<open>Whether the settings show a section: the last probe that decided, whatever failed since.\<close>

fun last_decided :: "section_access \<Rightarrow> section_access list \<Rightarrow> section_access" where
  "last_decided a [] = a"
| "last_decided a (p # ps) =
     (if p = AccessError \<and> (a = AccessAllowed \<or> a = AccessDenied) then last_decided a ps else last_decided p ps)"

definition decided :: "section_access \<Rightarrow> bool" where
  "decided a \<longleftrightarrow> a = AccessAllowed \<or> a = AccessDenied"

lemma coalesce_decided:
  "decided a \<Longrightarrow> \<forall>p \<in> set ps. p = AccessError \<Longrightarrow> fold (\<lambda>p a. coalesceSectionAccess a p) ps a = a"
  by (induction ps) (auto simp: coalesceSectionAccess_def decided_def)

text \<open>
  Also shown. Over any sequence of probes a gate shows what the last one that got an answer said, allowed or denied, however many
  failed after it; it is an error only while none has got an answer.
\<close>

theorem gate_keeps_last_answer:
  assumes "decided a" and "\<forall>p \<in> set failed. p = AccessError"
  shows "fold (\<lambda>p held. coalesceSectionAccess held p) (earlier @ a # failed) start = a"
  using coalesce_decided [OF assms] assms(1)
  by (auto simp: coalesceSectionAccess_def decided_def)

theorem gate_keeps_last_answer_witness:
  "fold (\<lambda>p held. coalesceSectionAccess held p) ([AccessError, AccessDenied] @ AccessAllowed # [AccessError, AccessError]) AccessLoading =
     AccessAllowed"
  by (rule gate_keeps_last_answer) (simp_all add: decided_def)

text \<open>
  Also shown. The first login only reads, and it is sent to set up a workbench only on the hub's word: no primary workbench among the
  tenants the hub listed, or a page of its credentials that names no active one. A read that fails is an error, never a
  missing key.
\<close>

theorem first_login_on_the_hubs_word:
  assumes "triggerFirstLoginProvisioning hub summary report n = Some (out, n')"
  shows "(out = NeedsOnboarding \<longrightarrow>
      (\<exists>owned m. findOwnedTenants hub summary n = Some (Inr owned, m) \<and>
         ((\<forall>t \<in> set owned. ht_parentId t \<noteq> None) \<or>
          (\<exists>t r w ss. t \<in> set owned \<and> ht_parentId t = None \<and>
             hub (get (''/api/tenants/'' @ ht_id t @ ''/credentials'')) (server m) = (Inr r, w) \<and> resp_ok r \<and>
             credentials_page (payload_of r) = Some ss \<and> ''active'' \<notin> set ss)))) \<and>
    (out = ExistingMember \<longrightarrow>
      (\<exists>owned m t r w ss. findOwnedTenants hub summary n = Some (Inr owned, m) \<and> t \<in> set owned \<and> ht_parentId t = None \<and>
         hub (get (''/api/tenants/'' @ ht_id t @ ''/credentials'')) (server m) = (Inr r, w) \<and> resp_ok r \<and>
         credentials_page (payload_of r) = Some ss \<and> ''active'' \<in> set ss))"
proof -
  obtain q m where q: "findOwnedTenants hub summary n = Some (q, m)"
    using assms by (auto simp: triggerFirstLoginProvisioning_def)
  show ?thesis
  proof (cases q)
    case (Inl e)
    with assms q show ?thesis by (auto simp: triggerFirstLoginProvisioning_def)
  next
    case (Inr owned)
    show ?thesis
    proof (cases "List.find (\<lambda>t. ht_parentId t = None) owned")
      case None
      then have "\<forall>t \<in> set owned. ht_parentId t \<noteq> None" by (auto simp: find_None_iff)
      moreover have "out = NeedsOnboarding" using assms q Inr None by (simp add: triggerFirstLoginProvisioning_def)
      ultimately show ?thesis using q Inr by auto
    next
      case (Some t)
      then have t: "t \<in> set owned" "ht_parentId t = None" by (auto dest: find_SomeD)
      obtain a w where a: "hub (get (''/api/tenants/'' @ ht_id t @ ''/credentials'')) (server m) = (a, w)"
        by (cases "hub (get (''/api/tenants/'' @ ht_id t @ ''/credentials'')) (server m)")
      from assms q Inr Some a t show ?thesis
        by (auto simp: triggerFirstLoginProvisioning_def hasActiveCredential_def fetch_raw_def bindE_def returnE_def
              split: sum.splits option.splits if_splits)
    qed
  qed
qed

section \<open>The theme shown is the theme kept\<close>

definition root_shows :: "theme \<Rightarrow> theme_store \<Rightarrow> bool" where
  "root_shows t st \<longleftrightarrow> data_theme st = theme_text t \<and> class_dark st = (t = Dark) \<and> class_light st = (t \<noteq> Dark) \<and>
     color_scheme st = (if t = Dark then ''dark'' else ''light'')"

definition theme_inv :: "theme_store \<times> text_storage \<Rightarrow> bool" where
  "theme_inv = (\<lambda>(st, s). root_shows (current st) st \<and> (\<not> tx_disabled s \<longrightarrow> readStored (storageKey st) s = current st))"

lemma isTheme_text [simp]: "isTheme (theme_text t) = Some t"
  by (cases t) (simp_all add: isTheme_def THEMES_def)

lemma commit_theme_fields [simp]:
  "storageKey (commit_theme t st) = storageKey st" "current (commit_theme t st) = t" "root_shows t (commit_theme t st)"
  by (simp_all add: commit_theme_def apply_theme_def root_shows_def)

lemma boot_theme_inv: "theme_inv (boot_theme s, s)"
  by (simp add: theme_inv_def boot_theme_def)

lemma setTheme_inv: "theme_inv (setTheme t ss)"
  by (cases ss) (simp add: theme_inv_def setTheme_def readStored_def)

lemma theme_step_inv: "theme_inv ss \<Longrightarrow> theme_inv (theme_step op ss)"
proof (cases "(op, ss)" rule: theme_step.cases)
  case (3 key st s)
  assume "theme_inv ss"
  with 3 show ?thesis by (auto simp: theme_inv_def setThemeStorageKey_def)
qed (simp_all add: setTheme_inv cycleTheme_def)

text \<open>
  Also shown. After the page has loaded and through any themes picked, cycled and keys taken over, the root element carries
  the attribute and classes of exactly the current theme, and while the storage works the next load under that key
  shows the same theme.
\<close>

theorem theme_shown_is_kept:
  "theme_inv (fold theme_step ops (boot_theme s, s))"
  by (rule fold_invariant [where Q = "\<lambda>_. True" and P = theme_inv]) (simp_all add: boot_theme_inv theme_step_inv)

text \<open>A flag set for one person is read back for that person and changes nobody else's.\<close>

lemma provider_skip_roundtrip:
  "isProviderSkipped u (setProviderSkipped v b s) =
     (if u = v \<and> \<not> tx_disabled s then b else isProviderSkipped u s)"
  by (auto simp: isProviderSkipped_def setProviderSkipped_def provider_skip_key_def)

end
