(* ===== verification/Library.thy ===== *)
theory Library
  imports App_Paths Session
begin

text \<open>
  The artifacts of a workbench, \<open>apps/web/src\<close>: the kinds listed and their paths (\<open>library/kind-filter.ts\<close>,
  \<open>library/title-extension.ts\<close>), which viewer opens one (\<open>library/renderer-kind.ts\<close>), order and search
  (\<open>library/sort-filter.ts\<close>), where it came from (\<open>library/provenance.ts\<close>), the state of a save
  (\<open>library/save-state.ts\<close>), upload, save and links (\<open>shell/library-artifacts.ts\<close>), and what a right-click finds
  (\<open>shell/context-menu/targets.ts\<close>, \<open>lib/target.ts\<close>).
\<close>

section \<open>Artifacts and where they came from\<close>

record artifact =
  af_id :: string
  af_title :: string
  af_kind :: string
  af_createdAt :: string
  af_updatedAt :: string
  af_from :: "string option"

text \<open>The \<open>source\<close> of an artifact is JSON the hub holds; it may be absent.\<close>

definition workflowRunIdFromSource :: "json option \<Rightarrow> string option" where
  "workflowRunIdFromSource source =
     (case source of
        None \<Rightarrow> None
      | Some j \<Rightarrow>
          if str_field ''origin'' j \<noteq> Some ''workflow'' then None
          else (case str_field ''runId'' j of None \<Rightarrow> None | Some r \<Rightarrow> if r = [] then None else Some r))"

definition artifactFromLabel :: "json option \<Rightarrow> string option" where
  "artifactFromLabel source =
     (case Option.bind source (str_field ''origin'') of
        None \<Rightarrow> None
      | Some origin \<Rightarrow> if origin = ''workflow'' then Some ''Workflow run'' else if origin = [] then None else Some origin)"

record artifact_row =
  ar_id :: string
  ar_kind :: string
  ar_title :: string
  ar_createdAt :: string
  ar_updatedAt :: string
  ar_source :: "json option"

definition artifactListRowToSummary :: "artifact_row \<Rightarrow> artifact" where
  "artifactListRowToSummary r =
     \<lparr> af_id = ar_id r, af_title = ar_title r, af_kind = ar_kind r, af_createdAt = ar_createdAt r,
       af_updatedAt = ar_updatedAt r, af_from = artifactFromLabel (ar_source r) \<rparr>"

definition mapArtifactListToSummaries :: "artifact_row list \<Rightarrow> artifact list" where
  "mapArtifactListToSummaries = map artifactListRowToSummary"

definition uploadMimeTypeFromSource :: "json \<Rightarrow> string option" where
  "uploadMimeTypeFromSource source = Option.bind (field ''upload'' source) (str_field ''mimeType'')"

section \<open>Kinds and viewers\<close>

definition titleExtension :: "string \<Rightarrow> string" where
  "titleExtension title =
     (let lower = to_lower (trim title) in
      case last_index_of ''.'' lower of
        None \<Rightarrow> []
      | Some dot \<Rightarrow> if dot = 0 \<or> dot = length lower - 1 then [] else drop (dot + 1) lower)"

definition LIBRARY_PATH :: string where "LIBRARY_PATH = ''/artifacts''"
definition LIBRARY_ARTIFACT_SEGMENT :: string where "LIBRARY_ARTIFACT_SEGMENT = ''a''"

definition LIBRARY_KIND_SEGMENTS :: "string list" where
  "LIBRARY_KIND_SEGMENTS = [''document'', ''sheet'', ''pdf'', ''routine'']"

definition libraryKindSegmentFromPath :: "string \<Rightarrow> string" where
  "libraryKindSegmentFromPath path =
     (if path = LIBRARY_PATH \<or> path = LIBRARY_PATH @ ''/'' then []
      else if \<not> starts_with (LIBRARY_PATH @ ''/'') path then []
      else hd (split_on CHR ''/'' (drop (length (LIBRARY_PATH @ ''/'')) path)))"

definition libraryArtifactPath :: "string \<Rightarrow> string" where
  "libraryArtifactPath i = LIBRARY_PATH @ ''/'' @ LIBRARY_ARTIFACT_SEGMENT @ ''/'' @ encodeURIComponent i"

definition libraryArtifactIdFromPath :: "string \<Rightarrow> string option" where
  "libraryArtifactIdFromPath path =
     (let prefix = LIBRARY_PATH @ ''/'' @ LIBRARY_ARTIFACT_SEGMENT @ ''/'' in
      if \<not> starts_with prefix path then None
      else let rest = hd (split_on CHR ''/'' (drop (length prefix) path)) in
        if rest = [] then None else decodedOrNull rest)"

definition artifactMatchesLibraryKindSegment :: "artifact \<Rightarrow> string \<Rightarrow> bool" where
  "artifactMatchesLibraryKindSegment a segment =
     (if segment = [] then True
      else let kind = to_lower (trim (af_kind a)); ext = titleExtension (af_title a) in
        if segment = ''document''
        then (if kind = ''document'' then True else kind = ''file'' \<and> (ext = ''doc'' \<or> ext = ''txt'' \<or> ext = ''md''))
        else if segment = ''sheet''
        then (if kind = ''csv-export'' \<or> kind = ''sheet'' then True else kind = ''file'' \<and> (ext = ''xls'' \<or> ext = ''csv''))
        else if segment = ''pdf''
        then (if kind = ''pdf'' then True else kind = ''file'' \<and> ext = ''pdf'')
        else if segment = ''routine'' then kind = ''routine''
        else False)"

datatype renderer_kind = RDoc | RSheet | RPdf | RHtml | RUnsupported

definition resolveArtifactRendererKind :: "string \<Rightarrow> string \<Rightarrow> renderer_kind" where
  "resolveArtifactRendererKind raw_kind title =
     (let kind = to_lower (trim raw_kind); ext = titleExtension title in
      if kind = ''document'' then RDoc
      else if kind = ''file'' \<and> (ext = ''doc'' \<or> ext = ''txt'' \<or> ext = ''md'') then RDoc
      else if kind = ''csv-export'' \<or> kind = ''sheet'' then RSheet
      else if kind = ''file'' \<and> (ext = ''xls'' \<or> ext = ''xlsx'' \<or> ext = ''csv'') then RSheet
      else if kind = ''pdf'' then RPdf
      else if kind = ''file'' \<and> ext = ''pdf'' then RPdf
      else if kind = ''file'' \<and> ext = ''html'' then RHtml
      else RUnsupported)"

definition XLS_TYPE :: string where "XLS_TYPE = ''application/vnd.ms-excel''"
definition XLSX_TYPE :: string where
  "XLSX_TYPE = ''application/vnd.openxmlformats-officedocument.spreadsheetml.sheet''"

definition DOC_MEDIA_TYPES :: "string list" where
  "DOC_MEDIA_TYPES = [''text/plain'', ''text/markdown'', ''application/json'']"

definition SHEET_MEDIA_TYPES :: "string list" where
  "SHEET_MEDIA_TYPES = [''text/csv'', XLS_TYPE, XLSX_TYPE]"

definition PDF_MEDIA_TYPES :: "string list" where
  "PDF_MEDIA_TYPES = [''application/pdf'']"

definition resolveRendererKindFromMediaType :: "string \<Rightarrow> string \<Rightarrow> renderer_kind" where
  "resolveRendererKindFromMediaType mediaType filename =
     (let mime = to_lower (trim mediaType); ext = titleExtension filename in
      if mime \<in> set DOC_MEDIA_TYPES then RDoc
      else if mime \<in> set SHEET_MEDIA_TYPES then RSheet
      else if mime \<in> set PDF_MEDIA_TYPES then RPdf
      else if ext = ''doc'' \<or> ext = ''txt'' \<or> ext = ''md'' then RDoc
      else if ext = ''xls'' \<or> ext = ''xlsx'' \<or> ext = ''csv'' then RSheet
      else if ext = ''pdf'' then RPdf
      else RUnsupported)"

definition isTextDecodableMediaType :: "string \<Rightarrow> bool" where
  "isTextDecodableMediaType mediaType =
     (let mime = to_lower (trim mediaType) in
      if mime = XLS_TYPE then False
      else if mime = XLSX_TYPE then False
      else mime \<in> set DOC_MEDIA_TYPES \<or> mime = ''text/csv'' \<or> starts_with ''text/'' mime)"

section \<open>Order and search\<close>

datatype artifact_sort = Newest | Oldest

text \<open>\<open>Date.parse\<close> is an argument, \<open>None\<close> for not a number: a comparison with it answers NaN, which \<open>sort\<close> takes as equal.\<close>

definition artifact_compare :: "(string \<Rightarrow> int option) \<Rightarrow> artifact_sort \<Rightarrow> artifact \<Rightarrow> artifact \<Rightarrow> int" where
  "artifact_compare date dir a b =
     (case (date (af_createdAt a), date (af_createdAt b)) of
        (Some x, Some y) \<Rightarrow> (if dir = Newest then - 1 else 1) * (x - y)
      | _ \<Rightarrow> 0)"

definition sortArtifacts :: "(string \<Rightarrow> int option) \<Rightarrow> artifact_sort \<Rightarrow> artifact list \<Rightarrow> artifact list" where
  "sortArtifacts date dir = js_sort (\<lambda>a b. artifact_compare date dir a b \<le> 0)"

definition filterArtifacts :: "artifact list \<Rightarrow> string \<Rightarrow> artifact list" where
  "filterArtifacts artifacts query =
     (let needle = to_lower (trim query) in
      if needle = [] then artifacts
      else filter (\<lambda>a. contains needle (to_lower (af_title a)) \<or> contains needle (to_lower (af_kind a))) artifacts)"

section \<open>The state of a save\<close>

datatype save_state = ReadOnly | Saving | Saved int int | Unsaved

definition MINUTE_MS :: int where "MINUTE_MS = 60000"
definition HOUR_MS :: int where "HOUR_MS = 60 * MINUTE_MS"
definition DAY_MS :: int where "DAY_MS = 24 * HOUR_MS"

definition formatSavedLabel :: "int \<Rightarrow> int \<Rightarrow> string" where
  "formatSavedLabel savedAt now =
     (let delta = max 0 (now - savedAt) in
      if delta < MINUTE_MS then ''Saved just now''
      else if delta < HOUR_MS then ''Saved '' @ string_of_int (delta div MINUTE_MS) @ ''m ago''
      else if delta < DAY_MS then ''Saved '' @ string_of_int (delta div HOUR_MS) @ ''h ago''
      else ''Saved'')"

definition middle_dot :: string where "middle_dot = '' '' @ [CHR 0xB7] @ '' ''"

definition formatSaveStateLine :: "save_state \<Rightarrow> int \<Rightarrow> string" where
  "formatSaveStateLine state now =
     (case state of
        ReadOnly \<Rightarrow> []
      | Saving \<Rightarrow> ''Saving...''
      | Saved version savedAt \<Rightarrow> formatSavedLabel savedAt now @ middle_dot @ ''v'' @ string_of_int version
      | Unsaved \<Rightarrow> ''Unsaved changes'')"

section \<open>Upload, save and links\<close>

text \<open>A form is the list of its entries; a file is its name and its content.\<close>

definition upload_form :: "(string \<times> string) list \<Rightarrow> json" where
  "upload_form files = JObj (map (\<lambda>(name, content). (''file'', JObj [(''name'', JStr name), (''content'', JStr content)])) files)"

definition api_error :: "string \<Rightarrow> nat option \<Rightarrow> js_error" where
  "api_error = error_of ''ApiQueryError''"

text \<open>Reading \<open>artifacts\<close> of a body that is \<open>null\<close> throws a \<open>TypeError\<close>.\<close>

definition null_error :: js_error where
  "null_error = error_of ''TypeError'' ''Cannot read properties of null (reading 'artifacts')'' None"

definition uploadArtifactFiles :: "'w hub \<Rightarrow> string \<Rightarrow> (string \<times> string) list \<Rightarrow> ('w, json list) client" where
  "uploadArtifactFiles hub tenantId files =
     bindE (fetch_raw hub (post (''/api/tenants/'' @ tenantId @ ''/artifacts/upload'') (upload_form files))) (\<lambda>answer.
       case answer of
         Inl m \<Rightarrow> throwE (api_error m None)
       | Inr r \<Rightarrow>
           if rs_status r = 401 then throwE unauthenticated
           else if \<not> resp_ok r
           then throwE (api_error (''The server answered '' @ dec (rs_status r) @ '' for artifact upload.'') (Some (rs_status r)))
           else bindE (json_body r) (\<lambda>body.
             if body = JNull then throwE null_error
             else (case field ''artifacts'' body of
                     Some (JArr xs) \<Rightarrow> returnE xs
                   | _ \<Rightarrow> throwE (api_error ''Unexpected response shape from artifact upload.'' None))))"

definition save_request :: "string \<Rightarrow> string \<Rightarrow> string \<Rightarrow> request" where
  "save_request tenantId artifactId content =
     \<lparr> rq_method = PUT, rq_path = ''/api/tenants/'' @ tenantId @ ''/artifacts/'' @ encodeURIComponent artifactId,
       rq_body = Some (JObj [(''content'', JStr content)]) \<rparr>"

definition saveArtifactContent :: "'w hub \<Rightarrow> string \<Rightarrow> string \<Rightarrow> string \<Rightarrow> ('w, json) client" where
  "saveArtifactContent hub tenantId artifactId content =
     bindE (fetch_raw hub (save_request tenantId artifactId content)) (\<lambda>answer.
       case answer of
         Inl m \<Rightarrow> throwE (api_error m None)
       | Inr r \<Rightarrow>
           if rs_status r = 401 then throwE unauthenticated
           else if \<not> resp_ok r
           then throwE (api_error (''The server answered '' @ dec (rs_status r) @ '' for artifact save.'') (Some (rs_status r)))
           else json_body r)"

definition isArtifactsUnavailableStatus :: "nat option \<Rightarrow> bool" where
  "isArtifactsUnavailableStatus status \<longleftrightarrow> status = Some 503"

definition artifactUploadToast :: "string list \<Rightarrow> string" where
  "artifactUploadToast names =
     (case names of
        [only] \<Rightarrow> ''Uploaded'' @ middle_dot @ only
      | _ \<Rightarrow> ''Uploaded '' @ dec (length names) @ '' files'')"

definition ARTIFACTS_PATH_PREFIX :: string where "ARTIFACTS_PATH_PREFIX = ''/artifacts''"

definition libraryArtifactDeepLink :: "string \<Rightarrow> string" where
  "libraryArtifactDeepLink i = ARTIFACTS_PATH_PREFIX @ ''/a/'' @ encodeURIComponent i"

text \<open>The text \<open>copyArtifactLinks\<close> writes to the clipboard.\<close>

definition copied_links :: "string \<Rightarrow> string list \<Rightarrow> string" where
  "copied_links origin ids = join [CHR 0x0A] (map (\<lambda>i. origin @ libraryArtifactDeepLink i) ids)"

definition copyArtifactLinksToastLabel :: "nat \<Rightarrow> string" where
  "copyArtifactLinksToastLabel n = (if n = 1 then ''Link copied'' else dec n @ '' links copied'')"

definition copyArtifactLinksActionLabel :: "nat \<Rightarrow> string" where
  "copyArtifactLinksActionLabel n = (if 1 < n then ''Copy '' @ dec n @ '' links'' else ''Copy link'')"

section \<open>What a right-click finds\<close>

datatype context_target =
    ShellTarget
  | AccountTarget
  | WorkbenchTarget string string bool
  | ProfileTarget string string
  | RoutineTarget string string
  | RunTarget string
  | ArtifactTarget string "string list"

text \<open>
  An element is the map of its attributes; where the event started is the list of the elements from there up to the
  root, and \<open>closest\<close> of \<open>[name]\<close> is the first of them that has the attribute.
\<close>

type_synonym element = "string \<Rightarrow> string option"

definition attr :: "element \<Rightarrow> string \<Rightarrow> string option" where
  "attr e name = (case e name of None \<Rightarrow> None | Some v \<Rightarrow> if v = [] then None else Some v)"

definition closest :: "string \<Rightarrow> element list \<Rightarrow> element option" where
  "closest name origin = List.find (\<lambda>e. e name \<noteq> None) origin"

definition resolve_account :: "element \<Rightarrow> context_target option" where
  "resolve_account e = Some AccountTarget"

definition resolve_profile :: "element \<Rightarrow> context_target option" where
  "resolve_profile e =
     (case (attr e ''data-ctx-profile-address'', attr e ''data-ctx-profile-handle'') of
        (Some address, Some handle) \<Rightarrow> Some (ProfileTarget address handle)
      | _ \<Rightarrow> None)"

definition resolve_workbench :: "element \<Rightarrow> context_target option" where
  "resolve_workbench e = map_option (\<lambda>i.
     WorkbenchTarget i (case attr e ''data-ctx-workbench-title'' of None \<Rightarrow> i | Some t \<Rightarrow> t)
       (attr e ''data-ctx-workbench-pinned'' = Some ''true'')) (attr e ''data-ctx-workbench'')"

definition resolve_routine :: "element \<Rightarrow> context_target option" where
  "resolve_routine e = map_option (\<lambda>i.
     RoutineTarget i (case attr e ''data-ctx-routine-name'' of None \<Rightarrow> i | Some t \<Rightarrow> t)) (attr e ''data-ctx-routine'')"

definition resolve_run :: "element \<Rightarrow> context_target option" where
  "resolve_run e = map_option RunTarget (attr e ''data-ctx-insights-run'')"

definition resolve_artifact :: "element \<Rightarrow> context_target option" where
  "resolve_artifact e = map_option (\<lambda>i.
     let ids = (case attr e ''data-ctx-artifact-selected-ids'' of
                  None \<Rightarrow> [i]
                | Some selected \<Rightarrow> filter (\<lambda>c. c \<noteq> []) (split_on CHR '','' selected))
     in ArtifactTarget i (if ids \<noteq> [] then ids else [i])) (attr e ''data-ctx-artifact'')"

definition SHELL_CONTEXT_MENU_TARGETS :: "(string \<times> (element \<Rightarrow> context_target option)) list" where
  "SHELL_CONTEXT_MENU_TARGETS =
     [(''data-ctx-account'', resolve_account), (''data-ctx-profile-address'', resolve_profile),
      (''data-ctx-workbench'', resolve_workbench), (''data-ctx-routine'', resolve_routine),
      (''data-ctx-insights-run'', resolve_run), (''data-ctx-artifact'', resolve_artifact)]"

text \<open>\<open>None\<close> for an origin that is not an element.\<close>

fun resolve_in :: "element list \<Rightarrow> (string \<times> (element \<Rightarrow> 'a option)) list \<Rightarrow> 'a \<Rightarrow> 'a" where
  "resolve_in origin [] fallback = fallback"
| "resolve_in origin ((selector, resolve) # ds) fallback =
     (case Option.bind (closest selector origin) resolve of
        None \<Rightarrow> resolve_in origin ds fallback
      | Some t \<Rightarrow> t)"

definition resolveTarget :: "element list option \<Rightarrow> (string \<times> (element \<Rightarrow> 'a option)) list \<Rightarrow> 'a \<Rightarrow> 'a" where
  "resolveTarget origin ds fallback = (case origin of None \<Rightarrow> fallback | Some es \<Rightarrow> resolve_in es ds fallback)"

section \<open>Listing, viewing and links agree\<close>

abbreviation viewer :: "artifact \<Rightarrow> renderer_kind" where
  "viewer a \<equiv> resolveArtifactRendererKind (af_kind a) (af_title a)"

text \<open>
  Also shown. The kinds an artifact is listed under and the viewer that opens it agree on every artifact: it is a document or a PDF
  of the listing exactly when its viewer is the one for documents or for PDFs, and a sheet of the listing exactly when
  its viewer is the one for sheets and it is not an uploaded \<open>.xlsx\<close> file, which the listing leaves out.
\<close>

theorem listing_agrees_with_viewer:
  "(artifactMatchesLibraryKindSegment a ''document'' \<longleftrightarrow> viewer a = RDoc) \<and>
   (artifactMatchesLibraryKindSegment a ''pdf'' \<longleftrightarrow> viewer a = RPdf) \<and>
   (artifactMatchesLibraryKindSegment a ''sheet'' \<longleftrightarrow>
      viewer a = RSheet \<and> \<not> (to_lower (trim (af_kind a)) = ''file'' \<and> titleExtension (af_title a) = ''xlsx''))"
  by (auto simp: artifactMatchesLibraryKindSegment_def resolveArtifactRendererKind_def Let_def)

lemma artifact_path_parts: "starts_with p (p @ s)" "drop (length p) (p @ s) = s"
  by (simp_all add: starts_with_def)

lemma artifact_id_under:
  "CHR ''/'' \<notin> set s \<Longrightarrow>
     libraryArtifactIdFromPath (''/artifacts/a/'' @ s) = (if s = [] then None else decodedOrNull s)"
  by (simp add: libraryArtifactIdFromPath_def LIBRARY_PATH_def LIBRARY_ARTIFACT_SEGMENT_def starts_with_def
        split_on_no_sep)

text \<open>
  Also shown. The deep link of an artifact reads back as its id, the link copied is that same path, and it is never taken for one of
  the kinds of the listing.
\<close>

theorem artifact_link_roundtrip:
  "libraryArtifactIdFromPath (libraryArtifactPath i) = (if i = [] then None else Some i) \<and>
   libraryArtifactDeepLink i = libraryArtifactPath i \<and>
   libraryKindSegmentFromPath (libraryArtifactPath i) \<notin> set LIBRARY_KIND_SEGMENTS"
proof -
  have "libraryArtifactIdFromPath (libraryArtifactPath i) = (if i = [] then None else Some i)"
    using artifact_id_under [OF encode_no_slash, of i] decode_encode [of i] encode_ne [of i]
    by (cases "i = []")
       (simp_all add: libraryArtifactPath_def LIBRARY_PATH_def LIBRARY_ARTIFACT_SEGMENT_def decodedOrNull_def
          encodeURIComponent_def)
  moreover have "libraryKindSegmentFromPath (libraryArtifactPath i) = ''a''"
    by (simp add: libraryKindSegmentFromPath_def libraryArtifactPath_def LIBRARY_PATH_def LIBRARY_ARTIFACT_SEGMENT_def
          starts_with_def)
  ultimately show ?thesis
    by (simp add: libraryArtifactDeepLink_def libraryArtifactPath_def ARTIFACTS_PATH_PREFIX_def LIBRARY_PATH_def
          LIBRARY_ARTIFACT_SEGMENT_def LIBRARY_KIND_SEGMENTS_def)
qed

text \<open>Once every time parses, the order is that of creation, and artifacts created at one moment keep theirs.\<close>

lemma sorted_by_creation:
  assumes "\<And>a. date (af_createdAt a) = Some (made a)"
  shows "mset (sortArtifacts date dir xs) = mset xs"
    and "sorted_wrt (\<lambda>a b. if dir = Newest then made b \<le> made a else made a \<le> made b) (sortArtifacts date dir xs)"
proof -
  have c: "compare_ok (artifact_compare date dir)"
    using compare_key [of made] compare_key [of "\<lambda>a. - made a"]
    by (cases dir) (simp_all add: artifact_compare_def assms compare_ok_def)
  show "mset (sortArtifacts date dir xs) = mset xs" by (simp add: sortArtifacts_def)
  show "sorted_wrt (\<lambda>a b. if dir = Newest then made b \<le> made a else made a \<le> made b) (sortArtifacts date dir xs)"
    using comparator.sorted_sort [OF compare_comparator [OF c], of xs]
    by (cases dir) (simp_all add: sortArtifacts_def artifact_compare_def assms)
qed

text \<open>
  Also shown. A save is reported as done only on the answer of the hub: it sends one request, the content whole, and returns exactly when
  a successful answer with a body came back; every other answer, and none, is thrown.
\<close>

theorem save_is_the_hubs_answer:
  "case saveArtifactContent hub t i content n of (out, n') \<Rightarrow>
     (case hub (save_request t i content) (server n) of (answer, w) \<Rightarrow>
        n' = n \<lparr> server := w, sent := sent n @ [(save_request t i content, answer)] \<rparr> \<and>
        (\<forall>j. out = Inr j \<longleftrightarrow> (\<exists>r. answer = Inr r \<and> resp_ok r \<and> rs_body r = Some j)))"
  by (cases "hub (save_request t i content) (server n)")
     (auto simp: saveArtifactContent_def fetch_raw_def bindE_def returnE_def throwE_def json_body_def resp_ok_def
           split: sum.splits option.splits)

text \<open>A file whose bytes are a spreadsheet's is never shown as text.\<close>

lemma spreadsheets_not_decoded:
  "isTextDecodableMediaType m \<Longrightarrow> resolveRendererKindFromMediaType m f = RSheet \<Longrightarrow>
     to_lower (trim m) \<noteq> XLS_TYPE \<and> to_lower (trim m) \<noteq> XLSX_TYPE"
  by (auto simp: isTextDecodableMediaType_def Let_def split: if_splits)

text \<open>A right-click on an artifact of a selection acts on a list that is never empty.\<close>

lemma artifact_target_ids: "resolve_artifact e = Some (ArtifactTarget i ids) \<Longrightarrow> ids \<noteq> [] \<and> i \<noteq> []"
  by (auto simp: resolve_artifact_def attr_def Let_def split: option.splits if_splits)

end
