(* ===== verification/Display_Names.thy ===== *)
theory Display_Names
  imports Workbench_Chat Session Deployable_Package App_Paths
begin

text \<open>
  What people are called, \<open>apps/web/src\<close>: no internal id in a name (\<open>chat/wire/id-leak-guard.ts\<close>,
  \<open>chat/wire/display-name.ts\<close>), the name a worker states and is given (\<open>bench/worker-name.ts\<close>,
  \<open>bench/tenant-config.ts\<close>), principals and their roles (\<open>settings/identity.ts\<close>, \<open>settings/role-assignment.ts\<close>,
  \<open>worker-role.ts\<close>, \<open>chat/profile-subject.ts\<close>), grants in words (\<open>bench/grant-names.ts\<close>,
  \<open>settings/grant-preview.ts\<close>) and the title of a workbench (\<open>auto-workbench-title.ts\<close>).
\<close>

definition replace_first :: "rx \<Rightarrow> string \<Rightarrow> string \<Rightarrow> string" where
  "replace_first r t s = (case exec_from r s 0 of None \<Rightarrow> s | Some (k, j, _) \<Rightarrow> take k s @ t @ drop j s)"

text \<open>\<open>split\<close> at runs of a class, without the empty parts.\<close>

definition words_by :: "(char \<Rightarrow> bool) \<Rightarrow> string \<Rightarrow> string list" where
  "words_by P s = filter (\<lambda>w. w \<noteq> []) (split_on CHR '' '' (map (\<lambda>c. if P c then CHR '' '' else c) s))"

definition slug_sep :: "char \<Rightarrow> bool" where
  "slug_sep c \<longleftrightarrow> c = CHR ''-'' \<or> c = CHR ''_'' \<or> is_space c"

section \<open>Internal ids\<close>

definition ID_PREFIX_WORDS :: "string list" where
  "ID_PREFIX_WORDS =
     [''tnt'', ''prn'', ''pky'', ''rol'', ''grt'', ''ftr'', ''prv'', ''ocl'', ''crd'', ''wlt'', ''txn'', ''ofr'', ''mdl'',
      ''mpv'', ''mof'', ''mpr'', ''ses'', ''sml'', ''itn'', ''tp'', ''ast'', ''gtk'', ''run'', ''apr'', ''sig'', ''wfd'',
      ''wdv'']"

definition is_hex :: "char \<Rightarrow> bool" where
  "is_hex c \<longleftrightarrow> is_digit c \<or> one_of ''abcdef'' (lower_char c)"

definition ID_LEAK_PATTERN :: rx where
  "ID_LEAK_PATTERN =
     seq [Wb, alt (map liti ID_PREFIX_WORDS), Cls (\<lambda>c. c = CHR ''_'' \<or> is_space c \<or> c = CHR ''-''), Rep 16 is_hex, Wb]"

definition assertNoLeakedInternalId :: "string \<Rightarrow> string \<Rightarrow> string option" where
  "assertNoLeakedInternalId value ctx =
     (if test ID_LEAK_PATTERN value
      then Some (ctx @ '' carries an internal identifier ('' @ [CHR 0x22] @ value @ [CHR 0x22] @ ''); a person '' @
                 ''must never see one -- resolve the real name at the source instead '' @ ''of rendering the id'')
      else None)"

definition humanizeSlug :: "string \<Rightarrow> string" where
  "humanizeSlug slug = join '' '' (map title_word (words_by slug_sep slug))"

text \<open>What it throws: the record does not fit, or the description or the name is an internal id.\<close>

datatype name_error = InvalidRecord | LeakedDescription string string | LeakedName string

definition display_source :: "json \<Rightarrow> (string \<times> string option) option" where
  "display_source j =
     (case (str_field ''name'' j, field ''description'' j) of
        (Some n, None) \<Rightarrow> Some (n, None)
      | (Some n, Some JNull) \<Rightarrow> Some (n, None)
      | (Some n, Some (JStr d)) \<Rightarrow> Some (n, Some d)
      | _ \<Rightarrow> None)"

definition deriveDisplayName :: "json \<Rightarrow> name_error + string" where
  "deriveDisplayName j =
     (case display_source j of
        None \<Rightarrow> Inl InvalidRecord
      | Some (name, d) \<Rightarrow>
          let description = map_option trim d in
          if description \<noteq> None \<and> description \<noteq> Some []
          then (if test ID_LEAK_PATTERN (the description) then Inl (LeakedDescription (the description) name)
                else Inr (the description))
          else if test ID_LEAK_PATTERN name then Inl (LeakedName name)
          else Inr (humanizeSlug name))"

section \<open>The name of a worker\<close>

definition DEFAULT_WORKER_NAME :: string where "DEFAULT_WORKER_NAME = ''New worker''"
definition WORKER_NAME_MAX :: nat where "WORKER_NAME_MAX = 24"
definition CONFIG_KEY :: string where "CONFIG_KEY = ''workbench.worker.name''"

text \<open>\<open>\p{L}\<close> below 256.\<close>

definition is_letter :: "char \<Rightarrow> bool" where
  "is_letter c \<longleftrightarrow> is_ascii_upper c \<or> is_ascii_lower c \<or> char_code c \<in> {170, 181, 186} \<or>
     192 \<le> char_code c \<and> char_code c \<noteq> 215 \<and> char_code c \<noteq> 247"

definition validWorkerName :: "string \<Rightarrow> string option" where
  "validWorkerName raw =
     (let name = trim raw in
      if 0 < length name \<and> length name \<le> WORKER_NAME_MAX \<and>
         list_all (\<lambda>c. is_letter c \<or> c = CHR '' '' \<or> c = CHR ''-'') name
      then Some name else None)"

text \<open>The \<open>config\<close> of a tenant: its entries, if it has one.\<close>

type_synonym config = "(string \<times> json) list"

definition readWorkerName :: "config option \<Rightarrow> string option" where
  "readWorkerName c =
     (case map_of (case c of None \<Rightarrow> [] | Some es \<Rightarrow> es) CONFIG_KEY of
        Some (JStr stored) \<Rightarrow> validWorkerName stored
      | _ \<Rightarrow> None)"

definition blank :: "char \<Rightarrow> bool" where
  "blank c \<longleftrightarrow> c = CHR '' '' \<or> c = CHR 0x09"

definition not_newline :: "char \<Rightarrow> bool" where
  "not_newline c \<longleftrightarrow> c \<noteq> CHR 0x0A"

definition NAME_LINE :: rx where
  "NAME_LINE = seq [ch CHR 0x0A, Rep 0 blank, liti ''Name:'', Rep 0 blank, Grp 1 (Lazy 1 not_newline), Rep 0 blank, Eos]"

definition nameFromMessage :: "string \<Rightarrow> string option" where
  "nameFromMessage body =
     (case exec_from NAME_LINE (trim_end body) 0 of
        None \<Rightarrow> None
      | Some (_, _, cs) \<Rightarrow> validWorkerName (captured (trim_end body) cs 1))"

definition stripNameLine :: "string \<Rightarrow> string" where
  "stripNameLine body =
     (let trimmed = trim_end body in
      if nameFromMessage trimmed = None then body else replace_first NAME_LINE [] trimmed)"

definition nameWorkers :: "participant list \<Rightarrow> string option \<Rightarrow> participant list" where
  "nameWorkers ps name =
     map (\<lambda>p. if pt_kind p = Agent then p \<lparr> pt_name := (case name of None \<Rightarrow> DEFAULT_WORKER_NAME | Some n \<Rightarrow> n) \<rparr> else p) ps"

fun firstStatedName :: "wb_message list \<Rightarrow> participant list \<Rightarrow> string option" where
  "firstStatedName [] ps = None"
| "firstStatedName (m # ms) ps =
     (if wm_author m \<noteq> Other then firstStatedName ms ps
      else if (case List.find (\<lambda>p. sameAddress (pt_address p) (wm_address m)) ps of
                 None \<Rightarrow> False | Some p \<Rightarrow> pt_kind p \<noteq> Agent) then firstStatedName ms ps
      else (case nameFromMessage (wm_body m) of None \<Rightarrow> firstStatedName ms ps | Some n \<Rightarrow> Some n))"

text \<open>
  The detail of a tenant as the library's schema parses it is an argument, with the \<open>config\<close> in it.
\<close>

definition tenant_detail_path :: "string \<Rightarrow> string" where
  "tenant_detail_path tenantId = ''/api/tenants/'' @ encodeURIComponent tenantId"

definition fetchTenantDetail :: "'w hub \<Rightarrow> (json \<Rightarrow> 'd option) \<Rightarrow> string \<Rightarrow> ('w, 'd) client" where
  "fetchTenantDetail hub parse tenantId =
     apiRequest hub (get (tenant_detail_path tenantId)) (on_json ''shape'' parse) (Some ''loading tenant detail'')
       ''ApiQueryError'' True"

definition config_request :: "string \<Rightarrow> config option \<Rightarrow> string \<Rightarrow> string \<Rightarrow> request" where
  "config_request tenantId config k value =
     patch (tenant_detail_path tenantId)
       (JObj [(''config'', JObj (AList.update k (JStr value) (case config of None \<Rightarrow> [] | Some es \<Rightarrow> es)))])"

definition patchTenantConfigKey ::
  "'w hub \<Rightarrow> (json \<Rightarrow> 'd option) \<Rightarrow> ('d \<Rightarrow> config option) \<Rightarrow> string \<Rightarrow> string \<Rightarrow> string \<Rightarrow> ('w, 'd) client" where
  "patchTenantConfigKey hub parse config tenantId k value =
     bindE (fetchTenantDetail hub parse tenantId) (\<lambda>current.
       apiRequest hub (config_request tenantId (config current) k value) (on_json ''shape'' parse)
         (Some ''updating tenant configuration'') ''ApiQueryError'' True)"

definition setWorkerName ::
  "'w hub \<Rightarrow> (json \<Rightarrow> 'd option) \<Rightarrow> ('d \<Rightarrow> config option) \<Rightarrow> string \<Rightarrow> string \<Rightarrow> ('w, string) client" where
  "setWorkerName hub parse config tenantId name =
     (case validWorkerName name of
        None \<Rightarrow> throwE (error_of ''Error'' ''Use up to 24 letters, spaces or hyphens.'' None)
      | Some valid \<Rightarrow> bindE (patchTenantConfigKey hub parse config tenantId CONFIG_KEY valid) (\<lambda>_. returnE valid))"

section \<open>Principals and roles\<close>

definition is_alpha :: "char \<Rightarrow> bool" where
  "is_alpha c \<longleftrightarrow> is_ascii_upper c \<or> is_ascii_lower c"

definition RAW_LOOKING_PATTERN :: rx where
  "RAW_LOOKING_PATTERN =
     alt [seq [Bos, Rep 1 is_alpha, ch CHR ''_'', Rep 6 (\<lambda>c. is_alpha c \<or> is_digit c \<or> c = CHR ''-''), Eos],
          lit ''://'', ch CHR ''@'']"

definition looksRaw :: "string \<Rightarrow> bool" where
  "looksRaw v = test RAW_LOOKING_PATTERN v"

definition path_parts :: "string \<Rightarrow> string list" where
  "path_parts raw =
     filter (\<lambda>w. w \<noteq> []) (split_on CHR ''/'' (map (\<lambda>c. if c = CHR ''@'' then CHR ''/'' else c) raw))"

definition derivePrincipalLabel :: "string \<Rightarrow> string" where
  "derivePrincipalLabel raw =
     (let segment = (if path_parts raw = [] then raw else last (path_parts raw));
          cleaned = trim (replace_all (Rep 1 (one_of ''-_.()'')) '' ''
            (replace_first (seq [Bos, Rep 1 is_alpha, ch CHR ''_'']) [] segment)) in
      if cleaned = [] then ''Unnamed agent'' else join '' '' (map title_word (split_on CHR '' '' cleaned)))"

text \<open>The label, and the raw name it was derived from.\<close>

definition principalLabel :: "string \<Rightarrow> string \<times> string option" where
  "principalLabel displayName =
     (if \<not> looksRaw displayName then (displayName, None) else (derivePrincipalLabel displayName, Some displayName))"

datatype principal_kind = UserPrincipal | AgentPrincipal | WorkflowPrincipal

definition PRINCIPAL_KIND_ORDER :: "principal_kind list" where
  "PRINCIPAL_KIND_ORDER = [UserPrincipal, AgentPrincipal, WorkflowPrincipal]"

fun PRINCIPAL_KIND_LABEL :: "principal_kind \<Rightarrow> string" where
  "PRINCIPAL_KIND_LABEL UserPrincipal = ''Person''"
| "PRINCIPAL_KIND_LABEL AgentPrincipal = ''Agent''"
| "PRINCIPAL_KIND_LABEL WorkflowPrincipal = ''Workflow''"

record assigned_principal =
  ap_kind :: principal_kind
  ap_displayName :: string

definition assignFailureMessage :: "js_error \<Rightarrow> string" where
  "assignFailureMessage cause =
     (if isNotFoundError cause
      then ''That account isn't on this workbench yet -- agent and workflow accounts are created on their first run, not '' @
           ''when they're deployed. Have it run once, then assign the role again.''
      else ''Couldn't assign that role -- try again.'')"

definition assignmentPrincipalLabel :: "assigned_principal \<Rightarrow> string" where
  "assignmentPrincipalLabel p =
     (let label = fst (principalLabel (ap_displayName p)) in
      if ap_kind p = UserPrincipal then label else label @ '' -- '' @ PRINCIPAL_KIND_LABEL (ap_kind p))"

definition kind_index :: "assigned_principal \<Rightarrow> int" where
  "kind_index p = int (index_in (ap_kind p) PRINCIPAL_KIND_ORDER)"

definition compareAssignmentPrincipals :: "(string \<Rightarrow> string \<Rightarrow> int) \<Rightarrow> assigned_principal \<Rightarrow> assigned_principal \<Rightarrow> int" where
  "compareAssignmentPrincipals cmp =
     or_else (\<lambda>a b. kind_index a - kind_index b) (\<lambda>a b. cmp (assignmentPrincipalLabel a) (assignmentPrincipalLabel b))"

definition MAX_ITEMS :: nat where "MAX_ITEMS = 3"

definition is_mail_tool :: "string \<Rightarrow> bool" where
  "is_mail_tool = test (seq [Bos, lit ''mail_''])"

definition is_shell_tool :: "string \<Rightarrow> bool" where
  "is_shell_tool = test (seq [Bos, alt (map lit [''posix'', ''fs'', ''shell'']), alt [ch CHR ''_'', Eos]])"

definition workerRole :: "string list \<Rightarrow> string list \<Rightarrow> bool \<Rightarrow> string" where
  "workerRole tools mcpServers is_default =
     (if is_default then ''Co-worker''
      else let families = (if list_ex is_mail_tool tools then [''Mail''] else []) @
                          (if list_ex is_shell_tool tools then [''Files & shell''] else []);
               all = fold set_add (families @ map humanizeSlug mcpServers) [] in
        if all = [] then ''No tools yet''
        else let shown = join ('' '' @ [CHR 0xB7] @ '' '') (take MAX_ITEMS all) in
          if MAX_ITEMS < length all then shown @ '' +'' @ dec (length all - MAX_ITEMS) else shown)"

definition isAgentAddress :: "string \<Rightarrow> bool" where
  "isAgentAddress p \<longleftrightarrow> CHR ''@'' \<in> set p \<and> \<not> starts_with ''prn_'' p"

record profile_subject =
  sj_agent :: bool
  sj_address :: string
  sj_handle :: string
  sj_displayName :: string
  sj_initials :: string

definition initialsOf :: "string \<Rightarrow> string" where
  "initialsOf source =
     (case words_by is_space (trim source) of
        [] \<Rightarrow> ''?''
      | [w] \<Rightarrow> to_upper (take 2 w)
      | w # v # _ \<Rightarrow> to_upper (take 1 w @ take 1 v))"

definition profileSubjectFromParticipant :: "string \<Rightarrow> string \<Rightarrow> profile_subject" where
  "profileSubjectFromParticipant address handle =
     \<lparr> sj_agent = isAgentAddress address, sj_address = address, sj_handle = handle,
       sj_displayName = (if isAgentAddress address then CHR ''@'' # handle else handle), sj_initials = initialsOf handle \<rparr>"

section \<open>Grants in words\<close>

text \<open>The names of the tenants and credentials that were read, in the order they were set, one entry an id.\<close>

definition resource_name :: "(string \<times> string) list \<Rightarrow> (string \<times> string) list \<Rightarrow> string \<Rightarrow> string option" where
  "resource_name tenants credentials resource =
     (if starts_with ''credential:'' resource
      then Some (case map_of credentials (drop 11 resource) of None \<Rightarrow> ''A credential'' | Some n \<Rightarrow> n)
      else if starts_with ''tenant:'' resource
      then Some (case map_of tenants (drop 7 resource) of None \<Rightarrow> ''Workspace'' | Some n \<Rightarrow> n)
      else None)"

text \<open>\<open>text.split(id).join(name)\<close> for an \<open>id\<close> that is not empty.\<close>

function replace_id :: "string \<Rightarrow> string \<Rightarrow> string \<Rightarrow> string" where
  "replace_id i name [] = []"
| "replace_id i name (c # s) =
     (if i \<noteq> [] \<and> starts_with i (c # s) then name @ replace_id i name (drop (length i) (c # s))
      else c # replace_id i name s)"
  by pat_completeness auto
termination by (relation "measure (\<lambda>(i, name, s). length s)") auto

definition replaceTenantIds :: "(string \<times> string) list \<Rightarrow> string \<Rightarrow> string" where
  "replaceTenantIds tenants txt = fold (\<lambda>(i, name). replace_id i name) tenants txt"

datatype effect = EffAllow | EffDeny | EffAsk

definition trimmed_label :: "string option \<Rightarrow> string option" where
  "trimmed_label l = (case l of None \<Rightarrow> None | Some s \<Rightarrow> if trim s = [] then None else Some (trim s))"

definition grantPreviewSentence :: "string option \<Rightarrow> string \<Rightarrow> string \<Rightarrow> effect \<Rightarrow> string option \<Rightarrow> string" where
  "grantPreviewSentence targetLabel resource action effect expiresLabel =
     (let who = (case trimmed_label targetLabel of None \<Rightarrow> ''Someone'' | Some w \<Rightarrow> w);
          verb = (if effect = EffAllow then ''may'' else if effect = EffDeny then ''must not'' else ''must ask before they can'');
          base = who @ '' '' @ verb @ '' '' @ action @ '' on '' @ resource in
      case trimmed_label expiresLabel of
        None \<Rightarrow> base @ ''.''
      | Some e \<Rightarrow> base @ '', until '' @ e @ ''.'')"

datatype expiry = Never | Day1 | Day7 | Day30

fun expiry_ms :: "expiry \<Rightarrow> int option" where
  "expiry_ms Never = None"
| "expiry_ms Day1 = Some (24 * 60 * 60 * 1000)"
| "expiry_ms Day7 = Some (7 * 24 * 60 * 60 * 1000)"
| "expiry_ms Day30 = Some (30 * 24 * 60 * 60 * 1000)"

definition expiryIsoFromPreset :: "(int \<Rightarrow> string) \<Rightarrow> expiry \<Rightarrow> int \<Rightarrow> string option" where
  "expiryIsoFromPreset toISO preset now = map_option (\<lambda>ms. toISO (now + ms)) (expiry_ms preset)"

fun expiryLabelFromPreset :: "expiry \<Rightarrow> string option" where
  "expiryLabelFromPreset Never = None"
| "expiryLabelFromPreset Day1 = Some ''in 24 hours''"
| "expiryLabelFromPreset Day7 = Some ''in 7 days''"
| "expiryLabelFromPreset Day30 = Some ''in 30 days''"

section \<open>The title of a workbench\<close>

definition NEW_WORKBENCH_TITLE :: string where "NEW_WORKBENCH_TITLE = ''New Workbench''"
definition AUTO_WORKBENCH_TITLE_MAX :: nat where "AUTO_WORKBENCH_TITLE_MAX = 24"
definition AUTO_WORKBENCH_TITLE_MAX_WORDS :: nat where "AUTO_WORKBENCH_TITLE_MAX_WORDS = 4"

definition ARTICLES :: "string list" where "ARTICLES = [''the'', ''a'', ''an'']"

definition TRAILING_STOPWORDS :: "string list" where
  "TRAILING_STOPWORDS = ARTICLES @ [''for'', ''and'', ''or'', ''of'', ''to'', ''in'', ''on'', ''with'', ''my'', ''our'']"

text \<open>A group repeated any number of times: each turn takes a character at least, so the length of the string bounds them.\<close>

fun star :: "nat \<Rightarrow> rx \<Rightarrow> rx" where
  "star 0 r = Empty"
| "star (Suc n) r = Opt (Seq r (star n r))"

definition spaces :: rx where "spaces = Rep 1 is_space"

definition filler_verb :: rx where
  "filler_verb =
     alt [seq [alt (map liti [''can'', ''could'', ''would'', ''will'']), spaces, liti ''you'', spaces],
          seq [liti ''please'', spaces], seq [liti ''pls'', spaces],
          seq [liti ''i'', Opt (alt [liti [CHR 0x27, CHR ''d''], liti '' would'']), liti '' '',
               alt (map liti [''like'', ''want'', ''need'']), liti '' '', Opt (liti ''you ''), liti ''to'', spaces]]"

definition LEADING_FILLER :: "nat \<Rightarrow> rx" where
  "LEADING_FILLER n =
     seq [Bos, Opt (seq [alt (map liti [''hey'', ''hi'', ''hello'', ''so'', ''ok'', ''okay'']),
                         Rep 1 (\<lambda>c. c = CHR '','' \<or> is_space c)]),
          Seq filler_verb (star n filler_verb), Opt (seq [liti ''please'', spaces])]"

definition clause_end :: rx where
  "clause_end =
     alt [seq [Rep 1 (one_of ''.!?:;''), alt [Cls is_space, Eos]], seq [Cls is_space, ch CHR ''-'', Cls is_space]]"

definition first_clause :: "string \<Rightarrow> string" where
  "first_clause s = (case exec_from clause_end s 0 of None \<Rightarrow> s | Some (k, _, _) \<Rightarrow> take k s)"

definition closing :: rx where
  "closing = seq [Rep 1 (\<lambda>c. is_space c \<or> one_of ''.,;:!?'' c), Eos]"

fun keep_words :: "nat \<Rightarrow> string list \<Rightarrow> string list \<Rightarrow> string list" where
  "keep_words maxLength kept [] = kept"
| "keep_words maxLength kept (w # ws) =
     (if maxLength < length (join '' '' (kept @ [w])) then kept else keep_words maxLength (kept @ [w]) ws)"

function drop_stopwords :: "string list \<Rightarrow> string list" where
  "drop_stopwords kept =
     (if 1 < length kept \<and> to_lower (last kept) \<in> set TRAILING_STOPWORDS then drop_stopwords (butlast kept) else kept)"
  by pat_completeness auto
termination by (relation "measure length") auto

declare drop_stopwords.simps [simp del]

definition title_words :: "string \<Rightarrow> string list" where
  "title_words message =
     (let collapsed = replace_all spaces '' '' (trim message);
          clause = replace_first (LEADING_FILLER (length collapsed)) [] (first_clause collapsed) in
      filter (\<lambda>w. w \<noteq> [] \<and> to_lower w \<notin> set ARTICLES) (split_on CHR '' '' (replace_first closing [] clause)))"

text \<open>\<open>toLocaleUpperCase\<close> outside the locales with a dotted i.\<close>

definition titleFromFirstMessage :: "string \<Rightarrow> nat \<Rightarrow> string option" where
  "titleFromFirstMessage message maxLength =
     (let words = title_words message;
          kept = keep_words maxLength [] (take AUTO_WORKBENCH_TITLE_MAX_WORDS words);
          kept' = drop_stopwords (if kept = [] \<and> words \<noteq> [] then [take maxLength (hd words)] else kept);
          title = replace_first closing [] (join '' '' kept') in
      if title = [] then None else Some (title_word title))"

definition autoNameFromFirstMessage :: "string \<Rightarrow> string \<Rightarrow> string option" where
  "autoNameFromFirstMessage currentTitle firstMessage =
     (if currentTitle \<noteq> NEW_WORKBENCH_TITLE then None
      else titleFromFirstMessage firstMessage AUTO_WORKBENCH_TITLE_MAX)"

section \<open>The guard against internal ids\<close>

text \<open>The classes an expression reads; the match depends on a string through them and the word boundaries alone.\<close>

fun classes :: "rx \<Rightarrow> (char \<Rightarrow> bool) list" where
  "classes (Cls P) = [P]"
| "classes (Rep _ P) = [P]"
| "classes (Lazy _ P) = [P]"
| "classes (Ahead r) = classes r"
| "classes (NotAhead r) = classes r"
| "classes (Seq r q) = classes r @ classes q"
| "classes (Alt r q) = classes r @ classes q"
| "classes (Opt r) = classes r"
| "classes (Grp _ r) = classes r"
| "classes _ = []"

definition keeps_class :: "(char \<Rightarrow> char \<Rightarrow> bool) \<Rightarrow> (char \<Rightarrow> bool) \<Rightarrow> bool" where
  "keeps_class R P \<longleftrightarrow> (\<forall>c d. R c d \<longrightarrow> P c = P d)"

lemma run_length_cong:
  assumes "list_all2 R s t" and "keeps_class R P"
  shows "run_length P s i = run_length P t i"
proof -
  have "length (takeWhile P xs) = length (takeWhile P ys)" if "list_all2 R xs ys" for xs ys
    using that assms(2) by (induction rule: list_all2_induct) (auto simp: keeps_class_def)
  then show ?thesis using assms(1) by (simp add: run_length_def list_all2_dropI)
qed

lemma word_at_cong:
  assumes "list_all2 R s t" and "keeps_class R is_word"
  shows "word_at s = word_at t"
  using assms by (auto simp: fun_eq_iff word_at_def keeps_class_def list_all2_conv_all_nth)

lemma match_ends_cong:
  assumes "list_all2 R s t" and "keeps_class R is_word" and "list_all (keeps_class R) (classes r)"
  shows "match_ends r s st = match_ends r t st"
  using assms(3)
proof (induction r arbitrary: st)
  case (Cls P)
  then show ?case using list_all2_lengthD [OF assms(1)] list_all2_nthD2 [OF assms(1)]
    by (cases st) (auto simp: keeps_class_def)
next
  case (Seq r q)
  then show ?case by (simp add: map_eq_conv [symmetric] cong: map_cong)
next
  case (Ahead r)
  then show ?case by (cases st) simp
next
  case (NotAhead r)
  then show ?case by (cases st) simp
next
  case (Grp k r)
  then show ?case by (cases st) simp
next
  case (Rep lo P)
  then show ?case by (cases st) (simp add: run_length_cong [OF assms(1)])
next
  case (Lazy lo P)
  then show ?case by (cases st) (simp add: run_length_cong [OF assms(1)])
next
  case Wb
  then show ?case by (cases st) (simp add: boundary_def word_at_cong [OF assms(1,2)])
next
  case Bos
  then show ?case by (cases st) simp
next
  case Eos
  then show ?case by (cases st) (simp add: list_all2_lengthD [OF assms(1)])
qed simp_all

lemma exec_from_cong:
  assumes "list_all2 R s t" and "keeps_class R is_word" and "list_all (keeps_class R) (classes r)"
  shows "exec_from r s i = exec_from r t i"
proof -
  have "match_at r s = match_at r t" using match_ends_cong [OF assms] by (simp add: fun_eq_iff match_at_def)
  then show ?thesis using list_all2_lengthD [OF assms(1)] by (simp add: exec_from_def cong: option.case_cong)
qed

text \<open>A slug and the name it becomes differ in the case of letters and in the spaces that were hyphens.\<close>

definition humanized :: "char \<Rightarrow> char \<Rightarrow> bool" where
  "humanized c d \<longleftrightarrow> lower_char d = lower_char c \<or> c = CHR ''-'' \<and> d = CHR '' ''"

lemma char_codes: "char_code CHR '' '' = 32" "char_code CHR ''-'' = 45" "char_code CHR ''_'' = 95" "char_code CHR 0xDF = 223"
  by (simp_all add: char_code_def)

lemma lower_char_classes:
  "is_word (lower_char c) = is_word c" "is_digit (lower_char c) = is_digit c" "is_space (lower_char c) = is_space c"
  by (auto simp: lower_char_def is_word_def is_alnum_def is_digit_def is_ascii_upper_def is_ascii_lower_def
        is_space_def in_range_def char_codes char_code_eq_iff [symmetric])

lemma humanized_keeps:
  assumes "\<And>c. P (lower_char c) = P c" and "P CHR '' '' = P CHR ''-''"
  shows "keeps_class humanized P"
  unfolding keeps_class_def humanized_def using assms by metis

lemma lower_char_fixed: "lower_char c = CHR '' '' \<longleftrightarrow> c = CHR '' ''" "lower_char c = CHR ''-'' \<longleftrightarrow> c = CHR ''-''"
  "lower_char c = CHR ''_'' \<longleftrightarrow> c = CHR ''_''"
  by (auto simp: lower_char_def in_range_def char_codes char_code_eq_iff [symmetric] split: if_splits)

lemma classes_liti: "classes (liti w) = map (\<lambda>c d. lower_char d = lower_char c) w"
  by (induction w) (simp_all add: chi_def)

lemma classes_alt: "classes (alt rs) = concat (map classes rs) @ [\<lambda>_. False]"
  by (induction rs) simp_all

lemma leak_classes: "list_all (keeps_class humanized) (classes ID_LEAK_PATTERN)"
proof -
  have "keeps_class humanized (\<lambda>d. lower_char d = lower_char c)" if "is_ascii_lower c" for c
  proof -
    have "lower_char c = c" using that by (auto simp: lower_char_def is_ascii_lower_def in_range_def)
    moreover have "c \<noteq> CHR '' ''" "c \<noteq> CHR ''-''"
      using that by (auto simp: is_ascii_lower_def in_range_def char_codes)
    ultimately show ?thesis by (intro humanized_keeps) (simp_all add: lower_char_code)
  qed
  moreover have "list_all (list_all is_ascii_lower) ID_PREFIX_WORDS"
    by (simp add: ID_PREFIX_WORDS_def is_ascii_lower_code)
  ultimately have "list_all (keeps_class humanized) (concat (map (\<lambda>w. classes (liti w)) ID_PREFIX_WORDS))"
    by (auto simp: classes_liti list_all_iff)
  moreover have "keeps_class humanized is_hex"
    by (rule humanized_keeps) (simp_all add: is_hex_def one_of_def lower_char_classes lower_char_code is_digit_code)
  moreover have "keeps_class humanized (\<lambda>c. c = CHR ''_'' \<or> is_space c \<or> c = CHR ''-'')"
    by (rule humanized_keeps) (simp_all add: lower_char_classes lower_char_fixed is_space_code)
  moreover have "keeps_class humanized (\<lambda>_. False)" by (simp add: keeps_class_def)
  ultimately show ?thesis by (simp add: ID_LEAK_PATTERN_def classes_alt comp_def)
qed

lemma words_of_slug:
  assumes "list_all (\<lambda>c. slug_char c \<or> c = CHR ''-'') s"
  shows "split_on CHR '' '' (map (\<lambda>c. if slug_sep c then CHR '' '' else c) s) = split_on CHR ''-'' s"
proof -
  have sep: "\<not> slug_sep c" "c \<noteq> CHR '' ''" "c \<noteq> CHR ''-''" if "slug_char c" for c
    using that by (auto simp: slug_char_def slug_sep_def is_digit_def is_ascii_lower_def is_space_def in_range_def
        char_codes char_code_eq_iff [symmetric])
  have "slug_sep CHR ''-''" "\<not> slug_char CHR '' ''" using sep(2) by (auto simp: slug_sep_def)
  then show ?thesis using assms by (induction s) (auto simp: sep split: list.splits)
qed


text \<open>For a slug the name is what the parts become, so the guard on the slug is the guard on the name.\<close>

lemma humanized_upper: "slug_char c \<Longrightarrow> \<exists>d. upper_char c = [d] \<and> humanized c d"
  by (auto simp: upper_char_def humanized_def lower_char_def slug_char_def is_digit_def is_ascii_lower_def
        in_range_def char_codes)

lemma humanized_refl: "humanized c c"
  by (simp add: humanized_def)

lemma humanized_word: "list_all slug_char w \<Longrightarrow> list_all2 humanized w (title_word w)"
proof (cases w)
  case (Cons c cs)
  assume "list_all slug_char w"
  with Cons obtain d where "upper_char c = [d]" "humanized c d" using humanized_upper [of c] by auto
  with Cons show ?thesis by (simp add: title_word_def humanized_refl list_all2_refl)
qed (simp add: title_word_def)

lemma humanized_join:
  "list_all (list_all slug_char) ws \<Longrightarrow> list_all2 humanized (join ''-'' ws) (join '' '' (map title_word ws))"
proof (induction ws)
  case (Cons w ws)
  then show ?case
    by (cases ws) (auto simp: humanized_word humanized_def [of "CHR ''-''"] intro!: list_all2_appendI)
qed simp

lemma slug_parts_chars: "slug_pattern s \<Longrightarrow> list_all (\<lambda>c. slug_char c \<or> c = CHR ''-'') s"
proof -
  have "set (join ''-'' ws) \<subseteq> {CHR ''-''} \<union> \<Union> (set (map set ws))" for ws
    by (induction "''-''" ws rule: join.induct) auto
  from this [of "split_on CHR ''-'' s"] show "slug_pattern s \<Longrightarrow> list_all (\<lambda>c. slug_char c \<or> c = CHR ''-'') s"
    by (fastforce simp: join_split_on slug_pattern_def list_all_iff)
qed



text \<open>
  For other names it is not: an id with a further part before it, joined by an underscore, passes the guard and becomes a
  name that carries it.
\<close>

lemma guard_missed_id:
  "deriveDisplayName (JObj [(''name'', JStr ''x_run_0123456789abcdef'')]) = Inr ''X Run 0123456789abcdef'' \<and>
   test ID_LEAK_PATTERN ''X Run 0123456789abcdef''"
  by code_simp

section \<open>The line that states a name\<close>

text \<open>An expression that only reads characters of a class.\<close>

definition reads :: "(char \<Rightarrow> bool) \<Rightarrow> rx \<Rightarrow> bool" where
  "reads P r \<longleftrightarrow> (\<forall>s i cs j cs'. (j, cs') \<in> set (match_ends r s (i, cs)) \<longrightarrow>
     i \<le> j \<and> (\<forall>m. i \<le> m \<and> m < j \<longrightarrow> m < length s \<and> P (s ! m)))"

lemma run_length_chars: "m < run_length P s i \<Longrightarrow> i + m < length s \<and> P (s ! (i + m))"
proof -
  assume m: "m < run_length P s i"
  then have "takeWhile P (drop i s) ! m = drop i s ! m" by (simp add: run_length_def takeWhile_nth)
  moreover have "takeWhile P (drop i s) ! m \<in> set (takeWhile P (drop i s))" using m by (simp add: run_length_def)
  moreover have "m < length (drop i s)" using m length_takeWhile_le [of P "drop i s"] by (simp add: run_length_def)
  ultimately show ?thesis using set_takeWhileD by (fastforce simp: nth_drop)
qed

lemma run_length_covers: "i \<le> m \<Longrightarrow> m < i + k \<Longrightarrow> k \<le> run_length P s i \<Longrightarrow> m < length s \<and> P (s ! m)"
  using run_length_chars [of "m - i" P s i] by simp

lemma reads_cls: "(\<And>c. Q c \<Longrightarrow> P c) \<Longrightarrow> reads P (Cls Q)"
  by (auto simp: reads_def less_Suc_eq)

lemma run_of:
  "(j, cs') \<in> set (match_ends (Rep lo Q) s (i, cs)) \<or> (j, cs') \<in> set (match_ends (Lazy lo Q) s (i, cs)) \<Longrightarrow>
     \<exists>k. j = i + k \<and> k \<le> run_length Q s i"
  by (auto simp: Let_def split: if_splits)

lemma reads_rep:
  assumes "\<And>c. Q c \<Longrightarrow> P c"
  shows "reads P (Rep lo Q)" and "reads P (Lazy lo Q)"
proof -
  have "i \<le> j \<and> (\<forall>m. i \<le> m \<and> m < j \<longrightarrow> m < length s \<and> P (s ! m))"
    if "(j, cs') \<in> set (match_ends (Rep lo Q) s (i, cs)) \<or> (j, cs') \<in> set (match_ends (Lazy lo Q) s (i, cs))" for s i j cs cs'
  proof -
    from run_of [OF that] obtain k where k: "j = i + k" "k \<le> run_length Q s i" by blast
    have "m < length s \<and> P (s ! m)" if "i \<le> m" "m < i + k" for m
      using run_length_covers [OF that k(2)] assms by blast
    with k show ?thesis by simp
  qed
  then show "reads P (Rep lo Q)" and "reads P (Lazy lo Q)" unfolding reads_def by blast+
qed

lemma reads_seq: "reads P r \<Longrightarrow> reads P q \<Longrightarrow> reads P (Seq r q)"
proof -
  assume r: "reads P r" and q: "reads P q"
  show "reads P (Seq r q)"
    unfolding reads_def
  proof (intro allI impI)
    fix s i cs j cs'
    assume "(j, cs') \<in> set (match_ends (Seq r q) s (i, cs))"
    then obtain h ds where "(h, ds) \<in> set (match_ends r s (i, cs))" "(j, cs') \<in> set (match_ends q s (h, ds))" by auto
    with r q show "i \<le> j \<and> (\<forall>m. i \<le> m \<and> m < j \<longrightarrow> m < length s \<and> P (s ! m))"
      unfolding reads_def by (meson le_trans not_le)
  qed
qed

lemma reads_grp: "reads P r \<Longrightarrow> reads P (Grp k r)"
  unfolding reads_def by fastforce

lemma reads_none: "reads P Eos" "reads P Empty"
  by (auto simp: reads_def)

lemma reads_liti: "(\<And>c d. c \<in> set w \<Longrightarrow> lower_char d = lower_char c \<Longrightarrow> P d) \<Longrightarrow> reads P (liti w)"
  by (induction w) (auto simp: chi_def reads_none intro!: reads_seq reads_cls)

lemma name_line_reads:
  "reads not_newline (seq [Rep 0 blank, liti ''Name:'', Rep 0 blank, Grp 1 (Lazy 1 not_newline), Rep 0 blank, Eos])"
proof -
  have "reads not_newline (Rep 0 blank)" by (rule reads_rep) (auto simp: blank_def not_newline_def)
  moreover have "reads not_newline (liti ''Name:'')"
    by (rule reads_liti) (auto simp: not_newline_def lower_char_code)
  moreover have "reads not_newline (Grp 1 (Lazy 1 not_newline))" by (intro reads_grp reads_rep)
  ultimately show ?thesis by (simp add: reads_seq reads_none)
qed

lemma match_to_end:
  "(j, cs') \<in> set (match_ends (seq (rs @ [Eos])) s (i, cs)) \<Longrightarrow> j = length s"
  by (induction rs arbitrary: i cs) (auto split: if_splits)

text \<open>Only the last line can state it.\<close>

lemma name_line_at:
  assumes "match_at NAME_LINE s k = Some (j, cs)"
  shows "k < length s \<and> s ! k = CHR 0x0A \<and> j = length s \<and> CHR 0x0A \<notin> set (drop (k + 1) s)"
proof -
  let ?rest = "seq [Rep 0 blank, liti ''Name:'', Rep 0 blank, Grp 1 (Lazy 1 not_newline), Rep 0 blank, Eos]"
  have "(j, cs) \<in> set (match_ends (Seq (ch CHR 0x0A) ?rest) s (k, []))"
    using match_at_mem [OF assms] by (simp add: NAME_LINE_def)
  then have k: "k < length s" "s ! k = CHR 0x0A" and rest: "(j, cs) \<in> set (match_ends ?rest s (k + 1, []))"
    by (auto simp: ch_def simp del: seq.simps split: if_splits)
  have j: "j = length s"
    using match_to_end [of j cs "[Rep 0 blank, liti ''Name:'', Rep 0 blank, Grp 1 (Lazy 1 not_newline), Rep 0 blank]" s "k + 1" "[]"] rest
    by (simp only: append.simps)
  have "\<forall>m. k + 1 \<le> m \<and> m < length s \<longrightarrow> s ! m \<noteq> CHR 0x0A"
    using name_line_reads rest unfolding reads_def j not_newline_def by blast
  then have "CHR 0x0A \<notin> set (drop (k + 1) s)" by (auto simp: in_set_conv_nth)
  with k j show ?thesis by simp
qed


text \<open>The match an expression tries first.\<close>

definition first :: "rx \<Rightarrow> string \<Rightarrow> nat \<times> captures \<Rightarrow> nat \<times> captures \<Rightarrow> bool" where
  "first r s st m \<longleftrightarrow> (\<exists>ms. match_ends r s st = m # ms)"

lemma first_seq: "first r s st m \<Longrightarrow> first q s m x \<Longrightarrow> first (Seq r q) s st x"
  by (auto simp: first_def)

lemma first_match: "first r s (i, []) m \<Longrightarrow> match_at r s i = Some m"
  by (auto simp: first_def match_at_def)

definition stated :: "string \<Rightarrow> string \<Rightarrow> string" where
  "stated b n = b @ [CHR 0x0A] @ ''Name: '' @ n"

lemma stated_drops:
  "drop (length b + 1) (stated b n) = ''Name: '' @ n" "drop (length b + 6) (stated b n) = '' '' @ n"
  "drop (length b + 7) (stated b n) = n" "length (stated b n) = length b + 7 + length n"
  by (simp_all add: stated_def)

lemma stated_nth: "stated b n ! (length b + m) = ([CHR 0x0A] @ ''Name: '' @ n) ! m"
  by (simp add: stated_def nth_append_length_plus)

definition name_ok :: "string \<Rightarrow> bool" where
  "name_ok n \<longleftrightarrow> n \<noteq> [] \<and> \<not> is_space (hd n) \<and> \<not> is_space (last n) \<and> CHR 0x0A \<notin> set n"

lemma blank_space: "blank c \<Longrightarrow> is_space c"
  by (auto simp: blank_def is_space_code)

lemma run_short:
  assumes "name_ok n" and "k < length n" and "drop i s = n"
  shows "k + run_length blank s (i + k) < length n"
proof -
  let ?w = "drop k n"
  have w: "?w \<noteq> []" "last ?w = last n" using assms(2) by simp_all
  have d: "drop (i + k) s = ?w" using assms(3) by (metis add.commute drop_drop)
  have "length (takeWhile blank ?w) \<noteq> length ?w"
  proof
    assume "length (takeWhile blank ?w) = length ?w"
    then have "takeWhile blank ?w = ?w" by (metis takeWhile_eq_take take_all_iff order_refl)
    then have "blank (last ?w)" using w(1) by (metis last_in_set set_takeWhileD)
    with w(2) assms(1) blank_space show False by (auto simp: name_ok_def)
  qed
  then have "length (takeWhile blank ?w) < length ?w" using length_takeWhile_le [of blank ?w] by linarith
  with d assms(2) show ?thesis by (simp add: run_length_def)
qed

lemma name_tail:
  assumes "name_ok n" and "drop i s = n" and "i + length n = length s" and "k \<le> length n"
  shows "match_ends (seq [Rep 0 blank, Eos]) s (i + k, cs) = (if k = length n then [(length s, cs)] else [])"
proof (cases "k = length n")
  case True
  then have "run_length blank s (i + k) = 0" using assms(3) by (simp add: run_length_def)
  with True assms(3) show ?thesis by simp
next
  case False
  with assms(4) run_short [OF assms(1) _ assms(2), of k] have "k + run_length blank s (i + k) < length n" by simp
  then have "i + k + m \<noteq> length s" if "m \<le> run_length blank s (i + k)" for m using that assms(3) by linarith
  with False show ?thesis by (auto simp: Let_def)
qed

lemma first_name:
  assumes "name_ok n" and "drop i s = n" and "i + length n = length s"
  shows "first (Seq (Grp 1 (Lazy 1 not_newline)) (seq [Rep 0 blank, Eos])) s (i, []) (length s, [(1, i, length s)])"
proof -
  let ?tail = "match_ends (seq [Rep 0 blank, Eos]) s"
  have n: "0 < length n" using assms(1) by (simp add: name_ok_def)
  have "takeWhile not_newline n = n" using assms(1) by (auto simp: name_ok_def not_newline_def takeWhile_eq_all_conv)
  then have "length (takeWhile not_newline n) = length n" by (rule arg_cong)
  then have run: "run_length not_newline s i = length n" using assms(2) by (simp add: run_length_def)
  have split: "[1..<length n + 1] = [1..<length n] @ [length n]" using n by (simp add: Suc_le_eq)
  have none: "concat (map (\<lambda>k. ?tail (i + k, [(1, i, i + k)])) [1..<length n]) = []"
    using name_tail [OF assms] by (simp del: seq.simps)
  have one: "?tail (i + length n, [(1, i, i + length n)]) = [(length s, [(1, i, length s)])]"
    using name_tail [OF assms, of "length n"] assms(3) by (simp del: seq.simps)
  have "match_ends (Seq (Grp 1 (Lazy 1 not_newline)) (seq [Rep 0 blank, Eos])) s (i, []) =
      concat (map (\<lambda>k. ?tail (i + k, [(1, i, i + k)])) [1..<length n + 1])"
    using run n by (simp add: Let_def comp_def del: seq.simps upt_Suc)
  also have "\<dots> = [(length s, [(1, i, length s)])]" using none one by (simp only: split map_append concat_append) simp
  finally show ?thesis by (simp add: first_def)
qed


lemma match_liti: "take (length w) (drop i s) = w \<Longrightarrow> match_ends (liti w) s (i, cs) = [(i + length w, cs)]"
proof (induction w arbitrary: i)
  case (Cons c w)
  then obtain t where t: "drop i s = c # t" by (cases "drop i s") auto
  then have i: "i < length s" "s ! i = c" by (metis drop_eq_Nil list.distinct(1) not_le) (metis nth_via_drop t)
  have "drop (i + 1) s = t" using t by (metis Suc_eq_plus1 drop_Suc list.sel(3) tl_drop)
  with Cons t i show ?case by (simp add: chi_def)
qed simp

lemma stated_first:
  assumes "name_ok n"
  shows "match_at NAME_LINE (stated b n) (length b) = Some (length (stated b n), [(1, length b + 7, length (stated b n))])"
proof -
  let ?s = "stated b n" and ?i = "length b"
  have "first (ch CHR 0x0A) ?s (?i, []) (?i + 1, [])"
    using stated_nth [of b n 0] stated_drops(4) [of b n] by (simp add: first_def ch_def)
  moreover have "first (Rep 0 blank) ?s (?i + 1, []) (?i + 1, [])"
    using stated_drops(1) [of b n] by (simp add: first_def run_length_def blank_def)
  moreover have "first (liti ''Name:'') ?s (?i + 1, []) (?i + 6, [])"
    using match_liti [of "''Name:''" "?i + 1" ?s] stated_drops(1) [of b n] by (simp add: first_def del: liti.simps)
  moreover have "first (Rep 0 blank) ?s (?i + 6, []) (?i + 7, [])"
  proof -
    have "takeWhile blank ('' '' @ n) = '' ''"
      using assms blank_space by (cases n) (auto simp: name_ok_def blank_def)
    then have "run_length blank ?s (?i + 6) = 1" by (simp add: run_length_def stated_drops)
    then show ?thesis by (simp add: first_def)
  qed
  moreover have "first (Seq (Grp 1 (Lazy 1 not_newline)) (seq [Rep 0 blank, Eos])) ?s (?i + 7, [])
      (length ?s, [(1, ?i + 7, length ?s)])"
    using first_name [OF assms stated_drops(3)] stated_drops(4) by metis
  ultimately have "first (Seq (ch CHR 0x0A) (Seq (Rep 0 blank) (Seq (liti ''Name:'') (Seq (Rep 0 blank)
      (Seq (Grp 1 (Lazy 1 not_newline)) (seq [Rep 0 blank, Eos])))))) ?s (?i, []) (length ?s, [(1, ?i + 7, length ?s)])"
    by (meson first_seq)
  from first_match [OF this] show ?thesis by (simp only: NAME_LINE_def seq.simps)
qed

lemma stated_exec:
  assumes "name_ok n"
  shows "exec_from NAME_LINE (stated b n) 0 =
    Some (length b, length (stated b n), [(1, length b + 7, length (stated b n))])"
proof -
  let ?s = "stated b n"
  have before: "match_at NAME_LINE ?s k = None" if "k < length b" for k
  proof (rule ccontr)
    assume "match_at NAME_LINE ?s k \<noteq> None"
    then obtain j cs where "match_at NAME_LINE ?s k = Some (j, cs)" by auto
    from name_line_at [OF this] have "CHR 0x0A \<notin> set (drop (k + 1) ?s)" by blast
    with that show False by (simp add: stated_def)
  qed
  have "find (\<lambda>k. match_at NAME_LINE ?s k \<noteq> None) [0..<length ?s + 1] = Some (length b)"
    unfolding find_Some_iff
    using before stated_first [OF assms, of b] stated_drops(4) [of b n] by (intro exI [of _ "length b"]) (auto simp del: upt_Suc)
  then show ?thesis using stated_first [OF assms, of b] by (simp add: exec_from_def del: upt_Suc)
qed

lemma trim_end_id: "s \<noteq> [] \<Longrightarrow> \<not> is_space (last s) \<Longrightarrow> trim_end s = s"
  by (cases s rule: rev_cases) (simp_all add: trim_end_def)

lemma valid_name_ok: "validWorkerName n = Some n \<Longrightarrow> name_ok n"
  using trim_ends [of n]
  by (auto simp: validWorkerName_def name_ok_def Let_def list_all_iff is_letter_def is_ascii_upper_code is_ascii_lower_code
        char_code_def split: if_splits)

text \<open>
  C40. A message that ends with the line stating a name the bench accepts is read back as that name, and is shown without that
  line and otherwise unchanged.
\<close>

theorem name_line_roundtrip:
  assumes "validWorkerName n = Some n"
  shows "nameFromMessage (b @ [CHR 0x0A] @ ''Name: '' @ n) = Some n \<and>
         stripNameLine (b @ [CHR 0x0A] @ ''Name: '' @ n) = b"
proof -
  have ok: "name_ok n" by (rule valid_name_ok [OF assms])
  then have "trim_end (stated b n) = stated b n"
    by (intro trim_end_id) (auto simp: stated_def name_ok_def)
  moreover have "captured (stated b n) [(1, length b + 7, length (stated b n))] 1 = n"
    by (simp add: captured_def slice_def stated_drops)
  ultimately have "nameFromMessage (stated b n) = Some n" "stripNameLine (stated b n) = b"
    using stated_exec [OF ok, of b] assms
    by (simp_all add: nameFromMessage_def stripNameLine_def replace_first_def) (simp add: stated_def)
  then show ?thesis by (simp add: stated_def)
qed

theorem name_line_roundtrip_witness:
  "nameFromMessage (''Hello!'' @ [CHR 0x0A] @ ''Name: '' @ ''Ann-Marie'') = Some ''Ann-Marie'' \<and>
   stripNameLine (''Hello!'' @ [CHR 0x0A] @ ''Name: '' @ ''Ann-Marie'') = ''Hello!''"
proof (rule name_line_roundtrip)
  show "validWorkerName ''Ann-Marie'' = Some ''Ann-Marie''" by code_simp
qed

section \<open>The title of a first message\<close>

lemma replace_first_shorter: "length (replace_first r [] s) \<le> length s"
proof (cases "exec_from r s 0")
  case (Some x)
  obtain k j cs where x: "x = (k, j, cs)" by (cases x)
  with exec_from_bounds [of r s 0 k j cs] Some have "k \<le> length s" "match_at r s k = Some (j, cs)" by auto
  with match_at_bounds [of r s k j cs] have "k \<le> j" "j \<le> length s" by auto
  with Some x show ?thesis by (simp add: replace_first_def)
qed (simp add: replace_first_def)

lemma keep_words_fits:
  "length (join '' '' kept) \<le> m \<Longrightarrow> length (join '' '' (keep_words m kept ws)) \<le> m"
  by (induction m kept ws rule: keep_words.induct) simp_all

lemma drop_stopwords_prefix: "\<exists>k. drop_stopwords kept = take k kept"
proof (induction kept rule: drop_stopwords.induct)
  case (1 kept)
  show ?case
  proof (cases "1 < length kept \<and> to_lower (last kept) \<in> set TRAILING_STOPWORDS")
    case True
    with 1 obtain k where "drop_stopwords (butlast kept) = take k (butlast kept)" by blast
    with True show ?thesis by (subst drop_stopwords.simps) (auto simp: butlast_conv_take take_take)
  next
    case False
    then show ?thesis by (subst drop_stopwords.simps) (auto intro: exI [of _ "length kept"])
  qed
qed

lemma join_step: "length (join '' '' (w # xs)) \<le> Suc (length w + length (join '' '' xs))"
  by (cases xs) simp_all

lemma join_take: "length (join '' '' (take k ws)) \<le> length (join '' '' ws)"
proof (induction ws arbitrary: k)
  case (Cons w ws)
  have "length (join '' '' (w # take m ws)) \<le> length (join '' '' (w # ws))" for m
    using Cons [of m] join_step [of w "take m ws"] by (cases ws; cases m) (auto simp del: take_Suc_Cons simp: join_Cons)
  then show ?case by (cases k) simp_all
qed simp

definition grown :: "string \<Rightarrow> nat" where
  "grown t = (if take 2 t = ''SS'' then 1 else 0)"

lemma title_word_length: "length (title_word s) \<le> length s + grown (title_word s)"
  by (cases s) (auto simp: title_word_def upper_char_def grown_def)

text \<open>
  Also shown. The title made of a first message is never empty and never longer than the cap, but for one character when its first
  letter is a sharp s, whose capital is two.
\<close>

theorem title_bounded:
  assumes "titleFromFirstMessage message maxLength = Some t"
  shows "t \<noteq> [] \<and> length t \<le> maxLength + grown t"
proof -
  define kept where "kept = keep_words maxLength [] (take AUTO_WORKBENCH_TITLE_MAX_WORDS (title_words message))"
  define filled where
    "filled = (if kept = [] \<and> title_words message \<noteq> [] then [take maxLength (hd (title_words message))] else kept)"
  have "length (join '' '' kept) \<le> maxLength" by (simp add: kept_def keep_words_fits)
  then have "length (join '' '' filled) \<le> maxLength" by (simp add: filled_def)
  then have "length (join '' '' (drop_stopwords filled)) \<le> maxLength"
    using drop_stopwords_prefix [of filled] join_take le_trans by metis
  then have fits: "length (replace_first closing [] (join '' '' (drop_stopwords filled))) \<le> maxLength"
    using replace_first_shorter le_trans by blast
  from assms have "replace_first closing [] (join '' '' (drop_stopwords filled)) \<noteq> []"
    and t: "t = title_word (replace_first closing [] (join '' '' (drop_stopwords filled)))"
    by (auto simp: titleFromFirstMessage_def kept_def filled_def Let_def split: if_splits)
  then have "t \<noteq> []" by (auto simp: title_word_def upper_char_def split: list.splits)
  with fits title_word_length [of "replace_first closing [] (join '' '' (drop_stopwords filled))"] show ?thesis
    unfolding t by linarith
qed

theorem title_bounded_witness:
  "''Summarize weekly sales'' \<noteq> [] \<and> length ''Summarize weekly sales'' \<le> 24 + grown ''Summarize weekly sales''"
proof (rule title_bounded)
  show "titleFromFirstMessage ''please summarize the weekly sales report for me'' 24 = Some ''Summarize weekly sales''"
    by code_simp
qed

section \<open>Setting one key of the configuration\<close>

lemma apiRequest_sends_one:
  "apiRequest hub rq sch v cls on401 n = (out, n') \<Longrightarrow> map fst (sent n') = map fst (sent n) @ [rq]"
  by (drule apiRequest_outcome_sent) auto

text \<open>
  Also shown. Setting a key of the configuration reads it and writes it back: what is written has every other key of the
  configuration just read and the new value under the key, in one request, and nothing is written when the read failed.
\<close>

theorem config_keeps_other_keys:
  "case fetchTenantDetail hub parse t n of
     (Inl e, m) \<Rightarrow> patchTenantConfigKey hub parse config t k v n = (Inl e, m) \<and> map fst (sent m) = map fst (sent n) @ [get (tenant_detail_path t)]
   | (Inr d, m) \<Rightarrow>
       \<exists>es. map fst (sent (snd (patchTenantConfigKey hub parse config t k v n))) =
           map fst (sent n) @ [get (tenant_detail_path t), patch (tenant_detail_path t) (JObj [(''config'', JObj es)])] \<and>
         map_of es = (map_of (case config d of None \<Rightarrow> [] | Some es \<Rightarrow> es))(k \<mapsto> JStr v)"
proof (cases "fetchTenantDetail hub parse t n")
  case (Pair out m)
  then have m: "map fst (sent m) = map fst (sent n) @ [get (tenant_detail_path t)]"
    by (simp add: fetchTenantDetail_def apiRequest_sends_one)
  show ?thesis
  proof (cases out)
    case (Inl e)
    with Pair m show ?thesis by (simp add: patchTenantConfigKey_def bindE_def)
  next
    case (Inr d)
    let ?rq = "config_request t (config d) k v"
    obtain o' m' where r: "apiRequest hub ?rq (on_json ''shape'' parse) (Some ''updating tenant configuration'') ''ApiQueryError'' True m = (o', m')"
      by (meson surj_pair)
    then have "patchTenantConfigKey hub parse config t k v n = (o', m')"
      using Pair Inr by (simp add: patchTenantConfigKey_def bindE_def)
    with apiRequest_sends_one [OF r] m Pair Inr show ?thesis
      by (auto simp: config_request_def update_conv')
  qed
qed

section \<open>The label of a principal\<close>

lemma find_upt: "find P [i..<n] = Some k \<Longrightarrow> i \<le> m \<Longrightarrow> m < k \<Longrightarrow> \<not> P m"
proof (induction "n - i" arbitrary: i)
  case (Suc d)
  then have u: "[i..<n] = i # [Suc i..<n]" by (simp add: upt_conv_Cons)
  show ?case
  proof (cases "P i")
    case True
    with Suc u show ?thesis by simp
  next
    case False
    with Suc.prems u have "find P [Suc i..<n] = Some k" by simp
    with Suc.hyps(1) [of "Suc i"] Suc.hyps(2) Suc.prems False show ?thesis by (cases "m = i") auto
  qed
qed simp

lemma exec_from_None:
  assumes "exec_from r s i = None" and "i \<le> k" and "k \<le> length s"
  shows "match_at r s k = None"
proof -
  have "find (\<lambda>k. match_at r s k \<noteq> None) [i..<length s + 1] = None"
    using assms(1) by (auto simp: exec_from_def simp del: upt_Suc split: option.splits dest: find_SomeD)
  then have "\<forall>x \<in> set [i..<length s + 1]. \<not> match_at r s x \<noteq> None" unfolding find_None_iff by blast
  with assms show ?thesis by (cases "match_at r s k") (simp_all del: upt_Suc, force)
qed

lemma exec_from_earlier:
  assumes "exec_from r s i = Some (k, x)" and "i \<le> m" and "m < k"
  shows "match_at r s m = None"
proof -
  have "find (\<lambda>k. match_at r s k \<noteq> None) [i..<length s + 1] = Some k"
    using assms(1) by (auto simp: exec_from_def simp del: upt_Suc split: option.splits)
  from find_upt [OF this assms(2,3)] show ?thesis by blast
qed

lemma match_class:
  "match_at (Rep (Suc 0) P) s k = (if k < length s \<and> P (s ! k) then Some (k + run_length P s k, []) else None)"
proof (cases "k < length s \<and> P (s ! k)")
  case True
  then obtain t where "drop k s = s ! k # t" by (metis Cons_nth_drop_Suc)
  with True have "1 \<le> run_length P s k" by (simp add: run_length_def)
  with True show ?thesis by (simp add: match_at_def Let_def)
next
  case False
  then have "run_length P s k = 0"
    by (cases "drop k s") (auto simp: run_length_def nth_via_drop dest: nth_via_drop)
  with False show ?thesis by (simp add: match_at_def)
qed

lemma set_slice: "c \<in> set (slice s i k) \<Longrightarrow> \<exists>m. i \<le> m \<and> m < k \<and> m < length s \<and> c = s ! m"
  by (auto simp: slice_def in_set_conv_nth) (metis add.commute less_diff_conv le_add1 nth_drop)

text \<open>After \<open>replace\<close> of every run of a class no character of the class is left but those put in.\<close>

lemma replace_from_class:
  "c \<in> set (replace_from (Rep (Suc 0) P) g s i) \<Longrightarrow> (\<exists>m < length s. c = s ! m \<and> \<not> P c) \<or> (\<exists>cs. c \<in> set (g cs))"
proof (induction "Rep (Suc 0) P" g s i rule: replace_from.induct)
  case (1 g s i)
  show ?case
  proof (cases "exec_from (Rep (Suc 0) P) s i")
    case None
    then have no: "\<not> P (s ! m)" if "i \<le> m" "m < length s" for m
      using exec_from_None [OF None that(1)] that by (auto simp: match_class split: if_splits)
    from 1(3) None have "c \<in> set (drop i s)" by (subst (asm) replace_from.simps) simp
    then obtain m where "m < length s - i" "c = s ! (i + m)" by (auto simp: in_set_conv_nth)
    then show ?thesis using no [of "i + m"] by (intro disjI1 exI [of _ "i + m"]) auto
  next
    case (Some x)
    obtain k j cs where x: "x = (k, j, cs)" by (cases x)
    with Some exec_from_bounds [of _ s i k j cs] have k: "match_at (Rep (Suc 0) P) s k = Some (j, cs)" by blast
    then have k': "k < length s" "P (s ! k)" by (auto simp: match_class split: if_splits)
    have jk: "k < j" using k k' by (auto simp: match_class run_length_def Cons_nth_drop_Suc [symmetric] split: if_splits)
    have before: "\<not> P (s ! m)" if "i \<le> m" "m < k" for m
      using exec_from_earlier [OF Some [unfolded x] that] that k'(1) by (auto simp: match_class split: if_splits)
    have "replace_from (Rep (Suc 0) P) g s i = slice s i k @ g cs @ replace_from (Rep (Suc 0) P) g s j"
      using Some x k' jk by (subst replace_from.simps) simp
    with 1(3) consider "c \<in> set (slice s i k)" | "c \<in> set (g cs)" | "c \<in> set (replace_from (Rep (Suc 0) P) g s j)" by auto
    then show ?thesis
    proof cases
      case 1
      then show ?thesis using before set_slice by blast
    next
      case 2
      then show ?thesis by blast
    next
      case 3
      then show ?thesis using 1(2) Some x k' jk by simp
    qed
  qed
qed


lemma replace_all_class: "c \<in> set (replace_all (Rep 1 P) t s) \<Longrightarrow> c \<in> set s \<and> \<not> P c \<or> c \<in> set t"
  using replace_from_class [of c P "\<lambda>_. t" s 0] by (auto simp: replace_all_def)

lemma replace_first_chars: "set (replace_first r [] s) \<subseteq> set s"
  by (auto simp: replace_first_def dest: in_set_takeD in_set_dropD split: option.splits)

lemma trim_chars: "set (trim s) \<subseteq> set s"
  by (auto simp: trim_def trim_end_def trim_start_def dest!: set_dropWhileD)

definition marks :: "char set" where
  "marks = {CHR ''_'', CHR ''@'', CHR ''/''}"

lemma upper_char_marks: "c \<notin> marks \<Longrightarrow> marks \<inter> set (upper_char c) = {}"
  by (auto simp: marks_def upper_char_def is_ascii_lower_def in_range_def char_code_eq_iff [symmetric])
     (auto simp: char_code_def)

lemma title_word_marks: "marks \<inter> set w = {} \<Longrightarrow> marks \<inter> set (title_word w) = {}"
  using upper_char_marks by (cases w) (auto simp: title_word_def)

lemma split_on_chars: "w \<in> set (split_on c s) \<Longrightarrow> set w \<subseteq> set s"
proof (induction s arbitrary: w)
  case (Cons x s)
  obtain y ys where y: "split_on c s = y # ys" by (cases "split_on c s") auto
  with Cons.IH have "set v \<subseteq> set s" if "v = y \<or> v \<in> set ys" for v using that by auto
  moreover have "w = [] \<or> w = y \<or> w \<in> set ys \<or> w = x # y" using Cons.prems y by (auto split: if_splits)
  ultimately show ?case by fastforce
qed simp

lemma join_marks: "\<forall>w \<in> set ws. marks \<inter> set w = {} \<Longrightarrow> marks \<inter> set (join '' '' ws) = {}"
  by (induction "'' ''" ws rule: join.induct) (auto simp: marks_def)

lemma looksRaw_marks: "looksRaw d \<Longrightarrow> marks \<inter> set d \<noteq> {}"
proof -
  assume "looksRaw d"
  then obtain k j cs where "exec_from RAW_LOOKING_PATTERN d 0 = Some (k, j, cs)" by (auto simp: looksRaw_def test_def)
  then have "match_at RAW_LOOKING_PATTERN d k = Some (j, cs)" using exec_from_bounds by blast
  from match_at_mem [OF this] have "\<exists>m < length d. d ! m \<in> marks"
    by (auto simp: RAW_LOOKING_PATTERN_def ch_def marks_def split: if_splits)
  then show "marks \<inter> set d \<noteq> {}" by auto
qed

lemma label_marks:
  assumes "path_parts raw \<noteq> []"
  shows "marks \<inter> set (derivePrincipalLabel raw) = {}"
proof -
  let ?seg = "last (path_parts raw)"
  let ?cut = "replace_first (seq [Bos, Rep 1 is_alpha, ch CHR ''_'']) [] ?seg"
  let ?plain = "replace_all (Rep 1 (one_of ''-_.()'')) '' '' ?cut"
  have "?seg \<in> set (split_on CHR ''/'' (map (\<lambda>c. if c = CHR ''@'' then CHR ''/'' else c) raw))"
    using last_in_set [OF assms] by (auto simp: path_parts_def)
  then have "CHR ''/'' \<notin> set ?seg" "CHR ''@'' \<notin> set ?seg"
    using split_on_parts split_on_chars by fastforce+
  then have cut: "CHR ''/'' \<notin> set ?cut" "CHR ''@'' \<notin> set ?cut" using replace_first_chars by blast+
  have "c \<notin> marks" if "c \<in> set ?plain" for c
    using replace_all_class [OF that] cut by (auto simp: marks_def one_of_def simp del: seq.simps)
  then have "marks \<inter> set (trim ?plain) = {}" using trim_chars by fastforce
  then have "marks \<inter> set (title_word w) = {}" if "w \<in> set (split_on CHR '' '' (trim ?plain))" for w
    using split_on_chars [OF that] by (intro title_word_marks) blast
  then have "\<forall>w \<in> set (map title_word (split_on CHR '' '' (trim ?plain))). marks \<inter> set w = {}" by simp
  moreover have "marks \<inter> set ''Unnamed agent'' = {}" by (simp add: marks_def)
  ultimately show ?thesis using join_marks assms by (simp add: derivePrincipalLabel_def Let_def del: seq.simps)
qed

text \<open>
  Also shown. A principal whose name is a raw identifier is never shown under it: the label has none of the marks that make it
  raw, as long as the name has a character besides them.
\<close>

theorem raw_name_never_shown:
  assumes "looksRaw d" and "path_parts d \<noteq> []"
  shows "fst (principalLabel d) \<noteq> d \<and> marks \<inter> set (fst (principalLabel d)) = {} \<and> snd (principalLabel d) = Some d"
  using label_marks [OF assms(2)] looksRaw_marks [OF assms(1)] assms(1) by (auto simp: principalLabel_def)

theorem raw_name_never_shown_witness:
  "fst (principalLabel ''wf_x@y.org'') \<noteq> ''wf_x@y.org'' \<and> marks \<inter> set (fst (principalLabel ''wf_x@y.org'')) = {} \<and>
   snd (principalLabel ''wf_x@y.org'') = Some ''wf_x@y.org''"
proof (rule raw_name_never_shown)
  show "looksRaw ''wf_x@y.org''" by code_simp
  show "path_parts ''wf_x@y.org'' \<noteq> []" by code_simp
qed

lemma bare_mark_shown: "principalLabel ''@'' = (''@'', Some ''@'')"
  by code_simp

end
