(* ===== verification/Client_Reads.thy ===== *)
theory Client_Reads
  imports Agent_Deploy Approvals Display_Names
begin

text \<open>
  What the web app reads and shows of the hub beside its pages, \<open>apps/web/src\<close>: the state of a query
  (\<open>lib/api-query/envelope.ts\<close>), the pending approvals of a workbench (\<open>pending-approvals.ts\<close>,
  \<open>approval-actions.ts\<close>), the tool packages its agents carry (\<open>tools/deployed-tool-packages.ts\<close>), the workers of all
  benches (\<open>worker-benches.ts\<close>), a file of an asset's repository and the source of a skill (\<open>git-fetch.ts\<close>,
  \<open>skill-source.ts\<close>) and the log of the client (\<open>lib/client-log/index.ts\<close>).
\<close>

section \<open>The state of a query\<close>

datatype 'a api_query = QueryLoading | QueryUnauthenticated | QueryFailed string "nat option" | QueryData 'a

text \<open>What TanStack Query answers: loading, the error it failed with, and the data it holds.\<close>

record 'a query_result =
  qr_loading :: bool
  qr_error :: "js_error option"
  qr_data :: "'a option"

definition toAPIQuery :: "'a query_result \<Rightarrow> 'a api_query" where
  "toAPIQuery r =
     (if qr_loading r then QueryLoading
      else case qr_error r of
        Some e \<Rightarrow>
          (case e of
             Thrown cls _ status _ \<Rightarrow>
               if cls = ''UnauthenticatedError'' then QueryUnauthenticated
               else if cls = ''ApiQueryError'' \<and> status \<noteq> None then QueryFailed (describeQueryError e) status
               else QueryFailed (describeQueryError e) None
           | _ \<Rightarrow> QueryFailed (describeQueryError e) None)
      | None \<Rightarrow> (case qr_data r of Some d \<Rightarrow> QueryData d | None \<Rightarrow> QueryLoading))"

section \<open>Pending approvals\<close>

record pending_approval = approval_display +
  pa_benchName :: "string option"

definition run_ids :: "approval_row list \<Rightarrow> string list" where
  "run_ids rows = fold (\<lambda>r. set_add (aw_runId r)) rows []"

text \<open>
  The reads in hand: of the list, of the name of each run (pending, or what it answered), of the roster (pending, or the
  agents it answered, none when it failed), and the memberships of the person, if they were read.
\<close>

definition usePendingApprovals ::
  "json_env \<Rightarrow> string option \<Rightarrow> approval_row list api_query \<Rightarrow> (string \<Rightarrow> string option option) \<Rightarrow> chat_agent list option \<Rightarrow>
   (string \<times> string) list option \<Rightarrow> pending_approval list api_query" where
  "usePendingApprovals env tenantId rows_query name_read roster memberships =
     (case rows_query of
        QueryData rows \<Rightarrow>
          if tenantId \<noteq> None \<and> list_ex (\<lambda>i. name_read i = None) (run_ids rows) then QueryLoading
          else (case roster of
            None \<Rightarrow> QueryLoading
          | Some agents \<Rightarrow>
              let names = map (\<lambda>i. (i, case name_read i of Some (Some n) \<Rightarrow> n | _ \<Rightarrow> UNNAMED_AGENT)) (run_ids rows);
                  bench = Option.bind memberships (\<lambda>ms. Option.bind tenantId (map_of ms)) in
              QueryData (map (\<lambda>row. approval_display.extend (composeApproval env row (name_for_row names agents row))
                (pending_approval.fields bench)) rows))
      | QueryLoading \<Rightarrow> QueryLoading
      | QueryUnauthenticated \<Rightarrow> QueryUnauthenticated
      | QueryFailed m s \<Rightarrow> QueryFailed m s)"

definition usePendingApprovalCount :: "approval_row list api_query \<Rightarrow> nat option" where
  "usePendingApprovalCount rows_query = (case rows_query of QueryData rows \<Rightarrow> Some (length rows) | _ \<Rightarrow> None)"

definition approve_action :: "'w hub \<Rightarrow> int \<Rightarrow> string \<Rightarrow> string \<Rightarrow> bench \<Rightarrow> 'w net \<Rightarrow> (decision_result \<times> bench) \<times> 'w net" where
  "approve_action hub now t approvalId = resolve hub now t approvalId Once"

definition allowStanding :: "'w hub \<Rightarrow> int \<Rightarrow> string \<Rightarrow> string \<Rightarrow> bench \<Rightarrow> 'w net \<Rightarrow> (decision_result \<times> bench) \<times> 'w net" where
  "allowStanding hub now t approvalId = resolve hub now t approvalId Always"

definition reject_action :: "'w hub \<Rightarrow> int \<Rightarrow> string \<Rightarrow> string \<Rightarrow> bench \<Rightarrow> 'w net \<Rightarrow> (decision_result \<times> bench) \<times> 'w net" where
  "reject_action hub now t approvalId = resolve hub now t approvalId (Reject None)"

section \<open>The tool packages agents carry\<close>

type_synonym tool_package = "string \<times> string"

definition worker_dependencies :: "tool_package list" where
  "worker_dependencies =
     [(''@corbits/artifacts'', ''0.3.0''), (''@corbits/deferred-tools'', ''workspace:*''), (''@corbits/mcp'', ''^0.3.1''),
      (''@corbits/memory'', ''0.2.1''), (''@intx/tools-mail'', ''0.5.0''), (''@intx/tools-posix'', ''0.5.0'')]"

definition WORKER_TOOL_PACKAGES :: "tool_package list" where
  "WORKER_TOOL_PACKAGES = filter (\<lambda>(name, _). starts_with ''@intx/tools-'' name) worker_dependencies"

definition liveAgentsOf :: "chat_agent list \<Rightarrow> chat_agent list" where
  "liveAgentsOf = filter (\<lambda>a. ca_liveAddress a \<noteq> None)"

definition toolPackagesOf :: "'w hub \<Rightarrow> 'w deploy_env \<Rightarrow> string \<Rightarrow> chat_agent \<Rightarrow> ('w, tool_package list) pclient" where
  "toolPackagesOf hub env t a n =
     (if isDefaultWorker a then Some (Inr WORKER_TOOL_PACKAGES, n)
      else case readAgentToolPackagePins hub env t (ca_id a) (ca_assetName a) n of
        None \<Rightarrow> None
      | Some (Inl e, n') \<Rightarrow> Some (Inr [], n')
      | Some (Inr ps, n') \<Rightarrow> Some (Inr ps, n'))"

fun allP :: "('w, 'a) pclient list \<Rightarrow> ('w, 'a list) pclient" where
  "allP [] = liftP (returnE [])"
| "allP (m # ms) = bindP m (\<lambda>x. bindP (allP ms) (\<lambda>xs. liftP (returnE (x # xs))))"

text \<open>The \<open>Map\<close> of the packages in the order they were first met, with the agents of each in the order they were met.\<close>

type_synonym package_map = "(string \<times> string \<times> string list) list"

definition carry :: "string \<Rightarrow> tool_package \<Rightarrow> package_map \<Rightarrow> package_map" where
  "carry agent pkg pkgs =
     (let entry = (case map_of pkgs (fst pkg) of None \<Rightarrow> (snd pkg, []) | Some e \<Rightarrow> e) in
      AList.update (fst pkg) (fst entry, set_add agent (snd entry)) pkgs)"

definition packages_by_name :: "(string \<times> tool_package list) list \<Rightarrow> package_map" where
  "packages_by_name per_agent = fold (\<lambda>(agent, ps). fold (carry agent) ps) per_agent []"

definition deployed_packages :: "(string \<Rightarrow> string \<Rightarrow> int) \<Rightarrow> (string \<times> tool_package list) list \<Rightarrow> package_map" where
  "deployed_packages cmp per_agent =
     js_sort (\<lambda>a b. cmp (fst a) (fst b) \<le> 0)
       (map (\<lambda>(name, version, agents). (name, version, js_sort (\<lambda>a b. cmp a b \<le> 0) agents)) (packages_by_name per_agent))"

definition listDeployedToolPackages ::
  "'w hub \<Rightarrow> 'w deploy_env \<Rightarrow> mail_env \<Rightarrow> redeploys \<Rightarrow> (string \<Rightarrow> string \<Rightarrow> int) \<Rightarrow> string \<Rightarrow> ('w, package_map) pclient" where
  "listDeployedToolPackages hub env me rd cmp t =
     bindP (liftP (listChatAgents hub me rd t)) (\<lambda>listed.
       let agents = liveAgentsOf listed in
       bindP (allP (map (toolPackagesOf hub env t) agents)) (\<lambda>packages.
         liftP (returnE (deployed_packages cmp (zip (map ca_name agents) packages)))))"

section \<open>The workers of all benches\<close>

definition RESTART_POLL_MS :: nat where "RESTART_POLL_MS = 3000"

text \<open>\<open>refetchInterval\<close> of the agents of a bench, given the ones it holds.\<close>

definition roster_interval :: "chat_agent list option \<Rightarrow> nat option" where
  "roster_interval held =
     (if list_ex (\<lambda>a. ca_liveAddress a = None) (case held of None \<Rightarrow> [] | Some xs \<Rightarrow> xs) then Some RESTART_POLL_MS else None)"

definition bench_workers ::
  "(string \<Rightarrow> chat_agent list option) \<Rightarrow> (string \<Rightarrow> string option) \<Rightarrow> hub_tenant list \<Rightarrow> (hub_tenant \<times> chat_agent) list" where
  "bench_workers agents names benches =
     concat (map (\<lambda>bench. map (\<lambda>a. (bench,
         if isDefaultWorker a
         then a \<lparr> ca_name := (case names (ht_id bench) of None \<Rightarrow> DEFAULT_WORKER_NAME | Some n \<Rightarrow> n) \<rparr>
         else a)) (case agents (ht_id bench) of None \<Rightarrow> [] | Some xs \<Rightarrow> xs)) benches)"

section \<open>A file of a repository\<close>

text \<open>
  isomorphic-git is a parameter: a fresh repository in memory, a remote added to it, a fetch of a reference with its
  \<open>Authorization\<close> header, the object a reference names and the text of a file at an object; each may throw, and its
  \<open>NotFoundError\<close> is an error of that class.
\<close>

record ('w, 'r) git_reads =
  gr_init :: "('w, 'r) client"
  gr_addRemote :: "'r \<Rightarrow> string \<Rightarrow> string \<Rightarrow> ('w, unit) client"
  gr_fetch :: "'r \<Rightarrow> string \<Rightarrow> string \<Rightarrow> string \<Rightarrow> ('w, unit) client"
  gr_resolveRef :: "'r \<Rightarrow> string \<Rightarrow> ('w, string) client"
  gr_readBlob :: "'r \<Rightarrow> string \<Rightarrow> string \<Rightarrow> ('w, string) client"
  gr_message :: "js_error \<Rightarrow> string"

definition FETCHED_MAIN_REF :: string where "FETCHED_MAIN_REF = ''refs/remotes/origin/main''"

definition cloneAndFetchMain :: "('w, 'r) git_reads \<Rightarrow> string \<Rightarrow> string \<Rightarrow> ('w, 'r) client" where
  "cloneAndFetchMain g url token =
     bindE (gr_init g) (\<lambda>repo.
     bindE (gr_addRemote g repo ''origin'' url) (\<lambda>_.
     bindE (gr_fetch g repo ''origin'' MAIN_REF (''Bearer '' @ token)) (\<lambda>_. returnE repo)))"

definition is_not_found :: "js_error \<Rightarrow> bool" where
  "is_not_found e = (case e of Thrown cls _ _ _ \<Rightarrow> cls = ''NotFoundError'' | _ \<Rightarrow> False)"

definition git_fetch_error :: "('w, 'r) git_reads \<Rightarrow> js_error \<Rightarrow> ('w, 'a) client" where
  "git_fetch_error g e = throwE (error_of ''GitFetchError'' (gr_message g e) None)"

definition fetchSourceFile :: "('w, 'r) git_reads \<Rightarrow> string \<Rightarrow> string \<Rightarrow> string \<Rightarrow> ('w, string) client" where
  "fetchSourceFile g url token filepath =
     catchE (bindE (cloneAndFetchMain g url token) (\<lambda>repo.
             bindE (gr_resolveRef g repo FETCHED_MAIN_REF) (\<lambda>oid.
             gr_readBlob g repo oid filepath)))
       (git_fetch_error g)"

definition fetchSourceFileOrEmpty :: "('w, 'r) git_reads \<Rightarrow> string \<Rightarrow> string \<Rightarrow> string \<Rightarrow> ('w, string) client" where
  "fetchSourceFileOrEmpty g url token filepath =
     catchE (bindE (cloneAndFetchMain g url token) (\<lambda>repo.
             bindE (catchE (bindE (gr_resolveRef g repo FETCHED_MAIN_REF) (\<lambda>oid. returnE (Some oid)))
                           (\<lambda>e. if is_not_found e then returnE None else throwE e)) (\<lambda>found.
             case found of None \<Rightarrow> returnE [] | Some oid \<Rightarrow> gr_readBlob g repo oid filepath)))
       (\<lambda>e. if is_not_found e then returnE [] else git_fetch_error g e)"

definition SKILL_SOURCE_PATH :: string where "SKILL_SOURCE_PATH = ''SKILL.md''"

definition skillAssetUrl :: "'w install_env \<Rightarrow> string \<Rightarrow> string \<Rightarrow> string" where
  "skillAssetUrl env t assetName = ie_origin env @ tenantPath t (''/assets/skill/'' @ assetName @ ''.git'')"

definition readSkillSource ::
  "'w hub \<Rightarrow> 'w install_env \<Rightarrow> ('w, 'r) git_reads \<Rightarrow> string \<Rightarrow> string \<Rightarrow> string \<Rightarrow> ('w, string) pclient" where
  "readSkillSource hub env g t assetId assetName =
     withGitToken hub env t assetId [''can_read'']
       (\<lambda>token. liftP (fetchSourceFileOrEmpty g (skillAssetUrl env t assetName) token SKILL_SOURCE_PATH))"

definition writeSkillSource ::
  "'w hub \<Rightarrow> 'w install_env \<Rightarrow> 'w git_ext \<Rightarrow> (string \<Rightarrow> string) \<Rightarrow> int \<Rightarrow> string \<Rightarrow> string \<Rightarrow> string \<Rightarrow> string \<Rightarrow> ('w, string) pclient" where
  "writeSkillSource hub env gx qt now t assetId assetName content =
     withGitToken hub env t assetId [''can_read'', ''can_push'']
       (\<lambda>token. bindP (pushSourceTree hub gx qt now (skillAssetUrl env t assetName) token [(SKILL_SOURCE_PATH, content)] ''Update SKILL.md'')
         (\<lambda>pushed. liftP (returnE (fst pushed))))"

section \<open>The log of the client\<close>

datatype log_level = LDebug | LInfo | LWarn | LError

fun LEVEL_ORDER :: "log_level \<Rightarrow> nat" where
  "LEVEL_ORDER LDebug = 0"
| "LEVEL_ORDER LInfo = 1"
| "LEVEL_ORDER LWarn = 2"
| "LEVEL_ORDER LError = 3"

record log_entry =
  le_at :: string
  le_category :: string
  le_level :: log_level
  le_message :: string
  le_data :: "json option"

definition RING_BUFFER_SIZE :: nat where "RING_BUFFER_SIZE = 500"

text \<open>The ring buffer, the threshold, and what the console was given: the sink, the line and the data.\<close>

datatype console_sink = ConsoleError | ConsoleWarn | ConsoleLog

record client_log =
  cl_buffer :: "log_entry list"
  cl_threshold :: log_level
  cl_console :: "(console_sink \<times> string \<times> json) list"

definition consoleSinkFor :: "log_level \<Rightarrow> console_sink" where
  "consoleSinkFor level = (if level = LError then ConsoleError else if level = LWarn then ConsoleWarn else ConsoleLog)"

definition log_record :: "log_entry \<Rightarrow> client_log \<Rightarrow> client_log" where
  "log_record e s =
     (let pushed = cl_buffer s @ [e];
          s' = s \<lparr> cl_buffer := (if RING_BUFFER_SIZE < length pushed then tl pushed else pushed) \<rparr> in
      if LEVEL_ORDER (cl_threshold s) \<le> LEVEL_ORDER (le_level e)
      then s' \<lparr> cl_console := cl_console s @
        [(consoleSinkFor (le_level e), ''['' @ le_category e @ ''] '' @ le_message e,
          case le_data e of None \<Rightarrow> JStr [] | Some d \<Rightarrow> d)] \<rparr>
      else s')"

datatype log_op = Record log_entry | SetThreshold log_level | FlushBuffer | PeekBuffer | ResetLog

fun log_step :: "log_op \<Rightarrow> client_log \<Rightarrow> client_log" where
  "log_step (Record e) s = log_record e s"
| "log_step (SetThreshold level) s = s \<lparr> cl_threshold := level \<rparr>"
| "log_step FlushBuffer s = s \<lparr> cl_buffer := [] \<rparr>"
| "log_step PeekBuffer s = s"
| "log_step ResetLog s = s \<lparr> cl_buffer := [], cl_threshold := LWarn \<rparr>"

definition new_log :: client_log where
  "new_log = \<lparr> cl_buffer = [], cl_threshold = LWarn, cl_console = [] \<rparr>"

section \<open>The log keeps the last lines\<close>

text \<open>What was logged since the buffer was last taken.\<close>

fun logged :: "log_op \<Rightarrow> log_entry list \<Rightarrow> log_entry list" where
  "logged (Record e) es = es @ [e]"
| "logged FlushBuffer es = []"
| "logged ResetLog es = []"
| "logged _ es = es"

definition last_lines :: "nat \<Rightarrow> 'a list \<Rightarrow> 'a list" where
  "last_lines k xs = drop (length xs - k) xs"

lemma last_lines_push:
  "last_lines k (xs @ [x]) =
     (if k < length (last_lines k xs @ [x]) then tl (last_lines k xs @ [x]) else last_lines k xs @ [x])" if "0 < k"
proof (cases "k \<le> length xs")
  case True
  with that obtain y ys where y: "drop (length xs - k) xs = y # ys" by (cases "drop (length xs - k) xs") auto
  then have "drop (Suc (length xs) - k) xs = ys" using True by (metis Suc_diff_le drop_Suc list.sel(3) tl_drop)
  with True y that show ?thesis by (simp add: last_lines_def) (metis length_Cons length_drop diff_diff_cancel less_Suc_eq)
next
  case False
  then show ?thesis by (simp add: last_lines_def)
qed

lemma log_step_lines:
  "cl_buffer s = last_lines RING_BUFFER_SIZE es \<Longrightarrow> cl_buffer (log_step op s) = last_lines RING_BUFFER_SIZE (logged op es)"
  by (cases op) (simp_all add: log_record_def Let_def last_lines_push RING_BUFFER_SIZE_def last_lines_def [of _ "[]"])

text \<open>
  Also shown. Whatever is logged, taken and reset, the buffer holds the last 500 lines logged since it was last taken, in order, so never
  more than that.
\<close>

theorem log_keeps_last:
  "cl_buffer (fold log_step ops new_log) = last_lines RING_BUFFER_SIZE (fold logged ops []) \<and>
   length (cl_buffer (fold log_step ops new_log)) \<le> RING_BUFFER_SIZE"
proof -
  have "cl_buffer (fold log_step ops s) = last_lines RING_BUFFER_SIZE (fold logged ops es)"
    if "cl_buffer s = last_lines RING_BUFFER_SIZE es" for s es
    using that by (induction ops arbitrary: s es) (simp_all add: log_step_lines)
  from this [of new_log "[]"] show ?thesis by (simp add: new_log_def last_lines_def)
qed

section \<open>The packages and who carries them\<close>

definition carried_pairs :: "(string \<times> tool_package list) list \<Rightarrow> (string \<times> tool_package) list" where
  "carried_pairs per_agent = concat (map (\<lambda>(agent, ps). map (Pair agent) ps) per_agent)"

definition carriers :: "(string \<times> tool_package) list \<Rightarrow> string \<Rightarrow> string list" where
  "carriers pairs name = map fst (filter (\<lambda>(_, p). fst p = name) pairs)"

lemma packages_of_pairs: "packages_by_name per_agent = fold (\<lambda>(a, p). carry a p) (carried_pairs per_agent) []"
proof -
  have "fold (\<lambda>(a, p). carry a p) (map (Pair agent) ps) m = fold (carry agent) ps m" for agent ps m
    by (induction ps arbitrary: m) simp_all
  then have "fold (\<lambda>(agent, ps). fold (carry agent) ps) per_agent m = fold (\<lambda>(a, p). carry a p) (carried_pairs per_agent) m" for m
    by (induction per_agent arbitrary: m) (auto simp: carried_pairs_def)
  then show ?thesis by (simp add: packages_by_name_def)
qed

lemma map_of_packages:
  "map_option snd (map_of (fold (\<lambda>(a, p). carry a p) pairs []) name) =
     (if carriers pairs name = [] then None else Some (fold set_add (carriers pairs name) []))"
proof (induction pairs rule: rev_induct)
  case (snoc x pairs)
  obtain a n v where x: "x = (a, n, v)" by (cases x)
  let ?m = "fold (\<lambda>(a, p). carry a p) pairs []"
  show ?case
  proof (cases "n = name")
    case False
    with snoc x show ?thesis by (simp add: carry_def Let_def update_conv' carriers_def)
  next
    case True
    with snoc x show ?thesis
      by (cases "map_of ?m name") (auto simp: carry_def Let_def update_conv' carriers_def split: if_splits)
  qed
qed (simp add: carriers_def)

lemma distinct_packages: "distinct (map fst (fold (\<lambda>(a, p). carry a p) pairs []))"
  by (induction pairs rule: rev_induct) (auto simp: carry_def Let_def distinct_update split: prod.splits)

lemma carriers_set: "a \<in> set (carriers (carried_pairs per_agent) name) \<longleftrightarrow> (\<exists>ps v. (a, ps) \<in> set per_agent \<and> (name, v) \<in> set ps)"
  by (force simp: carriers_def carried_pairs_def)

lemma packages_entry:
  assumes "(name, version, agents) \<in> set (packages_by_name per_agent)"
  shows "distinct agents \<and> set agents = {a. \<exists>ps v. (a, ps) \<in> set per_agent \<and> (name, v) \<in> set ps}"
proof -
  have "map_of (packages_by_name per_agent) name = Some (version, agents)"
    using assms distinct_packages by (simp add: packages_of_pairs map_of_eq_Some_iff)
  then have "agents = fold set_add (carriers (carried_pairs per_agent) name) []"
    using map_of_packages [of "carried_pairs per_agent" name] by (simp add: packages_of_pairs split: if_splits)
  then show ?thesis
    using set_fold_add [of "\<lambda>d. d" "carriers (carried_pairs per_agent) name" "[]"]
      distinct_fold_add [of "[]" "\<lambda>d. d" "carriers (carried_pairs per_agent) name"] carriers_set [of _ per_agent name] by auto
qed

lemma packages_names:
  "name \<in> fst ` set (packages_by_name per_agent) \<longleftrightarrow> (\<exists>a ps v. (a, ps) \<in> set per_agent \<and> (name, v) \<in> set ps)"
proof -
  have "name \<in> fst ` set (packages_by_name per_agent) \<longleftrightarrow> map_of (packages_by_name per_agent) name \<noteq> None"
    by (simp add: map_of_eq_None_iff)
  also have "\<dots> \<longleftrightarrow> carriers (carried_pairs per_agent) name \<noteq> []"
    using map_of_packages [of "carried_pairs per_agent" name] by (cases "map_of (packages_by_name per_agent) name") (auto simp: packages_of_pairs split: if_splits)
  also have "\<dots> \<longleftrightarrow> (\<exists>a. a \<in> set (carriers (carried_pairs per_agent) name))" by (cases "carriers (carried_pairs per_agent) name") auto
  finally show ?thesis using carriers_set by blast
qed

text \<open>
  Also shown. The list of deployed packages is what the agents carry: each package carried by one of them is listed once and no other is,
  under it are exactly the agents that carry it, each once, and both are in the order of their names.
\<close>

theorem packages_are_carried:
  assumes "compare_ok cmp"
  shows "distinct (map fst (deployed_packages cmp per_agent)) \<and>
    sorted_wrt (\<lambda>a b. cmp (fst a) (fst b) \<le> 0) (deployed_packages cmp per_agent) \<and>
    fst ` set (deployed_packages cmp per_agent) = {name. \<exists>a ps v. (a, ps) \<in> set per_agent \<and> (name, v) \<in> set ps} \<and>
    (\<forall>(name, version, agents) \<in> set (deployed_packages cmp per_agent).
       distinct agents \<and> sorted_wrt (\<lambda>a b. cmp a b \<le> 0) agents \<and>
       set agents = {a. \<exists>ps v. (a, ps) \<in> set per_agent \<and> (name, v) \<in> set ps})"
proof -
  let ?le = "\<lambda>a b. cmp a b \<le> 0"
  let ?named = "map (\<lambda>(name, version, agents). (name, version, js_sort ?le agents)) (packages_by_name per_agent)"
  let ?out = "deployed_packages cmp per_agent"
  have out: "?out = js_sort (\<lambda>a b. cmp (fst a) (fst b) \<le> 0) ?named" by (simp add: deployed_packages_def)
  have fsts: "map fst ?named = map fst (packages_by_name per_agent)" by (simp add: comp_def case_prod_beta)
  have "mset (map fst ?out) = mset (map fst (packages_by_name per_agent))" unfolding out fsts [symmetric] by (simp only: mset_map mset_js_sort)
  then have names: "distinct (map fst ?out)" "fst ` set ?out = fst ` set (packages_by_name per_agent)"
    using distinct_packages [of "carried_pairs per_agent"] packages_of_pairs [of per_agent]
    by (metis mset_eq_imp_distinct_iff, metis set_map set_mset_mset)
  have sorted: "sorted_wrt (\<lambda>a b. cmp (fst a) (fst b) \<le> 0) ?out"
    unfolding out by (rule comparator.sorted_sort [OF compare_comparator [OF compare_on [OF assms]]])
  have each: "distinct agents \<and> sorted_wrt ?le agents \<and> set agents = {a. \<exists>ps v. (a, ps) \<in> set per_agent \<and> (name, v) \<in> set ps}"
    if "(name, version, agents) \<in> set ?out" for name version agents
  proof -
    from that obtain bs where bs: "(name, version, bs) \<in> set (packages_by_name per_agent)" "agents = js_sort ?le bs"
      by (auto simp: out)
    have "mset agents = mset bs" using bs(2) by simp
    then have "distinct agents" "set agents = set bs" using packages_entry [OF bs(1)] by (metis mset_eq_imp_distinct_iff, metis set_mset_mset)
    moreover have "sorted_wrt ?le agents"
      unfolding bs(2) by (rule comparator.sorted_sort [OF compare_comparator [OF assms]])
    ultimately show ?thesis using packages_entry [OF bs(1)] by simp
  qed
  have all: "fst ` set ?out = {name. \<exists>a ps v. (a, ps) \<in> set per_agent \<and> (name, v) \<in> set ps}"
    unfolding names(2) using packages_names [of _ per_agent] by blast
  show ?thesis by (intro conjI names(1) sorted all) (use each in blast)
qed

theorem packages_are_carried_witness:
  "deployed_packages (\<lambda>a b. int (length a) - int (length b)) [(''Ann'', [(''x'', ''1'')]), (''Jo'', [(''x'', ''2''), (''yy'', ''1'')])] =
     [(''x'', ''1'', [''Jo'', ''Ann'']), (''yy'', ''1'', [''Jo''])] \<and>
   distinct (map fst (deployed_packages (\<lambda>a b. int (length a) - int (length b))
     [(''Ann'', [(''x'', ''1'')]), (''Jo'', [(''x'', ''2''), (''yy'', ''1'')])]))"
  using packages_are_carried [OF compare_key [of "\<lambda>s. int (length s)"], of "[(''Ann'', [(''x'', ''1'')]), (''Jo'', [(''x'', ''2''), (''yy'', ''1'')])]"]
  by (simp add: deployed_packages_def packages_by_name_def carry_def set_add_def)

section \<open>Reading a file that may not be there\<close>

text \<open>
  Also shown. Reading the source of an asset that may be empty is reading the file with one difference: what was not found, the
  branch or the file, reads as the empty text; every other failure is the same error, and a text that is read is the same.
\<close>

theorem empty_only_when_not_found:
  "fetchSourceFileOrEmpty g url token path n =
     (case bindE (cloneAndFetchMain g url token) (\<lambda>repo. bindE (gr_resolveRef g repo FETCHED_MAIN_REF) (\<lambda>oid. gr_readBlob g repo oid path)) n of
        (Inr content, n') \<Rightarrow> (Inr content, n')
      | (Inl e, n') \<Rightarrow>
          if is_not_found e then (Inr [], n') else fetchSourceFile g url token path n)"
  by (simp add: fetchSourceFileOrEmpty_def fetchSourceFile_def git_fetch_error_def catchE_def bindE_def returnE_def throwE_def
        split: prod.splits sum.splits option.splits)

lemma pending_rows_kept:
  "usePendingApprovals env t q names roster ms = QueryData xs \<Longrightarrow>
     \<exists>rows. q = QueryData rows \<and> map ad_id xs = map aw_id rows \<and> map ad_status xs = map aw_status rows"
  by (auto simp: usePendingApprovals_def Let_def composeApproval_def approval_display.defs pending_approval.defs
      split: api_query.splits option.splits if_splits)

end
