(* ===== verification/Spec2Isabelle.thy ===== *)
theory Spec2Isabelle
  imports Process_Provisioner Inference_Routes Inference_Api Mcp_Servers Deferred_Tools Stock_Hub Error_Sink Worker_Definition Hub_Edge Workbench_Chat Approvals Shell_Canvas App_Routes Query_Cache Agent_Roles Install Insights Settings_Api Agent_Deploy Workbench_Create Deployable_Package Mcp_Names Routines Sidecar_Boot Hub_Mount Palette Session Library Display_Names Client_Reads
begin

text \<open>
  Workbench is a web application for people and agents that work together, on a hub that runs the agents as workflows. This
  library models the program's own code, the TypeScript under \<open>src/apps\<close> and \<open>src/packages\<close>; what is under \<open>src/vendor\<close> (the
  Interchange hub and engine) and the npm packages are the environment the models are given.

  \<^bold>\<open>The program.\<close> A person's browser runs the web app (\<open>apps/web\<close>): it signs in, lists tenants (workbenches), shows mail threads
  as a chat, deploys agents by pushing their source to the hub's git server, sets their models, tools, roles and schedules, and
  caches the hub's answers. The hub (\<open>apps/hub\<close>) serves the web app, mounts the product's routes beside the vendored API,
  delivers mail to runs and starts sidecar processes for them. A sidecar (\<open>apps/sidecar\<close>) keeps a signing key, connects to the
  hub and runs one child process for each workflow. A worker (\<open>packages/worker\<close>) is the workflow an agent is, with a director
  that defers tools (\<open>packages/deferred-tools\<close>); caught failures go through one sink (\<open>packages/error-sink\<close>).

  \<^bold>\<open>The theories\<close>, each with the definitions of its part in the order of the code, then what is proved of them.

  \<^item> \<^theory_text>\<open>Prelude\<close>: results and state-and-exception computations (\<open>comp\<close>) with their Hoare rules, strings, JavaScript's stable sort
    and ordered maps, and the locales \<open>comparator\<close> (what a comparison must keep for sorting to be canonical) and
    \<open>append_only\<close> (outputs that only grow). \<^theory_text>\<open>Js_Number\<close>, \<^theory_text>\<open>Js_Double\<close>, \<^theory_text>\<open>Js_Regex\<close>: \<open>Number(text)\<close>, rounding, and
    regular expressions with a backtracking matcher. \<^theory_text>\<open>Http\<close>: JSON, requests, the trace of what was sent, and the helpers of
    \<open>api.ts\<close> and \<open>lib/api-query/envelope.ts\<close>; \<open>sends\<close> and \<open>sendsP\<close> bound what a client may send.
  \<^item> The hub: \<^theory_text>\<open>Allocation_Store\<close> and \<^theory_text>\<open>Process_Provisioner\<close> (\<open>provisioners/process.ts\<close>: the durable records of
    allocations, fenced by generation, and the processes started for them; refinement of an atomic map, no restart after a
    confirmed destroy under crashes and I/O faults, termination with its deadline), \<^theory_text>\<open>Hub_Edge\<close> (\<open>static-web.ts\<close>,
    \<open>mailbox-send.ts\<close>, \<open>workflow-run-authenticator.ts\<close>: files served, mail delivered, tokens authenticated), \<^theory_text>\<open>Hub_Boot\<close>
    and \<^theory_text>\<open>Hub_Mount\<close> (\<open>server.ts\<close>, \<open>migrate.ts\<close>, \<open>corbits-mount.ts\<close>, \<open>run-stream.ts\<close>, \<open>mailbox-persist.ts\<close>: settings, the
    migrations of hubs that start at once, the order of the boot, the resolvers of the mounted routes, the stream of a run).
  \<^item> The sidecar: \<^theory_text>\<open>Sidecar_Config\<close> (the settings of \<open>config.ts\<close> and \<open>index.ts\<close> and the environment of children),
    \<^theory_text>\<open>Sidecar_Process\<close> (the signing key of \<open>signing-keypair.ts\<close>, the pipes with a streaming UTF-8 decoder and the process group
    of \<open>workflow-child-spawner.ts\<close>, a step's tools) and \<^theory_text>\<open>Sidecar_Boot\<close> (the order of the boot and the hub link's callbacks).
  \<^item> The worker: \<^theory_text>\<open>Worker_Definition\<close> (\<open>packages/worker/src\<close>: the definition its entry builds is the JSON beside it) and
    \<^theory_text>\<open>Deferred_Tools\<close> (\<open>packages/deferred-tools/src\<close>: search, selection and the tools block, which only grows).
    \<^theory_text>\<open>Error_Sink\<close> (\<open>packages/error-sink/src\<close>): redaction and reports.
  \<^item> Deploying: \<^theory_text>\<open>Git_Push\<close> (\<open>git-push.ts\<close>: the pkt-line wire and the verdict of a push), \<^theory_text>\<open>Install\<close> (\<open>git-token.ts\<close>,
    \<open>install-package.ts\<close>, \<open>agent-hub-credential.ts\<close>), \<^theory_text>\<open>Agent_Deploy\<close> (\<open>agent-deploy.ts\<close>, \<open>worker-deploy.ts\<close>,
    \<open>workflow-source.ts\<close>, \<open>agent-source-read.ts\<close>), \<^theory_text>\<open>Workbench_Create\<close> (\<open>workbench-create.ts\<close>, \<open>opening-message.ts\<close>, the
    redeploys), \<^theory_text>\<open>Agent_Roles\<close>, \<^theory_text>\<open>Deployable_Package\<close> (packages offered in a message).
  \<^item> The chat: \<^theory_text>\<open>Threads\<close> (\<open>threads.ts\<close>: grouping by chains of replies), \<^theory_text>\<open>Workbench_Chat\<close> (\<open>chat/threads-api.ts\<close> and the
    roster), \<^theory_text>\<open>Mentions\<close>, \<^theory_text>\<open>Worker_Status\<close>, \<^theory_text>\<open>Approvals\<close>, \<^theory_text>\<open>Stock_Hub\<close> (\<open>needs-converge.ts\<close>, \<open>needs-list.ts\<close>).
  \<^item> Settings and tools: \<^theory_text>\<open>Inference_Routes\<close> and \<^theory_text>\<open>Inference_Api\<close> (\<open>settings/inference\<close>), \<^theory_text>\<open>Mcp_Servers\<close> and \<^theory_text>\<open>Mcp_Names\<close>,
    \<^theory_text>\<open>Settings_Api\<close> (principals, roles, grants, credentials, skills), \<^theory_text>\<open>Routines\<close> (schedules), \<^theory_text>\<open>Insights\<close> (rollups of runs).
  \<^item> The shell: \<^theory_text>\<open>App_Paths\<close> and \<^theory_text>\<open>App_Routes\<close> (parsers and builders of paths, the route table and the path store),
    \<^theory_text>\<open>Shell_Canvas\<close>, \<^theory_text>\<open>Query_Cache\<close> (persistence of the query cache in IndexedDB), \<^theory_text>\<open>Palette\<close> (the command palette),
    \<^theory_text>\<open>Session\<close> (sign-in, first login, gates, theme), \<^theory_text>\<open>Library\<close> (artifacts, their viewers, links and saves),
    \<^theory_text>\<open>Display_Names\<close> (names and labels of workers and people, titles), \<^theory_text>\<open>Client_Reads\<close> (what is read of the hub beside
    the pages, and the log).

  \<^bold>\<open>How code becomes definitions.\<close> A record is the state a module keeps, a function is the definition of its name. An awaited
  call is \<open>bindE\<close>, a \<open>catch\<close> is \<open>catchE\<close>, so every \<open>throw\<close>, early return and caught error is a branch. A client of the hub is a
  computation over \<open>net\<close>, whose hub is an arbitrary function from requests and a state to answers: a property holds for every
  hub, misbehaving ones included. Loops are structural recursions where the code walks a list, and \<open>partial_function\<close> where it
  may not end: \<open>Threads.rootOf\<close> (a circle of replies), \<open>Stock_Hub.fetch_from\<close>, \<open>Agent_Roles.list_roles\<close> and
  \<open>find_principal\<close> (a hub that never stops giving cursors), \<open>Git_Push.read_pkts\<close> (a header with a sign), \<open>Mcp_Names.next_free\<close>;
  for these, not returning is \<open>None\<close>, and where the code does end this is proved. The other bounds are the code's own:
  \<open>MAX_CAUSE_DEPTH\<close> of the error sink, \<open>PENDING_TURN_TIMEOUT_MS\<close> of a worker's status, the grace period of a process.
  Concurrency that matters is a sequence of steps: calls of the provisioner between awaits, the events of the query cache with
  its microtasks and transactions, the effects behind a worker's status, the events of a process group, the migrations of several hubs under one lock. A \<open>Promise.all\<close> is
  run in order, all its parts even when one fails.

  \<^bold>\<open>Parameters.\<close> The hub, the database, the file system and the kernel's processes; random ids and clocks; the schemas of
  vendored packages and the words of their errors; \<open>JSON.parse\<close> and \<open>JSON.stringify\<close> where only their results matter; the MIME
  decoder, dates and time zones, \<open>localeCompare\<close>, \<open>normalize\<close>, Unicode tables, the URL parser; isomorphic-git; cryptography.
  Where a property needs a law of a parameter it is a hypothesis, and its witness instantiates the parameter.

  \<^bold>\<open>Limits of the model.\<close> Strings are the code points to U+00FF, so that a character is a code unit (\<open>Mcp_Names\<close> and the pipes of
  \<open>Sidecar_Process\<close> use lists of units instead); in the texts shown a dash or an ellipsis outside this range is written with ASCII
  characters. Numbers are exact, and rounded to doubles only where a person sees the difference. Request headers, and the bytes
  of binary bodies, are not told apart.

  \<^bold>\<open>Interfaces.\<close> \<open>comparator\<close> and \<open>append_only\<close> of \<^theory_text>\<open>Prelude\<close> are interpreted where the code sorts by a comparison and where the
  director's tools grow; \<open>allocation_state_store\<close> is what the provisioner relies on of its store, interpreted on the file-backed
  one; \<open>row_store\<close> is what the stores of the browser share, interpreted on each of them.

  \<^bold>\<open>Not modelled.\<close> Rendering: the React components, their hooks, styles and texts. Scripts for development and builds, the voice
  interface, and the vendored packages. What a component computes before it renders is modelled where it is a function of its own.
\<close>

end
